(* ===== verification/Relational.thy ===== *)
theory Relational
  imports Prelude
begin

text \<open>
  The relational layer the Rust code reaches through \<open>sqlx\<close>. A table is the list of its rows (the
  order is the insertion order and no statement of the code depends on it without an
  \<^verbatim>\<open>order by\<close>). A statement reads or returns the table, and refuses a row that breaks a
  \<^verbatim>\<open>check\<close> constraint or a unique index of \<^verbatim>\<open>schema.sql\<close>. The lemmas of the locale
  \<open>constrained_table\<close> hold for every table whose primary key is one of its unique indexes.
\<close>

subsection \<open>What a statement can answer with\<close>

datatype sql_error =
    Check_violation
  | Unique_violation
  | Foreign_key_violation
  | Row_not_found
  | Decode_error

text \<open>\<open>PersistenceError\<close> of \<^verbatim>\<open>crates/persistence/src/lib.rs\<close>.\<close>

datatype persistence_error =
    Connect sql_error
  | SchemaFailed sql_error
  | Query sql_error

subsection \<open>Statements\<close>

definition fetch_optional :: "('r \<Rightarrow> bool) \<Rightarrow> 'r list \<Rightarrow> 'r option" where
  "fetch_optional p t = find p t"

definition fetch_all :: "('r \<Rightarrow> bool) \<Rightarrow> 'r list \<Rightarrow> 'r list" where
  "fetch_all p t = filter p t"

definition row_exists :: "('r \<Rightarrow> bool) \<Rightarrow> 'r list \<Rightarrow> bool" where
  "row_exists p t \<longleftrightarrow> list_ex p t"

definition rows_affected :: "('r \<Rightarrow> bool) \<Rightarrow> 'r list \<Rightarrow> nat" where
  "rows_affected p t = length (filter p t)"

definition update_where :: "('r \<Rightarrow> bool) \<Rightarrow> ('r \<Rightarrow> 'r) \<Rightarrow> 'r list \<Rightarrow> 'r list" where
  "update_where p f t = map (\<lambda>r. if p r then f r else r) t"

definition delete_where :: "('r \<Rightarrow> bool) \<Rightarrow> 'r list \<Rightarrow> 'r list" where
  "delete_where p t = filter (\<lambda>r. \<not> p r) t"

text \<open>
  \<^verbatim>\<open>delete \<dots> where k in (select k \<dots> where p limit n)\<close>: how many rows went, and the table. Without
  an \<^verbatim>\<open>order by\<close> PostgreSQL decides which rows the subquery meets first; \<open>scan\<close> is the order it
  takes, an argument of every operation that has such a statement.
\<close>

definition delete_limited ::
  "('r list \<Rightarrow> 'r list) \<Rightarrow> ('r \<Rightarrow> 'k) \<Rightarrow> ('r \<Rightarrow> bool) \<Rightarrow> nat \<Rightarrow> 'r list \<Rightarrow> nat \<times> 'r list" where
  "delete_limited scan k p n t =
     (let ks = map k (take n (filter p (scan t)))
      in (rows_affected (\<lambda>r. k r \<in> set ks) t, delete_where (\<lambda>r. k r \<in> set ks) t))"

text \<open>A scan meets the rows of the table, each once.\<close>

definition scans :: "('r list \<Rightarrow> 'r list) \<Rightarrow> 'r list \<Rightarrow> bool" where
  "scans scan t \<longleftrightarrow> set (scan t) = set t \<and> length (scan t) = length t"

text \<open>
  A table satisfies its schema: every row meets the checks and no two rows collide on a unique
  index (\<open>clash\<close> says that two rows would).
\<close>

definition table_ok :: "('r \<Rightarrow> bool) \<Rightarrow> ('r \<Rightarrow> 'r \<Rightarrow> bool) \<Rightarrow> 'r list \<Rightarrow> bool" where
  "table_ok ok clash t \<longleftrightarrow> list_all ok t \<and> sorted_wrt (\<lambda>x y. \<not> clash x y) t"

definition sql_insert ::
  "('r \<Rightarrow> bool) \<Rightarrow> ('r \<Rightarrow> 'r \<Rightarrow> bool) \<Rightarrow> 'r \<Rightarrow> 'r list \<Rightarrow> sql_error + 'r list" where
  "sql_insert ok clash r t =
     (if \<not> ok r then Inl Check_violation
      else if list_ex (\<lambda>x. clash x r) t then Inl Unique_violation
      else Inr (t @ [r]))"

text \<open>
  \<^verbatim>\<open>insert \<dots> on conflict (target) do nothing\<close>: a collision on the target index writes
  nothing and is reported as \<open>False\<close>; a collision on another index is still an error.
\<close>

definition sql_insert_or_ignore ::
  "('r \<Rightarrow> bool) \<Rightarrow> ('r \<Rightarrow> 'r \<Rightarrow> bool) \<Rightarrow> ('r \<Rightarrow> 'r \<Rightarrow> bool) \<Rightarrow> 'r \<Rightarrow> 'r list
     \<Rightarrow> sql_error + bool \<times> 'r list" where
  "sql_insert_or_ignore ok target clash r t =
     (if \<not> ok r then Inl Check_violation
      else if list_ex (\<lambda>x. target x r) t then Inr (False, t)
      else if list_ex (\<lambda>x. clash x r) t then Inl Unique_violation
      else Inr (True, t @ [r]))"

text \<open>
  An update. \<open>chk old new\<close> is the row's checks together with the row trigger, if the table has one;
  the unique indexes are enforced on the resulting table.
\<close>

definition sql_update ::
  "('r \<Rightarrow> 'r \<Rightarrow> bool) \<Rightarrow> ('r \<Rightarrow> 'r \<Rightarrow> bool) \<Rightarrow> ('r \<Rightarrow> bool) \<Rightarrow> ('r \<Rightarrow> 'r) \<Rightarrow> 'r list
     \<Rightarrow> sql_error + 'r list" where
  "sql_update chk clash p f t =
     (if \<not> list_all (\<lambda>r. p r \<longrightarrow> chk r (f r)) t then Inl Check_violation
      else if \<not> sorted_wrt (\<lambda>x y. \<not> clash x y) (update_where p f t) then Inl Unique_violation
      else Inr (update_where p f t))"

subsection \<open>Facts that need no constraint\<close>

lemma fetch_optional_SomeD: "fetch_optional p t = Some r \<Longrightarrow> r \<in> set t \<and> p r"
  by (auto simp: fetch_optional_def find_Some_iff)

lemma fetch_optional_None: "fetch_optional p t = None \<longleftrightarrow> (\<forall>r \<in> set t. \<not> p r)"
  by (auto simp: fetch_optional_def find_None_iff)

lemma fetch_optional_append:
  "fetch_optional p (t @ u) = (case fetch_optional p t of None \<Rightarrow> fetch_optional p u | Some r \<Rightarrow> Some r)"
  by (induction t) (auto simp: fetch_optional_def)

lemma fetch_optional_simps [simp]:
  "fetch_optional p [] = None"
  "fetch_optional p (r # t) = (if p r then Some r else fetch_optional p t)"
  by (simp_all add: fetch_optional_def)

lemma set_update_where: "set (update_where p f t) = {r \<in> set t. \<not> p r} \<union> f ` {r \<in> set t. p r}"
  by (auto simp: update_where_def)

lemma update_where_simps [simp]:
  "update_where p f [] = []"
  "update_where p f (r # t) = (if p r then f r else r) # update_where p f t"
  "update_where p f (t @ u) = update_where p f t @ update_where p f u"
  by (simp_all add: update_where_def)

lemma length_update_where [simp]: "length (update_where p f t) = length t"
  by (simp add: update_where_def)

lemma update_where_none: "(\<And>r. r \<in> set t \<Longrightarrow> \<not> p r) \<Longrightarrow> update_where p f t = t"
  by (induction t) auto

lemma in_update_where: "x \<in> set (update_where p f t) \<Longrightarrow> \<exists>y \<in> set t. x = (if p y then f y else y)"
  by (unfold update_where_def set_map image_def) blast

lemma update_where_done:
  assumes "x \<in> set (update_where p f t)" and "\<And>y. p y \<Longrightarrow> \<not> p (f y)"
  shows "\<not> p x"
  using in_update_where [OF assms(1)] assms(2) by (metis (full_types))

lemma map_update_where: "(\<And>r. g (f r) = g r) \<Longrightarrow> map g (update_where p f t) = map g t"
  by (induction t) auto

lemma set_delete_where [simp]: "set (delete_where p t) = {r \<in> set t. \<not> p r}"
  by (auto simp: delete_where_def)

lemma delete_where_none: "(\<And>r. r \<in> set t \<Longrightarrow> \<not> p r) \<Longrightarrow> delete_where p t = t"
  by (simp add: delete_where_def)

lemma rows_affected_pos: "0 < rows_affected p t \<longleftrightarrow> (\<exists>r \<in> set t. p r)"
  by (auto simp: rows_affected_def filter_empty_conv)

lemma rows_affected_zero: "rows_affected p t = 0 \<longleftrightarrow> (\<forall>r \<in> set t. \<not> p r)"
  by (auto simp: rows_affected_def filter_empty_conv)

lemma fetch_update_where:
  assumes "\<And>r. q (f r) = q r"
  shows "fetch_optional q (update_where p f t)
    = map_option (\<lambda>r. if p r then f r else r) (fetch_optional q t)"
  using assms by (induction t) auto

lemma sql_insert_Inr:
  "sql_insert ok clash r t = Inr u \<longleftrightarrow> ok r \<and> (\<forall>x \<in> set t. \<not> clash x r) \<and> u = t @ [r]"
  by (auto simp: sql_insert_def list_ex_iff)

lemma sql_insert_or_ignore_Inr:
  "sql_insert_or_ignore ok target clash r t = Inr (b, u) \<longleftrightarrow>
     ok r \<and> (if \<exists>x \<in> set t. target x r then \<not> b \<and> u = t
             else b \<and> (\<forall>x \<in> set t. \<not> clash x r) \<and> u = t @ [r])"
  by (auto simp: sql_insert_or_ignore_def list_ex_iff)

lemma sql_update_Inr:
  "sql_update chk clash p f t = Inr u \<longleftrightarrow>
     (\<forall>r \<in> set t. p r \<longrightarrow> chk r (f r)) \<and> u = update_where p f t
     \<and> sorted_wrt (\<lambda>x y. \<not> clash x y) u"
  by (auto simp: sql_update_def list_all_iff)

lemma delete_limited_length:
  "delete_limited scan k p n t = (m, u) \<Longrightarrow> length u + m = length t"
  by (auto simp: delete_limited_def Let_def rows_affected_def delete_where_def
      sum_length_filter_compl add.commute)

subsection \<open>Tables with a primary key\<close>

locale constrained_table =
  fixes ok :: "'r \<Rightarrow> bool"
    and clash :: "'r \<Rightarrow> 'r \<Rightarrow> bool"
    and key :: "'r \<Rightarrow> 'k"
  assumes clash_sym: "clash x y \<Longrightarrow> clash y x"
    and key_clash: "key x = key y \<Longrightarrow> clash x y"
begin

lemma empty_ok: "table_ok ok clash []"
  by (simp add: table_ok_def)

lemma row_ok: "table_ok ok clash t \<Longrightarrow> r \<in> set t \<Longrightarrow> ok r"
  by (simp add: table_ok_def list_all_iff)

lemma insert_ok: "sql_insert ok clash r t = Inr u \<Longrightarrow> table_ok ok clash t \<Longrightarrow> table_ok ok clash u"
  by (auto simp: sql_insert_Inr table_ok_def sorted_wrt_append list_all_iff)

lemma insert_or_ignore_ok:
  assumes "sql_insert_or_ignore ok target clash r t = Inr (b, u)" and "table_ok ok clash t"
  shows "table_ok ok clash u"
  using assms
  by (auto simp: sql_insert_or_ignore_Inr table_ok_def sorted_wrt_append list_all_iff
      split: if_splits)

lemma update_ok:
  assumes "sql_update chk clash p f t = Inr u" and "table_ok ok clash t"
    and "\<And>x. chk x (f x) \<Longrightarrow> ok (f x)"
  shows "table_ok ok clash u"
  using assms by (auto simp: sql_update_Inr table_ok_def list_all_iff set_update_where)

lemma delete_ok: "table_ok ok clash t \<Longrightarrow> table_ok ok clash (delete_where p t)"
  by (auto simp: table_ok_def delete_where_def list_all_iff sorted_wrt_filter)

lemma distinct_keys: "table_ok ok clash t \<Longrightarrow> distinct (map key t)"
proof (induction t)
  case Nil
  show ?case by simp
next
  case (Cons r t)
  then show ?case by (auto simp: table_ok_def dest: key_clash)
qed

lemma unclashing:
  assumes "table_ok ok clash t" and "x \<in> set t" and "y \<in> set t" and "clash x y"
  shows "x = y"
  using assms
proof (induction t)
  case Nil
  then show ?case by simp
next
  case (Cons r t)
  then show ?case by (auto simp: table_ok_def dest: clash_sym)
qed

lemma same_key: "table_ok ok clash t \<Longrightarrow> x \<in> set t \<Longrightarrow> y \<in> set t \<Longrightarrow> key x = key y \<Longrightarrow> x = y"
  by (rule unclashing) (auto intro: key_clash)

lemma fetch_key:
  assumes "table_ok ok clash t"
  shows "fetch_optional (\<lambda>r. key r = k) t = Some r \<longleftrightarrow> r \<in> set t \<and> key r = k"
proof
  assume "fetch_optional (\<lambda>r. key r = k) t = Some r"
  then show "r \<in> set t \<and> key r = k" by (rule fetch_optional_SomeD)
next
  assume r: "r \<in> set t \<and> key r = k"
  then obtain s where s: "fetch_optional (\<lambda>r. key r = k) t = Some s"
    by (metis (mono_tags, lifting) fetch_optional_None not_None_eq)
  then have "s \<in> set t \<and> key s = k" by (rule fetch_optional_SomeD)
  with r have "s = r" using same_key [OF assms] by blast
  with s show "fetch_optional (\<lambda>r. key r = k) t = Some r" by simp
qed

lemma insert_fetch_new:
  "sql_insert ok clash r t = Inr u \<Longrightarrow> fetch_optional (\<lambda>x. key x = key r) u = Some r"
  by (auto simp: sql_insert_Inr fetch_optional_append fetch_optional_None dest: key_clash
      split: option.splits dest!: fetch_optional_SomeD)

lemma insert_fetch_old:
  "sql_insert ok clash r t = Inr u \<Longrightarrow> k \<noteq> key r \<Longrightarrow>
     fetch_optional (\<lambda>x. key x = k) u = fetch_optional (\<lambda>x. key x = k) t"
  by (auto simp: sql_insert_Inr fetch_optional_append split: option.splits)

text \<open>A limited deletion by key takes only rows of its condition, and at most the limit.\<close>

lemma delete_limited_ok: "delete_limited scan key p n t = (m, u) \<Longrightarrow> table_ok ok clash t \<Longrightarrow> table_ok ok clash u"
  by (auto simp: delete_limited_def Let_def intro: delete_ok)

lemma delete_limited_keeps:
  assumes "table_ok ok clash t" and "scans scan t" and "delete_limited scan key p n t = (m, u)"
    and "r \<in> set t" and "\<not> p r"
  shows "r \<in> set u"
proof -
  have "key x \<noteq> key r" if "x \<in> set (take n (filter p (scan t)))" for x
  proof
    assume "key x = key r"
    moreover have "x \<in> set t" "p x" using in_set_takeD [OF that] assms(2) by (auto simp: scans_def)
    ultimately have "x = r" using same_key [OF assms(1)] assms(4) by blast
    with \<open>p x\<close> assms(5) show False by simp
  qed
  then show ?thesis using assms(3,4) by (fastforce simp: delete_limited_def Let_def)
qed

lemma delete_limited_bound:
  assumes "table_ok ok clash t" and "delete_limited scan key p n t = (m, u)"
  shows "m \<le> n"
proof -
  define ks where "ks = map key (take n (filter p (scan t)))"
  have "distinct (map key (filter (\<lambda>r. key r \<in> set ks) t))"
    using distinct_keys [OF assms(1)] by (simp add: distinct_map_filter)
  then have "length (filter (\<lambda>r. key r \<in> set ks) t) = card (key ` set (filter (\<lambda>r. key r \<in> set ks) t))"
    by (metis distinct_card length_map set_map)
  also have "\<dots> \<le> card (set ks)" by (rule card_mono) auto
  also have "\<dots> \<le> n" using card_length [of ks] by (simp add: ks_def)
  finally show ?thesis using assms(2)
    by (auto simp: delete_limited_def Let_def rows_affected_def ks_def)
qed

text \<open>An update that leaves every indexed column alone cannot collide.\<close>

lemma update_no_clash:
  assumes "table_ok ok clash t" and "\<And>x y. clash (f x) y = clash x y"
  shows "sorted_wrt (\<lambda>x y. \<not> clash x y) (update_where p f t)"
proof -
  have sym: "clash x (f y) = clash x y" for x y
    using assms(2) clash_sym by metis
  have "sorted_wrt (\<lambda>x y. \<not> clash x y) t" using assms(1) by (simp add: table_ok_def)
  then show ?thesis
    by (auto simp: update_where_def sorted_wrt_map assms(2) sym
        elim!: sorted_wrt_mono_rel [rotated] split: if_splits)
qed

lemma update_succeeds:
  assumes "table_ok ok clash t" and "\<And>x y. clash (f x) y = clash x y"
    and "\<And>r. r \<in> set t \<Longrightarrow> p r \<Longrightarrow> chk r (f r)"
  shows "sql_update chk clash p f t = Inr (update_where p f t)"
  using assms update_no_clash [OF assms(1,2)] by (simp add: sql_update_Inr)

end

end
