(* ===== verification/Grammar.thy ===== *)
theory Grammar
  imports Relational
begin

text \<open>
  The patterns of the \<^verbatim>\<open>check\<close> constraints of \<^verbatim>\<open>schema.sql\<close>, as functions on text. Each
  comment gives the regular expression it stands for. \<open>json\<close> is the data model of
  \<open>serde_json::Value\<close> and \<^verbatim>\<open>jsonb\<close>; a number is kept as its text, since no modelled code
  computes with one.
\<close>

subsection \<open>Tokens\<close>

text \<open>\<^verbatim>\<open>[a-z][a-z0-9_]{0,31}\<close>\<close>

definition snake_token :: "string \<Rightarrow> bool" where
  "snake_token s = (case s of [] \<Rightarrow> False
     | c # cs \<Rightarrow> is_ascii_lowercase c \<and> length s \<le> 32
         \<and> list_all (\<lambda>c. is_ascii_lowercase c \<or> is_ascii_digit c \<or> c = CHR ''_'') cs)"

text \<open>\<^verbatim>\<open>[a-z][a-z0-9_-]{0,31}\<close>\<close>

definition kebab_token :: "string \<Rightarrow> bool" where
  "kebab_token s = (case s of [] \<Rightarrow> False
     | c # cs \<Rightarrow> is_ascii_lowercase c \<and> length s \<le> 32
         \<and> list_all (\<lambda>c. is_ascii_lowercase c \<or> is_ascii_digit c \<or> c = CHR ''_'' \<or> c = CHR ''-'') cs)"

text \<open>\<^verbatim>\<open>[a-z][a-z0-9_-]{0,63}\<close>\<close>

definition label_token :: "string \<Rightarrow> bool" where
  "label_token s = (case s of [] \<Rightarrow> False
     | c # cs \<Rightarrow> is_ascii_lowercase c \<and> length s \<le> 64
         \<and> list_all (\<lambda>c. is_ascii_lowercase c \<or> is_ascii_digit c \<or> c = CHR ''_'' \<or> c = CHR ''-'') cs)"

text \<open>\<^verbatim>\<open>v[1-9][0-9]{0,2}\<close>\<close>

definition version_token :: "string \<Rightarrow> bool" where
  "version_token s = (case s of v # d # ds \<Rightarrow> v = CHR ''v'' \<and> is_ascii_digit d \<and> d \<noteq> CHR ''0''
         \<and> length ds \<le> 2 \<and> list_all is_ascii_digit ds
     | _ \<Rightarrow> False)"

lemma kebab_token_props:
  assumes "kebab_token s"
  shows "s \<noteq> []" and "length s \<le> 32" and "CHR ''.'' \<notin> set s"
  using assms by (auto simp: kebab_token_def char_classes list_all_iff split: list.splits)

lemma version_token_props:
  assumes "version_token s"
  shows "length s \<le> 4" and "CHR ''.'' \<notin> set s" and "\<exists>d ds. s = CHR ''v'' # d # ds"
  using assms by (auto simp: version_token_def char_classes list_all_iff split: list.splits)

subsection \<open>Names\<close>

text \<open>\<^verbatim>\<open>^[a-z][a-z0-9_]{0,31}(\.[a-z][a-z0-9_]{0,31}){1,3}$\<close>\<close>

definition dotted_name :: "string \<Rightarrow> bool" where
  "dotted_name s = (let ws = split_on (CHR ''.'') s in
     2 \<le> length ws \<and> length ws \<le> 4 \<and> list_all snake_token ws)"

text \<open>\<^verbatim>\<open>^[a-z][a-z0-9_-]{0,31}:[A-Za-z0-9][A-Za-z0-9._~:@+-]{0,255}$\<close>\<close>

definition entity_ref :: "string \<Rightarrow> bool" where
  "entity_ref s = (case split_once (CHR '':'') s of None \<Rightarrow> False
     | Some (a, b) \<Rightarrow> kebab_token a \<and> (case b of [] \<Rightarrow> False
         | c # cs \<Rightarrow> is_ascii_alphanumeric c \<and> length b \<le> 256
             \<and> list_all (\<lambda>c. is_ascii_alphanumeric c \<or> c \<in> set ''._~:@+-'') cs))"

text \<open>\<^verbatim>\<open>^ratatoskr-[a-z0-9-]{1,56}$\<close>\<close>

definition producer_name :: "string \<Rightarrow> bool" where
  "producer_name s = (starts_with ''ratatoskr-'' s \<and> (let r = drop 10 s in
     1 \<le> length r \<and> length r \<le> 56
     \<and> list_all (\<lambda>c. is_ascii_lowercase c \<or> is_ascii_digit c \<or> c = CHR ''-'') r))"

text \<open>
  \<^verbatim>\<open>^(cmd|evt)\.[a-z][a-z0-9_-]{0,31}(\.[a-z][a-z0-9_-]{0,31}){1,3}\.v[1-9][0-9]{0,2}$\<close>
\<close>

definition subject_name :: "string \<Rightarrow> bool" where
  "subject_name s = (case split_on (CHR ''.'') s of [] \<Rightarrow> False
     | c # ws \<Rightarrow> (c = ''cmd'' \<or> c = ''evt'') \<and> ws \<noteq> [] \<and> version_token (last ws)
         \<and> 2 \<le> length (butlast ws) \<and> length (butlast ws) \<le> 4 \<and> list_all kebab_token (butlast ws))"

text \<open>\<^verbatim>\<open>^[a-z][a-z0-9_]{0,31}(\.[a-z][a-z0-9_]{0,31}){1,3}\.v[1-9][0-9]{0,2}$\<close>\<close>

definition contract_type_name :: "string \<Rightarrow> bool" where
  "contract_type_name s = (let ws = split_on (CHR ''.'') s in
     version_token (last ws) \<and> 2 \<le> length (butlast ws) \<and> length (butlast ws) \<le> 4
     \<and> list_all snake_token (butlast ws))"

text \<open>\<^verbatim>\<open>^[a-f0-9]{64}$\<close>\<close>

definition sha256_hex :: "string \<Rightarrow> bool" where
  "sha256_hex s \<longleftrightarrow> length s = 64 \<and> list_all is_lower_hex s"

text \<open>\<^verbatim>\<open>^[a-z0-9-]{3,40}$\<close>\<close>

definition site_id_name :: "string \<Rightarrow> bool" where
  "site_id_name s \<longleftrightarrow> 3 \<le> length s \<and> length s \<le> 40
     \<and> list_all (\<lambda>c. is_ascii_lowercase c \<or> is_ascii_digit c \<or> c = CHR ''-'') s"

text \<open>\<open>length(s) between lo and hi\<close> and the one-line rule \<^verbatim>\<open>s !~ '[\n\r]'\<close>.\<close>

definition bounded :: "nat \<Rightarrow> nat \<Rightarrow> string \<Rightarrow> bool" where
  "bounded lo hi s \<longleftrightarrow> lo \<le> length s \<and> length s \<le> hi"

definition safe_line :: "string \<Rightarrow> bool" where
  "safe_line s \<longleftrightarrow> bounded 1 200 s \<and> \<not> list_ex line_break s"

text \<open>A nullable column satisfies a check when it is null.\<close>

definition opt_ok :: "('a \<Rightarrow> bool) \<Rightarrow> 'a option \<Rightarrow> bool" where
  "opt_ok p x = (case x of None \<Rightarrow> True | Some a \<Rightarrow> p a)"

lemma opt_ok_simps [simp]:
  "opt_ok p None"
  "opt_ok p (Some a) = p a"
  by (simp_all add: opt_ok_def)

lemmas grammar_defs = snake_token_def kebab_token_def label_token_def version_token_def
  dotted_name_def entity_ref_def producer_name_def subject_name_def contract_type_name_def
  sha256_hex_def site_id_name_def bounded_def safe_line_def line_break_def char_classes
  starts_with_def Let_def

subsection \<open>JSON\<close>

datatype json =
    JNull
  | JBool bool
  | JNumber string
  | JString string
  | JArray "json list"
  | JObject "(string \<times> json) list"

definition json_get :: "string \<Rightarrow> json \<Rightarrow> json option" where
  "json_get k v = (case v of JObject ms \<Rightarrow> map_of ms k | _ \<Rightarrow> None)"

definition as_str :: "json \<Rightarrow> string option" where
  "as_str v = (case v of JString s \<Rightarrow> Some s | _ \<Rightarrow> None)"

definition is_object :: "json \<Rightarrow> bool" where
  "is_object v = (case v of JObject _ \<Rightarrow> True | _ \<Rightarrow> False)"

text \<open>\<^verbatim>\<open>payload ->> 'k'\<close> of a text or boolean member.\<close>

definition json_text :: "string \<Rightarrow> json \<Rightarrow> string option" where
  "json_text k v = Option.bind (json_get k v) as_str"

definition json_bool :: "string \<Rightarrow> json \<Rightarrow> bool option" where
  "json_bool k v = (case json_get k v of Some (JBool b) \<Rightarrow> Some b | _ \<Rightarrow> None)"

end
