(* ===== verification/Schema_Operations.thy ===== *)
theory Schema_Operations
  imports Grammar
begin

text \<open>
  The \<^verbatim>\<open>operations\<close> schema of \<^verbatim>\<open>schema.sql\<close>: one record per row, one predicate per table for
  its \<^verbatim>\<open>check\<close> constraints, one for its unique indexes, and the status trigger.
\<close>

subsection \<open>operations\<close>

record operation_row =
  op_id :: uuid
  op_owner :: uuid
  op_kind :: string
  op_status :: string
  op_stage :: "string option"
  op_percent :: "int option"
  op_correlation :: string
  op_idempotency :: "string option"
  op_reporter :: "string option"
  op_retryable :: bool
  op_cancel_requested_at :: "instant option"
  op_accepted_at :: instant
  op_status_changed_at :: instant
  op_terminated_at :: "instant option"

definition known_status :: "string \<Rightarrow> bool" where
  "known_status s \<longleftrightarrow> s \<in> {''accepted'', ''queued'', ''running'', ''succeeded'',
     ''partially_succeeded'', ''failed'', ''cancelled''}"

text \<open>\<open>operations.status_rank\<close>: null for a text that is no status.\<close>

definition status_rank :: "string \<Rightarrow> nat option" where
  "status_rank s =
     (if s = ''accepted'' then Some 0
      else if s = ''queued'' then Some 1
      else if s = ''running'' then Some 2
      else if s = ''succeeded'' then Some 3
      else if s = ''partially_succeeded'' then Some 3
      else if s = ''failed'' then Some 3
      else if s = ''cancelled'' then Some 3
      else None)"

definition status_is_terminal :: "string \<Rightarrow> bool" where
  "status_is_terminal s \<longleftrightarrow> s \<in> {''succeeded'', ''partially_succeeded'', ''failed'', ''cancelled''}"

definition percentage :: "int \<Rightarrow> bool" where
  "percentage n \<longleftrightarrow> 0 \<le> n \<and> n \<le> 100"

definition operation_ok :: "operation_row \<Rightarrow> bool" where
  "operation_ok r \<longleftrightarrow>
     known_status (op_status r)
     \<and> dotted_name (op_kind r)
     \<and> opt_ok (bounded 1 60) (op_stage r)
     \<and> opt_ok percentage (op_percent r)
     \<and> entity_ref (op_correlation r)
     \<and> opt_ok (bounded 1 255) (op_idempotency r)
     \<and> opt_ok producer_name (op_reporter r)
     \<and> op_accepted_at r \<le> op_status_changed_at r
     \<and> (status_is_terminal (op_status r) = (op_terminated_at r \<noteq> None))
     \<and> opt_ok (\<lambda>t. op_accepted_at r \<le> t) (op_terminated_at r)"

text \<open>The primary key, and \<open>operations_idempotency_key_scope_key\<close> (owner, kind, key when set).\<close>

definition operation_clash :: "operation_row \<Rightarrow> operation_row \<Rightarrow> bool" where
  "operation_clash x y \<longleftrightarrow> op_id x = op_id y
     \<or> (op_owner x = op_owner y \<and> op_kind x = op_kind y
        \<and> op_idempotency x \<noteq> None \<and> op_idempotency x = op_idempotency y)"

text \<open>
  The trigger \<open>guard_status_transition\<close>, before an update of \<open>status\<close> or \<open>status_changed_at\<close>:
  whether it lets the new row through. A null rank makes the comparison null, which an
  \<^verbatim>\<open>if\<close> of plpgsql takes as false, so the row passes here (and fails its status check instead).
\<close>

definition guard_status_transition :: "operation_row \<Rightarrow> operation_row \<Rightarrow> bool" where
  "guard_status_transition old new \<longleftrightarrow>
     (if op_status new = op_status old then True
      else if status_is_terminal (op_status old) then False
      else if (case (status_rank (op_status new), status_rank (op_status old)) of
                 (Some n, Some m) \<Rightarrow> n \<le> m | _ \<Rightarrow> False) then False
      else if op_status_changed_at new < op_status_changed_at old then False
      else True)"

definition operation_update_ok :: "operation_row \<Rightarrow> operation_row \<Rightarrow> bool" where
  "operation_update_ok old new \<longleftrightarrow> operation_ok new \<and> guard_status_transition old new"

interpretation ops_table: constrained_table operation_ok operation_clash op_id
  by unfold_locales (unfold operation_clash_def, metis+)

subsection \<open>ai_archive_acceptances\<close>

record acceptance_row =
  ac_operation :: uuid
  ac_owner :: uuid
  ac_device :: uuid
  ac_provider :: string
  ac_sha256 :: string
  ac_byte_size :: int
  ac_accepted_at :: instant

definition acceptance_ok :: "acceptance_row \<Rightarrow> bool" where
  "acceptance_ok r \<longleftrightarrow> ac_provider r \<in> {''chatgpt'', ''claude''} \<and> sha256_hex (ac_sha256 r)
     \<and> 0 < ac_byte_size r"

definition acceptance_clash :: "acceptance_row \<Rightarrow> acceptance_row \<Rightarrow> bool" where
  "acceptance_clash x y \<longleftrightarrow> ac_operation x = ac_operation y"

interpretation acceptances_table: constrained_table acceptance_ok acceptance_clash ac_operation
  by unfold_locales (auto simp: acceptance_clash_def)

subsection \<open>operation_progress, operation_results, operation_errors\<close>

record progress_row =
  pr_id :: uuid
  pr_operation :: uuid
  pr_observed_at :: instant
  pr_status :: string
  pr_stage :: "string option"
  pr_percent :: "int option"
  pr_message :: "string option"

definition progress_ok :: "progress_row \<Rightarrow> bool" where
  "progress_ok r \<longleftrightarrow> known_status (pr_status r) \<and> opt_ok (bounded 1 60) (pr_stage r)
     \<and> opt_ok percentage (pr_percent r) \<and> opt_ok safe_line (pr_message r)"

definition progress_clash :: "progress_row \<Rightarrow> progress_row \<Rightarrow> bool" where
  "progress_clash x y \<longleftrightarrow> pr_id x = pr_id y"

interpretation progress_table: constrained_table progress_ok progress_clash pr_id
  by unfold_locales (auto simp: progress_clash_def)

record result_row =
  rs_id :: uuid
  rs_operation :: uuid
  rs_kind :: string
  rs_target :: string
  rs_payload :: json
  rs_recorded_at :: instant

definition result_ok :: "result_row \<Rightarrow> bool" where
  "result_ok r \<longleftrightarrow> dotted_name (rs_kind r) \<and> entity_ref (rs_target r) \<and> is_object (rs_payload r)"

definition result_clash :: "result_row \<Rightarrow> result_row \<Rightarrow> bool" where
  "result_clash x y \<longleftrightarrow> rs_id x = rs_id y"

interpretation results_table: constrained_table result_ok result_clash rs_id
  by unfold_locales (auto simp: result_clash_def)

text \<open>A not-null column that a JSON member feeds is an option here; null fails its not-null check.\<close>

record error_row =
  er_id :: uuid
  er_operation :: uuid
  er_severity :: string
  er_code :: "string option"
  er_message :: "string option"
  er_retryable :: bool
  er_payload :: json
  er_recorded_at :: instant

definition error_ok :: "error_row \<Rightarrow> bool" where
  "error_ok r \<longleftrightarrow> er_severity r \<in> {''error'', ''warning''}
     \<and> (case er_code r of None \<Rightarrow> False | Some c \<Rightarrow> dotted_name c)
     \<and> (case er_message r of None \<Rightarrow> False | Some m \<Rightarrow> safe_line m)
     \<and> is_object (er_payload r)"

definition error_clash :: "error_row \<Rightarrow> error_row \<Rightarrow> bool" where
  "error_clash x y \<longleftrightarrow> er_id x = er_id y"

interpretation errors_table: constrained_table error_ok error_clash er_id
  by unfold_locales (auto simp: error_clash_def)

subsection \<open>outbox and inbox\<close>

text \<open>\<open>ob_payload_len\<close> is \<open>octet_length(payload::text)\<close>, which only PostgreSQL computes.\<close>

record outbox_row =
  ob_id :: uuid
  ob_message :: uuid
  ob_subject :: string
  ob_payload :: json
  ob_payload_len :: int
  ob_operation :: "uuid option"
  ob_enqueued_at :: instant
  ob_next_attempt_at :: instant
  ob_attempts :: int
  ob_claimed_until :: "instant option"
  ob_claimed_by :: "string option"
  ob_published_at :: "instant option"
  ob_last_error :: "string option"
  ob_dead_lettered_at :: "instant option"

definition outbox_ok :: "outbox_row \<Rightarrow> bool" where
  "outbox_ok r \<longleftrightarrow> subject_name (ob_subject r) \<and> 0 \<le> ob_attempts r
     \<and> ((ob_claimed_until r = None) = (ob_claimed_by r = None))
     \<and> opt_ok (bounded 1 120) (ob_claimed_by r)
     \<and> opt_ok safe_line (ob_last_error r)
     \<and> (ob_published_at r = None \<or> ob_dead_lettered_at r = None)
     \<and> opt_ok (\<lambda>t. ob_enqueued_at r \<le> t) (ob_published_at r)
     \<and> ob_payload_len r \<le> 786432"

definition outbox_message_clash :: "outbox_row \<Rightarrow> outbox_row \<Rightarrow> bool" where
  "outbox_message_clash x y \<longleftrightarrow> ob_message x = ob_message y"

definition outbox_clash :: "outbox_row \<Rightarrow> outbox_row \<Rightarrow> bool" where
  "outbox_clash x y \<longleftrightarrow> ob_id x = ob_id y \<or> outbox_message_clash x y"

interpretation outbox_table: constrained_table outbox_ok outbox_clash ob_id
  by unfold_locales (auto simp: outbox_clash_def outbox_message_clash_def)

record inbox_row =
  ib_message :: uuid
  ib_subject :: string
  ib_producer :: string
  ib_received_at :: instant
  ib_processed_at :: "instant option"
  ib_outcome :: "string option"

definition inbox_ok :: "inbox_row \<Rightarrow> bool" where
  "inbox_ok r \<longleftrightarrow> subject_name (ib_subject r) \<and> bounded 1 64 (ib_producer r)
     \<and> opt_ok (\<lambda>x. x \<in> {''applied'', ''duplicate'', ''stale'', ''rejected''}) (ib_outcome r)
     \<and> ((ib_outcome r \<noteq> None) = (ib_processed_at r \<noteq> None))"

definition inbox_clash :: "inbox_row \<Rightarrow> inbox_row \<Rightarrow> bool" where
  "inbox_clash x y \<longleftrightarrow> ib_message x = ib_message y"

interpretation inbox_table: constrained_table inbox_ok inbox_clash ib_message
  by unfold_locales (auto simp: inbox_clash_def)

subsection \<open>idempotency_records\<close>

text \<open>A digest is the list of its bytes. A stored route is a versioned path.\<close>

type_synonym digest = "8 word list"

definition route_segment :: "string \<Rightarrow> bool" where
  "route_segment s = label_token s"

text \<open>\<^verbatim>\<open>^/v[1-9][0-9]{0,2}(/[a-z][a-z0-9_-]{0,63}){1,6}$\<close>\<close>

definition versioned_path :: "string \<Rightarrow> bool" where
  "versioned_path s = (case split_on (CHR ''/'') s of
     e # v # ws \<Rightarrow> e = [] \<and> version_token v \<and> 1 \<le> length ws \<and> length ws \<le> 6
       \<and> list_all route_segment ws
   | _ \<Rightarrow> False)"

record idempotency_row =
  id_record :: uuid
  id_owner :: uuid
  id_route :: string
  id_kind :: string
  id_key_hash :: digest
  id_fingerprint :: digest
  id_operation :: "uuid option"
  id_response_status :: "int option"
  id_reserved_at :: instant
  id_completed_at :: "instant option"
  id_expires_at :: instant

definition idempotency_ok :: "idempotency_row \<Rightarrow> bool" where
  "idempotency_ok r \<longleftrightarrow> versioned_path (id_route r) \<and> dotted_name (id_kind r)
     \<and> length (id_key_hash r) = 32 \<and> length (id_fingerprint r) = 32
     \<and> opt_ok (\<lambda>s. 100 \<le> s \<and> s \<le> 599) (id_response_status r)
     \<and> id_reserved_at r < id_expires_at r
     \<and> opt_ok (\<lambda>t. id_reserved_at r \<le> t) (id_completed_at r)
     \<and> ((id_completed_at r = None) = (id_response_status r = None))"

definition idempotency_scope_clash :: "idempotency_row \<Rightarrow> idempotency_row \<Rightarrow> bool" where
  "idempotency_scope_clash x y \<longleftrightarrow> id_owner x = id_owner y \<and> id_route x = id_route y
     \<and> id_kind x = id_kind y \<and> id_key_hash x = id_key_hash y"

definition idempotency_clash :: "idempotency_row \<Rightarrow> idempotency_row \<Rightarrow> bool" where
  "idempotency_clash x y \<longleftrightarrow> id_record x = id_record y \<or> idempotency_scope_clash x y"

interpretation idempotency_table: constrained_table idempotency_ok idempotency_clash id_record
  by unfold_locales (auto simp: idempotency_clash_def idempotency_scope_clash_def)

subsection \<open>schedules and schedule_occurrences\<close>

record schedule_row =
  sc_id :: uuid
  sc_service :: string
  sc_name :: string
  sc_owner :: uuid
  sc_command_type :: string
  sc_operation_kind :: string
  sc_payload :: json
  sc_cron :: string
  sc_next_due_at :: instant
  sc_enabled :: bool
  sc_created_at :: instant
  sc_updated_at :: instant
  sc_last_published_at :: "instant option"

definition schedule_ok :: "schedule_row \<Rightarrow> bool" where
  "schedule_ok r \<longleftrightarrow> label_token (sc_name r) \<and> label_token (sc_service r)
     \<and> bounded 9 120 (sc_cron r) \<and> contract_type_name (sc_command_type r)
     \<and> \<not> starts_with ''cmd.'' (sc_command_type r) \<and> \<not> starts_with ''evt.'' (sc_command_type r)
     \<and> dotted_name (sc_operation_kind r) \<and> is_object (sc_payload r)
     \<and> sc_created_at r \<le> sc_updated_at r"

definition schedule_name_clash :: "schedule_row \<Rightarrow> schedule_row \<Rightarrow> bool" where
  "schedule_name_clash x y \<longleftrightarrow> sc_service x = sc_service y \<and> sc_name x = sc_name y"

definition schedule_clash :: "schedule_row \<Rightarrow> schedule_row \<Rightarrow> bool" where
  "schedule_clash x y \<longleftrightarrow> sc_id x = sc_id y \<or> schedule_name_clash x y"

interpretation schedules_table: constrained_table schedule_ok schedule_clash sc_id
  by unfold_locales (auto simp: schedule_clash_def schedule_name_clash_def)

record occurrence_row =
  oc_id :: uuid
  oc_schedule :: uuid
  oc_due_at :: instant
  oc_published_at :: instant
  oc_drift_seconds :: int
  oc_operation :: "uuid option"

definition occurrence_ok :: "occurrence_row \<Rightarrow> bool" where
  "occurrence_ok r \<longleftrightarrow> 0 \<le> oc_drift_seconds r \<and> oc_due_at r \<le> oc_published_at r"

definition occurrence_clash :: "occurrence_row \<Rightarrow> occurrence_row \<Rightarrow> bool" where
  "occurrence_clash x y \<longleftrightarrow> oc_id x = oc_id y
     \<or> (oc_schedule x = oc_schedule y \<and> oc_due_at x = oc_due_at y)"

interpretation occurrences_table: constrained_table occurrence_ok occurrence_clash oc_id
  by unfold_locales (auto simp: occurrence_clash_def)

subsection \<open>site_edits\<close>

record site_edit_row =
  sed_operation :: uuid
  sed_site :: string
  sed_source_ref :: string
  sed_revision :: string
  sed_created_at :: instant

text \<open>\<^verbatim>\<open>^[A-Za-z0-9_-]{1,128}$\<close>\<close>

definition source_ref_name :: "string \<Rightarrow> bool" where
  "source_ref_name s \<longleftrightarrow> bounded 1 128 s
     \<and> list_all (\<lambda>c. is_ascii_alphanumeric c \<or> c = CHR ''_'' \<or> c = CHR ''-'') s"

definition site_edit_ok :: "site_edit_row \<Rightarrow> bool" where
  "site_edit_ok r \<longleftrightarrow> site_id_name (sed_site r) \<and> source_ref_name (sed_source_ref r)
     \<and> sha256_hex (sed_revision r)"

definition site_edit_clash :: "site_edit_row \<Rightarrow> site_edit_row \<Rightarrow> bool" where
  "site_edit_clash x y \<longleftrightarrow> sed_operation x = sed_operation y"

interpretation site_edits_table: constrained_table site_edit_ok site_edit_clash sed_operation
  by unfold_locales (auto simp: site_edit_clash_def)

end
