(* ===== verification/Schema_Identity.thy ===== *)
theory Schema_Identity
  imports Schema_Operations
begin

text \<open>
  The \<^verbatim>\<open>identity\<close> and \<^verbatim>\<open>platform_ingest\<close> schemas of \<^verbatim>\<open>schema.sql\<close>: rows, \<^verbatim>\<open>check\<close>
  constraints and unique indexes of the tables whose operations are modelled.
\<close>

subsection \<open>users and registered_devices\<close>

record user_row =
  us_id :: uuid
  us_status :: string
  us_created_at :: instant
  us_updated_at :: instant

definition user_ok :: "user_row \<Rightarrow> bool" where
  "user_ok r \<longleftrightarrow> us_status r \<in> {''active'', ''suspended'', ''deleted''}
     \<and> us_created_at r \<le> us_updated_at r"

definition user_clash :: "user_row \<Rightarrow> user_row \<Rightarrow> bool" where
  "user_clash x y \<longleftrightarrow> us_id x = us_id y"

interpretation users_table: constrained_table user_ok user_clash us_id
  by unfold_locales (auto simp: user_clash_def)

definition device_kind_name :: "string \<Rightarrow> bool" where
  "device_kind_name s \<longleftrightarrow> s \<in> {''mobile'', ''browser_extension'', ''export_agent'',
     ''obsidian_plugin'', ''site_deployer''}"

record device_row =
  dv_id :: uuid
  dv_user :: uuid
  dv_kind :: string
  dv_display_name :: "string option"
  dv_secret_hash :: digest
  dv_created_at :: instant
  dv_last_seen_at :: "instant option"
  dv_revoked_at :: "instant option"
  dv_site :: "string option"

definition device_ok :: "device_row \<Rightarrow> bool" where
  "device_ok r \<longleftrightarrow> device_kind_name (dv_kind r)
     \<and> ((dv_kind r = ''site_deployer'') = (dv_site r \<noteq> None))
     \<and> opt_ok site_id_name (dv_site r)
     \<and> opt_ok (bounded 1 120) (dv_display_name r)
     \<and> length (dv_secret_hash r) = 32
     \<and> opt_ok (\<lambda>t. dv_created_at r \<le> t) (dv_revoked_at r)"

definition device_clash :: "device_row \<Rightarrow> device_row \<Rightarrow> bool" where
  "device_clash x y \<longleftrightarrow> dv_id x = dv_id y"

interpretation devices_table: constrained_table device_ok device_clash dv_id
  by unfold_locales (auto simp: device_clash_def)

subsection \<open>sessions and refresh_tokens\<close>

record session_row =
  ss_id :: uuid
  ss_user :: uuid
  ss_kind :: string
  ss_device :: "uuid option"
  ss_audience :: string
  ss_issued_at :: instant
  ss_expires_at :: instant
  ss_last_seen_at :: "instant option"
  ss_revoked_at :: "instant option"
  ss_token_hash :: "digest option"

text \<open>\<^verbatim>\<open>^site:[a-z0-9-]{3,40}$\<close>\<close>

definition site_audience_name :: "string \<Rightarrow> bool" where
  "site_audience_name s \<longleftrightarrow> starts_with ''site:'' s \<and> site_id_name (drop 5 s)"

definition session_ok :: "session_row \<Rightarrow> bool" where
  "session_ok r \<longleftrightarrow>
     ss_kind r \<in> {''browser'', ''device'', ''telegram_mini_app'', ''service'', ''api_token'', ''site_owner''}
     \<and> ((ss_kind r = ''site_owner'') = site_audience_name (ss_audience r))
     \<and> bounded 1 120 (ss_audience r)
     \<and> ss_issued_at r < ss_expires_at r
     \<and> opt_ok (\<lambda>t. ss_issued_at r \<le> t) (ss_revoked_at r)
     \<and> ((ss_kind r = ''device'') = (ss_device r \<noteq> None))
     \<and> opt_ok (\<lambda>h. length h = 32) (ss_token_hash r)"

definition session_clash :: "session_row \<Rightarrow> session_row \<Rightarrow> bool" where
  "session_clash x y \<longleftrightarrow> ss_id x = ss_id y
     \<or> (ss_token_hash x \<noteq> None \<and> ss_token_hash x = ss_token_hash y)"

interpretation sessions_table: constrained_table session_ok session_clash ss_id
  by unfold_locales (unfold session_clash_def, metis+)

record refresh_row =
  rt_id :: uuid
  rt_session :: uuid
  rt_token_hash :: digest
  rt_issued_at :: instant
  rt_expires_at :: instant
  rt_consumed_at :: "instant option"
  rt_replaced_by :: "uuid option"

definition refresh_ok :: "refresh_row \<Rightarrow> bool" where
  "refresh_ok r \<longleftrightarrow> rt_issued_at r < rt_expires_at r
     \<and> length (rt_token_hash r) = 32
     \<and> opt_ok (\<lambda>t. rt_issued_at r \<le> t) (rt_consumed_at r)
     \<and> (rt_replaced_by r = None \<or> rt_consumed_at r \<noteq> None)
     \<and> rt_replaced_by r \<noteq> Some (rt_id r)"

definition refresh_clash :: "refresh_row \<Rightarrow> refresh_row \<Rightarrow> bool" where
  "refresh_clash x y \<longleftrightarrow> rt_id x = rt_id y \<or> rt_token_hash x = rt_token_hash y"

interpretation refresh_table: constrained_table refresh_ok refresh_clash rt_id
  by unfold_locales (auto simp: refresh_clash_def)

subsection \<open>grants, revocations, audit_events\<close>

record grant_row =
  gr_id :: uuid
  gr_user :: uuid
  gr_capability :: string
  gr_granted_at :: instant
  gr_expires_at :: "instant option"
  gr_revoked_at :: "instant option"

definition grant_ok :: "grant_row \<Rightarrow> bool" where
  "grant_ok r \<longleftrightarrow> bounded 1 120 (gr_capability r)
     \<and> opt_ok (\<lambda>t. gr_granted_at r < t) (gr_expires_at r)
     \<and> opt_ok (\<lambda>t. gr_granted_at r \<le> t) (gr_revoked_at r)"

definition grant_live_clash :: "grant_row \<Rightarrow> grant_row \<Rightarrow> bool" where
  "grant_live_clash x y \<longleftrightarrow> gr_revoked_at x = None \<and> gr_revoked_at y = None
     \<and> gr_user x = gr_user y \<and> gr_capability x = gr_capability y"

definition grant_clash :: "grant_row \<Rightarrow> grant_row \<Rightarrow> bool" where
  "grant_clash x y \<longleftrightarrow> gr_id x = gr_id y \<or> grant_live_clash x y"

interpretation grants_table: constrained_table grant_ok grant_clash gr_id
  by unfold_locales (auto simp: grant_clash_def grant_live_clash_def)

record revocation_row =
  rv_id :: uuid
  rv_subject_kind :: string
  rv_subject :: uuid
  rv_reason :: string
  rv_revoked_at :: instant
  rv_revoked_by :: "uuid option"

definition revocation_ok :: "revocation_row \<Rightarrow> bool" where
  "revocation_ok r \<longleftrightarrow> rv_subject_kind r \<in> {''user'', ''session'', ''device'', ''refresh_token''}
     \<and> rv_reason r \<in> {''user_request'', ''administrative'', ''credential_rotation'',
         ''suspected_compromise'', ''expiry_policy''}"

definition revocation_clash :: "revocation_row \<Rightarrow> revocation_row \<Rightarrow> bool" where
  "revocation_clash x y \<longleftrightarrow> rv_id x = rv_id y"

interpretation revocations_table: constrained_table revocation_ok revocation_clash rv_id
  by unfold_locales (auto simp: revocation_clash_def)

record audit_row =
  au_id :: uuid
  au_occurred_at :: instant
  au_actor_user :: "uuid option"
  au_actor_session :: "uuid option"
  au_action :: string
  au_target_kind :: string
  au_target :: "uuid option"
  au_outcome :: string
  au_correlation :: string

definition audit_ok :: "audit_row \<Rightarrow> bool" where
  "audit_ok r \<longleftrightarrow> bounded 1 120 (au_action r) \<and> bounded 1 60 (au_target_kind r)
     \<and> au_outcome r \<in> {''allowed'', ''denied'', ''failed''} \<and> entity_ref (au_correlation r)"

definition audit_clash :: "audit_row \<Rightarrow> audit_row \<Rightarrow> bool" where
  "audit_clash x y \<longleftrightarrow> au_id x = au_id y"

interpretation audit_table: constrained_table audit_ok audit_clash au_id
  by unfold_locales (auto simp: audit_clash_def)

subsection \<open>pairing_codes and site_sign_in_codes\<close>

record pairing_row =
  pc_id :: uuid
  pc_user :: uuid
  pc_created_by :: uuid
  pc_code_hash :: digest
  pc_expected_kind :: "string option"
  pc_label :: "string option"
  pc_created_at :: instant
  pc_expires_at :: instant
  pc_failed_attempts :: int
  pc_superseded_at :: "instant option"
  pc_consumed_at :: "instant option"
  pc_consumed_by :: "uuid option"
  pc_site :: "string option"

definition pairing_pending :: "pairing_row \<Rightarrow> bool" where
  "pairing_pending r \<longleftrightarrow> pc_consumed_at r = None \<and> pc_superseded_at r = None"

definition pairing_ok :: "pairing_row \<Rightarrow> bool" where
  "pairing_ok r \<longleftrightarrow> opt_ok device_kind_name (pc_expected_kind r)
     \<and> ((pc_expected_kind r = Some ''site_deployer'') = (pc_site r \<noteq> None))
     \<and> opt_ok site_id_name (pc_site r)
     \<and> opt_ok (bounded 1 120) (pc_label r)
     \<and> length (pc_code_hash r) = 32
     \<and> pc_created_at r < pc_expires_at r
     \<and> 0 \<le> pc_failed_attempts r \<and> pc_failed_attempts r \<le> 5
     \<and> (pc_consumed_at r = None \<or> pc_superseded_at r = None)
     \<and> opt_ok (\<lambda>t. pc_created_at r \<le> t) (pc_superseded_at r)
     \<and> opt_ok (\<lambda>t. pc_created_at r \<le> t) (pc_consumed_at r)"

definition pairing_clash :: "pairing_row \<Rightarrow> pairing_row \<Rightarrow> bool" where
  "pairing_clash x y \<longleftrightarrow> pc_id x = pc_id y
     \<or> (pairing_pending x \<and> pairing_pending y
        \<and> (pc_code_hash x = pc_code_hash y \<or> pc_user x = pc_user y))"

interpretation pairing_table: constrained_table pairing_ok pairing_clash pc_id
  by unfold_locales (auto simp: pairing_clash_def)

record sign_in_row =
  sg_id :: uuid
  sg_code_hash :: digest
  sg_user :: uuid
  sg_created_by :: uuid
  sg_site :: string
  sg_challenge :: string
  sg_return_path :: string
  sg_hostname :: string
  sg_created_at :: instant
  sg_expires_at :: instant
  sg_consumed_at :: "instant option"

definition base64url_char :: "char \<Rightarrow> bool" where
  "base64url_char c \<longleftrightarrow> is_ascii_alphanumeric c \<or> c = CHR ''_'' \<or> c = CHR ''-''"

definition sign_in_ok :: "sign_in_row \<Rightarrow> bool" where
  "sign_in_ok r \<longleftrightarrow> length (sg_code_hash r) = 32
     \<and> site_id_name (sg_site r)
     \<and> length (sg_challenge r) = 43 \<and> list_all base64url_char (sg_challenge r)
     \<and> starts_with ''/'' (sg_return_path r) \<and> length (sg_return_path r) \<le> 1024
     \<and> bounded 1 253 (sg_hostname r)
     \<and> sg_created_at r < sg_expires_at r
     \<and> opt_ok (\<lambda>t. sg_created_at r \<le> t) (sg_consumed_at r)"

definition sign_in_clash :: "sign_in_row \<Rightarrow> sign_in_row \<Rightarrow> bool" where
  "sign_in_clash x y \<longleftrightarrow> sg_id x = sg_id y \<or> sg_code_hash x = sg_code_hash y"

interpretation sign_in_table: constrained_table sign_in_ok sign_in_clash sg_id
  by unfold_locales (auto simp: sign_in_clash_def)

subsection \<open>identities, identity_assertions, oauth_relays\<close>

definition provider_name :: "string \<Rightarrow> bool" where
  "provider_name s \<longleftrightarrow> s \<in> {''telegram'', ''github'', ''email''}"

record identity_row =
  idn_id :: uuid
  idn_user :: uuid
  idn_provider :: string
  idn_external :: string
  idn_created_at :: instant
  idn_last_seen_at :: "instant option"

definition identity_ok :: "identity_row \<Rightarrow> bool" where
  "identity_ok r \<longleftrightarrow> provider_name (idn_provider r) \<and> bounded 1 255 (idn_external r)"

definition identity_name_clash :: "identity_row \<Rightarrow> identity_row \<Rightarrow> bool" where
  "identity_name_clash x y \<longleftrightarrow> idn_provider x = idn_provider y \<and> idn_external x = idn_external y"

definition identity_clash :: "identity_row \<Rightarrow> identity_row \<Rightarrow> bool" where
  "identity_clash x y \<longleftrightarrow> idn_id x = idn_id y \<or> identity_name_clash x y"

interpretation identities_table: constrained_table identity_ok identity_clash idn_id
  by unfold_locales (auto simp: identity_clash_def identity_name_clash_def)

record assertion_row =
  ax_id :: uuid
  ax_issuer :: string
  ax_subject :: string
  ax_audience :: string
  ax_nonce :: string
  ax_user :: "uuid option"
  ax_issued_at :: instant
  ax_expires_at :: instant
  ax_redeemed_at :: "instant option"

definition assertion_ok :: "assertion_row \<Rightarrow> bool" where
  "assertion_ok r \<longleftrightarrow> ax_issuer r = ''ratatoskr-telegram''
     \<and> bounded 1 255 (ax_subject r) \<and> bounded 1 120 (ax_audience r) \<and> bounded 16 128 (ax_nonce r)
     \<and> ax_issued_at r < ax_expires_at r
     \<and> opt_ok (\<lambda>t. ax_issued_at r \<le> t) (ax_redeemed_at r)"

definition assertion_nonce_clash :: "assertion_row \<Rightarrow> assertion_row \<Rightarrow> bool" where
  "assertion_nonce_clash x y \<longleftrightarrow> ax_issuer x = ax_issuer y \<and> ax_nonce x = ax_nonce y"

definition assertion_clash :: "assertion_row \<Rightarrow> assertion_row \<Rightarrow> bool" where
  "assertion_clash x y \<longleftrightarrow> ax_id x = ax_id y \<or> assertion_nonce_clash x y"

interpretation assertions_table: constrained_table assertion_ok assertion_clash ax_id
  by unfold_locales (auto simp: assertion_clash_def assertion_nonce_clash_def)

record relay_row =
  rl_id :: uuid
  rl_provider :: string
  rl_claim_grant :: string
  rl_state :: string
  rl_code :: "string option"
  rl_error :: "string option"
  rl_received_at :: instant
  rl_expires_at :: instant
  rl_claimed_at :: "instant option"

definition relay_ok :: "relay_row \<Rightarrow> bool" where
  "relay_ok r \<longleftrightarrow> provider_name (rl_provider r) \<and> dotted_name (rl_claim_grant r)
     \<and> bounded 1 512 (rl_state r) \<and> opt_ok (bounded 1 2048) (rl_code r) \<and> opt_ok (bounded 1 200) (rl_error r)
     \<and> ((rl_code r \<noteq> None) \<noteq> (rl_error r \<noteq> None) \<or> rl_claimed_at r \<noteq> None)
     \<and> rl_received_at r < rl_expires_at r
     \<and> opt_ok (\<lambda>t. rl_received_at r \<le> t) (rl_claimed_at r)"

definition relay_clash :: "relay_row \<Rightarrow> relay_row \<Rightarrow> bool" where
  "relay_clash x y \<longleftrightarrow> rl_id x = rl_id y"

interpretation relays_table: constrained_table relay_ok relay_clash rl_id
  by unfold_locales (auto simp: relay_clash_def)

subsection \<open>webhook_sources\<close>

record source_row =
  so_id :: uuid
  so_owner :: uuid
  so_label :: string
  so_token_hash :: digest
  so_target :: string
  so_created_at :: instant
  so_disabled_at :: "instant option"

definition source_ok :: "source_row \<Rightarrow> bool" where
  "source_ok r \<longleftrightarrow> bounded 1 120 (so_label r) \<and> length (so_token_hash r) = 32
     \<and> dotted_name (so_target r) \<and> opt_ok (\<lambda>t. so_created_at r \<le> t) (so_disabled_at r)"

definition source_clash :: "source_row \<Rightarrow> source_row \<Rightarrow> bool" where
  "source_clash x y \<longleftrightarrow> so_id x = so_id y \<or> so_token_hash x = so_token_hash y"

interpretation sources_table: constrained_table source_ok source_clash so_id
  by unfold_locales (auto simp: source_clash_def)

subsection \<open>site_approvals\<close>

record approval_row =
  sap_site :: string
  sap_changed_by :: uuid
  sap_manifest :: string
  sap_capabilities :: "string list"
  sap_hostname :: string
  sap_state :: string
  sap_repository :: "json option"
  sap_changed_at :: instant

definition site_capability_names :: "string list" where
  "site_capability_names = [''pages.read'', ''assets.read'', ''search.publication'', ''live.release'',
     ''draft.read'', ''notes.edit'', ''library.read'', ''knowledge.search'']"

text \<open>\<^verbatim>\<open>^[a-z0-9][a-z0-9-]{0,38}/[a-z0-9_.-]{1,100}$\<close> and \<^verbatim>\<open>^[1-9][0-9]{0,19}$\<close>\<close>

definition repository_name :: "string \<Rightarrow> bool" where
  "repository_name s = (case split_once (CHR ''/'') s of None \<Rightarrow> False
     | Some (owner, name) \<Rightarrow> (case owner of [] \<Rightarrow> False
         | c # cs \<Rightarrow> (is_ascii_lowercase c \<or> is_ascii_digit c) \<and> length cs \<le> 38
             \<and> list_all (\<lambda>c. is_ascii_lowercase c \<or> is_ascii_digit c \<or> c = CHR ''-'') cs)
         \<and> bounded 1 100 name
         \<and> list_all (\<lambda>c. is_ascii_lowercase c \<or> is_ascii_digit c \<or> c \<in> set ''_.-'') name)"

definition repository_number :: "string \<Rightarrow> bool" where
  "repository_number s = (case s of [] \<Rightarrow> False
     | c # cs \<Rightarrow> is_ascii_digit c \<and> c \<noteq> CHR ''0'' \<and> length cs \<le> 19 \<and> list_all is_ascii_digit cs)"

definition repository_binding :: "json \<Rightarrow> bool" where
  "repository_binding v \<longleftrightarrow> is_object v
     \<and> (case json_text ''repository'' v of Some s \<Rightarrow> repository_name s | None \<Rightarrow> False)
     \<and> (case json_text ''repository_id'' v of Some s \<Rightarrow> repository_number s | None \<Rightarrow> False)"

definition approval_ok :: "approval_row \<Rightarrow> bool" where
  "approval_ok r \<longleftrightarrow> site_id_name (sap_site r) \<and> sha256_hex (sap_manifest r)
     \<and> list_all (\<lambda>c. c \<in> set site_capability_names) (sap_capabilities r)
     \<and> bounded 1 253 (sap_hostname r)
     \<and> (sap_state r = ''approved'' \<or> sap_state r = ''withdrawn'')
     \<and> opt_ok repository_binding (sap_repository r)"

definition approval_hostname_clash :: "approval_row \<Rightarrow> approval_row \<Rightarrow> bool" where
  "approval_hostname_clash x y \<longleftrightarrow> sap_state x = ''approved'' \<and> sap_state y = ''approved''
     \<and> sap_hostname x = sap_hostname y"

definition approval_clash :: "approval_row \<Rightarrow> approval_row \<Rightarrow> bool" where
  "approval_clash x y \<longleftrightarrow> sap_site x = sap_site y \<or> approval_hostname_clash x y"

interpretation approvals_table: constrained_table approval_ok approval_clash sap_site
  by unfold_locales (auto simp: approval_clash_def approval_hostname_clash_def)

end
