(* ===== verification/Schema.thy ===== *)
theory Schema
  imports Schema_Identity
begin

text \<open>
  The database Platform owns: one field per table of \<^verbatim>\<open>schema.sql\<close>. Every modelled operation
  takes the database and returns the new one; a transaction that fails returns an error and no
  database, so its caller goes on with the one it had. \<open>db_ok\<close> says that every table satisfies its
  constraints and unique indexes.
\<close>

record db =
  t_operations :: "operation_row list"
  t_acceptances :: "acceptance_row list"
  t_progress :: "progress_row list"
  t_results :: "result_row list"
  t_errors :: "error_row list"
  t_outbox :: "outbox_row list"
  t_inbox :: "inbox_row list"
  t_idempotency :: "idempotency_row list"
  t_schedules :: "schedule_row list"
  t_occurrences :: "occurrence_row list"
  t_users :: "user_row list"
  t_devices :: "device_row list"
  t_sessions :: "session_row list"
  t_refresh :: "refresh_row list"
  t_grants :: "grant_row list"
  t_revocations :: "revocation_row list"
  t_audit :: "audit_row list"
  t_pairing :: "pairing_row list"
  t_sign_in :: "sign_in_row list"
  t_identities :: "identity_row list"
  t_assertions :: "assertion_row list"
  t_relays :: "relay_row list"
  t_sources :: "source_row list"
  t_site_edits :: "site_edit_row list"
  t_approvals :: "approval_row list"

definition empty_db :: db where
  "empty_db = \<lparr>t_operations = [], t_acceptances = [], t_progress = [], t_results = [], t_errors = [],
    t_outbox = [], t_inbox = [], t_idempotency = [], t_schedules = [], t_occurrences = [],
    t_users = [], t_devices = [], t_sessions = [], t_refresh = [], t_grants = [],
    t_revocations = [], t_audit = [], t_pairing = [], t_sign_in = [],
    t_identities = [], t_assertions = [], t_relays = [], t_sources = [],
    t_site_edits = [], t_approvals = []\<rparr>"

definition db_ok :: "db \<Rightarrow> bool" where
  "db_ok d \<longleftrightarrow>
     table_ok operation_ok operation_clash (t_operations d)
     \<and> table_ok acceptance_ok acceptance_clash (t_acceptances d)
     \<and> table_ok progress_ok progress_clash (t_progress d)
     \<and> table_ok result_ok result_clash (t_results d)
     \<and> table_ok error_ok error_clash (t_errors d)
     \<and> table_ok outbox_ok outbox_clash (t_outbox d)
     \<and> table_ok inbox_ok inbox_clash (t_inbox d)
     \<and> table_ok idempotency_ok idempotency_clash (t_idempotency d)
     \<and> table_ok schedule_ok schedule_clash (t_schedules d)
     \<and> table_ok occurrence_ok occurrence_clash (t_occurrences d)
     \<and> table_ok user_ok user_clash (t_users d)
     \<and> table_ok device_ok device_clash (t_devices d)
     \<and> table_ok session_ok session_clash (t_sessions d)
     \<and> table_ok refresh_ok refresh_clash (t_refresh d)
     \<and> table_ok grant_ok grant_clash (t_grants d)
     \<and> table_ok revocation_ok revocation_clash (t_revocations d)
     \<and> table_ok audit_ok audit_clash (t_audit d)
     \<and> table_ok pairing_ok pairing_clash (t_pairing d)
     \<and> table_ok sign_in_ok sign_in_clash (t_sign_in d)
     \<and> table_ok identity_ok identity_clash (t_identities d)
     \<and> table_ok assertion_ok assertion_clash (t_assertions d)
     \<and> table_ok relay_ok relay_clash (t_relays d)
     \<and> table_ok source_ok source_clash (t_sources d)
     \<and> table_ok site_edit_ok site_edit_clash (t_site_edits d)
     \<and> table_ok approval_ok approval_clash (t_approvals d)"

lemma empty_db_ok: "db_ok empty_db"
  by (simp add: db_ok_def empty_db_def table_ok_def)

text \<open>What a well-formed database says of each table, and what keeps it well-formed.\<close>

lemma db_okD:
  assumes "db_ok d"
  shows "table_ok operation_ok operation_clash (t_operations d)"
    and "table_ok acceptance_ok acceptance_clash (t_acceptances d)"
    and "table_ok progress_ok progress_clash (t_progress d)"
    and "table_ok result_ok result_clash (t_results d)"
    and "table_ok error_ok error_clash (t_errors d)"
    and "table_ok outbox_ok outbox_clash (t_outbox d)"
    and "table_ok inbox_ok inbox_clash (t_inbox d)"
    and "table_ok idempotency_ok idempotency_clash (t_idempotency d)"
    and "table_ok schedule_ok schedule_clash (t_schedules d)"
    and "table_ok occurrence_ok occurrence_clash (t_occurrences d)"
    and "table_ok user_ok user_clash (t_users d)"
    and "table_ok device_ok device_clash (t_devices d)"
    and "table_ok session_ok session_clash (t_sessions d)"
    and "table_ok refresh_ok refresh_clash (t_refresh d)"
    and "table_ok grant_ok grant_clash (t_grants d)"
    and "table_ok revocation_ok revocation_clash (t_revocations d)"
    and "table_ok audit_ok audit_clash (t_audit d)"
    and "table_ok pairing_ok pairing_clash (t_pairing d)"
    and "table_ok sign_in_ok sign_in_clash (t_sign_in d)"
    and "table_ok identity_ok identity_clash (t_identities d)"
    and "table_ok assertion_ok assertion_clash (t_assertions d)"
    and "table_ok relay_ok relay_clash (t_relays d)"
    and "table_ok source_ok source_clash (t_sources d)"
    and "table_ok site_edit_ok site_edit_clash (t_site_edits d)"
    and "table_ok approval_ok approval_clash (t_approvals d)"
  using assms by (simp_all add: db_ok_def)

lemma db_ok_update [intro]:
  "db_ok d \<Longrightarrow> table_ok operation_ok operation_clash operations' \<Longrightarrow> db_ok (d\<lparr>t_operations := operations'\<rparr>)"
  "db_ok d \<Longrightarrow> table_ok acceptance_ok acceptance_clash acceptances' \<Longrightarrow> db_ok (d\<lparr>t_acceptances := acceptances'\<rparr>)"
  "db_ok d \<Longrightarrow> table_ok progress_ok progress_clash progress' \<Longrightarrow> db_ok (d\<lparr>t_progress := progress'\<rparr>)"
  "db_ok d \<Longrightarrow> table_ok result_ok result_clash results' \<Longrightarrow> db_ok (d\<lparr>t_results := results'\<rparr>)"
  "db_ok d \<Longrightarrow> table_ok error_ok error_clash errors' \<Longrightarrow> db_ok (d\<lparr>t_errors := errors'\<rparr>)"
  "db_ok d \<Longrightarrow> table_ok outbox_ok outbox_clash outbox' \<Longrightarrow> db_ok (d\<lparr>t_outbox := outbox'\<rparr>)"
  "db_ok d \<Longrightarrow> table_ok inbox_ok inbox_clash inbox' \<Longrightarrow> db_ok (d\<lparr>t_inbox := inbox'\<rparr>)"
  "db_ok d \<Longrightarrow> table_ok idempotency_ok idempotency_clash idempotency' \<Longrightarrow> db_ok (d\<lparr>t_idempotency := idempotency'\<rparr>)"
  "db_ok d \<Longrightarrow> table_ok schedule_ok schedule_clash schedules' \<Longrightarrow> db_ok (d\<lparr>t_schedules := schedules'\<rparr>)"
  "db_ok d \<Longrightarrow> table_ok occurrence_ok occurrence_clash occurrences' \<Longrightarrow> db_ok (d\<lparr>t_occurrences := occurrences'\<rparr>)"
  "db_ok d \<Longrightarrow> table_ok user_ok user_clash users' \<Longrightarrow> db_ok (d\<lparr>t_users := users'\<rparr>)"
  "db_ok d \<Longrightarrow> table_ok device_ok device_clash devices' \<Longrightarrow> db_ok (d\<lparr>t_devices := devices'\<rparr>)"
  "db_ok d \<Longrightarrow> table_ok session_ok session_clash sessions' \<Longrightarrow> db_ok (d\<lparr>t_sessions := sessions'\<rparr>)"
  "db_ok d \<Longrightarrow> table_ok refresh_ok refresh_clash refresh' \<Longrightarrow> db_ok (d\<lparr>t_refresh := refresh'\<rparr>)"
  "db_ok d \<Longrightarrow> table_ok grant_ok grant_clash grants' \<Longrightarrow> db_ok (d\<lparr>t_grants := grants'\<rparr>)"
  "db_ok d \<Longrightarrow> table_ok revocation_ok revocation_clash revocations' \<Longrightarrow> db_ok (d\<lparr>t_revocations := revocations'\<rparr>)"
  "db_ok d \<Longrightarrow> table_ok audit_ok audit_clash audit' \<Longrightarrow> db_ok (d\<lparr>t_audit := audit'\<rparr>)"
  "db_ok d \<Longrightarrow> table_ok pairing_ok pairing_clash pairing' \<Longrightarrow> db_ok (d\<lparr>t_pairing := pairing'\<rparr>)"
  "db_ok d \<Longrightarrow> table_ok sign_in_ok sign_in_clash sign_in' \<Longrightarrow> db_ok (d\<lparr>t_sign_in := sign_in'\<rparr>)"
  "db_ok d \<Longrightarrow> table_ok identity_ok identity_clash identities' \<Longrightarrow> db_ok (d\<lparr>t_identities := identities'\<rparr>)"
  "db_ok d \<Longrightarrow> table_ok assertion_ok assertion_clash assertions' \<Longrightarrow> db_ok (d\<lparr>t_assertions := assertions'\<rparr>)"
  "db_ok d \<Longrightarrow> table_ok relay_ok relay_clash relays' \<Longrightarrow> db_ok (d\<lparr>t_relays := relays'\<rparr>)"
  "db_ok d \<Longrightarrow> table_ok source_ok source_clash sources' \<Longrightarrow> db_ok (d\<lparr>t_sources := sources'\<rparr>)"
  "db_ok d \<Longrightarrow> table_ok site_edit_ok site_edit_clash site_edits' \<Longrightarrow> db_ok (d\<lparr>t_site_edits := site_edits'\<rparr>)"
  "db_ok d \<Longrightarrow> table_ok approval_ok approval_clash approvals' \<Longrightarrow> db_ok (d\<lparr>t_approvals := approvals'\<rparr>)"
  by (simp_all add: db_ok_def)

text \<open>A foreign key to \<open>operations.operations\<close>.\<close>

definition operation_exists :: "db \<Rightarrow> uuid \<Rightarrow> bool" where
  "operation_exists d i = row_exists (\<lambda>r. op_id r = i) (t_operations d)"

lemma operation_exists_iff: "operation_exists d i \<longleftrightarrow> (\<exists>r \<in> set (t_operations d). op_id r = i)"
  by (simp add: operation_exists_def row_exists_def list_ex_iff)

definition user_exists :: "db \<Rightarrow> uuid \<Rightarrow> bool" where
  "user_exists d i = row_exists (\<lambda>r. us_id r = i) (t_users d)"

definition session_exists :: "db \<Rightarrow> uuid \<Rightarrow> bool" where
  "session_exists d i = row_exists (\<lambda>r. ss_id r = i) (t_sessions d)"

definition device_exists :: "db \<Rightarrow> uuid \<Rightarrow> bool" where
  "device_exists d i = row_exists (\<lambda>r. dv_id r = i) (t_devices d)"

text \<open>A failed statement in the functions that answer with a \<open>PersistenceError\<close>.\<close>

definition persist :: "sql_error + 'a \<Rightarrow> persistence_error + 'a" where
  "persist = map_err Query"

lemma persist_simps [simp]:
  "persist (Inl e) = Inl (Query e)"
  "persist (Inr a) = Inr a"
  "persist m = Inr a \<longleftrightarrow> m = Inr a"
  by (simp_all add: persist_def)

end
