(* ===== verification/Transition.thy ===== *)
theory Transition
  imports Schema
begin

text \<open>
  \<^verbatim>\<open>crates/operations/src/transition.rs\<close>, the operation lifecycle, and the stored tokens of a
  status (\<open>status_str\<close> and \<open>status_from_str\<close> of \<^verbatim>\<open>crates/operations/src/lib.rs\<close>).
  The contract enum is \<^verbatim>\<open>#[non_exhaustive]\<close>; \<open>OtherStatus\<close> stands for a variant a later
  release adds, which the catch-all arms of the code receive.
\<close>

subsection \<open>The contract's statuses and their rank\<close>

datatype operation_status =
    Accepted
  | Queued
  | Running
  | Succeeded
  | PartiallySucceeded
  | Failed
  | Cancelled
  | OtherStatus

datatype transition =
    Advance operation_status
  | Duplicate
  | Stale
  | Conflict

definition terminal_rank :: nat where
  "terminal_rank = 3"

fun rank :: "operation_status \<Rightarrow> nat" where
  "rank Accepted = 0"
| "rank Queued = 1"
| "rank Running = 2"
| "rank Succeeded = terminal_rank"
| "rank PartiallySucceeded = terminal_rank"
| "rank Failed = terminal_rank"
| "rank Cancelled = terminal_rank"
| "rank OtherStatus = 255"

fun discriminant :: "operation_status \<Rightarrow> nat" where
  "discriminant Accepted = 0"
| "discriminant Queued = 1"
| "discriminant Running = 2"
| "discriminant Succeeded = 3"
| "discriminant PartiallySucceeded = 4"
| "discriminant Failed = 5"
| "discriminant Cancelled = 6"
| "discriminant OtherStatus = 255"

definition same :: "operation_status \<Rightarrow> operation_status \<Rightarrow> bool" where
  "same left right \<longleftrightarrow> discriminant left = discriminant right"

definition is_terminal :: "operation_status \<Rightarrow> bool" where
  "is_terminal status \<longleftrightarrow> rank status = terminal_rank"

definition transition_apply :: "operation_status \<Rightarrow> operation_status \<Rightarrow> transition" where
  "transition_apply current incoming =
     (if same current incoming then Duplicate
      else if rank current < rank incoming then Advance incoming
      else if rank incoming < rank current then Stale
      else Conflict)"

definition all_statuses :: "operation_status list" where
  "all_statuses = [Accepted, Queued, Running, Succeeded, PartiallySucceeded, Failed, Cancelled]"

subsection \<open>Stored tokens\<close>

fun status_str :: "operation_status \<Rightarrow> string" where
  "status_str Accepted = ''accepted''"
| "status_str Queued = ''queued''"
| "status_str Running = ''running''"
| "status_str Succeeded = ''succeeded''"
| "status_str PartiallySucceeded = ''partially_succeeded''"
| "status_str Failed = ''failed''"
| "status_str Cancelled = ''cancelled''"
| "status_str OtherStatus = ''unknown''"

definition status_from_str :: "string \<Rightarrow> operation_status option" where
  "status_from_str value =
     (if value = ''accepted'' then Some Accepted
      else if value = ''queued'' then Some Queued
      else if value = ''running'' then Some Running
      else if value = ''succeeded'' then Some Succeeded
      else if value = ''partially_succeeded'' then Some PartiallySucceeded
      else if value = ''failed'' then Some Failed
      else if value = ''cancelled'' then Some Cancelled
      else None)"

text \<open>The label the transition counter carries (\<open>count_transition\<close>).\<close>

fun transition_label :: "transition \<Rightarrow> string" where
  "transition_label (Advance s) = ''advance''"
| "transition_label Duplicate = ''duplicate''"
| "transition_label Stale = ''stale''"
| "transition_label Conflict = ''conflict''"

subsection \<open>The rank rule\<close>

lemma same_iff [simp]: "same x y \<longleftrightarrow> x = y"
  by (cases x; cases y) (simp_all add: same_def)

lemma set_all_statuses: "s \<in> set all_statuses \<longleftrightarrow> s \<noteq> OtherStatus"
  by (cases s) (simp_all add: all_statuses_def)

lemma rank_known: "s \<noteq> OtherStatus \<Longrightarrow> rank s \<le> 3"
  by (cases s) (simp_all add: terminal_rank_def)

lemma terminal_iff:
  "is_terminal s \<longleftrightarrow> s \<in> {Succeeded, PartiallySucceeded, Failed, Cancelled}"
  by (cases s) (simp_all add: is_terminal_def terminal_rank_def)

lemma rank_eq_cases: "rank x = rank y \<Longrightarrow> x = y \<or> (is_terminal x \<and> is_terminal y)"
  by (cases x; cases y) (simp_all add: terminal_iff terminal_rank_def)

lemma apply_Advance [simp]:
  "transition_apply cur inc = Advance s \<longleftrightarrow> rank cur < rank inc \<and> s = inc"
  by (auto simp: transition_apply_def)

lemma apply_Duplicate [simp]: "transition_apply cur inc = Duplicate \<longleftrightarrow> cur = inc"
  by (auto simp: transition_apply_def)

lemma apply_Stale [simp]: "transition_apply cur inc = Stale \<longleftrightarrow> rank inc < rank cur"
  by (auto simp: transition_apply_def)

lemma apply_Conflict [simp]:
  "transition_apply cur inc = Conflict \<longleftrightarrow> cur \<noteq> inc \<and> is_terminal cur \<and> is_terminal inc"
  by (cases cur; cases inc) (auto simp: transition_apply_def terminal_iff terminal_rank_def)

lemma status_roundtrip: "s \<noteq> OtherStatus \<Longrightarrow> status_from_str (status_str s) = Some s"
  by (cases s) (simp_all add: status_from_str_def)

lemma status_from_str_Some:
  "status_from_str t = Some s \<longleftrightarrow> t = status_str s \<and> s \<noteq> OtherStatus"
  by (cases s) (auto simp: status_from_str_def)

lemma known_status_iff: "known_status t \<longleftrightarrow> (\<exists>s. s \<noteq> OtherStatus \<and> t = status_str s)"
proof
  assume "known_status t"
  then have "status_from_str t \<noteq> None" by (auto simp: known_status_def status_from_str_def)
  then show "\<exists>s. s \<noteq> OtherStatus \<and> t = status_str s" by (auto simp: status_from_str_Some)
next
  assume "\<exists>s. s \<noteq> OtherStatus \<and> t = status_str s"
  then obtain s where "s \<noteq> OtherStatus" "t = status_str s" by blast
  then show "known_status t" by (cases s) (simp_all add: known_status_def)
qed

lemma known_status_from_str: "known_status t \<longleftrightarrow> (\<exists>s. status_from_str t = Some s)"
  by (auto simp: known_status_iff status_from_str_Some)

lemma status_str_inj: "status_str x = status_str y \<longleftrightarrow> x = y"
  by (cases x; cases y) simp_all

lemma sql_rank [simp]: "s \<noteq> OtherStatus \<Longrightarrow> status_rank (status_str s) = Some (rank s)"
  by (cases s) (simp_all add: status_rank_def terminal_rank_def)

lemma sql_terminal [simp]: "status_is_terminal (status_str s) = is_terminal s"
  by (cases s) (simp_all add: status_is_terminal_def terminal_iff)

lemma other_not_known: "\<not> known_status (status_str OtherStatus)"
  by (simp add: known_status_def)

subsection \<open>Absorbing a stream of reported statuses\<close>

text \<open>
  What an operation's status becomes when a status is reported: it moves only on \<open>Advance\<close>. The
  fold over a list of reports is what at-least-once, unordered delivery does to an operation.
\<close>

definition absorb :: "operation_status \<Rightarrow> operation_status \<Rightarrow> operation_status" where
  "absorb incoming current = (case transition_apply current incoming of Advance s \<Rightarrow> s | _ \<Rightarrow> current)"

lemma absorb_eq: "absorb incoming current = (if rank current < rank incoming then incoming else current)"
  by (auto simp: absorb_def transition_apply_def)

lemma absorb_rank: "rank (absorb incoming current) = max (rank current) (rank incoming)"
  by (simp add: absorb_eq)

lemma absorb_all_rank: "rank (fold absorb ss s) = fold max (map rank ss) (rank s)"
proof (induction ss arbitrary: s)
  case Nil
  show ?case by simp
next
  case (Cons x ss)
  then show ?case by (simp add: absorb_rank max.commute)
qed

lemma absorb_all_mem: "fold absorb ss s \<in> insert s (set ss)"
proof (induction ss arbitrary: s)
  case Nil
  show ?case by simp
next
  case (Cons x ss)
  from Cons [of "absorb x s"] show ?case by (auto simp: absorb_eq split: if_splits)
qed

lemma absorb_terminal: "is_terminal s \<Longrightarrow> OtherStatus \<notin> set ss \<Longrightarrow> fold absorb ss s = s"
proof (induction ss)
  case Nil
  show ?case by simp
next
  case (Cons x ss)
  then have "rank x \<le> rank s" using rank_known [of x] by (auto simp: is_terminal_def terminal_rank_def)
  with Cons show ?case by (simp add: absorb_eq)
qed

text \<open>
  The four outcomes of the lifecycle rule, over all pairs of contract statuses.
\<close>

lemma transition_classification:
  assumes "cur \<in> set all_statuses" and "inc \<in> set all_statuses"
  shows "transition_apply cur inc =
    (if cur = inc then Duplicate
     else if is_terminal cur \<and> is_terminal inc then Conflict
     else if rank cur < rank inc then Advance inc
     else Stale)"
proof -
  consider "cur = inc" | "cur \<noteq> inc" "is_terminal cur \<and> is_terminal inc"
    | "cur \<noteq> inc" "\<not> (is_terminal cur \<and> is_terminal inc)" by blast
  then show ?thesis
  proof cases
    case 3
    then have "rank cur \<noteq> rank inc" using rank_eq_cases by blast
    with 3 show ?thesis by (auto simp: transition_apply_def)
  qed auto
qed

lemma transition_classification_witness:
  "transition_apply Queued Succeeded = Advance Succeeded"
  using transition_classification [of Queued Succeeded]
  by (simp add: set_all_statuses terminal_iff terminal_rank_def)

text \<open>
  C40: the Rust rule and the trigger of \<^verbatim>\<open>schema.sql\<close> agree. A row whose status would change, at
  an instant not before the last change, passes the trigger exactly when the rule says \<open>Advance\<close>.
\<close>

theorem transition_agrees_with_trigger:
  assumes "cur \<in> set all_statuses" and "inc \<in> set all_statuses" and "cur \<noteq> inc"
    and "op_status old = status_str cur" and "op_status new = status_str inc"
    and "op_status_changed_at old \<le> op_status_changed_at new"
  shows "guard_status_transition old new \<longleftrightarrow> transition_apply cur inc = Advance inc"
  using assms rank_known [of inc]
  by (auto simp: guard_status_transition_def set_all_statuses status_str_inj is_terminal_def
      terminal_rank_def)

definition sample_row :: "string \<Rightarrow> operation_row" where
  "sample_row st = \<lparr>op_id = 1, op_owner = 2, op_kind = ''content.capture.submit'', op_status = st,
     op_stage = None, op_percent = None, op_correlation = ''correlation:1'',
     op_idempotency = None, op_reporter = Some ''ratatoskr-x'', op_retryable = False,
     op_cancel_requested_at = None, op_accepted_at = 10, op_status_changed_at = 10,
     op_terminated_at = None\<rparr>"

theorem transition_agrees_with_trigger_witness:
  "guard_status_transition (sample_row ''running'') (sample_row ''failed'')
   \<and> \<not> guard_status_transition (sample_row ''failed'') (sample_row ''running'')"
  using transition_agrees_with_trigger [of Running Failed "sample_row ''running''" "sample_row ''failed''"]
    transition_agrees_with_trigger [of Failed Running "sample_row ''failed''" "sample_row ''running''"]
  by (simp add: set_all_statuses sample_row_def terminal_rank_def)

lemma absorb_all_rank_Max: "rank (fold absorb ss s) = Max (insert (rank s) (rank ` set ss))"
  by (simp add: absorb_all_rank Max.set_eq_fold [symmetric])

text \<open>
  Reports may be lost, repeated and reordered. Two deliveries of the same set of reported
  statuses, among which at most one terminal status occurs, leave an operation in the same status,
  whatever the order and the number of repetitions.
\<close>

lemma delivery_order_is_irrelevant:
  assumes "set ss = set ts" and "OtherStatus \<notin> set ss"
    and "\<And>x y. x \<in> set ss \<Longrightarrow> y \<in> set ss \<Longrightarrow> is_terminal x \<Longrightarrow> is_terminal y \<Longrightarrow> x = y"
  shows "fold absorb ss s = fold absorb ts s"
proof (cases "is_terminal s")
  case True
  then show ?thesis using assms(1,2) by (simp add: absorb_terminal)
next
  case False
  have "rank (fold absorb ss s) = rank (fold absorb ts s)"
    by (simp only: absorb_all_rank_Max assms(1))
  moreover have "fold absorb ss s \<in> insert s (set ss)" "fold absorb ts s \<in> insert s (set ss)"
    using absorb_all_mem [of ss s] absorb_all_mem [of ts s] assms(1) by auto
  ultimately show ?thesis using False assms(3) by (metis insert_iff rank_eq_cases)
qed

lemma delivery_order_is_irrelevant_witness:
  "fold absorb [Running, Failed, Queued, Failed] Accepted = fold absorb [Failed, Queued, Running] Accepted"
  by (rule delivery_order_is_irrelevant) (auto simp: terminal_iff)

end
