(* ===== verification/Contracts.thy ===== *)
theory Contracts
  imports Transition
begin

text \<open>
  What the modelled code takes from \<^verbatim>\<open>ratatoskr-contracts\<close>, a repository of its own: the values
  it passes through (only the members the code reads, next to the serialized whole), and, as the
  fields of \<open>contracts\<close>, the parsers and validators it calls. The model is parametric in them; a
  theorem that relies on one names what it relies on as a hypothesis.
\<close>

text \<open>\<open>ErrorEnvelope\<close> and \<open>WarningEnvelope\<close>: \<open>value\<close> is what \<open>serde_json::to_value\<close> gives.\<close>

record error_envelope =
  ee_retryable :: bool
  ee_value :: json

record warning_envelope =
  we_value :: json

text \<open>\<open>OperationResultRef\<close>.\<close>

record result_ref =
  rr_kind :: string
  rr_target :: string
  rr_value :: json

text \<open>\<open>OperationReported\<close>, the payload of \<^verbatim>\<open>platform.operation.reported.v1\<close>.\<close>

record operation_report =
  rep_operation :: uuid
  rep_status :: operation_status
  rep_stage :: "string option"
  rep_percent :: "8 word option"
  rep_results :: "result_ref list"
  rep_error :: "error_envelope option"
  rep_warnings :: "warning_envelope list"

text \<open>
  \<open>parse_tenant\<close> is \<open>TenantRef::parse\<close>, a tenant being its canonical text, and \<open>tenant_of_user\<close>
  \<open>TenantRef::of_user\<close>. \<open>new_error\<close> is \<open>ErrorEnvelope::new\<close> over \<open>ErrorCode::parse\<close> and
  \<open>SafeMessage::parse\<close>, and \<open>new_result\<close> an \<open>OperationResultRef\<close> over \<open>OperationResultKind::parse\<close>;
  each gives the parser's message when it refuses. \<open>read_raised\<close> and \<open>read_resolved\<close> deserialize
  the payload of a notes conflict event into its operation and the entity reference of its conflict.
\<close>

record contracts =
  parse_tenant :: "string \<Rightarrow> string option"
  tenant_of_user :: "uuid \<Rightarrow> string"
  decode_report :: "json \<Rightarrow> operation_report option"
  validate_report :: "operation_report \<Rightarrow> bool"
  new_error :: "string \<Rightarrow> string \<Rightarrow> bool \<Rightarrow> string + error_envelope"
  new_result :: "string \<Rightarrow> string \<Rightarrow> string + result_ref"
  read_raised :: "json \<Rightarrow> (uuid \<times> string) option"
  read_resolved :: "json \<Rightarrow> (uuid \<times> string) option"

end
