(* ===== verification/Authority.thy ===== *)
theory Authority
  imports Contracts
begin

text \<open>
  \<^verbatim>\<open>crates/operations/src/authority.rs\<close>: the closed table of who may report for which operation
  kind, and the decision whether one report may be applied.
\<close>

datatype producers =
    Listed "string list"
  | ProviderBound

definition capture_producers :: "string list" where
  "capture_producers =
     [''ratatoskr-extractor'', ''ratatoskr-x'', ''ratatoskr-instagram'', ''ratatoskr-threads'']"

definition channel_digest_producers :: "string list" where
  "channel_digest_producers = [''ratatoskr-channel-digests'']"

definition notes_producers :: "string list" where
  "notes_producers = [''ratatoskr-notes'']"

definition sites_producers :: "string list" where
  "sites_producers = [''ratatoskr-sites'']"

definition authority_table :: "(string \<times> producers) list" where
  "authority_table =
     [(''content.capture.submit'', Listed capture_producers),
      (''ai_archive.import'', ProviderBound),
      (''channel_digest.subscription.set'', Listed channel_digest_producers),
      (''channel_digest.run'', Listed channel_digest_producers),
      (''channel_digest.schedule.occurrence'', Listed channel_digest_producers),
      (''notes.connection.connect'', Listed notes_producers),
      (''notes.file.write'', Listed notes_producers),
      (''notes.connection.write_mode'', Listed notes_producers),
      (''sites.release.build'', Listed sites_producers)]"

definition producers_for :: "string \<Rightarrow> producers option" where
  "producers_for kind = map_option snd (find (\<lambda>(row, _). row = kind) authority_table)"

definition allows :: "string \<Rightarrow> string \<Rightarrow> bool" where
  "allows kind producer \<longleftrightarrow>
     (case producers_for kind of Some (Listed listed) \<Rightarrow> producer \<in> set listed | _ \<Rightarrow> False)"

definition authorize ::
  "contracts \<Rightarrow> string \<Rightarrow> string \<Rightarrow> string option \<Rightarrow> uuid \<Rightarrow> string option \<Rightarrow> bool \<Rightarrow> bool" where
  "authorize c kind producer envelope_tenant owner reporter acceptance_bound =
     (let tenant_ok = (case envelope_tenant of
            Some raw \<Rightarrow> parse_tenant c raw = Some (tenant_of_user c owner)
          | None \<Rightarrow> False)
      in case producers_for kind of
           Some (Listed listed) \<Rightarrow> tenant_ok \<and> producer \<in> set listed \<and> reporter = Some producer
         | Some ProviderBound \<Rightarrow> if envelope_tenant \<noteq> None then tenant_ok else acceptance_bound
         | None \<Rightarrow> False)"

lemma producers_for_Some:
  "producers_for kind = Some p \<Longrightarrow> (kind, p) \<in> set authority_table"
  by (auto simp: producers_for_def find_Some_iff) (metis nth_mem)

lemma producers_for_listed_names:
  "producers_for kind = Some (Listed ps) \<Longrightarrow> p \<in> set ps \<Longrightarrow> producer_name p"
  by (drule producers_for_Some)
    (auto simp: authority_table_def capture_producers_def channel_digest_producers_def
      notes_producers_def sites_producers_def grammar_defs)

lemma allows_reporter_name: "allows kind p \<Longrightarrow> producer_name p"
  by (auto simp: allows_def dest: producers_for_listed_names split: option.splits producers.splits)

lemma authorize_tenant:
  assumes "authorize c kind producer t owner reporter b"
  shows "(\<exists>raw. t = Some raw \<and> parse_tenant c raw = Some (tenant_of_user c owner))
       \<or> (t = None \<and> b \<and> producers_for kind = Some ProviderBound)"
  using assms
  by (cases t; cases "producers_for kind")
    (auto simp: authorize_def Let_def split: producers.splits)

text \<open>
  A report is accepted only from the authority the table, the operation and the acceptance
  record name. A listed kind needs the owner's own tenant and the one recorded reporter, who must
  be listed; a missing tenant is tolerated only for a provider-bound kind with its acceptance
  record; a kind with no row accepts nobody.
\<close>

lemma authorize_sound:
  assumes "authorize c kind producer envelope_tenant owner reporter bound"
  shows "(allows kind producer \<and> reporter = Some producer
            \<and> (\<exists>raw. envelope_tenant = Some raw \<and> parse_tenant c raw = Some (tenant_of_user c owner)))
       \<or> (producers_for kind = Some ProviderBound
            \<and> (case envelope_tenant of
                 Some raw \<Rightarrow> parse_tenant c raw = Some (tenant_of_user c owner)
               | None \<Rightarrow> bound))"
  using assms
  by (cases envelope_tenant; cases "producers_for kind")
    (auto simp: authorize_def allows_def Let_def split: producers.splits if_splits)

text \<open>A concrete instance of the contract functions, for the closed examples of the development.\<close>

definition demo_contracts :: contracts where
  "demo_contracts = \<lparr>
     parse_tenant = (\<lambda>s. if starts_with ''user:'' s then Some s else None),
     tenant_of_user = (\<lambda>u. ''user:'' @ (if u = 2 then ''two'' else ''other'')),
     decode_report = (\<lambda>v. case v of
         JString s \<Rightarrow> map_option (\<lambda>st. \<lparr>rep_operation = 1, rep_status = st, rep_stage = None,
           rep_percent = None, rep_results = [], rep_error = None, rep_warnings = []\<rparr>)
           (status_from_str s)
       | _ \<Rightarrow> None),
     validate_report = (\<lambda>r. rep_status r \<noteq> Failed \<or> rep_error r \<noteq> None),
     new_error = (\<lambda>code msg b. if dotted_name code \<and> safe_line msg
         then Inr \<lparr>ee_retryable = b, ee_value = JObject [(''code'', JString code),
           (''message'', JString msg), (''retryable'', JBool b)]\<rparr> else Inl ''refused''),
     new_result = (\<lambda>k t. if dotted_name k
         then Inr \<lparr>rr_kind = k, rr_target = t, rr_value = JObject [(''target'', JString t)]\<rparr>
         else Inl ''refused''),
     read_raised = (\<lambda>v. case v of JString s \<Rightarrow> Some (1, s) | _ \<Rightarrow> None),
     read_resolved = (\<lambda>v. case v of JString s \<Rightarrow> Some (1, s) | _ \<Rightarrow> None)\<rparr>"

lemma authorize_sound_witness:
  "allows ''channel_digest.run'' ''ratatoskr-channel-digests''"
proof -
  have "authorize demo_contracts ''channel_digest.run'' ''ratatoskr-channel-digests''
      (Some ''user:two'') 2 (Some ''ratatoskr-channel-digests'') False"
    by code_simp
  from authorize_sound [OF this] show ?thesis
    by (auto simp: producers_for_def authority_table_def)
qed

end
