(* ===== verification/Operations.thy ===== *)
theory Operations
  imports Authority
begin

text \<open>
  \<^verbatim>\<open>crates/operations/src/lib.rs\<close>: accepting an operation, reading it back, moving its status, and
  attaching results, errors and warnings. A function that inserts a row takes the identifier that
  \<open>Uuid::now_v7()\<close> returned as an argument; the primary key refuses one that is in use.
\<close>

subsection \<open>Errors and the stored shape of an operation\<close>

datatype operation_error =
    ConflictingOutcome string string
  | NotFound
  | ReporterNotAllowed string string
  | ContractViolation string
  | Persistence persistence_error

record operation =
  o_id :: uuid
  o_owner :: uuid
  o_kind :: string
  o_status :: operation_status
  o_stage :: "string option"
  o_percent :: "int option"
  o_correlation :: string
  o_reporter :: "string option"
  o_retryable :: bool
  o_cancel_requested_at :: "instant option"
  o_accepted_at :: instant
  o_status_changed_at :: instant
  o_terminated_at :: "instant option"

definition query :: "sql_error + 'a \<Rightarrow> operation_error + 'a" where
  "query = map_err (Persistence \<circ> Query)"

lemma query_simps [simp]:
  "query (Inl e) = Inl (Persistence (Query e))"
  "query (Inr a) = Inr a"
  "query m = Inr a \<longleftrightarrow> m = Inr a"
  by (simp_all add: query_def)

definition operation_from_row :: "operation_row \<Rightarrow> operation_error + operation" where
  "operation_from_row r =
     (case status_from_str (op_status r) of
        None \<Rightarrow> Inl (ContractViolation (''unknown stored status '' @ op_status r))
      | Some st \<Rightarrow> Inr
          \<lparr>o_id = op_id r, o_owner = op_owner r, o_kind = op_kind r, o_status = st,
           o_stage = op_stage r, o_percent = op_percent r, o_correlation = op_correlation r,
           o_reporter = op_reporter r, o_retryable = op_retryable r,
           o_cancel_requested_at = op_cancel_requested_at r, o_accepted_at = op_accepted_at r,
           o_status_changed_at = op_status_changed_at r, o_terminated_at = op_terminated_at r\<rparr>)"

definition find_operation :: "db \<Rightarrow> uuid \<Rightarrow> operation_error + operation option" where
  "find_operation d i =
     (case fetch_optional (\<lambda>r. op_id r = i) (t_operations d) of
        None \<Rightarrow> Inr None
      | Some r \<Rightarrow> bindE (operation_from_row r) (\<lambda>op. Inr (Some op)))"

subsection \<open>Accepting\<close>

definition accepted_row ::
  "uuid \<Rightarrow> uuid \<Rightarrow> string \<Rightarrow> string \<Rightarrow> string option \<Rightarrow> string option \<Rightarrow> instant \<Rightarrow> operation_row" where
  "accepted_row i owner kind correlation key reporter now =
     \<lparr>op_id = i, op_owner = owner, op_kind = kind, op_status = ''accepted'', op_stage = None,
      op_percent = None, op_correlation = correlation, op_idempotency = key,
      op_reporter = reporter, op_retryable = False, op_cancel_requested_at = None,
      op_accepted_at = now, op_status_changed_at = now, op_terminated_at = None\<rparr>"

definition accept ::
  "db \<Rightarrow> uuid \<Rightarrow> uuid \<Rightarrow> string \<Rightarrow> string \<Rightarrow> string option \<Rightarrow> string option \<Rightarrow> instant
     \<Rightarrow> operation_error + operation \<times> db" where
  "accept d i owner kind correlation key reporter now =
     bindE (case reporter of
              Some p \<Rightarrow> if allows kind p then Inr () else Inl (ReporterNotAllowed kind p)
            | None \<Rightarrow> Inr ())
       (\<lambda>_. bindE (query (sql_insert operation_ok operation_clash
                 (accepted_row i owner kind correlation key reporter now) (t_operations d)))
         (\<lambda>ops. Inr
           (\<lparr>o_id = i, o_owner = owner, o_kind = kind, o_status = Accepted, o_stage = None,
             o_percent = None, o_correlation = correlation, o_reporter = reporter,
             o_retryable = False, o_cancel_requested_at = None, o_accepted_at = now,
             o_status_changed_at = now, o_terminated_at = None\<rparr>,
            d\<lparr>t_operations := ops\<rparr>)))"

subsection \<open>Moving the status\<close>

text \<open>\<open>coalesce(x, y)\<close>\<close>

definition coalesce :: "'a option \<Rightarrow> 'a option \<Rightarrow> 'a option" where
  "coalesce x y = (case x of None \<Rightarrow> y | Some _ \<Rightarrow> x)"

definition advanced_row ::
  "operation_status \<Rightarrow> string option \<Rightarrow> 8 word option \<Rightarrow> instant \<Rightarrow> operation_row \<Rightarrow> operation_row" where
  "advanced_row st stage percent now r =
     r\<lparr>op_status := status_str st, op_stage := coalesce stage (op_stage r),
       op_percent := coalesce (map_option uint percent) (op_percent r),
       op_status_changed_at := now,
       op_terminated_at := (if is_terminal st then Some now else None)\<rparr>"

definition progress_of ::
  "uuid \<Rightarrow> uuid \<Rightarrow> operation_status \<Rightarrow> string option \<Rightarrow> 8 word option \<Rightarrow> string option \<Rightarrow> instant
     \<Rightarrow> progress_row" where
  "progress_of p i st stage percent message now =
     \<lparr>pr_id = p, pr_operation = i, pr_observed_at = now, pr_status = status_str st,
      pr_stage = stage, pr_percent = map_option uint percent, pr_message = message\<rparr>"

definition insert_progress :: "db \<Rightarrow> progress_row \<Rightarrow> sql_error + db" where
  "insert_progress d r =
     (if \<not> operation_exists d (pr_operation r) then Inl Foreign_key_violation
      else bindE (sql_insert progress_ok progress_clash r (t_progress d))
             (\<lambda>t. Inr (d\<lparr>t_progress := t\<rparr>)))"

definition record_status ::
  "db \<Rightarrow> uuid \<Rightarrow> uuid \<Rightarrow> operation_status \<Rightarrow> string option \<Rightarrow> 8 word option \<Rightarrow> string option \<Rightarrow> instant
     \<Rightarrow> operation_error + (transition \<times> operation) \<times> db" where
  "record_status d p i incoming stage percent message now =
     bindE (ok_or NotFound (fetch_optional (\<lambda>r. op_id r = i) (t_operations d))) (\<lambda>_.
     bindE (find_operation d i) (\<lambda>found.
     bindE (ok_or NotFound found) (\<lambda>current.
       case transition_apply (o_status current) incoming of
         Duplicate \<Rightarrow> Inr ((Duplicate, current), d)
       | Stale \<Rightarrow> Inr ((Stale, current), d)
       | Conflict \<Rightarrow>
           Inl (ConflictingOutcome (status_str (o_status current)) (status_str incoming))
       | Advance to \<Rightarrow>
           bindE (query (sql_update operation_update_ok operation_clash (\<lambda>r. op_id r = i)
                    (advanced_row to stage percent now) (t_operations d))) (\<lambda>ops.
           bindE (query (insert_progress (d\<lparr>t_operations := ops\<rparr>)
                    (progress_of p i to stage percent message now))) (\<lambda>d'.
           bindE (find_operation d' i) (\<lambda>again.
           bindE (ok_or NotFound again) (\<lambda>updated.
             Inr ((Advance to, updated), d'))))))))"

subsection \<open>Results and diagnostics\<close>

definition record_result ::
  "db \<Rightarrow> uuid \<Rightarrow> uuid \<Rightarrow> result_ref \<Rightarrow> instant \<Rightarrow> operation_error + db" where
  "record_result d k i res now =
     query (if \<not> operation_exists d i then Inl Foreign_key_violation
            else bindE (sql_insert result_ok result_clash
                   \<lparr>rs_id = k, rs_operation = i, rs_kind = rr_kind res, rs_target = rr_target res,
                    rs_payload = rr_value res, rs_recorded_at = now\<rparr> (t_results d))
                   (\<lambda>t. Inr (d\<lparr>t_results := t\<rparr>)))"

definition insert_diagnostic ::
  "db \<Rightarrow> uuid \<Rightarrow> uuid \<Rightarrow> string \<Rightarrow> json \<Rightarrow> instant \<Rightarrow> operation_error + db" where
  "insert_diagnostic d k i severity payload now =
     query (if \<not> operation_exists d i then Inl Foreign_key_violation
            else bindE (sql_insert error_ok error_clash
                   \<lparr>er_id = k, er_operation = i, er_severity = severity,
                    er_code = json_text ''code'' payload,
                    er_message = json_text ''message'' payload,
                    er_retryable = (case json_bool ''retryable'' payload of Some b \<Rightarrow> b | None \<Rightarrow> False),
                    er_payload = payload, er_recorded_at = now\<rparr> (t_errors d))
                   (\<lambda>t. Inr (d\<lparr>t_errors := t\<rparr>)))"

definition record_error ::
  "db \<Rightarrow> uuid \<Rightarrow> uuid \<Rightarrow> error_envelope \<Rightarrow> instant \<Rightarrow> operation_error + db" where
  "record_error d k i err now =
     bindE (query (sql_update (\<lambda>_. operation_ok) operation_clash (\<lambda>r. op_id r = i)
              (\<lambda>r. r\<lparr>op_retryable := ee_retryable err\<rparr>) (t_operations d)))
       (\<lambda>ops. insert_diagnostic (d\<lparr>t_operations := ops\<rparr>) k i ''error'' (ee_value err) now)"

definition record_warning ::
  "db \<Rightarrow> uuid \<Rightarrow> uuid \<Rightarrow> warning_envelope \<Rightarrow> instant \<Rightarrow> operation_error + db" where
  "record_warning d k i w now = insert_diagnostic d k i ''warning'' (we_value w) now"

subsection \<open>Reading rows back\<close>

lemma operation_from_row_ok:
  "operation_ok r \<Longrightarrow> \<exists>st. st \<noteq> OtherStatus \<and> op_status r = status_str st"
  by (simp add: operation_ok_def known_status_iff)

lemma operation_from_row_Inr:
  "operation_from_row r = Inr op \<Longrightarrow>
     op_status r = status_str (o_status op) \<and> o_status op \<noteq> OtherStatus \<and> o_id op = op_id r
     \<and> o_owner op = op_owner r \<and> o_kind op = op_kind r \<and> o_reporter op = op_reporter r
     \<and> o_accepted_at op = op_accepted_at r \<and> o_cancel_requested_at op = op_cancel_requested_at r
     \<and> o_terminated_at op = op_terminated_at r \<and> o_status_changed_at op = op_status_changed_at r
     \<and> o_retryable op = op_retryable r"
  by (auto simp: operation_from_row_def status_from_str_Some split: option.splits)

lemma operation_from_row_total:
  assumes "operation_ok r"
  obtains op where "operation_from_row r = Inr op"
  using operation_from_row_ok [OF assms]
  by (auto simp: operation_from_row_def status_roundtrip)

lemma find_operation_Some:
  "find_operation d i = Inr (Some op) \<longleftrightarrow>
     (\<exists>r. fetch_optional (\<lambda>r. op_id r = i) (t_operations d) = Some r \<and> operation_from_row r = Inr op)"
  by (auto simp: find_operation_def split: option.splits)

lemma find_operation_None:
  "find_operation d i = Inr None \<longleftrightarrow> fetch_optional (\<lambda>r. op_id r = i) (t_operations d) = None"
  by (auto simp: find_operation_def split: option.splits)

lemma find_operation_total: "db_ok d \<Longrightarrow> \<exists>x. find_operation d i = Inr x"
proof (cases "fetch_optional (\<lambda>r. op_id r = i) (t_operations d)")
  case (Some r)
  assume "db_ok d"
  then have "table_ok operation_ok operation_clash (t_operations d)" by (rule db_okD)
  moreover have "r \<in> set (t_operations d)" using Some by (auto dest: fetch_optional_SomeD)
  ultimately have "operation_ok r" by (rule ops_table.row_ok)
  then show ?thesis using Some by (auto simp: find_operation_def elim: operation_from_row_total)
qed (auto simp: find_operation_def)

text \<open>The lifecycle status the database holds for an operation: the abstract state of this part.\<close>

definition lifecycle :: "db \<Rightarrow> uuid \<Rightarrow> operation_status option" where
  "lifecycle d i =
     Option.bind (fetch_optional (\<lambda>r. op_id r = i) (t_operations d)) (\<lambda>r. status_from_str (op_status r))"

lemma lifecycle_find: "find_operation d i = Inr (Some op) \<Longrightarrow> lifecycle d i = Some (o_status op)"
  by (auto simp: find_operation_Some lifecycle_def status_from_str_Some
      dest!: operation_from_row_Inr)

lemma lifecycle_known: "lifecycle d i = Some st \<Longrightarrow> st \<noteq> OtherStatus"
  by (auto simp: lifecycle_def status_from_str_Some split: bind_splits)

lemma find_lifecycle:
  "lifecycle d i = Some st \<Longrightarrow> \<exists>op. find_operation d i = Inr (Some op) \<and> o_status op = st"
  by (auto simp: lifecycle_def find_operation_Some operation_from_row_def split: bind_splits)

lemma lifecycle_cong: "t_operations d' = t_operations d \<Longrightarrow> lifecycle d' i = lifecycle d i"
  by (simp add: lifecycle_def)

subsection \<open>accept\<close>

lemma accept_Inr:
  "accept d i owner kind correlation key reporter now = Inr (op, d') \<longleftrightarrow>
     (case reporter of Some p \<Rightarrow> allows kind p | None \<Rightarrow> True)
     \<and> operation_ok (accepted_row i owner kind correlation key reporter now)
     \<and> (\<forall>x \<in> set (t_operations d). \<not> operation_clash x (accepted_row i owner kind correlation key reporter now))
     \<and> op = \<lparr>o_id = i, o_owner = owner, o_kind = kind, o_status = Accepted, o_stage = None,
             o_percent = None, o_correlation = correlation, o_reporter = reporter,
             o_retryable = False, o_cancel_requested_at = None, o_accepted_at = now,
             o_status_changed_at = now, o_terminated_at = None\<rparr>
     \<and> d' = d\<lparr>t_operations := t_operations d @ [accepted_row i owner kind correlation key reporter now]\<rparr>"
  by (auto simp: accept_def sql_insert_Inr split: option.splits if_splits)

lemma accept_ok: "accept d i owner kind correlation key reporter now = Inr (op, d') \<Longrightarrow> db_ok d \<Longrightarrow> db_ok d'"
  by (auto simp: accept_Inr sql_insert_Inr intro!: db_ok_update
      intro: ops_table.insert_ok [of _ "t_operations d"] db_okD)

lemma accept_fetch:
  assumes "accept d i owner kind correlation key reporter now = Inr (op, d')"
  shows "fetch_optional (\<lambda>r. op_id r = j) (t_operations d') =
     (if j = i then Some (accepted_row i owner kind correlation key reporter now)
      else fetch_optional (\<lambda>r. op_id r = j) (t_operations d))"
proof -
  have "\<forall>x \<in> set (t_operations d). op_id x \<noteq> i"
    using assms by (auto simp: accept_Inr operation_clash_def accepted_row_def)
  then have "fetch_optional (\<lambda>r. op_id r = i) (t_operations d) = None"
    by (simp add: fetch_optional_None)
  then show ?thesis using assms
    by (auto simp: accept_Inr fetch_optional_append accepted_row_def split: option.splits)
qed

lemma accept_lifecycle:
  assumes "accept d i owner kind correlation key reporter now = Inr (op, d')"
  shows "lifecycle d' j = (if j = i then Some Accepted else lifecycle d j)"
  by (simp add: lifecycle_def accept_fetch [OF assms]) (simp add: accepted_row_def status_from_str_def)

lemma accept_find:
  assumes "accept d i owner kind correlation key reporter now = Inr (op, d')"
  shows "find_operation d' i = Inr (Some op)"
  using assms accept_fetch [OF assms, of i]
  by (simp add: find_operation_def accept_Inr operation_from_row_def accepted_row_def
      status_from_str_def)

subsection \<open>record_status\<close>

text \<open>The database after an advance that was accepted.\<close>

definition advanced_db ::
  "db \<Rightarrow> uuid \<Rightarrow> uuid \<Rightarrow> operation_status \<Rightarrow> string option \<Rightarrow> 8 word option \<Rightarrow> string option \<Rightarrow> instant
     \<Rightarrow> db" where
  "advanced_db d p i to stage percent message now =
     d\<lparr>t_operations := update_where (\<lambda>r. op_id r = i) (advanced_row to stage percent now) (t_operations d),
       t_progress := t_progress d @ [progress_of p i to stage percent message now]\<rparr>"

lemma advanced_row_simps [simp]:
  "op_id (advanced_row to stage percent now r) = op_id r"
  "op_owner (advanced_row to stage percent now r) = op_owner r"
  "op_kind (advanced_row to stage percent now r) = op_kind r"
  "op_idempotency (advanced_row to stage percent now r) = op_idempotency r"
  "op_reporter (advanced_row to stage percent now r) = op_reporter r"
  "op_status (advanced_row to stage percent now r) = status_str to"
  "op_status_changed_at (advanced_row to stage percent now r) = now"
  "op_terminated_at (advanced_row to stage percent now r) = (if is_terminal to then Some now else None)"
  "op_accepted_at (advanced_row to stage percent now r) = op_accepted_at r"
  "op_correlation (advanced_row to stage percent now r) = op_correlation r"
  "op_cancel_requested_at (advanced_row to stage percent now r) = op_cancel_requested_at r"
  by (simp_all add: advanced_row_def)

lemma advanced_row_clash [simp]:
  "operation_clash (advanced_row to stage percent now x) y = operation_clash x y"
  by (simp add: operation_clash_def)

lemma record_status_Inr:
  assumes "record_status d p i incoming stage percent message now = Inr ((tr, op), d')"
  shows "\<exists>cur. find_operation d i = Inr (Some cur) \<and> tr = transition_apply (o_status cur) incoming
    \<and> ((tr = Duplicate \<or> tr = Stale) \<and> op = cur \<and> d' = d
       \<or> tr = Advance incoming \<and> find_operation d' i = Inr (Some op)
         \<and> sql_update operation_update_ok operation_clash (\<lambda>r. op_id r = i)
             (advanced_row incoming stage percent now) (t_operations d) = Inr (t_operations d')
         \<and> sql_insert progress_ok progress_clash
             (progress_of p i incoming stage percent message now) (t_progress d) = Inr (t_progress d')
         \<and> d' = advanced_db d p i incoming stage percent message now)"
proof -
  from assms obtain cur where cur: "find_operation d i = Inr (Some cur)"
    by (auto simp: record_status_def)
  from assms have "\<exists>r. fetch_optional (\<lambda>r. op_id r = i) (t_operations d) = Some r"
    by (auto simp: record_status_def)
  then obtain r where "fetch_optional (\<lambda>r. op_id r = i) (t_operations d) = Some r" by blast
  note assms' = assms [unfolded record_status_def this cur ok_or_simps bindE_simps]
  show ?thesis
  proof (cases "transition_apply (o_status cur) incoming")
    case Duplicate
    from assms' [unfolded Duplicate] have "tr = Duplicate \<and> op = cur \<and> d' = d" by auto
    with cur Duplicate show ?thesis by metis
  next
    case Stale
    from assms' [unfolded Stale] have "tr = Stale \<and> op = cur \<and> d' = d" by auto
    with cur Stale show ?thesis by metis
  next
    case Conflict
    from assms' [unfolded Conflict] show ?thesis by auto
  next
    case (Advance to)
    then have to: "to = incoming" by (simp add: transition_apply_def split: if_splits)
    from assms' [unfolded Advance]
    have "tr = Advance incoming \<and> find_operation d' i = Inr (Some op)
         \<and> sql_update operation_update_ok operation_clash (\<lambda>r. op_id r = i)
             (advanced_row incoming stage percent now) (t_operations d) = Inr (t_operations d')
         \<and> sql_insert progress_ok progress_clash
             (progress_of p i incoming stage percent message now) (t_progress d) = Inr (t_progress d')
         \<and> d' = advanced_db d p i incoming stage percent message now"
      by (auto simp: to insert_progress_def advanced_db_def sql_update_Inr sql_insert_Inr
          split: if_splits)
    with cur Advance to show ?thesis by metis
  qed
qed

lemma record_status_ok:
  assumes "record_status d p i incoming stage percent message now = Inr ((tr, op), d')" and "db_ok d"
  shows "db_ok d'"
proof -
  from record_status_Inr [OF assms(1)] consider "d' = d"
    | "sql_update operation_update_ok operation_clash (\<lambda>r. op_id r = i)
             (advanced_row incoming stage percent now) (t_operations d) = Inr (t_operations d')"
      "sql_insert progress_ok progress_clash
             (progress_of p i incoming stage percent message now) (t_progress d) = Inr (t_progress d')"
      "d' = advanced_db d p i incoming stage percent message now"
    by auto
  then show ?thesis
  proof cases
    case 1
    with assms(2) show ?thesis by simp
  next
    case 2
    have "table_ok operation_ok operation_clash (t_operations d')"
      using ops_table.update_ok [OF 2(1) db_okD(1) [OF assms(2)]] by (simp add: operation_update_ok_def)
    moreover have "table_ok progress_ok progress_clash (t_progress d')"
      using progress_table.insert_ok [OF 2(2) db_okD(3) [OF assms(2)]] .
    moreover have "d' = d\<lparr>t_operations := t_operations d', t_progress := t_progress d'\<rparr>"
      by (simp add: 2(3) advanced_db_def)
    ultimately show ?thesis using assms(2) by (metis db_ok_update(1,3))
  qed
qed

lemma advanced_db_fetch:
  "fetch_optional (\<lambda>r. op_id r = j) (t_operations (advanced_db d p i to stage percent message now)) =
     map_option (\<lambda>r. if op_id r = i then advanced_row to stage percent now r else r)
       (fetch_optional (\<lambda>r. op_id r = j) (t_operations d))"
  by (simp add: advanced_db_def fetch_update_where)

lemma advanced_db_lifecycle:
  assumes "lifecycle d i = Some st" and "to \<noteq> OtherStatus"
  shows "lifecycle (advanced_db d p i to stage percent message now) j
    = (if j = i then Some to else lifecycle d j)"
proof (cases "j = i")
  case True
  from assms(1) obtain r where r: "fetch_optional (\<lambda>r. op_id r = i) (t_operations d) = Some r"
    by (auto simp: lifecycle_def bind_eq_Some_conv)
  then have "op_id r = i" by (auto dest: fetch_optional_SomeD)
  with True r assms(2) show ?thesis
    by (simp add: lifecycle_def advanced_db_fetch status_roundtrip)
next
  case False
  then show ?thesis
    by (cases "fetch_optional (\<lambda>r. op_id r = j) (t_operations d)")
      (auto simp: lifecycle_def advanced_db_fetch dest: fetch_optional_SomeD)
qed

text \<open>A status no row may hold is never written: the check refuses the token \<^verbatim>\<open>unknown\<close>.\<close>

lemma record_status_known:
  assumes "record_status d p i incoming stage percent message now = Inr ((Advance to, op), d')"
  shows "to = incoming \<and> incoming \<noteq> OtherStatus"
proof -
  from record_status_Inr [OF assms] obtain r where "r \<in> set (t_operations d)" "op_id r = i"
    "operation_update_ok r (advanced_row incoming stage percent now r)" "to = incoming"
    by (auto simp: sql_update_Inr find_operation_Some dest!: fetch_optional_SomeD)
  then show ?thesis
    using other_not_known by (auto simp: operation_update_ok_def operation_ok_def)
qed

text \<open>The status part of \<open>record_status\<close>, as the other components use it.\<close>

lemma record_status_lifecycle:
  assumes "record_status d p i incoming stage percent message now = Inr ((tr, op), d')"
  obtains cur where "lifecycle d i = Some cur"
    and "\<And>j. lifecycle d' j = (if j = i then Some (absorb incoming cur) else lifecycle d j)"
proof -
  from record_status_Inr [OF assms] obtain cur where
    cur: "find_operation d i = Inr (Some cur)" "tr = transition_apply (o_status cur) incoming"
    and disj: "(tr = Duplicate \<or> tr = Stale) \<and> op = cur \<and> d' = d
      \<or> tr = Advance incoming \<and> find_operation d' i = Inr (Some op)
        \<and> d' = advanced_db d p i incoming stage percent message now" by blast
  note st = lifecycle_find [OF cur(1)]
  have "lifecycle d' j = (if j = i then Some (absorb incoming (o_status cur)) else lifecycle d j)" for j
    using disj
  proof
    assume "(tr = Duplicate \<or> tr = Stale) \<and> op = cur \<and> d' = d"
    then show ?thesis using st cur(2) by (auto simp: absorb_eq)
  next
    assume adv: "tr = Advance incoming \<and> find_operation d' i = Inr (Some op)
        \<and> d' = advanced_db d p i incoming stage percent message now"
    then have "incoming \<noteq> OtherStatus" using record_status_known assms by blast
    with adv st cur(2) show ?thesis
      using advanced_db_lifecycle [OF st] by (auto simp: absorb_eq)
  qed
  with st show ?thesis by (rule that)
qed

text \<open>
  C24: recording a status refines \<open>absorb\<close>, the pure rule: when it answers at all, the stored status
  of the operation is what absorbing the report gives, and no other operation's status moves.
\<close>

theorem record_status_refines_absorb:
  assumes "record_status d p i incoming stage percent message now = Inr ((tr, op), d')"
  shows "\<exists>cur. lifecycle d i = Some cur \<and> lifecycle d' i = Some (absorb incoming cur)
    \<and> o_status op = absorb incoming cur \<and> (\<forall>j. j \<noteq> i \<longrightarrow> lifecycle d' j = lifecycle d j)"
proof -
  have "lifecycle d' i = Some (o_status op)"
    using record_status_Inr [OF assms] lifecycle_find by blast
  then show ?thesis
    by (rule_tac record_status_lifecycle [OF assms]) simp
qed

definition demo_db :: "string \<Rightarrow> db" where
  "demo_db st = empty_db\<lparr>t_operations := [sample_row st]\<rparr>"

theorem record_status_refines_absorb_witness:
  "case record_status (demo_db ''accepted'') 7 1 Running None (Some 5) None 20 of
     Inr (_, d') \<Rightarrow> lifecycle d' 1 = Some (absorb Running Accepted) | Inl _ \<Rightarrow> False"
proof -
  have "\<not> isl (record_status (demo_db ''accepted'') 7 1 Running None (Some 5) None 20)"
    by code_simp
  then obtain tr op d' where run: "record_status (demo_db ''accepted'') 7 1 Running None (Some 5) None 20
      = Inr ((tr, op), d')"
    by (cases "record_status (demo_db ''accepted'') 7 1 Running None (Some 5) None 20") auto
  have start: "lifecycle (demo_db ''accepted'') 1 = Some Accepted" by code_simp
  from record_status_refines_absorb [OF run] start run show ?thesis by auto
qed

lemma insert_progress_succeeds:
  assumes "operation_exists d (pr_operation r)" and "progress_ok r"
    and "\<And>x. x \<in> set (t_progress d) \<Longrightarrow> pr_id x \<noteq> pr_id r"
  shows "insert_progress d r = Inr (d\<lparr>t_progress := t_progress d @ [r]\<rparr>)"
proof -
  have "sql_insert progress_ok progress_clash r (t_progress d) = Inr (t_progress d @ [r])"
    using assms(2,3) by (simp add: sql_insert_Inr progress_clash_def)
  with assms(1) show ?thesis by (simp add: insert_progress_def)
qed

lemma operation_exists_update:
  assumes "\<And>r. op_id (f r) = op_id r"
  shows "operation_exists (d\<lparr>t_operations := update_where q f (t_operations d)\<rparr>) i = operation_exists d i"
proof -
  have "list_ex (\<lambda>r. op_id r = i) (update_where q f t) = list_ex (\<lambda>r. op_id r = i) t" for t
    by (induction t) (simp_all add: assms)
  then show ?thesis by (simp add: operation_exists_def row_exists_def)
qed

lemma advanced_row_ok:
  assumes "operation_ok r" and "op_status r = status_str cur" and "rank cur < rank to"
    and "to \<noteq> OtherStatus" and "cur \<noteq> OtherStatus" and "op_status_changed_at r \<le> now"
    and "opt_ok (bounded 1 60) stage" and "opt_ok (\<lambda>n. n \<le> 100) percent"
  shows "operation_update_ok r (advanced_row to stage percent now r)"
proof -
  have "known_status (status_str to)" using assms(4) known_status_iff by blast
  moreover have "opt_ok percentage (coalesce (map_option uint percent) (op_percent r))"
    using assms(1,8) by (cases percent)
      (auto simp: operation_ok_def coalesce_def percentage_def opt_ok_def word_le_def)
  moreover have "opt_ok (bounded 1 60) (coalesce stage (op_stage r))"
    using assms(1,7) by (cases stage) (auto simp: operation_ok_def coalesce_def opt_ok_def)
  moreover have "op_accepted_at r \<le> now" using assms(1,6) by (auto simp: operation_ok_def)
  moreover have "guard_status_transition r (advanced_row to stage percent now r)"
    using assms(2-6) rank_known [of to]
    by (auto simp: guard_status_transition_def status_str_inj is_terminal_def terminal_rank_def)
  ultimately show ?thesis using assms(1)
    by (auto simp: operation_update_ok_def operation_ok_def advanced_row_def opt_ok_def)
qed

text \<open>
  On a well-formed database a well-formed report about a known operation is always answered,
  and its only refusal is a second, different terminal outcome.
\<close>

lemma record_status_answers:
  assumes "db_ok d" and "row \<in> set (t_operations d)" and "op_id row = i"
    and "op_status_changed_at row \<le> now" and "incoming \<noteq> OtherStatus"
    and "opt_ok (bounded 1 60) stage" and "opt_ok (\<lambda>n. n \<le> 100) percent" and "opt_ok safe_line message"
    and "\<And>x. x \<in> set (t_progress d) \<Longrightarrow> pr_id x \<noteq> p"
  shows "\<exists>cur. lifecycle d i = Some cur \<and>
    (case transition_apply cur incoming of
       Conflict \<Rightarrow> record_status d p i incoming stage percent message now
         = Inl (ConflictingOutcome (status_str cur) (status_str incoming))
     | tr \<Rightarrow> \<exists>op d'. record_status d p i incoming stage percent message now = Inr ((tr, op), d'))"
proof -
  note ops = db_okD(1) [OF assms(1)]
  have fetch: "fetch_optional (\<lambda>r. op_id r = i) (t_operations d) = Some row"
    using ops_table.fetch_key [OF ops] assms(2,3) by blast
  have ok: "operation_ok row" using ops_table.row_ok [OF ops assms(2)] .
  then obtain op where op: "operation_from_row row = Inr op" by (rule operation_from_row_total)
  note rowd = operation_from_row_Inr [OF op]
  have find: "find_operation d i = Inr (Some op)" using fetch op find_operation_Some by blast
  have life: "lifecycle d i = Some (o_status op)" by (rule lifecycle_find [OF find])
  note unfold = record_status_def fetch find
  show ?thesis
  proof (cases "transition_apply (o_status op) incoming")
    case (Advance to)
    then have to: "to = incoming" "rank (o_status op) < rank incoming" by simp_all
    have upd: "sql_update operation_update_ok operation_clash (\<lambda>r. op_id r = i)
        (advanced_row incoming stage percent now) (t_operations d)
      = Inr (t_operations (advanced_db d p i incoming stage percent message now))"
      unfolding advanced_db_def
      using ops_table.update_succeeds [OF ops, of "advanced_row incoming stage percent now"
          "\<lambda>r. op_id r = i" operation_update_ok] ops_table.same_key [OF ops]
        advanced_row_ok [OF ok] assms(2-7) rowd to(2)
      by (metis (no_types, lifting) advanced_row_clash db.select_convs(1) db.surjective db.update_convs(1,3))
    have prog: "progress_ok (progress_of p i incoming stage percent message now)"
      using assms(5-8) known_status_iff
      by (cases percent) (auto simp: progress_ok_def progress_of_def percentage_def opt_ok_def word_le_def)
    have ins: "insert_progress (d\<lparr>t_operations := t_operations (advanced_db d p i incoming stage percent message now)\<rparr>)
        (progress_of p i incoming stage percent message now)
      = Inr (advanced_db d p i incoming stage percent message now)"
    proof -
      have "operation_exists d i" using assms(2,3) by (auto simp: operation_exists_iff)
      then show ?thesis
        using insert_progress_succeeds [OF _ prog, of "d\<lparr>t_operations :=
            update_where (\<lambda>r. op_id r = i) (advanced_row incoming stage percent now) (t_operations d)\<rparr>"]
          assms(9)
        by (simp add: operation_exists_update progress_of_def advanced_db_def)
    qed
    obtain op' where "find_operation (advanced_db d p i incoming stage percent message now) i = Inr (Some op')"
      using find_lifecycle advanced_db_lifecycle [OF life assms(5)] by metis
    then have "record_status d p i incoming stage percent message now
      = Inr ((Advance incoming, op'), advanced_db d p i incoming stage percent message now)"
      unfolding record_status_def fetch find ok_or_simps bindE_simps Advance to(1)
        transition.case upd query_simps ins by simp
    with life show ?thesis by (intro exI [of _ "o_status op"]) (simp only: Advance to transition.case, blast)
  next
    case Duplicate
    then have "record_status d p i incoming stage percent message now = Inr ((Duplicate, op), d)"
      unfolding record_status_def fetch find ok_or_simps bindE_simps Duplicate transition.case by simp
    with life show ?thesis by (intro exI [of _ "o_status op"]) (simp only: Duplicate transition.case, blast)
  next
    case Stale
    then have "record_status d p i incoming stage percent message now = Inr ((Stale, op), d)"
      unfolding record_status_def fetch find ok_or_simps bindE_simps Stale transition.case by simp
    with life show ?thesis by (intro exI [of _ "o_status op"]) (simp only: Stale transition.case, blast)
  next
    case Conflict
    then have "record_status d p i incoming stage percent message now
      = Inl (ConflictingOutcome (status_str (o_status op)) (status_str incoming))"
      unfolding record_status_def fetch find ok_or_simps bindE_simps Conflict transition.case by simp
    with life show ?thesis by (intro exI [of _ "o_status op"]) (simp only: Conflict transition.case)
  qed
qed

definition done_row :: operation_row where
  "done_row = sample_row ''succeeded''\<lparr>op_terminated_at := Some 10\<rparr>"

definition done_db :: db where
  "done_db = empty_db\<lparr>t_operations := [done_row]\<rparr>"

subsection \<open>record_result, record_error, record_warning\<close>

lemma record_result_Inr:
  "record_result d k i res now = Inr d' \<longleftrightarrow>
     operation_exists d i
     \<and> (\<exists>t. sql_insert result_ok result_clash
           \<lparr>rs_id = k, rs_operation = i, rs_kind = rr_kind res, rs_target = rr_target res,
            rs_payload = rr_value res, rs_recorded_at = now\<rparr> (t_results d) = Inr t
         \<and> d' = d\<lparr>t_results := t\<rparr>)"
  by (auto simp: record_result_def)

lemma record_result_ok: "record_result d k i res now = Inr d' \<Longrightarrow> db_ok d \<Longrightarrow> db_ok d'"
  by (auto simp: record_result_Inr dest: db_okD(4) intro: results_table.insert_ok)

lemma record_result_frame:
  assumes "record_result d k i res now = Inr d'"
  shows "t_operations d' = t_operations d" "t_inbox d' = t_inbox d"
  using assms by (auto simp: record_result_Inr)

lemma insert_diagnostic_ok: "insert_diagnostic d k i sev v now = Inr d' \<Longrightarrow> db_ok d \<Longrightarrow> db_ok d'"
  by (auto simp: insert_diagnostic_def dest: db_okD(5) intro: errors_table.insert_ok split: if_splits)

lemma insert_diagnostic_frame:
  assumes "insert_diagnostic d k i sev v now = Inr d'"
  shows "t_operations d' = t_operations d" "t_inbox d' = t_inbox d"
  using assms by (auto simp: insert_diagnostic_def split: if_splits)

lemma retryable_clash [simp]: "operation_clash (x\<lparr>op_retryable := b\<rparr>) y = operation_clash x y"
  by (simp add: operation_clash_def)

lemma record_error_Inr:
  assumes "record_error d k i err now = Inr d'"
  obtains ops where "sql_update (\<lambda>_. operation_ok) operation_clash (\<lambda>r. op_id r = i)
       (\<lambda>r. r\<lparr>op_retryable := ee_retryable err\<rparr>) (t_operations d) = Inr ops"
    and "insert_diagnostic (d\<lparr>t_operations := ops\<rparr>) k i ''error'' (ee_value err) now = Inr d'"
  using assms by (auto simp: record_error_def)

lemma record_error_ok: "record_error d k i err now = Inr d' \<Longrightarrow> db_ok d \<Longrightarrow> db_ok d'"
  by (erule record_error_Inr, erule insert_diagnostic_ok)
    (auto intro: ops_table.update_ok db_okD(1))

lemma record_error_lifecycle:
  assumes "record_error d k i err now = Inr d'"
  shows "lifecycle d' j = lifecycle d j"
  using assms
proof (rule record_error_Inr)
  fix ops
  assume ops: "sql_update (\<lambda>_. operation_ok) operation_clash (\<lambda>r. op_id r = i)
       (\<lambda>r. r\<lparr>op_retryable := ee_retryable err\<rparr>) (t_operations d) = Inr ops"
    and "insert_diagnostic (d\<lparr>t_operations := ops\<rparr>) k i ''error'' (ee_value err) now = Inr d'"
  then have "t_operations d' = ops" by (simp add: insert_diagnostic_frame)
  with ops show ?thesis
    by (cases "fetch_optional (\<lambda>r. op_id r = j) (t_operations d)")
      (auto simp: lifecycle_def sql_update_Inr fetch_update_where)
qed

lemma record_error_inbox: "record_error d k i err now = Inr d' \<Longrightarrow> t_inbox d' = t_inbox d"
  by (erule record_error_Inr) (simp add: insert_diagnostic_frame)

lemma record_warning_ok: "record_warning d k i w now = Inr d' \<Longrightarrow> db_ok d \<Longrightarrow> db_ok d'"
  by (simp add: record_warning_def insert_diagnostic_ok)

lemma record_warning_frame:
  assumes "record_warning d k i w now = Inr d'"
  shows "t_operations d' = t_operations d" "t_inbox d' = t_inbox d"
  using assms by (simp_all add: record_warning_def insert_diagnostic_frame)

lemma record_status_inbox:
  "record_status d p i incoming stage percent message now = Inr ((tr, op), d') \<Longrightarrow> t_inbox d' = t_inbox d"
  by (drule record_status_Inr) (auto simp: advanced_db_def)

end
