(* ===== verification/Subjects.thy ===== *)
theory Subjects
  imports Operations
begin

text \<open>
  \<^verbatim>\<open>crates/eventing/src/lib.rs\<close>: the errors of the crate, the class of a message, and the
  subject grammar as the Rust code checks it. \<open>subject_name\<close> (theory Grammar) is the same grammar as
  the check constraint of the database writes it; the theorem of this theory is that they agree.
\<close>

datatype eventing_error =
    InvalidSubject string string
  | Payload
  | Bus string
  | EPersistence persistence_error

definition stored :: "sql_error + 'a \<Rightarrow> eventing_error + 'a" where
  "stored = map_err (EPersistence \<circ> Query)"

lemma stored_simps [simp]:
  "stored (Inl e) = Inl (EPersistence (Query e))"
  "stored (Inr a) = Inr a"
  "stored m = Inr a \<longleftrightarrow> m = Inr a"
  by (simp_all add: stored_def)

datatype message_class = Command | Event

fun class_str :: "message_class \<Rightarrow> string" where
  "class_str Command = ''cmd''"
| "class_str Event = ''evt''"

datatype subject = Subject (subject_str: string)

definition is_token :: "string \<Rightarrow> bool" where
  "is_token segment =
     (case segment of
        [] \<Rightarrow> False
      | first # rest \<Rightarrow>
          if \<not> is_ascii_lowercase first \<or> 32 < length segment then False
          else list_all (\<lambda>b. is_ascii_lowercase b \<or> is_ascii_digit b \<or> b \<in> {CHR ''_'', CHR ''-''}) rest)"

definition max_subject_len :: nat where
  "max_subject_len = 160"

definition subject_new :: "message_class \<Rightarrow> string \<Rightarrow> eventing_error + subject" where
  "subject_new mclass type_name =
     (case rsplit_once ''.v'' type_name of
        None \<Rightarrow> Inl (InvalidSubject type_name ''a contract type name ends with .v<major>'')
      | Some (body, version) \<Rightarrow>
          if version = [] \<or> 3 < length version \<or> \<not> list_all is_ascii_digit version
             \<or> starts_with ''0'' version
          then Inl (InvalidSubject type_name ''the major version is 1..=999 with no leading zero'')
          else
            let segments = split_on (CHR ''.'') body in
            if \<not> (2 \<le> length segments \<and> length segments \<le> 4)
            then Inl (InvalidSubject type_name ''a contract type name has two to four segments before .v'')
            else if \<not> list_all is_token segments
            then Inl (InvalidSubject type_name ''every segment is ^[a-z][a-z0-9_-]{0,31}$'')
            else
              let subject = class_str mclass @ ''.'' @ type_name in
              if max_subject_len < length subject
              then Inl (InvalidSubject type_name ''the subject is longer than 160 characters'')
              else Inr (Subject subject))"

definition subject_parse :: "string \<Rightarrow> eventing_error + subject" where
  "subject_parse raw =
     (case split_once (CHR ''.'') raw of
        None \<Rightarrow> Inl (InvalidSubject raw ''a subject begins with cmd. or evt.'')
      | Some (mclass, rest) \<Rightarrow>
          if mclass = ''cmd'' then subject_new Command rest
          else if mclass = ''evt'' then subject_new Event rest
          else Inl (InvalidSubject raw ''a subject begins with cmd. or evt.''))"

definition subject_class :: "subject \<Rightarrow> message_class" where
  "subject_class s = (if starts_with ''cmd.'' (subject_str s) then Command else Event)"

subsection \<open>Splitting\<close>

lemma split_on_append: "split_on d (a @ d # b) = split_on d a @ split_on d b"
proof (induction a)
  case Nil
  show ?case by simp
next
  case (Cons c a)
  obtain w ws where "split_on d a = w # ws" using split_on_cons by blast
  with Cons show ?case by simp
qed

lemma split_join: "ws \<noteq> [] \<Longrightarrow> (\<And>w. w \<in> set ws \<Longrightarrow> d \<notin> set w) \<Longrightarrow> split_on d (join_with d ws) = ws"
  by (induction d ws rule: join_with.induct) (simp_all add: split_on_no_sep split_on_append_sep)

lemma join_with_append:
  "us \<noteq> [] \<Longrightarrow> vs \<noteq> [] \<Longrightarrow> join_with d (us @ vs) = join_with d us @ d # join_with d vs"
proof (induction d us rule: join_with.induct)
  case (2 d w)
  then show ?case by (cases vs) simp_all
qed simp_all

lemma length_join_with:
  assumes "\<And>w. w \<in> set ws \<Longrightarrow> length w \<le> n" and "ws \<noteq> []"
  shows "length (join_with d ws) < length ws * Suc n"
  using assms
proof (induction d ws rule: join_with.induct)
  case (3 d w v vs)
  then have "length (join_with d (v # vs)) < length (v # vs) * Suc n" "length w \<le> n" by auto
  then show ?case by simp
qed auto

lemma split_once_split_on:
  "split_once d s = Some (a, b) \<Longrightarrow> split_on d s = a # split_on d b"
  by (simp add: split_once_Some split_on_append_sep)

lemma rsplit_version_none: "CHR ''v'' \<notin> set s \<Longrightarrow> rsplit_once ''.v'' s = None"
proof (induction s)
  case Nil
  show ?case by simp
next
  case (Cons c s)
  then show ?case by (cases s) auto
qed

lemma rsplit_version:
  assumes "list_all is_ascii_digit version"
  shows "rsplit_once ''.v'' (body @ ''.v'' @ version) = Some (body, version)"
proof -
  have "CHR ''v'' \<notin> set version" using assms by (auto simp: list_all_iff char_classes)
  then have "rsplit_once ''.v'' version = None" by (rule rsplit_version_none)
  then have "rsplit_once ''.v'' (''.v'' @ version) = Some ([], version)" by simp
  then show ?thesis using rsplit_once_append by fastforce
qed

subsection \<open>The two grammars\<close>

lemma is_token_kebab: "is_token s = kebab_token s"
  by (auto simp: is_token_def kebab_token_def list_all_iff split: list.splits)

definition major_ok :: "string \<Rightarrow> bool" where
  "major_ok version \<longleftrightarrow> version \<noteq> [] \<and> length version \<le> 3 \<and> list_all is_ascii_digit version
     \<and> \<not> starts_with ''0'' version"

lemma major_ok_token: "major_ok version \<longleftrightarrow> version_token (CHR ''v'' # version)"
  by (cases version) (auto simp: major_ok_def version_token_def starts_with_def)

lemma subject_new_Inr:
  "subject_new mclass type_name = Inr s \<longleftrightarrow>
     (\<exists>body version. rsplit_once ''.v'' type_name = Some (body, version) \<and> major_ok version
        \<and> 2 \<le> length (split_on (CHR ''.'') body) \<and> length (split_on (CHR ''.'') body) \<le> 4
        \<and> list_all is_token (split_on (CHR ''.'') body)
        \<and> length (class_str mclass @ ''.'' @ type_name) \<le> max_subject_len
        \<and> s = Subject (class_str mclass @ ''.'' @ type_name))"
  by (auto simp: subject_new_def major_ok_def Let_def not_less split: option.splits if_splits)

lemma length_class_str [simp]: "length (class_str c) = 3"
  by (cases c) simp_all

text \<open>The longest subject the other rules let through has 140 characters.\<close>

lemma subject_length:
  assumes "major_ok version" and "list_all is_token (split_on (CHR ''.'') body)"
    and "length (split_on (CHR ''.'') body) \<le> 4"
  shows "length (class_str c @ ''.'' @ body @ ''.v'' @ version) \<le> 140"
proof -
  have "length w \<le> 32" if "w \<in> set (split_on (CHR ''.'') body)" for w
    using assms(2) that by (auto simp: list_all_iff is_token_kebab dest: kebab_token_props)
  then have "length (join_with (CHR ''.'') (split_on (CHR ''.'') body))
      < length (split_on (CHR ''.'') body) * Suc 32"
    by (rule length_join_with) simp_all
  then have "length body < length (split_on (CHR ''.'') body) * 33" by simp
  also have "\<dots> \<le> 4 * 33" using assms(3) by simp
  finally show ?thesis using assms(1) by (simp add: major_ok_def)
qed

lemma subject_new_grammar:
  "(\<exists>s. subject_new mclass type_name = Inr s) \<longleftrightarrow> subject_name (class_str mclass @ ''.'' @ type_name)"
    (is "?l \<longleftrightarrow> ?r")
proof -
  have dot: "CHR ''.'' \<notin> set (class_str mclass)" by (cases mclass) simp_all
  have cls: "class_str mclass = ''cmd'' \<or> class_str mclass = ''evt''" by (cases mclass) simp_all
  have split: "split_on (CHR ''.'') (class_str mclass @ ''.'' @ type_name)
      = class_str mclass # split_on (CHR ''.'') type_name"
    using split_on_append_sep [OF dot] by simp
  have head: "?r \<longleftrightarrow> (let ws = split_on (CHR ''.'') type_name in version_token (last ws)
      \<and> 2 \<le> length (butlast ws) \<and> length (butlast ws) \<le> 4 \<and> list_all kebab_token (butlast ws))"
    unfolding subject_name_def split using cls by (auto simp: Let_def)
  show ?thesis
  proof
    assume ?l
    then obtain body version where bv: "rsplit_once ''.v'' type_name = Some (body, version)"
      "major_ok version" "2 \<le> length (split_on (CHR ''.'') body)" "length (split_on (CHR ''.'') body) \<le> 4"
      "list_all is_token (split_on (CHR ''.'') body)"
      by (auto simp: subject_new_Inr)
    have "CHR ''.'' \<notin> set (CHR ''v'' # version)"
      using bv(2) major_ok_token version_token_props(2) by blast
    then have "split_on (CHR ''.'') type_name = split_on (CHR ''.'') body @ [CHR ''v'' # version]"
      using rsplit_once_Some [OF bv(1)] by (simp add: split_on_append split_on_no_sep)
    then show ?r unfolding head using bv
      by (simp add: Let_def major_ok_token is_token_kebab [abs_def] butlast_append)
  next
    assume r: ?r
    define ws where "ws = split_on (CHR ''.'') type_name"
    from r have w: "version_token (last ws)" "2 \<le> length (butlast ws)" "length (butlast ws) \<le> 4"
      "list_all kebab_token (butlast ws)"
      unfolding head by (simp_all add: Let_def ws_def)
    obtain version where v: "last ws = CHR ''v'' # version"
      using version_token_props(3) [OF w(1)] by blast
    have ne: "butlast ws \<noteq> []" using w(2) by (metis list.size(3) not_numeral_le_zero)
    define body where "body = join_with (CHR ''.'') (butlast ws)"
    have major: "major_ok version" using w(1) v by (simp add: major_ok_token)
    have "ws = butlast ws @ [last ws]" by (simp add: ws_def)
    then have "join_with (CHR ''.'') ws = body @ CHR ''.'' # last ws"
      using join_with_append [OF ne, of "[last ws]"] by (simp add: body_def)
    then have t: "type_name = body @ ''.v'' @ version" using v by (simp add: ws_def)
    have body: "split_on (CHR ''.'') body = butlast ws"
      unfolding body_def using ne w(4) by (intro split_join) (auto simp: list_all_iff dest: kebab_token_props)
    have "rsplit_once ''.v'' type_name = Some (body, version)"
      unfolding t using major by (intro rsplit_version) (simp add: major_ok_def)
    moreover have "list_all is_token (split_on (CHR ''.'') body)"
      using w(4) body by (simp add: is_token_kebab [abs_def])
    moreover have "length (class_str mclass @ ''.'' @ type_name) \<le> max_subject_len"
      using subject_length [OF major, of body mclass] calculation(2) w(3) body
      by (simp add: t max_subject_len_def)
    ultimately show ?l using major w body by (auto simp: subject_new_Inr)
  qed
qed

lemma subject_new_str: "subject_new c t = Inr s \<Longrightarrow> subject_str s = class_str c @ ''.'' @ t"
  by (auto simp: subject_new_Inr)

lemma subject_name_head:
  assumes "subject_name raw"
  obtains c rest where "raw = class_str c @ ''.'' @ rest" and "split_once (CHR ''.'') raw = Some (class_str c, rest)"
proof -
  obtain w ws where w: "split_on (CHR ''.'') raw = w # ws" using split_on_cons by blast
  with assms have ws: "w = ''cmd'' \<or> w = ''evt''" "ws \<noteq> []" by (auto simp: subject_name_def)
  then obtain c where c: "w = class_str c" using class_str.simps by metis
  obtain v vs where "ws = v # vs" using ws(2) by (cases ws) auto
  then have "raw = w @ CHR ''.'' # join_with (CHR ''.'') ws"
    using join_split [of "CHR ''.''" raw] w by simp
  moreover have "CHR ''.'' \<notin> set w" using ws(1) by auto
  ultimately have "split_once (CHR ''.'') raw = Some (w, join_with (CHR ''.'') ws)"
    by (auto simp: split_once_Some)
  with c show thesis by (intro that) (auto simp: split_once_Some)
qed

lemma subject_parse_Inr:
  "subject_parse raw = Inr s \<longleftrightarrow> subject_name raw \<and> s = Subject raw"
proof
  assume "subject_parse raw = Inr s"
  then obtain c rest where c: "split_once (CHR ''.'') raw = Some (class_str c, rest)"
    "subject_new c rest = Inr s"
    by (auto simp: subject_parse_def split: option.splits if_splits) (metis class_str.simps)+
  then have "raw = class_str c @ ''.'' @ rest" by (simp add: split_once_Some)
  with c(2) show "subject_name raw \<and> s = Subject raw"
    using subject_new_grammar [of c rest] subject_new_str [OF c(2)] by (cases s) auto
next
  assume s: "subject_name raw \<and> s = Subject raw"
  then obtain c rest where c: "raw = class_str c @ ''.'' @ rest"
    "split_once (CHR ''.'') raw = Some (class_str c, rest)" using subject_name_head by blast
  obtain s' where s': "subject_new c rest = Inr s'"
    using s c(1) subject_new_grammar by metis
  then have "s' = Subject raw" using subject_new_str [OF s'] c(1) by (cases s') simp
  with s s' c(2) show "subject_parse raw = Inr s"
    by (cases c) (simp_all add: subject_parse_def)
qed

text \<open>
  Parsing a subject accepts exactly the texts the database's own check accepts, and gives back
  the text it was given; the limit of 160 characters is never what refuses one.
\<close>

lemma subject_parse_is_check:
  "(case subject_parse raw of
      Inr s \<Rightarrow> subject_name raw \<and> subject_str s = raw
    | Inl e \<Rightarrow> \<not> subject_name raw
        \<and> e \<noteq> InvalidSubject t ''the subject is longer than 160 characters'')"
proof (cases "subject_parse raw")
  case (Inr s)
  with subject_parse_Inr [of raw s] show ?thesis by simp
next
  case (Inl e)
  then have "\<not> subject_name raw" using subject_parse_Inr [of raw "Subject raw"] by auto
  moreover have "e \<noteq> InvalidSubject t ''the subject is longer than 160 characters''"
  proof
    assume e: "e = InvalidSubject t ''the subject is longer than 160 characters''"
    with Inl obtain c rest where "subject_new c rest = Inl e"
      by (auto simp: subject_parse_def split: option.splits if_splits)
    with e obtain body version where "rsplit_once ''.v'' rest = Some (body, version)"
      and bv: "major_ok version" "list_all is_token (split_on (CHR ''.'') body)"
        "length (split_on (CHR ''.'') body) \<le> 4" "max_subject_len < length (class_str c @ ''.'' @ rest)"
      by (auto simp: subject_new_def major_ok_def Let_def not_less split: option.splits if_splits)
    then have "rest = body @ ''.v'' @ version" by (auto dest: rsplit_once_Some)
    with subject_length [OF bv(1-3), of c] bv(4) show False by (simp add: max_subject_len_def)
  qed
  ultimately show ?thesis using Inl by simp
qed

text \<open>A subject made for a class is of that class.\<close>

lemma subject_new_class: "subject_new c t = Inr s \<Longrightarrow> subject_class s = c"
  by (cases c) (auto simp: subject_new_Inr subject_class_def starts_with_def)

lemma subject_new_valid: "subject_new c t = Inr s \<Longrightarrow> subject_name (subject_str s)"
  using subject_new_grammar [of c t] subject_new_str [of c t s] by metis

end
