(* ===== verification/Delivery.thy ===== *)
theory Delivery
  imports Subjects
begin

text \<open>
  \<^verbatim>\<open>crates/eventing/src/inbox.rs\<close> and \<^verbatim>\<open>consumer.rs\<close>: the deduplicating inbox, the
  transaction that hands one message to a handler, and the loop of a durable consumer. The locale
  \<open>event_handler\<close> is the contract of the trait \<open>Handler\<close>; every handler of the program is an
  interpretation of it.
\<close>

subsection \<open>The inbox\<close>

datatype reception = First | Repeated

datatype outcome = Applied | DuplicateOutcome | StaleOutcome | Rejected

fun outcome_str :: "outcome \<Rightarrow> string" where
  "outcome_str Applied = ''applied''"
| "outcome_str DuplicateOutcome = ''duplicate''"
| "outcome_str StaleOutcome = ''stale''"
| "outcome_str Rejected = ''rejected''"

definition inbox_begin ::
  "db \<Rightarrow> uuid \<Rightarrow> subject \<Rightarrow> string \<Rightarrow> instant \<Rightarrow> eventing_error + reception \<times> db" where
  "inbox_begin d message_id subj producer now =
     bindE (stored (sql_insert_or_ignore inbox_ok inbox_clash inbox_clash
              \<lparr>ib_message = message_id, ib_subject = subject_str subj, ib_producer = producer,
               ib_received_at = now, ib_processed_at = None, ib_outcome = None\<rparr> (t_inbox d)))
       (\<lambda>(inserted, t). Inr (if inserted then First else Repeated, d\<lparr>t_inbox := t\<rparr>))"

definition finished_row :: "outcome \<Rightarrow> instant \<Rightarrow> inbox_row \<Rightarrow> inbox_row" where
  "finished_row out now r = r\<lparr>ib_processed_at := Some now, ib_outcome := Some (outcome_str out)\<rparr>"

definition inbox_finish :: "db \<Rightarrow> uuid \<Rightarrow> outcome \<Rightarrow> instant \<Rightarrow> eventing_error + db" where
  "inbox_finish d message_id out now =
     bindE (stored (sql_update (\<lambda>_. inbox_ok) inbox_clash (\<lambda>r. ib_message r = message_id)
              (finished_row out now) (t_inbox d)))
       (\<lambda>t. Inr (d\<lparr>t_inbox := t\<rparr>))"

definition inbox_collectable :: "instant \<Rightarrow> inbox_row \<Rightarrow> bool" where
  "inbox_collectable before r \<longleftrightarrow> (case ib_processed_at r of None \<Rightarrow> False | Some t \<Rightarrow> t < before)"

definition collect_processed ::
  "(inbox_row list \<Rightarrow> inbox_row list) \<Rightarrow> db \<Rightarrow> instant \<Rightarrow> nat \<Rightarrow> nat \<times> db" where
  "collect_processed scan d before limit =
     (let (n, t) = delete_limited scan ib_message (inbox_collectable before) limit (t_inbox d)
      in (n, d\<lparr>t_inbox := t\<rparr>))"

definition unprocessed :: "db \<Rightarrow> nat" where
  "unprocessed d = rows_affected (\<lambda>r. ib_processed_at r = None) (t_inbox d)"

subsection \<open>One delivery\<close>

record incoming =
  in_message_id :: uuid
  in_subject :: subject
  in_producer :: string
  in_payload :: json

type_synonym handler = "db \<Rightarrow> incoming \<Rightarrow> instant \<Rightarrow> eventing_error + outcome \<times> db"

text \<open>
  What one call of \<open>deliver\<close> does: what it returns, the database it leaves, and the call of the
  handler's \<open>settled\<close> hook, if it is called. \<open>commits\<close> says whether PostgreSQL accepts the commit.
\<close>

record delivery =
  dl_result :: "eventing_error + outcome option"
  dl_db :: db
  dl_settled :: "bool option"

definition deliver :: "bool \<Rightarrow> handler \<Rightarrow> db \<Rightarrow> incoming \<Rightarrow> instant \<Rightarrow> delivery" where
  "deliver commits handle d m now =
     (case inbox_begin d (in_message_id m) (in_subject m) (in_producer m) now of
        Inl e \<Rightarrow> \<lparr>dl_result = Inl e, dl_db = d, dl_settled = None\<rparr>
      | Inr (Repeated, _) \<Rightarrow> \<lparr>dl_result = Inr None, dl_db = d, dl_settled = None\<rparr>
      | Inr (First, d1) \<Rightarrow>
          (case bindE (handle d1 m now) (\<lambda>(out, d2).
                  bindE (inbox_finish d2 (in_message_id m) out now) (\<lambda>d3.
                    if commits then Inr (out, d3)
                    else Inl (EPersistence (Query Row_not_found)))) of
             Inl e \<Rightarrow> \<lparr>dl_result = Inl e, dl_db = d, dl_settled = Some False\<rparr>
           | Inr (out, d3) \<Rightarrow> \<lparr>dl_result = Inr (Some out), dl_db = d3, dl_settled = Some True\<rparr>))"

subsection \<open>The consumer loop\<close>

text \<open>
  A message of the broker: its subject, and its payload already read by \<open>serde_json\<close> (\<open>None\<close> when
  that fails). \<open>parse_uuid\<close> is \<open>str::parse::<Uuid>\<close> of the \<open>uuid\<close> crate.
\<close>

record raw_message =
  raw_subject :: string
  raw_payload :: "json option"

definition consumer_parse :: "(string \<Rightarrow> uuid option) \<Rightarrow> raw_message \<Rightarrow> incoming option" where
  "consumer_parse parse_uuid message =
     Option.bind (raw_payload message) (\<lambda>payload.
     Option.bind (case json_get ''event_id'' payload of
                    Some v \<Rightarrow> Some v
                  | None \<Rightarrow> json_get ''command_id'' payload) (\<lambda>v.
     Option.bind (as_str v) (\<lambda>raw.
     Option.bind (parse_uuid raw) (\<lambda>message_id.
       case subject_parse (raw_subject message) of
         Inl _ \<Rightarrow> None
       | Inr s \<Rightarrow> Some
           \<lparr>in_message_id = message_id, in_subject = s,
            in_producer = (case Option.bind (json_get ''producer'' payload) as_str of
                             Some p \<Rightarrow> p | None \<Rightarrow> ''unknown''),
            in_payload = payload\<rparr>))))"

datatype ack = Acked | Naked int

definition transient_failure_delay :: int where
  "transient_failure_delay = seconds 2"

record consumer_report =
  cr_applied :: nat
  cr_duplicates :: nat
  cr_failed :: nat
  cr_malformed :: nat

record consumer_state =
  cs_db :: db
  cs_report :: consumer_report
  cs_acks :: "(raw_message \<times> ack) list"

text \<open>
  One turn of the loop of \<open>run_filters\<close>. \<open>next\<close> is what the broker gave: an error, or a message
  with the instant it is handled at and whether PostgreSQL accepts the commit.
\<close>

definition count :: "(consumer_report \<Rightarrow> consumer_report) \<Rightarrow> consumer_state \<Rightarrow> consumer_state" where
  "count f s = s\<lparr>cs_report := f (cs_report s)\<rparr>"

definition acknowledge :: "raw_message \<Rightarrow> ack \<Rightarrow> consumer_state \<Rightarrow> consumer_state" where
  "acknowledge m a s = s\<lparr>cs_acks := cs_acks s @ [(m, a)]\<rparr>"

definition consume_one ::
  "(string \<Rightarrow> uuid option) \<Rightarrow> handler \<Rightarrow> string + raw_message \<times> instant \<times> bool \<Rightarrow> consumer_state
     \<Rightarrow> consumer_state" where
  "consume_one parse_uuid handle next s =
     (case next of
        Inl _ \<Rightarrow> count (\<lambda>r. r\<lparr>cr_malformed := cr_malformed r + 1\<rparr>) s
      | Inr (message, now, commits) \<Rightarrow>
          (case consumer_parse parse_uuid message of
             None \<Rightarrow> acknowledge message Acked (count (\<lambda>r. r\<lparr>cr_malformed := cr_malformed r + 1\<rparr>) s)
           | Some m \<Rightarrow>
               let dl = deliver commits handle (cs_db s) m now; s = s\<lparr>cs_db := dl_db dl\<rparr>
               in case dl_result dl of
                    Inr (Some _) \<Rightarrow>
                      acknowledge message Acked (count (\<lambda>r. r\<lparr>cr_applied := cr_applied r + 1\<rparr>) s)
                  | Inr None \<Rightarrow>
                      acknowledge message Acked (count (\<lambda>r. r\<lparr>cr_duplicates := cr_duplicates r + 1\<rparr>) s)
                  | Inl _ \<Rightarrow>
                      acknowledge message (Naked transient_failure_delay)
                        (count (\<lambda>r. r\<lparr>cr_failed := cr_failed r + 1\<rparr>) s)))"

definition consume ::
  "(string \<Rightarrow> uuid option) \<Rightarrow> handler \<Rightarrow> db \<Rightarrow> (string + raw_message \<times> instant \<times> bool) list
     \<Rightarrow> consumer_state" where
  "consume parse_uuid handle d ms =
     fold (consume_one parse_uuid handle) ms
       \<lparr>cs_db = d,
        cs_report = \<lparr>cr_applied = 0, cr_duplicates = 0, cr_failed = 0, cr_malformed = 0\<rparr>,
        cs_acks = []\<rparr>"

subsection \<open>Facts about the inbox\<close>

definition begun_row :: "uuid \<Rightarrow> subject \<Rightarrow> string \<Rightarrow> instant \<Rightarrow> inbox_row" where
  "begun_row i subj producer now =
     \<lparr>ib_message = i, ib_subject = subject_str subj, ib_producer = producer,
      ib_received_at = now, ib_processed_at = None, ib_outcome = None\<rparr>"

definition seen :: "db \<Rightarrow> uuid \<Rightarrow> bool" where
  "seen d i \<longleftrightarrow> i \<in> ib_message ` set (t_inbox d)"

lemma begun_row_ok: "inbox_ok (begun_row i subj producer now) \<longleftrightarrow>
    subject_name (subject_str subj) \<and> bounded 1 64 producer"
  by (simp add: inbox_ok_def begun_row_def)

lemma inbox_begin_First:
  "inbox_begin d i subj producer now = Inr (First, d') \<longleftrightarrow>
     inbox_ok (begun_row i subj producer now) \<and> \<not> seen d i
     \<and> d' = d\<lparr>t_inbox := t_inbox d @ [begun_row i subj producer now]\<rparr>"
  by (auto simp: inbox_begin_def sql_insert_or_ignore_Inr begun_row_def seen_def inbox_clash_def
      split: if_splits)

lemma inbox_begin_Repeated:
  "inbox_begin d i subj producer now = Inr (Repeated, d') \<longleftrightarrow>
     inbox_ok (begun_row i subj producer now) \<and> seen d i \<and> d' = d"
  by (auto simp: inbox_begin_def sql_insert_or_ignore_Inr begun_row_def seen_def inbox_clash_def
      split: if_splits)

lemma inbox_begin_Inl:
  "inbox_begin d i subj producer now = Inl e \<Longrightarrow> \<not> inbox_ok (begun_row i subj producer now)"
  by (auto simp: inbox_begin_def sql_insert_or_ignore_def begun_row_def bindE_eq_Inl stored_def
      split: if_splits)

lemma begun_db_ok:
  assumes "inbox_begin d i subj producer now = Inr (r, d')" and "db_ok d"
  shows "db_ok d'"
  using assms by (auto simp: inbox_begin_def intro: inbox_table.insert_or_ignore_ok db_okD(7))

lemma finished_row_key [simp]: "ib_message (finished_row out now r) = ib_message r"
  by (simp add: finished_row_def)

lemma finished_row_ok: "inbox_ok r \<Longrightarrow> inbox_ok (finished_row out now r)"
  by (cases out) (auto simp: inbox_ok_def finished_row_def)

lemma inbox_finish_Inr:
  assumes "db_ok d"
  shows "inbox_finish d i out now =
    Inr (d\<lparr>t_inbox := update_where (\<lambda>r. ib_message r = i) (finished_row out now) (t_inbox d)\<rparr>)"
proof -
  note ok = db_okD(7) [OF assms]
  have "sql_update (\<lambda>_. inbox_ok) inbox_clash (\<lambda>r. ib_message r = i) (finished_row out now) (t_inbox d)
    = Inr (update_where (\<lambda>r. ib_message r = i) (finished_row out now) (t_inbox d))"
    by (rule inbox_table.update_succeeds [OF ok])
      (auto simp: inbox_clash_def intro: finished_row_ok inbox_table.row_ok [OF ok])
  then show ?thesis by (simp add: inbox_finish_def)
qed

lemma inbox_finish_ok: "inbox_finish d i out now = Inr d' \<Longrightarrow> db_ok d \<Longrightarrow> db_ok d'"
  by (auto simp: inbox_finish_def intro: inbox_table.update_ok db_okD(7))

lemma collect_processed_ok: "collect_processed scan d before limit = (n, d') \<Longrightarrow> db_ok d \<Longrightarrow> db_ok d'"
  by (auto simp: collect_processed_def split: prod.splits
      intro!: db_ok_update intro: inbox_table.delete_limited_ok db_okD(7))

text \<open>
  The collection of the inbox is safe. It leaves every row that was not finished, or was
  finished at or after the cut-off, it deletes at most \<open>limit\<close> rows, and it reports how many it
  deleted, whichever rows the database meets first.
\<close>

lemma collect_processed_safe:
  assumes "db_ok d" and "scans scan (t_inbox d)"
    and "collect_processed scan d before limit = (n, d')"
  shows "n \<le> limit \<and> length (t_inbox d') + n = length (t_inbox d) \<and> d' = d\<lparr>t_inbox := t_inbox d'\<rparr>
    \<and> {r \<in> set (t_inbox d). \<not> inbox_collectable before r} \<subseteq> set (t_inbox d')"
proof -
  obtain t where t: "delete_limited scan ib_message (inbox_collectable before) limit (t_inbox d) = (n, t)"
    "d' = d\<lparr>t_inbox := t\<rparr>"
    using assms(3) by (auto simp: collect_processed_def split: prod.splits)
  note ok = db_okD(7) [OF assms(1)]
  show ?thesis
    using inbox_table.delete_limited_bound [OF ok t(1)] delete_limited_length [OF t(1)]
      inbox_table.delete_limited_keeps [OF ok assms(2) t(1)] t(2) by auto
qed

definition demo_inbox :: db where
  "demo_inbox = empty_db\<lparr>t_inbox :=
     [\<lparr>ib_message = 1, ib_subject = ''evt.a.b.v1'', ib_producer = ''p'', ib_received_at = 1,
       ib_processed_at = Some 2, ib_outcome = Some ''applied''\<rparr>,
      \<lparr>ib_message = 2, ib_subject = ''evt.a.b.v1'', ib_producer = ''p'', ib_received_at = 1,
       ib_processed_at = None, ib_outcome = None\<rparr>]\<rparr>"

text \<open>
  C37: a message whose producer is empty or longer than 64 characters is never consumed. The inbox
  refuses its row, so the loop answers it with a negative acknowledgement and a delay of two
  seconds, leaves the database as it was, and does so for every later delivery of it.
\<close>

theorem unbounded_producer_is_naked_forever:
  assumes "consumer_parse parse_uuid message = Some m" and "\<not> bounded 1 64 (in_producer m)"
  shows "fold (consume_one parse_uuid handle) (map (\<lambda>attempt. Inr (message, attempt)) attempts) s
    = s\<lparr>cs_report := (cs_report s)\<lparr>cr_failed := cr_failed (cs_report s) + length attempts\<rparr>,
        cs_acks := cs_acks s @ replicate (length attempts) (message, Naked transient_failure_delay)\<rparr>"
proof (induction attempts arbitrary: s)
  case Nil
  show ?case by simp
next
  case (Cons a attempts)
  have "\<not> inbox_ok (begun_row (in_message_id m) (in_subject m) (in_producer m) now)" for now
    using assms(2) by (simp add: begun_row_ok)
  then have "\<exists>e. deliver commits handle d m now = \<lparr>dl_result = Inl e, dl_db = d, dl_settled = None\<rparr>" for commits d now
    using inbox_begin_First inbox_begin_Repeated
    by (auto simp: deliver_def split: sum.split reception.split)
  then obtain e where "deliver (snd a) handle (cs_db s) m (fst a)
      = \<lparr>dl_result = Inl e, dl_db = cs_db s, dl_settled = None\<rparr>" by blast
  then have "consume_one parse_uuid handle (Inr (message, a)) s
    = s\<lparr>cs_report := (cs_report s)\<lparr>cr_failed := cr_failed (cs_report s) + 1\<rparr>,
        cs_acks := cs_acks s @ [(message, Naked transient_failure_delay)]\<rparr>"
    using assms(1) by (simp add: consume_one_def Let_def count_def acknowledge_def case_prod_unfold)
  then show ?case by (simp add: Cons)
qed

definition shouting_message :: raw_message where
  "shouting_message = \<lparr>raw_subject = ''evt.a.b.v1'', raw_payload = Some (JObject
     [(''event_id'', JString ''7''), (''producer'', JString [])])\<rparr>"

theorem unbounded_producer_is_naked_forever_witness:
  "cs_acks (consume (\<lambda>_. Some 7) (\<lambda>d m now. Inr (Applied, d)) empty_db
     [Inr (shouting_message, 1, True), Inr (shouting_message, 2, True)])
   = [(shouting_message, Naked transient_failure_delay), (shouting_message, Naked transient_failure_delay)]"
proof -
  have "map_option in_producer (consumer_parse (\<lambda>_. Some 7) shouting_message) = Some []" by code_simp
  then obtain m where m: "consumer_parse (\<lambda>_. Some 7) shouting_message = Some m" "in_producer m = []" by auto
  then have "\<not> bounded 1 64 (in_producer m)" by (simp add: bounded_def)
  from unbounded_producer_is_naked_forever [OF m(1) this, of "\<lambda>d m now. Inr (Applied, d)" "[(1, True), (2, True)]"]
  show ?thesis by (simp add: consume_def del: fold_simps)
qed

subsection \<open>What every handler gets from \<open>deliver\<close>\<close>

definition counted :: "consumer_report \<Rightarrow> nat" where
  "counted r = cr_applied r + cr_duplicates r + cr_failed r + cr_malformed r"

text \<open>
  The contract of \<open>Handler\<close>: a handler that succeeds keeps the schema and does not touch the inbox,
  which belongs to \<open>deliver\<close>.
\<close>

locale event_handler =
  fixes handle :: handler
  assumes keeps_db: "handle d m now = Inr (out, d') \<Longrightarrow> db_ok d \<Longrightarrow> db_ok d'"
    and keeps_inbox: "handle d m now = Inr (out, d') \<Longrightarrow> t_inbox d' = t_inbox d"
begin

lemma failed_delivery:
  "dl_result (deliver commits handle d m now) = Inl e \<Longrightarrow> dl_db (deliver commits handle d m now) = d"
  by (auto simp: deliver_def split: sum.splits prod.splits reception.splits)

lemma repeated_delivery:
  "dl_result (deliver commits handle d m now) = Inr None \<longleftrightarrow>
     seen d (in_message_id m) \<and> subject_name (subject_str (in_subject m)) \<and> bounded 1 64 (in_producer m)"
  "dl_result (deliver commits handle d m now) = Inr None \<Longrightarrow> dl_db (deliver commits handle d m now) = d"
  by (auto simp: deliver_def inbox_begin_First inbox_begin_Repeated begun_row_ok
      dest!: inbox_begin_Inl split: sum.splits prod.splits reception.splits)

lemma first_delivery:
  assumes "dl_result (deliver commits handle d m now) = Inr (Some out)"
  obtains d1 d2 where "inbox_begin d (in_message_id m) (in_subject m) (in_producer m) now = Inr (First, d1)"
    and "handle d1 m now = Inr (out, d2)"
    and "inbox_finish d2 (in_message_id m) out now = Inr (dl_db (deliver commits handle d m now))"
  using assms
  by (auto simp: deliver_def split: sum.splits prod.splits reception.splits if_splits)

lemma delivery_keeps_db:
  assumes "db_ok d"
  shows "db_ok (dl_db (deliver commits handle d m now))"
proof (cases "dl_result (deliver commits handle d m now)")
  case (Inl e)
  with assms show ?thesis by (simp add: failed_delivery)
next
  case (Inr out)
  show ?thesis
  proof (cases out)
    case None
    with assms Inr show ?thesis by (simp add: repeated_delivery(2))
  next
    case (Some out')
    with Inr have r: "dl_result (deliver commits handle d m now) = Inr (Some out')" by simp
    show ?thesis
      by (rule first_delivery [OF r]) (blast intro: begun_db_ok keeps_db inbox_finish_ok assms)
  qed
qed

text \<open>A delivery that was handled adds exactly one inbox row, and that row says it is finished.\<close>

lemma first_delivery_inbox:
  assumes "dl_result (deliver commits handle d m now) = Inr (Some out)" and "db_ok d"
  shows "\<not> seen d (in_message_id m)"
    and "t_inbox (dl_db (deliver commits handle d m now)) = t_inbox d
      @ [finished_row out now (begun_row (in_message_id m) (in_subject m) (in_producer m) now)]"
proof -
  obtain d1 d2 where d1: "inbox_begin d (in_message_id m) (in_subject m) (in_producer m) now = Inr (First, d1)"
    and d2: "handle d1 m now = Inr (out, d2)"
    and d3: "inbox_finish d2 (in_message_id m) out now = Inr (dl_db (deliver commits handle d m now))"
    using first_delivery [OF assms(1)] by blast
  from d1 show unseen: "\<not> seen d (in_message_id m)" by (simp add: inbox_begin_First)
  have "db_ok d2" using begun_db_ok [OF d1 assms(2)] keeps_db [OF d2] by blast
  then have "t_inbox (dl_db (deliver commits handle d m now))
      = update_where (\<lambda>r. ib_message r = in_message_id m) (finished_row out now) (t_inbox d2)"
    using d3 inbox_finish_Inr [of d2 "in_message_id m" out now] by (auto dest: arg_cong [where f = t_inbox])
  moreover have "t_inbox d2 = t_inbox d @ [begun_row (in_message_id m) (in_subject m) (in_producer m) now]"
    using keeps_inbox [OF d2] d1 by (simp add: inbox_begin_First)
  moreover have "update_where (\<lambda>r. ib_message r = in_message_id m) (finished_row out now) (t_inbox d) = t_inbox d"
    using unseen by (intro update_where_none) (auto simp: seen_def image_iff)
  ultimately show "t_inbox (dl_db (deliver commits handle d m now)) = t_inbox d
      @ [finished_row out now (begun_row (in_message_id m) (in_subject m) (in_producer m) now)]"
    by (simp add: begun_row_def)
qed

lemma seen_monotone: "seen d i \<Longrightarrow> db_ok d \<Longrightarrow> seen (dl_db (deliver commits handle d m now)) i"
  using first_delivery_inbox(2) [of commits d m now] failed_delivery [of commits d m now]
    repeated_delivery(2) [of commits d m now]
  by (cases "dl_result (deliver commits handle d m now)"; cases "projr (dl_result (deliver commits handle d m now))")
    (auto simp: seen_def)

text \<open>Once a delivery of a message was answered, every later delivery of it changes nothing.\<close>

lemma redelivery:
  assumes "dl_result (deliver commits handle d m now) = Inr r" and "db_ok d"
    and "\<And>i. seen (dl_db (deliver commits handle d m now)) i \<Longrightarrow> seen e i"
  shows "deliver commits' handle e m now' = \<lparr>dl_result = Inr None, dl_db = e, dl_settled = None\<rparr>"
proof -
  have ok: "subject_name (subject_str (in_subject m)) \<and> bounded 1 64 (in_producer m)"
  proof (cases r)
    case None
    with assms(1) show ?thesis using repeated_delivery(1) by auto
  next
    case (Some out)
    with assms(1) obtain d1 where
      "inbox_begin d (in_message_id m) (in_subject m) (in_producer m) now = Inr (First, d1)"
      using first_delivery by metis
    then show ?thesis by (simp add: inbox_begin_First begun_row_ok)
  qed
  have "seen (dl_db (deliver commits handle d m now)) (in_message_id m)"
  proof (cases r)
    case None
    with assms(1) show ?thesis using repeated_delivery by metis
  next
    case (Some out)
    with assms(1) first_delivery_inbox(2) [OF _ assms(2), of commits m now out] show ?thesis
      by (simp add: seen_def finished_row_def begun_row_def)
  qed
  then have "seen e (in_message_id m)" by (rule assms(3))
  with ok have "inbox_begin e (in_message_id m) (in_subject m) (in_producer m) now' = Inr (Repeated, e)"
    by (simp add: inbox_begin_Repeated begun_row_ok)
  then show ?thesis by (simp add: deliver_def)
qed

text \<open>
  The loop: each message is counted once, the counters tell the truth about the inbox, and every
  message received is acknowledged unless its delivery failed.
\<close>

lemma consume_one_step:
  assumes "db_ok (cs_db s)"
  shows "db_ok (cs_db (consume_one parse_uuid handle x s))"
    and "counted (cs_report (consume_one parse_uuid handle x s)) = Suc (counted (cs_report s))"
    and "length (t_inbox (cs_db (consume_one parse_uuid handle x s))) + cr_applied (cs_report s)
      = length (t_inbox (cs_db s)) + cr_applied (cs_report (consume_one parse_uuid handle x s))"
    and "seen (cs_db s) i \<Longrightarrow> seen (cs_db (consume_one parse_uuid handle x s)) i"
proof -
  note defs = consume_one_def count_def acknowledge_def counted_def Let_def
  have inbox: "length (t_inbox (dl_db (deliver c handle (cs_db s) m now)))
      = (case dl_result (deliver c handle (cs_db s) m now) of
           Inr (Some _) \<Rightarrow> Suc (length (t_inbox (cs_db s))) | _ \<Rightarrow> length (t_inbox (cs_db s)))" for c m now
    using first_delivery_inbox(2) [of c "cs_db s" m now] failed_delivery [of c "cs_db s" m now]
      repeated_delivery(2) [of c "cs_db s" m now] assms
    by (auto split: sum.split option.split)
  show "db_ok (cs_db (consume_one parse_uuid handle x s))"
    using assms delivery_keeps_db [OF assms] by (auto simp: defs split: sum.split prod.split option.split)
  show "counted (cs_report (consume_one parse_uuid handle x s)) = Suc (counted (cs_report s))"
    by (auto simp: defs split: sum.split prod.split option.split)
  show "length (t_inbox (cs_db (consume_one parse_uuid handle x s))) + cr_applied (cs_report s)
      = length (t_inbox (cs_db s)) + cr_applied (cs_report (consume_one parse_uuid handle x s))"
    by (auto simp: defs inbox split: sum.split prod.split option.split)
  show "seen (cs_db s) i \<Longrightarrow> seen (cs_db (consume_one parse_uuid handle x s)) i"
    using seen_monotone [OF _ assms] by (auto simp: defs split: sum.split prod.split option.split)
qed

lemma consume_fold:
  assumes "db_ok (cs_db s)"
  shows "db_ok (cs_db (fold (consume_one parse_uuid handle) ms s))
    \<and> counted (cs_report (fold (consume_one parse_uuid handle) ms s)) = counted (cs_report s) + length ms
    \<and> length (t_inbox (cs_db (fold (consume_one parse_uuid handle) ms s))) + cr_applied (cs_report s)
      = length (t_inbox (cs_db s)) + cr_applied (cs_report (fold (consume_one parse_uuid handle) ms s))
    \<and> (\<forall>i. seen (cs_db s) i \<longrightarrow> seen (cs_db (fold (consume_one parse_uuid handle) ms s)) i)"
  using assms
proof (induction ms arbitrary: s)
  case Nil
  then show ?case by simp
next
  case (Cons x ms)
  note step = consume_one_step [OF Cons.prems, where parse_uuid = parse_uuid and x = x]
  from Cons.IH [OF step(1)] step(2-4) show ?case by simp
qed

lemma consume_counts:
  assumes "db_ok d" and "s = consume parse_uuid handle d ms"
  shows "db_ok (cs_db s)" and "counted (cs_report s) = length ms"
    and "length (t_inbox (cs_db s)) = length (t_inbox d) + cr_applied (cs_report s)"
    and "seen d i \<Longrightarrow> seen (cs_db s) i"
  using consume_fold [of "\<lparr>cs_db = d, cs_report = \<lparr>cr_applied = 0, cr_duplicates = 0, cr_failed = 0,
      cr_malformed = 0\<rparr>, cs_acks = []\<rparr>" parse_uuid ms] assms
  by (simp_all add: consume_def counted_def)

end

end
