(* ===== verification/Archive.thy ===== *)
theory Archive
  imports Delivery
begin

text \<open>
  \<^verbatim>\<open>crates/operations/src/archive.rs\<close> and \<^verbatim>\<open>notes.rs\<close>: the immutable binding of an archive
  delivery to its operation, and the two functions that end an operation as failed when Edge itself
  saw its forward fail. \<open>p\<close> and \<open>k\<close> are the identifiers of the progress and the error row.
\<close>

subsection \<open>The acceptance binding\<close>

record acceptance =
  aa_operation :: uuid
  aa_owner :: uuid
  aa_device :: uuid
  aa_provider :: string
  aa_sha256 :: string
  aa_byte_size :: int
  aa_accepted_at :: instant

definition record_ai_archive_acceptance :: "db \<Rightarrow> acceptance \<Rightarrow> operation_error + db" where
  "record_ai_archive_acceptance d a =
     query (if \<not> operation_exists d (aa_operation a) then Inl Foreign_key_violation
            else bindE (sql_insert acceptance_ok acceptance_clash
                   \<lparr>ac_operation = aa_operation a, ac_owner = aa_owner a, ac_device = aa_device a,
                    ac_provider = aa_provider a, ac_sha256 = aa_sha256 a,
                    ac_byte_size = aa_byte_size a, ac_accepted_at = aa_accepted_at a\<rparr>
                   (t_acceptances d))
                 (\<lambda>t. Inr (d\<lparr>t_acceptances := t\<rparr>)))"

definition find_ai_archive_acceptance :: "db \<Rightarrow> uuid \<Rightarrow> operation_error + acceptance option" where
  "find_ai_archive_acceptance d i =
     Inr (map_option
       (\<lambda>r. \<lparr>aa_operation = ac_operation r, aa_owner = ac_owner r, aa_device = ac_device r,
             aa_provider = ac_provider r, aa_sha256 = ac_sha256 r, aa_byte_size = ac_byte_size r,
             aa_accepted_at = ac_accepted_at r\<rparr>)
       (fetch_optional (\<lambda>r. ac_operation r = i) (t_acceptances d)))"

subsection \<open>Ending an operation Edge saw fail\<close>

definition contract_checked :: "string + 'a \<Rightarrow> operation_error + 'a" where
  "contract_checked = map_err ContractViolation"

definition delivery_failed_code :: string where
  "delivery_failed_code = ''platform.ai_archive.delivery_failed''"

definition delivery_failed_message :: string where
  "delivery_failed_message = ''Archive delivery to the importer failed.''"

definition fail_ai_archive_delivery ::
  "contracts \<Rightarrow> db \<Rightarrow> uuid \<Rightarrow> uuid \<Rightarrow> uuid \<Rightarrow> instant \<Rightarrow> operation_error + db" where
  "fail_ai_archive_delivery c d p k i now =
     bindE (record_status d p i Failed (Some ''delivery'') None (Some delivery_failed_message) now)
       (\<lambda>((tr, _), d1).
          case tr of
            Advance _ \<Rightarrow>
              bindE (contract_checked (new_error c delivery_failed_code delivery_failed_message True))
                (\<lambda>err. record_error d1 k i err now)
          | _ \<Rightarrow> Inr d1)"

definition fail_notes_forward ::
  "contracts \<Rightarrow> db \<Rightarrow> uuid \<Rightarrow> uuid \<Rightarrow> uuid \<Rightarrow> string \<Rightarrow> string \<Rightarrow> string \<Rightarrow> bool \<Rightarrow> instant
     \<Rightarrow> operation_error + db" where
  "fail_notes_forward c d p k i stage message code retryable now =
     bindE (record_status d p i Failed (Some stage) None (Some message) now)
       (\<lambda>((tr, _), d1).
          case tr of
            Advance _ \<Rightarrow>
              bindE (contract_checked (new_error c code message retryable))
                (\<lambda>err. record_error d1 k i err now)
          | _ \<Rightarrow> Inr d1)"

lemma fail_ai_archive_is_forward:
  "fail_ai_archive_delivery c d p k i now =
     fail_notes_forward c d p k i ''delivery'' delivery_failed_message delivery_failed_code True now"
  by (simp add: fail_ai_archive_delivery_def fail_notes_forward_def)

lemma acceptance_record_ok: "record_ai_archive_acceptance d a = Inr d' \<Longrightarrow> db_ok d \<Longrightarrow> db_ok d'"
  by (auto simp: record_ai_archive_acceptance_def dest: db_okD(2) intro: acceptances_table.insert_ok
      split: if_splits)

lemma acceptance_lifecycle: "record_ai_archive_acceptance d a = Inr d' \<Longrightarrow> lifecycle d' j = lifecycle d j"
  by (auto simp: record_ai_archive_acceptance_def lifecycle_def split: if_splits)

lemma acceptance_found:
  assumes "record_ai_archive_acceptance d a = Inr d'"
  shows "find_ai_archive_acceptance d' (aa_operation a) = Inr (Some a)"
proof -
  let ?r = "\<lparr>ac_operation = aa_operation a, ac_owner = aa_owner a, ac_device = aa_device a,
    ac_provider = aa_provider a, ac_sha256 = aa_sha256 a, ac_byte_size = aa_byte_size a,
    ac_accepted_at = aa_accepted_at a\<rparr>"
  obtain t where t: "sql_insert acceptance_ok acceptance_clash ?r (t_acceptances d) = Inr t"
    "d' = d\<lparr>t_acceptances := t\<rparr>"
    using assms by (auto simp: record_ai_archive_acceptance_def split: if_splits)
  from acceptances_table.insert_fetch_new [OF t(1)] t(2) show ?thesis
    by (simp add: find_ai_archive_acceptance_def)
qed

text \<open>An accepted binding is never replaced: a second one for the operation is refused.\<close>

lemma acceptance_immutable:
  assumes "find_ai_archive_acceptance d i = Inr (Some a)" and "aa_operation b = i"
  shows "\<exists>e. record_ai_archive_acceptance d b = Inl e"
proof -
  from assms(1) have "\<exists>r \<in> set (t_acceptances d). ac_operation r = i"
    by (auto simp: find_ai_archive_acceptance_def dest: fetch_optional_SomeD)
  with assms(2) show ?thesis
    by (auto simp: record_ai_archive_acceptance_def sql_insert_def acceptance_clash_def list_ex_iff
        query_def)
qed

lemma fail_forward_cases:
  assumes "fail_notes_forward c d p k i stage message code retryable now = Inr d'"
  obtains tr op d1 where
    "record_status d p i Failed (Some stage) None (Some message) now = Inr ((tr, op), d1)"
    and "tr = Duplicate \<or> tr = Stale \<Longrightarrow> d' = d1"
    and "tr = Advance Failed \<Longrightarrow> \<exists>err. new_error c code message retryable = Inr err
           \<and> record_error d1 k i err now = Inr d'"
    and "tr = Duplicate \<or> tr = Stale \<or> tr = Advance Failed"
proof -
  from assms obtain tr op d1 where r:
    "record_status d p i Failed (Some stage) None (Some message) now = Inr ((tr, op), d1)"
    by (auto simp: fail_notes_forward_def)
  then have "tr = Duplicate \<or> tr = Stale \<or> tr = Advance Failed"
    using record_status_Inr by blast
  with r assms show thesis
    by (intro that [OF r]) (auto simp: fail_notes_forward_def contract_checked_def)
qed

lemma fail_forward_ok: "fail_notes_forward c d p k i stage message code retryable now = Inr d' \<Longrightarrow> db_ok d \<Longrightarrow> db_ok d'"
  by (erule fail_forward_cases) (blast intro: record_status_ok record_error_ok)

text \<open>
  A forward that Edge saw fail never overwrites an outcome. When it answers, the operation is
  failed, or it was already failed before; every other operation's status is as it was. When the
  owner of the work had reported another terminal status first, it is refused as a conflict.
\<close>

lemma fail_notes_forward_keeps_outcome:
  assumes "lifecycle d i = Some cur"
  shows "(case fail_notes_forward c d p k i stage message code retryable now of
      Inr d' \<Rightarrow> lifecycle d' i = Some Failed \<and> (\<not> is_terminal cur \<or> cur = Failed)
        \<and> (lifecycle d')(i := None) = (lifecycle d)(i := None)
    | Inl e \<Rightarrow> is_terminal cur \<and> cur \<noteq> Failed \<longrightarrow> e = ConflictingOutcome (status_str cur) ''failed'')"
proof (cases "fail_notes_forward c d p k i stage message code retryable now")
  case (Inl e)
  have "e = ConflictingOutcome (status_str cur) ''failed''" if "is_terminal cur" "cur \<noteq> Failed"
  proof -
    obtain op r where op: "find_operation d i = Inr (Some op)" "o_status op = cur"
      and r: "fetch_optional (\<lambda>r. op_id r = i) (t_operations d) = Some r"
      using find_lifecycle [OF assms] by (auto simp: find_operation_Some)
    have "transition_apply cur Failed = Conflict" using that by (simp add: terminal_iff)
    then show ?thesis using Inl op r
      by (simp add: fail_notes_forward_def record_status_def del: apply_Conflict)
  qed
  with Inl show ?thesis by simp
next
  case (Inr d')
  then obtain tr op d1 where r:
    "record_status d p i Failed (Some stage) None (Some message) now = Inr ((tr, op), d1)"
    and same: "lifecycle d' = lifecycle d1"
    by (rule fail_forward_cases) (metis ext record_error_lifecycle)
  have tr: "tr = transition_apply cur Failed \<and> tr \<noteq> Conflict"
    using record_status_Inr [OF r] assms lifecycle_find by fastforce
  have "lifecycle d1 j = (if j = i then Some (absorb Failed cur) else lifecycle d j)" for j
    using record_status_lifecycle [OF r] assms by (metis option.inject)
  moreover have "absorb Failed cur = Failed \<and> (\<not> is_terminal cur \<or> cur = Failed)"
    using tr lifecycle_known [OF assms] rank_known [of cur]
    by (cases cur) (auto simp: absorb_eq terminal_iff terminal_rank_def)
  ultimately show ?thesis using Inr same by (auto simp: fun_eq_iff)
qed

lemma fail_notes_forward_keeps_outcome_witness:
  "fail_notes_forward demo_contracts done_db 7 8 1 ''connect'' ''No answer.'' ''notes.unreachable'' True 20
     = Inl (ConflictingOutcome ''succeeded'' ''failed'')"
proof -
  have life: "lifecycle done_db 1 = Some Succeeded" by code_simp
  have "isl (fail_notes_forward demo_contracts done_db 7 8 1 ''connect'' ''No answer.'' ''notes.unreachable'' True 20)"
    by code_simp
  with fail_notes_forward_keeps_outcome [OF life, of demo_contracts 7 8 "''connect''" "''No answer.''"
      "''notes.unreachable''" True 20]
  show ?thesis
    by (cases "fail_notes_forward demo_contracts done_db 7 8 1 ''connect'' ''No answer.'' ''notes.unreachable'' True 20")
      (simp_all add: terminal_iff)
qed

end
