(* ===== verification/Projection.thy ===== *)
theory Projection
  imports Archive
begin

text \<open>
  \<^verbatim>\<open>crates/operations/src/projection.rs\<close> and \<^verbatim>\<open>notes_conflicts.rs\<close>: the handlers that apply a
  domain service's report to the operation it names. \<open>ids\<close> supplies the identifiers of the rows a
  handler inserts, in the order it inserts them.
\<close>

subsection \<open>ProgressProjection\<close>

definition operation_error_text :: "operation_error \<Rightarrow> string" where
  "operation_error_text e = (case e of
     ConflictingOutcome current inc \<Rightarrow>
       ''conflicting terminal outcomes for one operation: '' @ current @ '' and '' @ inc
   | NotFound \<Rightarrow> ''no such operation''
   | ReporterNotAllowed kind reporter \<Rightarrow>
       reporter @ '' is not a producer that may report for '' @ kind
   | ContractViolation _ \<Rightarrow> ''the stored operation does not satisfy the snapshot contract''
   | Persistence _ \<Rightarrow> [])"

definition map_operation_error :: "operation_error + 'a \<Rightarrow> eventing_error + 'a" where
  "map_operation_error = map_err (\<lambda>e. case e of
     Persistence pe \<Rightarrow> EPersistence pe
   | other \<Rightarrow> Bus (operation_error_text other))"

lemma map_operation_error_Inr [simp]: "map_operation_error m = Inr a \<longleftrightarrow> m = Inr a"
  by (simp add: map_operation_error_def)

definition read_report :: "contracts \<Rightarrow> json \<Rightarrow> operation_report option" where
  "read_report c payload =
     (let body = (case json_get ''payload'' payload of Some v \<Rightarrow> v | None \<Rightarrow> payload)
      in Option.bind (decode_report c body)
           (\<lambda>report. if validate_report c report then Some report else None))"

definition bound_to_its_operation ::
  "contracts \<Rightarrow> db \<Rightarrow> incoming \<Rightarrow> uuid \<Rightarrow> eventing_error + bool" where
  "bound_to_its_operation c d m i =
     bindE (map_operation_error (find_operation d i)) (\<lambda>found.
       case found of
         None \<Rightarrow> Inr False
       | Some op \<Rightarrow>
           let envelope_tenant = Option.bind (json_get ''tenant_id'' (in_payload m)) as_str
           in bindE (map_operation_error (find_ai_archive_acceptance d i)) (\<lambda>acc.
             let binding = (case acc of
                   Some b \<Rightarrow> if aa_owner b = o_owner op then Some b else None
                 | None \<Rightarrow> None)
             in if \<not> authorize c (o_kind op) (in_producer m) envelope_tenant (o_owner op)
                       (o_reporter op) (binding \<noteq> None)
                then Inr False
                else case binding of
                  Some b \<Rightarrow>
                    if aa_provider b = ''chatgpt'' then
                      Inr (subject_str (in_subject m) = ''evt.ai-archive.chatgpt.operation.reported.v1''
                           \<and> in_producer m = ''ratatoskr-chatgpt'')
                    else if aa_provider b = ''claude'' then
                      Inr (subject_str (in_subject m) = ''evt.ai-archive.claude.operation.reported.v1''
                           \<and> in_producer m = ''ratatoskr-claude'')
                    else Inr False
                | None \<Rightarrow> Inr (\<not> starts_with ''evt.ai-archive.'' (subject_str (in_subject m)))))"

text \<open>The rows a report brings along: its results, its error, its warnings.\<close>

definition record_details ::
  "(nat \<Rightarrow> uuid) \<Rightarrow> db \<Rightarrow> operation_report \<Rightarrow> instant \<Rightarrow> eventing_error + db" where
  "record_details ids d report now =
     bindE (map_operation_error
       (foldE (\<lambda>(n, res) d. record_result d (ids (1 + n)) (rep_operation report) res now)
          (enumerate 0 (rep_results report)) d)) (\<lambda>d1.
     bindE (case rep_error report of
              None \<Rightarrow> Inr d1
            | Some err \<Rightarrow> map_operation_error
                (record_error d1 (ids (1 + length (rep_results report))) (rep_operation report) err now))
       (\<lambda>d2. map_operation_error
         (foldE (\<lambda>(n, w) d. record_warning d (ids (2 + length (rep_results report) + n))
                   (rep_operation report) w now)
            (enumerate 0 (rep_warnings report)) d2)))"

fun transition_outcome :: "transition \<Rightarrow> outcome" where
  "transition_outcome (Advance s) = Applied"
| "transition_outcome Duplicate = DuplicateOutcome"
| "transition_outcome Stale = StaleOutcome"
| "transition_outcome Conflict = Rejected"

definition progress_handle :: "contracts \<Rightarrow> (nat \<Rightarrow> uuid) \<Rightarrow> handler" where
  "progress_handle c ids d m now =
     (case read_report c (in_payload m) of
        None \<Rightarrow> Inr (Rejected, d)
      | Some report \<Rightarrow>
          bindE (bound_to_its_operation c d m (rep_operation report)) (\<lambda>bound.
            if \<not> bound then Inr (Rejected, d)
            else case record_status d (ids 0) (rep_operation report) (rep_status report)
                        (rep_stage report) (rep_percent report) None now of
                Inl (Persistence e) \<Rightarrow> Inl (EPersistence e)
              | Inl _ \<Rightarrow> Inr (Rejected, d)
              | Inr ((tr, _), d1) \<Rightarrow>
                  bindE (record_details ids d1 report now)
                    (\<lambda>d2. Inr (transition_outcome tr, d2))))"

subsection \<open>NotesConflictProjection\<close>

definition write_kind :: string where
  "write_kind = ''notes.file.write''"

definition read_notes_conflict :: "contracts \<Rightarrow> incoming \<Rightarrow> (uuid \<times> string \<times> string) option" where
  "read_notes_conflict c m =
     Option.bind (json_get ''payload'' (in_payload m)) (\<lambda>payload.
       if subject_str (in_subject m) = ''evt.notes.conflict.raised.v1'' then
         map_option (\<lambda>(i, t). (i, t, ''notes.conflict.raised'')) (read_raised c payload)
       else if subject_str (in_subject m) = ''evt.notes.conflict.resolved.v1'' then
         map_option (\<lambda>(i, t). (i, t, ''notes.conflict.resolved'')) (read_resolved c payload)
       else None)"

definition conflict_handle :: "contracts \<Rightarrow> (nat \<Rightarrow> uuid) \<Rightarrow> handler" where
  "conflict_handle c ids d m now =
     (case read_notes_conflict c m of
        None \<Rightarrow> Inr (Rejected, d)
      | Some (i, target, kind) \<Rightarrow>
          bindE (map_operation_error (find_operation d i)) (\<lambda>found.
            case found of
              None \<Rightarrow> Inr (Rejected, d)
            | Some op \<Rightarrow>
                let tenant = Option.bind (json_get ''tenant_id'' (in_payload m)) as_str
                in if o_kind op \<noteq> write_kind
                      \<or> \<not> authorize c (o_kind op) (in_producer m) tenant (o_owner op) (o_reporter op) False
                   then Inr (Rejected, d)
                   else if row_exists (\<lambda>r. rs_operation r = i \<and> rs_kind r = kind \<and> rs_target r = target)
                             (t_results d)
                   then Inr (DuplicateOutcome, d)
                   else bindE (map_err Bus (new_result c kind target)) (\<lambda>res.
                        bindE (map_operation_error (record_result d (ids 0) i res now))
                          (\<lambda>d'. Inr (Applied, d')))))"

subsection \<open>What a handler writes\<close>

text \<open>
  The parts of the database a report's details leave alone: the lifecycle of every operation and
  the inbox; and they keep the schema.
\<close>

definition same_lifecycle :: "db \<Rightarrow> db \<Rightarrow> bool" where
  "same_lifecycle d d' \<longleftrightarrow> lifecycle d' = lifecycle d \<and> t_inbox d' = t_inbox d \<and> (db_ok d \<longrightarrow> db_ok d')"

lemma same_lifecycle_refl [simp]: "same_lifecycle d d"
  by (simp add: same_lifecycle_def)

lemma same_lifecycle_trans: "same_lifecycle d d' \<Longrightarrow> same_lifecycle d' d'' \<Longrightarrow> same_lifecycle d d''"
  by (simp add: same_lifecycle_def)

lemma record_result_same: "record_result d k i res now = Inr d' \<Longrightarrow> same_lifecycle d d'"
  by (auto simp: same_lifecycle_def fun_eq_iff record_result_frame
      intro: record_result_ok lifecycle_cong)

lemma record_error_same: "record_error d k i err now = Inr d' \<Longrightarrow> same_lifecycle d d'"
  by (auto simp: same_lifecycle_def fun_eq_iff record_error_inbox record_error_lifecycle
      intro: record_error_ok)

lemma record_warning_same: "record_warning d k i w now = Inr d' \<Longrightarrow> same_lifecycle d d'"
  by (auto simp: same_lifecycle_def fun_eq_iff record_warning_frame
      intro: record_warning_ok lifecycle_cong)

lemma foldE_same:
  assumes "foldE f xs d = Inr d'" and "\<And>x d d'. f x d = Inr d' \<Longrightarrow> same_lifecycle d d'"
  shows "same_lifecycle d d'"
  using assms(1)
  by (rule foldE_invariant [where I = "same_lifecycle d"])
    (auto intro: same_lifecycle_trans assms(2))

lemma record_details_same:
  assumes "record_details ids d report now = Inr d'"
  shows "same_lifecycle d d'"
proof -
  obtain d1 d2 where
    d1: "foldE (\<lambda>(n, res) d. record_result d (ids (1 + n)) (rep_operation report) res now)
          (enumerate 0 (rep_results report)) d = Inr d1"
    and d2: "(case rep_error report of None \<Rightarrow> Inr d1 | Some err \<Rightarrow> map_operation_error
          (record_error d1 (ids (1 + length (rep_results report))) (rep_operation report) err now)) = Inr d2"
    and d3: "foldE (\<lambda>(n, w) d. record_warning d (ids (2 + length (rep_results report) + n))
          (rep_operation report) w now) (enumerate 0 (rep_warnings report)) d2 = Inr d'"
    using assms by (auto simp: record_details_def)
  have "same_lifecycle d d1" by (rule foldE_same [OF d1]) (auto intro: record_result_same)
  moreover have "same_lifecycle d1 d2" using d2 by (auto intro: record_error_same split: option.splits)
  moreover have "same_lifecycle d2 d'" by (rule foldE_same [OF d3]) (auto intro: record_warning_same)
  ultimately show ?thesis by (blast intro: same_lifecycle_trans)
qed

text \<open>The three ways a report can go through.\<close>

lemma progress_handle_cases:
  assumes "progress_handle c ids d m now = Inr (out, d')"
  obtains (ignored) "out = Rejected" "d' = d"
  | (recorded) report tr op d1 where "read_report c (in_payload m) = Some report"
      "bound_to_its_operation c d m (rep_operation report) = Inr True"
      "record_status d (ids 0) (rep_operation report) (rep_status report) (rep_stage report)
         (rep_percent report) None now = Inr ((tr, op), d1)"
      "record_details ids d1 report now = Inr d'" "out = transition_outcome tr"
  using assms
  by (auto simp: progress_handle_def split: option.splits if_splits sum.splits prod.splits
      operation_error.splits)

lemma progress_keeps:
  assumes "progress_handle c ids d m now = Inr (out, d')"
  shows "db_ok d \<Longrightarrow> db_ok d'" and "t_inbox d' = t_inbox d"
  using assms
  by (cases rule: progress_handle_cases;
      auto dest!: record_details_same simp: same_lifecycle_def record_status_inbox
      intro: record_status_ok)+

interpretation progress: event_handler "progress_handle c ids" for c ids
  by unfold_locales (fact progress_keeps)+

lemma conflict_keeps:
  assumes "conflict_handle c ids d m now = Inr (out, d')"
  shows "same_lifecycle d d'"
  using assms
  by (auto simp: conflict_handle_def Let_def intro: record_result_same
      split: option.splits prod.splits if_splits)

interpretation conflicts: event_handler "conflict_handle c ids" for c ids
  by unfold_locales (auto dest!: conflict_keeps simp: same_lifecycle_def)

subsection \<open>Who may move an operation\<close>

abbreviation envelope_tenant :: "incoming \<Rightarrow> string option" where
  "envelope_tenant m \<equiv> Option.bind (json_get ''tenant_id'' (in_payload m)) as_str"

lemma bound_True:
  assumes "bound_to_its_operation c d m i = Inr True"
  obtains op b where "find_operation d i = Inr (Some op)"
    and "authorize c (o_kind op) (in_producer m) (envelope_tenant m) (o_owner op) (o_reporter op) b"
    and "b \<Longrightarrow> \<exists>a. find_ai_archive_acceptance d i = Inr (Some a) \<and> aa_owner a = o_owner op"
  using assms
  by (fastforce simp: bound_to_its_operation_def Let_def split: option.splits if_splits)

lemma bound_archive:
  assumes "bound_to_its_operation c d m i = Inr True"
    and "find_operation d i = Inr (Some op)"
    and "find_ai_archive_acceptance d i = Inr (Some a)" and "aa_owner a = o_owner op"
  shows "(aa_provider a, subject_str (in_subject m), in_producer m) \<in>
    {(''chatgpt'', ''evt.ai-archive.chatgpt.operation.reported.v1'', ''ratatoskr-chatgpt''),
     (''claude'', ''evt.ai-archive.claude.operation.reported.v1'', ''ratatoskr-claude'')}"
  using assms by (auto simp: bound_to_its_operation_def Let_def split: if_splits)

text \<open>A report that moves an operation moves the one it names, forward.\<close>

lemma progress_moves:
  assumes "progress_handle c ids d m now = Inr (out, d')" and "lifecycle d' i \<noteq> lifecycle d i"
  obtains report tr op' d1 cur where "read_report c (in_payload m) = Some report"
    and "bound_to_its_operation c d m (rep_operation report) = Inr True"
    and "record_status d (ids 0) (rep_operation report) (rep_status report) (rep_stage report)
         (rep_percent report) None now = Inr ((tr, op'), d1)" and "out = transition_outcome tr"
    and "rep_operation report = i" and "lifecycle d i = Some cur" and "rank cur < rank (rep_status report)"
    and "lifecycle d' i = Some (rep_status report)"
  using assms(1)
proof (cases rule: progress_handle_cases)
  case ignored
  with assms(2) show ?thesis by simp
next
  case (recorded report tr op' d1)
  have life: "lifecycle d' = lifecycle d1"
    using record_details_same [OF recorded(4)] by (simp add: same_lifecycle_def)
  obtain cur where cur: "lifecycle d (rep_operation report) = Some cur"
    "\<And>j. lifecycle d1 j = (if j = rep_operation report then Some (absorb (rep_status report) cur) else lifecycle d j)"
    using record_status_lifecycle [OF recorded(3)] by blast
  with life assms(2) have i: "i = rep_operation report" by metis
  with life cur assms(2) have "rank cur < rank (rep_status report)" "lifecycle d' i = Some (rep_status report)"
    by (auto simp: absorb_eq split: if_splits)
  with that recorded i cur(1) show ?thesis by blast
qed

text \<open>
  C2: a message moves the status of an operation only when its producer has the authority. It is
  a readable report that names that operation; the envelope tenant is the owner's (or, with no
  tenant at all, the kind is provider-bound and the owner's acceptance record exists); the producer
  is the listed, recorded reporter unless the kind is provider-bound; the move goes forward, never
  out of a terminal status, and to the reported status.
\<close>

theorem projection_is_authorized:
  assumes "progress_handle c ids d m now = Inr (out, d')" and "lifecycle d' i \<noteq> lifecycle d i"
  shows "\<exists>report op. read_report c (in_payload m) = Some report \<and> rep_operation report = i
    \<and> find_operation d i = Inr (Some op)
    \<and> (case envelope_tenant m of
         Some raw \<Rightarrow> parse_tenant c raw = Some (tenant_of_user c (o_owner op))
       | None \<Rightarrow> producers_for (o_kind op) = Some ProviderBound
           \<and> (\<exists>a. find_ai_archive_acceptance d i = Inr (Some a) \<and> aa_owner a = o_owner op))
    \<and> (producers_for (o_kind op) = Some ProviderBound
       \<or> allows (o_kind op) (in_producer m) \<and> o_reporter op = Some (in_producer m))
    \<and> \<not> is_terminal (o_status op) \<and> rank (o_status op) < rank (rep_status report)
    \<and> lifecycle d' i = Some (rep_status report) \<and> out = Applied"
proof -
  obtain report tr op' d1 cur where recorded: "read_report c (in_payload m) = Some report"
      "bound_to_its_operation c d m (rep_operation report) = Inr True"
      "record_status d (ids 0) (rep_operation report) (rep_status report) (rep_stage report)
         (rep_percent report) None now = Inr ((tr, op'), d1)" "out = transition_outcome tr"
    and i: "rep_operation report = i" and cur: "lifecycle d i = Some cur" "rank cur < rank (rep_status report)"
    and to: "lifecycle d' i = Some (rep_status report)"
    by (rule progress_moves [OF assms])
  obtain op b where op: "find_operation d i = Inr (Some op)"
    and auth: "authorize c (o_kind op) (in_producer m) (envelope_tenant m) (o_owner op) (o_reporter op) b"
    and b: "b \<Longrightarrow> \<exists>a. find_ai_archive_acceptance d i = Inr (Some a) \<and> aa_owner a = o_owner op"
    using bound_True [OF recorded(2)] i by metis
  have st: "o_status op = cur" using lifecycle_find [OF op] cur(1) by simp
  have tr: "tr = Advance (rep_status report)"
    using record_status_Inr [OF recorded(3)] op i cur(2) st by auto
  have "rep_status report \<noteq> OtherStatus" using record_status_known [OF recorded(3) [unfolded tr]] by simp
  then have "\<not> is_terminal (o_status op)"
    using cur(2) st rank_known [of "rep_status report"] by (auto simp: is_terminal_def terminal_rank_def)
  moreover have "out = Applied" using recorded(4) tr by simp
  moreover have "case envelope_tenant m of
         Some raw \<Rightarrow> parse_tenant c raw = Some (tenant_of_user c (o_owner op))
       | None \<Rightarrow> producers_for (o_kind op) = Some ProviderBound
           \<and> (\<exists>a. find_ai_archive_acceptance d i = Inr (Some a) \<and> aa_owner a = o_owner op)"
    using authorize_tenant [OF auth] b by (auto split: option.splits)
  moreover have "producers_for (o_kind op) = Some ProviderBound
       \<or> allows (o_kind op) (in_producer m) \<and> o_reporter op = Some (in_producer m)"
    using auth by (auto simp: authorize_def allows_def Let_def split: option.splits producers.splits)
  ultimately show ?thesis using recorded(1) i op cur(2) st to by auto
qed

text \<open>
  An operation with an acceptance record of its owner takes a report only on the subject, and
  from the producer, of the provider the record names.
\<close>

lemma archive_reports_are_bound:
  assumes "progress_handle c ids d m now = Inr (out, d')" and "out \<noteq> Rejected"
    and "read_report c (in_payload m) = Some report"
    and "find_operation d (rep_operation report) = Inr (Some op)"
    and "find_ai_archive_acceptance d (rep_operation report) = Inr (Some a)" and "aa_owner a = o_owner op"
  shows "aa_provider a \<in> {''chatgpt'', ''claude''} \<and> in_producer m = ''ratatoskr-'' @ aa_provider a
    \<and> subject_str (in_subject m) = ''evt.ai-archive.'' @ aa_provider a @ ''.operation.reported.v1''"
  using assms(1)
proof (cases rule: progress_handle_cases)
  case ignored
  with assms(2) show ?thesis by simp
next
  case (recorded r tr op' d1)
  then have "r = report" using assms(3) by simp
  then have "(aa_provider a, subject_str (in_subject m), in_producer m) \<in>
    {(''chatgpt'', ''evt.ai-archive.chatgpt.operation.reported.v1'', ''ratatoskr-chatgpt''),
     (''claude'', ''evt.ai-archive.claude.operation.reported.v1'', ''ratatoskr-claude'')}"
    using bound_archive [OF recorded(2)] assms(4-6) by blast
  then show ?thesis by auto
qed

subsection \<open>At-least-once delivery\<close>

text \<open>A repeat is recognised by the inbox before any handler is looked at.\<close>

lemma repeated_for_every_handler:
  assumes "deliver commits h d m now = \<lparr>dl_result = Inr None, dl_db = e, dl_settled = None\<rparr>"
  shows "deliver commits h' d m now = \<lparr>dl_result = Inr None, dl_db = e, dl_settled = None\<rparr>"
proof (cases "inbox_begin d (in_message_id m) (in_subject m) (in_producer m) now")
  case (Inr x)
  obtain b d1 where x: "x = (b, d1)" by fastforce
  show ?thesis using assms Inr x by (cases b) (auto simp: deliver_def split: sum.splits prod.splits)
qed (use assms in \<open>simp add: deliver_def\<close>)

text \<open>
  A report whose delivery was answered is never applied again. Whatever messages the consumer
  handles afterwards, and whatever identifiers and instants the repeat runs with, delivering it
  again reports a duplicate, changes nothing and does not call the handler.
\<close>

lemma redelivered_report_changes_nothing:
  assumes "dl_result (deliver commits (progress_handle c ids) d m now) = Inr r" and "db_ok d"
  shows "(let s = consume parse_uuid (progress_handle c ids') (dl_db (deliver commits (progress_handle c ids) d m now)) ms
     in deliver commits' (progress_handle c ids'') (cs_db s) m now'
        = \<lparr>dl_result = Inr None, dl_db = cs_db s, dl_settled = None\<rparr>)"
proof -
  let ?d = "dl_db (deliver commits (progress_handle c ids) d m now)"
  have ok: "db_ok ?d" using progress.delivery_keeps_db [OF assms(2)] .
  have "deliver commits' (progress_handle c ids) (cs_db (consume parse_uuid (progress_handle c ids') ?d ms)) m now'
    = \<lparr>dl_result = Inr None, dl_db = cs_db (consume parse_uuid (progress_handle c ids') ?d ms), dl_settled = None\<rparr>"
    using progress.redelivery [OF assms] progress.consume_counts(4) [OF ok refl] by blast
  from repeated_for_every_handler [OF this] show ?thesis unfolding Let_def .
qed

text \<open>
  The consumer counts truthfully. Every message is counted exactly once, the number of
  messages applied is the number of rows the inbox gained, whose identities stay distinct, and the
  database keeps its schema.
\<close>

lemma consumer_counts_every_message:
  assumes "db_ok d" and "s = consume parse_uuid (progress_handle c ids) d ms"
  shows "cr_applied (cs_report s) + cr_duplicates (cs_report s) + cr_failed (cs_report s)
      + cr_malformed (cs_report s) = length ms
    \<and> length (t_inbox (cs_db s)) = length (t_inbox d) + cr_applied (cs_report s)
    \<and> distinct (map ib_message (t_inbox (cs_db s))) \<and> db_ok (cs_db s)"
  using progress.consume_counts(1-3) [OF assms] inbox_table.distinct_keys db_okD(7)
  by (metis counted_def)

text \<open>What one delivery does to the lifecycle of an operation.\<close>

lemma progress_handle_lifecycle:
  assumes "progress_handle c ids d m now = Inr (out, d')"
  shows "lifecycle d' i = lifecycle d i
    \<or> (\<exists>r. read_report c (in_payload m) = Some r \<and> rep_operation r = i \<and> rep_status r \<noteq> OtherStatus
        \<and> lifecycle d' i = map_option (absorb (rep_status r)) (lifecycle d i))"
proof (cases "lifecycle d' i = lifecycle d i")
  case False
  obtain r cur where r: "read_report c (in_payload m) = Some r" "rep_operation r = i" "lifecycle d i = Some cur"
      "rank cur < rank (rep_status r)" "lifecycle d' i = Some (rep_status r)"
    using progress_moves [OF assms False] by metis
  moreover have "rep_status r \<noteq> OtherStatus" using lifecycle_known [OF r(5)] .
  ultimately show ?thesis by (auto simp: absorb_eq)
qed simp

lemma deliver_lifecycle:
  "lifecycle (dl_db (deliver commits (progress_handle c ids) d m now)) i = lifecycle d i
    \<or> (\<exists>r. read_report c (in_payload m) = Some r \<and> rep_operation r = i \<and> rep_status r \<noteq> OtherStatus
        \<and> lifecycle (dl_db (deliver commits (progress_handle c ids) d m now)) i
          = map_option (absorb (rep_status r)) (lifecycle d i))"
proof (cases "dl_result (deliver commits (progress_handle c ids) d m now)")
  case (Inl e)
  then show ?thesis by (simp add: progress.failed_delivery)
next
  case (Inr out)
  show ?thesis
  proof (cases out)
    case None
    with Inr show ?thesis by (simp add: progress.repeated_delivery(2))
  next
    case (Some out')
    with Inr obtain d1 d2 where
      d1: "inbox_begin d (in_message_id m) (in_subject m) (in_producer m) now = Inr (First, d1)"
      and d2: "progress_handle c ids d1 m now = Inr (out', d2)"
      and d3: "inbox_finish d2 (in_message_id m) out' now
        = Inr (dl_db (deliver commits (progress_handle c ids) d m now))"
      using progress.first_delivery by metis
    have "lifecycle d1 = lifecycle d"
      using d1 by (auto simp: inbox_begin_First fun_eq_iff lifecycle_def)
    moreover have "lifecycle (dl_db (deliver commits (progress_handle c ids) d m now)) = lifecycle d2"
      using d3 by (auto simp: inbox_finish_def fun_eq_iff intro!: lifecycle_cong)
        (metis db.select_convs(1) db.surjective db.update_convs(7))
    ultimately show ?thesis using progress_handle_lifecycle [OF d2, of i] by simp
  qed
qed

text \<open>The statuses reported of an operation in what a consumer received.\<close>

definition reported ::
  "contracts \<Rightarrow> (string \<Rightarrow> uuid option) \<Rightarrow> (string + raw_message \<times> instant \<times> bool) list \<Rightarrow> uuid
     \<Rightarrow> operation_status set" where
  "reported c parse_uuid ms i =
     {rep_status r | r message attempt m. Inr (message, attempt) \<in> set ms
        \<and> consumer_parse parse_uuid message = Some m \<and> read_report c (in_payload m) = Some r
        \<and> rep_operation r = i}"

lemma reported_Cons: "reported c parse_uuid ms i \<subseteq> reported c parse_uuid (x # ms) i"
  by (auto simp: reported_def)

lemma consume_one_lifecycle:
  "\<exists>ss. lifecycle (cs_db (consume_one parse_uuid (progress_handle c ids) x s)) i
      = map_option (fold absorb ss) (lifecycle (cs_db s) i)
    \<and> set ss \<subseteq> reported c parse_uuid (x # ms) i - {OtherStatus}"
proof (cases x)
  case (Inl e)
  then show ?thesis
    by (intro exI [of _ "[]"]) (simp add: consume_one_def count_def option.map_id)
next
  case (Inr a)
  obtain message now commits where a: "a = (message, now, commits)" by (cases a)
  show ?thesis
  proof (cases "consumer_parse parse_uuid message")
    case None
    with Inr a show ?thesis
      by (intro exI [of _ "[]"])
        (simp add: consume_one_def count_def acknowledge_def option.map_id)
  next
    case (Some m)
    have db: "cs_db (consume_one parse_uuid (progress_handle c ids) x s)
        = dl_db (deliver commits (progress_handle c ids) (cs_db s) m now)"
      using Inr a Some
      by (simp add: consume_one_def count_def acknowledge_def Let_def split: sum.split option.split)
    from deliver_lifecycle [of commits c ids "cs_db s" m now i] show ?thesis
    proof
      assume "lifecycle (dl_db (deliver commits (progress_handle c ids) (cs_db s) m now)) i
        = lifecycle (cs_db s) i"
      with db show ?thesis by (intro exI [of _ "[]"]) (simp add: option.map_id)
    next
      assume "\<exists>r. read_report c (in_payload m) = Some r \<and> rep_operation r = i
        \<and> rep_status r \<noteq> OtherStatus
        \<and> lifecycle (dl_db (deliver commits (progress_handle c ids) (cs_db s) m now)) i
          = map_option (absorb (rep_status r)) (lifecycle (cs_db s) i)"
      then obtain r where r: "read_report c (in_payload m) = Some r" "rep_operation r = i"
        "rep_status r \<noteq> OtherStatus"
        "lifecycle (dl_db (deliver commits (progress_handle c ids) (cs_db s) m now)) i
          = map_option (absorb (rep_status r)) (lifecycle (cs_db s) i)" by blast
      have "rep_status r \<in> reported c parse_uuid (x # ms) i"
        unfolding reported_def using r Inr a Some by fastforce
      with db r show ?thesis by (intro exI [of _ "[rep_status r]"]) simp
    qed
  qed
qed

lemma consume_fold_lifecycle:
  "\<exists>ss. lifecycle (cs_db (fold (consume_one parse_uuid (progress_handle c ids)) ms s)) i
      = map_option (fold absorb ss) (lifecycle (cs_db s) i)
    \<and> set ss \<subseteq> reported c parse_uuid ms i - {OtherStatus}"
proof (induction ms arbitrary: s)
  case Nil
  show ?case by (intro exI [of _ "[]"]) (cases "lifecycle (cs_db s) i", simp_all)
next
  case (Cons x ms)
  obtain ss where ss: "lifecycle (cs_db (consume_one parse_uuid (progress_handle c ids) x s)) i
      = map_option (fold absorb ss) (lifecycle (cs_db s) i)"
    "set ss \<subseteq> reported c parse_uuid (x # ms) i - {OtherStatus}"
    using consume_one_lifecycle by blast
  obtain ts where ts: "lifecycle (cs_db (fold (consume_one parse_uuid (progress_handle c ids)) ms
        (consume_one parse_uuid (progress_handle c ids) x s))) i
      = map_option (fold absorb ts) (lifecycle (cs_db (consume_one parse_uuid (progress_handle c ids) x s)) i)"
    "set ts \<subseteq> reported c parse_uuid ms i - {OtherStatus}"
    using Cons.IH by blast
  have "set (ss @ ts) \<subseteq> reported c parse_uuid (x # ms) i - {OtherStatus}"
    using ss(2) ts(2) reported_Cons [of c parse_uuid ms i x] by auto
  with ss(1) ts(1) show ?case
    by (intro exI [of _ "ss @ ts"]) (simp add: option.map_comp comp_def)
qed

text \<open>
  C5: a durable consumer refines the pure rule. Whatever it received, in whatever order, with
  whatever failures, the lifecycle status of an operation is its old one with statuses reported for
  that operation absorbed into it, one after the other; so it never goes back, and an outcome stays.
\<close>

theorem consumer_refines_absorption:
  assumes "lifecycle d i = Some cur" and "s = consume parse_uuid (progress_handle c ids) d ms"
  shows "\<exists>ss. lifecycle (cs_db s) i = Some (fold absorb ss cur)
    \<and> set ss \<subseteq> reported c parse_uuid ms i \<and> rank cur \<le> rank (fold absorb ss cur)
    \<and> (is_terminal cur \<longrightarrow> fold absorb ss cur = cur)"
proof -
  obtain ss where ss: "lifecycle (cs_db s) i = map_option (fold absorb ss) (lifecycle d i)"
    "set ss \<subseteq> reported c parse_uuid ms i - {OtherStatus}"
    using consume_fold_lifecycle [of parse_uuid c ids ms _ i] assms(2)
    by (metis consume_def consumer_state.select_convs(1))
  have "rank cur \<le> rank (fold absorb ss cur)" by (simp add: absorb_all_rank_Max)
  moreover have "is_terminal cur \<longrightarrow> fold absorb ss cur = cur"
    using absorb_terminal ss(2) by blast
  ultimately show ?thesis using ss assms(1) by auto
qed

subsection \<open>The properties at concrete inputs\<close>

definition demo_report :: "string \<Rightarrow> string \<Rightarrow> string \<Rightarrow> string \<Rightarrow> incoming" where
  "demo_report subj producer tenant status =
     \<lparr>in_message_id = 40, in_subject = Subject subj, in_producer = producer,
      in_payload = JObject [(''tenant_id'', JString tenant), (''payload'', JString status)]\<rparr>"

definition running_report :: incoming where
  "running_report = demo_report ''evt.platform.operation.reported.v1'' ''ratatoskr-x'' ''user:two'' ''running''"

definition demo_ids :: "nat \<Rightarrow> uuid" where
  "demo_ids n = of_nat (100 + n)"

definition archive_db :: db where
  "archive_db = empty_db\<lparr>
     t_operations := [sample_row ''accepted''\<lparr>op_kind := ''ai_archive.import'', op_reporter := None\<rparr>],
     t_acceptances := [\<lparr>ac_operation = 1, ac_owner = 2, ac_device = 5, ac_provider = ''claude'',
       ac_sha256 = replicate 64 CHR ''a'', ac_byte_size = 9, ac_accepted_at = 10\<rparr>]\<rparr>"

definition archive_report :: incoming where
  "archive_report = demo_report ''evt.ai-archive.claude.operation.reported.v1'' ''ratatoskr-claude'' ''user:two'' ''running''"

lemma demo_progress:
  obtains d' where "progress_handle demo_contracts demo_ids (demo_db ''accepted'') running_report 20 = Inr (Applied, d')"
    and "lifecycle d' 1 = Some Running"
proof -
  have "case progress_handle demo_contracts demo_ids (demo_db ''accepted'') running_report 20 of
      Inr (out, d') \<Rightarrow> out = Applied \<and> lifecycle d' 1 = Some Running | Inl _ \<Rightarrow> False"
    by code_simp
  then show thesis using that by (auto split: sum.splits)
qed

theorem projection_is_authorized_witness:
  "allows ''content.capture.submit'' ''ratatoskr-x''"
proof -
  obtain d' where d': "progress_handle demo_contracts demo_ids (demo_db ''accepted'') running_report 20 = Inr (Applied, d')"
    "lifecycle d' 1 = Some Running" by (rule demo_progress)
  have "lifecycle (demo_db ''accepted'') 1 = Some Accepted"
    and op: "map_option o_kind (projr (find_operation (demo_db ''accepted'') 1)) = Some ''content.capture.submit''"
    and kind: "producers_for ''content.capture.submit'' = Some (Listed capture_producers)"
    and prod: "in_producer running_report = ''ratatoskr-x''" by code_simp+
  then have "lifecycle d' 1 \<noteq> lifecycle (demo_db ''accepted'') 1" using d'(2) by simp
  from projection_is_authorized [OF d'(1) this] op kind prod show ?thesis by auto
qed

theorem consumer_refines_absorption_witness:
  "lifecycle (cs_db (consume (\<lambda>_. Some 40) (progress_handle demo_contracts demo_ids) done_db
     [Inr (\<lparr>raw_subject = ''evt.platform.operation.reported.v1'', raw_payload = Some (in_payload running_report)\<rparr>, 20, True)])) 1
   = Some Succeeded"
proof -
  have "lifecycle done_db 1 = Some Succeeded" by code_simp
  from consumer_refines_absorption [OF this refl, of "\<lambda>_. Some 40" demo_contracts demo_ids]
  show ?thesis by (fastforce simp: terminal_iff)
qed

end
