(* ===== verification/Cancel.thy ===== *)
theory Cancel
  imports Archive
begin

text \<open>
  \<^verbatim>\<open>crates/operations/src/cancel.rs\<close>: recording that the owner of an operation asked for it to
  stop. The row lock of the code makes the read and the write one step.
\<close>

subsection \<open>Cancellation\<close>

datatype cancellation =
    Requested operation
  | AlreadyRequested operation
  | Terminal operation

definition marked_row :: "instant \<Rightarrow> operation_row \<Rightarrow> operation_row" where
  "marked_row now r = r\<lparr>op_cancel_requested_at := Some now\<rparr>"

definition request_cancellation ::
  "db \<Rightarrow> uuid \<Rightarrow> uuid \<Rightarrow> instant \<Rightarrow> operation_error + cancellation \<times> db" where
  "request_cancellation d i owner now =
     bindE (ok_or NotFound (fetch_optional (\<lambda>r. op_id r = i \<and> op_owner r = owner) (t_operations d)))
       (\<lambda>row. bindE (operation_from_row row) (\<lambda>op.
          if is_terminal (o_status op) then Inr (Terminal op, d)
          else if o_cancel_requested_at op \<noteq> None then Inr (AlreadyRequested op, d)
          else bindE (query (sql_update (\<lambda>_. operation_ok) operation_clash (\<lambda>r. op_id r = i)
                   (marked_row now) (t_operations d)))
                 (\<lambda>t. Inr (Requested (op\<lparr>o_cancel_requested_at := Some now\<rparr>), d\<lparr>t_operations := t\<rparr>))))"

lemma marked_row_simps [simp]:
  "op_id (marked_row now r) = op_id r" "op_status (marked_row now r) = op_status r"
  "operation_clash (marked_row now r) x = operation_clash r x"
  "operation_ok (marked_row now r) = operation_ok r"
  by (simp_all add: marked_row_def operation_clash_def operation_ok_def)

lemma update_keeps_lifecycle:
  assumes "\<And>r. op_id (f r) = op_id r" and "\<And>r. op_status (f r) = op_status r"
  shows "lifecycle (d\<lparr>t_operations := update_where q f (t_operations d)\<rparr>) = lifecycle d"
proof
  fix j
  show "lifecycle (d\<lparr>t_operations := update_where q f (t_operations d)\<rparr>) j = lifecycle d j"
    by (cases "fetch_optional (\<lambda>r. op_id r = j) (t_operations d)")
      (simp_all add: lifecycle_def fetch_update_where assms)
qed

lemma request_cancellation_ok: "request_cancellation d i owner now = Inr (out, d') \<Longrightarrow> db_ok d \<Longrightarrow> db_ok d'"
  by (auto simp: request_cancellation_def split: if_splits intro: ops_table.update_ok db_okD(1))

lemma request_cancellation_row:
  assumes "db_ok d" and "request_cancellation d i owner now = Inr (out, d')"
  obtains r op where "fetch_optional (\<lambda>r. op_id r = i) (t_operations d) = Some r" and "op_owner r = owner"
    and "operation_from_row r = Inr op" and "find_operation d i = Inr (Some op)"
proof -
  obtain r op where r: "fetch_optional (\<lambda>r. op_id r = i \<and> op_owner r = owner) (t_operations d) = Some r"
    "operation_from_row r = Inr op"
    using assms(2) by (auto simp: request_cancellation_def)
  then have row: "r \<in> set (t_operations d)" "op_id r = i" "op_owner r = owner" by (auto dest: fetch_optional_SomeD)
  then have found: "fetch_optional (\<lambda>r. op_id r = i) (t_operations d) = Some r"
    by (simp add: ops_table.fetch_key [OF db_okD(1) [OF assms(1)]])
  show thesis by (rule that [OF found row(3) r(2)]) (use found r(2) in \<open>auto simp: find_operation_Some\<close>)
qed

text \<open>
  A cancellation is a request, not a state. It answers only the owner; it says \<open>Terminal\<close> of a
  finished operation, \<open>AlreadyRequested\<close> of one with a marker, and otherwise sets the marker; the
  lifecycle status of every operation is what it was. Asked again, it finds its own request, and
  the first marker stands.
\<close>

lemma cancellation_is_a_request:
  assumes "db_ok d" and "request_cancellation d i owner now = Inr (out, d')"
  shows "lifecycle d' = lifecycle d \<and> (\<exists>op. find_operation d i = Inr (Some op) \<and> o_owner op = owner
    \<and> (if is_terminal (o_status op) then out = Terminal op \<and> d' = d
       else if o_cancel_requested_at op \<noteq> None then out = AlreadyRequested op \<and> d' = d
       else out = Requested (op\<lparr>o_cancel_requested_at := Some now\<rparr>)
         \<and> request_cancellation d' i owner later
             = Inr (AlreadyRequested (op\<lparr>o_cancel_requested_at := Some now\<rparr>), d')))"
proof -
  obtain r op where r: "fetch_optional (\<lambda>r. op_id r = i) (t_operations d) = Some r" "op_owner r = owner"
    and op: "operation_from_row r = Inr op" "find_operation d i = Inr (Some op)"
    using assms by (rule request_cancellation_row)
  note row = operation_from_row_Inr [OF op(1)]
  have mem: "r \<in> set (t_operations d)" "op_id r = i" using r(1) by (auto dest: fetch_optional_SomeD)
  have own: "fetch_optional (\<lambda>r. op_id r = i \<and> op_owner r = owner) (t_operations d) = Some r"
  proof (cases "fetch_optional (\<lambda>r. op_id r = i \<and> op_owner r = owner) (t_operations d)")
    case None
    with mem r(2) show ?thesis by (auto simp: fetch_optional_None)
  next
    case (Some r')
    then have "r' \<in> set (t_operations d)" "op_id r' = i" by (auto dest: fetch_optional_SomeD)
    with mem Some ops_table.same_key [OF db_okD(1) [OF assms(1)]] show ?thesis by metis
  qed
  note run = assms(2) [unfolded request_cancellation_def own ok_or_simps bindE_simps op(1)]
  have owner: "o_owner op = owner" using row r(2) by simp
  show ?thesis
  proof (cases "is_terminal (o_status op) \<or> o_cancel_requested_at op \<noteq> None")
    case True
    with run op(2) owner show ?thesis by (auto split: if_splits)
  next
    case False
    with run have out: "out = Requested (op\<lparr>o_cancel_requested_at := Some now\<rparr>)"
      and upd: "sql_update (\<lambda>_. operation_ok) operation_clash (\<lambda>r. op_id r = i) (marked_row now) (t_operations d)
        = Inr (t_operations d')" and d': "d' = d\<lparr>t_operations := t_operations d'\<rparr>"
      by auto
    have t: "t_operations d' = update_where (\<lambda>r. op_id r = i) (marked_row now) (t_operations d)"
      using upd by (simp add: sql_update_Inr)
    have life: "lifecycle d' = lifecycle d"
      by (subst d' [unfolded t]) (rule update_keeps_lifecycle, simp_all)
    have own': "fetch_optional (\<lambda>r. op_id r = i \<and> op_owner r = owner) (t_operations d') = Some (marked_row now r)"
      unfolding t using own mem by (subst fetch_update_where) (simp_all add: marked_row_def)
    have "operation_from_row (marked_row now r) = Inr (op\<lparr>o_cancel_requested_at := Some now\<rparr>)"
      using op(1) by (auto simp: operation_from_row_def marked_row_def split: option.splits)
    with own' False have "request_cancellation d' i owner later
        = Inr (AlreadyRequested (op\<lparr>o_cancel_requested_at := Some now\<rparr>), d')"
      by (simp add: request_cancellation_def)
    with False out life op(2) owner show ?thesis by simp
  qed
qed

text \<open>Somebody else's operation and no operation give the same refusal.\<close>

lemma cancellation_of_foreign:
  "(\<And>r. r \<in> set (t_operations d) \<Longrightarrow> op_id r = i \<Longrightarrow> op_owner r \<noteq> owner)
     \<Longrightarrow> request_cancellation d i owner now = Inl NotFound"
proof -
  assume "\<And>r. r \<in> set (t_operations d) \<Longrightarrow> op_id r = i \<Longrightarrow> op_owner r \<noteq> owner"
  then have "fetch_optional (\<lambda>r. op_id r = i \<and> op_owner r = owner) (t_operations d) = None"
    by (auto simp: fetch_optional_None)
  then show ?thesis by (simp add: request_cancellation_def)
qed

end
