(* ===== verification/Reconcile.thy ===== *)
theory Reconcile
  imports Cancel
begin

text \<open>
  \<^verbatim>\<open>crates/operations/src/reconcile.rs\<close>: the reaper, which ends as failed an operation that nobody
  has said anything about. The candidates are read without a lock and each is looked at again under
  the lock in its own transaction; \<open>meanwhile\<close> is what other transactions commit in between.
\<close>

definition stale_error_code :: string where
  "stale_error_code = ''platform.operation.stale''"

definition stale_message :: string where
  "stale_message = ''No updates were received for this operation, so it was marked failed. You can submit the request again.''"

record reconcile_report =
  rc_reconciled :: int
  rc_skipped :: int

text \<open>The newest observed fact: \<^verbatim>\<open>greatest(status_changed_at, max(observed_at))\<close>.\<close>

definition newest_fact :: "db \<Rightarrow> operation_row \<Rightarrow> instant" where
  "newest_fact d r = fold max (map pr_observed_at (filter (\<lambda>p. pr_operation p = op_id r) (t_progress d)))
     (op_status_changed_at r)"

definition is_stale :: "db \<Rightarrow> instant \<Rightarrow> operation_row \<Rightarrow> bool" where
  "is_stale d cutoff r \<longleftrightarrow> op_terminated_at r = None
     \<and> op_status r \<in> {''accepted'', ''queued'', ''running''} \<and> newest_fact d r < cutoff"

definition stale_candidates :: "db \<Rightarrow> instant \<Rightarrow> nat \<Rightarrow> uuid list" where
  "stale_candidates d cutoff batch =
     map op_id (take batch (sort_key (\<lambda>r. (op_status_changed_at r, op_id r))
       (filter (is_stale d cutoff) (t_operations d))))"

definition reconcile_one ::
  "contracts \<Rightarrow> db \<Rightarrow> uuid \<Rightarrow> uuid \<Rightarrow> uuid \<Rightarrow> instant \<Rightarrow> instant \<Rightarrow> operation_error + bool \<times> db" where
  "reconcile_one c d p k i cutoff now =
     (case fetch_optional (\<lambda>r. op_id r = i \<and> is_stale d cutoff r) (t_operations d) of
        None \<Rightarrow> Inr (False, d)
      | Some _ \<Rightarrow>
          bindE (record_status d p i Failed None None (Some stale_message) now) (\<lambda>(_, d1).
          bindE (contract_checked (new_error c stale_error_code stale_message True)) (\<lambda>err.
          bindE (record_error d1 k i err now) (\<lambda>d2. Inr (True, d2)))))"

fun reconcile_loop ::
  "contracts \<Rightarrow> (nat \<Rightarrow> uuid) \<Rightarrow> (nat \<Rightarrow> db \<Rightarrow> db) \<Rightarrow> instant \<Rightarrow> instant \<Rightarrow> nat \<Rightarrow> uuid list
     \<Rightarrow> reconcile_report \<Rightarrow> db \<Rightarrow> (operation_error + reconcile_report) \<times> db" where
  "reconcile_loop c ids meanwhile cutoff now n [] report d = (Inr report, d)"
| "reconcile_loop c ids meanwhile cutoff now n (i # rest) report d =
     (let d = meanwhile n d
      in case reconcile_one c d (ids (2 * n)) (ids (2 * n + 1)) i cutoff now of
           Inl e \<Rightarrow> (Inl e, d)
         | Inr (True, d') \<Rightarrow> reconcile_loop c ids meanwhile cutoff now (Suc n) rest
             (report\<lparr>rc_reconciled := rc_reconciled report + 1\<rparr>) d'
         | Inr (False, d') \<Rightarrow> reconcile_loop c ids meanwhile cutoff now (Suc n) rest
             (report\<lparr>rc_skipped := rc_skipped report + 1\<rparr>) d')"

definition reconcile_run ::
  "contracts \<Rightarrow> (nat \<Rightarrow> uuid) \<Rightarrow> (nat \<Rightarrow> db \<Rightarrow> db) \<Rightarrow> db \<Rightarrow> int \<Rightarrow> nat \<Rightarrow> instant
     \<Rightarrow> (operation_error + reconcile_report) \<times> db" where
  "reconcile_run c ids meanwhile d stale_after batch now =
     (let cutoff = now - stale_after
      in reconcile_loop c ids meanwhile cutoff now 0 (stale_candidates d cutoff batch)
           \<lparr>rc_reconciled = 0, rc_skipped = 0\<rparr> d)"

subsection \<open>One operation\<close>

lemma newest_fact_ge: "op_status_changed_at r \<le> newest_fact d r"
  unfolding newest_fact_def
  by (simp add: Max.set_eq_fold [symmetric])

lemma newest_fact_progress:
  "p \<in> set (t_progress d) \<Longrightarrow> pr_operation p = op_id r \<Longrightarrow> pr_observed_at p \<le> newest_fact d r"
  unfolding newest_fact_def
  by (simp add: Max.set_eq_fold [symmetric])

lemma stale_status: "is_stale d cutoff r \<Longrightarrow> status_from_str (op_status r) \<in> {Some Accepted, Some Queued, Some Running}"
  by (auto simp: is_stale_def status_from_str_def)

lemma reconcile_one_True:
  assumes "reconcile_one c d p k i cutoff now = Inr (True, d')"
  obtains r tr op d1 err where "r \<in> set (t_operations d)" and "op_id r = i" and "is_stale d cutoff r"
    and "record_status d p i Failed None None (Some stale_message) now = Inr ((tr, op), d1)"
    and "new_error c stale_error_code stale_message True = Inr err"
    and "record_error d1 k i err now = Inr d'"
  using assms
  by (auto simp: reconcile_one_def contract_checked_def split: option.splits dest!: fetch_optional_SomeD)

lemma reconcile_one_ok: "reconcile_one c d p k i cutoff now = Inr (b, d') \<Longrightarrow> db_ok d \<Longrightarrow> db_ok d'"
  by (auto simp: reconcile_one_def intro: record_status_ok record_error_ok split: option.splits)

lemma reconcile_one_lifecycle:
  assumes "reconcile_one c d p k i cutoff now = Inr (b, d')" and "db_ok d"
  shows "if b then lifecycle d i \<in> {Some Accepted, Some Queued, Some Running}
           \<and> (\<forall>j. lifecycle d' j = (if j = i then Some Failed else lifecycle d j))
         else d' = d"
proof (cases b)
  case False
  with assms show ?thesis by (auto simp: reconcile_one_def split: option.splits)
next
  case True
  with assms(1) have run: "reconcile_one c d p k i cutoff now = Inr (True, d')" by simp
  obtain r tr op d1 err where r: "r \<in> set (t_operations d)" "op_id r = i" "is_stale d cutoff r"
    and rs: "record_status d p i Failed None None (Some stale_message) now = Inr ((tr, op), d1)"
    and re: "record_error d1 k i err now = Inr d'"
    using reconcile_one_True [OF run] by metis
  have "fetch_optional (\<lambda>r. op_id r = i) (t_operations d) = Some r"
    using ops_table.fetch_key [OF db_okD(1) [OF assms(2)]] r(1,2) by blast
  then have life: "lifecycle d i \<in> {Some Accepted, Some Queued, Some Running}"
    using stale_status [OF r(3)] by (simp add: lifecycle_def)
  obtain cur where cur: "lifecycle d i = Some cur"
    "\<And>j. lifecycle d1 j = (if j = i then Some (absorb Failed cur) else lifecycle d j)"
    using record_status_lifecycle [OF rs] by blast
  have "absorb Failed cur = Failed" using life cur(1) by (auto simp: absorb_eq terminal_rank_def)
  with True life cur(2) show ?thesis by (simp add: record_error_lifecycle [OF re])
qed

text \<open>What ending writes beside the status: one progress entry and one error row.\<close>

lemma reconcile_one_writes:
  assumes "db_ok d" and "reconcile_one c d p k i cutoff now = Inr (True, d')"
  shows "\<exists>err. new_error c stale_error_code stale_message True = Inr err
     \<and> t_progress d' = t_progress d @ [progress_of p i Failed None None (Some stale_message) now]
     \<and> t_errors d' = t_errors d @ [\<lparr>er_id = k, er_operation = i, er_severity = ''error'',
          er_code = json_text ''code'' (ee_value err), er_message = json_text ''message'' (ee_value err),
          er_retryable = (case json_bool ''retryable'' (ee_value err) of Some b \<Rightarrow> b | None \<Rightarrow> False),
          er_payload = ee_value err, er_recorded_at = now\<rparr>]"
proof -
  obtain r tr op d1 err where r: "r \<in> set (t_operations d)" "op_id r = i" "is_stale d cutoff r"
    and rs: "record_status d p i Failed None None (Some stale_message) now = Inr ((tr, op), d1)"
    and err: "new_error c stale_error_code stale_message True = Inr err"
    and re: "record_error d1 k i err now = Inr d'"
    using reconcile_one_True [OF assms(2)] by metis
  obtain cur where cur: "find_operation d i = Inr (Some cur)" "tr = transition_apply (o_status cur) Failed"
    and out: "(tr = Duplicate \<or> tr = Stale) \<and> d1 = d
       \<or> d1 = advanced_db d p i Failed None None (Some stale_message) now"
    using record_status_Inr [OF rs] by blast
  have "fetch_optional (\<lambda>r. op_id r = i) (t_operations d) = Some r"
    using ops_table.fetch_key [OF db_okD(1) [OF assms(1)]] r(1,2) by blast
  then have "operation_from_row r = Inr cur" using cur(1) by (auto simp: find_operation_def split: sum.splits)
  then have "o_status cur \<in> {Accepted, Queued, Running}"
    using stale_status [OF r(3)] by (auto simp: operation_from_row_def split: option.splits sum.splits if_splits)
  then have "tr = Advance Failed" unfolding cur(2) by (auto simp: transition_apply_def terminal_rank_def)
  with out have d1: "d1 = advanced_db d p i Failed None None (Some stale_message) now" by simp
  show ?thesis
    using re err unfolding d1
    by (auto simp: record_error_def insert_diagnostic_def sql_insert_Inr advanced_db_def split: if_splits)
qed

text \<open>
  C35: the reaper ends only silent operations. When it ends one, at the moment of the lock every
  observed fact about it (its last status change and every progress entry) was older than the
  cut-off and it had no outcome; it becomes failed, with one progress entry and one error row that carries the
  contract's envelope of the code \<^verbatim>\<open>platform.operation.stale\<close>, its message and the retryable flag, and no other
  operation moves. When it does not, nothing is written.
\<close>

theorem reaper_ends_only_silent_operations:
  assumes "db_ok d" and "reconcile_one c d p k i cutoff now = Inr (ended, d')"
  shows "if ended
     then (\<exists>r \<in> set (t_operations d). op_id r = i \<and> op_status_changed_at r < cutoff)
       \<and> (\<forall>q \<in> set (t_progress d). pr_operation q = i \<longrightarrow> pr_observed_at q < cutoff)
       \<and> lifecycle d i \<in> {Some Accepted, Some Queued, Some Running}
       \<and> lifecycle d' = (lifecycle d)(i := Some Failed)
       \<and> (\<exists>err. new_error c ''platform.operation.stale''
              ''No updates were received for this operation, so it was marked failed. You can submit the request again.'' True
              = Inr err
            \<and> t_progress d' = t_progress d @ [progress_of p i Failed None None
                (Some ''No updates were received for this operation, so it was marked failed. You can submit the request again.'') now]
            \<and> t_errors d' = t_errors d @ [\<lparr>er_id = k, er_operation = i, er_severity = ''error'',
                er_code = json_text ''code'' (ee_value err), er_message = json_text ''message'' (ee_value err),
                er_retryable = (case json_bool ''retryable'' (ee_value err) of Some b \<Rightarrow> b | None \<Rightarrow> False),
                er_payload = ee_value err, er_recorded_at = now\<rparr>])
     else d' = d"
proof (cases ended)
  case False
  then show ?thesis using reconcile_one_lifecycle [OF assms(2,1)] by simp
next
  case True
  with assms(2) have run: "reconcile_one c d p k i cutoff now = Inr (True, d')" by simp
  obtain r where r: "r \<in> set (t_operations d)" "op_id r = i" "is_stale d cutoff r"
    using reconcile_one_True [OF run] by metis
  have "op_status_changed_at r < cutoff"
    using r(3) newest_fact_ge [of r d] by (simp add: is_stale_def)
  moreover have "pr_observed_at q < cutoff" if "q \<in> set (t_progress d)" "pr_operation q = i" for q
    using r(2,3) newest_fact_progress [of q d r] that by (simp add: is_stale_def)
  moreover have "lifecycle d i \<in> {Some Accepted, Some Queued, Some Running}" "lifecycle d' = (lifecycle d)(i := Some Failed)"
    using True reconcile_one_lifecycle [OF assms(2,1)] by (auto simp: fun_eq_iff)
  ultimately show ?thesis
    unfolding eqTrueI [OF True] if_True
    using r reconcile_one_writes [OF assms(1) run, unfolded stale_error_code_def stale_message_def] by blast
qed

subsection \<open>A pass\<close>

text \<open>Ending one operation leaves the rows and the facts of every other one.\<close>

lemma record_error_rows:
  assumes "record_error d k i err now = Inr d'"
  shows "t_progress d' = t_progress d"
    and "r \<in> set (t_operations d) \<Longrightarrow> op_id r \<noteq> i \<Longrightarrow> r \<in> set (t_operations d')"
  using assms
  by (auto simp: record_error_def insert_diagnostic_def sql_update_Inr set_update_where split: if_splits)

lemma reconcile_one_others:
  assumes "reconcile_one c d p k i cutoff now = Inr (b, d')" and "r \<in> set (t_operations d)" and "op_id r \<noteq> i"
  shows "r \<in> set (t_operations d') \<and> newest_fact d' r = newest_fact d r"
proof (cases b)
  case False
  with assms show ?thesis by (auto simp: reconcile_one_def split: option.splits)
next
  case True
  with assms(1) have run: "reconcile_one c d p k i cutoff now = Inr (True, d')" by simp
  obtain tr op d1 err where rs: "record_status d p i Failed None None (Some stale_message) now = Inr ((tr, op), d1)"
    and re: "record_error d1 k i err now = Inr d'"
    using reconcile_one_True [OF run] by metis
  have d1: "d1 = d \<or> d1 = advanced_db d p i Failed None None (Some stale_message) now"
    using record_status_Inr [OF rs] by blast
  have mem: "r \<in> set (t_operations d1)"
    using d1 assms(2,3) by (auto simp: advanced_db_def set_update_where)
  have "filter (\<lambda>p. pr_operation p = op_id r) (t_progress d1) = filter (\<lambda>p. pr_operation p = op_id r) (t_progress d)"
    using d1 assms(3) by (auto simp: advanced_db_def progress_of_def)
  then have "newest_fact d' r = newest_fact d r"
    by (simp add: newest_fact_def record_error_rows(1) [OF re])
  with record_error_rows(2) [OF re mem assms(3)] show ?thesis by simp
qed

lemma candidates:
  assumes "db_ok d"
  shows "distinct (stale_candidates d cutoff batch)"
    and "i \<in> set (stale_candidates d cutoff batch) \<Longrightarrow> \<exists>r \<in> set (t_operations d). op_id r = i \<and> is_stale d cutoff r"
    and "length (stale_candidates d cutoff batch) = min batch (length (filter (is_stale d cutoff) (t_operations d)))"
proof -
  let ?s = "sort_key (\<lambda>r. (op_status_changed_at r, op_id r)) (filter (is_stale d cutoff) (t_operations d))"
  have "distinct (map op_id (filter (is_stale d cutoff) (t_operations d)))"
    using ops_table.distinct_keys [OF db_okD(1) [OF assms]] by (rule distinct_map_filter)
  then have "distinct (map op_id ?s)" by (simp add: distinct_map)
  then show "distinct (stale_candidates d cutoff batch)"
    by (simp add: stale_candidates_def take_map [symmetric])
  show "\<exists>r \<in> set (t_operations d). op_id r = i \<and> is_stale d cutoff r" if "i \<in> set (stale_candidates d cutoff batch)"
  proof -
    have "i \<in> op_id ` set (take batch ?s)" using that by (simp add: stale_candidates_def)
    then obtain r where "r \<in> set (take batch ?s)" "op_id r = i" by auto
    then have "r \<in> set ?s" "op_id r = i" by (auto dest: in_set_takeD)
    then show ?thesis by auto
  qed
  show "length (stale_candidates d cutoff batch) = min batch (length (filter (is_stale d cutoff) (t_operations d)))"
    by (simp add: stale_candidates_def min.commute)
qed

lemma reconcile_loop_undisturbed:
  assumes "reconcile_loop c ids (\<lambda>_ d. d) cutoff now n es report d = (Inr report', d')" and "db_ok d" and "distinct es"
    and "\<forall>i \<in> set es. \<exists>r \<in> set (t_operations d). op_id r = i \<and> is_stale d cutoff r"
  shows "db_ok d' \<and> rc_reconciled report' = rc_reconciled report + int (length es)
    \<and> rc_skipped report' = rc_skipped report
    \<and> (\<forall>j. lifecycle d' j = (if j \<in> set es then Some Failed else lifecycle d j))"
  using assms
proof (induction es arbitrary: n report d)
  case Nil
  then show ?case by simp
next
  case (Cons i es)
  obtain r where r: "r \<in> set (t_operations d)" "op_id r = i" "is_stale d cutoff r" using Cons.prems(4) by auto
  then have "fetch_optional (\<lambda>r. op_id r = i \<and> is_stale d cutoff r) (t_operations d) \<noteq> None"
    by (auto simp: fetch_optional_None)
  then obtain d1 where one: "reconcile_one c d (ids (2 * n)) (ids (2 * n + 1)) i cutoff now = Inr (True, d1)"
    and loop: "reconcile_loop c ids (\<lambda>_ d. d) cutoff now (Suc n) es
      (report\<lparr>rc_reconciled := rc_reconciled report + 1\<rparr>) d1 = (Inr report', d')"
    using Cons.prems(1)
    by (auto simp: Let_def split: sum.splits prod.splits bool.splits)
      (auto simp: reconcile_one_def split: option.splits)
  note life = reconcile_one_lifecycle [OF one Cons.prems(2)]
  have still: "\<forall>j \<in> set es. \<exists>r \<in> set (t_operations d1). op_id r = j \<and> is_stale d1 cutoff r"
  proof
    fix j
    assume j: "j \<in> set es"
    then obtain x where x: "x \<in> set (t_operations d)" "op_id x = j" "is_stale d cutoff x"
      using Cons.prems(4) by auto
    have "op_id x \<noteq> i" using j x(2) Cons.prems(3) by auto
    from reconcile_one_others [OF one x(1) this] x(2,3)
    show "\<exists>r \<in> set (t_operations d1). op_id r = j \<and> is_stale d1 cutoff r"
      by (auto simp: is_stale_def)
  qed
  have "distinct es" using Cons.prems(3) by simp
  from Cons.IH [OF loop reconcile_one_ok [OF one Cons.prems(2)] this still] life
  show ?case by auto
qed

text \<open>
  A pass that ran with nobody in between ended exactly the operations it selected: as many as
  the batch allows of those with no newer fact than the cut-off, none skipped, every one failed,
  every other operation's status untouched.
\<close>

lemma reaper_pass_ends_what_it_selected:
  assumes "db_ok d" and "reconcile_run c ids (\<lambda>_ d. d) d stale_after batch now = (Inr report, d')"
  shows "db_ok d' \<and> rc_skipped report = 0
    \<and> rc_reconciled report
        = int (min batch (length (filter (is_stale d (now - stale_after)) (t_operations d))))
    \<and> (\<forall>j. lifecycle d' j = (if j \<in> set (stale_candidates d (now - stale_after) batch) then Some Failed
           else lifecycle d j))"
proof -
  note cand = candidates [OF assms(1)]
  have loop: "reconcile_loop c ids (\<lambda>_ d. d) (now - stale_after) now 0
      (stale_candidates d (now - stale_after) batch) \<lparr>rc_reconciled = 0, rc_skipped = 0\<rparr> d = (Inr report, d')"
    using assms(2) by (simp add: reconcile_run_def Let_def)
  have "\<forall>i \<in> set (stale_candidates d (now - stale_after) batch).
      \<exists>r \<in> set (t_operations d). op_id r = i \<and> is_stale d (now - stale_after) r"
    using cand(2) by blast
  from reconcile_loop_undisturbed [OF loop assms(1) cand(1) this] show ?thesis by (simp add: cand(3))
qed

subsection \<open>The properties at concrete inputs\<close>

theorem reaper_ends_only_silent_operations_witness:
  "\<exists>d'. reconcile_one demo_contracts (demo_db ''running'') 7 8 1 50 60 = Inr (True, d')
     \<and> lifecycle d' = (lifecycle (demo_db ''running''))(1 := Some Failed)"
proof -
  have "case reconcile_one demo_contracts (demo_db ''running'') 7 8 1 50 60 of
      Inr (b, d') \<Rightarrow> b | Inl _ \<Rightarrow> False" by code_simp
  then obtain d' where r: "reconcile_one demo_contracts (demo_db ''running'') 7 8 1 50 60 = Inr (True, d')"
    by (auto split: sum.splits)
  have "db_ok (demo_db ''running'')" by code_simp
  from reaper_ends_only_silent_operations [OF this r] r show ?thesis by auto
qed

end
