(* ===== verification/Outbox.thy ===== *)
theory Outbox
  imports Delivery
begin

text \<open>
  \<^verbatim>\<open>crates/eventing/src/outbox.rs\<close> and \<^verbatim>\<open>pump.rs\<close>: enqueuing in the caller's transaction,
  claiming due rows under a lease, recording what publishing them did, and the pass that does it.
  Each statement of the pass commits on its own, so a pass returns the database it reached even
  when it ends in an error. A character is one byte, so \<open>chars().count()\<close> is \<open>length\<close>.
\<close>

definition claim_lease_seconds :: int where
  "claim_lease_seconds = 30"

definition max_backoff_seconds :: int where
  "max_backoff_seconds = 300"

definition max_attempts :: int where
  "max_attempts = 12"

record claimed_message =
  cm_outbox :: uuid
  cm_message :: uuid
  cm_subject :: subject
  cm_payload :: json
  cm_attempts :: int

record outbox_stats =
  os_pending :: nat
  os_dead_lettered :: nat
  os_oldest_age :: int

subsection \<open>Enqueuing\<close>

definition outbox_row_of ::
  "uuid \<Rightarrow> uuid \<Rightarrow> subject \<Rightarrow> json \<Rightarrow> int \<Rightarrow> uuid option \<Rightarrow> instant \<Rightarrow> outbox_row" where
  "outbox_row_of k message_id subj payload len operation now =
     \<lparr>ob_id = k, ob_message = message_id, ob_subject = subject_str subj, ob_payload = payload,
      ob_payload_len = len, ob_operation = operation, ob_enqueued_at = now,
      ob_next_attempt_at = now, ob_attempts = 0, ob_claimed_until = None, ob_claimed_by = None,
      ob_published_at = None, ob_last_error = None, ob_dead_lettered_at = None\<rparr>"

text \<open>\<open>k\<close> is \<open>Uuid::now_v7()\<close> and \<open>octets\<close> gives \<^verbatim>\<open>octet_length(payload::text)\<close>.\<close>

definition enqueue ::
  "(json \<Rightarrow> int) \<Rightarrow> db \<Rightarrow> uuid \<Rightarrow> uuid \<Rightarrow> subject \<Rightarrow> json \<Rightarrow> uuid option \<Rightarrow> instant
     \<Rightarrow> eventing_error + bool \<times> db" where
  "enqueue octets d k message_id subj payload operation now =
     bindE (stored
       (bindE (sql_insert_or_ignore outbox_ok outbox_message_clash outbox_clash
                 (outbox_row_of k message_id subj payload (octets payload) operation now) (t_outbox d))
         (\<lambda>(inserted, t).
            if inserted \<and> \<not> (case operation of None \<Rightarrow> True | Some i \<Rightarrow> operation_exists d i)
            then Inl Foreign_key_violation
            else Inr (inserted, t))))
       (\<lambda>(inserted, t). Inr (inserted, d\<lparr>t_outbox := t\<rparr>))"

subsection \<open>Claiming\<close>

definition claimable :: "instant \<Rightarrow> outbox_row \<Rightarrow> bool" where
  "claimable now r \<longleftrightarrow> ob_published_at r = None \<and> ob_dead_lettered_at r = None
     \<and> ob_next_attempt_at r \<le> now
     \<and> (case ob_claimed_until r of None \<Rightarrow> True | Some t \<Rightarrow> t \<le> now)"

definition claimed_row :: "string \<Rightarrow> instant \<Rightarrow> outbox_row \<Rightarrow> outbox_row" where
  "claimed_row by_whom until r = r\<lparr>ob_claimed_until := Some until, ob_claimed_by := Some by_whom\<rparr>"

definition claimed_message_of :: "outbox_row \<Rightarrow> eventing_error + claimed_message" where
  "claimed_message_of r =
     bindE (subject_parse (ob_subject r)) (\<lambda>s. Inr
       \<lparr>cm_outbox = ob_id r, cm_message = ob_message r, cm_subject = s,
        cm_payload = ob_payload r, cm_attempts = ob_attempts r\<rparr>)"

text \<open>
  \<open>locked\<close> says which rows other transactions hold (\<^verbatim>\<open>skip locked\<close>), and \<open>scan\<close> the order in
  which PostgreSQL meets the rows, which decides between rows of equal order and the order in which
  the update returns them.
\<close>

definition due_ids ::
  "(outbox_row list \<Rightarrow> outbox_row list) \<Rightarrow> (uuid \<Rightarrow> bool) \<Rightarrow> nat \<Rightarrow> instant \<Rightarrow> outbox_row list \<Rightarrow> uuid list" where
  "due_ids scan locked limit now t =
     map ob_id (take limit (sort_key (\<lambda>r. (ob_next_attempt_at r, ob_enqueued_at r))
       (filter (\<lambda>r. claimable now r \<and> \<not> locked (ob_id r)) (scan t))))"

definition claim ::
  "(outbox_row list \<Rightarrow> outbox_row list) \<Rightarrow> (uuid \<Rightarrow> bool) \<Rightarrow> db \<Rightarrow> string \<Rightarrow> nat \<Rightarrow> instant
     \<Rightarrow> (eventing_error + claimed_message list) \<times> db" where
  "claim scan locked d claimed_by limit now =
     (let lease_until = now + seconds claim_lease_seconds;
          due = due_ids scan locked limit now (t_outbox d)
      in case stored (sql_update (\<lambda>_. outbox_ok) outbox_clash (\<lambda>r. ob_id r \<in> set due)
                 (claimed_row claimed_by lease_until) (t_outbox d)) of
           Inl e \<Rightarrow> (Inl e, d)
         | Inr t \<Rightarrow>
             (sequenceE (map claimed_message_of (filter (\<lambda>r. ob_id r \<in> set due) (scan (t_outbox d)))),
              d\<lparr>t_outbox := t\<rparr>))"

subsection \<open>Recording an attempt\<close>

definition published_row :: "instant \<Rightarrow> outbox_row \<Rightarrow> outbox_row" where
  "published_row now r = r\<lparr>ob_published_at := Some now, ob_claimed_until := None,
     ob_claimed_by := None, ob_last_error := None\<rparr>"

definition mark_published :: "db \<Rightarrow> uuid \<Rightarrow> instant \<Rightarrow> eventing_error + db" where
  "mark_published d k now =
     bindE (stored (sql_update (\<lambda>_. outbox_ok) outbox_clash (\<lambda>r. ob_id r = k) (published_row now)
              (t_outbox d)))
       (\<lambda>t. Inr (d\<lparr>t_outbox := t\<rparr>))"

definition is_whitespace :: "char \<Rightarrow> bool" where
  "is_whitespace c \<longleftrightarrow> (9 \<le> byte c \<and> byte c \<le> 13) \<or> byte c = 32"

definition trim :: "string \<Rightarrow> string" where
  "trim s = rev (dropWhile is_whitespace (rev (dropWhile is_whitespace s)))"

text \<open>Fit an arbitrary error chain into the column's rule: one line, at most 200 characters.\<close>

definition safe_error :: "string \<Rightarrow> string" where
  "safe_error error =
     (let single_line = map (\<lambda>c. if line_break c then CHR '' '' else c) error;
          trimmed = trim single_line
      in if length trimmed \<le> 200 then trimmed else take 197 trimmed @ ''...'')"

definition backoff :: "int \<Rightarrow> int" where
  "backoff attempts = min max_backoff_seconds (2 ^ nat (min attempts 20))"

definition failed_row :: "string \<Rightarrow> instant \<Rightarrow> outbox_row \<Rightarrow> outbox_row" where
  "failed_row safe now r = r\<lparr>ob_attempts := ob_attempts r + 1, ob_last_error := Some safe,
     ob_claimed_until := None, ob_claimed_by := None,
     ob_next_attempt_at := now + seconds (backoff (ob_attempts r)),
     ob_dead_lettered_at := (if max_attempts \<le> ob_attempts r + 1 then Some now else None)\<rparr>"

definition mark_failed :: "db \<Rightarrow> uuid \<Rightarrow> string \<Rightarrow> instant \<Rightarrow> eventing_error + bool \<times> db" where
  "mark_failed d k error now =
     bindE (stored (sql_update (\<lambda>_. outbox_ok) outbox_clash (\<lambda>r. ob_id r = k)
              (failed_row (safe_error error) now) (t_outbox d)))
       (\<lambda>t. Inr (case fetch_optional (\<lambda>r. ob_id r = k) t of
                   None \<Rightarrow> False | Some r \<Rightarrow> ob_dead_lettered_at r \<noteq> None,
                 d\<lparr>t_outbox := t\<rparr>))"

subsection \<open>Looking and collecting\<close>

definition pending :: "outbox_row \<Rightarrow> bool" where
  "pending r \<longleftrightarrow> ob_published_at r = None \<and> ob_dead_lettered_at r = None"

text \<open>\<^verbatim>\<open>::bigint\<close> of the age rounds to the nearest second, ties away from zero.\<close>

definition round_seconds :: "int \<Rightarrow> int" where
  "round_seconds us = (if 0 \<le> us then (us + 500000) div 1000000 else - ((500000 - us) div 1000000))"

definition stats :: "db \<Rightarrow> instant \<Rightarrow> outbox_stats" where
  "stats d now =
     \<lparr>os_pending = rows_affected pending (t_outbox d),
      os_dead_lettered = rows_affected (\<lambda>r. ob_dead_lettered_at r \<noteq> None) (t_outbox d),
      os_oldest_age = (case map ob_enqueued_at (filter pending (t_outbox d)) of
                         [] \<Rightarrow> 0
                       | t # ts \<Rightarrow> round_seconds (now - fold min ts t))\<rparr>"

definition outbox_collectable :: "instant \<Rightarrow> outbox_row \<Rightarrow> bool" where
  "outbox_collectable before r \<longleftrightarrow> (case ob_published_at r of None \<Rightarrow> False | Some t \<Rightarrow> t < before)"

definition collect_published ::
  "(outbox_row list \<Rightarrow> outbox_row list) \<Rightarrow> db \<Rightarrow> instant \<Rightarrow> nat \<Rightarrow> nat \<times> db" where
  "collect_published scan d before limit =
     (let (n, t) = delete_limited scan ob_id (outbox_collectable before) limit (t_outbox d)
      in (n, d\<lparr>t_outbox := t\<rparr>))"

definition claim_expiry :: "db \<Rightarrow> uuid \<Rightarrow> instant option" where
  "claim_expiry d k = Option.bind (fetch_optional (\<lambda>r. ob_id r = k) (t_outbox d)) ob_claimed_until"

subsection \<open>One pass of the pump\<close>

datatype publish_error = NotAcknowledged | Credential

fun publish_error_text :: "publish_error \<Rightarrow> string" where
  "publish_error_text NotAcknowledged = ''the message was not acknowledged by the bus''"
| "publish_error_text Credential = ''the bus credential could not be read''"

text \<open>
  The bus is a state \<open>'w\<close> and \<open>publish\<close> what it does with one message; \<open>to_vec\<close> is the serializer.
\<close>

type_synonym 'w publisher = "'w \<Rightarrow> subject \<Rightarrow> string \<Rightarrow> uuid \<Rightarrow> (publish_error + unit) \<times> 'w"

record pump_report =
  pm_claimed :: nat
  pm_published :: nat
  pm_failed :: nat
  pm_dead_lettered :: nat

definition pump_failed ::
  "db \<Rightarrow> uuid \<Rightarrow> string \<Rightarrow> instant \<Rightarrow> pump_report \<Rightarrow> (eventing_error + pump_report) \<times> db" where
  "pump_failed d k error now report =
     (let report = report\<lparr>pm_failed := pm_failed report + 1\<rparr>
      in case mark_failed d k error now of
           Inl e \<Rightarrow> (Inl e, d)
         | Inr (dead, d') \<Rightarrow>
             (Inr (if dead then report\<lparr>pm_dead_lettered := pm_dead_lettered report + 1\<rparr> else report), d'))"

fun pump_loop ::
  "'w publisher \<Rightarrow> (json \<Rightarrow> string + string) \<Rightarrow> instant \<Rightarrow> claimed_message list \<Rightarrow> pump_report
     \<Rightarrow> db \<Rightarrow> 'w \<Rightarrow> (eventing_error + pump_report) \<times> db \<times> 'w" where
  "pump_loop publish to_vec now [] report d w = (Inr report, d, w)"
| "pump_loop publish to_vec now (message # rest) report d w =
     (case to_vec (cm_payload message) of
        Inl error \<Rightarrow>
          (case pump_failed d (cm_outbox message) error now report of
             (Inl e, d') \<Rightarrow> (Inl e, d', w)
           | (Inr report', d') \<Rightarrow> pump_loop publish to_vec now rest report' d' w)
      | Inr body \<Rightarrow>
          (case publish w (cm_subject message) body (cm_message message) of
             (Inr _, w') \<Rightarrow>
               (case mark_published d (cm_outbox message) now of
                  Inl e \<Rightarrow> (Inl e, d, w')
                | Inr d' \<Rightarrow> pump_loop publish to_vec now rest
                    (report\<lparr>pm_published := pm_published report + 1\<rparr>) d' w')
           | (Inl error, w') \<Rightarrow>
               (case pump_failed d (cm_outbox message) (publish_error_text error) now report of
                  (Inl e, d') \<Rightarrow> (Inl e, d', w')
                | (Inr report', d') \<Rightarrow> pump_loop publish to_vec now rest report' d' w')))"

definition run_once ::
  "(outbox_row list \<Rightarrow> outbox_row list) \<Rightarrow> (uuid \<Rightarrow> bool) \<Rightarrow> 'w publisher \<Rightarrow> (json \<Rightarrow> string + string)
     \<Rightarrow> db \<Rightarrow> 'w \<Rightarrow> string \<Rightarrow> nat \<Rightarrow> instant \<Rightarrow> (eventing_error + pump_report) \<times> db \<times> 'w" where
  "run_once scan locked publish to_vec d w claimed_by limit now =
     (case claim scan locked d claimed_by limit now of
        (Inl e, d') \<Rightarrow> (Inl e, d', w)
      | (Inr claimed, d') \<Rightarrow>
          pump_loop publish to_vec now claimed
            \<lparr>pm_claimed = length claimed, pm_published = 0, pm_failed = 0, pm_dead_lettered = 0\<rparr> d' w)"

subsection \<open>Reading a row back\<close>

definition outbox_at :: "db \<Rightarrow> uuid \<Rightarrow> outbox_row option" where
  "outbox_at d k = fetch_optional (\<lambda>r. ob_id r = k) (t_outbox d)"

lemma outbox_at_iff: "db_ok d \<Longrightarrow> outbox_at d k = Some r \<longleftrightarrow> r \<in> set (t_outbox d) \<and> ob_id r = k"
  unfolding outbox_at_def by (rule outbox_table.fetch_key) (rule db_okD)

lemma claimed_row_simps [simp]:
  "ob_id (claimed_row w u r) = ob_id r" "ob_message (claimed_row w u r) = ob_message r"
  "outbox_clash (claimed_row w u r) x = outbox_clash r x"
  by (simp_all add: claimed_row_def outbox_clash_def outbox_message_clash_def)

lemma published_row_simps [simp]:
  "ob_id (published_row now r) = ob_id r" "ob_message (published_row now r) = ob_message r"
  "outbox_clash (published_row now r) x = outbox_clash r x"
  by (simp_all add: published_row_def outbox_clash_def outbox_message_clash_def)

lemma failed_row_simps [simp]:
  "ob_id (failed_row e now r) = ob_id r" "ob_message (failed_row e now r) = ob_message r"
  "outbox_clash (failed_row e now r) x = outbox_clash r x"
  by (simp_all add: failed_row_def outbox_clash_def outbox_message_clash_def)

lemma outbox_update_ok:
  "sql_update (\<lambda>_. outbox_ok) outbox_clash q f (t_outbox d) = Inr t \<Longrightarrow> db_ok d \<Longrightarrow> db_ok (d\<lparr>t_outbox := t\<rparr>)"
  by (auto intro: outbox_table.update_ok db_okD(6))

lemma outbox_at_update:
  assumes "\<And>r. ob_id (f r) = ob_id r"
  shows "outbox_at (d\<lparr>t_outbox := update_where q f (t_outbox d)\<rparr>) k
    = map_option (\<lambda>r. if q r then f r else r) (outbox_at d k)"
  by (simp add: outbox_at_def fetch_update_where assms)

lemma mark_published_Inr:
  assumes "mark_published d k now = Inr d'"
  shows "db_ok d \<Longrightarrow> db_ok d'"
    and "outbox_at d' j = (if j = k then map_option (published_row now) (outbox_at d k) else outbox_at d j)"
    and "t_operations d' = t_operations d"
proof -
  obtain t where t: "sql_update (\<lambda>_. outbox_ok) outbox_clash (\<lambda>r. ob_id r = k) (published_row now) (t_outbox d) = Inr t"
    "d' = d\<lparr>t_outbox := t\<rparr>"
    using assms by (auto simp: mark_published_def)
  show "db_ok d \<Longrightarrow> db_ok d'" using outbox_update_ok [OF t(1)] t(2) by simp
  have "t = update_where (\<lambda>r. ob_id r = k) (published_row now) (t_outbox d)"
    using t(1) by (simp add: sql_update_Inr)
  then have "outbox_at d' j = map_option (\<lambda>r. if ob_id r = k then published_row now r else r) (outbox_at d j)"
    using t(2) by (simp add: outbox_at_update)
  then show "outbox_at d' j = (if j = k then map_option (published_row now) (outbox_at d k) else outbox_at d j)"
    by (cases "outbox_at d j") (auto simp: outbox_at_def dest: fetch_optional_SomeD)
  show "t_operations d' = t_operations d" using t(2) by simp
qed

lemma mark_failed_Inr:
  assumes "mark_failed d k error now = Inr (dead, d')"
  shows "db_ok d \<Longrightarrow> db_ok d'"
    and "outbox_at d' j = (if j = k then map_option (failed_row (safe_error error) now) (outbox_at d k)
       else outbox_at d j)"
    and "dead \<longleftrightarrow> (\<exists>r. outbox_at d' k = Some r \<and> ob_dead_lettered_at r \<noteq> None)"
    and "t_operations d' = t_operations d"
proof -
  let ?f = "failed_row (safe_error error) now"
  obtain t where t: "sql_update (\<lambda>_. outbox_ok) outbox_clash (\<lambda>r. ob_id r = k) ?f (t_outbox d) = Inr t"
    "d' = d\<lparr>t_outbox := t\<rparr>"
    "dead = (case fetch_optional (\<lambda>r. ob_id r = k) t of None \<Rightarrow> False | Some r \<Rightarrow> ob_dead_lettered_at r \<noteq> None)"
    using assms by (auto simp: mark_failed_def)
  show "db_ok d \<Longrightarrow> db_ok d'" using outbox_update_ok [OF t(1)] t(2) by simp
  have "t = update_where (\<lambda>r. ob_id r = k) ?f (t_outbox d)"
    using t(1) by (simp add: sql_update_Inr)
  then have "outbox_at d' j = map_option (\<lambda>r. if ob_id r = k then ?f r else r) (outbox_at d j)"
    using t(2) by (simp add: outbox_at_update)
  then show "outbox_at d' j = (if j = k then map_option ?f (outbox_at d k) else outbox_at d j)"
    by (cases "outbox_at d j") (auto simp: outbox_at_def dest: fetch_optional_SomeD)
  show "dead \<longleftrightarrow> (\<exists>r. outbox_at d' k = Some r \<and> ob_dead_lettered_at r \<noteq> None)"
    using t(2,3) by (auto simp: outbox_at_def split: option.splits)
  show "t_operations d' = t_operations d" using t(2) by simp
qed

subsection \<open>The stored error\<close>

lemma trim_subset: "set (trim s) \<subseteq> set s"
  unfolding trim_def by (metis set_dropWhileD set_rev subsetI)

lemma trim_empty: "trim s = [] \<longleftrightarrow> list_all is_whitespace s"
proof
  assume "trim s = []"
  then have "\<forall>c \<in> set (dropWhile is_whitespace s). is_whitespace c" by (simp add: trim_def)
  then have "dropWhile is_whitespace s = []"
    by (metis hd_dropWhile list.set_sel(1))
  then show "list_all is_whitespace s" by (simp add: list_all_iff)
next
  assume "list_all is_whitespace s"
  then have "dropWhile is_whitespace s = []" unfolding list_all_iff dropWhile_eq_Nil_conv .
  then show "trim s = []" unfolding trim_def by (metis dropWhile.simps(1) rev.simps(1))
qed

lemma line_break_whitespace: "line_break c \<Longrightarrow> is_whitespace c"
  by (auto simp: line_break_def is_whitespace_def)

text \<open>
  Whatever the client library reports, the text kept of it fits the column: one line, at most
  200 characters; the one text the column refuses is a blank one.
\<close>

lemma safe_error_fits_column:
  "length (safe_error e) \<le> 200 \<and> \<not> list_ex line_break (safe_error e)
   \<and> (safe_line (safe_error e) \<longleftrightarrow> list_ex (\<lambda>c. \<not> is_whitespace c) e)"
proof -
  let ?flat = "map (\<lambda>c. if line_break c then CHR '' '' else c) e"
  have len: "length (safe_error e) \<le> 200" by (simp add: safe_error_def Let_def)
  have "\<not> line_break c" if "c \<in> set ?flat" for c using that by (auto simp: line_break_def)
  then have flat: "\<not> line_break c" if "c \<in> set (trim ?flat)" for c using trim_subset that by blast
  have dots: "\<not> line_break c" if "c \<in> set ''...''" for c using that by (auto simp: line_break_def)
  have "\<not> line_break c" if "c \<in> set (safe_error e)" for c
  proof (cases "length (trim ?flat) \<le> 200")
    case True
    then show ?thesis using that flat by (simp add: safe_error_def Let_def)
  next
    case False
    then have "safe_error e = take 197 (trim ?flat) @ ''...''"
      unfolding safe_error_def Let_def by (rule if_not_P)
    with that have "c \<in> set (take 197 (trim ?flat)) \<or> c \<in> set ''...''"
      by (simp only: set_append Un_iff)
    then show ?thesis
    proof
      assume "c \<in> set (take 197 (trim ?flat))"
      then show ?thesis by (rule flat [OF in_set_takeD])
    qed (rule dots)
  qed
  then have one: "\<not> list_ex line_break (safe_error e)" by (auto simp: list_ex_iff)
  have "safe_error e = [] \<longleftrightarrow> trim ?flat = []" by (auto simp: safe_error_def Let_def)
  also have "\<dots> \<longleftrightarrow> list_all is_whitespace e"
  proof -
    have "is_whitespace (if line_break c then CHR '' '' else c) = is_whitespace c" for c
      using line_break_whitespace by (simp add: is_whitespace_def)
    then show ?thesis by (simp add: trim_empty list.pred_map comp_def)
  qed
  finally have "safe_error e = [] \<longleftrightarrow> \<not> list_ex (\<lambda>c. \<not> is_whitespace c) e"
    by (auto simp: list_all_iff list_ex_iff)
  with len one show ?thesis by (auto simp: safe_line_def bounded_def Suc_le_eq)
qed

subsection \<open>Backing off\<close>

lemma backoff_bounds: "0 \<le> n \<Longrightarrow> 1 \<le> backoff n \<and> backoff n \<le> 300"
  by (simp add: backoff_def max_backoff_seconds_def)

text \<open>
  Recording a failure backs the row off, and dead-letters it exactly at its twelfth attempt.
  The next attempt is between one second and five minutes away, the lease is given back, the error
  kept is the bounded one, no other row changes, and a dead-lettered row is never due again.
\<close>

lemma mark_failed_backs_off:
  assumes "db_ok d" and "outbox_at d k = Some r" and "mark_failed d k error now = Inr (dead, d')"
  shows "\<exists>r'. outbox_at d' k = Some r' \<and> ob_attempts r' = ob_attempts r + 1
    \<and> ob_last_error r' = Some (safe_error error) \<and> ob_claimed_until r' = None
    \<and> now + seconds 1 \<le> ob_next_attempt_at r' \<and> ob_next_attempt_at r' \<le> now + seconds 300
    \<and> (dead \<longleftrightarrow> 12 \<le> ob_attempts r') \<and> (ob_dead_lettered_at r' = (if dead then Some now else None))
    \<and> (\<forall>t. claimable t r' \<longleftrightarrow> \<not> dead \<and> ob_published_at r = None \<and> ob_next_attempt_at r' \<le> t)
    \<and> (outbox_at d')(k := None) = (outbox_at d)(k := None)"
proof -
  note m = mark_failed_Inr [OF assms(3)]
  let ?r = "failed_row (safe_error error) now r"
  have r': "outbox_at d' k = Some ?r" using m(2) assms(2) by simp
  have "outbox_ok r" using outbox_at_iff [OF assms(1)] assms(2) outbox_table.row_ok [OF db_okD(6) [OF assms(1)]]
    by blast
  then have "0 \<le> ob_attempts r" by (simp add: outbox_ok_def)
  from backoff_bounds [OF this] have nxt: "now + seconds 1 \<le> ob_next_attempt_at ?r"
    "ob_next_attempt_at ?r \<le> now + seconds 300" by (simp_all add: failed_row_def)
  have dead: "dead \<longleftrightarrow> 12 \<le> ob_attempts ?r" "ob_dead_lettered_at ?r = (if dead then Some now else None)"
    using m(3) r' by (auto simp: failed_row_def max_attempts_def)
  have "claimable t ?r \<longleftrightarrow> \<not> dead \<and> ob_published_at r = None \<and> ob_next_attempt_at ?r \<le> t" for t
    using dead(2) by (auto simp: claimable_def failed_row_def)
  moreover have "(outbox_at d')(k := None) = (outbox_at d)(k := None)"
    using m(2) by (simp add: fun_eq_iff)
  ultimately show ?thesis
    using r' nxt dead by (intro exI [of _ ?r]) (simp add: failed_row_def)
qed

text \<open>Failing again and again.\<close>

definition fail_again :: "uuid \<Rightarrow> string \<times> instant \<Rightarrow> db \<Rightarrow> eventing_error + db" where
  "fail_again k = (\<lambda>(error, now) d. bindE (mark_failed d k error now) (\<lambda>(dead, d'). Inr d'))"

lemma fail_again_row:
  assumes "fail_again k a d = Inr d'" and "outbox_at d k = Some r"
  shows "outbox_at d' k = Some (failed_row (safe_error (fst a)) (snd a) r)"
  using assms mark_failed_Inr(2) [of d k "fst a" "snd a" _ d' k]
  by (auto simp: fail_again_def split: prod.splits)

lemma fail_all_row:
  assumes "foldE (fail_again k) attempts d = Inr d'" and "outbox_at d k = Some r"
  shows "\<exists>r'. outbox_at d' k = Some r' \<and> ob_attempts r' = ob_attempts r + int (length attempts)
    \<and> (attempts \<noteq> [] \<longrightarrow> (ob_dead_lettered_at r' \<noteq> None \<longleftrightarrow> 12 \<le> ob_attempts r'))"
  using assms
proof (induction attempts arbitrary: d r)
  case Nil
  then show ?case by simp
next
  case (Cons a attempts)
  then obtain d1 where d1: "fail_again k a d = Inr d1" "foldE (fail_again k) attempts d1 = Inr d'" by auto
  let ?r = "failed_row (safe_error (fst a)) (snd a) r"
  from Cons.IH [OF d1(2) fail_again_row [OF d1(1) Cons.prems(2)]] obtain r' where r':
    "outbox_at d' k = Some r'" "ob_attempts r' = ob_attempts ?r + int (length attempts)"
    "attempts \<noteq> [] \<longrightarrow> (ob_dead_lettered_at r' \<noteq> None \<longleftrightarrow> 12 \<le> ob_attempts r')" by blast
  have one: "ob_attempts ?r = ob_attempts r + 1"
    "ob_dead_lettered_at ?r \<noteq> None \<longleftrightarrow> 12 \<le> ob_attempts ?r"
    by (auto simp: failed_row_def max_attempts_def)
  have "attempts = [] \<Longrightarrow> r' = ?r"
    using d1 r'(1) fail_again_row [OF d1(1) Cons.prems(2)] by simp
  with r' one show ?case by (cases "attempts = []") auto
qed

text \<open>
  A message gets twelve attempts. A row that was never attempted, failed any number of times
  at any instants, is dead-lettered exactly when it failed at least twelve times.
\<close>

lemma twelve_failures_dead_letter:
  assumes "outbox_at d k = Some r" and "ob_attempts r = 0" and "ob_dead_lettered_at r = None"
    and "foldE (fail_again k) attempts d = Inr d'"
  shows "\<exists>r'. outbox_at d' k = Some r' \<and> (ob_dead_lettered_at r' \<noteq> None \<longleftrightarrow> 12 \<le> length attempts)"
  using fail_all_row [OF assms(4,1)] assms by (cases "attempts = []") auto

subsection \<open>Claims\<close>

lemma claimed_row_ok: "outbox_ok r \<Longrightarrow> bounded 1 120 w \<Longrightarrow> outbox_ok (claimed_row w u r)"
  by (simp add: outbox_ok_def claimed_row_def)

lemma scanned_distinct: "db_ok d \<Longrightarrow> scans scan (t_outbox d) \<Longrightarrow> distinct (map ob_id (scan (t_outbox d)))"
  using outbox_table.distinct_keys [OF db_okD(6)]
  by (metis card_distinct distinct_card length_map scans_def set_map)

lemma claimed_message_of_Inr:
  "claimed_message_of r = Inr m \<Longrightarrow> cm_outbox m = ob_id r \<and> cm_message m = ob_message r
     \<and> cm_payload m = ob_payload r \<and> subject_str (cm_subject m) = ob_subject r"
  by (auto simp: claimed_message_of_def subject_parse_Inr)

lemma claimed_message_of_total: "outbox_ok r \<Longrightarrow> \<exists>m. claimed_message_of r = Inr m"
  by (auto simp: claimed_message_of_def outbox_ok_def subject_parse_Inr)

lemma due_ids_props:
  assumes "db_ok d" and "scans scan (t_outbox d)" and "due = due_ids scan locked limit now (t_outbox d)"
  shows "length due \<le> limit" and "distinct due"
    and "k \<in> set due \<Longrightarrow> \<exists>r. outbox_at d k = Some r \<and> claimable now r \<and> \<not> locked k"
    and "length due < limit \<Longrightarrow> outbox_at d k = Some r \<Longrightarrow> claimable now r \<Longrightarrow> \<not> locked k \<Longrightarrow> k \<in> set due"
proof -
  let ?s = "sort_key (\<lambda>r. (ob_next_attempt_at r, ob_enqueued_at r))
       (filter (\<lambda>r. claimable now r \<and> \<not> locked (ob_id r)) (scan (t_outbox d)))"
  have due: "due = take limit (map ob_id ?s)" using assms(3) by (simp add: due_ids_def take_map)
  have set: "set (map ob_id ?s) = ob_id ` {r \<in> set (t_outbox d). claimable now r \<and> \<not> locked (ob_id r)}"
    using assms(2) by (simp add: scans_def)
  show "length due \<le> limit" by (simp add: due)
  have "distinct (map ob_id (filter (\<lambda>r. claimable now r \<and> \<not> locked (ob_id r)) (scan (t_outbox d))))"
    using scanned_distinct [OF assms(1,2)] by (rule distinct_map_filter)
  then have "distinct (map ob_id ?s)"
    by (simp add: distinct_map)
  then show "distinct due" by (simp add: due)
  show "\<exists>r. outbox_at d k = Some r \<and> claimable now r \<and> \<not> locked k" if "k \<in> set due"
  proof -
    have "k \<in> set (map ob_id ?s)" using that set_take_subset unfolding due by fast
    then show ?thesis unfolding set using outbox_at_iff [OF assms(1)] by auto
  qed
  show "k \<in> set due" if "length due < limit" "outbox_at d k = Some r" "claimable now r" "\<not> locked k"
  proof -
    have "due = map ob_id ?s" using that(1) by (simp add: due)
    moreover have "k \<in> set (map ob_id ?s)"
      unfolding set using that(2-4) outbox_at_iff [OF assms(1)] by (intro image_eqI [of _ _ r]) auto
    ultimately show ?thesis by simp
  qed
qed

lemma claim_succeeds:
  assumes "db_ok d" and "bounded 1 120 claimed_by" and "scans scan (t_outbox d)"
    and "due = due_ids scan locked limit now (t_outbox d)"
  obtains msgs where "claim scan locked d claimed_by limit now = (Inr msgs,
      d\<lparr>t_outbox := update_where (\<lambda>r. ob_id r \<in> set due)
          (claimed_row claimed_by (now + seconds claim_lease_seconds)) (t_outbox d)\<rparr>)"
    and "map claimed_message_of (filter (\<lambda>r. ob_id r \<in> set due) (scan (t_outbox d))) = map Inr msgs"
proof -
  note ok = db_okD(6) [OF assms(1)]
  have upd: "sql_update (\<lambda>_. outbox_ok) outbox_clash (\<lambda>r. ob_id r \<in> set due)
      (claimed_row claimed_by (now + seconds claim_lease_seconds)) (t_outbox d)
    = Inr (update_where (\<lambda>r. ob_id r \<in> set due)
        (claimed_row claimed_by (now + seconds claim_lease_seconds)) (t_outbox d))"
    by (rule outbox_table.update_succeeds [OF ok])
      (auto intro: claimed_row_ok assms(2) outbox_table.row_ok [OF ok])
  have "\<forall>r \<in> set (filter (\<lambda>r. ob_id r \<in> set due) (scan (t_outbox d))). \<exists>m. claimed_message_of r = Inr m"
    using assms(3) outbox_table.row_ok [OF ok] claimed_message_of_total by (auto simp: scans_def)
  then obtain f where f: "\<forall>r \<in> set (filter (\<lambda>r. ob_id r \<in> set due) (scan (t_outbox d))). claimed_message_of r = Inr (f r)"
    by metis
  have msgs: "map claimed_message_of (filter (\<lambda>r. ob_id r \<in> set due) (scan (t_outbox d)))
    = map Inr (map f (filter (\<lambda>r. ob_id r \<in> set due) (scan (t_outbox d))))"
    using f by simp
  show thesis
    by (rule that [OF _ msgs], unfold claim_def Let_def assms(4) [symmetric] upd stored_simps msgs)
      (simp add: sequenceE_Inr del: map_map)
qed

lemma claimed_rows_ids:
  assumes "map claimed_message_of rows = map Inr msgs"
  shows "map cm_outbox msgs = map ob_id rows" and "map cm_message msgs = map ob_message rows"
  using assms
  by (induction rows arbitrary: msgs) (auto simp: Cons_eq_map_conv map_eq_Cons_conv dest!: claimed_message_of_Inr)

lemma claim_spec:
  assumes "db_ok d" and "bounded 1 120 claimed_by" and "scans scan (t_outbox d)"
    and "claim scan locked d claimed_by limit now = (res, d')"
  obtains msgs due where "res = Inr msgs" and "due = due_ids scan locked limit now (t_outbox d)" and "db_ok d'"
    and "length msgs = length due" and "distinct (map cm_outbox msgs)" and "set (map cm_outbox msgs) = set due"
    and "distinct (map cm_message msgs)"
    and "\<forall>m \<in> set msgs. \<exists>r. outbox_at d (cm_outbox m) = Some r \<and> cm_message m = ob_message r"
    and "\<forall>k. outbox_at d' k = map_option (\<lambda>r. if k \<in> set due
           then claimed_row claimed_by (now + seconds 30) r else r) (outbox_at d k)"
proof -
  define due where "due = due_ids scan locked limit now (t_outbox d)"
  note due = due_ids_props [OF assms(1,3) due_def]
  let ?rows = "filter (\<lambda>r. ob_id r \<in> set due) (scan (t_outbox d))"
  let ?f = "claimed_row claimed_by (now + seconds claim_lease_seconds)"
  let ?d = "d\<lparr>t_outbox := update_where (\<lambda>r. ob_id r \<in> set due) ?f (t_outbox d)\<rparr>"
  obtain msgs where claim: "claim scan locked d claimed_by limit now = (Inr msgs, ?d)"
    and msgs: "map claimed_message_of ?rows = map Inr msgs"
    using claim_succeeds [OF assms(1-3) due_def] by metis
  have res: "res = Inr msgs" "d' = ?d" using claim assms(4) by simp_all
  note rows = claimed_rows_ids [OF msgs]
  have dist: "distinct (map ob_id ?rows)"
    using scanned_distinct [OF assms(1,3)] by (rule distinct_map_filter)
  have ids: "distinct (map cm_outbox msgs)" "set (map cm_outbox msgs) = set due"
    using dist rows(1) due(3) outbox_at_iff [OF assms(1)] assms(3) by (auto simp: scans_def)
  have len: "length msgs = length due" using ids due(2) by (metis distinct_card length_map)
  note t = db_okD(6) [OF assms(1)]
  have upd: "sql_update (\<lambda>_. outbox_ok) outbox_clash (\<lambda>r. ob_id r \<in> set due) ?f (t_outbox d) = Inr (t_outbox ?d)"
    using outbox_table.update_succeeds [OF t, of ?f "\<lambda>r. ob_id r \<in> set due" "\<lambda>_. outbox_ok"]
      claimed_row_ok assms(2) outbox_table.row_ok [OF t] by simp
  have ok: "db_ok ?d" using outbox_update_ok [OF upd assms(1)] by simp
  have "inj_on ob_message (set ?rows)"
    using outbox_table.unclashing [OF t] assms(3)
    by (auto simp: inj_on_def scans_def outbox_clash_def outbox_message_clash_def)
  then have messages: "distinct (map cm_message msgs)"
    using dist rows(2) by (simp add: distinct_map)
  have origin: "\<exists>r. outbox_at d (cm_outbox m) = Some r \<and> cm_message m = ob_message r" if "m \<in> set msgs" for m
  proof -
    have "Inr m \<in> set (map claimed_message_of ?rows)" unfolding msgs using that by simp
    then obtain r where r: "r \<in> set ?rows" "claimed_message_of r = Inr m" by auto
    then show ?thesis
      using outbox_at_iff [OF assms(1)] assms(3) claimed_message_of_Inr [OF r(2)] by (auto simp: scans_def)
  qed
  have "outbox_at ?d k = map_option (\<lambda>r. if k \<in> set due then claimed_row claimed_by (now + seconds 30) r else r)
      (outbox_at d k)" for k
  proof (cases "outbox_at d k")
    case None
    then show ?thesis by (simp add: outbox_at_update)
  next
    case (Some r)
    then have "ob_id r = k" using outbox_at_iff [OF assms(1)] by blast
    with Some show ?thesis by (simp add: outbox_at_update claim_lease_seconds_def)
  qed
  with res due_def ok len ids messages origin show thesis
    by (intro that [of msgs due]) simp_all
qed

text \<open>
  A claim takes only rows that are due: unpublished, not dead-lettered, past their next attempt,
  under no live lease and held by no other transaction; at most the limit, each once, and, when it
  takes fewer than the limit, all of them. A claimed row is due again exactly when its lease of
  thirty seconds has run out, so a second claim inside the lease takes none of them.
\<close>

lemma claim_takes_due_rows_under_lease:
  assumes "db_ok d" and "bounded 1 120 claimed_by" and "scans scan (t_outbox d)"
    and "claim scan locked d claimed_by limit now = (res, d')"
  shows "\<exists>msgs. res = Inr msgs \<and> db_ok d' \<and> length msgs \<le> limit \<and> distinct (map cm_outbox msgs)
    \<and> (\<forall>k \<in> set (map cm_outbox msgs). \<exists>r r'. outbox_at d k = Some r \<and> claimable now r \<and> \<not> locked k
         \<and> outbox_at d' k = Some r'
         \<and> (\<forall>t \<ge> now. claimable t r' \<longleftrightarrow> now + seconds 30 \<le> t))
    \<and> (length msgs < limit \<longrightarrow> (\<forall>k r. outbox_at d k = Some r \<and> claimable now r \<and> \<not> locked k
         \<longrightarrow> k \<in> set (map cm_outbox msgs)))"
proof -
  from assms obtain msgs due where res: "res = Inr msgs" and due_def: "due = due_ids scan locked limit now (t_outbox d)"
    and ok: "db_ok d'" and len: "length msgs = length due" and ids: "distinct (map cm_outbox msgs)"
      "set (map cm_outbox msgs) = set due"
    and row: "\<forall>k. outbox_at d' k = map_option (\<lambda>r. if k \<in> set due
           then claimed_row claimed_by (now + seconds 30) r else r) (outbox_at d k)"
    by (rule claim_spec) blast
  note due = due_ids_props [OF assms(1,3) due_def]
  show ?thesis
  proof (intro exI [of _ msgs] conjI res ok ids(1))
    show "length msgs \<le> limit" using len due(1) by simp
    show "\<forall>k \<in> set (map cm_outbox msgs). \<exists>r r'. outbox_at d k = Some r \<and> claimable now r \<and> \<not> locked k
         \<and> outbox_at d' k = Some r' \<and> (\<forall>t \<ge> now. claimable t r' \<longleftrightarrow> now + seconds 30 \<le> t)"
      unfolding ids(2)
    proof
      fix k
      assume k: "k \<in> set due"
      obtain r where r: "outbox_at d k = Some r" "claimable now r" "\<not> locked k" using due(3) [OF k] by blast
      then have "outbox_at d' k = Some (claimed_row claimed_by (now + seconds 30) r)" using row k by simp
      moreover have "claimable t (claimed_row claimed_by (now + seconds 30) r) \<longleftrightarrow> now + seconds 30 \<le> t"
        if "now \<le> t" for t using r(2) that by (auto simp: claimable_def claimed_row_def)
      ultimately show "\<exists>r r'. outbox_at d k = Some r \<and> claimable now r \<and> \<not> locked k
         \<and> outbox_at d' k = Some r' \<and> (\<forall>t \<ge> now. claimable t r' \<longleftrightarrow> now + seconds 30 \<le> t)"
        using r by blast
    qed
    show "length msgs < limit \<longrightarrow> (\<forall>k r. outbox_at d k = Some r \<and> claimable now r \<and> \<not> locked k
         \<longrightarrow> k \<in> set (map cm_outbox msgs))"
      unfolding ids(2) len using due(4) by blast
  qed
qed

subsection \<open>A pass\<close>

text \<open>
  A bus that keeps its whole history: what it answers may depend on everything it was asked before,
  so the theorems over it hold for every bus.
\<close>

type_synonym bus_log = "(uuid \<times> (publish_error + unit)) list"

definition recorder :: "(bus_log \<Rightarrow> subject \<Rightarrow> string \<Rightarrow> uuid \<Rightarrow> publish_error + unit) \<Rightarrow> bus_log publisher" where
  "recorder answer log s body k = (let a = answer log s body k in (a, log @ [(k, a)]))"

lemma pump_failed_Inr:
  assumes "pump_failed d k error now report = (Inr report', d')"
  obtains dead where "mark_failed d k error now = Inr (dead, d')"
    and "pm_claimed report' = pm_claimed report" and "pm_published report' = pm_published report"
    and "pm_failed report' = Suc (pm_failed report)"
    and "pm_dead_lettered report' = pm_dead_lettered report + (if dead then 1 else 0)"
proof (cases "mark_failed d k error now")
  case (Inl e)
  with assms show thesis by (simp add: pump_failed_def Let_def)
next
  case (Inr a)
  with assms show thesis
    by (intro that [of "fst a"]) (auto simp: pump_failed_def Let_def split: prod.splits)
qed

text \<open>One turn of the loop that goes on: the message was published, or its failure was recorded.\<close>

lemma pump_loop_Cons:
  assumes "pump_loop (recorder answer) to_vec now (m # rest) report d log = (Inr report', d', log')"
  obtains (published) report1 d1 where
      "pump_loop (recorder answer) to_vec now rest report1 d1 (log @ [(cm_message m, Inr ())]) = (Inr report', d', log')"
      "mark_published d (cm_outbox m) now = Inr d1" "report1 = report\<lparr>pm_published := pm_published report + 1\<rparr>"
  | (failed) new report1 d1 error where
      "pump_loop (recorder answer) to_vec now rest report1 d1 (log @ new) = (Inr report', d', log')"
      "pump_failed d (cm_outbox m) error now report = (Inr report1, d1)"
      "new = [] \<or> (\<exists>e. new = [(cm_message m, Inl e)])"
proof (cases "to_vec (cm_payload m)")
  case (Inl error)
  with assms obtain report1 d1 where "pump_failed d (cm_outbox m) error now report = (Inr report1, d1)"
    "pump_loop (recorder answer) to_vec now rest report1 d1 log = (Inr report', d', log')"
    by (auto split: prod.splits sum.splits)
  then show thesis using failed [of report1 d1 "[]"] by simp
next
  case (Inr body)
  show thesis
  proof (cases "answer log (cm_subject m) body (cm_message m)")
    case (Inl e)
    with assms Inr obtain report1 d1 where
      "pump_failed d (cm_outbox m) (publish_error_text e) now report = (Inr report1, d1)"
      "pump_loop (recorder answer) to_vec now rest report1 d1 (log @ [(cm_message m, Inl e)]) = (Inr report', d', log')"
      by (auto simp: recorder_def Let_def split: prod.splits sum.splits)
    then show thesis using failed by blast
  next
    case (Inr u)
    with assms \<open>to_vec (cm_payload m) = Inr body\<close> obtain d1 where
      "mark_published d (cm_outbox m) now = Inr d1"
      "pump_loop (recorder answer) to_vec now rest (report\<lparr>pm_published := pm_published report + 1\<rparr>) d1
         (log @ [(cm_message m, Inr ())]) = (Inr report', d', log')"
      by (cases "mark_published d (cm_outbox m) now") (simp_all add: recorder_def Let_def)
    then show thesis using published by blast
  qed
qed

definition settled_row :: "instant \<Rightarrow> bus_log \<Rightarrow> claimed_message \<Rightarrow> db \<Rightarrow> db \<Rightarrow> bool" where
  "settled_row now new m d d' \<longleftrightarrow>
     (if (cm_message m, Inr ()) \<in> set new
      then outbox_at d' (cm_outbox m) = map_option (published_row now) (outbox_at d (cm_outbox m))
      else \<exists>e. outbox_at d' (cm_outbox m) = map_option (failed_row e now) (outbox_at d (cm_outbox m)))"

lemma settled_row_mono:
  assumes "settled_row now new x d1 d'" and "outbox_at d1 (cm_outbox x) = outbox_at d (cm_outbox x)"
    and "(cm_message x, Inr ()) \<in> set new' \<longleftrightarrow> (cm_message x, Inr ()) \<in> set new"
  shows "settled_row now new' x d d'"
  using assms(1) unfolding settled_row_def assms(2,3) .

lemma pump_loop_spec:
  assumes "pump_loop (recorder answer) to_vec now msgs report d log = (Inr report', d', log')"
    and "distinct (map cm_outbox msgs)" and "distinct (map cm_message msgs)"
  shows "\<exists>new. log' = log @ new \<and> fst ` set new \<subseteq> cm_message ` set msgs
    \<and> pm_claimed report' = pm_claimed report
    \<and> pm_published report' + pm_failed report' = pm_published report + pm_failed report + length msgs
    \<and> pm_dead_lettered report' + pm_failed report \<le> pm_dead_lettered report + pm_failed report'
    \<and> (db_ok d \<longrightarrow> db_ok d')
    \<and> (\<forall>k. k \<notin> cm_outbox ` set msgs \<longrightarrow> outbox_at d' k = outbox_at d k)
    \<and> (\<forall>m \<in> set msgs. settled_row now new m d d')"
  using assms
proof (induction msgs arbitrary: report d log)
  case Nil
  then show ?case by simp
next
  case (Cons m rest)
  note dist = Cons.prems(2,3)
  have rest: "distinct (map cm_outbox rest)" "distinct (map cm_message rest)" using dist by simp_all
  have apart: "cm_outbox m \<notin> cm_outbox ` set rest" "cm_message m \<notin> cm_message ` set rest" using dist by auto
  from Cons.prems(1) show ?case
  proof (cases rule: pump_loop_Cons)
    case (published report1 d1)
    note mark = mark_published_Inr [OF published(2)]
    from Cons.IH [OF published(1) rest] obtain new where new:
      "log' = (log @ [(cm_message m, Inr ())]) @ new" "fst ` set new \<subseteq> cm_message ` set rest"
      "pm_claimed report' = pm_claimed report1"
      "pm_published report' + pm_failed report' = pm_published report1 + pm_failed report1 + length rest"
      "pm_dead_lettered report' + pm_failed report1 \<le> pm_dead_lettered report1 + pm_failed report'"
      "db_ok d1 \<longrightarrow> db_ok d'"
      "\<forall>k. k \<notin> cm_outbox ` set rest \<longrightarrow> outbox_at d' k = outbox_at d1 k"
      "\<forall>m \<in> set rest. settled_row now new m d1 d'" by blast
    have "settled_row now ((cm_message m, Inr ()) # new) x d d'" if "x \<in> set (m # rest)" for x
    proof (cases "x = m")
      case True
      then show ?thesis using new(7) apart(1) mark(2) by (simp add: settled_row_def)
    next
      case False
      with that have x: "x \<in> set rest" by simp
      then have "cm_outbox x \<noteq> cm_outbox m" "cm_message x \<noteq> cm_message m" using apart by (metis image_eqI)+
      then show ?thesis using mark(2) by (intro settled_row_mono [OF new(8) [rule_format, OF x]]) auto
    qed
    moreover have "outbox_at d' k = outbox_at d k" if "k \<notin> cm_outbox ` set (m # rest)" for k
      using that new(7) mark(2) by auto
    ultimately show ?thesis
      using new(1-6) mark(1) published(3) by (intro exI [of _ "(cm_message m, Inr ()) # new"]) auto
  next
    case (failed new0 report1 d1 error)
    obtain dead where f: "mark_failed d (cm_outbox m) error now = Inr (dead, d1)"
      "pm_claimed report1 = pm_claimed report" "pm_published report1 = pm_published report"
      "pm_failed report1 = Suc (pm_failed report)"
      "pm_dead_lettered report1 = pm_dead_lettered report + (if dead then 1 else 0)"
      using failed(2) by (rule pump_failed_Inr)
    note mark = mark_failed_Inr [OF f(1)]
    from Cons.IH [OF failed(1) rest] obtain new where new:
      "log' = (log @ new0) @ new" "fst ` set new \<subseteq> cm_message ` set rest"
      "pm_claimed report' = pm_claimed report1"
      "pm_published report' + pm_failed report' = pm_published report1 + pm_failed report1 + length rest"
      "pm_dead_lettered report' + pm_failed report1 \<le> pm_dead_lettered report1 + pm_failed report'"
      "db_ok d1 \<longrightarrow> db_ok d'"
      "\<forall>k. k \<notin> cm_outbox ` set rest \<longrightarrow> outbox_at d' k = outbox_at d1 k"
      "\<forall>m \<in> set rest. settled_row now new m d1 d'" by blast
    have none: "(x, Inr ()) \<notin> set new0" for x using failed(3) by auto
    have "settled_row now (new0 @ new) x d d'" if "x \<in> set (m # rest)" for x
    proof (cases "x = m")
      case True
      have "(cm_message m, Inr ()) \<notin> set new" using new(2) apart(2) by force
      then show ?thesis using True new(7) apart(1) mark(2) none by (auto simp: settled_row_def)
    next
      case False
      with that have x: "x \<in> set rest" by simp
      then have "cm_outbox x \<noteq> cm_outbox m" using apart by (metis image_eqI)
      then show ?thesis using mark(2) none by (intro settled_row_mono [OF new(8) [rule_format, OF x]]) auto
    qed
    moreover have "outbox_at d' k = outbox_at d k" if "k \<notin> cm_outbox ` set (m # rest)" for k
      using that new(7) mark(2) by auto
    moreover have "fst ` set (new0 @ new) \<subseteq> cm_message ` set (m # rest)"
      using new(2) failed(3) by auto
    moreover have "pm_dead_lettered report' + pm_failed report \<le> pm_dead_lettered report + pm_failed report'"
      using new(5) f(4,5) by (auto split: if_splits)
    ultimately show ?thesis
      using new(1,3,4,6) mark(1) f(2-4) by (intro exI [of _ "new0 @ new"]) auto
  qed
qed

text \<open>
  C23: a pass of the pump tells the truth, over every bus. Each claimed message is counted published
  or failed, the dead-lettered ones among the failed; a row is marked published by the pass exactly
  when the bus took responsibility for its message, and only a row that was due is given to the bus.
\<close>

theorem pump_publishes_what_the_bus_took:
  assumes "run_once scan locked (recorder answer) to_vec d [] claimed_by limit now = (Inr report, d', log)"
    and "db_ok d" and "scans scan (t_outbox d)" and "bounded 1 120 claimed_by"
  shows "pm_claimed report = pm_published report + pm_failed report
    \<and> pm_dead_lettered report \<le> pm_failed report \<and> pm_claimed report \<le> limit \<and> db_ok d'
    \<and> (\<forall>k r. outbox_at d k = Some r \<longrightarrow>
         (\<exists>r'. outbox_at d' k = Some r'
           \<and> (ob_published_at r' = (if (ob_message r, Inr ()) \<in> set log then Some now else ob_published_at r))
           \<and> (ob_message r \<in> fst ` set log \<longrightarrow> claimable now r \<and> \<not> locked k)))"
proof -
  obtain msgs d1 where claim: "claim scan locked d claimed_by limit now = (Inr msgs, d1)"
    and loop: "pump_loop (recorder answer) to_vec now msgs \<lparr>pm_claimed = length msgs, pm_published = 0,
      pm_failed = 0, pm_dead_lettered = 0\<rparr> d1 [] = (Inr report, d', log)"
    using assms(1) by (auto simp: run_once_def split: prod.splits sum.splits)
  obtain due where due_def: "due = due_ids scan locked limit now (t_outbox d)" and ok: "db_ok d1"
    and len: "length msgs = length due"
    and ids: "distinct (map cm_outbox msgs)" "set (map cm_outbox msgs) = set due" "distinct (map cm_message msgs)"
    and origin: "\<forall>m \<in> set msgs. \<exists>r. outbox_at d (cm_outbox m) = Some r \<and> cm_message m = ob_message r"
    and row: "\<forall>k. outbox_at d1 k = map_option (\<lambda>r. if k \<in> set due
           then claimed_row claimed_by (now + seconds 30) r else r) (outbox_at d k)"
    by (rule claim_spec [OF assms(2,4,3) claim]) (simp only: sum.inject, blast)
  note due = due_ids_props [OF assms(2,3) due_def]
  note spec = pump_loop_spec [OF loop ids(1,3)]
  have named: "fst ` set log \<subseteq> cm_message ` set msgs" using spec by auto
  have rows: "\<exists>r'. outbox_at d' k = Some r'
      \<and> ob_published_at r' = (if (ob_message r, Inr ()) \<in> set log then Some now else ob_published_at r)
      \<and> (ob_message r \<in> fst ` set log \<longrightarrow> claimable now r \<and> \<not> locked k)"
    if r: "outbox_at d k = Some r" for k r
  proof (cases "k \<in> set due")
    case True
    then have "k \<in> set (map cm_outbox msgs)" using ids(2) by simp
    then obtain m where m: "m \<in> set msgs" "cm_outbox m = k" by auto
    then have msg: "cm_message m = ob_message r" using origin r by force
    have d1: "outbox_at d1 k = Some (claimed_row claimed_by (now + seconds 30) r)" using row r True by simp
    have "settled_row now log m d1 d'" using spec m(1) by auto
    moreover have "claimable now r \<and> \<not> locked k" using due(3) [OF True] r by simp
    ultimately show ?thesis using m(2) msg d1
      by (cases "(ob_message r, Inr ()) \<in> set log")
        (auto simp: settled_row_def published_row_def failed_row_def claimed_row_def)
  next
    case False
    have kept: "outbox_at d' k = Some r" using spec row r False ids(2) by auto
    have "ob_message r \<notin> fst ` set log"
    proof
      assume "ob_message r \<in> fst ` set log"
      with named have "ob_message r \<in> cm_message ` set msgs" by (rule subsetD)
      then obtain m where m: "m \<in> set msgs" "cm_message m = ob_message r" by auto
      then obtain x where x: "outbox_at d (cm_outbox m) = Some x" "ob_message x = ob_message r"
        using origin by metis
      then have "x = r" using r outbox_at_iff [OF assms(2)] outbox_table.unclashing [OF db_okD(6) [OF assms(2)]]
        by (simp add: outbox_clash_def outbox_message_clash_def)
      then have "cm_outbox m = k" using x(1) r outbox_at_iff [OF assms(2)] by auto
      with m(1) ids(2) False show False by auto
    qed
    then show ?thesis using kept by force
  qed
  show ?thesis using spec len due(1) ok rows by auto
qed

subsection \<open>Enqueuing and collecting\<close>

lemma enqueue_Inr:
  assumes "enqueue octets d k message_id subj payload operation now = Inr (inserted, d')"
  shows "db_ok d \<Longrightarrow> db_ok d'"
    and "inserted \<longleftrightarrow> (\<forall>r \<in> set (t_outbox d). ob_message r \<noteq> message_id)"
    and "d' = (if inserted then d\<lparr>t_outbox := t_outbox d
          @ [outbox_row_of k message_id subj payload (octets payload) operation now]\<rparr> else d)"
    and "inserted \<Longrightarrow> claimable now (outbox_row_of k message_id subj payload (octets payload) operation now)"
proof -
  let ?r = "outbox_row_of k message_id subj payload (octets payload) operation now"
  obtain t where t: "sql_insert_or_ignore outbox_ok outbox_message_clash outbox_clash ?r (t_outbox d) = Inr (inserted, t)"
    "d' = d\<lparr>t_outbox := t\<rparr>"
    using assms by (auto simp: enqueue_def split: if_splits prod.splits)
  show "db_ok d \<Longrightarrow> db_ok d'"
    using outbox_table.insert_or_ignore_ok [OF t(1)] t(2) by (auto dest: db_okD(6))
  have ins: "inserted \<longleftrightarrow> (\<forall>r \<in> set (t_outbox d). ob_message r \<noteq> message_id)"
    "t = (if inserted then t_outbox d @ [?r] else t_outbox d)"
    using t(1) by (auto simp: sql_insert_or_ignore_Inr outbox_message_clash_def outbox_row_of_def split: if_splits)
  then show "inserted \<longleftrightarrow> (\<forall>r \<in> set (t_outbox d). ob_message r \<noteq> message_id)" by simp
  show "d' = (if inserted then d\<lparr>t_outbox := t_outbox d @ [?r]\<rparr> else d)" using ins(2) t(2) by simp
  show "claimable now ?r" by (simp add: claimable_def outbox_row_of_def)
qed

lemma enqueue_frame:
  "enqueue octets d k message_id subj payload operation now = Inr (inserted, d') \<Longrightarrow> t_operations d' = t_operations d"
  by (drule enqueue_Inr(3)) simp

lemma collect_published_ok: "collect_published scan d before limit = (n, d') \<Longrightarrow> db_ok d \<Longrightarrow> db_ok d'"
  by (auto simp: collect_published_def split: prod.splits
      intro!: db_ok_update intro: outbox_table.delete_limited_ok db_okD(6))

text \<open>
  Retention never disposes of undelivered work. The collection of the outbox keeps every row
  that is pending, dead-lettered or published at or after the cut-off, and deletes at most the limit.
\<close>

lemma collect_published_keeps_undelivered:
  assumes "db_ok d" and "scans scan (t_outbox d)" and "collect_published scan d before limit = (n, d')"
  shows "n \<le> limit \<and> length (t_outbox d') + n = length (t_outbox d)
    \<and> {r \<in> set (t_outbox d). pending r \<or> ob_dead_lettered_at r \<noteq> None} \<subseteq> set (t_outbox d')
    \<and> {r \<in> set (t_outbox d). \<not> outbox_collectable before r} \<subseteq> set (t_outbox d')"
proof -
  obtain t where t: "delete_limited scan ob_id (outbox_collectable before) limit (t_outbox d) = (n, t)"
    "d' = d\<lparr>t_outbox := t\<rparr>"
    using assms(3) by (auto simp: collect_published_def split: prod.splits)
  note ok = db_okD(6) [OF assms(1)]
  have keep: "{r \<in> set (t_outbox d). \<not> outbox_collectable before r} \<subseteq> set (t_outbox d')"
    using outbox_table.delete_limited_keeps [OF ok assms(2) t(1)] t(2) by auto
  moreover have "\<not> outbox_collectable before r"
    if "r \<in> set (t_outbox d)" "pending r \<or> ob_dead_lettered_at r \<noteq> None" for r
    using outbox_table.row_ok [OF ok that(1)] that(2)
    by (auto simp: outbox_ok_def outbox_collectable_def pending_def)
  ultimately show ?thesis
    using outbox_table.delete_limited_bound [OF ok t(1)] delete_limited_length [OF t(1)] t(2) by auto
qed

subsection \<open>The properties at concrete inputs\<close>

definition demo_outbox_row :: outbox_row where
  "demo_outbox_row = outbox_row_of 1 51 (Subject ''cmd.content.capture.requested.v1'') JNull 4 None 10"

definition demo_outbox :: db where
  "demo_outbox = empty_db\<lparr>t_outbox := [demo_outbox_row,
     outbox_row_of 2 52 (Subject ''cmd.content.capture.requested.v1'') (JBool True) 4 None 11]\<rparr>"

lemma demo_outbox_facts:
  "db_ok demo_outbox" "outbox_at demo_outbox 1 = Some demo_outbox_row" "scans rev (t_outbox demo_outbox)"
  "bounded 1 120 ''edge-1''"
  by code_simp+

definition refusing_bus :: "bus_log \<Rightarrow> subject \<Rightarrow> string \<Rightarrow> uuid \<Rightarrow> publish_error + unit" where
  "refusing_bus log s body k = (if k = 51 then Inr () else Inl NotAcknowledged)"

theorem pump_publishes_what_the_bus_took_witness:
  "\<exists>report d' log r'. run_once rev (\<lambda>k. False) (recorder refusing_bus) (\<lambda>v. Inr ''body'') demo_outbox []
       ''edge-1'' 5 30 = (Inr report, d', log)
     \<and> outbox_at d' 1 = Some r' \<and> ob_published_at r' = Some 30"
proof -
  have made: "case run_once rev (\<lambda>k. False) (recorder refusing_bus) (\<lambda>v. Inr ''body'') demo_outbox []
       ''edge-1'' 5 30 of (res, d', log) \<Rightarrow> \<not> isl res \<and> (51, Inr ()) \<in> set log" by code_simp
  obtain res d' log where pass: "run_once rev (\<lambda>k. False) (recorder refusing_bus) (\<lambda>v. Inr ''body'') demo_outbox []
       ''edge-1'' 5 30 = (res, d', log)" by (rule prod_cases3)
  obtain report where "res = Inr report" using made unfolding pass prod.case by (cases res) simp_all
  with pass made have run: "run_once rev (\<lambda>k. False) (recorder refusing_bus) (\<lambda>v. Inr ''body'') demo_outbox []
       ''edge-1'' 5 30 = (Inr report, d', log)" "(51, Inr ()) \<in> set log" by simp_all
  have msg: "ob_message demo_outbox_row = 51" by code_simp
  from pump_publishes_what_the_bus_took [OF run(1) demo_outbox_facts(1,3,4)] demo_outbox_facts(2) msg run
  show ?thesis by fastforce
qed

lemma collect_published_keeps_undelivered_witness:
  "t_outbox (snd (collect_published rev demo_outbox 99 5)) = t_outbox demo_outbox"
proof -
  obtain n d' where c: "collect_published rev demo_outbox 99 5 = (n, d')" by fastforce
  have "fst (collect_published rev demo_outbox 99 5) = 0" by code_simp
  moreover have "length (t_outbox d') + n = length (t_outbox demo_outbox)"
    using collect_published_keeps_undelivered [OF demo_outbox_facts(1,3) c] by simp
  ultimately show ?thesis using c
    by (auto simp: collect_published_def delete_limited_def Let_def rows_affected_def delete_where_def
        filter_empty_conv filter_id_conv)
qed

end
