(* ===== verification/Listing.thy ===== *)
theory Listing
  imports Outbox Cancel "HOL-Library.Multiset"
begin

text \<open>
  Reading operations: \<^verbatim>\<open>crates/operations/src/list.rs\<close> and \<^verbatim>\<open>admin.rs\<close>, the pages an owner and an
  administrator walk; and \<open>progress_since\<close> and \<open>sample\<close> of \<^verbatim>\<open>lib.rs\<close>. The locale \<open>keyset\<close> holds what a
  walk by an exclusive anchor guarantees; both listings interpret it. A limit of \<open>2 ^ 63 - 1\<close> rows,
  where the code saturates, is not distinguished from a smaller one.
\<close>

subsection \<open>Walking pages by an exclusive anchor\<close>

text \<open>
  A client's walk: ask for a page, and go on behind its last row while the page says there is more.
  \<open>fuel\<close> bounds the number of pages it asks for.
\<close>

fun walk :: "nat \<Rightarrow> ('k option \<Rightarrow> 'r list \<times> bool) \<Rightarrow> ('r \<Rightarrow> 'k) \<Rightarrow> 'k option \<Rightarrow> 'r list" where
  "walk 0 page key anchor = []"
| "walk (Suc fuel) page key anchor =
     (let (rows, more) = page anchor
      in rows @ (if more then walk fuel page key (Some (key (last rows))) else []))"

definition behind :: "'k::linorder option \<Rightarrow> 'k \<Rightarrow> bool" where
  "behind anchor k \<longleftrightarrow> (case anchor of None \<Rightarrow> True | Some a \<Rightarrow> k < a)"

lemma behind_simps [simp]: "behind None k" "behind (Some a) k \<longleftrightarrow> k < a"
  by (simp_all add: behind_def)

locale keyset =
  fixes ok :: "'d \<Rightarrow> bool"
    and key :: "'r \<Rightarrow> 'k::linorder"
    and all_rows :: "'d \<Rightarrow> 'r list"
    and page :: "'d \<Rightarrow> nat \<Rightarrow> 'k option \<Rightarrow> 'r list \<times> bool"
  assumes descending: "ok d \<Longrightarrow> sorted_wrt (\<lambda>x y. key y < key x) (all_rows d)"
    and page_rows: "ok d \<Longrightarrow> page d limit anchor
          = (take limit (filter (\<lambda>r. behind anchor (key r)) (all_rows d)),
             limit < length (filter (\<lambda>r. behind anchor (key r)) (all_rows d)))"
begin

lemma filter_behind_suffix:
  assumes "ok d" and "all_rows d = xs @ ys" and "xs \<noteq> []"
  shows "filter (\<lambda>r. behind (Some (key (last xs))) (key r)) (all_rows d) = ys"
proof -
  have order: "\<forall>x \<in> set xs. \<forall>y \<in> set ys. key y < key x"
    using descending [OF assms(1)] assms(2) by (auto simp: sorted_wrt_append)
  have split: "xs = butlast xs @ [last xs]" using assms(3) by simp
  have "sorted_wrt (\<lambda>x y. key y < key x) xs"
    using descending [OF assms(1)] assms(2) by (auto simp: sorted_wrt_append)
  then have front: "\<forall>x \<in> set (butlast xs). key (last xs) < key x"
    by (subst (asm) split) (simp add: sorted_wrt_append)
  have "\<not> key x < key (last xs)" if "x \<in> set xs" for x
  proof -
    have "x \<in> set (butlast xs) \<or> x = last xs"
      using that by (subst (asm) split) auto
    with front show ?thesis by auto
  qed
  then have "filter (\<lambda>r. key r < key (last xs)) xs = []" by (simp add: filter_empty_conv)
  moreover have "filter (\<lambda>r. key r < key (last xs)) ys = ys"
    using order assms(3) by (simp add: filter_id_conv)
  ultimately show ?thesis using assms(2) by simp
qed

lemma walk_rest:
  assumes "ok d" and "0 < limit" and "all_rows d = xs @ ys" and "length ys \<le> fuel"
    and "anchor = (if xs = [] then None else Some (key (last xs)))"
  shows "walk (Suc fuel) (page d limit) key anchor = ys"
  using assms
proof (induction fuel arbitrary: xs ys anchor)
  case (0 xs ys anchor)
  have "filter (\<lambda>r. behind anchor (key r)) (all_rows d) = ys"
    using filter_behind_suffix [OF 0(1,3)] 0 by (cases "xs = []") auto
  with 0 show ?case by (simp add: page_rows)
next
  case (Suc fuel xs ys anchor)
  have rest: "filter (\<lambda>r. behind anchor (key r)) (all_rows d) = ys"
    using filter_behind_suffix [OF Suc.prems(1,3)] Suc.prems by (cases "xs = []") auto
  show ?case
  proof (cases "limit < length ys")
    case False
    with rest Suc.prems(1) show ?thesis by (simp add: page_rows)
  next
    case True
    let ?p = "take limit ys"
    have ne: "?p \<noteq> []" using True Suc.prems(2) by auto
    have tail: "walk (Suc fuel) (page d limit) key (Some (key (last ?p))) = drop limit ys"
    proof (rule Suc.IH [of "xs @ ?p", OF Suc.prems(1,2)])
      show "all_rows d = (xs @ ?p) @ drop limit ys" using Suc.prems(3) by simp
      show "length (drop limit ys) \<le> fuel" using Suc.prems(2,4) True by simp
      show "Some (key (last ?p)) = (if xs @ ?p = [] then None else Some (key (last (xs @ ?p))))"
        using ne by simp
    qed
    have "page d limit anchor = (?p, True)" using True Suc.prems(1) by (simp add: page_rows rest)
    then show ?thesis by (subst walk.simps(2)) (simp add: tail del: walk.simps)
  qed
qed

lemma walk_is_complete:
  "ok d \<Longrightarrow> 0 < limit \<Longrightarrow> walk (Suc (length (all_rows d))) (page d limit) key None = all_rows d"
  by (rule walk_rest [of d limit "[]"]) simp_all

text \<open>A page behind an anchor is the same in two states that agree behind that anchor.\<close>

lemma page_stable:
  assumes "ok d" and "ok e"
    and "filter (\<lambda>r. key r < a) (all_rows e) = filter (\<lambda>r. key r < a) (all_rows d)"
  shows "page e limit (Some a) = page d limit (Some a)"
  using assms by (simp add: page_rows)

end

subsection \<open>The owner's list\<close>

record list_scope =
  ls_owner :: uuid
  ls_status :: "operation_status option"
  ls_kind :: "string option"
  ls_before :: "(instant \<times> uuid) option"
  ls_limit :: int

record list_page =
  lp_rows :: "operation list"
  lp_has_more :: bool

definition listed :: "list_scope \<Rightarrow> operation_row \<Rightarrow> bool" where
  "listed scope r \<longleftrightarrow> op_owner r = ls_owner scope
     \<and> (case ls_status scope of None \<Rightarrow> True | Some st \<Rightarrow> op_status r = status_str st)
     \<and> (case ls_kind scope of None \<Rightarrow> True | Some k \<Rightarrow> op_kind r = k)"

definition keyset_of :: "operation_row \<Rightarrow> instant \<times> uuid" where
  "keyset_of r = (op_accepted_at r, op_id r)"

text \<open>\<^verbatim>\<open>order by accepted_at desc, operation_id desc\<close>\<close>

definition newest_first :: "operation_row list \<Rightarrow> operation_row list" where
  "newest_first t = rev (sort_key keyset_of t)"

definition list_operations :: "db \<Rightarrow> list_scope \<Rightarrow> operation_error + list_page" where
  "list_operations d scope =
     (let limit = nat (max (ls_limit scope) 0);
          rows = take (limit + 1) (newest_first
            (filter (\<lambda>r. listed scope r \<and> behind (ls_before scope) (keyset_of r)) (t_operations d)));
          has_more = limit < length rows
      in bindE (sequenceE (map operation_from_row (take limit rows)))
           (\<lambda>ops. Inr \<lparr>lp_rows = ops, lp_has_more = has_more\<rparr>))"

subsection \<open>The administrator's list\<close>

record admin_scope =
  as_owner :: "uuid option"
  as_status :: "operation_status option"
  as_kind :: "string option"
  as_before :: "(instant \<times> uuid) option"
  as_limit :: int

record inspected_operation =
  io_operation :: operation
  io_failure :: "string option"

record admin_page =
  ap_rows :: "inspected_operation list"
  ap_has_more :: bool

text \<open>The lateral join: the code of the newest error row of an operation.\<close>

definition failure_code :: "db \<Rightarrow> uuid \<Rightarrow> string option" where
  "failure_code d i =
     (case rev (sort_key (\<lambda>e. (er_recorded_at e, er_id e))
             (filter (\<lambda>e. er_operation e = i \<and> er_severity e = ''error'') (t_errors d))) of
        [] \<Rightarrow> None
      | e # _ \<Rightarrow> er_code e)"

definition inspected :: "admin_scope \<Rightarrow> operation_row \<Rightarrow> bool" where
  "inspected scope r \<longleftrightarrow> (case as_owner scope of None \<Rightarrow> True | Some u \<Rightarrow> op_owner r = u)
     \<and> (case as_status scope of None \<Rightarrow> True | Some st \<Rightarrow> op_status r = status_str st)
     \<and> (case as_kind scope of None \<Rightarrow> True | Some k \<Rightarrow> op_kind r = k)"

definition list_admin_operations :: "db \<Rightarrow> admin_scope \<Rightarrow> operation_error + admin_page" where
  "list_admin_operations d scope =
     (let limit = nat (max (as_limit scope) 0);
          rows = take (limit + 1) (newest_first
            (filter (\<lambda>r. inspected scope r \<and> behind (as_before scope) (keyset_of r)) (t_operations d)));
          has_more = limit < length rows
      in bindE (sequenceE (map (\<lambda>r. bindE (operation_from_row r)
                   (\<lambda>op. Inr \<lparr>io_operation = op, io_failure = failure_code d (op_id r)\<rparr>)) (take limit rows)))
           (\<lambda>rows. Inr \<lparr>ap_rows = rows, ap_has_more = has_more\<rparr>))"

subsection \<open>Progress and gauges\<close>

record progress_entry =
  pe_id :: uuid
  pe_status :: operation_status
  pe_stage :: "string option"
  pe_percent :: "int option"
  pe_message :: "string option"
  pe_observed_at :: instant

definition progress_entry_of :: "progress_row \<Rightarrow> operation_error + progress_entry" where
  "progress_entry_of r =
     bindE (ok_or (ContractViolation (''unknown stored status '' @ pr_status r)) (status_from_str (pr_status r)))
       (\<lambda>st. Inr \<lparr>pe_id = pr_id r, pe_status = st, pe_stage = pr_stage r,
          pe_percent = Option.bind (pr_percent r) (\<lambda>v. if 0 \<le> v \<and> v \<le> 255 then Some v else None),
          pe_message = pr_message r, pe_observed_at = pr_observed_at r\<rparr>)"

definition progress_rows_since :: "db \<Rightarrow> uuid \<Rightarrow> uuid option \<Rightarrow> progress_row list" where
  "progress_rows_since d i after =
     sort_key pr_id (filter (\<lambda>p. pr_operation p = i
       \<and> (case after of None \<Rightarrow> True | Some a \<Rightarrow> a < pr_id p)) (t_progress d))"

definition progress_since ::
  "db \<Rightarrow> uuid \<Rightarrow> uuid option \<Rightarrow> nat \<Rightarrow> operation_error + progress_entry list" where
  "progress_since d i after limit =
     sequenceE (map progress_entry_of (take limit (progress_rows_since d i after)))"

text \<open>The gauges: how many operations have each status, and the age of the oldest open one.\<close>

definition status_age :: "db \<Rightarrow> instant \<Rightarrow> string \<Rightarrow> int" where
  "status_age d now st =
     (case map (\<lambda>r. now - op_accepted_at r) (filter (\<lambda>r. op_status r = st) (t_operations d)) of
        [] \<Rightarrow> 0
      | a # as \<Rightarrow> round_seconds (fold max as a))"

definition sample_gauges :: "db \<Rightarrow> instant \<Rightarrow> (string \<times> nat) list \<times> int" where
  "sample_gauges d now =
     (map (\<lambda>st. (status_str st, rows_affected (\<lambda>r. op_status r = status_str st) (t_operations d))) all_statuses,
      fold max (map (\<lambda>st. status_age d now (status_str st))
        (filter (\<lambda>st. \<not> is_terminal st) all_statuses)) 0)"

subsection \<open>What a walk sees\<close>

lemma newest_first_sorted:
  assumes "distinct (map op_id t)"
  shows "sorted_wrt (\<lambda>x y. keyset_of y < keyset_of x) (newest_first t)"
proof -
  have d: "distinct (map keyset_of t)"
    using assms by (auto simp: distinct_map keyset_of_def inj_on_def)
  have "sorted (map keyset_of (sort_key keyset_of t))" by simp
  moreover have "distinct (map keyset_of (sort_key keyset_of t))" using d by (simp add: distinct_map)
  ultimately have "sorted_wrt (<) (map keyset_of (sort_key keyset_of t))" by (simp add: strict_sorted_iff)
  then show ?thesis by (simp add: newest_first_def sorted_wrt_rev sorted_wrt_map)
qed

lemma newest_first_filter: "newest_first (filter q t) = filter q (newest_first t)"
  by (simp add: newest_first_def rev_filter [symmetric] filter_sort)

lemma set_newest_first [simp]: "set (newest_first t) = set t"
  by (simp add: newest_first_def)

lemma length_newest_first [simp]: "length (newest_first t) = length t"
  by (simp add: newest_first_def)

definition stored_operation :: "operation_row \<Rightarrow> operation" where
  "stored_operation r = projr (operation_from_row r)"

lemma stored_operation_row:
  "operation_ok r \<Longrightarrow> operation_from_row r = Inr (stored_operation r)"
  by (auto simp: stored_operation_def elim!: operation_from_row_total)

lemma stored_operation_key:
  "operation_ok r \<Longrightarrow> (o_accepted_at (stored_operation r), o_id (stored_operation r)) = keyset_of r"
  by (drule stored_operation_row, drule operation_from_row_Inr) (simp add: keyset_of_def)

lemma sequence_rows:
  assumes "\<And>r. r \<in> set rs \<Longrightarrow> operation_ok r"
  shows "sequenceE (map operation_from_row rs) = Inr (map stored_operation rs)"
  using assms by (simp add: sequenceE_Inr stored_operation_row)

definition operation_key :: "operation \<Rightarrow> instant \<times> uuid" where
  "operation_key op = (o_accepted_at op, o_id op)"

text \<open>Everything an owner's walk should see, in its order, and one page as the walk reads it.\<close>

definition owned_operations :: "list_scope \<Rightarrow> db \<Rightarrow> operation list" where
  "owned_operations scope d = map stored_operation (newest_first (filter (listed scope) (t_operations d)))"

definition owner_page :: "list_scope \<Rightarrow> db \<Rightarrow> nat \<Rightarrow> (instant \<times> uuid) option \<Rightarrow> operation list \<times> bool" where
  "owner_page scope d limit anchor =
     (case list_operations d (scope\<lparr>ls_before := anchor, ls_limit := int limit\<rparr>) of
        Inr p \<Rightarrow> (lp_rows p, lp_has_more p)
      | Inl _ \<Rightarrow> ([], False))"

lemma listed_scope [simp]: "listed (scope\<lparr>ls_before := b, ls_limit := n\<rparr>) = listed scope"
  by (simp add: listed_def fun_eq_iff)

lemma filter_stored:
  assumes "\<And>r. r \<in> set rs \<Longrightarrow> operation_ok r"
  shows "filter (\<lambda>op. behind anchor (operation_key op)) (map stored_operation rs)
    = map stored_operation (filter (\<lambda>r. behind anchor (keyset_of r)) rs)"
  using assms
proof (induction rs)
  case Nil
  show ?case by simp
next
  case (Cons r rs)
  then have "operation_key (stored_operation r) = keyset_of r"
    using stored_operation_key [of r] by (simp add: operation_key_def)
  with Cons show ?case by simp
qed

lemma owned_sorted:
  assumes "db_ok d"
  shows "sorted_wrt (\<lambda>x y. operation_key y < operation_key x) (owned_operations scope d)"
proof -
  note t = db_okD(1) [OF assms]
  have ok: "operation_ok r" if "r \<in> set (newest_first (filter (listed scope) (t_operations d)))" for r
    using that ops_table.row_ok [OF t] by simp
  have "distinct (map op_id (filter (listed scope) (t_operations d)))"
    using ops_table.distinct_keys [OF t] by (rule distinct_map_filter)
  then have "sorted_wrt (\<lambda>x y. keyset_of y < keyset_of x) (newest_first (filter (listed scope) (t_operations d)))"
    by (rule newest_first_sorted)
  then show ?thesis unfolding owned_operations_def sorted_wrt_map
    by (rule sorted_wrt_mono_rel [rotated]) (simp add: operation_key_def stored_operation_key ok)
qed

lemma owner_page_rows:
  assumes "db_ok d"
  shows "owner_page scope d limit anchor
    = (take limit (filter (\<lambda>op. behind anchor (operation_key op)) (owned_operations scope d)),
       limit < length (filter (\<lambda>op. behind anchor (operation_key op)) (owned_operations scope d)))"
proof -
  note t = db_okD(1) [OF assms]
  let ?rows = "filter (\<lambda>r. behind anchor (keyset_of r)) (newest_first (filter (listed scope) (t_operations d)))"
  have ok: "operation_ok r" if "r \<in> set (newest_first (filter (listed scope) (t_operations d)))" for r
    using that ops_table.row_ok [OF t] by simp
  have rows: "newest_first (filter (\<lambda>r. listed scope r \<and> behind anchor (keyset_of r)) (t_operations d)) = ?rows"
    by (simp add: newest_first_filter filter_filter conj_commute)
  have "sequenceE (map operation_from_row (take limit ?rows)) = Inr (map stored_operation (take limit ?rows))"
    by (rule sequence_rows) (auto dest!: in_set_takeD intro: ok)
  then have "owner_page scope d limit anchor = (map stored_operation (take limit ?rows), limit < length ?rows)"
    by (simp add: owner_page_def list_operations_def Let_def rows min_def)
  moreover have "filter (\<lambda>op. behind anchor (operation_key op)) (owned_operations scope d) = map stored_operation ?rows"
    unfolding owned_operations_def by (rule filter_stored) (rule ok)
  ultimately show ?thesis by (simp add: take_map)
qed

interpretation owner_list: keyset db_ok operation_key "owned_operations scope" "owner_page scope" for scope
  by unfold_locales (simp_all add: owned_sorted owner_page_rows)

text \<open>
  An owner's walk is complete. Following the anchors of the pages, whatever the page size,
  gives every operation of the owner that meets the filters exactly once, newest first.
\<close>

lemma owner_walk_is_complete:
  assumes "db_ok d" and "0 < limit"
  shows "(let found = walk (Suc (length (t_operations d))) (owner_page scope d limit) operation_key None
     in mset (map o_id found) = mset (map op_id (filter (listed scope) (t_operations d)))
       \<and> sorted_wrt (\<lambda>x y. operation_key y < operation_key x) found)"
proof -
  note t = db_okD(1) [OF assms(1)]
  have "length (owned_operations scope d) \<le> length (t_operations d)" by (simp add: owned_operations_def)
  then have walk: "walk (Suc (length (t_operations d))) (owner_page scope d limit) operation_key None
      = owned_operations scope d"
    using owner_list.walk_rest [OF assms, of scope "[]"] by simp
  have "o_id (stored_operation r) = op_id r" if "r \<in> set (filter (listed scope) (t_operations d))" for r
    using that stored_operation_key [of r] ops_table.row_ok [OF t, of r] by (simp add: keyset_of_def)
  then have "map o_id (owned_operations scope d) = map op_id (newest_first (filter (listed scope) (t_operations d)))"
    by (simp add: owned_operations_def)
  then have "mset (map o_id (owned_operations scope d)) = mset (map op_id (filter (listed scope) (t_operations d)))"
    by (simp add: newest_first_def)
  then show ?thesis using owned_sorted [OF assms(1)] by (simp add: Let_def walk del: walk.simps)
qed

text \<open>
  An operation accepted while a client walks never shifts what the client has still to see. The
  page behind an anchor is the same after accepting any operation that sorts before the anchor.
\<close>

lemma accepting_does_not_shift_a_walk:
  assumes "db_ok d" and "accept d i owner kind correlation key reporter now = Inr (op, d')" and "a < (now, i)"
  shows "owner_page scope d' limit (Some a) = owner_page scope d limit (Some a)"
proof -
  have ok: "db_ok d'" using accept_ok [OF assms(2,1)] .
  let ?r = "accepted_row i owner kind correlation key reporter now"
  have t: "t_operations d' = t_operations d @ [?r]" using assms(2) by (simp add: accept_Inr)
  have new: "\<not> keyset_of ?r < a" using assms(3) by (simp add: keyset_of_def accepted_row_def)
  have rows: "filter (\<lambda>r. keyset_of r < a) (newest_first (filter (listed scope) (t_operations d')))
      = filter (\<lambda>r. keyset_of r < a) (newest_first (filter (listed scope) (t_operations d)))"
    unfolding newest_first_filter [symmetric] using new by (simp add: t)
  have mapped: "filter (\<lambda>op. operation_key op < a) (owned_operations scope e)
      = map stored_operation (filter (\<lambda>r. keyset_of r < a) (newest_first (filter (listed scope) (t_operations e))))"
    if "db_ok e" for e
    using filter_stored [of "newest_first (filter (listed scope) (t_operations e))" "Some a"]
      ops_table.row_ok [OF db_okD(1) [OF that]] by (simp add: owned_operations_def)
  show ?thesis by (rule owner_list.page_stable [OF assms(1) ok]) (simp add: mapped [OF ok] mapped [OF assms(1)] rows)
qed

subsection \<open>The administrator's walk\<close>

definition inspect :: "db \<Rightarrow> operation_row \<Rightarrow> inspected_operation" where
  "inspect d r = \<lparr>io_operation = stored_operation r, io_failure = failure_code d (op_id r)\<rparr>"

definition inspected_key :: "inspected_operation \<Rightarrow> instant \<times> uuid" where
  "inspected_key x = operation_key (io_operation x)"

definition inspected_operations :: "admin_scope \<Rightarrow> db \<Rightarrow> inspected_operation list" where
  "inspected_operations scope d = map (inspect d) (newest_first (filter (inspected scope) (t_operations d)))"

definition inspection_page ::
  "admin_scope \<Rightarrow> db \<Rightarrow> nat \<Rightarrow> (instant \<times> uuid) option \<Rightarrow> inspected_operation list \<times> bool" where
  "inspection_page scope d limit anchor =
     (case list_admin_operations d (scope\<lparr>as_before := anchor, as_limit := int limit\<rparr>) of
        Inr p \<Rightarrow> (ap_rows p, ap_has_more p)
      | Inl _ \<Rightarrow> ([], False))"

lemma inspected_scope [simp]: "inspected (scope\<lparr>as_before := b, as_limit := n\<rparr>) = inspected scope"
  by (simp add: inspected_def fun_eq_iff)

lemma inspect_key: "operation_ok r \<Longrightarrow> inspected_key (inspect d r) = keyset_of r"
  using stored_operation_key [of r] by (simp add: inspected_key_def inspect_def operation_key_def)

lemma filter_inspected:
  assumes "\<And>r. r \<in> set rs \<Longrightarrow> operation_ok r"
  shows "filter (\<lambda>x. behind anchor (inspected_key x)) (map (inspect d) rs)
    = map (inspect d) (filter (\<lambda>r. behind anchor (keyset_of r)) rs)"
  using assms by (induction rs) (simp_all add: inspect_key)

lemma inspected_sorted:
  assumes "db_ok d"
  shows "sorted_wrt (\<lambda>x y. inspected_key y < inspected_key x) (inspected_operations scope d)"
proof -
  note t = db_okD(1) [OF assms]
  have ok: "operation_ok r" if "r \<in> set (newest_first (filter (inspected scope) (t_operations d)))" for r
    using that ops_table.row_ok [OF t] by simp
  have "distinct (map op_id (filter (inspected scope) (t_operations d)))"
    using ops_table.distinct_keys [OF t] by (rule distinct_map_filter)
  then have "sorted_wrt (\<lambda>x y. keyset_of y < keyset_of x) (newest_first (filter (inspected scope) (t_operations d)))"
    by (rule newest_first_sorted)
  then show ?thesis unfolding inspected_operations_def sorted_wrt_map
    by (rule sorted_wrt_mono_rel [rotated]) (simp add: inspect_key ok)
qed

lemma inspection_page_rows:
  assumes "db_ok d"
  shows "inspection_page scope d limit anchor
    = (take limit (filter (\<lambda>x. behind anchor (inspected_key x)) (inspected_operations scope d)),
       limit < length (filter (\<lambda>x. behind anchor (inspected_key x)) (inspected_operations scope d)))"
proof -
  note t = db_okD(1) [OF assms]
  let ?rows = "filter (\<lambda>r. behind anchor (keyset_of r)) (newest_first (filter (inspected scope) (t_operations d)))"
  have ok: "operation_ok r" if "r \<in> set (newest_first (filter (inspected scope) (t_operations d)))" for r
    using that ops_table.row_ok [OF t] by simp
  have rows: "newest_first (filter (\<lambda>r. inspected scope r \<and> behind anchor (keyset_of r)) (t_operations d)) = ?rows"
    by (simp add: newest_first_filter filter_filter conj_commute)
  have "sequenceE (map (\<lambda>r. bindE (operation_from_row r)
        (\<lambda>op. Inr \<lparr>io_operation = op, io_failure = failure_code d (op_id r)\<rparr>)) (take limit ?rows))
      = Inr (map (inspect d) (take limit ?rows))"
    unfolding sequenceE_Inr map_map
    by (rule map_cong [OF refl]) (auto dest!: in_set_takeD simp: stored_operation_row ok inspect_def)
  then have "inspection_page scope d limit anchor = (map (inspect d) (take limit ?rows), limit < length ?rows)"
    by (simp add: inspection_page_def list_admin_operations_def Let_def rows min_def)
  moreover have "filter (\<lambda>x. behind anchor (inspected_key x)) (inspected_operations scope d) = map (inspect d) ?rows"
    unfolding inspected_operations_def by (rule filter_inspected) (rule ok)
  ultimately show ?thesis by (simp add: take_map)
qed

interpretation admin_list: keyset db_ok inspected_key "inspected_operations scope" "inspection_page scope" for scope
  by unfold_locales (simp_all add: inspected_sorted inspection_page_rows)

text \<open>
  The administrator's walk over all owners is complete too, and each row carries the code of
  the newest error recorded of its operation.
\<close>

lemma admin_walk_is_complete:
  assumes "db_ok d" and "0 < limit"
  shows "walk (Suc (length (t_operations d))) (inspection_page scope d limit) inspected_key None
    = map (\<lambda>r. \<lparr>io_operation = stored_operation r, io_failure = failure_code d (op_id r)\<rparr>)
        (newest_first (filter (inspected scope) (t_operations d)))"
proof -
  have "length (inspected_operations scope d) \<le> length (t_operations d)" by (simp add: inspected_operations_def)
  then show ?thesis
    using admin_list.walk_rest [OF assms, of scope "[]"]
    by (simp add: inspected_operations_def inspect_def [abs_def])
qed

subsection \<open>Resuming a stream\<close>

lemma progress_entry_id: "progress_entry_of r = Inr e \<Longrightarrow> pe_id e = pr_id r"
  by (auto simp: progress_entry_of_def)

lemma progress_entry_total: "progress_ok r \<Longrightarrow> \<exists>e. progress_entry_of r = Inr e"
  by (auto simp: progress_entry_of_def progress_ok_def known_status_from_str)

lemma progress_rows_distinct:
  assumes "db_ok d"
  shows "sorted_wrt (\<lambda>x y. pr_id x < pr_id y) (progress_rows_since d i after)"
proof -
  have "distinct (map pr_id (filter (\<lambda>p. pr_operation p = i
       \<and> (case after of None \<Rightarrow> True | Some a \<Rightarrow> a < pr_id p)) (t_progress d)))"
    using progress_table.distinct_keys [OF db_okD(3) [OF assms]] by (rule distinct_map_filter)
  then have "distinct (map pr_id (progress_rows_since d i after))"
    by (simp add: progress_rows_since_def distinct_map)
  moreover have "sorted (map pr_id (progress_rows_since d i after))" by (simp add: progress_rows_since_def)
  ultimately have "sorted_wrt (<) (map pr_id (progress_rows_since d i after))" by (simp add: strict_sorted_iff)
  then show ?thesis by (simp add: sorted_wrt_map)
qed

lemma progress_rows_resume:
  assumes "db_ok d" and "progress_rows_since d i after = xs @ x # ys"
  shows "progress_rows_since d i (Some (pr_id x)) = ys"
proof -
  have s: "sorted_wrt (\<lambda>x y. pr_id x < pr_id y) (xs @ x # ys)"
    using progress_rows_distinct [OF assms(1), of i after] assms(2) by simp
  have "a < pr_id x" if "after = Some a" for a
  proof -
    have "x \<in> set (progress_rows_since d i after)" using assms(2) by simp
    then show ?thesis using that by (simp add: progress_rows_since_def)
  qed
  then have "progress_rows_since d i (Some (pr_id x)) = filter (\<lambda>p. pr_id x < pr_id p) (progress_rows_since d i after)"
    by (cases after) (auto simp: progress_rows_since_def filter_sort conj_commute intro!: arg_cong [where f = "sort_key pr_id"] filter_cong)
  also have "\<dots> = ys"
    using s by (auto simp: assms(2) sorted_wrt_append filter_empty_conv filter_id_conv)
  finally show ?thesis .
qed

text \<open>
  A client that resumes from the last entry it saw neither repeats one nor misses one. Reading
  \<open>m + n\<close> entries at once is reading \<open>m\<close>, then \<open>n\<close> after the last of those.
\<close>

lemma progress_resumes_exactly:
  assumes "db_ok d" and "progress_since d i after m = Inr es" and "length es = m" and "0 < m"
  shows "progress_since d i after (m + n)
    = bindE (progress_since d i (Some (pe_id (last es))) n) (\<lambda>more. Inr (es @ more))"
proof -
  let ?rows = "progress_rows_since d i after"
  have es: "map progress_entry_of (take m ?rows) = map Inr es"
    using assms(2) by (simp add: progress_since_def sequenceE_Inr)
  then have "length (take m ?rows) = m" using assms(3) by (metis length_map)
  then have m: "m \<le> length ?rows" by simp
  let ?x = "?rows ! (m - 1)"
  have split: "?rows = take (m - 1) ?rows @ ?x # drop m ?rows"
    using m assms(4) id_take_nth_drop [of "m - 1" ?rows] by simp
  have "progress_entry_of (last (take m ?rows)) = Inr (last es)"
    using es m assms(3,4) by (metis last_map length_0_conv length_map not_gr_zero)
  moreover have "last (take m ?rows) = ?x"
    using m assms(4) by (subst last_conv_nth) (auto simp: min_absorb2)
  ultimately have "pe_id (last es) = pr_id ?x" by (simp add: progress_entry_id)
  then have "progress_rows_since d i (Some (pe_id (last es))) = drop m ?rows"
    using progress_rows_resume [OF assms(1) split] by simp
  moreover have "sequenceE (map progress_entry_of (take m ?rows) @ map progress_entry_of (take n (drop m ?rows)))
      = bindE (sequenceE (map progress_entry_of (take n (drop m ?rows)))) (\<lambda>more. Inr (es @ more))"
    unfolding es by (induction es) (auto simp: bindE_assoc bindE_def split: sum.splits)
  ultimately show ?thesis
    by (simp add: progress_since_def take_add)
qed

subsection \<open>The properties at concrete inputs\<close>

definition demo_scope :: list_scope where
  "demo_scope = \<lparr>ls_owner = 2, ls_status = None, ls_kind = None, ls_before = None, ls_limit = 1\<rparr>"

definition two_operations :: db where
  "two_operations = empty_db\<lparr>
     t_operations := [sample_row ''accepted'',
       sample_row ''running''\<lparr>op_id := 9, op_accepted_at := 12, op_status_changed_at := 12\<rparr>],
     t_progress := [progress_of 3 1 Queued None None None 11, progress_of 4 1 Running None None None 12]\<rparr>"

lemma two_operations_ok: "db_ok two_operations"
  by code_simp

lemma owner_walk_is_complete_witness:
  "map o_id (walk 3 (owner_page demo_scope two_operations 1) operation_key None) = [9, 1]
   \<and> mset (map o_id (walk 3 (owner_page demo_scope two_operations 1) operation_key None))
     = mset (map op_id (filter (listed demo_scope) (t_operations two_operations)))"
proof -
  have "length (t_operations two_operations) = 2" by (simp add: two_operations_def)
  with owner_walk_is_complete [OF two_operations_ok, of 1 demo_scope]
  have "mset (map o_id (walk 3 (owner_page demo_scope two_operations 1) operation_key None))
     = mset (map op_id (filter (listed demo_scope) (t_operations two_operations)))"
    by (simp add: Let_def numeral_3_eq_3 del: walk.simps)
  moreover have "map o_id (walk 3 (owner_page demo_scope two_operations 1) operation_key None) = [9, 1]"
    by code_simp
  ultimately show ?thesis by (rule_tac conjI)
qed

lemma admin_walk_is_complete_witness:
  "length (walk 3 (inspection_page \<lparr>as_owner = None, as_status = None, as_kind = None, as_before = None,
     as_limit = 1\<rparr> two_operations 1) inspected_key None) = 2"
proof -
  let ?scope = "\<lparr>as_owner = None, as_status = None, as_kind = None, as_before = None, as_limit = 1\<rparr>"
  have "length (t_operations two_operations) = 2" by (simp add: two_operations_def)
  with admin_walk_is_complete [OF two_operations_ok, of 1 ?scope] show ?thesis
    by (simp add: numeral_3_eq_3 inspected_def del: walk.simps)
qed

lemma progress_resumes_exactly_witness:
  "\<exists>es more. progress_since two_operations 1 None 1 = Inr es
     \<and> progress_since two_operations 1 None 2 = Inr (es @ more) \<and> length more = 1"
proof -
  have one: "case progress_since two_operations 1 None 1 of Inr es \<Rightarrow> length es = 1 \<and> pe_id (last es) = 3 | Inl _ \<Rightarrow> False"
    and two: "case progress_since two_operations 1 (Some 3) 1 of Inr es \<Rightarrow> length es = 1 | Inl _ \<Rightarrow> False"
    by code_simp+
  from one obtain es where es: "progress_since two_operations 1 None 1 = Inr es" "length es = 1" "pe_id (last es) = 3"
    by (auto split: sum.splits)
  from two obtain more where more: "progress_since two_operations 1 (Some 3) 1 = Inr more" "length more = 1"
    by (auto split: sum.splits)
  from progress_resumes_exactly [OF two_operations_ok es(1,2), of 1] es more show ?thesis
    by (simp add: numeral_2_eq_2)
qed

end
