(* ===== verification/Scheduling.thy ===== *)
theory Scheduling
  imports Listing
begin

text \<open>
  \<^verbatim>\<open>crates/scheduling/src/lib.rs\<close>, with the cron functions and the occurrence identifier of
  \<^verbatim>\<open>registration.rs\<close> and the command envelope of \<^verbatim>\<open>crates/eventing/src/command.rs\<close>: a due schedule
  becomes a deterministic occurrence, an accepted operation and an outbox row, in one transaction.
\<close>

datatype scheduling_error =
    SPersistence persistence_error
  | SEventing eventing_error
  | SOperation operation_error
  | UnusableRow uuid string

definition selected :: "sql_error + 'a \<Rightarrow> scheduling_error + 'a" where
  "selected = map_err (SPersistence \<circ> Query)"

lemma selected_simps [simp]:
  "selected (Inl e) = Inl (SPersistence (Query e))"
  "selected (Inr a) = Inr a"
  "selected m = Inr a \<longleftrightarrow> m = Inr a"
  by (simp_all add: selected_def)

subsection \<open>What the component takes from other crates\<close>

text \<open>The typed command of a channel digest and its envelope (\<^verbatim>\<open>ratatoskr-contracts\<close>).\<close>

record digest_request =
  dg_schedule_ref :: string
  dg_occurrence_ref :: string
  dg_previous_due_at :: instant
  dg_due_at :: instant

record digest_envelope =
  de_command_id :: uuid
  de_issued_at :: instant
  de_producer :: string
  de_aggregate :: string
  de_correlation :: string
  de_tenant :: string
  de_payload :: "(string \<times> json) list"

text \<open>
  The text and the version 5 of a UUID (crate \<^verbatim>\<open>uuid\<close>), the text of an instant (\<^verbatim>\<open>jiff\<close>), the size
  PostgreSQL gives a document, the crate \<^verbatim>\<open>cron\<close> (whether an expression parses, and the grid points
  around a second), and the parsers and serializers of the contracts.
\<close>

record scheduler_env =
  uuid_text :: "uuid \<Rightarrow> string"
  uuid_v5 :: "uuid \<Rightarrow> string \<Rightarrow> uuid"
  time_text :: "instant \<Rightarrow> string"
  payload_octets :: "json \<Rightarrow> int"
  cron_valid :: "string \<Rightarrow> bool"
  cron_next :: "string \<Rightarrow> int \<Rightarrow> int option"
  cron_previous :: "string \<Rightarrow> int \<Rightarrow> int option"
  digest_command_type :: string
  parse_schedule_ref :: "string \<Rightarrow> string option"
  parse_occurrence_ref :: "string \<Rightarrow> string option"
  parse_producer :: "string \<Rightarrow> string option"
  parse_entity :: "string \<Rightarrow> string option"
  entity_of_operation :: "uuid \<Rightarrow> string"
  tenant_of_owner :: "uuid \<Rightarrow> string"
  validate_digest :: "digest_request \<Rightarrow> bool"
  digest_value :: "digest_request \<Rightarrow> json option"
  envelope_value :: "digest_envelope \<Rightarrow> json option"

text \<open>What one transaction mints: three version 7 UUIDs and a correlation reference.\<close>

record minted =
  mt_operation :: uuid
  mt_outbox :: uuid
  mt_command :: uuid
  mt_correlation :: string

subsection \<open>Cron and the occurrence identifier\<close>

text \<open>\<open>Timestamp::as_second\<close> truncates towards zero.\<close>

definition as_second :: "instant \<Rightarrow> int" where
  "as_second t = (if 0 \<le> t then t div 1000000 else - ((- t) div 1000000))"

fun whitespace_pieces :: "string \<Rightarrow> string list" where
  "whitespace_pieces [] = [[]]"
| "whitespace_pieces (c # cs) =
     (if is_whitespace c then [] # whitespace_pieces cs
      else (case whitespace_pieces cs of [] \<Rightarrow> [[c]] | w # ws \<Rightarrow> (c # w) # ws))"

definition split_whitespace :: "string \<Rightarrow> string list" where
  "split_whitespace s = filter (\<lambda>w. w \<noteq> []) (whitespace_pieces s)"

definition six_fields :: "string \<Rightarrow> string" where
  "six_fields expression = ''0 '' @ expression @ '' *''"

definition next_after :: "scheduler_env \<Rightarrow> string \<Rightarrow> instant \<Rightarrow> instant option" where
  "next_after env expression after =
     (if length (split_whitespace expression) \<noteq> 5 then None
      else if \<not> cron_valid env (six_fields expression) then None
      else map_option seconds (cron_next env (six_fields expression) (as_second after)))"

definition previous_before :: "scheduler_env \<Rightarrow> string \<Rightarrow> instant \<Rightarrow> int \<Rightarrow> instant option" where
  "previous_before env expression due max_back =
     (if length (split_whitespace expression) \<noteq> 5 then None
      else if \<not> cron_valid env (six_fields expression) then None
      else
        let earliest = due - max_back;
            previous = map_option seconds (cron_previous env (six_fields expression) (as_second due))
        in Some (case previous of None \<Rightarrow> earliest | Some p \<Rightarrow> max p earliest))"

definition digit_char :: "nat \<Rightarrow> char" where
  "digit_char n = char_of (48 + n)"

fun digits_of :: "nat \<Rightarrow> string" where
  "digits_of n = (if n < 10 then [digit_char n] else digits_of (n div 10) @ [digit_char (n mod 10)])"

declare digits_of.simps [simp del]

text \<open>The decimal text of an \<open>i64\<close>.\<close>

definition decimal :: "int \<Rightarrow> string" where
  "decimal i = (if i < 0 then CHR ''-'' # digits_of (nat (- i)) else digits_of (nat i))"

definition occurrence_namespace :: uuid where
  "occurrence_namespace = 0x8c1f4a2e6d734b909f215e0c7a48d3b6"

definition occurrence_name :: "scheduler_env \<Rightarrow> uuid \<Rightarrow> instant \<Rightarrow> string" where
  "occurrence_name env schedule_id due_at = uuid_text env schedule_id @ CHR '':'' # decimal due_at"

definition occurrence_id :: "scheduler_env \<Rightarrow> uuid \<Rightarrow> instant \<Rightarrow> uuid" where
  "occurrence_id env schedule_id due_at =
     uuid_v5 env occurrence_namespace (occurrence_name env schedule_id due_at)"

subsection \<open>The command envelope\<close>

record outgoing_command =
  cd_command_type :: string
  cd_operation :: uuid
  cd_principal :: uuid
  cd_correlation :: string
  cd_idempotency_key :: string
  cd_requested_at :: instant

definition command_envelope :: "scheduler_env \<Rightarrow> uuid \<Rightarrow> outgoing_command \<Rightarrow> json \<Rightarrow> json" where
  "command_envelope env command_id c payload = JObject
     [(''command_id'', JString (uuid_text env command_id)),
      (''command_type'', JString (cd_command_type c)),
      (''requested_at'', JString (time_text env (cd_requested_at c))),
      (''operation_id'', JString (uuid_text env (cd_operation c))),
      (''tenant_id'', JString (''user:'' @ uuid_text env (cd_principal c))),
      (''correlation_id'', JString (cd_correlation c)),
      (''idempotency_key'', JString (cd_idempotency_key c)),
      (''payload'', payload)]"

subsection \<open>One schedule\<close>

record schedule =
  sd_id :: uuid
  sd_service :: string
  sd_name :: string
  sd_owner :: uuid
  sd_command_type :: string
  sd_operation_kind :: string
  sd_payload :: json
  sd_cron :: string
  sd_next_due_at :: instant

record handled =
  hd_name :: string
  hd_published :: bool
  hd_drift_seconds :: int

record scheduler_report =
  sr_due :: nat
  sr_published :: nat
  sr_suppressed :: nat
  sr_failed :: nat

definition is_due :: "instant \<Rightarrow> schedule_row \<Rightarrow> bool" where
  "is_due now r \<longleftrightarrow> sc_enabled r \<and> sc_next_due_at r \<le> now"

definition due_schedules ::
  "(schedule_row list \<Rightarrow> schedule_row list) \<Rightarrow> db \<Rightarrow> nat \<Rightarrow> instant \<Rightarrow> uuid list" where
  "due_schedules scan d limit now =
     map sc_id (take limit (sort_key sc_next_due_at (filter (is_due now) (scan (t_schedules d)))))"

definition claim_schedule :: "bool \<Rightarrow> db \<Rightarrow> uuid \<Rightarrow> instant \<Rightarrow> schedule option" where
  "claim_schedule locked d schedule_id now =
     (if locked then None
      else map_option (\<lambda>r. \<lparr>sd_id = schedule_id, sd_service = sc_service r, sd_name = sc_name r,
              sd_owner = sc_owner r, sd_command_type = sc_command_type r,
              sd_operation_kind = sc_operation_kind r, sd_payload = sc_payload r,
              sd_cron = sc_cron r, sd_next_due_at = sc_next_due_at r\<rparr>)
            (fetch_optional (\<lambda>r. sc_id r = schedule_id \<and> is_due now r) (t_schedules d)))"

definition recorded :: "db \<Rightarrow> uuid \<Rightarrow> bool" where
  "recorded d occurrence = row_exists (\<lambda>r. oc_id r = occurrence) (t_occurrences d)"

text \<open>\<open>SignedDuration::from_hours(7 * 24)\<close>\<close>

definition digest_max_span :: int where
  "digest_max_span = seconds (7 * 24 * 3600)"

definition digest_occurrence ::
  "scheduler_env \<Rightarrow> schedule \<Rightarrow> uuid \<Rightarrow> uuid \<Rightarrow> instant \<Rightarrow> scheduling_error + json" where
  "digest_occurrence env s occurrence operation now =
     (let unusable = UnusableRow (sd_id s);
          due_at = sd_next_due_at s;
          occurrence_ref = ''schedule-occurrence:'' @ uuid_text env occurrence
      in bindE (ok_or (unusable ''cron_expression'')
                 (previous_before env (sd_cron s) due_at digest_max_span)) (\<lambda>previous.
         bindE (ok_or (unusable ''schedule_id'')
                 (parse_schedule_ref env (''schedule:'' @ uuid_text env (sd_id s)))) (\<lambda>schedule_ref.
         bindE (ok_or (unusable ''schedule_id'') (parse_occurrence_ref env occurrence_ref)) (\<lambda>occ_ref.
           let payload = \<lparr>dg_schedule_ref = schedule_ref, dg_occurrence_ref = occ_ref,
                          dg_previous_due_at = previous, dg_due_at = due_at\<rparr>
           in if \<not> validate_digest env payload then Inl (unusable ''cron_expression'')
              else case digest_value env payload of
                Some (JObject body) \<Rightarrow>
                  bindE (ok_or (unusable ''producer'') (parse_producer env ''ratatoskr-platform'')) (\<lambda>producer.
                  bindE (ok_or (unusable ''schedule_id'') (parse_entity env occurrence_ref)) (\<lambda>aggregate.
                    ok_or (unusable ''envelope'') (envelope_value env
                      \<lparr>de_command_id = occurrence, de_issued_at = now, de_producer = producer,
                       de_aggregate = aggregate, de_correlation = entity_of_operation env operation,
                       de_tenant = tenant_of_owner env (sd_owner s), de_payload = body\<rparr>)))
              | _ \<Rightarrow> Inl (unusable ''payload'')))))"

definition occurrence_of :: "schedule \<Rightarrow> uuid \<Rightarrow> int \<Rightarrow> uuid \<Rightarrow> instant \<Rightarrow> occurrence_row" where
  "occurrence_of s occurrence drift operation now =
     \<lparr>oc_id = occurrence, oc_schedule = sd_id s, oc_due_at = sd_next_due_at s, oc_published_at = now,
      oc_drift_seconds = drift, oc_operation = Some operation\<rparr>"

definition insert_occurrence :: "db \<Rightarrow> occurrence_row \<Rightarrow> sql_error + db" where
  "insert_occurrence d r =
     bindE (sql_insert occurrence_ok occurrence_clash r (t_occurrences d)) (\<lambda>t.
       if row_exists (\<lambda>s. sc_id s = oc_schedule r) (t_schedules d)
          \<and> (case oc_operation r of None \<Rightarrow> True | Some i \<Rightarrow> operation_exists d i)
       then Inr (d\<lparr>t_occurrences := t\<rparr>)
       else Inl Foreign_key_violation)"

definition lane_of :: "schedule \<Rightarrow> string option" where
  "lane_of s = (if allows (sd_operation_kind s) (sd_service s) then Some (sd_service s) else None)"

definition publish_occurrence ::
  "scheduler_env \<Rightarrow> minted \<Rightarrow> db \<Rightarrow> schedule \<Rightarrow> uuid \<Rightarrow> int \<Rightarrow> instant \<Rightarrow> scheduling_error + db" where
  "publish_occurrence env mt d s occurrence drift now =
     bindE (map_err SEventing (subject_new Command (sd_command_type s))) (\<lambda>subj.
     let key = uuid_text env occurrence
     in bindE (map_err SOperation (accept d (mt_operation mt) (sd_owner s) (sd_operation_kind s)
                 (mt_correlation mt) (Some key) (lane_of s) now)) (\<lambda>(operation, d1).
        bindE (selected (insert_occurrence d1
                 (occurrence_of s occurrence drift (o_id operation) now))) (\<lambda>d2.
        bindE (if sd_command_type s = digest_command_type env
               then digest_occurrence env s occurrence (o_id operation) now
               else Inr (command_envelope env (mt_command mt)
                      \<lparr>cd_command_type = sd_command_type s, cd_operation = o_id operation,
                       cd_principal = sd_owner s, cd_correlation = mt_correlation mt,
                       cd_idempotency_key = key, cd_requested_at = now\<rparr> (sd_payload s))) (\<lambda>envelope.
        bindE (map_err SEventing (enqueue (payload_octets env) d2 (mt_outbox mt) occurrence subj
                 envelope (Some (o_id operation)) now)) (\<lambda>(_, d3). Inr d3)))))"

definition rescheduled_row :: "instant \<Rightarrow> bool \<Rightarrow> instant \<Rightarrow> schedule_row \<Rightarrow> schedule_row" where
  "rescheduled_row next_due_at published now r =
     r\<lparr>sc_next_due_at := next_due_at, sc_updated_at := now,
       sc_last_published_at := (if published then Some now else sc_last_published_at r)\<rparr>"

definition reschedule :: "db \<Rightarrow> uuid \<Rightarrow> instant \<Rightarrow> bool \<Rightarrow> instant \<Rightarrow> scheduling_error + db" where
  "reschedule d schedule_id next_due_at published now =
     bindE (selected (sql_update (\<lambda>_. schedule_ok) schedule_clash (\<lambda>r. sc_id r = schedule_id)
              (rescheduled_row next_due_at published now) (t_schedules d)))
       (\<lambda>t. Inr (d\<lparr>t_schedules := t\<rparr>))"

text \<open>
  \<open>locked\<close>: another transaction holds the row (\<^verbatim>\<open>skip locked\<close>); \<open>commits\<close>: PostgreSQL accepts the
  commit.
\<close>

definition schedule_handle ::
  "scheduler_env \<Rightarrow> minted \<Rightarrow> bool \<Rightarrow> bool \<Rightarrow> db \<Rightarrow> uuid \<Rightarrow> instant
     \<Rightarrow> scheduling_error + handled option \<times> db" where
  "schedule_handle env mt locked commits d schedule_id now =
     (case claim_schedule locked d schedule_id now of
        None \<Rightarrow> Inr (None, d)
      | Some s \<Rightarrow>
          let due_at = sd_next_due_at s;
              occurrence = occurrence_id env (sd_id s) due_at;
              drift = max 0 ((now - due_at) div 1000000)
          in bindE (if recorded d occurrence then Inr (False, d)
                    else bindE (publish_occurrence env mt d s occurrence drift now)
                           (\<lambda>d1. Inr (True, d1))) (\<lambda>(published, d1).
             bindE (ok_or (UnusableRow schedule_id ''cron_expression'')
                      (next_after env (sd_cron s) due_at)) (\<lambda>next_due_at.
             bindE (reschedule d1 (sd_id s) next_due_at published now) (\<lambda>d2.
               if commits
               then Inr (Some \<lparr>hd_name = sd_name s, hd_published = published, hd_drift_seconds = drift\<rparr>, d2)
               else Inl (SPersistence (Query Row_not_found))))))"

subsection \<open>One pass\<close>

definition count_handled :: "scheduler_report \<Rightarrow> handled \<Rightarrow> scheduler_report" where
  "count_handled report h =
     (if hd_published h then report\<lparr>sr_published := sr_published report + 1\<rparr>
      else report\<lparr>sr_suppressed := sr_suppressed report + 1\<rparr>)"

text \<open>What the environment does during one pass, by the position in its list of due schedules.\<close>

record pass_env =
  pe_mint :: "nat \<Rightarrow> minted"
  pe_locked :: "nat \<Rightarrow> bool"
  pe_commits :: "nat \<Rightarrow> bool"
  pe_meanwhile :: "nat \<Rightarrow> db \<Rightarrow> db"

fun schedule_loop ::
  "scheduler_env \<Rightarrow> pass_env \<Rightarrow> instant \<Rightarrow> nat \<Rightarrow> uuid list \<Rightarrow> scheduler_report \<Rightarrow> db
     \<Rightarrow> scheduler_report \<times> db" where
  "schedule_loop env p now n [] report d = (report, d)"
| "schedule_loop env p now n (i # rest) report d =
     (let d = pe_meanwhile p n d
      in case schedule_handle env (pe_mint p n) (pe_locked p n) (pe_commits p n) d i now of
           Inr (Some h, d') \<Rightarrow> schedule_loop env p now (Suc n) rest (count_handled report h) d'
         | Inr (None, d') \<Rightarrow> schedule_loop env p now (Suc n) rest report d'
         | Inl e \<Rightarrow> schedule_loop env p now (Suc n) rest (report\<lparr>sr_failed := sr_failed report + 1\<rparr>) d)"

definition scheduler_run ::
  "scheduler_env \<Rightarrow> pass_env \<Rightarrow> (schedule_row list \<Rightarrow> schedule_row list) \<Rightarrow> db \<Rightarrow> nat \<Rightarrow> instant
     \<Rightarrow> scheduler_report \<times> db" where
  "scheduler_run env p scan d limit now =
     (let due = due_schedules scan d limit now
      in schedule_loop env p now 0 due
           \<lparr>sr_due = length due, sr_published = 0, sr_suppressed = 0, sr_failed = 0\<rparr> d)"

subsection \<open>Retention\<close>

definition collect_occurrences_before ::
  "(occurrence_row list \<Rightarrow> occurrence_row list) \<Rightarrow> db \<Rightarrow> instant \<Rightarrow> nat \<Rightarrow> nat \<times> db" where
  "collect_occurrences_before scan d before limit =
     (let (n, t) = delete_limited scan oc_id (\<lambda>r. oc_published_at r < before) limit (t_occurrences d)
      in (n, d\<lparr>t_occurrences := t\<rparr>))"

subsection \<open>The grid\<close>

text \<open>What \<open>after(t).next()\<close> and \<open>after(t).next_back()\<close> of the crate \<^verbatim>\<open>cron\<close> document.\<close>

definition cron_strict :: "scheduler_env \<Rightarrow> bool" where
  "cron_strict env \<longleftrightarrow> (\<forall>e t u. cron_next env e t = Some u \<longrightarrow> t < u)
     \<and> (\<forall>e t u. cron_previous env e t = Some u \<longrightarrow> u < t)"

lemma as_second_bounds: "seconds (as_second t - 1) < t" "t < seconds (as_second t + 1)"
proof -
  have "seconds (as_second t) < t + 1000000 \<and> t < seconds (as_second t) + 1000000"
    using div_mult_mod_eq [of t 1000000] div_mult_mod_eq [of "- t" 1000000]
      pos_mod_bound [of 1000000 t] pos_mod_sign [of 1000000 t]
      pos_mod_bound [of 1000000 "- t"] pos_mod_sign [of 1000000 "- t"]
    by (auto simp: as_second_def seconds_def)
  then show "seconds (as_second t - 1) < t" "t < seconds (as_second t + 1)"
    by (simp_all add: seconds_def)
qed

lemma next_after_later:
  assumes "cron_strict env" and "next_after env e t = Some u"
  shows "t < u"
proof -
  from assms obtain v where "u = seconds v" "as_second t < v"
    by (auto simp: next_after_def cron_strict_def split: if_splits)
  then have "seconds (as_second t + 1) \<le> u" by simp
  with as_second_bounds(2) [of t] show ?thesis by linarith
qed

lemma previous_before_bounds:
  assumes "cron_strict env" and "previous_before env e due span = Some p" and "0 < span"
  shows "due - span \<le> p" and "p < due"
proof -
  have "seconds u < due" if "cron_previous env (six_fields e) (as_second due) = Some u" for u
  proof -
    have "u \<le> as_second due - 1" using that assms(1) by (force simp: cron_strict_def)
    then have "seconds u \<le> seconds (as_second due - 1)" by simp
    with as_second_bounds(1) [of due] show ?thesis by linarith
  qed
  with assms(2,3) show "due - span \<le> p" "p < due"
    by (auto simp: previous_before_def Let_def split: if_splits option.splits)
qed

subsection \<open>The name of an occurrence\<close>

definition digit_value :: "char \<Rightarrow> nat" where
  "digit_value c = byte c - 48"

lemma digit_value_char: "n < 10 \<Longrightarrow> digit_value (digit_char n) = n"
  by (simp add: digit_value_def digit_char_def)

definition value_of_digits :: "string \<Rightarrow> nat" where
  "value_of_digits = foldl (\<lambda>a c. 10 * a + digit_value c) 0"

lemma value_of_digits: "value_of_digits (digits_of n) = n"
proof (induction n rule: digits_of.induct)
  case (1 n)
  then show ?case
    by (subst digits_of.simps) (auto simp: value_of_digits_def digit_value_char)
qed

lemma digits_of_digit: "set (digits_of n) \<subseteq> digit_char ` {..<10}"
proof (induction n rule: digits_of.induct)
  case (1 n)
  then show ?case by (subst digits_of.simps) auto
qed

lemma digit_char_sign: "n < 10 \<Longrightarrow> digit_char n \<noteq> CHR ''-''"
  by (auto simp: digit_char_def dest!: arg_cong [where f = "of_char :: char \<Rightarrow> nat"])

lemma digits_of_nonempty: "digits_of n \<noteq> []"
  by (subst digits_of.simps) auto

lemma decimal_inject: "decimal i = decimal j \<longleftrightarrow> i = j"
proof
  assume eq: "decimal i = decimal j"
  have sign: "hd (digits_of n) \<noteq> CHR ''-''" for n
    using hd_in_set [OF digits_of_nonempty [of n]] digits_of_digit [of n] digit_char_sign by auto
  have "i < 0 \<longleftrightarrow> j < 0"
    using arg_cong [OF eq, of hd] sign [of "nat i"] sign [of "nat j"]
    by (auto simp: decimal_def split: if_splits)
  with eq have "nat \<bar>i\<bar> = nat \<bar>j\<bar>" and "i < 0 \<longleftrightarrow> j < 0"
    by (auto simp: decimal_def split: if_splits dest!: arg_cong [where f = value_of_digits]
        simp: value_of_digits)
  then show "i = j" by linarith
qed simp

lemma occurrence_name_inject:
  assumes "\<And>i j. uuid_text env i = uuid_text env j \<Longrightarrow> i = j" and "\<And>i. CHR '':'' \<notin> set (uuid_text env i)"
  shows "occurrence_name env i t = occurrence_name env j u \<longleftrightarrow> i = j \<and> t = u"
proof
  assume "occurrence_name env i t = occurrence_name env j u"
  then have "split_once (CHR '':'') (uuid_text env i @ CHR '':'' # decimal t)
    = split_once (CHR '':'') (uuid_text env j @ CHR '':'' # decimal u)"
    by (simp add: occurrence_name_def)
  then show "i = j \<and> t = u"
    using split_once_Some [of "CHR '':''"] assms(2) assms(1) decimal_inject
    by (metis (no_types, lifting) option.inject prod.inject)
qed simp

subsection \<open>One transaction\<close>

definition schedule_of :: "schedule_row \<Rightarrow> schedule" where
  "schedule_of r = \<lparr>sd_id = sc_id r, sd_service = sc_service r, sd_name = sc_name r,
     sd_owner = sc_owner r, sd_command_type = sc_command_type r,
     sd_operation_kind = sc_operation_kind r, sd_payload = sc_payload r,
     sd_cron = sc_cron r, sd_next_due_at = sc_next_due_at r\<rparr>"

lemma schedule_of_simps [simp]:
  "sd_id (schedule_of r) = sc_id r" "sd_owner (schedule_of r) = sc_owner r"
  "sd_cron (schedule_of r) = sc_cron r" "sd_next_due_at (schedule_of r) = sc_next_due_at r"
  "sd_operation_kind (schedule_of r) = sc_operation_kind r" "sd_name (schedule_of r) = sc_name r"
  "sd_command_type (schedule_of r) = sc_command_type r"
  by (simp_all add: schedule_of_def)

lemma claim_schedule_Some:
  "claim_schedule locked d i now = Some s \<longleftrightarrow> \<not> locked
     \<and> (\<exists>r. fetch_optional (\<lambda>r. sc_id r = i \<and> is_due now r) (t_schedules d) = Some r \<and> s = schedule_of r)"
  by (auto simp: claim_schedule_def schedule_of_def dest: fetch_optional_SomeD)

lemma fetch_due:
  assumes "db_ok d" and "r \<in> set (t_schedules d)" and "is_due now r"
  shows "fetch_optional (\<lambda>x. sc_id x = sc_id r \<and> is_due now x) (t_schedules d) = Some r"
proof -
  obtain x where x: "fetch_optional (\<lambda>x. sc_id x = sc_id r \<and> is_due now x) (t_schedules d) = Some x"
    using assms(2,3) by (metis (mono_tags, lifting) fetch_optional_None not_None_eq)
  then have "x \<in> set (t_schedules d)" "sc_id x = sc_id r" by (auto dest: fetch_optional_SomeD)
  with assms(1,2) x show ?thesis using schedules_table.same_key [OF db_okD(9)] by metis
qed

lemma insert_occurrence_Inr:
  "insert_occurrence d r = Inr d' \<longleftrightarrow> occurrence_ok r
     \<and> (\<forall>x \<in> set (t_occurrences d). \<not> occurrence_clash x r)
     \<and> row_exists (\<lambda>s. sc_id s = oc_schedule r) (t_schedules d)
     \<and> (case oc_operation r of None \<Rightarrow> True | Some i \<Rightarrow> operation_exists d i)
     \<and> d' = d\<lparr>t_occurrences := t_occurrences d @ [r]\<rparr>"
  by (auto simp: insert_occurrence_def sql_insert_Inr)

lemma insert_occurrence_ok: "insert_occurrence d r = Inr d' \<Longrightarrow> db_ok d \<Longrightarrow> db_ok d'"
  by (auto simp: insert_occurrence_def split: if_splits intro!: db_ok_update
      intro: occurrences_table.insert_ok [of _ "t_occurrences d"] db_okD)

lemma publish_occurrence_Inr:
  assumes "publish_occurrence env mt d s k drift now = Inr d'"
  shows "t_operations d' = t_operations d @ [accepted_row (mt_operation mt) (sd_owner s)
           (sd_operation_kind s) (mt_correlation mt) (Some (uuid_text env k)) (lane_of s) now]"
    and "t_occurrences d' = t_occurrences d @ [occurrence_of s k drift (mt_operation mt) now]"
    and "\<exists>r \<in> set (t_outbox d'). ob_message r = k"
    and "t_schedules d' = t_schedules d"
    and "db_ok d \<Longrightarrow> db_ok d'"
    and "\<forall>x \<in> set (t_occurrences d). \<not> occurrence_clash x (occurrence_of s k drift (mt_operation mt) now)"
    and "\<forall>x \<in> set (t_operations d). \<not> operation_clash x (accepted_row (mt_operation mt) (sd_owner s)
           (sd_operation_kind s) (mt_correlation mt) (Some (uuid_text env k)) (lane_of s) now)"
proof -
  from assms obtain subj op d1 d2 envelope b where
    acc: "accept d (mt_operation mt) (sd_owner s) (sd_operation_kind s) (mt_correlation mt)
            (Some (uuid_text env k)) (lane_of s) now = Inr (op, d1)"
    and occ: "insert_occurrence d1 (occurrence_of s k drift (o_id op) now) = Inr d2"
    and enq: "enqueue (payload_octets env) d2 (mt_outbox mt) k subj envelope (Some (o_id op)) now = Inr (b, d')"
    by (auto simp: publish_occurrence_def Let_def split: prod.splits)
  have op: "o_id op = mt_operation mt" using acc by (simp add: accept_Inr)
  note rows = acc [unfolded accept_Inr] occ [unfolded insert_occurrence_Inr] enqueue_Inr(3) [OF enq]
  show "t_operations d' = t_operations d @ [accepted_row (mt_operation mt) (sd_owner s)
           (sd_operation_kind s) (mt_correlation mt) (Some (uuid_text env k)) (lane_of s) now]"
    "t_occurrences d' = t_occurrences d @ [occurrence_of s k drift (mt_operation mt) now]"
    "t_schedules d' = t_schedules d"
    "\<forall>x \<in> set (t_operations d). \<not> operation_clash x (accepted_row (mt_operation mt) (sd_owner s)
           (sd_operation_kind s) (mt_correlation mt) (Some (uuid_text env k)) (lane_of s) now)"
    "\<forall>x \<in> set (t_occurrences d). \<not> occurrence_clash x (occurrence_of s k drift (mt_operation mt) now)"
    using rows op by (simp_all split: if_splits)
  show "\<exists>r \<in> set (t_outbox d'). ob_message r = k"
    using rows(3) enqueue_Inr(2) [OF enq] by (cases b) (auto simp: outbox_row_of_def)
  show "db_ok d \<Longrightarrow> db_ok d'"
    using accept_ok [OF acc] insert_occurrence_ok [OF occ] enqueue_Inr(1) [OF enq] by blast
qed

lemma rescheduled_row_simps [simp]:
  "sc_id (rescheduled_row t b now r) = sc_id r"
  "schedule_clash (rescheduled_row t b now r) x = schedule_clash r x"
  by (simp_all add: rescheduled_row_def schedule_clash_def schedule_name_clash_def)

lemma reschedule_Inr:
  assumes "reschedule d i t b now = Inr d'"
  shows "d' = d\<lparr>t_schedules := update_where (\<lambda>r. sc_id r = i) (rescheduled_row t b now) (t_schedules d)\<rparr>"
    and "db_ok d \<Longrightarrow> db_ok d'"
proof -
  from assms obtain u where u: "sql_update (\<lambda>_. schedule_ok) schedule_clash (\<lambda>r. sc_id r = i)
      (rescheduled_row t b now) (t_schedules d) = Inr u" and d': "d' = d\<lparr>t_schedules := u\<rparr>"
    by (auto simp: reschedule_def)
  show "d' = d\<lparr>t_schedules := update_where (\<lambda>r. sc_id r = i) (rescheduled_row t b now) (t_schedules d)\<rparr>"
    using u d' by (simp add: sql_update_Inr)
  show "db_ok d \<Longrightarrow> db_ok d'"
    using schedules_table.update_ok [OF u] d' by (auto dest: db_okD(9))
qed

text \<open>The identifier of the occurrence a schedule is due for.\<close>

abbreviation due_occurrence :: "scheduler_env \<Rightarrow> schedule_row \<Rightarrow> uuid" where
  "due_occurrence env r \<equiv> occurrence_id env (sc_id r) (sc_next_due_at r)"

lemma schedule_handle_None:
  "schedule_handle env mt locked commits d i now = Inr (None, d') \<longleftrightarrow>
     d' = d \<and> claim_schedule locked d i now = None"
  by (auto simp: schedule_handle_def Let_def split: option.splits if_splits)

lemma schedule_handle_Some:
  assumes "schedule_handle env mt locked commits d i now = Inr (Some h, d')"
  obtains r d1 t where "r \<in> set (t_schedules d)" and "sc_id r = i" and "is_due now r"
    and "next_after env (sc_cron r) (sc_next_due_at r) = Some t"
    and "hd_published h \<longleftrightarrow> \<not> recorded d (due_occurrence env r)"
    and "if hd_published h
         then publish_occurrence env mt d (schedule_of r) (due_occurrence env r) (hd_drift_seconds h) now = Inr d1
         else d1 = d"
    and "h = \<lparr>hd_name = sc_name r, hd_published = hd_published h,
             hd_drift_seconds = max 0 ((now - sc_next_due_at r) div 1000000)\<rparr>"
    and "reschedule d1 i t (hd_published h) now = Inr d'"
proof -
  from assms obtain s where s: "claim_schedule locked d i now = Some s"
    by (auto simp: schedule_handle_def split: option.splits)
  then obtain r where r: "r \<in> set (t_schedules d)" "sc_id r = i" "is_due now r" "s = schedule_of r"
    by (auto simp: claim_schedule_Some dest: fetch_optional_SomeD)
  with assms s show thesis
    by (auto simp: schedule_handle_def Let_def split: if_splits intro!: that [of r])
qed

definition schedule_at :: "db \<Rightarrow> uuid \<Rightarrow> schedule_row option" where
  "schedule_at d i = fetch_optional (\<lambda>r. sc_id r = i) (t_schedules d)"

lemma schedule_at_row: "db_ok d \<Longrightarrow> r \<in> set (t_schedules d) \<Longrightarrow> schedule_at d (sc_id r) = Some r"
  unfolding schedule_at_def by (subst schedules_table.fetch_key [OF db_okD(9)]) simp_all

lemma schedule_at_update:
  "schedule_at (d\<lparr>t_schedules := update_where (\<lambda>r. sc_id r = i) (rescheduled_row t b now) (t_schedules d)\<rparr>) j
     = (if j = i then map_option (rescheduled_row t b now) (schedule_at d i) else schedule_at d j)"
proof -
  have "fetch_optional (\<lambda>r. sc_id r = j) (update_where (\<lambda>r. sc_id r = i) (rescheduled_row t b now) (t_schedules d))
    = map_option (\<lambda>r. if sc_id r = i then rescheduled_row t b now r else r)
        (fetch_optional (\<lambda>r. sc_id r = j) (t_schedules d))"
    by (rule fetch_update_where) simp
  note moved = this
  show ?thesis
  proof (cases "fetch_optional (\<lambda>r. sc_id r = j) (t_schedules d)")
    case None
    with moved show ?thesis by (auto simp: schedule_at_def)
  next
    case (Some r)
    then have "sc_id r = j" by (auto dest: fetch_optional_SomeD)
    with moved Some show ?thesis by (auto simp: schedule_at_def)
  qed
qed

text \<open>What a committed transaction for \<open>r\<close> did besides moving the schedule.\<close>

definition handling_effect ::
  "scheduler_env \<Rightarrow> minted \<Rightarrow> instant \<Rightarrow> handled \<Rightarrow> schedule_row \<Rightarrow> db \<Rightarrow> db \<Rightarrow> bool" where
  "handling_effect env mt now h r d d' \<longleftrightarrow>
     (if hd_published h then
        \<not> recorded d (due_occurrence env r)
        \<and> t_operations d' = t_operations d @ [accepted_row (mt_operation mt) (sc_owner r)
            (sc_operation_kind r) (mt_correlation mt) (Some (uuid_text env (due_occurrence env r)))
            (lane_of (schedule_of r)) now]
        \<and> t_occurrences d' = t_occurrences d @ [occurrence_of (schedule_of r) (due_occurrence env r)
            (max 0 ((now - sc_next_due_at r) div 1000000)) (mt_operation mt) now]
        \<and> (\<exists>m \<in> set (t_outbox d'). ob_message m = due_occurrence env r)
      else recorded d (due_occurrence env r) \<and> d' = d\<lparr>t_schedules := t_schedules d'\<rparr>)"

lemma suppressed_occurrences:
  "handling_effect env mt now h r d d' \<Longrightarrow> \<not> hd_published h \<Longrightarrow> t_occurrences d' = t_occurrences d"
  unfolding handling_effect_def by (metis db.select_convs(10) db.surjective db.update_convs(9))

lemma handled_schedule:
  assumes "db_ok d" and "schedule_handle env mt locked commits d i now = Inr (Some h, d')"
  obtains r t where "schedule_at d i = Some r" and "is_due now r"
    and "next_after env (sc_cron r) (sc_next_due_at r) = Some t"
    and "t_schedules d' = update_where (\<lambda>r. sc_id r = i) (rescheduled_row t (hd_published h) now) (t_schedules d)"
    and "handling_effect env mt now h r d d'"
    and "db_ok d'"
  using assms(2)
proof (rule schedule_handle_Some)
  fix r d1 t
  assume r: "r \<in> set (t_schedules d)" "sc_id r = i" "is_due now r"
    and t: "next_after env (sc_cron r) (sc_next_due_at r) = Some t"
    and pub: "hd_published h \<longleftrightarrow> \<not> recorded d (due_occurrence env r)"
    and d1: "if hd_published h
         then publish_occurrence env mt d (schedule_of r) (due_occurrence env r) (hd_drift_seconds h) now = Inr d1
         else d1 = d"
    and h: "h = \<lparr>hd_name = sc_name r, hd_published = hd_published h,
             hd_drift_seconds = max 0 ((now - sc_next_due_at r) div 1000000)\<rparr>"
    and d': "reschedule d1 i t (hd_published h) now = Inr d'"
  have drift: "hd_drift_seconds h = max 0 ((now - sc_next_due_at r) div 1000000)"
    using h by (metis handled.select_convs(3))
  have at: "schedule_at d i = Some r" using schedule_at_row [OF assms(1) r(1)] r(2) by simp
  note moved = reschedule_Inr [OF d']
  show thesis
  proof (cases "hd_published h")
    case True
    with d1 have "publish_occurrence env mt d (schedule_of r) (due_occurrence env r) (hd_drift_seconds h) now = Inr d1"
      by simp
    note p = publish_occurrence_Inr [OF this]
    show ?thesis
      by (rule that [OF at r(3) t]) (use p moved True pub drift assms(1) in \<open>simp_all add: handling_effect_def\<close>)
  next
    case False
    with d1 moved pub assms(1) show ?thesis by (intro that [OF at r(3) t]) (simp_all add: handling_effect_def)
  qed
qed

text \<open>
  C34: Handling a due schedule: it is enabled and due, moves to the grid point that its expression gives next after the
  due point, which is strictly later, and its occurrence is published exactly when it was not recorded yet: an accepted operation with
  the occurrence as its key, the occurrence row, and a message of that identity in the outbox.
  A suppressed one writes nothing but the schedule.
\<close>

theorem due_schedule_is_handled:
  assumes "db_ok d" and "cron_strict env"
    and "schedule_handle env mt locked commits d i now = Inr (Some h, d')"
  shows "\<exists>r t. schedule_at d i = Some r \<and> sc_enabled r \<and> sc_next_due_at r \<le> now
     \<and> next_after env (sc_cron r) (sc_next_due_at r) = Some t \<and> sc_next_due_at r < t
     \<and> schedule_at d' i = Some (rescheduled_row t (hd_published h) now r)
     \<and> (\<forall>j. j \<noteq> i \<longrightarrow> schedule_at d' j = schedule_at d j)
     \<and> hd_published h = (\<not> recorded d (occurrence_id env i (sc_next_due_at r)))
     \<and> (if hd_published h then
          t_operations d' = t_operations d @ [accepted_row (mt_operation mt) (sc_owner r)
            (sc_operation_kind r) (mt_correlation mt)
            (Some (uuid_text env (occurrence_id env i (sc_next_due_at r)))) (lane_of (schedule_of r)) now]
          \<and> recorded d' (occurrence_id env i (sc_next_due_at r))
          \<and> (\<exists>m \<in> set (t_outbox d'). ob_message m = occurrence_id env i (sc_next_due_at r))
        else d' = d\<lparr>t_schedules := t_schedules d'\<rparr>)
     \<and> db_ok d'"
  using assms(1,3)
proof (rule handled_schedule)
  fix r t
  assume *: "schedule_at d i = Some r" "is_due now r" "next_after env (sc_cron r) (sc_next_due_at r) = Some t"
    "t_schedules d' = update_where (\<lambda>r. sc_id r = i) (rescheduled_row t (hd_published h) now) (t_schedules d)"
    "handling_effect env mt now h r d d'"
    "db_ok d'"
  have i: "sc_id r = i" using *(1) by (auto simp: schedule_at_def dest: fetch_optional_SomeD)
  have "schedule_at d' j = (if j = i then map_option (rescheduled_row t (hd_published h) now) (schedule_at d i)
      else schedule_at d j)" for j
    using schedule_at_update [where d = d and i = i and t = t and b = "hd_published h" and now = now and j = j] *(4) by (simp add: schedule_at_def)
  with * i next_after_later [OF assms(2) *(3)] show ?thesis
    by (intro exI [of _ r] exI [of _ t])
      (auto simp: handling_effect_def is_due_def recorded_def row_exists_def occurrence_of_def split: if_splits)
qed

subsection \<open>Due points\<close>

abbreviation due_point :: "occurrence_row \<Rightarrow> uuid \<times> instant" where
  "due_point x \<equiv> (oc_schedule x, oc_due_at x)"

lemma distinct_due_points:
  assumes "db_ok d"
  shows "distinct (map due_point (t_occurrences d))"
proof -
  have "sorted_wrt (\<lambda>x y. \<not> occurrence_clash x y) t \<Longrightarrow> distinct (map due_point t)" for t
    by (induction t) (auto simp: occurrence_clash_def)
  with assms show ?thesis by (simp add: db_ok_def table_ok_def)
qed

definition published_points :: "db \<Rightarrow> uuid \<Rightarrow> handled \<Rightarrow> (uuid \<times> instant) list" where
  "published_points d i h =
     (if hd_published h then (case schedule_at d i of None \<Rightarrow> [] | Some r \<Rightarrow> [(i, sc_next_due_at r)]) else [])"

lemma handling_grows:
  assumes "db_ok d" and "schedule_handle env mt locked commits d i now = Inr (Some h, d')"
  shows "db_ok d' \<and> map due_point (t_occurrences d') = map due_point (t_occurrences d) @ published_points d i h"
  using assms
proof (rule handled_schedule)
  fix r t
  assume r: "schedule_at d i = Some r" and ok: "db_ok d'" and eff: "handling_effect env mt now h r d d'"
  have i: "sc_id r = i" using r by (auto simp: schedule_at_def dest: fetch_optional_SomeD)
  show ?thesis
  proof (cases "hd_published h")
    case True
    with eff r i ok show ?thesis by (simp add: handling_effect_def occurrence_of_def published_points_def)
  next
    case False
    with suppressed_occurrences [OF eff] ok show ?thesis by (simp add: published_points_def)
  qed
qed

lemma handled_effect:
  assumes "db_ok d" and "schedule_handle env mt locked commits d i now = Inr (Some h, d')"
    and "schedule_at d i = Some r"
  shows "handling_effect env mt now h r d d'" and "is_due now r" and "db_ok d'"
proof -
  from assms(1,2) have "handling_effect env mt now h r d d' \<and> is_due now r \<and> db_ok d'"
    by (rule handled_schedule) (use assms(3) in simp)
  then show "handling_effect env mt now h r d d'" and "is_due now r" and "db_ok d'" by simp_all
qed

text \<open>No statement of the program deletes an operation or changes its owner, kind or key.\<close>

definition operations_survive :: "db \<Rightarrow> db \<Rightarrow> bool" where
  "operations_survive d e = list_all (\<lambda>x. list_ex (\<lambda>y. op_owner y = op_owner x
     \<and> op_kind y = op_kind x \<and> op_idempotency y = op_idempotency x) (t_operations e)) (t_operations d)"

lemma collect_occurrences_ok: "db_ok d \<Longrightarrow> db_ok (snd (collect_occurrences_before scan d t n))"
  by (auto simp: collect_occurrences_before_def split: prod.splits
      intro!: db_ok_update intro: occurrences_table.delete_limited_ok db_okD(10))

subsection \<open>Histories\<close>

text \<open>
  What a history notes: a publication of a due point, with the owner and the kind that its schedule has at that moment,
  and a due point whose record the retention sweep deleted.
\<close>

datatype schedule_note = Published_point uuid instant uuid string | Forgotten_point uuid instant

definition published_notes :: "db \<Rightarrow> uuid \<Rightarrow> handled \<Rightarrow> schedule_note list" where
  "published_notes d i h =
     (if hd_published h
      then (case schedule_at d i of None \<Rightarrow> [] | Some r \<Rightarrow> [Published_point i (sc_next_due_at r) (sc_owner r) (sc_operation_kind r)])
      else [])"

definition forgotten_notes :: "db \<Rightarrow> db \<Rightarrow> schedule_note list" where
  "forgotten_notes d e =
     map (\<lambda>x. Forgotten_point (oc_schedule x) (oc_due_at x))
       (filter (\<lambda>x. \<not> row_exists (\<lambda>y. oc_id y = oc_id x) (t_occurrences e)) (t_occurrences d))"

text \<open>
  A history: committed transactions of schedulers, retention sweeps, and whatever else commits between them. Nothing
  else in the program writes the table of occurrences, and no statement deletes an operation or changes its owner, kind
  or key; a registration, an operator who moves \<open>next_due_at\<close>, the pump and the projections are such writes. A scheduler
  transaction that is skipped or aborted leaves the database as it was and is no step.
\<close>

inductive schedule_run :: "scheduler_env \<Rightarrow> db \<Rightarrow> schedule_note list \<Rightarrow> db \<Rightarrow> bool" for env d where
  run_start: "schedule_run env d [] d"
| run_handled: "schedule_run env d log e \<Longrightarrow> schedule_handle env mt locked commits e i now = Inr (Some h, e') \<Longrightarrow>
     schedule_run env d (log @ published_notes e i h) e'"
| run_swept: "schedule_run env d log e \<Longrightarrow> collect_occurrences_before scan e before limit = (n, e') \<Longrightarrow>
     schedule_run env d (log @ forgotten_notes e e') e'"
| run_other: "schedule_run env d log e \<Longrightarrow> db_ok e' \<Longrightarrow> t_occurrences e' = t_occurrences e \<Longrightarrow> operations_survive e e' \<Longrightarrow>
     schedule_run env d log e'"

text \<open>The due points that are on record after a history.\<close>

fun records_after :: "schedule_note list \<Rightarrow> (uuid \<times> instant) set \<Rightarrow> (uuid \<times> instant) set" where
  "records_after [] P = P"
| "records_after (Published_point i t owner kind # log) P = records_after log (insert (i, t) P)"
| "records_after (Forgotten_point i t # log) P = records_after log (P - {(i, t)})"

fun never_republishes :: "schedule_note list \<Rightarrow> (uuid \<times> instant) set \<Rightarrow> bool" where
  "never_republishes [] P = True"
| "never_republishes (Published_point i t owner kind # log) P \<longleftrightarrow> (i, t) \<notin> P \<and> never_republishes log (insert (i, t) P)"
| "never_republishes (Forgotten_point i t # log) P \<longleftrightarrow> never_republishes log (P - {(i, t)})"

fun is_publication :: "schedule_note \<Rightarrow> bool" where
  "is_publication (Published_point i t owner kind) = True"
| "is_publication (Forgotten_point i t) = False"

lemma records_after_append: "records_after (xs @ ys) P = records_after ys (records_after xs P)"
  by (induction xs P rule: records_after.induct) simp_all

lemma never_republishes_append:
  "never_republishes (xs @ ys) P \<longleftrightarrow> never_republishes xs P \<and> never_republishes ys (records_after xs P)"
  by (induction xs P rule: never_republishes.induct) simp_all

lemma forgotten_log:
  fixes rows :: "occurrence_row list"
  defines "log \<equiv> map (\<lambda>x. Forgotten_point (oc_schedule x) (oc_due_at x)) rows"
  shows "never_republishes log P" and "records_after log P = P - due_point ` set rows" and "filter is_publication log = []"
  unfolding log_def by (induction rows arbitrary: P) auto

lemma swept_points:
  assumes "db_ok d" and "collect_occurrences_before scan d before limit = (n, e)"
  shows "due_point ` set (t_occurrences e) = records_after (forgotten_notes d e) (due_point ` set (t_occurrences d))"
    and "db_ok e" and "t_operations e = t_operations d"
proof -
  define ks where "ks = oc_id ` set (take limit (filter (\<lambda>r. oc_published_at r < before) (scan (t_occurrences d))))"
  have e: "e = d\<lparr>t_occurrences := filter (\<lambda>r. oc_id r \<notin> ks) (t_occurrences d)\<rparr>"
    using assms(2) by (auto simp: ks_def collect_occurrences_before_def delete_limited_def delete_where_def Let_def)
  let ?gone = "filter (\<lambda>x. \<not> row_exists (\<lambda>y. oc_id y = oc_id x) (t_occurrences e)) (t_occurrences d)"
  have gone: "set ?gone = {x \<in> set (t_occurrences d). oc_id x \<in> ks}"
    by (auto simp: e row_exists_def list_ex_iff)
  have "inj_on due_point (set (t_occurrences d))" using distinct_due_points [OF assms(1)] by (simp add: distinct_map)
  then have "due_point ` set (t_occurrences e) = due_point ` set (t_occurrences d) - due_point ` set ?gone"
    unfolding gone by (subst inj_on_image_set_diff [symmetric, where C = "set (t_occurrences d)"]) (auto simp: e)
  then show "due_point ` set (t_occurrences e) = records_after (forgotten_notes d e) (due_point ` set (t_occurrences d))"
    by (simp only: forgotten_notes_def forgotten_log(2))
  show "db_ok e" using collect_occurrences_ok [OF assms(1), of scan before limit] assms(2) by simp
  show "t_operations e = t_operations d" by (simp add: e)
qed

text \<open>The operation that a publication leaves behind.\<close>

definition leaves_operation :: "scheduler_env \<Rightarrow> db \<Rightarrow> schedule_note \<Rightarrow> bool" where
  "leaves_operation env d x =
     (case x of
        Forgotten_point i t \<Rightarrow> True
      | Published_point i t owner kind \<Rightarrow> list_ex (\<lambda>y. op_owner y = owner \<and> op_kind y = kind
          \<and> op_idempotency y = Some (uuid_text env (occurrence_id env i t))) (t_operations d))"

lemma leaves_operation_survives: "leaves_operation env d x \<Longrightarrow> operations_survive d e \<Longrightarrow> leaves_operation env e x"
  unfolding leaves_operation_def operations_survive_def list_all_iff list_ex_iff
  by (cases x) (auto, metis)

lemma operations_survive_append: "t_operations e = t_operations d @ rows \<Longrightarrow> operations_survive d e"
  by (auto simp: operations_survive_def list_all_iff list_ex_iff)

text \<open>One publication: its due point is on no record, and its operation is the first with its owner, kind and key.\<close>

lemma handled_notes:
  assumes "db_ok d" and "schedule_handle env mt locked commits d i now = Inr (Some h, e)"
  shows "db_ok e" and "operations_survive d e"
    and "due_point ` set (t_occurrences e) = records_after (published_notes d i h) (due_point ` set (t_occurrences d))"
    and "never_republishes (published_notes d i h) (due_point ` set (t_occurrences d))"
    and "\<forall>x \<in> set (published_notes d i h). \<not> leaves_operation env d x \<and> leaves_operation env e x"
    and "filter is_publication (published_notes d i h) = published_notes d i h" and "distinct (published_notes d i h)"
proof -
  obtain r where r: "schedule_at d i = Some r" by (rule handled_schedule [OF assms])
  note eff = handled_effect [OF assms r]
  have i: "sc_id r = i" using r by (auto simp: schedule_at_def dest: fetch_optional_SomeD)
  show ok: "db_ok e" by (rule eff(3))
  note grows = handling_grows [OF assms]
  have points: "map due_point (t_occurrences e) = map due_point (t_occurrences d)
      @ (if hd_published h then [(i, sc_next_due_at r)] else [])"
    using grows r by (simp add: published_points_def)
  have noted: "published_notes d i h
      = (if hd_published h then [Published_point i (sc_next_due_at r) (sc_owner r) (sc_operation_kind r)] else [])"
    using r by (simp add: published_notes_def)
  have "set (map due_point (t_occurrences e)) = set (map due_point (t_occurrences d))
      \<union> (if hd_published h then {(i, sc_next_due_at r)} else {})"
    unfolding points by simp
  then show "due_point ` set (t_occurrences e) = records_after (published_notes d i h) (due_point ` set (t_occurrences d))"
    by (simp add: noted)
  have "distinct (map due_point (t_occurrences e))" by (rule distinct_due_points [OF ok])
  then show "never_republishes (published_notes d i h) (due_point ` set (t_occurrences d))"
    unfolding points by (auto simp: noted)
  show "filter is_publication (published_notes d i h) = published_notes d i h" "distinct (published_notes d i h)"
    by (simp_all add: noted)
  have ops: "t_operations e = t_operations d @ (if hd_published h then [accepted_row (mt_operation mt) (sc_owner r)
      (sc_operation_kind r) (mt_correlation mt) (Some (uuid_text env (due_occurrence env r)))
      (lane_of (schedule_of r)) now] else [])"
  proof (cases "hd_published h")
    case False
    then have "e = d\<lparr>t_schedules := t_schedules e\<rparr>" using eff(1) by (simp add: handling_effect_def)
    then have "t_operations e = t_operations d" by (metis db.ext_inject db.surjective db.update_convs(9))
    with False show ?thesis by simp
  qed (use eff(1) in \<open>simp add: handling_effect_def\<close>)
  show "operations_survive d e" by (rule operations_survive_append [OF ops])
  have "sorted_wrt (\<lambda>x y. \<not> operation_clash x y) (t_operations e)" using ok by (simp add: db_ok_def table_ok_def)
  then show "\<forall>x \<in> set (published_notes d i h). \<not> leaves_operation env d x \<and> leaves_operation env e x"
    unfolding ops
    by (auto simp: noted leaves_operation_def list_ex_iff i sorted_wrt_append operation_clash_def accepted_row_def ops)
qed

lemma schedule_run_invariant:
  assumes "schedule_run env d log e" and "db_ok d"
  shows "db_ok e \<and> due_point ` set (t_occurrences e) = records_after log (due_point ` set (t_occurrences d))
    \<and> never_republishes log (due_point ` set (t_occurrences d))
    \<and> (\<forall>x \<in> set log. leaves_operation env e x) \<and> distinct (filter is_publication log)"
  using assms(1)
proof (induction rule: schedule_run.induct)
  case run_start
  then show ?case by (simp add: assms(2))
next
  case (run_handled log e mt locked commits i now h e')
  then have ok: "db_ok e" by blast
  note n = handled_notes [OF ok run_handled.hyps(2)]
  have "\<forall>x \<in> set log. leaves_operation env e' x" using run_handled.IH leaves_operation_survives [OF _ n(2)] by blast
  moreover have "set log \<inter> set (published_notes e i h) = {}" using run_handled.IH n(5) by blast
  ultimately show ?case
    using run_handled.IH n by (auto simp: records_after_append never_republishes_append)
next
  case (run_swept log e scan before limit n e')
  then have ok: "db_ok e" by blast
  note w = swept_points [OF ok run_swept.hyps(2)]
  have "\<forall>x \<in> set (log @ forgotten_notes e e'). leaves_operation env e' x"
    using run_swept.IH by (auto simp: leaves_operation_def w(3) forgotten_notes_def split: schedule_note.splits)
  then show ?case
    using run_swept.IH w forgotten_log(1,3)
    by (simp add: records_after_append never_republishes_append forgotten_notes_def)
next
  case (run_other log e e')
  then show ?case using leaves_operation_survives by (metis (no_types, lifting))
qed

text \<open>
  C17: No due point of a schedule is published twice while it is on record. Over any history of scheduler
  transactions, retention sweeps and other writes, a rewind of \<open>next_due_at\<close> and a new registration included, a due
  point that is published is not on record at that moment: it was never published, or the sweep deleted its record
  since. Not even after the sweep is it published again for the same owner and kind: publications are pairwise
  different as quadruples of schedule, due point, owner and kind.
\<close>

theorem no_due_point_is_published_twice:
  assumes "db_ok d" and "schedule_run env d log d'"
  shows "(\<forall>before i t owner kind rest. log = before @ Published_point i t owner kind # rest \<longrightarrow>
        (i, t) \<notin> records_after before (due_point ` set (t_occurrences d)))
     \<and> due_point ` set (t_occurrences d') = records_after log (due_point ` set (t_occurrences d))
     \<and> distinct (filter is_publication log)"
  using schedule_run_invariant [OF assms(2,1)] by (auto simp: never_republishes_append)

subsection \<open>A rewind past the retention window\<close>

lemma taken_key_refuses:
  assumes "db_ok e" and "schedule_at e i = Some r" and "is_due now r"
    and "\<not> recorded e (due_occurrence env r)"
    and "y \<in> set (t_operations e)" and "op_owner y = sc_owner r" and "op_kind y = sc_operation_kind r"
    and "op_idempotency y = Some (uuid_text env (due_occurrence env r))"
  shows "\<exists>err. schedule_handle env mt False commits e i now = Inl err"
proof (rule ccontr)
  have r: "r \<in> set (t_schedules e)" "sc_id r = i" using assms(2) by (auto simp: schedule_at_def dest: fetch_optional_SomeD)
  have claimed: "claim_schedule False e i now = Some (schedule_of r)"
    using fetch_due [OF assms(1) r(1) assms(3)] r(2) by (simp add: claim_schedule_Some)
  assume "\<not> ?thesis"
  then obtain x e' where x: "schedule_handle env mt False commits e i now = Inr (x, e')"
    by (cases "schedule_handle env mt False commits e i now") auto
  then obtain h where "x = Some h" using claimed by (cases x) (simp_all add: schedule_handle_None)
  with x have h: "schedule_handle env mt False commits e i now = Inr (Some h, e')" by simp
  note eff = handled_effect [OF assms(1) h assms(2)]
  have "t_operations e' = t_operations e @ [accepted_row (mt_operation mt) (sc_owner r)
      (sc_operation_kind r) (mt_correlation mt) (Some (uuid_text env (due_occurrence env r)))
      (lane_of (schedule_of r)) now]"
    using eff(1) assms(4) by (simp add: handling_effect_def split: if_splits)
  moreover have "sorted_wrt (\<lambda>x y. \<not> operation_clash x y) (t_operations e')"
    using eff(3) by (simp add: db_ok_def table_ok_def)
  ultimately show False using assms(5-8) by (auto simp: sorted_wrt_append operation_clash_def accepted_row_def)
qed

text \<open>
  C38: Once the retention sweep has deleted an occurrence, moving \<open>next_due_at\<close> of its schedule back
  to that due point does not publish it again: the operation it created is still there with the
  occurrence as its idempotency key, so every transaction for the schedule fails and leaves it due.
\<close>

theorem rewind_past_retention_always_fails:
  assumes "db_ok d" and "schedule_handle env mt locked commits d i now = Inr (Some h, d')" and "hd_published h"
    and "schedule_at d i = Some r"
    and "db_ok e" and "operations_survive d' e" and "\<not> recorded e (due_occurrence env r)"
    and "schedule_at e i = Some (r\<lparr>sc_updated_at := u, sc_last_published_at := p\<rparr>)"
    and "sc_next_due_at r \<le> later"
  shows "\<exists>err. schedule_handle env mt' False commits' e i later = Inl err"
proof -
  note eff = handled_effect [OF assms(1,2,4)]
  have "t_operations d' = t_operations d @ [accepted_row (mt_operation mt) (sc_owner r)
      (sc_operation_kind r) (mt_correlation mt) (Some (uuid_text env (due_occurrence env r)))
      (lane_of (schedule_of r)) now]"
    using eff(1) assms(3) by (simp add: handling_effect_def)
  then have "accepted_row (mt_operation mt) (sc_owner r) (sc_operation_kind r) (mt_correlation mt)
      (Some (uuid_text env (due_occurrence env r))) (lane_of (schedule_of r)) now \<in> set (t_operations d')" by simp
  then obtain x where "x \<in> set (t_operations d')" "op_owner x = sc_owner r"
    "op_kind x = sc_operation_kind r" "op_idempotency x = Some (uuid_text env (due_occurrence env r))"
    by (rule that) (simp_all add: accepted_row_def)
  with assms(6) obtain y where "y \<in> set (t_operations e)" "op_owner y = sc_owner r"
    "op_kind y = sc_operation_kind r" "op_idempotency y = Some (uuid_text env (due_occurrence env r))"
    unfolding operations_survive_def list_all_iff list_ex_iff by metis
  with eff(2) assms(5,7,8,9) show ?thesis
    by (intro taken_key_refuses [where r = "r\<lparr>sc_updated_at := u, sc_last_published_at := p\<rparr>" and y = y])
      (simp_all add: is_due_def)
qed

subsection \<open>A pass\<close>

text \<open>What a pass does to one schedule: nothing, or moving it to the grid point after its due point.\<close>

definition moved_on :: "scheduler_env \<Rightarrow> instant \<Rightarrow> schedule_row option \<Rightarrow> schedule_row option \<Rightarrow> bool" where
  "moved_on env now x y \<longleftrightarrow> (\<exists>r t b. x = Some r \<and> is_due now r
     \<and> next_after env (sc_cron r) (sc_next_due_at r) = Some t \<and> sc_next_due_at r < t
     \<and> y = Some (rescheduled_row t b now r))"

lemma moved_on_differs: "moved_on env now x y \<Longrightarrow> x \<noteq> y"
  by (auto simp: moved_on_def rescheduled_row_def dest: arg_cong [where f = sc_next_due_at])

lemma handled_moves:
  assumes "db_ok d" and "cron_strict env"
    and "schedule_handle env mt locked commits d i now = Inr (Some h, d')"
  shows "db_ok d'" and "moved_on env now (schedule_at d i) (schedule_at d' i)"
    and "j \<noteq> i \<Longrightarrow> schedule_at d' j = schedule_at d j"
    and "length (t_occurrences d') = length (t_occurrences d) + (if hd_published h then 1 else 0)"
proof -
  obtain r t where r: "schedule_at d i = Some r" and due: "is_due now r"
    and t: "next_after env (sc_cron r) (sc_next_due_at r) = Some t"
    and d': "t_schedules d' = update_where (\<lambda>r. sc_id r = i) (rescheduled_row t (hd_published h) now) (t_schedules d)"
    and eff: "handling_effect env mt now h r d d'" and ok: "db_ok d'"
    by (rule handled_schedule [OF assms(1,3)])
  have at: "schedule_at d' j = (if j = i then map_option (rescheduled_row t (hd_published h) now) (schedule_at d i)
      else schedule_at d j)" for j
    using schedule_at_update [where d = d and i = i and t = t and b = "hd_published h" and now = now and j = j] d'
    by (simp add: schedule_at_def)
  show "db_ok d'" by (rule ok)
  show "moved_on env now (schedule_at d i) (schedule_at d' i)"
    using r due t at [of i] next_after_later [OF assms(2) t] by (auto simp: moved_on_def)
  show "j \<noteq> i \<Longrightarrow> schedule_at d' j = schedule_at d j" by (simp add: at)
  show "length (t_occurrences d') = length (t_occurrences d) + (if hd_published h then 1 else 0)"
    using eff suppressed_occurrences [OF eff] by (simp add: handling_effect_def split: if_splits)
qed

definition pass_report ::
  "scheduler_env \<Rightarrow> instant \<Rightarrow> uuid list \<Rightarrow> scheduler_report \<Rightarrow> db \<Rightarrow> scheduler_report \<Rightarrow> db \<Rightarrow> bool" where
  "pass_report env now ids rep d rep' d' \<longleftrightarrow> db_ok d'
     \<and> (\<forall>i. schedule_at d' i = schedule_at d i
           \<or> i \<in> set ids \<and> moved_on env now (schedule_at d i) (schedule_at d' i))
     \<and> length (t_occurrences d') + sr_published rep = length (t_occurrences d) + sr_published rep'
     \<and> length (filter (\<lambda>i. schedule_at d' i \<noteq> schedule_at d i) ids) + sr_published rep + sr_suppressed rep
         = sr_published rep' + sr_suppressed rep'
     \<and> sr_published rep' + sr_suppressed rep' + sr_failed rep'
         \<le> length ids + sr_published rep + sr_suppressed rep + sr_failed rep
     \<and> sr_due rep' = sr_due rep"

lemma pass_report_skip:
  assumes "pass_report env now ids rep d rep' d'" and "i \<notin> set ids"
  shows "pass_report env now (i # ids) rep d rep' d'"
proof -
  have "schedule_at d' i = schedule_at d i" using assms by (auto simp: pass_report_def)
  with assms(1) show ?thesis by (auto simp: pass_report_def)
qed

lemma pass_report_fail:
  assumes "pass_report env now ids (rep\<lparr>sr_failed := sr_failed rep + 1\<rparr>) d rep' d'" and "i \<notin> set ids"
  shows "pass_report env now (i # ids) rep d rep' d'"
proof -
  have "schedule_at d' i = schedule_at d i" using assms by (auto simp: pass_report_def)
  with assms(1) show ?thesis by (auto simp: pass_report_def)
qed

lemma pass_report_step:
  assumes "pass_report env now ids (count_handled rep h) d1 rep' d'" and "i \<notin> set ids"
    and "moved_on env now (schedule_at d i) (schedule_at d1 i)"
    and "\<And>j. j \<noteq> i \<Longrightarrow> schedule_at d1 j = schedule_at d j"
    and "length (t_occurrences d1) = length (t_occurrences d) + (if hd_published h then 1 else 0)"
  shows "pass_report env now (i # ids) rep d rep' d'"
proof -
  have i: "schedule_at d' i = schedule_at d1 i" using assms(1,2) by (auto simp: pass_report_def)
  have "filter (\<lambda>j. schedule_at d' j \<noteq> schedule_at d j) ids = filter (\<lambda>j. schedule_at d' j \<noteq> schedule_at d1 j) ids"
    by (rule filter_cong) (use assms(2,4) in \<open>simp, metis\<close>)
  moreover have "schedule_at d' i \<noteq> schedule_at d i" using moved_on_differs [OF assms(3)] i by simp
  moreover have "schedule_at d' j = schedule_at d j
      \<or> j \<in> set (i # ids) \<and> moved_on env now (schedule_at d j) (schedule_at d' j)" for j
    using assms(1,3,4) i unfolding pass_report_def by (cases "j = i") (simp, metis list.set_intros(2))
  ultimately show ?thesis
    using assms(1,5) by (auto simp: pass_report_def count_handled_def split: if_splits)
qed

lemma schedule_loop_report:
  assumes "cron_strict env" and "pe_meanwhile p = (\<lambda>_ d. d)"
    and "db_ok d" and "distinct ids" and "schedule_loop env p now n ids rep d = (rep', d')"
  shows "pass_report env now ids rep d rep' d'"
  using assms(3-5)
proof (induction ids arbitrary: n rep d)
  case Nil
  then show ?case by (simp add: pass_report_def)
next
  case (Cons i ids)
  have i: "i \<notin> set ids" "distinct ids" using Cons.prems(2) by simp_all
  note loop = Cons.prems(3) [unfolded schedule_loop.simps Let_def assms(2)]
  show ?case
  proof (cases "schedule_handle env (pe_mint p n) (pe_locked p n) (pe_commits p n) d i now")
    case (Inl e)
    with loop Cons.IH [OF Cons.prems(1) i(2)]
    have "pass_report env now ids (rep\<lparr>sr_failed := sr_failed rep + 1\<rparr>) d rep' d'" by simp
    from pass_report_fail [OF this i(1)] show ?thesis .
  next
    case (Inr x)
    obtain o1 d1 where x: "x = (o1, d1)" by (cases x)
    show ?thesis
    proof (cases o1)
      case None
      with Inr x have "d1 = d" by (simp add: schedule_handle_None)
      with loop Inr x None Cons.IH [OF Cons.prems(1) i(2)]
      have "pass_report env now ids rep d rep' d'" by simp
      from pass_report_skip [OF this i(1)] show ?thesis .
    next
      case (Some h)
      with Inr x have h: "schedule_handle env (pe_mint p n) (pe_locked p n) (pe_commits p n) d i now = Inr (Some h, d1)"
        by simp
      note step = handled_moves [OF Cons.prems(1) assms(1) h]
      have "pass_report env now ids (count_handled rep h) d1 rep' d'"
        using loop h Cons.IH [OF step(1) i(2)] by simp
      from pass_report_step [OF this i(1) step(2) step(3) step(4)] show ?thesis .
    qed
  qed
qed

lemma due_schedules_distinct:
  assumes "db_ok d" and "scans scan (t_schedules d)"
  shows "distinct (due_schedules scan d limit now)" and "length (due_schedules scan d limit now) \<le> limit"
proof -
  have "distinct (map sc_id (t_schedules d))" by (rule schedules_table.distinct_keys [OF db_okD(9) [OF assms(1)]])
  then have "length (t_schedules d) = card (sc_id ` set (t_schedules d))" by (metis distinct_card length_map set_map)
  then have "distinct (map sc_id (scan (t_schedules d)))"
    using assms(2) by (intro card_distinct) (simp add: scans_def)
  then have "distinct (map sc_id (filter (is_due now) (scan (t_schedules d))))"
    by (rule distinct_map_filter)
  then have "distinct (map sc_id (sort_key sc_next_due_at (filter (is_due now) (scan (t_schedules d)))))"
    by (metis distinct_map distinct_sort set_sort)
  then show "distinct (due_schedules scan d limit now)"
    unfolding due_schedules_def by (metis distinct_take take_map)
  show "length (due_schedules scan d limit now) \<le> limit" by (simp add: due_schedules_def)
qed

text \<open>
  A pass of the scheduler on its own: it looks at no more schedules than its limit, and every
  schedule is either exactly as before (not due, held by another process, or its transaction failed,
  which stops none of the others) or was due and stands at the grid point after its due point. The report
  counts them: published plus suppressed are the schedules that moved, published the occurrences that
  were added, and with the failed ones no more than were due.
\<close>

lemma scheduler_pass_moves_what_it_reports:
  assumes "db_ok d" and "cron_strict env" and "scans scan (t_schedules d)"
    and "pe_meanwhile p = (\<lambda>_ d. d)" and "scheduler_run env p scan d limit now = (rep, d')"
  shows "db_ok d' \<and> sr_due rep \<le> limit
     \<and> (\<forall>i. schedule_at d' i = schedule_at d i \<or> moved_on env now (schedule_at d i) (schedule_at d' i))
     \<and> length (t_occurrences d') = length (t_occurrences d) + sr_published rep
     \<and> length (filter (\<lambda>i. schedule_at d' i \<noteq> schedule_at d i) (due_schedules scan d limit now))
         = sr_published rep + sr_suppressed rep
     \<and> sr_published rep + sr_suppressed rep + sr_failed rep \<le> sr_due rep"
proof -
  note due = due_schedules_distinct [OF assms(1,3), of limit now]
  have "pass_report env now (due_schedules scan d limit now)
     \<lparr>sr_due = length (due_schedules scan d limit now), sr_published = 0, sr_suppressed = 0, sr_failed = 0\<rparr>
     d rep d'"
    by (rule schedule_loop_report [OF assms(2,4,1) due(1)])
      (use assms(5) in \<open>simp add: scheduler_run_def Let_def\<close>)
  with due(2) show ?thesis by (auto simp: pass_report_def)
qed

subsection \<open>A schedule that runs\<close>

definition demo_env :: scheduler_env where
  "demo_env =
     \<lparr>uuid_text = (\<lambda>i. digits_of (nat (uint i))), uuid_v5 = (\<lambda>_ name. of_nat (length name)),
      time_text = decimal, payload_octets = (\<lambda>_. 300), cron_valid = (\<lambda>_. True),
      cron_next = (\<lambda>_ t. Some (t + 60)), cron_previous = (\<lambda>_ t. Some (t - 60)),
      digest_command_type = ''channel_digest.schedule_occurrence.requested.v1'',
      parse_schedule_ref = Some, parse_occurrence_ref = Some, parse_producer = Some, parse_entity = Some,
      entity_of_operation = (\<lambda>i. ''operation:'' @ digits_of (nat (uint i))),
      tenant_of_owner = (\<lambda>i. ''user:'' @ digits_of (nat (uint i))),
      validate_digest = (\<lambda>_. True),
      digest_value = (\<lambda>r. Some (JObject [(''schedule_ref'', JString (dg_schedule_ref r))])),
      envelope_value = (\<lambda>v. Some (JObject (de_payload v)))\<rparr>"

definition demo_schedule :: "instant option \<Rightarrow> schedule_row" where
  "demo_schedule published =
     \<lparr>sc_id = 7, sc_service = ''ratatoskr-github'', sc_name = ''nightly'', sc_owner = 3,
      sc_command_type = ''github.sync.requested.v1'', sc_operation_kind = ''github.sync'',
      sc_payload = JObject [], sc_cron = ''* * * * *'', sc_next_due_at = 5, sc_enabled = True,
      sc_created_at = 1, sc_updated_at = 2, sc_last_published_at = published\<rparr>"

definition demo_mint :: minted where
  "demo_mint = \<lparr>mt_operation = 21, mt_outbox = 22, mt_command = 23, mt_correlation = ''correlation:a''\<rparr>"

definition scheduled_db :: db where
  "scheduled_db = empty_db\<lparr>t_schedules := [demo_schedule None]\<rparr>"

definition demo_run :: "scheduling_error + handled option \<times> db" where
  "demo_run = schedule_handle demo_env demo_mint False True scheduled_db 7 2000005"

definition rewound_db :: "db \<Rightarrow> db" where
  "rewound_db d = (snd (collect_occurrences_before id d 3000000 9))
     \<lparr>t_schedules := [demo_schedule (Some 2000005)]\<rparr>"

abbreviation demo_op :: operation_row where
  "demo_op \<equiv> accepted_row 21 3 ''github.sync'' ''correlation:a'' (Some ''3'') None 2000005"

lemma demo_cron_strict: "cron_strict demo_env"
  by (simp add: cron_strict_def demo_env_def)

lemma scheduled_db_ok: "db_ok scheduled_db"
  by code_simp

lemma demo_checks:
  "subject_new Command ''github.sync.requested.v1'' = Inr (Subject ''cmd.github.sync.requested.v1'')"
  "occurrence_id demo_env 7 5 = 3" "next_after demo_env ''* * * * *'' 5 = Some 60000000"
  "\<not> allows ''github.sync'' ''ratatoskr-github''" "operation_ok demo_op"
  "subject_name ''cmd.github.sync.requested.v1''" "uuid_text demo_env 3 = ''3''"
  "schedule_ok (rescheduled_row 60000000 True 2000005 (demo_schedule None))"
  "schedule_ok (demo_schedule (Some 2000005))"
  by code_simp+

lemma demo_publishes:
  "\<exists>d. publish_occurrence demo_env demo_mint scheduled_db (schedule_of (demo_schedule None)) 3 2 2000005 = Inr d
     \<and> t_schedules d = [demo_schedule None]"
  using demo_checks
  by (simp add: publish_occurrence_def schedule_of_def demo_schedule_def demo_mint_def lane_of_def Let_def
      scheduled_db_def empty_db_def accept_def sql_insert_def insert_occurrence_def occurrence_of_def
      occurrence_ok_def row_exists_def operation_exists_def demo_env_def enqueue_def sql_insert_or_ignore_def
      outbox_ok_def outbox_row_of_def accepted_row_def cong: bindE_weak_cong)

lemma scheduled_at: "schedule_at scheduled_db 7 = Some (demo_schedule None)"
  "\<not> recorded scheduled_db 3"
  by (simp_all add: schedule_at_def scheduled_db_def demo_schedule_def recorded_def row_exists_def empty_db_def)

lemma demo_runs:
  obtains h d where "demo_run = Inr (Some h, d)" and "hd_published h"
proof -
  obtain d where d: "publish_occurrence demo_env demo_mint scheduled_db (schedule_of (demo_schedule None)) 3 2 2000005 = Inr d"
    "t_schedules d = [demo_schedule None]" using demo_publishes by blast
  have claimed: "claim_schedule False scheduled_db 7 2000005 = Some (schedule_of (demo_schedule None))"
    by (simp add: claim_schedule_Some scheduled_db_def demo_schedule_def is_due_def)
  have facts: "sc_id (demo_schedule None) = 7" "sc_next_due_at (demo_schedule None) = 5"
    "sc_cron (demo_schedule None) = ''* * * * *''"
    by (simp_all add: demo_schedule_def)
  have moved: "reschedule d 7 60000000 True 2000005
      = Inr (d\<lparr>t_schedules := [rescheduled_row 60000000 True 2000005 (demo_schedule None)]\<rparr>)"
    using d(2) demo_checks(8) by (simp add: reschedule_def sql_update_def demo_schedule_def)
  show thesis
    by (rule that [of "\<lparr>hd_name = sc_name (demo_schedule None), hd_published = True, hd_drift_seconds = 2\<rparr>"
          "d\<lparr>t_schedules := [rescheduled_row 60000000 True 2000005 (demo_schedule None)]\<rparr>"])
      (simp_all add: demo_run_def schedule_handle_def claimed facts demo_checks scheduled_at
        d(1) moved Let_def cong: bindE_weak_cong)
qed

theorem due_schedule_is_handled_witness:
  "\<exists>h d' t. demo_run = Inr (Some h, d') \<and> 5 < t
     \<and> schedule_at d' 7 = Some (rescheduled_row t True 2000005 (demo_schedule None))
     \<and> (\<exists>m \<in> set (t_outbox d'). ob_message m = 3)"
proof -
  obtain h d' where r: "demo_run = Inr (Some h, d')" "hd_published h" by (rule demo_runs)
  obtain x t where x: "schedule_at scheduled_db 7 = Some x" "sc_next_due_at x < t"
    "schedule_at d' 7 = Some (rescheduled_row t (hd_published h) 2000005 x)"
    "\<exists>m \<in> set (t_outbox d'). ob_message m = occurrence_id demo_env 7 (sc_next_due_at x)"
    using due_schedule_is_handled [OF scheduled_db_ok demo_cron_strict r(1) [unfolded demo_run_def]] r(2) by metis
  have "x = demo_schedule None" using x(1) scheduled_at(1) by simp
  moreover have "sc_next_due_at (demo_schedule None) = 5" by (simp add: demo_schedule_def)
  ultimately show ?thesis
    using x(2-4) r demo_checks(2) by (intro exI [of _ h] exI [of _ d'] exI [of _ t]) simp
qed

theorem no_due_point_is_published_twice_witness:
  "\<exists>d e. demo_run = Inr d \<and> schedule_run demo_env scheduled_db
       [Published_point 7 5 3 ''github.sync'', Forgotten_point 7 5] e
     \<and> due_point ` set (t_occurrences e) = {}"
proof -
  obtain h d where r: "demo_run = Inr (Some h, d)" "hd_published h" by (rule demo_runs)
  have one: "published_notes scheduled_db 7 h = [Published_point 7 5 3 ''github.sync'']"
    using r(2) by (simp add: published_notes_def scheduled_at demo_schedule_def)
  have "t_occurrences d = [occurrence_of (schedule_of (demo_schedule None)) 3 2 21 2000005]"
    using handled_effect(1) [OF scheduled_db_ok r(1) [unfolded demo_run_def] scheduled_at(1)] r(2)
    by (simp add: handling_effect_def scheduled_db_def empty_db_def demo_schedule_def demo_mint_def demo_checks)
  then have two: "forgotten_notes d (snd (collect_occurrences_before id d 3000000 9)) = [Forgotten_point 7 5]"
    by (simp add: forgotten_notes_def collect_occurrences_before_def delete_limited_def Let_def row_exists_def
        occurrence_of_def delete_where_def rows_affected_def demo_schedule_def schedule_of_def)
  let ?e = "snd (collect_occurrences_before id d 3000000 9)"
  have "schedule_run demo_env scheduled_db ([] @ [Published_point 7 5 3 ''github.sync'']) d"
    using run_handled [OF run_start, of demo_env demo_mint False True scheduled_db 7 2000005 h d] r(1)
    unfolding one demo_run_def by simp
  then have run: "schedule_run demo_env scheduled_db [Published_point 7 5 3 ''github.sync'', Forgotten_point 7 5] ?e"
    using run_swept [of demo_env scheduled_db "[Published_point 7 5 3 ''github.sync'']" d id 3000000 9
        "fst (collect_occurrences_before id d 3000000 9)" ?e] two by simp
  from no_due_point_is_published_twice [OF scheduled_db_ok run] have "due_point ` set (t_occurrences ?e) = {}"
    by (simp add: scheduled_db_def empty_db_def)
  with r(1) run show ?thesis by blast
qed

definition demo_pass :: pass_env where
  "demo_pass = \<lparr>pe_mint = (\<lambda>_. demo_mint), pe_locked = (\<lambda>_. False), pe_commits = (\<lambda>_. True),
     pe_meanwhile = (\<lambda>_ d. d)\<rparr>"

lemma scheduler_pass_moves_what_it_reports_witness:
  "\<exists>rep d'. scheduler_run demo_env demo_pass id scheduled_db 50 2000005 = (rep, d')
     \<and> sr_due rep = 1 \<and> sr_published rep = 1 \<and> length (t_occurrences d') = 1
     \<and> moved_on demo_env 2000005 (schedule_at scheduled_db 7) (schedule_at d' 7)"
proof -
  obtain h d where r: "demo_run = Inr (Some h, d)" "hd_published h" by (rule demo_runs)
  have due: "due_schedules id scheduled_db 50 2000005 = [7]"
    by (simp add: due_schedules_def scheduled_db_def demo_schedule_def is_due_def)
  obtain rep d' where run: "scheduler_run demo_env demo_pass id scheduled_db 50 2000005 = (rep, d')"
    by fastforce
  then have rep: "sr_due rep = 1" "sr_published rep = 1" "d' = d"
    using r by (auto simp: scheduler_run_def due demo_pass_def demo_run_def count_handled_def)
  have none: "t_occurrences scheduled_db = []" by (simp add: scheduled_db_def empty_db_def)
  note spec = scheduler_pass_moves_what_it_reports [OF scheduled_db_ok demo_cron_strict _ _ run]
  have "length (filter (\<lambda>i. schedule_at d' i \<noteq> schedule_at scheduled_db i) [7]) \<noteq> 0"
    using spec rep due by (simp add: scans_def demo_pass_def)
  then have "schedule_at d' 7 \<noteq> schedule_at scheduled_db 7" by (auto split: if_splits)
  with spec rep none run show ?thesis by (auto simp: scans_def demo_pass_def)
qed

theorem rewind_past_retention_always_fails_witness:
  "\<exists>h d err. demo_run = Inr (Some h, d)
     \<and> schedule_handle demo_env demo_mint False True (rewound_db d) 7 9000000 = Inl err"
proof -
  obtain h d where r: "demo_run = Inr (Some h, d)" "hd_published h" by (rule demo_runs)
  note run = r(1) [unfolded demo_run_def]
  note eff = handled_effect [OF scheduled_db_ok run scheduled_at(1)]
  have occ: "t_occurrences d = [occurrence_of (schedule_of (demo_schedule None)) 3 2 21 2000005]"
    using eff(1) r(2) by (simp add: handling_effect_def scheduled_db_def empty_db_def demo_schedule_def
        demo_mint_def demo_checks)
  have "db_ok (rewound_db d)"
    unfolding rewound_db_def
    by (rule db_ok_update(9) [OF collect_occurrences_ok [OF eff(3)]])
      (simp add: table_ok_def demo_checks)
  moreover have "operations_survive d (rewound_db d)"
    by (auto simp: operations_survive_def list_all_iff list_ex_iff rewound_db_def collect_occurrences_before_def
        split: prod.splits)
  moreover have "\<not> recorded (rewound_db d) (due_occurrence demo_env (demo_schedule None))"
    using occ by (simp add: rewound_db_def collect_occurrences_before_def delete_limited_def Let_def
        occurrence_of_def recorded_def row_exists_def delete_where_def rows_affected_def)
  moreover have "schedule_at (rewound_db d) 7
      = Some (demo_schedule None\<lparr>sc_updated_at := 2, sc_last_published_at := Some 2000005\<rparr>)"
    by (simp add: schedule_at_def rewound_db_def demo_schedule_def)
  ultimately show ?thesis
    using rewind_past_retention_always_fails [OF scheduled_db_ok run r(2) scheduled_at(1),
        where e = "rewound_db d" and u = 2 and p = "Some 2000005" and later = 9000000
          and mt' = demo_mint and commits' = True] r(1)
    by (auto simp: demo_schedule_def)
qed

end
