(* ===== verification/Audit_Trail.thy ===== *)
theory Audit_Trail
  imports Listing
begin

text \<open>
  \<^verbatim>\<open>crates/identity/src/audit.rs\<close>: appending an audit record in the caller's transaction, and the
  pages an administrator reads.
\<close>

subsection \<open>The audit record\<close>

datatype audit_outcome = Allowed | Denied | Failed_audit

fun audit_outcome_str :: "audit_outcome \<Rightarrow> string" where
  "audit_outcome_str Allowed = ''allowed''"
| "audit_outcome_str Denied = ''denied''"
| "audit_outcome_str Failed_audit = ''failed''"

record audit_event =
  ae_id :: uuid
  ae_actor_user :: "uuid option"
  ae_actor_session :: "uuid option"
  ae_action :: string
  ae_target_kind :: string
  ae_target :: "uuid option"
  ae_outcome :: audit_outcome
  ae_correlation :: string

definition audit_row_of :: "audit_event \<Rightarrow> instant \<Rightarrow> audit_row" where
  "audit_row_of e occurred_at =
     \<lparr>au_id = ae_id e, au_occurred_at = occurred_at, au_actor_user = ae_actor_user e,
      au_actor_session = ae_actor_session e, au_action = ae_action e,
      au_target_kind = ae_target_kind e, au_target = ae_target e,
      au_outcome = audit_outcome_str (ae_outcome e), au_correlation = ae_correlation e\<rparr>"

definition audit_record :: "db \<Rightarrow> audit_event \<Rightarrow> instant \<Rightarrow> persistence_error + db" where
  "audit_record d e occurred_at =
     persist (bindE (sql_insert audit_ok audit_clash (audit_row_of e occurred_at) (t_audit d)) (\<lambda>t.
       if (case ae_actor_user e of None \<Rightarrow> True | Some u \<Rightarrow> user_exists d u)
          \<and> (case ae_actor_session e of None \<Rightarrow> True | Some i \<Rightarrow> session_exists d i)
       then Inr (d\<lparr>t_audit := t\<rparr>) else Inl Foreign_key_violation))"

definition collect_audit_before ::
  "(audit_row list \<Rightarrow> audit_row list) \<Rightarrow> db \<Rightarrow> instant \<Rightarrow> nat \<Rightarrow> nat \<times> db" where
  "collect_audit_before scan d before limit =
     (let (n, t) = delete_limited scan au_id (\<lambda>r. au_occurred_at r < before) limit (t_audit d)
      in (n, d\<lparr>t_audit := t\<rparr>))"

definition count_by_correlation :: "db \<Rightarrow> string \<Rightarrow> nat" where
  "count_by_correlation d correlation = rows_affected (\<lambda>r. au_correlation r = correlation) (t_audit d)"

subsection \<open>The administrator's page\<close>

record audit_scope =
  aus_before :: "(instant \<times> uuid) option"
  aus_limit :: int

record audit_page =
  aup_rows :: "audit_row list"
  aup_has_more :: bool

definition audit_key :: "audit_row \<Rightarrow> instant \<times> uuid" where
  "audit_key r = (au_occurred_at r, au_id r)"

definition list_admin_events :: "db \<Rightarrow> audit_scope \<Rightarrow> audit_page" where
  "list_admin_events d sc =
     (let limit = nat (max 0 (aus_limit sc));
          rows = take (limit + 1) (rev (sort_key audit_key (filter (\<lambda>r.
                   case aus_before sc of None \<Rightarrow> True | Some a \<Rightarrow> audit_key r < a) (t_audit d))))
      in \<lparr>aup_rows = take limit rows, aup_has_more = limit < length rows\<rparr>)"

subsection \<open>Appending\<close>

lemma audit_record_Inr:
  assumes "audit_record d e now = Inr d'"
  shows "d' = d\<lparr>t_audit := t_audit d @ [audit_row_of e now]\<rparr>" and "db_ok d \<Longrightarrow> db_ok d'"
proof -
  have t: "sql_insert audit_ok audit_clash (audit_row_of e now) (t_audit d) = Inr (t_audit d @ [audit_row_of e now])"
    "d' = d\<lparr>t_audit := t_audit d @ [audit_row_of e now]\<rparr>"
    using assms by (auto simp: audit_record_def sql_insert_Inr split: if_splits)
  show "d' = d\<lparr>t_audit := t_audit d @ [audit_row_of e now]\<rparr>" by (rule t(2))
  show "db_ok d \<Longrightarrow> db_ok d'"
    using audit_table.insert_ok [OF t(1)] t(2) by (auto dest: db_okD(17))
qed

subsection \<open>Walking the trail\<close>

definition audit_trail :: "db \<Rightarrow> audit_row list" where
  "audit_trail d = rev (sort_key audit_key (t_audit d))"

definition audit_page_at :: "db \<Rightarrow> nat \<Rightarrow> (instant \<times> uuid) option \<Rightarrow> audit_row list \<times> bool" where
  "audit_page_at d limit anchor =
     (let p = list_admin_events d \<lparr>aus_before = anchor, aus_limit = int limit\<rparr> in (aup_rows p, aup_has_more p))"

lemma audit_trail_sorted:
  assumes "db_ok d"
  shows "sorted_wrt (\<lambda>x y. audit_key y < audit_key x) (audit_trail d)"
proof -
  have "distinct (map au_id (t_audit d))" by (rule audit_table.distinct_keys [OF db_okD(17) [OF assms]])
  then have "distinct (map audit_key (t_audit d))"
    by (auto simp: audit_key_def distinct_map inj_on_def)
  then have "sorted_wrt (<) (map audit_key (sort_key audit_key (t_audit d)))"
    by (simp add: strict_sorted_iff distinct_map)
  then show ?thesis by (simp add: audit_trail_def sorted_wrt_rev sorted_wrt_map)
qed

lemma audit_page_rows:
  "audit_page_at d limit anchor
    = (take limit (filter (\<lambda>r. behind anchor (audit_key r)) (audit_trail d)),
       limit < length (filter (\<lambda>r. behind anchor (audit_key r)) (audit_trail d)))"
  by (cases anchor) (auto simp: audit_page_at_def list_admin_events_def audit_trail_def Let_def
      rev_filter [symmetric] filter_sort min_def)

interpretation audit_list: keyset db_ok audit_key audit_trail audit_page_at
  by unfold_locales (simp_all add: audit_trail_sorted audit_page_rows)

lemma audit_walk_is_complete:
  "db_ok d \<Longrightarrow> 0 < limit \<Longrightarrow>
     walk (Suc (length (t_audit d))) (audit_page_at d limit) audit_key None = rev (sort_key audit_key (t_audit d))"
  using audit_list.walk_is_complete [of d limit] by (simp add: audit_trail_def)

end
