(* ===== verification/Registration.thy ===== *)
theory Registration
  imports Scheduling Audit_Trail
begin

text \<open>
  \<^verbatim>\<open>crates/scheduling/src/registration.rs\<close>: the handler that turns a domain service's command into
  a schedule row. Every decision is audited in the transaction that makes it.
\<close>

subsection \<open>What a registration must look like\<close>

definition is_label :: "string \<Rightarrow> bool" where
  "is_label value \<longleftrightarrow> 1 \<le> length value \<and> length value \<le> 64
     \<and> list_all (\<lambda>(index, b). if index = 0 then is_ascii_lowercase b
          else is_ascii_lowercase b \<or> is_ascii_digit b \<or> b = CHR ''_'' \<or> b = CHR ''-'')
        (enumerate 0 value)"

definition kind_segment :: "string \<Rightarrow> bool" where
  "kind_segment segment \<longleftrightarrow> 1 \<le> length segment \<and> length segment \<le> 32
     \<and> list_all (\<lambda>(index, b). if index = 0 then is_ascii_lowercase b
          else is_ascii_lowercase b \<or> is_ascii_digit b \<or> b = CHR ''_'')
        (enumerate 0 segment)"

definition is_operation_kind :: "string \<Rightarrow> bool" where
  "is_operation_kind value = (let segments = split_on (CHR ''.'') value in
     2 \<le> length segments \<and> length segments \<le> 4 \<and> list_all kind_segment segments)"

record registration =
  rg_service_name :: string
  rg_name :: string
  rg_owner :: uuid
  rg_cron :: string
  rg_command_type :: string
  rg_operation_kind :: string
  rg_payload :: json
  rg_enabled :: bool

text \<open>
  \<open>read_command\<close> is \<open>CommandEnvelope::from_json\<close> of the serialized payload: the producer it names
  and, when \<open>payload_as\<close> accepts it, its typed body. \<open>error_text\<close> is the derived \<open>Display\<close>.
\<close>

record registration_env =
  scheduling :: scheduler_env
  read_command :: "json \<Rightarrow> (string \<times> registration option) option"
  error_text :: "scheduling_error \<Rightarrow> string"

definition registration_command_type :: string where
  "registration_command_type = ''platform.schedule.registration_requested.v1''"

definition registration_read :: "registration_env \<Rightarrow> incoming \<Rightarrow> registration option" where
  "registration_read env m =
     (if subject_str (in_subject m) \<noteq> ''cmd.'' @ registration_command_type then None
      else case read_command env (in_payload m) of
        None \<Rightarrow> None
      | Some (producer, body) \<Rightarrow> if producer \<noteq> in_producer m then None else body)"

subsection \<open>Applying one\<close>

datatype schedule_registration = RegistrationApplied | RegistrationRejected

definition registration_audit ::
  "db \<Rightarrow> uuid \<Rightarrow> uuid option \<Rightarrow> uuid option \<Rightarrow> audit_outcome \<Rightarrow> incoming \<Rightarrow> instant
     \<Rightarrow> scheduling_error + db" where
  "registration_audit d k owner schedule_id out m now =
     map_err SPersistence (audit_record d
       \<lparr>ae_id = k, ae_actor_user = owner, ae_actor_session = None,
        ae_action = ''schedule.registration'', ae_target_kind = ''schedule'', ae_target = schedule_id,
        ae_outcome = out,
        ae_correlation = (case Option.bind (json_get ''correlation_id'' (in_payload m)) as_str of
           Some s \<Rightarrow> s | None \<Rightarrow> ''correlation:unknown'')\<rparr> now)"

definition registered_row :: "uuid \<Rightarrow> registration \<Rightarrow> instant \<Rightarrow> instant \<Rightarrow> schedule_row" where
  "registered_row k input next_due_at now =
     \<lparr>sc_id = k, sc_service = rg_service_name input, sc_name = rg_name input, sc_owner = rg_owner input,
      sc_command_type = rg_command_type input, sc_operation_kind = rg_operation_kind input,
      sc_payload = rg_payload input, sc_cron = rg_cron input, sc_next_due_at = next_due_at,
      sc_enabled = rg_enabled input, sc_created_at = now, sc_updated_at = now,
      sc_last_published_at = None\<rparr>"

text \<open>\<^verbatim>\<open>on conflict (service_name, name) do update\<close>: an already due point stays.\<close>

definition reregistered_row :: "schedule_row \<Rightarrow> instant \<Rightarrow> schedule_row \<Rightarrow> schedule_row" where
  "reregistered_row excluded now r =
     r\<lparr>sc_owner := sc_owner excluded, sc_command_type := sc_command_type excluded,
       sc_operation_kind := sc_operation_kind excluded, sc_payload := sc_payload excluded,
       sc_cron := sc_cron excluded, sc_enabled := sc_enabled excluded,
       sc_next_due_at := (if sc_next_due_at r \<le> now then sc_next_due_at r else sc_next_due_at excluded),
       sc_updated_at := sc_updated_at excluded\<rparr>"

definition upsert_schedule :: "db \<Rightarrow> schedule_row \<Rightarrow> instant \<Rightarrow> sql_error + uuid \<times> db" where
  "upsert_schedule d r now =
     (if \<not> schedule_ok r then Inl Check_violation
      else case fetch_optional (\<lambda>x. schedule_name_clash x r) (t_schedules d) of
        None \<Rightarrow> bindE (sql_insert schedule_ok schedule_clash r (t_schedules d))
                  (\<lambda>t. Inr (sc_id r, d\<lparr>t_schedules := t\<rparr>))
      | Some x \<Rightarrow> bindE (sql_update (\<lambda>_. schedule_ok) schedule_clash (\<lambda>y. sc_id y = sc_id x)
                           (reregistered_row r now) (t_schedules d))
                  (\<lambda>t. Inr (sc_id x, d\<lparr>t_schedules := t\<rparr>)))"

definition owner_is_active :: "db \<Rightarrow> uuid \<Rightarrow> bool" where
  "owner_is_active d owner = row_exists (\<lambda>u. us_id u = owner \<and> us_status u = ''active'') (t_users d)"

definition admissible :: "registration_env \<Rightarrow> string list \<Rightarrow> incoming \<Rightarrow> registration \<Rightarrow> instant \<Rightarrow> bool" where
  "admissible env allowed m input now \<longleftrightarrow>
     \<not> (in_producer m \<notin> set allowed
        \<or> in_producer m \<noteq> rg_service_name input
        \<or> \<not> is_label (rg_service_name input)
        \<or> \<not> is_label (rg_name input)
        \<or> \<not> is_operation_kind (rg_operation_kind input)
        \<or> next_after (scheduling env) (rg_cron input) now = None
        \<or> isl (subject_new Command (rg_command_type input))
        \<or> \<not> is_object (rg_payload input))"

text \<open>\<open>k\<close> is the audit record's \<open>Uuid::now_v7()\<close>, \<open>fresh\<close> the value of \<^verbatim>\<open>gen_random_uuid()\<close>.\<close>

definition registration_apply ::
  "registration_env \<Rightarrow> string list \<Rightarrow> uuid \<Rightarrow> uuid \<Rightarrow> db \<Rightarrow> incoming \<Rightarrow> instant
     \<Rightarrow> scheduling_error + schedule_registration \<times> db" where
  "registration_apply env allowed k fresh d m now =
     (let deny = bindE (registration_audit d k None None Denied m now) (\<lambda>d1. Inr (RegistrationRejected, d1))
      in case registration_read env m of
        None \<Rightarrow> deny
      | Some input \<Rightarrow>
          if \<not> admissible env allowed m input now then deny
          else (case next_after (scheduling env) (rg_cron input) now of
            None \<Rightarrow> Inr (RegistrationRejected, d)
          | Some next_due_at \<Rightarrow>
              if \<not> owner_is_active d (rg_owner input) then deny
              else bindE (selected (upsert_schedule d (registered_row fresh input next_due_at now) now))
                (\<lambda>(schedule_id, d1).
                   bindE (registration_audit d1 k (Some (rg_owner input)) (Some schedule_id) Allowed m now)
                     (\<lambda>d2. Inr (RegistrationApplied, d2)))))"

definition registration_handle :: "registration_env \<Rightarrow> string list \<Rightarrow> uuid \<Rightarrow> uuid \<Rightarrow> handler" where
  "registration_handle env allowed k fresh d m now =
     (case registration_apply env allowed k fresh d m now of
        Inr (RegistrationApplied, d') \<Rightarrow> Inr (Applied, d')
      | Inr (RegistrationRejected, d') \<Rightarrow> Inr (Rejected, d')
      | Inl (SPersistence e) \<Rightarrow> Inl (EPersistence e)
      | Inl other \<Rightarrow> Inl (Bus (error_text env other)))"

text \<open>\<open>register\<close>: the same in a transaction of its own.\<close>

definition register_schedule ::
  "registration_env \<Rightarrow> string list \<Rightarrow> uuid \<Rightarrow> uuid \<Rightarrow> bool \<Rightarrow> db \<Rightarrow> incoming \<Rightarrow> instant
     \<Rightarrow> scheduling_error + schedule_registration \<times> db" where
  "register_schedule env allowed k fresh commits d m now =
     bindE (registration_apply env allowed k fresh d m now) (\<lambda>r.
       if commits then Inr r else Inl (SPersistence (Query Row_not_found)))"

subsection \<open>The grammars\<close>

lemma enumerate_tail:
  "0 < n \<Longrightarrow> list_all (\<lambda>(index, b). if index = 0 then p b else q b) (enumerate n s) = list_all q s"
  by (induction s arbitrary: n) simp_all

lemma enumerate_head_tail:
  "s \<noteq> [] \<Longrightarrow> list_all (\<lambda>(index, b). if index = (0 :: nat) then p b else q b) (enumerate 0 s)
     \<longleftrightarrow> p (hd s) \<and> list_all q (tl s)"
  by (cases s) (simp_all add: enumerate_tail)

lemma is_label_token: "is_label s = label_token s"
proof (cases s)
  case (Cons c cs)
  then show ?thesis
    using enumerate_head_tail [of s is_ascii_lowercase
        "\<lambda>b. is_ascii_lowercase b \<or> is_ascii_digit b \<or> b = CHR ''_'' \<or> b = CHR ''-''"]
    by (auto simp: is_label_def label_token_def)
qed (simp add: is_label_def label_token_def)

lemma kind_segment_token: "kind_segment s = snake_token s"
proof (cases s)
  case (Cons c cs)
  then show ?thesis
    using enumerate_head_tail [of s is_ascii_lowercase
        "\<lambda>b. is_ascii_lowercase b \<or> is_ascii_digit b \<or> b = CHR ''_''"]
    by (auto simp: kind_segment_def snake_token_def)
qed (simp add: kind_segment_def snake_token_def)

text \<open>
  The Rust checks of a registration are the check constraints of the table it writes: a label is
  what \<^verbatim>\<open>schedules_name_is_a_label\<close> accepts, an operation kind what the operations table accepts.
\<close>

lemma registration_checks_are_the_schema:
  "is_label s = label_token s \<and> is_operation_kind s = dotted_name s"
  by (simp add: is_label_token kind_segment_token is_operation_kind_def dotted_name_def Let_def
      list_all_iff)

subsection \<open>One registration\<close>

lemma registration_audit_Inr:
  assumes "registration_audit d k owner target out m now = Inr d'"
  shows "\<exists>a. au_outcome a = audit_outcome_str out \<and> au_action a = ''schedule.registration''
     \<and> au_target a = target \<and> au_actor_user a = owner \<and> d' = d\<lparr>t_audit := t_audit d @ [a]\<rparr>"
    and "db_ok d \<Longrightarrow> db_ok d'"
proof -
  obtain e where e: "audit_record d e now = Inr d'" and fields: "ae_outcome e = out"
    "ae_action e = ''schedule.registration''" "ae_target e = target" "ae_actor_user e = owner"
    using assms by (auto simp: registration_audit_def)
  from audit_record_Inr [OF e] show "db_ok d \<Longrightarrow> db_ok d'" by simp
  show "\<exists>a. au_outcome a = audit_outcome_str out \<and> au_action a = ''schedule.registration''
     \<and> au_target a = target \<and> au_actor_user a = owner \<and> d' = d\<lparr>t_audit := t_audit d @ [a]\<rparr>"
    by (rule exI [of _ "audit_row_of e now"]) (simp add: audit_record_Inr(1) [OF e] audit_row_of_def fields)
qed

lemma reregistered_row_simps [simp]:
  "sc_id (reregistered_row x now r) = sc_id r"
  "schedule_clash (reregistered_row x now r) y = schedule_clash r y"
  "schedule_name_clash (reregistered_row x now r) y = schedule_name_clash r y"
  by (simp_all add: reregistered_row_def schedule_clash_def schedule_name_clash_def)

lemma upsert_schedule_Inr:
  assumes "db_ok d" and "upsert_schedule d r now = Inr (i, d')"
  shows "db_ok d'"
    and "schedule_at d' i = Some (case schedule_at d i of None \<Rightarrow> r | Some x \<Rightarrow> reregistered_row r now x)"
    and "\<forall>j. j \<noteq> i \<longrightarrow> schedule_at d' j = schedule_at d j"
    and "case schedule_at d i of None \<Rightarrow> i = sc_id r | Some x \<Rightarrow> schedule_name_clash x r"
    and "d' = d\<lparr>t_schedules := t_schedules d'\<rparr>"
proof -
  note table = db_okD(9) [OF assms(1)]
  have goal: "db_ok d' \<and> schedule_at d' i = Some (case schedule_at d i of None \<Rightarrow> r | Some x \<Rightarrow> reregistered_row r now x)
     \<and> (\<forall>j. j \<noteq> i \<longrightarrow> schedule_at d' j = schedule_at d j)
     \<and> (case schedule_at d i of None \<Rightarrow> i = sc_id r | Some x \<Rightarrow> schedule_name_clash x r)
     \<and> d' = d\<lparr>t_schedules := t_schedules d'\<rparr>"
  proof (cases "fetch_optional (\<lambda>x. schedule_name_clash x r) (t_schedules d)")
    case None
    with assms(2) have t: "sql_insert schedule_ok schedule_clash r (t_schedules d) = Inr (t_schedules d')"
      "i = sc_id r" "d' = d\<lparr>t_schedules := t_schedules d'\<rparr>"
      by (auto simp: upsert_schedule_def split: if_splits)
    have "schedule_at d (sc_id r) = None"
      using t(1) by (auto simp: schedule_at_def sql_insert_Inr schedule_clash_def fetch_optional_None)
    moreover have "db_ok d'"
      using t(3) db_ok_update(9) [OF assms(1) schedules_table.insert_ok [OF t(1) table]] by metis
    ultimately show ?thesis
      using t schedules_table.insert_fetch_new [OF t(1)] schedules_table.insert_fetch_old [OF t(1)]
      by (simp add: schedule_at_def)
  next
    case (Some x)
    then have x: "x \<in> set (t_schedules d)" "schedule_name_clash x r" by (auto dest: fetch_optional_SomeD)
    from Some assms(2) have t: "sql_update (\<lambda>_. schedule_ok) schedule_clash (\<lambda>y. sc_id y = sc_id x)
        (reregistered_row r now) (t_schedules d) = Inr (t_schedules d')"
      "i = sc_id x" "d' = d\<lparr>t_schedules := t_schedules d'\<rparr>"
      by (auto simp: upsert_schedule_def split: if_splits)
    have at: "schedule_at d i = Some x" using schedule_at_row [OF assms(1) x(1)] t(2) by simp
    have moved: "schedule_at d' j = map_option (\<lambda>y. if sc_id y = sc_id x then reregistered_row r now y else y) (schedule_at d j)" for j
      using t(1) fetch_update_where [of "\<lambda>y. sc_id y = j" "reregistered_row r now"]
      by (simp add: schedule_at_def sql_update_Inr)
    have other: "schedule_at d' j = schedule_at d j" if "j \<noteq> i" for j
      unfolding moved using that t(2)
      by (cases "schedule_at d j") (auto simp: schedule_at_def dest: fetch_optional_SomeD)
    have "db_ok d'"
      using t(3) db_ok_update(9) [OF assms(1) schedules_table.update_ok [OF t(1) table]] by metis
    with at moved [of i] other t x(2) show ?thesis by simp
  qed
  show "db_ok d'" using goal by blast
  show "schedule_at d' i = Some (case schedule_at d i of None \<Rightarrow> r | Some x \<Rightarrow> reregistered_row r now x)"
    using goal by blast
  show "\<forall>j. j \<noteq> i \<longrightarrow> schedule_at d' j = schedule_at d j" using goal by blast
  show "case schedule_at d i of None \<Rightarrow> i = sc_id r | Some x \<Rightarrow> schedule_name_clash x r" using goal by blast
  show "d' = d\<lparr>t_schedules := t_schedules d'\<rparr>" using goal by blast
qed

lemma registration_apply_cases:
  assumes "registration_apply env allowed k fresh d m now = Inr (out, d')"
  obtains (denied) "out = RegistrationRejected" and "registration_audit d k None None Denied m now = Inr d'"
  | (applied) input t i d1 where "out = RegistrationApplied" and "registration_read env m = Some input"
      and "admissible env allowed m input now" and "next_after (scheduling env) (rg_cron input) now = Some t"
      and "owner_is_active d (rg_owner input)"
      and "upsert_schedule d (registered_row fresh input t now) now = Inr (i, d1)"
      and "registration_audit d1 k (Some (rg_owner input)) (Some i) Allowed m now = Inr d'"
  using assms
  by (auto simp: registration_apply_def Let_def admissible_def split: option.splits if_splits)

lemma audited_frame:
  assumes "registration_audit d k owner target out m now = Inr d'"
  shows "t_schedules d' = t_schedules d" and "t_inbox d' = t_inbox d" and "t_users d' = t_users d"
    and "t_operations d' = t_operations d"
  using registration_audit_Inr(1) [OF assms] by auto

lemma upsert_inbox: "upsert_schedule d r now = Inr (i, d') \<Longrightarrow> t_inbox d' = t_inbox d"
  by (auto simp: upsert_schedule_def split: option.splits if_splits)

lemma registration_keeps:
  assumes "registration_apply env allowed k fresh d m now = Inr (out, d')"
  shows "db_ok d \<Longrightarrow> db_ok d'" and "t_inbox d' = t_inbox d"
proof -
  have "(db_ok d \<longrightarrow> db_ok d') \<and> t_inbox d' = t_inbox d"
    using assms
  proof (cases rule: registration_apply_cases)
    case denied
    from registration_audit_Inr(2) [OF denied(2)] audited_frame(2) [OF denied(2)] show ?thesis by blast
  next
    case (applied input t i d1)
    from registration_audit_Inr(2) [OF applied(7)] audited_frame(2) [OF applied(7)]
      upsert_schedule_Inr(1) [OF _ applied(6)] upsert_inbox [OF applied(6)] show ?thesis by simp
  qed
  then show "db_ok d \<Longrightarrow> db_ok d'" and "t_inbox d' = t_inbox d" by simp_all
qed

lemma registration_handle_Inr:
  "registration_handle env allowed k fresh d m now = Inr (out, d') \<Longrightarrow>
     \<exists>r. registration_apply env allowed k fresh d m now = Inr (r, d')"
  by (auto simp: registration_handle_def split: sum.splits prod.splits schedule_registration.splits
      scheduling_error.splits)

interpretation registrations: event_handler "registration_handle env allowed k fresh" for env allowed k fresh
  by unfold_locales (auto dest!: registration_handle_Inr intro: registration_keeps)

text \<open>What an applied registration leaves in the table.\<close>

definition registered_as :: "registration \<Rightarrow> schedule_row \<Rightarrow> bool" where
  "registered_as input r \<longleftrightarrow> sc_service r = rg_service_name input \<and> sc_name r = rg_name input
     \<and> sc_owner r = rg_owner input \<and> sc_cron r = rg_cron input \<and> sc_enabled r = rg_enabled input
     \<and> sc_command_type r = rg_command_type input \<and> sc_operation_kind r = rg_operation_kind input
     \<and> sc_payload r = rg_payload input"

text \<open>
  C36: a registration is authorized and changes one schedule. It is applied only when an allowed
  producer names itself in the envelope and in the body, with an active owner and a cron expression
  that fires; then the schedule of that service and name carries exactly what the body says, keeps a
  due point that had already passed, and no other schedule changes. A refusal writes one audit record
  and nothing else.
\<close>

theorem registration_is_authorized:
  assumes "db_ok d" and "registration_apply env allowed k fresh d m now = Inr (out, d')"
  shows "db_ok d' \<and> (case out of
       RegistrationRejected \<Rightarrow> \<exists>a. d' = d\<lparr>t_audit := t_audit d @ [a]\<rparr> \<and> au_outcome a = ''denied''
     | RegistrationApplied \<Rightarrow> \<exists>input t i r a. registration_read env m = Some input
         \<and> in_producer m \<in> set allowed \<and> in_producer m = rg_service_name input
         \<and> owner_is_active d (rg_owner input)
         \<and> next_after (scheduling env) (rg_cron input) now = Some t
         \<and> schedule_at d' i = Some r \<and> registered_as input r
         \<and> sc_next_due_at r = (case schedule_at d i of
              Some x \<Rightarrow> if sc_next_due_at x \<le> now then sc_next_due_at x else t | None \<Rightarrow> t)
         \<and> (\<forall>j. j \<noteq> i \<longrightarrow> schedule_at d' j = schedule_at d j)
         \<and> t_audit d' = t_audit d @ [a] \<and> au_outcome a = ''allowed'' \<and> au_target a = Some i
         \<and> t_operations d' = t_operations d)"
  using assms(2)
proof (cases rule: registration_apply_cases)
  case denied
  with registration_audit_Inr [OF denied(2)] assms(1) show ?thesis by auto
next
  case (applied input t i d1)
  note up = upsert_schedule_Inr [OF assms(1) applied(6)]
  note au = registration_audit_Inr [OF applied(7)]
  obtain r where r: "schedule_at d1 i = Some r" "registered_as input r"
    "sc_next_due_at r = (case schedule_at d i of
        Some x \<Rightarrow> if sc_next_due_at x \<le> now then sc_next_due_at x else t | None \<Rightarrow> t)"
    using up(2,4) by (cases "schedule_at d i")
      (auto simp: registered_as_def registered_row_def reregistered_row_def schedule_name_clash_def)
  obtain a where a: "au_outcome a = ''allowed''" "au_target a = Some i" "d' = d1\<lparr>t_audit := t_audit d1 @ [a]\<rparr>"
    using au(1) by auto
  have same: "t_audit d1 = t_audit d" "t_operations d1 = t_operations d"
    using up(5) by (metis db.select_convs db.surjective db.update_convs(9))+
  have "schedule_at d' j = schedule_at d1 j" for j using a(3) by (simp add: schedule_at_def)
  with applied(1-5) r a same up(3) au(2) [OF up(1)] show ?thesis
    by (auto simp: admissible_def intro!: exI [of _ input] exI [of _ t] exI [of _ i] exI [of _ a])
qed

subsection \<open>A registration that is applied\<close>

definition demo_registration :: registration where
  "demo_registration = \<lparr>rg_service_name = ''ratatoskr-github'', rg_name = ''nightly'', rg_owner = 3,
     rg_cron = ''* * * * *'', rg_command_type = ''github.sync.requested.v1'',
     rg_operation_kind = ''github.sync'', rg_payload = JObject [], rg_enabled = True\<rparr>"

definition demo_registration_env :: registration_env where
  "demo_registration_env = \<lparr>scheduling = demo_env,
     read_command = (\<lambda>_. Some (''ratatoskr-github'', Some demo_registration)), error_text = (\<lambda>_. [])\<rparr>"

definition demo_command :: incoming where
  "demo_command = \<lparr>in_message_id = 90, in_subject = Subject ''cmd.platform.schedule.registration_requested.v1'',
     in_producer = ''ratatoskr-github'', in_payload = JObject []\<rparr>"

definition demo_users :: db where
  "demo_users = empty_db\<lparr>t_users := [\<lparr>us_id = 3, us_status = ''active'', us_created_at = 1, us_updated_at = 1\<rparr>]\<rparr>"

lemma demo_registration_checks:
  "db_ok demo_users" "owner_is_active demo_users 3"
  "admissible demo_registration_env [''ratatoskr-github''] demo_command demo_registration 5"
  "next_after demo_env ''* * * * *'' 5 = Some 60000000"
  "schedule_ok (registered_row 8 demo_registration 60000000 5)" "entity_ref ''correlation:unknown''"
  by code_simp+

theorem registration_is_authorized_witness:
  "\<exists>d' i r. registration_apply demo_registration_env [''ratatoskr-github''] 1 8 demo_users demo_command 5
       = Inr (RegistrationApplied, d') \<and> schedule_at d' i = Some r
     \<and> registered_as demo_registration r \<and> sc_next_due_at r = 60000000 \<and> db_ok d'"
proof -
  have env: "scheduling demo_registration_env = demo_env"
    "registration_read demo_registration_env demo_command = Some demo_registration"
    "rg_cron demo_registration = ''* * * * *''" "rg_owner demo_registration = 3"
    by (simp_all add: demo_registration_env_def demo_registration_def registration_read_def demo_command_def
        registration_command_type_def)
  have up: "upsert_schedule demo_users (registered_row 8 demo_registration 60000000 5) 5
      = Inr (8, demo_users\<lparr>t_schedules := [registered_row 8 demo_registration 60000000 5]\<rparr>)"
    using demo_registration_checks(5)
    by (simp add: upsert_schedule_def demo_users_def empty_db_def sql_insert_def registered_row_def)
  obtain d' where "registration_audit (demo_users\<lparr>t_schedules := [registered_row 8 demo_registration 60000000 5]\<rparr>)
      1 (Some 3) (Some 8) Allowed demo_command 5 = Inr d'"
    using demo_registration_checks(6)
    by (simp add: registration_audit_def audit_record_def audit_row_of_def user_exists_def row_exists_def sql_insert_def demo_users_def empty_db_def audit_ok_def
        bounded_def demo_command_def json_get_def cong: bindE_weak_cong)
  then have d': "registration_apply demo_registration_env [''ratatoskr-github''] 1 8 demo_users demo_command 5
       = Inr (RegistrationApplied, d')"
    by (simp add: registration_apply_def Let_def env up demo_registration_checks cong: bindE_weak_cong)
  have "schedule_at demo_users i = None" for i by (simp add: schedule_at_def demo_users_def empty_db_def)
  with registration_is_authorized [OF demo_registration_checks(1) d'] d' env demo_registration_checks(4)
  show ?thesis by (auto 0 4)
qed

end
