(* ===== verification/Identity.thy ===== *)
theory Identity
  imports Audit_Trail
begin

text \<open>
  \<^verbatim>\<open>crates/identity/src/lib.rs\<close>, \<^verbatim>\<open>user.rs\<close> and \<^verbatim>\<open>grant.rs\<close>: digests of credentials, the durable why of a
  revocation, users and their provider identities, and the capabilities a user holds. A function that
  inserts a row takes the identifier of \<open>Uuid::now_v7()\<close> as an argument. \<open>sha256\<close> is the digest of a
  text.
\<close>

subsection \<open>Credentials\<close>

definition secret_digest :: "(string \<Rightarrow> digest) \<Rightarrow> string \<Rightarrow> digest" where
  "secret_digest sha256 credential = sha256 credential"

definition to_ascii_lowercase :: "char \<Rightarrow> char" where
  "to_ascii_lowercase c = (if is_ascii_uppercase c then char_of (byte c + 32) else c)"

text \<open>\<open>header\<close> is the \<^verbatim>\<open>Authorization\<close> header as text, when there is one.\<close>

definition bearer :: "(string \<Rightarrow> digest) \<Rightarrow> string option \<Rightarrow> digest option" where
  "bearer sha256 header =
     Option.bind header (\<lambda>value.
     Option.bind (split_once (CHR '' '') value) (\<lambda>(scheme, credential).
       if map to_ascii_lowercase scheme \<noteq> ''bearer'' then None
       else let credential = trim credential
            in if credential = [] then None else Some (secret_digest sha256 credential)))"

subsection \<open>Revocations\<close>

datatype revocation_reason =
    UserRequest | Administrative | CredentialRotation | SuspectedCompromise | ExpiryPolicy

fun reason_str :: "revocation_reason \<Rightarrow> string" where
  "reason_str UserRequest = ''user_request''"
| "reason_str Administrative = ''administrative''"
| "reason_str CredentialRotation = ''credential_rotation''"
| "reason_str SuspectedCompromise = ''suspected_compromise''"
| "reason_str ExpiryPolicy = ''expiry_policy''"

datatype revocation_subject = UserSubject | SessionSubject | DeviceSubject | RefreshTokenSubject

fun revocation_subject_str :: "revocation_subject \<Rightarrow> string" where
  "revocation_subject_str UserSubject = ''user''"
| "revocation_subject_str SessionSubject = ''session''"
| "revocation_subject_str DeviceSubject = ''device''"
| "revocation_subject_str RefreshTokenSubject = ''refresh_token''"

definition record_revocation ::
  "db \<Rightarrow> uuid \<Rightarrow> revocation_subject \<Rightarrow> uuid \<Rightarrow> revocation_reason \<Rightarrow> uuid option \<Rightarrow> instant
     \<Rightarrow> persistence_error + uuid \<times> db" where
  "record_revocation d k subj subject_id reason revoked_by revoked_at =
     persist (bindE (sql_insert revocation_ok revocation_clash
              \<lparr>rv_id = k, rv_subject_kind = revocation_subject_str subj, rv_subject = subject_id,
               rv_reason = reason_str reason, rv_revoked_at = revoked_at, rv_revoked_by = revoked_by\<rparr>
              (t_revocations d)) (\<lambda>t.
       if (case revoked_by of None \<Rightarrow> True | Some u \<Rightarrow> user_exists d u)
       then Inr (k, d\<lparr>t_revocations := t\<rparr>) else Inl Foreign_key_violation))"

definition count_revocations :: "db \<Rightarrow> revocation_subject \<Rightarrow> uuid \<Rightarrow> nat" where
  "count_revocations d subj subject_id =
     rows_affected (\<lambda>r. rv_subject_kind r = revocation_subject_str subj \<and> rv_subject r = subject_id)
       (t_revocations d)"

subsection \<open>Users\<close>

datatype user_status = ActiveUser | SuspendedUser | DeletedUser

fun user_status_str :: "user_status \<Rightarrow> string" where
  "user_status_str ActiveUser = ''active''"
| "user_status_str SuspendedUser = ''suspended''"
| "user_status_str DeletedUser = ''deleted''"

definition user_status_from_str :: "string \<Rightarrow> user_status option" where
  "user_status_from_str s =
     (if s = ''active'' then Some ActiveUser else if s = ''suspended'' then Some SuspendedUser
      else if s = ''deleted'' then Some DeletedUser else None)"

definition may_authenticate :: "user_status \<Rightarrow> bool" where
  "may_authenticate s \<longleftrightarrow> s = ActiveUser"

record user =
  u_id :: uuid
  u_status :: user_status
  u_created_at :: instant
  u_updated_at :: instant

definition create_user :: "db \<Rightarrow> uuid \<Rightarrow> instant \<Rightarrow> persistence_error + user \<times> db" where
  "create_user d k now =
     bindE (persist (sql_insert user_ok user_clash
              \<lparr>us_id = k, us_status = ''active'', us_created_at = now, us_updated_at = now\<rparr> (t_users d)))
       (\<lambda>t. Inr (\<lparr>u_id = k, u_status = ActiveUser, u_created_at = now, u_updated_at = now\<rparr>,
                 d\<lparr>t_users := t\<rparr>))"

definition find_user :: "db \<Rightarrow> uuid \<Rightarrow> user option" where
  "find_user d i =
     map_option (\<lambda>r. \<lparr>u_id = us_id r,
         u_status = (case user_status_from_str (us_status r) of Some s \<Rightarrow> s | None \<Rightarrow> DeletedUser),
         u_created_at = us_created_at r, u_updated_at = us_updated_at r\<rparr>)
       (fetch_optional (\<lambda>r. us_id r = i) (t_users d))"

definition set_user_status :: "db \<Rightarrow> uuid \<Rightarrow> user_status \<Rightarrow> instant \<Rightarrow> persistence_error + bool \<times> db" where
  "set_user_status d i st now =
     bindE (persist (sql_update (\<lambda>_. user_ok) user_clash (\<lambda>r. us_id r = i)
              (\<lambda>r. r\<lparr>us_status := user_status_str st, us_updated_at := now\<rparr>) (t_users d)))
       (\<lambda>t. Inr (rows_affected (\<lambda>r. us_id r = i) (t_users d) = 1, d\<lparr>t_users := t\<rparr>))"

datatype identity_provider = Telegram | GitHub | Email

fun provider_str :: "identity_provider \<Rightarrow> string" where
  "provider_str Telegram = ''telegram''"
| "provider_str GitHub = ''github''"
| "provider_str Email = ''email''"

definition all_providers :: "identity_provider list" where
  "all_providers = [Telegram, GitHub, Email]"

definition provider_from_str :: "string \<Rightarrow> identity_provider option" where
  "provider_from_str value = find (\<lambda>kind. provider_str kind = value) all_providers"

record external_identity =
  ei_id :: uuid
  ei_user :: uuid
  ei_provider :: identity_provider
  ei_external :: string

text \<open>
  The upsert touches the existing mapping and returns its user, whatever user was asked for. The
  foreign key of the proposed row is not looked at when the row is not inserted.
\<close>

definition link_external_identity ::
  "db \<Rightarrow> uuid \<Rightarrow> uuid \<Rightarrow> identity_provider \<Rightarrow> string \<Rightarrow> instant
     \<Rightarrow> persistence_error + external_identity \<times> db" where
  "link_external_identity d k user provider external now =
     (let r = \<lparr>idn_id = k, idn_user = user, idn_provider = provider_str provider, idn_external = external,
               idn_created_at = now, idn_last_seen_at = Some now\<rparr>
      in bindE (persist
          (if \<not> identity_ok r then Inl Check_violation
           else case fetch_optional (\<lambda>x. identity_name_clash x r) (t_identities d) of
             None \<Rightarrow> bindE (sql_insert identity_ok identity_clash r (t_identities d)) (\<lambda>t.
                if user_exists d user then Inr (k, user, t) else Inl Foreign_key_violation)
           | Some x \<Rightarrow> bindE (sql_update (\<lambda>_. identity_ok) identity_clash (\<lambda>y. idn_id y = idn_id x)
                (\<lambda>y. y\<lparr>idn_last_seen_at := Some now\<rparr>) (t_identities d)) (\<lambda>t. Inr (idn_id x, idn_user x, t))))
         (\<lambda>(i, u, t). Inr (\<lparr>ei_id = i, ei_user = u, ei_provider = provider, ei_external = external\<rparr>,
                           d\<lparr>t_identities := t\<rparr>)))"

definition find_user_by_external_identity :: "db \<Rightarrow> identity_provider \<Rightarrow> string \<Rightarrow> uuid option" where
  "find_user_by_external_identity d provider external =
     map_option idn_user (fetch_optional (\<lambda>r. idn_provider r = provider_str provider \<and> idn_external r = external)
       (t_identities d))"

subsection \<open>Grants\<close>

definition live_grant :: "uuid \<Rightarrow> string \<Rightarrow> instant \<Rightarrow> grant_row \<Rightarrow> bool" where
  "live_grant u capability now g \<longleftrightarrow> gr_user g = u \<and> gr_capability g = capability
     \<and> gr_revoked_at g = None \<and> (case gr_expires_at g of None \<Rightarrow> True | Some t \<Rightarrow> now < t)"

definition holds :: "db \<Rightarrow> uuid \<Rightarrow> string \<Rightarrow> instant \<Rightarrow> bool" where
  "holds d u capability now = row_exists (live_grant u capability now) (t_grants d)"

definition grant ::
  "db \<Rightarrow> uuid \<Rightarrow> uuid \<Rightarrow> string \<Rightarrow> instant \<Rightarrow> instant option \<Rightarrow> persistence_error + uuid \<times> db" where
  "grant d k u capability now expires_at =
     (let r = \<lparr>gr_id = k, gr_user = u, gr_capability = capability, gr_granted_at = now,
               gr_expires_at = expires_at, gr_revoked_at = None\<rparr>
      in bindE (persist
          (if \<not> grant_ok r then Inl Check_violation
           else case fetch_optional (\<lambda>x. grant_live_clash x r) (t_grants d) of
             None \<Rightarrow> bindE (sql_insert grant_ok grant_clash r (t_grants d)) (\<lambda>t.
                if user_exists d u then Inr (k, t) else Inl Foreign_key_violation)
           | Some x \<Rightarrow> bindE (sql_update (\<lambda>_. grant_ok) grant_clash (\<lambda>y. gr_id y = gr_id x)
                (\<lambda>y. y\<lparr>gr_expires_at := expires_at\<rparr>) (t_grants d)) (\<lambda>t. Inr (gr_id x, t))))
         (\<lambda>(i, t). Inr (i, d\<lparr>t_grants := t\<rparr>)))"

definition revoke_grant :: "db \<Rightarrow> uuid \<Rightarrow> string \<Rightarrow> instant \<Rightarrow> persistence_error + bool \<times> db" where
  "revoke_grant d u capability now =
     (let p = (\<lambda>r. gr_user r = u \<and> gr_capability r = capability \<and> gr_revoked_at r = None)
      in bindE (persist (sql_update (\<lambda>_. grant_ok) grant_clash p (\<lambda>r. r\<lparr>gr_revoked_at := Some now\<rparr>) (t_grants d)))
           (\<lambda>t. Inr (0 < rows_affected p (t_grants d), d\<lparr>t_grants := t\<rparr>)))"

subsection \<open>What the tables keep\<close>

lemma record_revocation_Inr:
  assumes "record_revocation d k subj i reason by_whom now = Inr (j, d')"
  shows "\<exists>r. rv_subject_kind r = revocation_subject_str subj \<and> rv_subject r = i \<and> rv_reason r = reason_str reason
     \<and> d' = d\<lparr>t_revocations := t_revocations d @ [r]\<rparr>"
    and "db_ok d \<Longrightarrow> db_ok d'"
proof -
  let ?r = "\<lparr>rv_id = k, rv_subject_kind = revocation_subject_str subj, rv_subject = i,
     rv_reason = reason_str reason, rv_revoked_at = now, rv_revoked_by = by_whom\<rparr>"
  have t: "sql_insert revocation_ok revocation_clash ?r (t_revocations d) = Inr (t_revocations d @ [?r])"
    "d' = d\<lparr>t_revocations := t_revocations d @ [?r]\<rparr>"
    using assms by (auto simp: record_revocation_def sql_insert_Inr split: if_splits)
  show "\<exists>r. rv_subject_kind r = revocation_subject_str subj \<and> rv_subject r = i \<and> rv_reason r = reason_str reason
     \<and> d' = d\<lparr>t_revocations := t_revocations d @ [r]\<rparr>"
    by (rule exI [of _ ?r]) (simp add: t(2))
  show "db_ok d \<Longrightarrow> db_ok d'"
    using revocations_table.insert_ok [OF t(1)] t(2) by (auto dest: db_okD(16))
qed

lemma record_revocation_succeeds:
  assumes "\<forall>r \<in> set (t_revocations d). rv_id r \<noteq> k" and "case by_whom of None \<Rightarrow> True | Some u \<Rightarrow> user_exists d u"
  shows "\<exists>d'. record_revocation d k subj i reason by_whom now = Inr (k, d')"
proof -
  have "revocation_ok \<lparr>rv_id = k, rv_subject_kind = revocation_subject_str subj, rv_subject = i,
     rv_reason = reason_str reason, rv_revoked_at = now, rv_revoked_by = by_whom\<rparr>"
    by (cases subj; cases reason) (simp_all add: revocation_ok_def)
  then show ?thesis
    using assms by (auto simp: record_revocation_def sql_insert_def list_ex_iff revocation_clash_def)
qed

end
