(* ===== verification/Sessions.thy ===== *)
theory Sessions
  imports Identity
begin

text \<open>
  \<^verbatim>\<open>crates/identity/src/session.rs\<close>: opening, authenticating, reading, touching and revoking
  sessions. Liveness is computed against the instant of the call. The listing that joins devices and
  approvals stands beside its route in \<^verbatim>\<open>Session_Routes\<close>; the random generator behind
  \<open>mint_credential\<close> is not modelled: the digests it makes are arguments.
\<close>

datatype session_kind = Browser | DeviceKindSession | TelegramMiniApp | ServiceSession | ApiToken | SiteOwner

fun session_kind_str :: "session_kind \<Rightarrow> string" where
  "session_kind_str Browser = ''browser''"
| "session_kind_str DeviceKindSession = ''device''"
| "session_kind_str TelegramMiniApp = ''telegram_mini_app''"
| "session_kind_str ServiceSession = ''service''"
| "session_kind_str ApiToken = ''api_token''"
| "session_kind_str SiteOwner = ''site_owner''"

definition session_kind_from_str :: "string \<Rightarrow> session_kind option" where
  "session_kind_from_str s =
     (if s = ''browser'' then Some Browser else if s = ''device'' then Some DeviceKindSession
      else if s = ''telegram_mini_app'' then Some TelegramMiniApp
      else if s = ''service'' then Some ServiceSession
      else if s = ''api_token'' then Some ApiToken
      else if s = ''site_owner'' then Some SiteOwner else None)"

definition requires_device :: "session_kind \<Rightarrow> bool" where
  "requires_device k \<longleftrightarrow> k = DeviceKindSession"

record session =
  s_id :: uuid
  s_user :: uuid
  s_kind :: session_kind
  s_device :: "uuid option"
  s_audience :: string
  s_issued_at :: instant
  s_expires_at :: instant
  s_revoked_at :: "instant option"
  s_last_seen_at :: "instant option"

definition is_live_at :: "session \<Rightarrow> instant \<Rightarrow> bool" where
  "is_live_at s now \<longleftrightarrow> s_revoked_at s = None \<and> now < s_expires_at s"

record new_session =
  ns_user :: uuid
  ns_kind :: session_kind
  ns_device :: "uuid option"
  ns_audience :: string
  ns_token :: "digest option"
  ns_issued_at :: instant
  ns_expires_at :: instant

definition site_owner_lifetime :: int where
  "site_owner_lifetime = seconds (12 * 3600)"

definition site_owner_idle :: int where
  "site_owner_idle = seconds 3600"

definition site_audience :: "string \<Rightarrow> string" where
  "site_audience site = ''site:'' @ site"

definition site_owner :: "uuid \<Rightarrow> string \<Rightarrow> digest \<Rightarrow> instant \<Rightarrow> new_session" where
  "site_owner user audience token now =
     \<lparr>ns_user = user, ns_kind = SiteOwner, ns_device = None, ns_audience = audience, ns_token = Some token,
      ns_issued_at = now, ns_expires_at = now + site_owner_lifetime\<rparr>"

subsection \<open>Opening and authenticating\<close>

definition session_row_of :: "uuid \<Rightarrow> new_session \<Rightarrow> session_row" where
  "session_row_of k n =
     \<lparr>ss_id = k, ss_user = ns_user n, ss_kind = session_kind_str (ns_kind n), ss_device = ns_device n,
      ss_audience = ns_audience n, ss_issued_at = ns_issued_at n, ss_expires_at = ns_expires_at n,
      ss_last_seen_at = Some (ns_issued_at n), ss_revoked_at = None, ss_token_hash = ns_token n\<rparr>"

definition create_session :: "db \<Rightarrow> uuid \<Rightarrow> new_session \<Rightarrow> persistence_error + session \<times> db" where
  "create_session d k n =
     persist (bindE (sql_insert session_ok session_clash (session_row_of k n) (t_sessions d)) (\<lambda>t.
       if user_exists d (ns_user n) \<and> (case ns_device n of None \<Rightarrow> True | Some i \<Rightarrow> device_exists d i)
       then Inr (\<lparr>s_id = k, s_user = ns_user n, s_kind = ns_kind n, s_device = ns_device n,
                  s_audience = ns_audience n, s_issued_at = ns_issued_at n, s_expires_at = ns_expires_at n,
                  s_revoked_at = None, s_last_seen_at = Some (ns_issued_at n)\<rparr>, d\<lparr>t_sessions := t\<rparr>)
       else Inl Foreign_key_violation))"

definition session_from_row :: "session_row \<Rightarrow> session" where
  "session_from_row r =
     \<lparr>s_id = ss_id r, s_user = ss_user r,
      s_kind = (case session_kind_from_str (ss_kind r) of Some k \<Rightarrow> k | None \<Rightarrow> ServiceSession),
      s_device = ss_device r, s_audience = ss_audience r, s_issued_at = ss_issued_at r,
      s_expires_at = ss_expires_at r, s_revoked_at = ss_revoked_at r, s_last_seen_at = ss_last_seen_at r\<rparr>"

text \<open>A site owner's session also ends when it was idle for an hour.\<close>

definition recently_used :: "instant \<Rightarrow> session_row \<Rightarrow> bool" where
  "recently_used now r \<longleftrightarrow> ss_kind r \<noteq> ''site_owner''
     \<or> now - site_owner_idle < (case ss_last_seen_at r of Some t \<Rightarrow> t | None \<Rightarrow> ss_issued_at r)"

definition authenticates :: "digest \<Rightarrow> string \<Rightarrow> instant \<Rightarrow> session_row \<Rightarrow> bool" where
  "authenticates presented audience now r \<longleftrightarrow> ss_token_hash r = Some presented \<and> ss_audience r = audience
     \<and> ss_revoked_at r = None \<and> now < ss_expires_at r \<and> recently_used now r"

definition authenticate :: "db \<Rightarrow> digest \<Rightarrow> string \<Rightarrow> instant \<Rightarrow> session option" where
  "authenticate d presented audience now =
     map_option session_from_row (fetch_optional (authenticates presented audience now) (t_sessions d))"

definition find_session :: "db \<Rightarrow> uuid \<Rightarrow> session option" where
  "find_session d i = map_option session_from_row (fetch_optional (\<lambda>r. ss_id r = i) (t_sessions d))"

subsection \<open>Ending and touching\<close>

definition revoked_session :: "instant \<Rightarrow> session_row \<Rightarrow> session_row" where
  "revoked_session at r = r\<lparr>ss_revoked_at := Some at\<rparr>"

text \<open>The update behind every revocation: of the live sessions that \<open>p\<close> selects.\<close>

definition revoke_where :: "db \<Rightarrow> (session_row \<Rightarrow> bool) \<Rightarrow> instant \<Rightarrow> persistence_error + uuid list \<times> db" where
  "revoke_where d p revoked_at =
     (let q = (\<lambda>r. p r \<and> ss_revoked_at r = None)
      in bindE (persist (sql_update (\<lambda>_. session_ok) session_clash q (revoked_session revoked_at) (t_sessions d)))
           (\<lambda>t. Inr (map ss_id (filter q (t_sessions d)), d\<lparr>t_sessions := t\<rparr>)))"

definition revoke_session :: "db \<Rightarrow> uuid \<Rightarrow> instant \<Rightarrow> persistence_error + bool \<times> db" where
  "revoke_session d i revoked_at =
     bindE (revoke_where d (\<lambda>r. ss_id r = i) revoked_at) (\<lambda>(ids, d'). Inr (length ids = 1, d'))"

definition revoke_all_sessions_of_user :: "db \<Rightarrow> uuid \<Rightarrow> instant \<Rightarrow> persistence_error + nat \<times> db" where
  "revoke_all_sessions_of_user d user revoked_at =
     bindE (revoke_where d (\<lambda>r. ss_user r = user) revoked_at) (\<lambda>(ids, d'). Inr (length ids, d'))"

definition revoke_site_sessions ::
  "db \<Rightarrow> uuid option \<Rightarrow> string \<Rightarrow> instant \<Rightarrow> persistence_error + uuid list \<times> db" where
  "revoke_site_sessions d user site revoked_at =
     revoke_where d (\<lambda>r. ss_kind r = ''site_owner'' \<and> ss_audience r = site_audience site
       \<and> (case user of None \<Rightarrow> True | Some u \<Rightarrow> ss_user r = u)) revoked_at"

definition stale_touch :: "instant option \<Rightarrow> instant \<Rightarrow> bool" where
  "stale_touch seen_at stale_before \<longleftrightarrow> (case seen_at of None \<Rightarrow> True | Some t \<Rightarrow> t \<le> stale_before)"

definition touch_last_seen ::
  "db \<Rightarrow> uuid \<Rightarrow> uuid option \<Rightarrow> instant \<Rightarrow> int \<Rightarrow> (persistence_error + unit) \<times> db" where
  "touch_last_seen d i device now min_interval =
     (let stale_before = now - min_interval
      in case persist (sql_update (\<lambda>_. session_ok) session_clash
                (\<lambda>r. ss_id r = i \<and> ss_revoked_at r = None \<and> stale_touch (ss_last_seen_at r) stale_before)
                (\<lambda>r. r\<lparr>ss_last_seen_at := Some now\<rparr>) (t_sessions d)) of
           Inl e \<Rightarrow> (Inl e, d)
         | Inr t \<Rightarrow>
             let d1 = d\<lparr>t_sessions := t\<rparr>
             in case device of
                  None \<Rightarrow> (Inr (), d1)
                | Some k \<Rightarrow>
                    (case persist (sql_update (\<lambda>_. device_ok) device_clash
                        (\<lambda>r. dv_id r = k \<and> dv_revoked_at r = None \<and> stale_touch (dv_last_seen_at r) stale_before)
                        (\<lambda>r. r\<lparr>dv_last_seen_at := Some now\<rparr>) (t_devices d1)) of
                       Inl e \<Rightarrow> (Inl e, d1)
                     | Inr u \<Rightarrow> (Inr (), d1\<lparr>t_devices := u\<rparr>)))"

definition list_live_session_ids :: "db \<Rightarrow> uuid \<Rightarrow> instant \<Rightarrow> uuid list" where
  "list_live_session_ids d user now =
     map ss_id (fetch_all (\<lambda>r. ss_user r = user \<and> ss_revoked_at r = None \<and> now < ss_expires_at r) (t_sessions d))"

subsection \<open>The row of a session\<close>

definition session_at :: "db \<Rightarrow> uuid \<Rightarrow> session_row option" where
  "session_at d i = fetch_optional (\<lambda>r. ss_id r = i) (t_sessions d)"

lemma session_at_iff: "db_ok d \<Longrightarrow> session_at d i = Some r \<longleftrightarrow> r \<in> set (t_sessions d) \<and> ss_id r = i"
  unfolding session_at_def by (rule sessions_table.fetch_key [OF db_okD(13)])

lemma session_at_id: "session_at d i = Some r \<Longrightarrow> ss_id r = i"
  by (auto simp: session_at_def dest: fetch_optional_SomeD)

lemma session_at_update:
  assumes "\<And>r. ss_id (f r) = ss_id r"
  shows "session_at (d\<lparr>t_sessions := update_where p f (t_sessions d)\<rparr>) i
    = map_option (\<lambda>r. if p r then f r else r) (session_at d i)"
  by (simp add: session_at_def fetch_update_where assms)

lemma session_kind_roundtrip [simp]: "session_kind_from_str (session_kind_str k) = Some k"
  by (cases k) (simp_all add: session_kind_from_str_def)

lemma create_session_Inr:
  assumes "create_session d k n = Inr (s, d')"
  shows "db_ok d \<Longrightarrow> db_ok d'"
    and "d' = d\<lparr>t_sessions := t_sessions d @ [session_row_of k n]\<rparr>"
    and "s = session_from_row (session_row_of k n)"
    and "\<forall>x \<in> set (t_sessions d). \<not> session_clash x (session_row_of k n)"
    and "session_ok (session_row_of k n)" and "user_exists d (ns_user n)"
proof -
  have t: "sql_insert session_ok session_clash (session_row_of k n) (t_sessions d)
      = Inr (t_sessions d @ [session_row_of k n])"
    and d': "d' = d\<lparr>t_sessions := t_sessions d @ [session_row_of k n]\<rparr>" and user: "user_exists d (ns_user n)"
    and s: "s = session_from_row (session_row_of k n)"
    using assms by (auto simp: create_session_def sql_insert_Inr session_from_row_def session_row_of_def split: if_splits)
  show "db_ok d \<Longrightarrow> db_ok d'"
    using sessions_table.insert_ok [OF t] d' by (auto dest: db_okD(13))
  show "d' = d\<lparr>t_sessions := t_sessions d @ [session_row_of k n]\<rparr>" by (rule d')
  show "s = session_from_row (session_row_of k n)" by (rule s)
  show "\<forall>x \<in> set (t_sessions d). \<not> session_clash x (session_row_of k n)" "session_ok (session_row_of k n)"
    using t by (simp_all add: sql_insert_Inr)
  show "user_exists d (ns_user n)" by (rule user)
qed

lemma revoked_session_simps [simp]:
  "ss_id (revoked_session t r) = ss_id r" "ss_revoked_at (revoked_session t r) = Some t"
  "session_clash (revoked_session t r) x = session_clash r x"
  by (simp_all add: revoked_session_def session_clash_def)

lemma revoke_where_Inr:
  assumes "revoke_where d p t = Inr (ids, d')"
  shows "db_ok d \<Longrightarrow> db_ok d'"
    and "session_at d' i = map_option (\<lambda>r. if p r \<and> ss_revoked_at r = None then revoked_session t r else r) (session_at d i)"
    and "ids = map ss_id (filter (\<lambda>r. p r \<and> ss_revoked_at r = None) (t_sessions d))"
    and "\<exists>u. d' = d\<lparr>t_sessions := u\<rparr>"
proof -
  let ?q = "\<lambda>r. p r \<and> ss_revoked_at r = None"
  from assms obtain u where u: "sql_update (\<lambda>_. session_ok) session_clash ?q (revoked_session t) (t_sessions d) = Inr u"
    and d': "d' = d\<lparr>t_sessions := u\<rparr>" and ids: "ids = map ss_id (filter ?q (t_sessions d))"
    by (auto simp: revoke_where_def Let_def)
  show "db_ok d \<Longrightarrow> db_ok d'"
    using sessions_table.update_ok [OF u] d' by (auto dest: db_okD(13))
  show "session_at d' i = map_option (\<lambda>r. if ?q r then revoked_session t r else r) (session_at d i)"
    using u d' session_at_update [where f = "revoked_session t" and d = d and p = ?q] by (simp add: sql_update_Inr)
  show "ids = map ss_id (filter ?q (t_sessions d))" by (rule ids)
  show "\<exists>u. d' = d\<lparr>t_sessions := u\<rparr>" using d' by blast
qed

text \<open>Revoking is refused only by the check that a session is not revoked before it was issued.\<close>

lemma revoke_where_succeeds:
  assumes "db_ok d" and "\<And>r. r \<in> set (t_sessions d) \<Longrightarrow> p r \<Longrightarrow> ss_revoked_at r = None \<Longrightarrow> ss_issued_at r \<le> t"
  shows "\<exists>ids d'. revoke_where d p t = Inr (ids, d')"
proof -
  have "sql_update (\<lambda>_. session_ok) session_clash (\<lambda>r. p r \<and> ss_revoked_at r = None) (revoked_session t) (t_sessions d)
      = Inr (update_where (\<lambda>r. p r \<and> ss_revoked_at r = None) (revoked_session t) (t_sessions d))"
  proof (rule sessions_table.update_succeeds [OF db_okD(13) [OF assms(1)]])
    show "session_ok (revoked_session t r)" if "r \<in> set (t_sessions d)" "p r \<and> ss_revoked_at r = None" for r
      using sessions_table.row_ok [OF db_okD(13) [OF assms(1)] that(1)] assms(2) [OF that(1)] that(2)
      by (auto simp: session_ok_def revoked_session_def)
  qed simp
  then show ?thesis by (simp add: revoke_where_def Let_def)
qed

lemma session_from_row_simps [simp]:
  "s_id (session_from_row r) = ss_id r" "s_user (session_from_row r) = ss_user r"
  "s_audience (session_from_row r) = ss_audience r" "s_revoked_at (session_from_row r) = ss_revoked_at r"
  "s_expires_at (session_from_row r) = ss_expires_at r" "s_device (session_from_row r) = ss_device r"
  "s_last_seen_at (session_from_row r) = ss_last_seen_at r" "s_issued_at (session_from_row r) = ss_issued_at r"
  by (simp_all add: session_from_row_def)

lemma authenticate_Some:
  assumes "db_ok d"
  shows "authenticate d presented audience now = Some s \<longleftrightarrow>
    (\<exists>r \<in> set (t_sessions d). authenticates presented audience now r \<and> s = session_from_row r)"
proof -
  have "x = y" if "x \<in> set (t_sessions d)" "y \<in> set (t_sessions d)" "authenticates presented audience now x"
    "authenticates presented audience now y" for x y
    by (rule sessions_table.unclashing [OF db_okD(13) [OF assms] that(1,2)])
      (use that(3,4) in \<open>simp add: authenticates_def session_clash_def\<close>)
  then show ?thesis
    unfolding authenticate_def
    by (auto dest!: fetch_optional_SomeD) (metis (mono_tags, lifting) fetch_optional_None fetch_optional_SomeD not_None_eq)
qed

text \<open>A session that is revoked authenticates with no credential, at no time.\<close>

lemma revoked_never_authenticates:
  assumes "db_ok d" and "session_at d i = Some r" and "ss_revoked_at r \<noteq> None"
    and "authenticate d presented audience now = Some s"
  shows "s_id s \<noteq> i"
proof -
  obtain x where x: "x \<in> set (t_sessions d)" "authenticates presented audience now x" "s = session_from_row x"
    using assms(4) by (auto simp: authenticate_Some [OF assms(1)])
  have "x \<noteq> r" using assms(3) x(2) by (auto simp: authenticates_def)
  moreover have "session_at d (ss_id x) = Some x" using x(1) by (simp add: session_at_iff [OF assms(1)])
  ultimately have "ss_id x \<noteq> i" using assms(2) by auto
  then show ?thesis using x(3) by simp
qed

text \<open>
  A credential opens a request exactly when a stored session carries its digest, serves that audience,
  is neither revoked nor expired and, for a site owner, was used within the hour; and that session is unique.
\<close>

lemma authentication_is_exact:
  assumes "db_ok d"
  shows "(authenticate d presented audience now = Some s) =
    (\<exists>r \<in> set (t_sessions d). ss_token_hash r = Some presented \<and> s = session_from_row r
       \<and> s_audience s = audience \<and> is_live_at s now
       \<and> (s_kind s = SiteOwner \<longrightarrow>
            now < (case s_last_seen_at s of Some t \<Rightarrow> t | None \<Rightarrow> s_issued_at s) + site_owner_idle)
       \<and> (\<forall>x \<in> set (t_sessions d). ss_token_hash x = Some presented \<longrightarrow> x = r))"
proof -
  have kind: "s_kind (session_from_row r) = SiteOwner \<longleftrightarrow> ss_kind r = ''site_owner''"
    if "r \<in> set (t_sessions d)" for r
    using sessions_table.row_ok [OF db_okD(13) [OF assms] that]
    by (auto simp: session_from_row_def session_ok_def session_kind_from_str_def)
  have one: "x = r" if "x \<in> set (t_sessions d)" "r \<in> set (t_sessions d)" "ss_token_hash r = Some presented"
    "ss_token_hash x = Some presented" for x r
    by (rule sessions_table.unclashing [OF db_okD(13) [OF assms] that(1,2)]) (simp add: session_clash_def that)
  have used: "recently_used now r \<longleftrightarrow> (s_kind (session_from_row r) = SiteOwner \<longrightarrow>
      now < (case ss_last_seen_at r of Some t \<Rightarrow> t | None \<Rightarrow> ss_issued_at r) + site_owner_idle)"
    if "r \<in> set (t_sessions d)" for r
    unfolding recently_used_def kind [OF that] by (auto split: option.splits)
  show ?thesis
    unfolding authenticate_Some [OF assms] authenticates_def is_live_at_def
    by (rule bex_cong [OF refl], use used one in \<open>simp only: session_from_row_simps\<close>) (metis session_from_row_simps)
qed

subsection \<open>An example database\<close>

text \<open>
  One user with a paired device, the device's session with a spent and an unspent refresh link, the primary
  browser session, a pending pairing code that pins the mobile kind, a sign-in code, the owner grant, a
  provider identity and a relay nobody claimed yet.
\<close>

definition example_digest :: "8 word \<Rightarrow> digest" where
  "example_digest b = replicate 32 b"

definition example_device_session :: session_row where
  "example_device_session =
     \<lparr>ss_id = 10, ss_user = 1, ss_kind = ''device'', ss_device = Some 5, ss_audience = ''edge'', ss_issued_at = 10,
      ss_expires_at = 1000, ss_last_seen_at = Some 10, ss_revoked_at = None, ss_token_hash = Some (example_digest 1)\<rparr>"

definition example_browser_session :: session_row where
  "example_browser_session =
     \<lparr>ss_id = 11, ss_user = 1, ss_kind = ''browser'', ss_device = None, ss_audience = ''edge'', ss_issued_at = 10,
      ss_expires_at = 1000, ss_last_seen_at = Some 10, ss_revoked_at = None, ss_token_hash = Some (example_digest 2)\<rparr>"

definition example_old_session :: session_row where
  "example_old_session =
     \<lparr>ss_id = 12, ss_user = 1, ss_kind = ''browser'', ss_device = None, ss_audience = ''edge'', ss_issued_at = 1,
      ss_expires_at = 900, ss_last_seen_at = Some 1, ss_revoked_at = Some 5, ss_token_hash = Some (example_digest 9)\<rparr>"

definition example_spent_link :: refresh_row where
  "example_spent_link =
     \<lparr>rt_id = 20, rt_session = 10, rt_token_hash = example_digest 3, rt_issued_at = 10, rt_expires_at = 2000,
      rt_consumed_at = Some 50, rt_replaced_by = Some 21\<rparr>"

definition example_link :: refresh_row where
  "example_link =
     \<lparr>rt_id = 21, rt_session = 10, rt_token_hash = example_digest 4, rt_issued_at = 50, rt_expires_at = 2000,
      rt_consumed_at = None, rt_replaced_by = None\<rparr>"

definition example_code :: pairing_row where
  "example_code =
     \<lparr>pc_id = 30, pc_user = 1, pc_created_by = 11, pc_code_hash = example_digest 5,
      pc_expected_kind = Some ''mobile'', pc_label = None, pc_created_at = 20, pc_expires_at = 900,
      pc_failed_attempts = 4, pc_superseded_at = None, pc_consumed_at = None, pc_consumed_by = None, pc_site = None\<rparr>"

definition example_sign_in :: sign_in_row where
  "example_sign_in =
     \<lparr>sg_id = 40, sg_code_hash = example_digest 6, sg_user = 1, sg_created_by = 11, sg_site = ''blog'',
      sg_challenge = replicate 43 (CHR ''a''), sg_return_path = ''/'', sg_hostname = ''blog.example'',
      sg_created_at = 20, sg_expires_at = 900, sg_consumed_at = None\<rparr>"

definition example_relay :: relay_row where
  "example_relay =
     \<lparr>rl_id = 50, rl_provider = ''github'', rl_claim_grant = ''github.oauth'', rl_state = ''s'',
      rl_code = Some ''c'', rl_error = None, rl_received_at = 20, rl_expires_at = 900, rl_claimed_at = None\<rparr>"

definition example_identity :: identity_row where
  "example_identity =
     \<lparr>idn_id = 60, idn_user = 1, idn_provider = ''telegram'', idn_external = ''42'', idn_created_at = 1,
      idn_last_seen_at = None\<rparr>"

definition example_grant :: grant_row where
  "example_grant =
     \<lparr>gr_id = 70, gr_user = 1, gr_capability = ''platform.owner'', gr_granted_at = 1, gr_expires_at = None,
      gr_revoked_at = None\<rparr>"

definition identity_example :: db where
  "identity_example = empty_db
     \<lparr>t_users := [\<lparr>us_id = 1, us_status = ''active'', us_created_at = 1, us_updated_at = 1\<rparr>],
      t_devices := [\<lparr>dv_id = 5, dv_user = 1, dv_kind = ''mobile'', dv_display_name = None,
         dv_secret_hash = example_digest 7, dv_created_at = 5, dv_last_seen_at = Some 5, dv_revoked_at = None,
         dv_site = None\<rparr>],
      t_sessions := [example_device_session, example_browser_session, example_old_session],
      t_refresh := [example_spent_link, example_link], t_pairing := [example_code],
      t_sign_in := [example_sign_in], t_relays := [example_relay], t_identities := [example_identity],
      t_grants := [example_grant]\<rparr>"

lemma identity_example_ok: "db_ok identity_example"
  by code_simp

lemma example_authenticates:
  "authenticate identity_example (example_digest 2) ''edge'' 100 = Some (session_from_row example_browser_session)"
  by code_simp

lemma authentication_is_exact_witness:
  "\<exists>r \<in> set (t_sessions identity_example). ss_token_hash r = Some (example_digest 2)
     \<and> is_live_at (session_from_row example_browser_session) 100"
  using iffD1 [OF authentication_is_exact [OF identity_example_ok] example_authenticates] by blast

end
