(* ===== verification/Devices.thy ===== *)
theory Devices
  imports Sessions Listing
begin

text \<open>
  \<^verbatim>\<open>crates/identity/src/device.rs\<close>: registering, verifying, listing and revoking the installations
  that open device sessions. Revoking a device ends every session bound to it.
\<close>

datatype device_kind = Mobile | BrowserExtension | ExportAgent | ObsidianPlugin | SiteDeployer

fun device_kind_str :: "device_kind \<Rightarrow> string" where
  "device_kind_str Mobile = ''mobile''"
| "device_kind_str BrowserExtension = ''browser_extension''"
| "device_kind_str ExportAgent = ''export_agent''"
| "device_kind_str ObsidianPlugin = ''obsidian_plugin''"
| "device_kind_str SiteDeployer = ''site_deployer''"

definition device_kind_from_str :: "string \<Rightarrow> device_kind option" where
  "device_kind_from_str s =
     (if s = ''mobile'' then Some Mobile
      else if s = ''browser_extension'' then Some BrowserExtension
      else if s = ''export_agent'' then Some ExportAgent
      else if s = ''obsidian_plugin'' then Some ObsidianPlugin
      else if s = ''site_deployer'' then Some SiteDeployer else None)"

lemma device_kind_roundtrip [simp]: "device_kind_from_str (device_kind_str k) = Some k"
  by (cases k) (simp_all add: device_kind_from_str_def)

lemma device_kind_str_name [simp]: "device_kind_name (device_kind_str k)"
  by (cases k) (simp_all add: device_kind_name_def)

lemma device_kind_str_deployer [simp]: "device_kind_str k = ''site_deployer'' \<longleftrightarrow> k = SiteDeployer"
  by (cases k) simp_all

record device =
  d_id :: uuid
  d_user :: uuid
  d_kind :: device_kind
  d_display_name :: "string option"
  d_site :: "string option"
  d_created_at :: instant
  d_revoked_at :: "instant option"

definition is_active :: "device \<Rightarrow> bool" where
  "is_active x \<longleftrightarrow> d_revoked_at x = None"

record new_device =
  nd_user :: uuid
  nd_kind :: device_kind
  nd_display_name :: "string option"
  nd_site :: "string option"

definition device_row_of :: "uuid \<Rightarrow> new_device \<Rightarrow> digest \<Rightarrow> instant \<Rightarrow> device_row" where
  "device_row_of k n secret now =
     \<lparr>dv_id = k, dv_user = nd_user n, dv_kind = device_kind_str (nd_kind n), dv_display_name = nd_display_name n,
      dv_secret_hash = secret, dv_created_at = now, dv_last_seen_at = Some now, dv_revoked_at = None,
      dv_site = nd_site n\<rparr>"

definition register_site_device ::
  "db \<Rightarrow> uuid \<Rightarrow> new_device \<Rightarrow> digest \<Rightarrow> instant \<Rightarrow> persistence_error + device \<times> db" where
  "register_site_device d k n secret now =
     persist (bindE (sql_insert device_ok device_clash (device_row_of k n secret now) (t_devices d)) (\<lambda>t.
       if user_exists d (nd_user n)
       then Inr (\<lparr>d_id = k, d_user = nd_user n, d_kind = nd_kind n, d_display_name = nd_display_name n,
                  d_site = nd_site n, d_created_at = now, d_revoked_at = None\<rparr>, d\<lparr>t_devices := t\<rparr>)
       else Inl Foreign_key_violation))"

definition register_device ::
  "db \<Rightarrow> uuid \<Rightarrow> uuid \<Rightarrow> device_kind \<Rightarrow> string option \<Rightarrow> digest \<Rightarrow> instant
     \<Rightarrow> persistence_error + device \<times> db" where
  "register_device d k user kind display_name secret now =
     register_site_device d k
       \<lparr>nd_user = user, nd_kind = kind, nd_display_name = display_name, nd_site = None\<rparr> secret now"

definition stored_device_kind :: "device_row \<Rightarrow> device_kind" where
  "stored_device_kind r = (case device_kind_from_str (dv_kind r) of Some k \<Rightarrow> k | None \<Rightarrow> ExportAgent)"

definition find_device :: "db \<Rightarrow> uuid \<Rightarrow> device option" where
  "find_device d i =
     map_option (\<lambda>r. \<lparr>d_id = dv_id r, d_user = dv_user r, d_kind = stored_device_kind r,
         d_display_name = dv_display_name r, d_site = dv_site r, d_created_at = dv_created_at r,
         d_revoked_at = dv_revoked_at r\<rparr>)
       (fetch_optional (\<lambda>r. dv_id r = i) (t_devices d))"

definition verify_device_secret :: "db \<Rightarrow> uuid \<Rightarrow> digest \<Rightarrow> bool" where
  "verify_device_secret d i presented =
     (case fetch_optional (\<lambda>r. dv_id r = i \<and> dv_revoked_at r = None) (t_devices d) of
        Some r \<Rightarrow> dv_secret_hash r = presented
      | None \<Rightarrow> False)"

definition authenticate_device :: "db \<Rightarrow> uuid \<Rightarrow> digest \<Rightarrow> uuid option" where
  "authenticate_device d i presented =
     map_option dv_user (fetch_optional
       (\<lambda>r. dv_id r = i \<and> dv_revoked_at r = None \<and> dv_secret_hash r = presented) (t_devices d))"

definition revoke_device :: "db \<Rightarrow> uuid \<Rightarrow> instant \<Rightarrow> persistence_error + uuid list \<times> db" where
  "revoke_device d i revoked_at =
     bindE (persist (sql_update (\<lambda>_. device_ok) device_clash
              (\<lambda>r. dv_id r = i \<and> dv_revoked_at r = None) (\<lambda>r. r\<lparr>dv_revoked_at := Some revoked_at\<rparr>) (t_devices d)))
       (\<lambda>t. revoke_where (d\<lparr>t_devices := t\<rparr>) (\<lambda>r. ss_device r = Some i) revoked_at)"

subsection \<open>The owner's listing\<close>

record listed_device =
  ld_id :: uuid
  ld_kind :: device_kind
  ld_display_name :: "string option"
  ld_created_at :: instant
  ld_last_seen_at :: "instant option"

definition listed_device_of :: "device_row \<Rightarrow> listed_device" where
  "listed_device_of r =
     \<lparr>ld_id = dv_id r, ld_kind = stored_device_kind r, ld_display_name = dv_display_name r,
      ld_created_at = dv_created_at r, ld_last_seen_at = dv_last_seen_at r\<rparr>"

definition device_key :: "device_row \<Rightarrow> instant \<times> uuid" where
  "device_key r = (dv_created_at r, dv_id r)"

text \<open>
  The query reads one row more than the page shows, and the page is cut to the limit. A negative
  \<open>limit $n\<close> is an error of the database, which a limit of at least \<open>-1\<close> does not reach.
\<close>

definition list_active_devices :: "db \<Rightarrow> uuid \<Rightarrow> (instant \<times> uuid) option \<Rightarrow> int \<Rightarrow> listed_device list" where
  "list_active_devices d user after limit =
     take (nat limit) (map listed_device_of (take (nat (limit + 1)) (rev (sort_key device_key
       (filter (\<lambda>r. dv_user r = user \<and> dv_revoked_at r = None
           \<and> (case after of None \<Rightarrow> True | Some a \<Rightarrow> device_key r < a)) (t_devices d))))))"

subsection \<open>The row of a device\<close>

definition device_at :: "db \<Rightarrow> uuid \<Rightarrow> device_row option" where
  "device_at d i = fetch_optional (\<lambda>r. dv_id r = i) (t_devices d)"

lemma device_at_iff: "db_ok d \<Longrightarrow> device_at d i = Some r \<longleftrightarrow> r \<in> set (t_devices d) \<and> dv_id r = i"
  unfolding device_at_def by (rule devices_table.fetch_key [OF db_okD(12)])

lemma register_site_device_Inr:
  assumes "register_site_device d k n secret now = Inr (x, d')"
  shows "d' = d\<lparr>t_devices := t_devices d @ [device_row_of k n secret now]\<rparr>" and "db_ok d \<Longrightarrow> db_ok d'"
    and "d_id x = k" and "d_user x = nd_user n" and "device_ok (device_row_of k n secret now)"
proof -
  have t: "sql_insert device_ok device_clash (device_row_of k n secret now) (t_devices d)
      = Inr (t_devices d @ [device_row_of k n secret now])"
    and d': "d' = d\<lparr>t_devices := t_devices d @ [device_row_of k n secret now]\<rparr>"
    and x: "d_id x = k" "d_user x = nd_user n"
    using assms by (auto simp: register_site_device_def sql_insert_Inr split: if_splits)
  show "d' = d\<lparr>t_devices := t_devices d @ [device_row_of k n secret now]\<rparr>" by (rule d')
  show "db_ok d \<Longrightarrow> db_ok d'"
    using devices_table.insert_ok [OF t] d' by (auto dest: db_okD(12))
  show "d_id x = k" "d_user x = nd_user n" by (rule x)+
  show "device_ok (device_row_of k n secret now)" using t by (simp add: sql_insert_Inr)
qed

lemma revoke_device_Inr:
  assumes "revoke_device d i now = Inr (ids, d')"
  obtains d1 where "d1 = d\<lparr>t_devices := update_where (\<lambda>r. dv_id r = i \<and> dv_revoked_at r = None)
        (\<lambda>r. r\<lparr>dv_revoked_at := Some now\<rparr>) (t_devices d)\<rparr>"
    and "db_ok d \<Longrightarrow> db_ok d1" and "revoke_where d1 (\<lambda>r. ss_device r = Some i) now = Inr (ids, d')"
proof -
  from assms obtain t where t: "sql_update (\<lambda>_. device_ok) device_clash (\<lambda>r. dv_id r = i \<and> dv_revoked_at r = None)
        (\<lambda>r. r\<lparr>dv_revoked_at := Some now\<rparr>) (t_devices d) = Inr t"
    and rest: "revoke_where (d\<lparr>t_devices := t\<rparr>) (\<lambda>r. ss_device r = Some i) now = Inr (ids, d')"
    by (auto simp: revoke_device_def)
  have ok: "db_ok (d\<lparr>t_devices := t\<rparr>)" if "db_ok d"
    using devices_table.update_ok [OF t db_okD(12) [OF that]] that by blast
  show ?thesis by (rule that [OF _ ok rest]) (use t in \<open>simp add: sql_update_Inr\<close>)
qed

lemma revoke_device_shuts_out:
  assumes "db_ok d" and "\<forall>x \<in> set (t_devices d). dv_id x = i \<longrightarrow> dv_revoked_at x = None \<longrightarrow> dv_created_at x \<le> now"
    and "\<forall>x \<in> set (t_sessions d). ss_device x = Some i \<longrightarrow> ss_revoked_at x = None \<longrightarrow> ss_issued_at x \<le> now"
  shows "\<exists>ids d'. revoke_device d i now = Inr (ids, d') \<and> db_ok d'
     \<and> (\<forall>p. \<not> verify_device_secret d' i p \<and> authenticate_device d' i p = None)
     \<and> (\<forall>token audience later s. authenticate d' token audience later = Some s \<longrightarrow> s_device s \<noteq> Some i)
     \<and> set ids = {ss_id x | x. x \<in> set (t_sessions d) \<and> ss_device x = Some i \<and> ss_revoked_at x = None}
     \<and> (\<forall>j. j \<noteq> i \<longrightarrow> device_at d' j = device_at d j)
     \<and> (\<forall>j. session_at d' j = map_option (\<lambda>s. if ss_device s = Some i \<and> ss_revoked_at s = None
            then revoked_session now s else s) (session_at d j))"
proof -
  let ?p = "\<lambda>r. dv_id r = i \<and> dv_revoked_at r = None"
  let ?f = "\<lambda>r. r\<lparr>dv_revoked_at := Some now\<rparr>"
  let ?t = "update_where ?p ?f (t_devices d)"
  let ?d1 = "d\<lparr>t_devices := ?t\<rparr>"
  note table = db_okD(12) [OF assms(1)]
  have u: "sql_update (\<lambda>_. device_ok) device_clash ?p ?f (t_devices d) = Inr ?t"
  proof (rule devices_table.update_succeeds [OF table])
    show "device_ok (?f x)" if "x \<in> set (t_devices d)" "?p x" for x
      using devices_table.row_ok [OF table that(1)] assms(2) that by (simp add: device_ok_def)
  qed (simp add: device_clash_def)
  have ok1: "db_ok ?d1" using devices_table.update_ok [OF u table] assms(1) by blast
  obtain ids d' where rev: "revoke_where ?d1 (\<lambda>r. ss_device r = Some i) now = Inr (ids, d')"
    using revoke_where_succeeds [OF ok1, where p = "\<lambda>r. ss_device r = Some i" and t = now] assms(3) by fastforce
  note rev' = revoke_where_Inr [OF rev]
  have ok: "db_ok d'" by (rule rev'(1) [OF ok1])
  obtain v where v: "d' = ?d1\<lparr>t_sessions := v\<rparr>" using rev'(4) by blast
  have gone: "\<not> (dv_id x = i \<and> dv_revoked_at x = None)" if "x \<in> set (t_devices d')" for x
    by (rule update_where_done [of x ?p ?f "t_devices d"]) (use that in \<open>simp_all add: v\<close>)
  have out: "\<not> verify_device_secret d' i p \<and> authenticate_device d' i p = None" for p
  proof -
    have "fetch_optional ?p (t_devices d') = None"
      "fetch_optional (\<lambda>r. dv_id r = i \<and> dv_revoked_at r = None \<and> dv_secret_hash r = p) (t_devices d') = None"
      using gone by (auto simp: fetch_optional_None)
    then show ?thesis by (simp add: verify_device_secret_def authenticate_device_def)
  qed
  have sess: "session_at d' j = map_option (\<lambda>r. if ss_device r = Some i \<and> ss_revoked_at r = None
      then revoked_session now r else r) (session_at d j)" for j
    using rev'(2) [of j] by (simp add: session_at_def)
  have "s_device s \<noteq> Some i" if a: "authenticate d' token audience later = Some s" for token audience later s
  proof -
    obtain x where x: "x \<in> set (t_sessions d')" "authenticates token audience later x" "s = session_from_row x"
      using a by (auto simp: authenticate_Some [OF ok])
    then have "session_at d' (ss_id x) = Some x" by (simp add: session_at_iff [OF ok])
    then obtain y where y: "x = (if ss_device y = Some i \<and> ss_revoked_at y = None then revoked_session now y else y)"
      using sess [of "ss_id x"] by auto
    have "ss_revoked_at x = None" using x(2) by (simp add: authenticates_def)
    then show ?thesis using y x(3) by (auto split: if_splits)
  qed
  moreover have "set ids = {ss_id x | x. x \<in> set (t_sessions d) \<and> ss_device x = Some i \<and> ss_revoked_at x = None}"
    using rev'(3) by auto
  moreover have "device_at d' j = device_at d j" if "j \<noteq> i" for j
    using that by (cases "device_at d j") (auto simp: device_at_def v fetch_update_where dest: fetch_optional_SomeD)
  moreover have "revoke_device d i now = Inr (ids, d')" using u rev by (simp add: revoke_device_def)
  ultimately show ?thesis using ok out sess by blast
qed

text \<open>
  C31: revoking a device shuts it out at once. The call is refused only when the clock is before the registration of
  the device, when that is active, or before the opening of one of its unrevoked sessions. Otherwise the secret
  verifies no longer, no session bound to the device authenticates with any credential, the answer is exactly the
  sessions of the device that were not revoked before, expired ones included, those end at the instant of the call, and
  no other device and no other session changes.
\<close>

theorem revoked_device_is_shut_out:
  assumes "db_ok d"
  shows "case revoke_device d i now of
      Inl _ \<Rightarrow> (\<exists>x \<in> set (t_devices d). dv_id x = i \<and> dv_revoked_at x = None \<and> now < dv_created_at x)
        \<or> (\<exists>x \<in> set (t_sessions d). ss_device x = Some i \<and> ss_revoked_at x = None \<and> now < ss_issued_at x)
    | Inr (ids, d') \<Rightarrow> db_ok d'
     \<and> (\<forall>p. \<not> verify_device_secret d' i p \<and> authenticate_device d' i p = None)
     \<and> (\<forall>token audience later s. authenticate d' token audience later = Some s \<longrightarrow> s_device s \<noteq> Some i)
     \<and> set ids = {ss_id x | x. x \<in> set (t_sessions d) \<and> ss_device x = Some i \<and> ss_revoked_at x = None}
     \<and> (\<forall>j. j \<noteq> i \<longrightarrow> device_at d' j = device_at d j)
     \<and> (\<forall>j. session_at d' j = map_option (\<lambda>s. if ss_device s = Some i \<and> ss_revoked_at s = None
            then s\<lparr>ss_revoked_at := Some now\<rparr> else s) (session_at d j))"
proof (cases "(\<exists>x \<in> set (t_devices d). dv_id x = i \<and> dv_revoked_at x = None \<and> now < dv_created_at x)
    \<or> (\<exists>x \<in> set (t_sessions d). ss_device x = Some i \<and> ss_revoked_at x = None \<and> now < ss_issued_at x)")
  case False
  have "\<forall>x \<in> set (t_devices d). dv_id x = i \<longrightarrow> dv_revoked_at x = None \<longrightarrow> dv_created_at x \<le> now"
    "\<forall>x \<in> set (t_sessions d). ss_device x = Some i \<longrightarrow> ss_revoked_at x = None \<longrightarrow> ss_issued_at x \<le> now"
    using False by (auto simp: not_less)
  from revoke_device_shuts_out [OF assms this] obtain ids d' where run: "revoke_device d i now = Inr (ids, d')" and rest: "db_ok d'"
      "\<forall>p. \<not> verify_device_secret d' i p \<and> authenticate_device d' i p = None"
      "\<forall>token audience later s. authenticate d' token audience later = Some s \<longrightarrow> s_device s \<noteq> Some i"
      "set ids = {ss_id x | x. x \<in> set (t_sessions d) \<and> ss_device x = Some i \<and> ss_revoked_at x = None}"
      "\<forall>j. j \<noteq> i \<longrightarrow> device_at d' j = device_at d j"
      "\<forall>j. session_at d' j = map_option (\<lambda>s. if ss_device s = Some i \<and> ss_revoked_at s = None
            then revoked_session now s else s) (session_at d j)"
    by (elim exE conjE) (rule that)
  show ?thesis unfolding run sum.case prod.case using rest unfolding revoked_session_def by (intro conjI)
next
  case True
  have refused: "\<exists>e. revoke_device d i now = Inl e"
  proof (rule ccontr)
    assume "\<not> ?thesis"
    then obtain ids d' where run: "revoke_device d i now = Inr (ids, d')" by (cases "revoke_device d i now") auto
    then obtain d1 where d1: "d1 = d\<lparr>t_devices := update_where (\<lambda>r. dv_id r = i \<and> dv_revoked_at r = None)
        (\<lambda>r. r\<lparr>dv_revoked_at := Some now\<rparr>) (t_devices d)\<rparr>" "db_ok d1"
      and rev: "revoke_where d1 (\<lambda>r. ss_device r = Some i) now = Inr (ids, d')"
      using assms by (auto elim: revoke_device_Inr)
    have "db_ok d'" by (rule revoke_where_Inr(1) [OF rev d1(2)])
    from True show False
    proof (elim disjE bexE conjE)
      fix x
      assume x: "x \<in> set (t_devices d)" "dv_id x = i" "dv_revoked_at x = None" "now < dv_created_at x"
      then have "x\<lparr>dv_revoked_at := Some now\<rparr> \<in> set (t_devices d1)" by (auto simp: d1(1) set_update_where)
      from devices_table.row_ok [OF db_okD(12) [OF d1(2)] this] x(4) show False by (simp add: device_ok_def)
    next
      fix x
      assume x: "x \<in> set (t_sessions d)" "ss_device x = Some i" "ss_revoked_at x = None" "now < ss_issued_at x"
      then have "session_at d (ss_id x) = Some x" by (simp add: session_at_iff [OF assms])
      then have "session_at d1 (ss_id x) = Some x" by (simp add: session_at_def d1(1))
      then have "session_at d' (ss_id x) = Some (revoked_session now x)"
        using revoke_where_Inr(2) [OF rev, of "ss_id x"] x(2,3) by simp
      then have "revoked_session now x \<in> set (t_sessions d')" by (simp add: session_at_iff [OF \<open>db_ok d'\<close>])
      from sessions_table.row_ok [OF db_okD(13) [OF \<open>db_ok d'\<close>] this] x(4) show False
        by (simp add: session_ok_def revoked_session_def)
    qed
  qed
  with True show ?thesis by auto
qed

subsection \<open>Walking the listing\<close>

text \<open>
  The page the endpoint serves: \<^verbatim>\<open>crates/public-api/src/devices.rs\<close> hands out a cursor when the page is
  as long as its limit, so a walk may end with one empty page.
\<close>

definition active_devices :: "db \<Rightarrow> uuid \<Rightarrow> device_row list" where
  "active_devices d user =
     rev (sort_key device_key (filter (\<lambda>r. dv_user r = user \<and> dv_revoked_at r = None) (t_devices d)))"

lemma list_active_devices_rows:
  "list_active_devices d user after (int limit)
     = map listed_device_of (take limit (filter (\<lambda>r. behind after (device_key r)) (active_devices d user)))"
proof -
  have "filter (\<lambda>r. behind after (device_key r)) (active_devices d user)
      = rev (sort_key device_key (filter (\<lambda>r. dv_user r = user \<and> dv_revoked_at r = None
           \<and> (case after of None \<Rightarrow> True | Some a \<Rightarrow> device_key r < a)) (t_devices d)))"
    by (cases after) (simp_all add: active_devices_def rev_filter [symmetric] filter_sort conj_ac)
  then show ?thesis by (simp add: list_active_devices_def take_map nat_add_distrib)
qed

theorem revoked_device_is_shut_out_witness:
  "\<exists>ids d'. revoke_device identity_example 5 100 = Inr (ids, d') \<and> db_ok d'
     \<and> \<not> verify_device_secret d' 5 (example_digest 7)"
proof -
  have early: "\<not> (\<exists>x \<in> set (t_devices identity_example). dv_id x = 5 \<and> dv_revoked_at x = None \<and> 100 < dv_created_at x)"
    "\<not> (\<exists>x \<in> set (t_sessions identity_example). ss_device x = Some 5 \<and> ss_revoked_at x = None \<and> 100 < ss_issued_at x)"
    by code_simp+
  note shut = revoked_device_is_shut_out [OF identity_example_ok, of 5 100]
  show ?thesis
  proof (cases "revoke_device identity_example 5 100")
    case (Inl e)
    from shut show ?thesis unfolding Inl sum.case using early by blast
  next
    case (Inr x)
    obtain ids d' where x: "x = (ids, d')" by (cases x)
    note out = shut [unfolded Inr x sum.case prod.case]
    have "db_ok d'" by (rule conjunct1 [OF out])
    moreover have "\<not> verify_device_secret d' 5 (example_digest 7)"
      using conjunct1 [OF conjunct2 [OF out]] by blast
    ultimately show ?thesis using Inr x by blast
  qed
qed

end
