(* ===== verification/Refresh.thy ===== *)
theory Refresh
  imports Devices
begin

text \<open>
  \<^verbatim>\<open>crates/identity/src/refresh.rs\<close>: the chain of refresh credentials of a session. A link is
  spent once and names its successor; presenting a spent link burns the session. The functions answer a
  refusal as a value beside the database, because their caller decides what to commit.
\<close>

record refresh_token =
  tk_id :: uuid
  tk_session :: uuid
  tk_issued_at :: instant
  tk_expires_at :: instant
  tk_consumed_at :: "instant option"
  tk_replaced_by :: "uuid option"

definition link_row :: "uuid \<Rightarrow> uuid \<Rightarrow> digest \<Rightarrow> instant \<Rightarrow> instant \<Rightarrow> refresh_row" where
  "link_row k i token issued_at expires_at =
     \<lparr>rt_id = k, rt_session = i, rt_token_hash = token, rt_issued_at = issued_at, rt_expires_at = expires_at,
      rt_consumed_at = None, rt_replaced_by = None\<rparr>"

definition issue_refresh_token ::
  "db \<Rightarrow> uuid \<Rightarrow> uuid \<Rightarrow> digest \<Rightarrow> instant \<Rightarrow> instant \<Rightarrow> persistence_error + refresh_token \<times> db" where
  "issue_refresh_token d k i token issued_at expires_at =
     persist (bindE (sql_insert refresh_ok refresh_clash (link_row k i token issued_at expires_at) (t_refresh d)) (\<lambda>t.
       if session_exists d i
       then Inr (\<lparr>tk_id = k, tk_session = i, tk_issued_at = issued_at, tk_expires_at = expires_at,
                  tk_consumed_at = None, tk_replaced_by = None\<rparr>, d\<lparr>t_refresh := t\<rparr>)
       else Inl Foreign_key_violation))"

datatype refresh_failure = UnknownLink | ExpiredLink | ReplayedLink | SessionNotLive

text \<open>The presented link joined to the session it refreshes.\<close>

definition presented_link :: "db \<Rightarrow> digest \<Rightarrow> (refresh_row \<times> session_row) option" where
  "presented_link d presented =
     Option.bind (fetch_optional (\<lambda>r. rt_token_hash r = presented) (t_refresh d)) (\<lambda>r.
       map_option (Pair r) (session_at d (rt_session r)))"

text \<open>The pair of statements that spends a link: the successor is inserted, then the link names it.\<close>

definition spend_link ::
  "db \<Rightarrow> uuid \<Rightarrow> refresh_row \<Rightarrow> digest \<Rightarrow> instant \<Rightarrow> instant \<Rightarrow> persistence_error + refresh_token \<times> db" where
  "spend_link d k r replacement now expires_at =
     bindE (issue_refresh_token d k (rt_session r) replacement now expires_at) (\<lambda>(token, d1).
     bindE (persist (sql_update (\<lambda>_. refresh_ok) refresh_clash (\<lambda>x. rt_id x = rt_id r)
              (\<lambda>x. x\<lparr>rt_consumed_at := Some now, rt_replaced_by := Some k\<rparr>) (t_refresh d1))) (\<lambda>t.
     Inr (token, d1\<lparr>t_refresh := t\<rparr>)))"

definition rotate_refresh_token ::
  "db \<Rightarrow> uuid \<Rightarrow> digest \<Rightarrow> digest \<Rightarrow> instant \<Rightarrow> instant
     \<Rightarrow> persistence_error + (refresh_failure + refresh_token) \<times> db" where
  "rotate_refresh_token d k presented replacement now expires_at =
     (case presented_link d presented of
        None \<Rightarrow> Inr (Inl UnknownLink, d)
      | Some (r, s) \<Rightarrow>
          if rt_consumed_at r \<noteq> None then Inr (Inl ReplayedLink, d)
          else if rt_expires_at r \<le> now then Inr (Inl ExpiredLink, d)
          else if ss_revoked_at s \<noteq> None \<or> ss_expires_at s \<le> now then Inr (Inl SessionNotLive, d)
          else bindE (spend_link d k r replacement now expires_at) (\<lambda>(token, d1). Inr (Inr token, d1)))"

datatype rotation_failure =
    RotationUnknown | RotationExpired | RotationNotLive | RotationReplayed uuid uuid

definition burn_family :: "db \<Rightarrow> uuid \<Rightarrow> uuid \<Rightarrow> instant \<Rightarrow> persistence_error + db" where
  "burn_family d k i now =
     bindE (revoke_where d (\<lambda>r. ss_id r = i) now) (\<lambda>(_, d1).
     bindE (record_revocation d1 k SessionSubject i SuspectedCompromise None now) (\<lambda>(_, d2). Inr d2))"

text \<open>\<open>k\<close> is the identifier the function draws: of the successor, or of the revocation.\<close>

definition rotate_session ::
  "db \<Rightarrow> uuid \<Rightarrow> digest \<Rightarrow> digest \<Rightarrow> digest \<Rightarrow> instant \<Rightarrow> instant \<Rightarrow> instant
     \<Rightarrow> persistence_error + (rotation_failure + refresh_token) \<times> db" where
  "rotate_session d k presented replacement_refresh replacement_access now access_expires_at refresh_expires_at =
     (case presented_link d presented of
        None \<Rightarrow> Inr (Inl RotationUnknown, d)
      | Some (r, s) \<Rightarrow>
          if rt_consumed_at r \<noteq> None then
            bindE (burn_family d k (rt_session r) now) (\<lambda>d1.
              Inr (Inl (RotationReplayed (rt_session r) (ss_user s)), d1))
          else if rt_expires_at r \<le> now then Inr (Inl RotationExpired, d)
          else if ss_revoked_at s \<noteq> None \<or> ss_expires_at s \<le> now then Inr (Inl RotationNotLive, d)
          else bindE (spend_link d k r replacement_refresh now refresh_expires_at) (\<lambda>(token, d1).
            let p = (\<lambda>x. ss_id x = rt_session r \<and> ss_revoked_at x = None)
            in bindE (persist (sql_update (\<lambda>_. session_ok) session_clash p
                 (\<lambda>x. x\<lparr>ss_token_hash := Some replacement_access, ss_expires_at := access_expires_at,
                        ss_last_seen_at := Some now\<rparr>) (t_sessions d1))) (\<lambda>t.
               if rows_affected p (t_sessions d1) \<noteq> 1 then Inr (Inl RotationNotLive, d1\<lparr>t_sessions := t\<rparr>)
               else Inr (Inr token, d1\<lparr>t_sessions := t\<rparr>))))"

subsection \<open>Links\<close>

definition link_at :: "db \<Rightarrow> uuid \<Rightarrow> refresh_row option" where
  "link_at d i = fetch_optional (\<lambda>r. rt_id r = i) (t_refresh d)"

lemma link_at_iff: "db_ok d \<Longrightarrow> link_at d i = Some r \<longleftrightarrow> r \<in> set (t_refresh d) \<and> rt_id r = i"
  unfolding link_at_def by (rule refresh_table.fetch_key [OF db_okD(14)])

lemma link_row_simps [simp]:
  "rt_id (link_row k i token t e) = k" "rt_session (link_row k i token t e) = i"
  "rt_token_hash (link_row k i token t e) = token" "rt_consumed_at (link_row k i token t e) = None"
  "rt_replaced_by (link_row k i token t e) = None" "rt_expires_at (link_row k i token t e) = e"
  "rt_issued_at (link_row k i token t e) = t"
  by (simp_all add: link_row_def)

lemma issue_refresh_token_Inr:
  assumes "issue_refresh_token d k i token t e = Inr (x, d')"
  shows "d' = d\<lparr>t_refresh := t_refresh d @ [link_row k i token t e]\<rparr>" and "db_ok d \<Longrightarrow> db_ok d'"
    and "\<forall>y \<in> set (t_refresh d). rt_id y \<noteq> k \<and> rt_token_hash y \<noteq> token"
    and "tk_id x = k" and "session_exists d i"
proof -
  have u: "sql_insert refresh_ok refresh_clash (link_row k i token t e) (t_refresh d)
      = Inr (t_refresh d @ [link_row k i token t e])"
    and d': "d' = d\<lparr>t_refresh := t_refresh d @ [link_row k i token t e]\<rparr>"
    and x: "tk_id x = k" and s: "session_exists d i"
    using assms by (auto simp: issue_refresh_token_def sql_insert_Inr split: if_splits)
  show "d' = d\<lparr>t_refresh := t_refresh d @ [link_row k i token t e]\<rparr>" by (rule d')
  show "db_ok d \<Longrightarrow> db_ok d'"
    using refresh_table.insert_ok [OF u] d' by (auto dest: db_okD(14))
  show "\<forall>y \<in> set (t_refresh d). rt_id y \<noteq> k \<and> rt_token_hash y \<noteq> token"
    using u by (auto simp: sql_insert_Inr refresh_clash_def)
  show "tk_id x = k" by (rule x)
  show "session_exists d i" by (rule s)
qed

text \<open>A presented link is the one row with its digest, and its session is there.\<close>

lemma presented_link_Some:
  assumes "db_ok d"
  shows "presented_link d presented = Some (r, s) \<longleftrightarrow>
    r \<in> set (t_refresh d) \<and> rt_token_hash r = presented \<and> session_at d (rt_session r) = Some s"
proof -
  have "r = x" if "r \<in> set (t_refresh d)" "x \<in> set (t_refresh d)" "rt_token_hash r = rt_token_hash x" for x
    by (rule refresh_table.unclashing [OF db_okD(14) [OF assms] that(1,2)]) (simp add: refresh_clash_def that(3))
  then show ?thesis
    by (auto simp: presented_link_def bind_eq_Some_conv dest!: fetch_optional_SomeD)
      (metis (mono_tags, lifting) fetch_optional_None fetch_optional_SomeD not_None_eq)
qed

text \<open>After a link is spent, the table is the old one with the link marked, and the successor behind.\<close>

lemma spend_link_Inr:
  assumes "spend_link d k r replacement now e = Inr (token, d')" and "r \<in> set (t_refresh d)"
  shows "d' = d\<lparr>t_refresh := update_where (\<lambda>x. rt_id x = rt_id r)
             (\<lambda>x. x\<lparr>rt_consumed_at := Some now, rt_replaced_by := Some k\<rparr>) (t_refresh d)
             @ [link_row k (rt_session r) replacement now e]\<rparr>"
    and "db_ok d \<Longrightarrow> db_ok d'" and "tk_id token = k"
    and "\<forall>y \<in> set (t_refresh d). rt_id y \<noteq> k \<and> rt_token_hash y \<noteq> replacement"
proof -
  let ?f = "\<lambda>x. x\<lparr>rt_consumed_at := Some now, rt_replaced_by := Some k\<rparr>"
  from assms(1) obtain d1 t where i: "issue_refresh_token d k (rt_session r) replacement now e = Inr (token, d1)"
    and t: "sql_update (\<lambda>_. refresh_ok) refresh_clash (\<lambda>x. rt_id x = rt_id r) ?f (t_refresh d1) = Inr t"
    and d': "d' = d1\<lparr>t_refresh := t\<rparr>"
    by (auto simp: spend_link_def)
  note issued = issue_refresh_token_Inr [OF i]
  have "rt_id r \<noteq> k" using issued(3) assms(2) by blast
  then have t': "t = update_where (\<lambda>x. rt_id x = rt_id r) ?f (t_refresh d) @ [link_row k (rt_session r) replacement now e]"
    using t by (simp add: sql_update_Inr issued(1))
  show "d' = d\<lparr>t_refresh := update_where (\<lambda>x. rt_id x = rt_id r) ?f (t_refresh d)
      @ [link_row k (rt_session r) replacement now e]\<rparr>"
    by (simp add: d' t' issued(1))
  show "db_ok d \<Longrightarrow> db_ok d'"
    using refresh_table.update_ok [OF t db_okD(14) [OF issued(2)]] issued(2) d' by blast
  show "tk_id token = k" by (rule issued(4))
  show "\<forall>y \<in> set (t_refresh d). rt_id y \<noteq> k \<and> rt_token_hash y \<noteq> replacement" by (rule issued(3))
qed

subsection \<open>A session whose family is burned\<close>

lemma burn_family_Inr:
  assumes "burn_family d k i now = Inr d'"
  shows "db_ok d \<Longrightarrow> db_ok d'"
    and "session_at d' j = map_option (\<lambda>r. if ss_id r = i \<and> ss_revoked_at r = None then revoked_session now r else r)
           (session_at d j)"
    and "\<exists>v. rv_subject_kind v = ''session'' \<and> rv_subject v = i \<and> rv_reason v = ''suspected_compromise''
           \<and> t_revocations d' = t_revocations d @ [v]"
    and "t_refresh d' = t_refresh d"
proof -
  from assms obtain ids d1 n where r: "revoke_where d (\<lambda>r. ss_id r = i) now = Inr (ids, d1)"
    and v: "record_revocation d1 k SessionSubject i SuspectedCompromise None now = Inr (n, d')"
    by (auto simp: burn_family_def)
  obtain w where w: "rv_subject_kind w = ''session''" "rv_subject w = i" "rv_reason w = ''suspected_compromise''"
    and d': "d' = d1\<lparr>t_revocations := t_revocations d1 @ [w]\<rparr>"
    using record_revocation_Inr(1) [OF v] by auto
  obtain u where d1: "d1 = d\<lparr>t_sessions := u\<rparr>" using revoke_where_Inr(4) [OF r] by blast
  show "db_ok d \<Longrightarrow> db_ok d'" using revoke_where_Inr(1) [OF r] record_revocation_Inr(2) [OF v] by blast
  show "session_at d' j = map_option (\<lambda>r. if ss_id r = i \<and> ss_revoked_at r = None then revoked_session now r else r)
           (session_at d j)"
    using revoke_where_Inr(2) [OF r] by (simp add: d' session_at_def)
  show "\<exists>v. rv_subject_kind v = ''session'' \<and> rv_subject v = i \<and> rv_reason v = ''suspected_compromise''
           \<and> t_revocations d' = t_revocations d @ [v]"
    using w d' d1 by auto
  show "t_refresh d' = t_refresh d" by (simp add: d' d1)
qed

subsection \<open>Rotation\<close>

definition unspent :: "uuid \<Rightarrow> refresh_row \<Rightarrow> bool" where
  "unspent i r \<longleftrightarrow> rt_session r = i \<and> rt_consumed_at r = None"

lemma unspent_after_spend:
  "filter (unspent i) (update_where (\<lambda>x. rt_id x = j) (\<lambda>x. x\<lparr>rt_consumed_at := Some now, rt_replaced_by := Some k\<rparr>) t)
     = filter (\<lambda>x. unspent i x \<and> rt_id x \<noteq> j) t"
  by (induction t) (auto simp: unspent_def)

text \<open>What a rotation that answers a successor has checked and done.\<close>

lemma rotate_session_success:
  assumes "rotate_session d k presented rr ra now ae re = Inr (Inr token, d')"
  obtains r s d1 t where "presented_link d presented = Some (r, s)" and "rt_consumed_at r = None"
    and "now < rt_expires_at r" and "ss_revoked_at s = None" and "now < ss_expires_at s"
    and "spend_link d k r rr now re = Inr (token, d1)"
    and "sql_update (\<lambda>_. session_ok) session_clash (\<lambda>x. ss_id x = rt_session r \<and> ss_revoked_at x = None)
            (\<lambda>x. x\<lparr>ss_token_hash := Some ra, ss_expires_at := ae, ss_last_seen_at := Some now\<rparr>) (t_sessions d1) = Inr t"
    and "d' = d1\<lparr>t_sessions := t\<rparr>"
  using assms
  by (auto simp: rotate_session_def Let_def not_le split: option.splits prod.splits if_splits)

text \<open>
  C18: a rotation that succeeds was presented an unspent, unexpired link of a live session. The link is
  spent and names its successor, the unspent links of the session are the others and the successor, the
  session authenticates with the new access credential only, and no other session changes.
\<close>

theorem rotation_replaces_the_credentials:
  assumes "db_ok d" and "rotate_session d k presented rr ra now ae re = Inr (Inr token, d')"
  shows "\<exists>r s. presented_link d presented = Some (r, s) \<and> rt_consumed_at r = None \<and> now < rt_expires_at r
     \<and> is_live_at (session_from_row s) now
     \<and> db_ok d'
     \<and> link_at d' (rt_id r) = Some (r\<lparr>rt_consumed_at := Some now, rt_replaced_by := Some k\<rparr>)
     \<and> filter (unspent (rt_session r)) (t_refresh d')
         = filter (\<lambda>x. unspent (rt_session r) x \<and> rt_id x \<noteq> rt_id r) (t_refresh d) @ [link_row k (rt_session r) rr now re]
     \<and> session_at d' (rt_session r)
         = Some (s\<lparr>ss_token_hash := Some ra, ss_expires_at := ae, ss_last_seen_at := Some now\<rparr>)
     \<and> (\<forall>i. i \<noteq> rt_session r \<longrightarrow> session_at d' i = session_at d i)"
proof -
  let ?g = "\<lambda>x. x\<lparr>ss_token_hash := Some ra, ss_expires_at := ae, ss_last_seen_at := Some now\<rparr>"
  from rotate_session_success [OF assms(2)] obtain r s d1 t
    where link: "presented_link d presented = Some (r, s)" and c: "rt_consumed_at r = None" "now < rt_expires_at r"
      "ss_revoked_at s = None" "now < ss_expires_at s"
      and sp: "spend_link d k r rr now re = Inr (token, d1)"
      and u: "sql_update (\<lambda>_. session_ok) session_clash (\<lambda>x. ss_id x = rt_session r \<and> ss_revoked_at x = None) ?g
                (t_sessions d1) = Inr t" and d': "d' = d1\<lparr>t_sessions := t\<rparr>" .
  have r: "r \<in> set (t_refresh d)" "session_at d (rt_session r) = Some s"
    using link by (simp_all add: presented_link_Some [OF assms(1)])
  note spent = spend_link_Inr [OF sp r(1)]
  have ok: "db_ok d'"
    using sessions_table.update_ok [OF u db_okD(13) [OF spent(2) [OF assms(1)]]] spent(2) [OF assms(1)] d' by blast
  have sess: "session_at d' i = map_option (\<lambda>x. if ss_id x = rt_session r \<and> ss_revoked_at x = None then ?g x else x)
      (session_at d i)" for i
    using u spent(1) d' session_at_update [where f = ?g and d = d1 and p = "\<lambda>x. ss_id x = rt_session r \<and> ss_revoked_at x = None"]
    by (simp add: sql_update_Inr session_at_def)
  have s_id: "ss_id s = rt_session r" using r(2) by (simp add: session_at_iff [OF assms(1)])
  have other: "session_at d' i = session_at d i" if "i \<noteq> rt_session r" for i
  proof (cases "session_at d i")
    case (Some x)
    then have "ss_id x = i" by (rule session_at_id)
    with that Some show ?thesis by (simp add: sess)
  qed (simp add: sess)
  have "link_at d' (rt_id r) = Some (r\<lparr>rt_consumed_at := Some now, rt_replaced_by := Some k\<rparr>)"
    unfolding link_at_iff [OF ok] using r(1) by (auto simp: d' spent(1) set_update_where)
  then show ?thesis
    using link c ok s_id sess [of "rt_session r"] r(2) other
    by (auto simp: is_live_at_def d' spent(1) unspent_after_spend)
      (auto simp: unspent_def)
qed

text \<open>
  C19: presenting a spent link always burns the family it belongs to: the answer names the session and its
  owner, the session authenticates with no credential from then on, and a revocation for suspected compromise is
  recorded.
\<close>

theorem replay_burns_the_session:
  assumes "db_ok d" and "presented_link d presented = Some (r, s)" and "rt_consumed_at r \<noteq> None"
    and "ss_issued_at s \<le> now" and "\<forall>v \<in> set (t_revocations d). rv_id v \<noteq> k"
  shows "\<exists>d' v. rotate_session d k presented rr ra now ae re
       = Inr (Inl (RotationReplayed (rt_session r) (ss_user s)), d')
     \<and> db_ok d' \<and> t_refresh d' = t_refresh d
     \<and> (\<forall>token audience later x. authenticate d' token audience later = Some x \<longrightarrow> s_id x \<noteq> rt_session r)
     \<and> t_revocations d' = t_revocations d @ [v] \<and> rv_subject_kind v = ''session''
     \<and> rv_subject v = rt_session r \<and> rv_reason v = ''suspected_compromise''"
proof -
  have s: "session_at d (rt_session r) = Some s"
    using assms(2) by (simp add: presented_link_Some [OF assms(1)])
  have "ss_issued_at x \<le> now" if "x \<in> set (t_sessions d)" "ss_id x = rt_session r" for x
    using that s assms(4) session_at_iff [OF assms(1)] by (metis option.inject)
  then obtain ids d1 where rev: "revoke_where d (\<lambda>x. ss_id x = rt_session r) now = Inr (ids, d1)"
    using revoke_where_succeeds [OF assms(1), where p = "\<lambda>x. ss_id x = rt_session r" and t = now] by blast
  have "t_revocations d1 = t_revocations d" using revoke_where_Inr(4) [OF rev] by auto
  then obtain d' where "record_revocation d1 k SessionSubject (rt_session r) SuspectedCompromise None now = Inr (k, d')"
    using record_revocation_succeeds [where d = d1 and k = k and by_whom = None] assms(5) by (metis option.simps(4))
  with rev have burn: "burn_family d k (rt_session r) now = Inr d'" by (simp add: burn_family_def)
  have ok: "db_ok d'" by (rule burn_family_Inr(1) [OF burn assms(1)])
  obtain x where x: "session_at d' (rt_session r) = Some x" "ss_revoked_at x \<noteq> None"
    using burn_family_Inr(2) [OF burn, of "rt_session r"] s session_at_iff [OF assms(1)] by auto
  have "rotate_session d k presented rr ra now ae re = Inr (Inl (RotationReplayed (rt_session r) (ss_user s)), d')"
    using assms(2,3) burn by (simp add: rotate_session_def)
  then show ?thesis
    using ok burn_family_Inr(3,4) [OF burn] revoked_never_authenticates [OF ok x] by blast
qed

definition example_rotation :: "persistence_error + (rotation_failure + refresh_token) \<times> db" where
  "example_rotation =
     rotate_session identity_example 22 (example_digest 4) (example_digest 11) (example_digest 12) 100 1100 2100"

lemma example_rotation_succeeds: "\<exists>token d'. example_rotation = Inr (Inr token, d')"
proof -
  have "case example_rotation of Inr (Inr token, d') \<Rightarrow> True | _ \<Rightarrow> False" by code_simp
  then show ?thesis by (auto split: sum.splits prod.splits)
qed

lemma example_presented:
  "presented_link identity_example (example_digest 3) = Some (example_spent_link, example_device_session)"
  by code_simp

theorem rotation_replaces_the_credentials_witness:
  "\<exists>token d'. example_rotation = Inr (Inr token, d') \<and> db_ok d'
     \<and> (\<exists>r s. presented_link identity_example (example_digest 4) = Some (r, s))"
proof -
  obtain token d' where e: "example_rotation = Inr (Inr token, d')" using example_rotation_succeeds by blast
  from rotation_replaces_the_credentials [OF identity_example_ok e [unfolded example_rotation_def]] e
  show ?thesis by blast
qed

theorem replay_burns_the_session_witness:
  "\<exists>d'. rotate_session identity_example 80 (example_digest 3) (example_digest 11) (example_digest 12) 100 1100 2100
     = Inr (Inl (RotationReplayed 10 1), d')"
proof -
  have "rt_consumed_at example_spent_link \<noteq> None" "ss_issued_at example_device_session \<le> 100"
    "\<forall>v \<in> set (t_revocations identity_example). rv_id v \<noteq> 80"
    "rt_session example_spent_link = 10" "ss_user example_device_session = 1"
    by code_simp+
  then show ?thesis
    using replay_burns_the_session [OF identity_example_ok example_presented, of 100 80 "example_digest 11" "example_digest 12" 1100 2100]
    by auto
qed

end
