(* ===== verification/Pairing.thy ===== *)
theory Pairing
  imports Refresh
begin

text \<open>
  \<^verbatim>\<open>crates/identity/src/pairing.rs\<close>: the single-use code with which a live session lets one device
  register. Every refusal is the one value \<open>PairRefused\<close>. The identifiers a function draws and the digests
  its caller mints are arguments.
\<close>

datatype pair_refused = PairRefused

record pairing_code =
  pg_id :: uuid
  pg_user :: uuid
  pg_created_by :: uuid
  pg_expected_kind :: "device_kind option"
  pg_site :: "string option"
  pg_label :: "string option"
  pg_created_at :: instant
  pg_expires_at :: instant
  pg_superseded_at :: "instant option"
  pg_consumed_at :: "instant option"
  pg_consumed_by :: "uuid option"

record new_pairing_code =
  np_user :: uuid
  np_created_by :: uuid
  np_expected_kind :: "device_kind option"
  np_site :: "string option"
  np_label :: "string option"
  np_code :: digest
  np_now :: instant
  np_expires_at :: instant

definition code_row :: "uuid \<Rightarrow> new_pairing_code \<Rightarrow> pairing_row" where
  "code_row k n =
     \<lparr>pc_id = k, pc_user = np_user n, pc_created_by = np_created_by n, pc_code_hash = np_code n,
      pc_expected_kind = map_option device_kind_str (np_expected_kind n), pc_label = np_label n,
      pc_created_at = np_now n, pc_expires_at = np_expires_at n, pc_failed_attempts = 0,
      pc_superseded_at = None, pc_consumed_at = None, pc_consumed_by = None, pc_site = np_site n\<rparr>"

definition decode_code :: "pairing_row \<Rightarrow> pairing_code" where
  "decode_code r =
     \<lparr>pg_id = pc_id r, pg_user = pc_user r, pg_created_by = pc_created_by r,
      pg_expected_kind = Option.bind (pc_expected_kind r) device_kind_from_str, pg_site = pc_site r,
      pg_label = pc_label r, pg_created_at = pc_created_at r, pg_expires_at = pc_expires_at r,
      pg_superseded_at = pc_superseded_at r, pg_consumed_at = pc_consumed_at r, pg_consumed_by = pc_consumed_by r\<rparr>"

definition create_code :: "db \<Rightarrow> uuid \<Rightarrow> new_pairing_code \<Rightarrow> persistence_error + pairing_code \<times> db" where
  "create_code d k n =
     persist (bindE (sql_update (\<lambda>_. pairing_ok) pairing_clash (\<lambda>r. pc_user r = np_user n \<and> pairing_pending r)
              (\<lambda>r. r\<lparr>pc_superseded_at := Some (np_now n)\<rparr>) (t_pairing d)) (\<lambda>t.
       bindE (sql_insert pairing_ok pairing_clash (code_row k n) t) (\<lambda>u.
       if user_exists d (np_user n) \<and> session_exists d (np_created_by n)
       then Inr (\<lparr>pg_id = k, pg_user = np_user n, pg_created_by = np_created_by n,
                  pg_expected_kind = np_expected_kind n, pg_site = np_site n, pg_label = np_label n,
                  pg_created_at = np_now n, pg_expires_at = np_expires_at n, pg_superseded_at = None,
                  pg_consumed_at = None, pg_consumed_by = None\<rparr>, d\<lparr>t_pairing := u\<rparr>)
       else Inl Foreign_key_violation)))"

text \<open>The most recent row with the digest, whatever its state.\<close>

definition find_code :: "db \<Rightarrow> digest \<Rightarrow> pairing_code option" where
  "find_code d presented =
     map_option decode_code (fetch_optional (\<lambda>_. True)
       (rev (sort_key pc_created_at (filter (\<lambda>r. pc_code_hash r = presented) (t_pairing d)))))"

record pair_request =
  pr_presented :: digest
  pr_declared_kind :: device_kind
  pr_display_name :: "string option"
  pr_device_secret :: digest
  pr_access_token :: digest
  pr_refresh_token :: digest
  pr_audience :: string
  pr_now :: instant
  pr_access_expires_at :: instant
  pr_refresh_expires_at :: instant

record redeemed_pairing =
  rp_user :: uuid
  rp_device :: device
  rp_session :: session
  rp_refresh :: refresh_token

text \<open>Whether the code refuses the kind, and the database after the attempt is counted.\<close>

definition kind_refused :: "db \<Rightarrow> pairing_row \<Rightarrow> device_kind \<Rightarrow> persistence_error + bool \<times> db" where
  "kind_refused d r declared =
     (case pc_expected_kind r of
        Some pinned \<Rightarrow>
          if device_kind_from_str pinned \<noteq> Some declared then
            bindE (persist (sql_update (\<lambda>_. pairing_ok) pairing_clash
                     (\<lambda>x. pc_id x = pc_id r \<and> pc_failed_attempts x < 5)
                     (\<lambda>x. x\<lparr>pc_failed_attempts := pc_failed_attempts x + 1\<rparr>) (t_pairing d)))
              (\<lambda>t. Inr (True, d\<lparr>t_pairing := t\<rparr>))
          else Inr (False, d)
      | None \<Rightarrow> Inr (declared = SiteDeployer, d))"

definition acceptable :: "digest \<Rightarrow> instant \<Rightarrow> pairing_row \<Rightarrow> bool" where
  "acceptable presented now r \<longleftrightarrow> pc_code_hash r = presented \<and> pc_consumed_at r = None \<and> pc_superseded_at r = None
     \<and> now < pc_expires_at r \<and> pc_failed_attempts r < 5"

definition device_session :: "uuid \<Rightarrow> uuid \<Rightarrow> pair_request \<Rightarrow> new_session" where
  "device_session user device q =
     \<lparr>ns_user = user, ns_kind = DeviceKindSession, ns_device = Some device, ns_audience = pr_audience q,
      ns_token = Some (pr_access_token q), ns_issued_at = pr_now q, ns_expires_at = pr_access_expires_at q\<rparr>"

definition redeem_pairing ::
  "db \<Rightarrow> uuid \<times> uuid \<times> uuid \<Rightarrow> pair_request \<Rightarrow> persistence_error + (pair_refused + redeemed_pairing) \<times> db" where
  "redeem_pairing d = (\<lambda>(device_id, session_id, refresh_id) q.
     case fetch_optional (acceptable (pr_presented q) (pr_now q)) (t_pairing d) of
       None \<Rightarrow> Inr (Inl PairRefused, d)
     | Some r \<Rightarrow>
         bindE (kind_refused d r (pr_declared_kind q)) (\<lambda>(refused, d1).
         if refused then Inr (Inl PairRefused, d1)
         else bindE (register_site_device d1 device_id
                \<lparr>nd_user = pc_user r, nd_kind = pr_declared_kind q, nd_display_name = pr_display_name q,
                 nd_site = pc_site r\<rparr> (pr_device_secret q) (pr_now q)) (\<lambda>(device, d2).
         let p = (\<lambda>x. pc_id x = pc_id r \<and> pc_consumed_at x = None \<and> pc_superseded_at x = None)
         in bindE (persist (sql_update (\<lambda>_. pairing_ok) pairing_clash p
                (\<lambda>x. x\<lparr>pc_consumed_at := Some (pr_now q), pc_consumed_by := Some (d_id device)\<rparr>) (t_pairing d2))) (\<lambda>t.
         let d3 = d2\<lparr>t_pairing := t\<rparr>
         in if rows_affected p (t_pairing d2) \<noteq> 1 then Inr (Inl PairRefused, d3)
         else bindE (create_session d3 session_id (device_session (pc_user r) (d_id device) q)) (\<lambda>(s, d4).
         bindE (issue_refresh_token d4 refresh_id (s_id s) (pr_refresh_token q) (pr_now q) (pr_refresh_expires_at q))
           (\<lambda>(token, d5).
         Inr (Inr \<lparr>rp_user = pc_user r, rp_device = device, rp_session = s, rp_refresh = token\<rparr>, d5)))))))"

subsection \<open>At most one pending code\<close>

lemma code_row_simps [simp]:
  "pc_id (code_row k n) = k" "pc_user (code_row k n) = np_user n" "pc_code_hash (code_row k n) = np_code n"
  "pairing_pending (code_row k n)" "pc_failed_attempts (code_row k n) = 0" "pc_expires_at (code_row k n) = np_expires_at n"
  by (simp_all add: code_row_def pairing_pending_def)

lemma create_code_Inr:
  assumes "create_code d k n = Inr (c, d')"
  shows "d' = d\<lparr>t_pairing := update_where (\<lambda>r. pc_user r = np_user n \<and> pairing_pending r)
           (\<lambda>r. r\<lparr>pc_superseded_at := Some (np_now n)\<rparr>) (t_pairing d) @ [code_row k n]\<rparr>"
    and "db_ok d \<Longrightarrow> db_ok d'"
proof -
  from assms obtain t u where t: "sql_update (\<lambda>_. pairing_ok) pairing_clash (\<lambda>r. pc_user r = np_user n \<and> pairing_pending r)
      (\<lambda>r. r\<lparr>pc_superseded_at := Some (np_now n)\<rparr>) (t_pairing d) = Inr t"
    and u: "sql_insert pairing_ok pairing_clash (code_row k n) t = Inr u" and d': "d' = d\<lparr>t_pairing := u\<rparr>"
    by (auto simp: create_code_def split: if_splits)
  show "d' = d\<lparr>t_pairing := update_where (\<lambda>r. pc_user r = np_user n \<and> pairing_pending r)
           (\<lambda>r. r\<lparr>pc_superseded_at := Some (np_now n)\<rparr>) (t_pairing d) @ [code_row k n]\<rparr>"
    using t u d' by (simp add: sql_update_Inr sql_insert_Inr)
  show "db_ok d'" if "db_ok d"
    using pairing_table.insert_ok [OF u pairing_table.update_ok [OF t db_okD(18) [OF that]]] that d' by blast
qed

lemma superseded_not_pending [simp]: "\<not> pairing_pending (r\<lparr>pc_superseded_at := Some t\<rparr>)"
  by (simp add: pairing_pending_def)

lemma acceptable_pending: "acceptable presented now r \<Longrightarrow> pairing_pending r \<and> pc_code_hash r = presented"
  by (simp add: acceptable_def pairing_pending_def)

text \<open>
  Minting a code leaves its owner exactly one pending code, the new one, and ends every earlier one:
  a presentation of any other code of that owner is refused and changes nothing.
\<close>

lemma minting_supersedes_the_earlier_codes:
  assumes "db_ok d" and "create_code d k n = Inr (c, d')"
  shows "filter (\<lambda>r. pc_user r = np_user n \<and> pairing_pending r) (t_pairing d') = [code_row k n]
     \<and> (\<forall>ids q. pr_presented q \<noteq> np_code n \<longrightarrow>
          (\<forall>x \<in> set (t_pairing d). pc_code_hash x = pr_presented q \<longrightarrow> pc_user x = np_user n) \<longrightarrow>
          redeem_pairing d' ids q = Inr (Inl PairRefused, d'))
     \<and> (\<forall>r \<in> set (t_pairing d). pc_user r \<noteq> np_user n \<longrightarrow> r \<in> set (t_pairing d'))"
proof -
  let ?p = "\<lambda>r. pc_user r = np_user n \<and> pairing_pending r"
  let ?f = "\<lambda>r. r\<lparr>pc_superseded_at := Some (np_now n)\<rparr>"
  have t: "t_pairing d' = update_where ?p ?f (t_pairing d) @ [code_row k n]"
    using create_code_Inr(1) [OF assms(2)] by simp
  have one: "filter ?p (update_where ?p ?f t) = []" for t
    by (induction t) auto
  have refused: "redeem_pairing d' ids q = Inr (Inl PairRefused, d')"
    if "pr_presented q \<noteq> np_code n" "\<forall>x \<in> set (t_pairing d). pc_code_hash x = pr_presented q \<longrightarrow> pc_user x = np_user n"
    for ids q
  proof -
    have "\<not> acceptable (pr_presented q) (pr_now q) x" if "x \<in> set (t_pairing d')" for x
      using that \<open>pr_presented q \<noteq> np_code n\<close>
        \<open>\<forall>x \<in> set (t_pairing d). pc_code_hash x = pr_presented q \<longrightarrow> pc_user x = np_user n\<close>
      by (auto simp: t set_update_where dest!: acceptable_pending)
    then have "fetch_optional (acceptable (pr_presented q) (pr_now q)) (t_pairing d') = None"
      by (simp add: fetch_optional_None)
    then show ?thesis by (cases ids) (simp add: redeem_pairing_def)
  qed
  have "filter ?p (t_pairing d') = [code_row k n]" by (simp add: t one)
  moreover have "r \<in> set (t_pairing d')" if "r \<in> set (t_pairing d)" "pc_user r \<noteq> np_user n" for r
    using that by (auto simp: t set_update_where)
  ultimately show ?thesis using refused by blast
qed

subsection \<open>A code grants one device\<close>

text \<open>What an exchange that grants a device has checked and done, statement by statement.\<close>

lemma redeem_pairing_success:
  assumes "redeem_pairing d (kd, ks, kr) q = Inr (Inr g, d')"
  obtains r d2 t d4 where "fetch_optional (acceptable (pr_presented q) (pr_now q)) (t_pairing d) = Some r"
    and "kind_refused d r (pr_declared_kind q) = Inr (False, d)"
    and "register_site_device d kd \<lparr>nd_user = pc_user r, nd_kind = pr_declared_kind q,
           nd_display_name = pr_display_name q, nd_site = pc_site r\<rparr> (pr_device_secret q) (pr_now q) = Inr (rp_device g, d2)"
    and "sql_update (\<lambda>_. pairing_ok) pairing_clash
           (\<lambda>x. pc_id x = pc_id r \<and> pc_consumed_at x = None \<and> pc_superseded_at x = None)
           (\<lambda>x. x\<lparr>pc_consumed_at := Some (pr_now q), pc_consumed_by := Some (d_id (rp_device g))\<rparr>) (t_pairing d2) = Inr t"
    and "create_session (d2\<lparr>t_pairing := t\<rparr>) ks (device_session (pc_user r) (d_id (rp_device g)) q) = Inr (rp_session g, d4)"
    and "issue_refresh_token d4 kr (s_id (rp_session g)) (pr_refresh_token q) (pr_now q) (pr_refresh_expires_at q)
           = Inr (rp_refresh g, d')"
    and "rp_user g = pc_user r"
proof -
  from assms obtain r x d1 where r: "fetch_optional (acceptable (pr_presented q) (pr_now q)) (t_pairing d) = Some r"
    and k: "kind_refused d r (pr_declared_kind q) = Inr (x, d1)" "\<not> x"
    by (auto simp: redeem_pairing_def split: option.splits if_splits)
  then have "kind_refused d r (pr_declared_kind q) = Inr (False, d)"
    by (auto simp: kind_refused_def split: option.splits if_splits)
  with r assms show ?thesis
    by (auto simp: redeem_pairing_def Let_def split: if_splits intro!: that)
qed

text \<open>
  C25: an exchange that succeeds was presented a pending, unexpired code with attempts left whose pinned kind
  is the declared one. It registers one device for the owner of the code with the code's site, opens its
  session and its first refresh link, and consumes the code: every later presentation is refused and
  changes nothing.
\<close>

theorem pairing_code_grants_one_device:
  assumes "db_ok d" and "redeem_pairing d (kd, ks, kr) q = Inr (Inr g, d')"
  shows "\<exists>r \<in> set (t_pairing d). acceptable (pr_presented q) (pr_now q) r
     \<and> (case pc_expected_kind r of Some k \<Rightarrow> k = device_kind_str (pr_declared_kind q)
                                 | None \<Rightarrow> pr_declared_kind q \<noteq> SiteDeployer)
     \<and> db_ok d'
     \<and> t_devices d' = t_devices d @ [device_row_of kd \<lparr>nd_user = pc_user r, nd_kind = pr_declared_kind q,
           nd_display_name = pr_display_name q, nd_site = pc_site r\<rparr> (pr_device_secret q) (pr_now q)]
     \<and> t_sessions d' = t_sessions d @ [session_row_of ks (device_session (pc_user r) kd q)]
     \<and> t_refresh d' = t_refresh d @ [link_row kr ks (pr_refresh_token q) (pr_now q) (pr_refresh_expires_at q)]
     \<and> r\<lparr>pc_consumed_at := Some (pr_now q), pc_consumed_by := Some kd\<rparr> \<in> set (t_pairing d')
     \<and> (\<forall>ids later. pr_presented later = pr_presented q \<longrightarrow>
          redeem_pairing d' ids later = Inr (Inl PairRefused, d'))"
proof -
  let ?n = "\<lambda>r. \<lparr>nd_user = pc_user r, nd_kind = pr_declared_kind q,
           nd_display_name = pr_display_name q, nd_site = pc_site r\<rparr>"
  from redeem_pairing_success [OF assms(2)] obtain r d2 t d4
    where r: "fetch_optional (acceptable (pr_presented q) (pr_now q)) (t_pairing d) = Some r"
      and kind: "kind_refused d r (pr_declared_kind q) = Inr (False, d)"
      and dev: "register_site_device d kd (?n r) (pr_device_secret q) (pr_now q) = Inr (rp_device g, d2)"
      and t: "sql_update (\<lambda>_. pairing_ok) pairing_clash
           (\<lambda>x. pc_id x = pc_id r \<and> pc_consumed_at x = None \<and> pc_superseded_at x = None)
           (\<lambda>x. x\<lparr>pc_consumed_at := Some (pr_now q), pc_consumed_by := Some (d_id (rp_device g))\<rparr>) (t_pairing d2) = Inr t"
      and s: "create_session (d2\<lparr>t_pairing := t\<rparr>) ks (device_session (pc_user r) (d_id (rp_device g)) q) = Inr (rp_session g, d4)"
      and l: "issue_refresh_token d4 kr (s_id (rp_session g)) (pr_refresh_token q) (pr_now q) (pr_refresh_expires_at q)
           = Inr (rp_refresh g, d')" .
  note acc = fetch_optional_SomeD [OF r]
  note dev' = register_site_device_Inr [OF dev]
  note s' = create_session_Inr [OF s]
  note l' = issue_refresh_token_Inr [OF l]
  have sid: "s_id (rp_session g) = ks" using s'(3) by (simp add: session_row_of_def)
  have pairing: "t_pairing d' = update_where
      (\<lambda>x. pc_id x = pc_id r \<and> pc_consumed_at x = None \<and> pc_superseded_at x = None)
      (\<lambda>x. x\<lparr>pc_consumed_at := Some (pr_now q), pc_consumed_by := Some kd\<rparr>) (t_pairing d)"
    using t by (simp add: l'(1) s'(2) sql_update_Inr dev'(1,3))
  have "db_ok (d2\<lparr>t_pairing := t\<rparr>)"
    using pairing_table.update_ok [OF t db_okD(18) [OF dev'(2) [OF assms(1)]]] dev'(2) [OF assms(1)] by blast
  then have ok: "db_ok d'" using s'(1) l'(2) by blast
  have code: "r\<lparr>pc_consumed_at := Some (pr_now q), pc_consumed_by := Some kd\<rparr> \<in> set (t_pairing d')"
    using acc by (auto simp: pairing set_update_where acceptable_def)
  have spent: "\<not> acceptable (pr_presented q) now x" if "x \<in> set (t_pairing d')" for x now
  proof
    assume "acceptable (pr_presented q) now x"
    then have x: "pairing_pending x" "pc_code_hash x = pr_presented q" by (simp_all add: acceptable_pending)
    then have "x \<in> set (t_pairing d)" "pc_id x \<noteq> pc_id r"
      using that by (auto simp: pairing set_update_where pairing_pending_def)
    moreover have "pairing_clash x r" using acceptable_pending acc x by (auto simp: pairing_clash_def)
    ultimately show False
      using pairing_table.unclashing [OF db_okD(18) [OF assms(1)]] acc by blast
  qed
  have "redeem_pairing d' ids later = Inr (Inl PairRefused, d')" if "pr_presented later = pr_presented q" for ids later
  proof -
    have "fetch_optional (acceptable (pr_presented later) (pr_now later)) (t_pairing d') = None"
      using spent that by (simp add: fetch_optional_None)
    then show ?thesis by (cases ids) (simp add: redeem_pairing_def)
  qed
  moreover have "case pc_expected_kind r of Some k \<Rightarrow> k = device_kind_str (pr_declared_kind q)
      | None \<Rightarrow> pr_declared_kind q \<noteq> SiteDeployer"
    using kind by (auto simp: kind_refused_def device_kind_from_str_def split: option.splits if_splits)
  moreover have "t_devices d' = t_devices d @ [device_row_of kd (?n r) (pr_device_secret q) (pr_now q)]"
    "t_sessions d' = t_sessions d @ [session_row_of ks (device_session (pc_user r) kd q)]"
    "t_refresh d' = t_refresh d @ [link_row kr ks (pr_refresh_token q) (pr_now q) (pr_refresh_expires_at q)]"
    by (simp_all add: l'(1) s'(2) dev'(1,3) sid)
  ultimately show ?thesis using acc ok code by blast
qed

text \<open>
  A presentation with a kind the code does not pin is refused and counted on the code, which stays
  otherwise as it is; the fifth one exhausts the code, so that even the pinned kind is refused then.
\<close>

lemma mismatches_exhaust_a_code:
  assumes "db_ok d" and "fetch_optional (acceptable (pr_presented q) (pr_now q)) (t_pairing d) = Some r"
    and "pc_expected_kind r = Some (device_kind_str pinned)" and "pinned \<noteq> pr_declared_kind q"
  shows "\<exists>d'. redeem_pairing d ids q = Inr (Inl PairRefused, d') \<and> db_ok d'
     \<and> d' = d\<lparr>t_pairing := update_where (\<lambda>x. x = r) (\<lambda>x. x\<lparr>pc_failed_attempts := pc_failed_attempts r + 1\<rparr>) (t_pairing d)\<rparr>
     \<and> (pc_failed_attempts r = 4 \<longrightarrow> (\<forall>ids later. pr_presented later = pr_presented q \<longrightarrow>
          redeem_pairing d' ids later = Inr (Inl PairRefused, d')))"
proof -
  let ?p = "\<lambda>x. pc_id x = pc_id r \<and> pc_failed_attempts x < 5"
  let ?f = "\<lambda>x. x\<lparr>pc_failed_attempts := pc_failed_attempts x + 1\<rparr>"
  let ?t = "update_where ?p ?f (t_pairing d)"
  note acc = fetch_optional_SomeD [OF assms(2)]
  have same: "?p x \<longleftrightarrow> x = r" if "x \<in> set (t_pairing d)" for x
    using pairing_table.same_key [OF db_okD(18) [OF assms(1)] that] acc by (auto simp: acceptable_def)
  have u: "sql_update (\<lambda>_. pairing_ok) pairing_clash ?p ?f (t_pairing d) = Inr ?t"
  proof (rule pairing_table.update_succeeds [OF db_okD(18) [OF assms(1)]])
    show "pairing_ok (?f x)" if "x \<in> set (t_pairing d)" "?p x" for x
      using pairing_table.row_ok [OF db_okD(18) [OF assms(1)] that(1)] that(2) by (auto simp: pairing_ok_def)
  qed (simp add: pairing_clash_def pairing_pending_def)
  have eq: "?t = update_where (\<lambda>x. x = r) (\<lambda>x. x\<lparr>pc_failed_attempts := pc_failed_attempts r + 1\<rparr>) (t_pairing d)"
    unfolding update_where_def by (rule map_cong [OF refl]) (use same in auto)
  let ?d = "d\<lparr>t_pairing := ?t\<rparr>"
  have ok: "db_ok ?d"
    using pairing_table.update_ok [OF u db_okD(18) [OF assms(1)]] assms(1) by blast
  have res: "redeem_pairing d ids q = Inr (Inl PairRefused, ?d)"
    using assms(2-4) u by (cases ids) (simp add: redeem_pairing_def kind_refused_def)
  have "redeem_pairing ?d ids' later = Inr (Inl PairRefused, ?d)"
    if "pc_failed_attempts r = 4" "pr_presented later = pr_presented q" for ids' later
  proof -
    have "\<not> acceptable (pr_presented q) now x" if "x \<in> set ?t" for x now
    proof
      assume a: "acceptable (pr_presented q) now x"
      have "x \<noteq> ?f r" using a that(1) \<open>pc_failed_attempts r = 4\<close> by (auto simp: acceptable_def)
      moreover have "(x \<in> set (t_pairing d) \<and> \<not> ?p x) \<or> (\<exists>y \<in> set (t_pairing d). ?p y \<and> x = ?f y)"
        using that by (simp add: set_update_where) blast
      moreover have "?p r" using acc by (simp add: acceptable_def)
      ultimately have x: "x \<in> set (t_pairing d)" "x \<noteq> r" using same by metis+
      have "pairing_clash x r" using acceptable_pending [OF a] acceptable_pending acc by (auto simp: pairing_clash_def)
      then show False using pairing_table.unclashing [OF db_okD(18) [OF assms(1)] x(1)] acc x(2) by blast
    qed
    then have "fetch_optional (acceptable (pr_presented later) (pr_now later)) (t_pairing ?d) = None"
      using that(2) by (simp add: fetch_optional_None)
    then show ?thesis by (cases ids') (simp add: redeem_pairing_def)
  qed
  then show ?thesis using res ok unfolding eq by blast
qed

definition example_request :: "device_kind \<Rightarrow> pair_request" where
  "example_request k =
     \<lparr>pr_presented = example_digest 5, pr_declared_kind = k, pr_display_name = Some ''phone'',
      pr_device_secret = example_digest 13, pr_access_token = example_digest 14, pr_refresh_token = example_digest 15,
      pr_audience = ''edge'', pr_now = 100, pr_access_expires_at = 1100, pr_refresh_expires_at = 2100\<rparr>"

definition example_new_code :: new_pairing_code where
  "example_new_code =
     \<lparr>np_user = 1, np_created_by = 11, np_expected_kind = None, np_site = None, np_label = None,
      np_code = example_digest 16, np_now = 100, np_expires_at = 700\<rparr>"

lemma minting_supersedes_the_earlier_codes_witness:
  "\<exists>c d'. create_code identity_example 31 example_new_code = Inr (c, d')
     \<and> redeem_pairing d' (6, 13, 23) (example_request Mobile) = Inr (Inl PairRefused, d')"
proof -
  have "case create_code identity_example 31 example_new_code of Inr _ \<Rightarrow> True | Inl _ \<Rightarrow> False" by code_simp
  then obtain c d' where e: "create_code identity_example 31 example_new_code = Inr (c, d')"
    by (auto split: sum.splits)
  have "pr_presented (example_request Mobile) \<noteq> np_code example_new_code"
    "\<forall>x \<in> set (t_pairing identity_example). pc_code_hash x = pr_presented (example_request Mobile)
       \<longrightarrow> pc_user x = np_user example_new_code"
    by code_simp+
  with minting_supersedes_the_earlier_codes [OF identity_example_ok e] e show ?thesis by blast
qed

theorem pairing_code_grants_one_device_witness:
  "\<exists>g d'. redeem_pairing identity_example (6, 13, 23) (example_request Mobile) = Inr (Inr g, d')
     \<and> redeem_pairing d' (6, 13, 23) (example_request Mobile) = Inr (Inl PairRefused, d')"
proof -
  have "case redeem_pairing identity_example (6, 13, 23) (example_request Mobile) of Inr (Inr _, _) \<Rightarrow> True | _ \<Rightarrow> False"
    by code_simp
  then obtain g d' where e: "redeem_pairing identity_example (6, 13, 23) (example_request Mobile) = Inr (Inr g, d')"
    by (auto split: sum.splits prod.splits)
  from pairing_code_grants_one_device [OF identity_example_ok e] e show ?thesis by blast
qed

end
