(* ===== verification/Site_Sign_In.thy ===== *)
theory Site_Sign_In
  imports Refresh
begin

text \<open>
  \<^verbatim>\<open>crates/identity/src/site_sign_in.rs\<close>: the short-lived code with a PKCE challenge that the owner's
  primary session approves and a site redeems. \<open>sha256\<close> and \<open>base64url\<close> are the digest and the encoding the
  crate calls; the code and its digest are minted by the caller of the model.
\<close>

definition code_ttl :: int where
  "code_ttl = seconds 60"

definition owner_grant :: string where
  "owner_grant = ''platform.owner''"

record new_sign_in =
  nsi_user :: uuid
  nsi_created_by :: uuid
  nsi_site :: string
  nsi_challenge :: string
  nsi_return_path :: string
  nsi_hostname :: string
  nsi_now :: instant

definition sign_in_row_of :: "uuid \<Rightarrow> digest \<Rightarrow> new_sign_in \<Rightarrow> sign_in_row" where
  "sign_in_row_of k code n =
     \<lparr>sg_id = k, sg_code_hash = code, sg_user = nsi_user n, sg_created_by = nsi_created_by n, sg_site = nsi_site n,
      sg_challenge = nsi_challenge n, sg_return_path = nsi_return_path n, sg_hostname = nsi_hostname n,
      sg_created_at = nsi_now n, sg_expires_at = nsi_now n + code_ttl, sg_consumed_at = None\<rparr>"

datatype issue_refused = IssueRefused

definition primary_session :: "db \<Rightarrow> uuid \<Rightarrow> uuid \<Rightarrow> instant \<Rightarrow> bool" where
  "primary_session d i user now =
     (case fetch_optional (\<lambda>r. ss_id r = i \<and> ss_user r = user \<and> ss_revoked_at r = None \<and> now < ss_expires_at r)
             (t_sessions d) of
        Some r \<Rightarrow> ss_device r = None \<and> ss_kind r = ''browser''
      | None \<Rightarrow> False)"

definition issue_sign_in ::
  "db \<Rightarrow> uuid \<Rightarrow> string \<times> digest \<Rightarrow> new_sign_in \<Rightarrow> persistence_error + (issue_refused + string) \<times> db" where
  "issue_sign_in d k = (\<lambda>(code, code_digest) n.
     if \<not> primary_session d (nsi_created_by n) (nsi_user n) (nsi_now n) then Inr (Inl IssueRefused, d)
     else persist (bindE (sql_insert sign_in_ok sign_in_clash (sign_in_row_of k code_digest n) (t_sign_in d)) (\<lambda>t.
       if user_exists d (nsi_user n) \<and> session_exists d (nsi_created_by n) then Inr (Inr code, d\<lparr>t_sign_in := t\<rparr>)
       else Inl Foreign_key_violation)))"

record sign_in_redeem =
  sr_site :: string
  sr_code :: string
  sr_verifier :: string
  sr_now :: instant

record redeemed_sign_in =
  rs_user :: uuid
  rs_site :: string
  rs_return_path :: string
  rs_hostname :: string

datatype unauthenticated = Unauthenticated

definition challenge_of :: "(string \<Rightarrow> digest) \<Rightarrow> (digest \<Rightarrow> string) \<Rightarrow> string \<Rightarrow> string" where
  "challenge_of sha256 base64url verifier = base64url (sha256 verifier)"

definition redeemable :: "digest \<Rightarrow> instant \<Rightarrow> sign_in_row \<Rightarrow> bool" where
  "redeemable code now r \<longleftrightarrow> sg_code_hash r = code \<and> sg_consumed_at r = None \<and> now < sg_expires_at r"

text \<open>The session that approved the code is live, and the owner still holds the grant.\<close>

definition still_approved :: "db \<Rightarrow> sign_in_row \<Rightarrow> instant \<Rightarrow> bool" where
  "still_approved d r now \<longleftrightarrow>
     row_exists (\<lambda>s. ss_id s = sg_created_by r \<and> ss_revoked_at s = None \<and> now < ss_expires_at s) (t_sessions d)
     \<and> row_exists (live_grant (sg_user r) owner_grant now) (t_grants d)"

definition redeem_sign_in ::
  "(string \<Rightarrow> digest) \<Rightarrow> (digest \<Rightarrow> string) \<Rightarrow> db \<Rightarrow> sign_in_redeem
     \<Rightarrow> persistence_error + (unauthenticated + redeemed_sign_in) \<times> db" where
  "redeem_sign_in sha256 base64url d q =
     (let p = redeemable (secret_digest sha256 (sr_code q)) (sr_now q)
      in bindE (persist (sql_update (\<lambda>_. sign_in_ok) sign_in_clash p (\<lambda>r. r\<lparr>sg_consumed_at := Some (sr_now q)\<rparr>) (t_sign_in d)))
        (\<lambda>t. let d1 = d\<lparr>t_sign_in := t\<rparr>
         in case fetch_optional p (t_sign_in d) of
              None \<Rightarrow> Inr (Inl Unauthenticated, d1)
            | Some r \<Rightarrow>
                if \<not> still_approved d r (sr_now q) then Inr (Inl Unauthenticated, d1)
                else if sg_site r \<noteq> sr_site q \<or> sg_challenge r \<noteq> challenge_of sha256 base64url (sr_verifier q)
                then Inr (Inl Unauthenticated, d1)
                else Inr (Inr \<lparr>rs_user = sg_user r, rs_site = sg_site r, rs_return_path = sg_return_path r,
                               rs_hostname = sg_hostname r\<rparr>, d1)))"

subsection \<open>One presentation, one approval\<close>

lemma issue_sign_in_Inr:
  assumes "issue_sign_in d k (code, code_digest) n = Inr (Inr c, d')"
  shows "c = code" and "d' = d\<lparr>t_sign_in := t_sign_in d @ [sign_in_row_of k code_digest n]\<rparr>"
    and "primary_session d (nsi_created_by n) (nsi_user n) (nsi_now n)"
    and "db_ok d \<Longrightarrow> db_ok d'" and "\<forall>x \<in> set (t_sign_in d). sg_code_hash x \<noteq> code_digest"
proof -
  have t: "sql_insert sign_in_ok sign_in_clash (sign_in_row_of k code_digest n) (t_sign_in d)
      = Inr (t_sign_in d @ [sign_in_row_of k code_digest n])"
    and d': "d' = d\<lparr>t_sign_in := t_sign_in d @ [sign_in_row_of k code_digest n]\<rparr>"
    and p: "primary_session d (nsi_created_by n) (nsi_user n) (nsi_now n)" and c: "c = code"
    using assms by (auto simp: issue_sign_in_def sql_insert_Inr split: if_splits)
  show "c = code" by (rule c)
  show "d' = d\<lparr>t_sign_in := t_sign_in d @ [sign_in_row_of k code_digest n]\<rparr>" by (rule d')
  show "primary_session d (nsi_created_by n) (nsi_user n) (nsi_now n)" by (rule p)
  show "db_ok d \<Longrightarrow> db_ok d'"
    using sign_in_table.insert_ok [OF t] d' by (auto dest: db_okD(19))
  show "\<forall>x \<in> set (t_sign_in d). sg_code_hash x \<noteq> code_digest"
    using t by (auto simp: sql_insert_Inr sign_in_clash_def sign_in_row_of_def)
qed

text \<open>
  Presenting a code consumes it, accepted or not. The presentation never fails; it is accepted exactly
  for a live code at its own site with the verifier of its challenge, while the approving session is live and the
  owner holds the grant; and no later presentation of the same code is accepted, nor changes anything.
\<close>

lemma sign_in_code_is_presented_once:
  assumes "db_ok d" and "\<forall>r \<in> set (t_sign_in d). sg_created_at r \<le> sr_now q"
  shows "\<exists>res d'. redeem_sign_in sha256 base64url d q = Inr (res, d') \<and> db_ok d'
     \<and> (\<forall>g. res = Inr g \<longleftrightarrow> (\<exists>r \<in> set (t_sign_in d). redeemable (sha256 (sr_code q)) (sr_now q) r
            \<and> still_approved d r (sr_now q) \<and> sg_site r = sr_site q
            \<and> sg_challenge r = base64url (sha256 (sr_verifier q))
            \<and> g = \<lparr>rs_user = sg_user r, rs_site = sg_site r, rs_return_path = sg_return_path r, rs_hostname = sg_hostname r\<rparr>))
     \<and> (\<forall>later. sr_code later = sr_code q \<longrightarrow> sr_now q \<le> sr_now later \<longrightarrow>
          redeem_sign_in sha256 base64url d' later = Inr (Inl Unauthenticated, d'))"
proof -
  let ?p = "redeemable (sha256 (sr_code q)) (sr_now q)"
  let ?f = "\<lambda>r. r\<lparr>sg_consumed_at := Some (sr_now q)\<rparr>"
  let ?t = "update_where ?p ?f (t_sign_in d)"
  let ?d = "d\<lparr>t_sign_in := ?t\<rparr>"
  note table = db_okD(19) [OF assms(1)]
  have u: "sql_update (\<lambda>_. sign_in_ok) sign_in_clash ?p ?f (t_sign_in d) = Inr ?t"
  proof (rule sign_in_table.update_succeeds [OF table])
    show "sign_in_ok (?f x)" if "x \<in> set (t_sign_in d)" "?p x" for x
      using sign_in_table.row_ok [OF table that(1)] assms(2) that(1) by (simp add: sign_in_ok_def)
  qed (simp add: sign_in_clash_def)
  have ok: "db_ok ?d"
    using sign_in_table.update_ok [OF u table] assms(1) by blast
  define res where "res = (case fetch_optional ?p (t_sign_in d) of
      None \<Rightarrow> Inl Unauthenticated
    | Some r \<Rightarrow> if still_approved d r (sr_now q) \<and> sg_site r = sr_site q \<and> sg_challenge r = base64url (sha256 (sr_verifier q))
        then Inr \<lparr>rs_user = sg_user r, rs_site = sg_site r, rs_return_path = sg_return_path r, rs_hostname = sg_hostname r\<rparr>
        else Inl Unauthenticated)"
  have first: "redeem_sign_in sha256 base64url d q = Inr (res, ?d)"
    using u by (auto simp: redeem_sign_in_def secret_digest_def challenge_of_def res_def Let_def split: option.splits)
  have one: "x = y" if "x \<in> set (t_sign_in d)" "y \<in> set (t_sign_in d)" "?p x" "?p y" for x y
    by (rule sign_in_table.unclashing [OF table that(1,2)]) (use that in \<open>simp add: redeemable_def sign_in_clash_def\<close>)
  have accepted: "res = Inr g \<longleftrightarrow> (\<exists>r \<in> set (t_sign_in d). ?p r
            \<and> still_approved d r (sr_now q) \<and> sg_site r = sr_site q
            \<and> sg_challenge r = base64url (sha256 (sr_verifier q))
            \<and> g = \<lparr>rs_user = sg_user r, rs_site = sg_site r, rs_return_path = sg_return_path r, rs_hostname = sg_hostname r\<rparr>)" for g
  proof (cases "fetch_optional ?p (t_sign_in d)")
    case None
    then have "\<forall>r \<in> set (t_sign_in d). \<not> ?p r" by (simp add: fetch_optional_None)
    with None show ?thesis by (auto simp: res_def)
  next
    case (Some r)
    note r = fetch_optional_SomeD [OF Some]
    have "(\<exists>x \<in> set (t_sign_in d). ?p x \<and> Q x) \<longleftrightarrow> Q r" for Q using r one by blast
    then show ?thesis by (auto simp: res_def Some)
  qed
  have "redeem_sign_in sha256 base64url ?d later = Inr (Inl Unauthenticated, ?d)"
    if "sr_code later = sr_code q" "sr_now q \<le> sr_now later" for later
  proof -
    let ?q = "redeemable (sha256 (sr_code q)) (sr_now later)"
    have none: "\<not> ?q x" if "x \<in> set ?t" for x
      using that \<open>sr_now q \<le> sr_now later\<close> by (auto simp: set_update_where redeemable_def)
    then have "fetch_optional ?q ?t = None" "update_where ?q (\<lambda>r. r\<lparr>sg_consumed_at := Some (sr_now later)\<rparr>) ?t = ?t"
      by (simp_all add: fetch_optional_None update_where_none)
    moreover have "sorted_wrt (\<lambda>x y. \<not> sign_in_clash x y) ?t" using u by (simp add: sql_update_Inr)
    ultimately show ?thesis
      using none that(1) by (simp add: redeem_sign_in_def secret_digest_def sql_update_def list_all_iff)
  qed
  then show ?thesis using first ok accepted by blast
qed

text \<open>The digest and the encoding of the example answer what its one code and its one verifier need.\<close>

definition example_sha256 :: "string \<Rightarrow> digest" where
  "example_sha256 s = (if s = ''code'' then example_digest 6 else replicate 32 0)"

definition example_base64url :: "digest \<Rightarrow> string" where
  "example_base64url h = replicate 43 (CHR ''a'')"

definition example_presentation :: sign_in_redeem where
  "example_presentation = \<lparr>sr_site = ''blog'', sr_code = ''code'', sr_verifier = ''v'', sr_now = 100\<rparr>"

lemma sign_in_code_is_presented_once_witness:
  "\<exists>g d'. redeem_sign_in example_sha256 example_base64url identity_example example_presentation = Inr (Inr g, d')
     \<and> redeem_sign_in example_sha256 example_base64url d' example_presentation = Inr (Inl Unauthenticated, d')"
proof -
  have created: "\<forall>r \<in> set (t_sign_in identity_example). sg_created_at r \<le> sr_now example_presentation" by code_simp
  have r: "example_sign_in \<in> set (t_sign_in identity_example)" by code_simp
  have "redeemable (example_sha256 (sr_code example_presentation)) (sr_now example_presentation) example_sign_in"
    "still_approved identity_example example_sign_in (sr_now example_presentation)"
    "sg_site example_sign_in = sr_site example_presentation"
    "sg_challenge example_sign_in = example_base64url (example_sha256 (sr_verifier example_presentation))"
    by code_simp+
  with r sign_in_code_is_presented_once [OF identity_example_ok created, of example_sha256 example_base64url]
  show ?thesis by (elim exE conjE) (metis order_refl)
qed

end
