(* ===== verification/Relay.thy ===== *)
theory Relay
  imports Sessions
begin

text \<open>
  \<^verbatim>\<open>crates/identity/src/relay.rs\<close> and \<^verbatim>\<open>assertion.rs\<close>: carrying an authorization code to the service
  that owns a provider, and believing a signed assertion once. Base64, Ed25519 and the JSON reader are
  library code: \<open>b64\<close>, \<open>ed25519\<close> and \<open>claims_json\<close> stand for them.
\<close>

datatype callback_outcome = CallbackCode string | CallbackError string

record claimed_relay =
  cl_provider :: identity_provider
  cl_state :: string
  cl_code :: "string option"
  cl_error :: "string option"

definition relay_row_of ::
  "uuid \<Rightarrow> identity_provider \<Rightarrow> string \<Rightarrow> string \<Rightarrow> callback_outcome \<Rightarrow> instant \<Rightarrow> int \<Rightarrow> relay_row" where
  "relay_row_of k provider claim_grant state outcome now ttl =
     \<lparr>rl_id = k, rl_provider = provider_str provider, rl_claim_grant = claim_grant, rl_state = state,
      rl_code = (case outcome of CallbackCode c \<Rightarrow> Some c | CallbackError _ \<Rightarrow> None),
      rl_error = (case outcome of CallbackCode _ \<Rightarrow> None | CallbackError e \<Rightarrow> Some e),
      rl_received_at = now, rl_expires_at = now + ttl, rl_claimed_at = None\<rparr>"

definition receive_relay ::
  "db \<Rightarrow> uuid \<Rightarrow> identity_provider \<Rightarrow> string \<Rightarrow> string \<Rightarrow> callback_outcome \<Rightarrow> instant \<Rightarrow> int
     \<Rightarrow> persistence_error + uuid \<times> db" where
  "receive_relay d k provider claim_grant state outcome now ttl =
     bindE (persist (sql_insert relay_ok relay_clash
              (relay_row_of k provider claim_grant state outcome now ttl) (t_relays d)))
       (\<lambda>t. Inr (k, d\<lparr>t_relays := t\<rparr>))"

definition relay_claimable :: "uuid \<Rightarrow> string list \<Rightarrow> instant \<Rightarrow> relay_row \<Rightarrow> bool" where
  "relay_claimable i held now r \<longleftrightarrow> rl_id r = i \<and> rl_claim_grant r \<in> set held \<and> rl_claimed_at r = None \<and> now < rl_expires_at r"

text \<open>
  The row is read before the update destroys the code. A stored provider that does not parse is a
  decoding error, after which the claim is not kept.
\<close>

definition claim_relay ::
  "db \<Rightarrow> uuid \<Rightarrow> string list \<Rightarrow> instant \<Rightarrow> persistence_error + claimed_relay option \<times> db" where
  "claim_relay d i held now =
     (case fetch_optional (relay_claimable i held now) (t_relays d) of
        None \<Rightarrow> Inr (None, d)
      | Some r \<Rightarrow>
          bindE (persist (sql_update (\<lambda>_. relay_ok) relay_clash (\<lambda>x. rl_id x = rl_id r \<and> rl_claimed_at x = None)
                   (\<lambda>x. x\<lparr>rl_claimed_at := Some now, rl_code := None\<rparr>) (t_relays d))) (\<lambda>t.
          bindE (ok_or (Query Decode_error) (provider_from_str (rl_provider r))) (\<lambda>p.
          Inr (Some \<lparr>cl_provider = p, cl_state = rl_state r, cl_code = rl_code r, cl_error = rl_error r\<rparr>,
               d\<lparr>t_relays := t\<rparr>))))"

definition collect_expired_relays :: "db \<Rightarrow> instant \<Rightarrow> nat \<times> db" where
  "collect_expired_relays d now =
     (let p = (\<lambda>r. rl_expires_at r \<le> now \<and> rl_claimed_at r = None)
      in (rows_affected p (t_relays d), d\<lparr>t_relays := delete_where p (t_relays d)\<rparr>))"

subsection \<open>Assertions\<close>

record assertion_claims =
  ac_issuer :: string
  ac_subject :: string
  ac_audience :: string
  ac_nonce :: string
  ac_issued_at :: instant
  ac_expires_at :: instant

datatype assertion_rejected =
    MalformedAssertion | BadSignature | UnknownIssuer | WrongAudience | AssertionExpired
  | NotYetValid | UnusableNonce

definition telegram_issuer :: string where
  "telegram_issuer = ''ratatoskr-telegram''"

text \<open>The signature is checked over the encoded payload, before anything is decoded from it.\<close>

definition verify_assertion ::
  "(string \<Rightarrow> 8 word list option) \<Rightarrow> (8 word list \<Rightarrow> string \<Rightarrow> 8 word list \<Rightarrow> bool)
     \<Rightarrow> (8 word list \<Rightarrow> assertion_claims option) \<Rightarrow> string \<Rightarrow> 8 word list \<Rightarrow> string \<Rightarrow> instant
     \<Rightarrow> assertion_rejected + assertion_claims" where
  "verify_assertion b64 ed25519 claims_json token public_key audience now =
     bindE (ok_or MalformedAssertion (split_once (CHR ''.'') token)) (\<lambda>(payload, signature_text).
     bindE (ok_or MalformedAssertion (b64 signature_text)) (\<lambda>signature.
     if \<not> ed25519 public_key payload signature then Inl BadSignature
     else bindE (ok_or MalformedAssertion (b64 payload)) (\<lambda>decoded.
     bindE (ok_or MalformedAssertion (claims_json decoded)) (\<lambda>claims.
     if ac_issuer claims \<noteq> telegram_issuer then Inl UnknownIssuer
     else if ac_audience claims \<noteq> audience then Inl WrongAudience
     else if ac_expires_at claims \<le> now then Inl AssertionExpired
     else if now < ac_issued_at claims then Inl NotYetValid
     else if \<not> (16 \<le> length (ac_nonce claims) \<and> length (ac_nonce claims) \<le> 128) then Inl UnusableNonce
     else Inr claims))))"

definition assertion_row_of :: "uuid \<Rightarrow> assertion_claims \<Rightarrow> uuid \<Rightarrow> instant \<Rightarrow> assertion_row" where
  "assertion_row_of k c user now =
     \<lparr>ax_id = k, ax_issuer = ac_issuer c, ax_subject = ac_subject c, ax_audience = ac_audience c,
      ax_nonce = ac_nonce c, ax_user = Some user, ax_issued_at = ac_issued_at c, ax_expires_at = ac_expires_at c,
      ax_redeemed_at = Some now\<rparr>"

definition redeem_assertion ::
  "db \<Rightarrow> uuid \<Rightarrow> assertion_claims \<Rightarrow> uuid \<Rightarrow> instant \<Rightarrow> persistence_error + uuid option \<times> db" where
  "redeem_assertion d k c user now =
     persist (bindE (sql_insert_or_ignore assertion_ok assertion_nonce_clash assertion_clash
              (assertion_row_of k c user now) (t_assertions d)) (\<lambda>(inserted, t).
       if inserted \<and> \<not> user_exists d user then Inl Foreign_key_violation
       else Inr (if inserted then Some k else None, d\<lparr>t_assertions := t\<rparr>)))"

definition sign_assertion ::
  "(8 word list \<Rightarrow> string) \<Rightarrow> (string \<Rightarrow> 8 word list) \<Rightarrow> (assertion_claims \<Rightarrow> 8 word list option) \<Rightarrow> assertion_claims
     \<Rightarrow> assertion_rejected + string" where
  "sign_assertion b64_encode sign claims_to_json c =
     bindE (ok_or MalformedAssertion (claims_to_json c)) (\<lambda>doc.
       let payload = b64_encode doc in Inr (payload @ ''.'' @ b64_encode (sign payload)))"

subsection \<open>A relay is claimed once\<close>

lemma provider_parses: "provider_name s \<Longrightarrow> \<exists>p. provider_from_str s = Some p \<and> provider_str p = s"
  by (auto simp: provider_name_def provider_from_str_def all_providers_def)

text \<open>
  A claim by a holder of the relay's capability, before it expires, answers the provider's code or
  error; the claim destroys the stored code, and every later claim of that relay answers nothing and changes
  nothing, whatever capability it presents.
\<close>

lemma relay_is_claimed_once:
  assumes "db_ok d" and "r \<in> set (t_relays d)" and "relay_claimable i held now r" and "rl_received_at r \<le> now"
  shows "\<exists>p d'. claim_relay d i held now
       = Inr (Some \<lparr>cl_provider = p, cl_state = rl_state r, cl_code = rl_code r, cl_error = rl_error r\<rparr>, d')
     \<and> provider_str p = rl_provider r \<and> db_ok d'
     \<and> (\<forall>x \<in> set (t_relays d'). rl_id x = i \<longrightarrow> x = r\<lparr>rl_claimed_at := Some now, rl_code := None\<rparr>)
     \<and> (\<forall>x \<in> set (t_relays d). rl_id x \<noteq> i \<longrightarrow> x \<in> set (t_relays d'))
     \<and> (\<forall>held' later. claim_relay d' i held' later = Inr (None, d'))"
proof -
  let ?p = "\<lambda>x. rl_id x = i \<and> rl_claimed_at x = None"
  let ?f = "\<lambda>x. x\<lparr>rl_claimed_at := Some now, rl_code := None\<rparr>"
  let ?t = "update_where ?p ?f (t_relays d)"
  let ?d = "d\<lparr>t_relays := ?t\<rparr>"
  note table = db_okD(22) [OF assms(1)]
  have same: "x = r" if "x \<in> set (t_relays d)" "rl_id x = i" for x
    by (rule relays_table.same_key [OF table that(1) assms(2)]) (use that(2) assms(3) in \<open>simp add: relay_claimable_def\<close>)
  have u: "sql_update (\<lambda>_. relay_ok) relay_clash ?p ?f (t_relays d) = Inr ?t"
  proof (rule relays_table.update_succeeds [OF table])
    show "relay_ok (?f x)" if "x \<in> set (t_relays d)" "?p x" for x
      using relays_table.row_ok [OF table that(1)] same [OF that(1)] that(2) assms(4) by (simp add: relay_ok_def)
  qed (simp add: relay_clash_def)
  have ok: "db_ok ?d" using relays_table.update_ok [OF u table] assms(1) by blast
  obtain x where x: "fetch_optional (relay_claimable i held now) (t_relays d) = Some x"
    using assms(2,3) fetch_optional_None by (metis not_None_eq)
  then have "x = r" using fetch_optional_SomeD [OF x] same by (auto simp: relay_claimable_def)
  then have fetch: "fetch_optional (relay_claimable i held now) (t_relays d) = Some r" using x by simp
  obtain p where p: "provider_from_str (rl_provider r) = Some p" "provider_str p = rl_provider r"
    using provider_parses relays_table.row_ok [OF table assms(2)] by (auto simp: relay_ok_def)
  have i: "rl_id r = i" using assms(3) by (simp add: relay_claimable_def)
  have claimed: "claim_relay d i held now
       = Inr (Some \<lparr>cl_provider = p, cl_state = rl_state r, cl_code = rl_code r, cl_error = rl_error r\<rparr>, ?d)"
    using fetch u p(1) i by (simp add: claim_relay_def)
  have row: "y = ?f r" if "y \<in> set ?t" "rl_id y = i" for y
    using that same assms(3) by (auto simp: set_update_where relay_claimable_def)
  have "claim_relay ?d i held' later = Inr (None, ?d)" for held' later
  proof -
    have "\<not> relay_claimable i held' later y" if "y \<in> set ?t" for y
      using row [OF that] by (auto simp: relay_claimable_def)
    then have "fetch_optional (relay_claimable i held' later) (t_relays ?d) = None"
      by (simp add: fetch_optional_None)
    then show ?thesis by (simp add: claim_relay_def)
  qed
  moreover have "\<forall>y \<in> set (t_relays ?d). rl_id y = i \<longrightarrow> y = ?f r" using row by simp
  moreover have "\<forall>y \<in> set (t_relays d). rl_id y \<noteq> i \<longrightarrow> y \<in> set (t_relays ?d)" by (auto simp: set_update_where)
  ultimately show ?thesis using claimed p(2) ok by blast
qed

subsection \<open>An assertion is believed once\<close>

lemma verify_assertion_Inr:
  assumes "verify_assertion b64 ed25519 claims_json token public_key audience now = Inr c"
  obtains payload signature_text signature where "token = payload @ ''.'' @ signature_text"
    and "b64 signature_text = Some signature" and "ed25519 public_key payload signature"
    and "Option.bind (b64 payload) claims_json = Some c"
    and "ac_issuer c = telegram_issuer" and "ac_audience c = audience" and "ac_issued_at c \<le> now"
    and "now < ac_expires_at c" and "16 \<le> length (ac_nonce c)" and "length (ac_nonce c) \<le> 128"
  using assms
  by (auto simp: verify_assertion_def split_once_Some not_le not_less split: if_splits intro: that)

text \<open>
  An assertion that verifies is of the one known issuer, for this audience, in its time and signed over
  its payload, and it is redeemed at most once: its first redemption records its nonce, and from then on every claim
  with that nonce is answered as a replay, for any user at any time.
\<close>

lemma verified_assertion_is_redeemed_once:
  assumes "db_ok d" and "verify_assertion b64 ed25519 claims_json token public_key audience now = Inr c"
    and "bounded 1 255 (ac_subject c)" and "bounded 1 120 audience" and "user_exists d user"
    and "\<forall>x \<in> set (t_assertions d). ax_id x \<noteq> k \<and> (ax_issuer x, ax_nonce x) \<noteq> (ac_issuer c, ac_nonce c)"
  shows "\<exists>d'. redeem_assertion d k c user now = Inr (Some k, d') \<and> db_ok d'
     \<and> t_assertions d' = t_assertions d @ [assertion_row_of k c user now]
     \<and> (\<forall>k' user' later. now \<le> later \<longrightarrow> redeem_assertion d' k' c user' later = Inr (None, d'))"
proof -
  obtain "ac_issuer c = telegram_issuer" "ac_audience c = audience" "ac_issued_at c \<le> now"
    "now < ac_expires_at c" "16 \<le> length (ac_nonce c)" "length (ac_nonce c) \<le> 128"
    using verify_assertion_Inr [OF assms(2)] by metis
  then have ok: "assertion_ok (assertion_row_of k' c user' later)" if "now \<le> later" for k' user' later
    using that assms(3,4) by (simp add: assertion_ok_def assertion_row_of_def telegram_issuer_def bounded_def)
  let ?r = "assertion_row_of k c user now"
  let ?d = "d\<lparr>t_assertions := t_assertions d @ [?r]\<rparr>"
  have fresh: "\<not> assertion_clash x ?r" if "x \<in> set (t_assertions d)" for x
    using assms(6) that by (auto simp: assertion_clash_def assertion_nonce_clash_def assertion_row_of_def)
  then have ins: "sql_insert_or_ignore assertion_ok assertion_nonce_clash assertion_clash ?r (t_assertions d)
      = Inr (True, t_assertions d @ [?r])"
    using ok [of now k user] by (auto simp: sql_insert_or_ignore_Inr assertion_clash_def)
  then have first: "redeem_assertion d k c user now = Inr (Some k, ?d)"
    using assms(5) by (simp add: redeem_assertion_def)
  have "db_ok ?d"
    using assertions_table.insert_or_ignore_ok [OF ins db_okD(21) [OF assms(1)]] assms(1) by blast
  moreover have "redeem_assertion ?d k' c user' later = Inr (None, ?d)" if "now \<le> later" for k' user' later
  proof -
    have "assertion_nonce_clash ?r (assertion_row_of k' c user' later)"
      by (simp add: assertion_nonce_clash_def assertion_row_of_def)
    then have "sql_insert_or_ignore assertion_ok assertion_nonce_clash assertion_clash
        (assertion_row_of k' c user' later) (t_assertions ?d) = Inr (False, t_assertions ?d)"
      using ok [OF that] by (auto simp: sql_insert_or_ignore_Inr)
    then show ?thesis by (simp add: redeem_assertion_def)
  qed
  ultimately show ?thesis using first by (intro exI [of _ ?d]) simp
qed

text \<open>
  What the issuing half signs, the verifier believes: for claims within their bounds, an encoding that
  decodes to what it encoded and has no dot, and a key whose signatures verify.
\<close>

lemma signed_assertion_verifies:
  assumes "\<And>bytes. b64 (b64_encode bytes) = Some bytes" and "\<And>bytes. CHR ''.'' \<notin> set (b64_encode bytes)"
    and "\<And>message. ed25519 public_key message (sign message)"
    and "claims_to_json c = Some doc" and "claims_json doc = Some c"
    and "ac_issuer c = telegram_issuer" and "ac_issued_at c \<le> now" and "now < ac_expires_at c"
    and "16 \<le> length (ac_nonce c)" and "length (ac_nonce c) \<le> 128"
  shows "\<exists>token. sign_assertion b64_encode sign claims_to_json c = Inr token
     \<and> verify_assertion b64 ed25519 claims_json token public_key (ac_audience c) now = Inr c"
proof -
  let ?payload = "b64_encode doc"
  let ?token = "?payload @ ''.'' @ b64_encode (sign ?payload)"
  have "split_once (CHR ''.'') ?token = Some (?payload, b64_encode (sign ?payload))"
    using assms(2) by (simp add: split_once_Some)
  then have "verify_assertion b64 ed25519 claims_json ?token public_key (ac_audience c) now = Inr c"
    using assms(1,3,5-10) by (simp add: verify_assertion_def)
  then show ?thesis using assms(4) by (simp add: sign_assertion_def Let_def)
qed

lemma relay_is_claimed_once_witness:
  "\<exists>c d'. claim_relay identity_example 50 [''github.oauth''] 100 = Inr (Some c, d')
     \<and> claim_relay d' 50 [''github.oauth''] 100 = Inr (None, d')"
proof -
  have "example_relay \<in> set (t_relays identity_example)" "relay_claimable 50 [''github.oauth''] 100 example_relay"
    "rl_received_at example_relay \<le> 100"
    by code_simp+
  from relay_is_claimed_once [OF identity_example_ok this] show ?thesis by (elim exE conjE) blast
qed

text \<open>An encoding of bytes as pairs of letters, a key that signs a text with itself, and a reader of one document.\<close>

fun example_encode :: "8 word list \<Rightarrow> string" where
  "example_encode [] = []"
| "example_encode (b # bs) = char_of (97 + unat b div 16) # char_of (97 + unat b mod 16) # example_encode bs"

fun example_decode :: "string \<Rightarrow> 8 word list option" where
  "example_decode [] = Some []"
| "example_decode [c] = None"
| "example_decode (c # e # cs) = map_option ((#) (word_of_nat ((byte c - 97) * 16 + (byte e - 97)))) (example_decode cs)"

definition example_signature :: "string \<Rightarrow> 8 word list" where
  "example_signature m = map (\<lambda>c. word_of_nat (byte c)) m"

definition example_ed25519 :: "8 word list \<Rightarrow> string \<Rightarrow> 8 word list \<Rightarrow> bool" where
  "example_ed25519 key m signature \<longleftrightarrow> signature = example_signature m"

definition example_claims :: assertion_claims where
  "example_claims =
     \<lparr>ac_issuer = ''ratatoskr-telegram'', ac_subject = ''42'', ac_audience = ''edge'', ac_nonce = replicate 16 (CHR ''n''),
      ac_issued_at = 90, ac_expires_at = 150\<rparr>"

definition example_claims_json :: "8 word list \<Rightarrow> assertion_claims option" where
  "example_claims_json doc = (if doc = [7] then Some example_claims else None)"

lemma example_decode_encode: "example_decode (example_encode bs) = Some bs"
proof (induction bs)
  case Nil
  show ?case by simp
next
  case (Cons b bs)
  have "unat b < 256" using unsigned_less [of b, where ?'a = nat] by simp
  then have "unat b div 16 < 16" by linarith
  then show ?case using Cons by (simp add: of_char_of div_mult_mod_eq)
qed

lemma example_encode_no_dot: "CHR ''.'' \<notin> set (example_encode bs)"
proof (induction bs)
  case Nil
  show ?case by simp
next
  case (Cons b bs)
  have "char_of (97 + n) \<noteq> CHR ''.''" if "n < 16" for n :: nat
  proof
    assume "char_of (97 + n) = CHR ''.''"
    then have "of_char (char_of (97 + n) :: char) = (of_char (CHR ''.'') :: nat)" by simp
    then show False using that by (simp add: of_char_of)
  qed
  moreover have "unat b div 16 < 16" using unsigned_less [of b, where ?'a = nat] by simp
  ultimately show ?case using Cons by (simp add: eq_commute)
qed

lemma signed_assertion_verifies_witness:
  "\<exists>token. verify_assertion example_decode example_ed25519 example_claims_json token [] ''edge'' 100 = Inr example_claims"
proof -
  have "ac_issuer example_claims = telegram_issuer" "ac_issued_at example_claims \<le> 100" "100 < ac_expires_at example_claims"
    "16 \<le> length (ac_nonce example_claims)" "length (ac_nonce example_claims) \<le> 128" "ac_audience example_claims = ''edge''"
    "example_claims_json [7] = Some example_claims"
    by code_simp+
  then show ?thesis
    using signed_assertion_verifies [of example_decode example_encode example_ed25519 "[]" example_signature
        "\<lambda>_. Some [7]" example_claims "[7]" example_claims_json 100]
    by (auto simp: example_decode_encode example_encode_no_dot example_ed25519_def)
qed

end
