(* ===== verification/Identity_History.thy ===== *)
theory Identity_History
  imports Pairing Site_Sign_In Relay
begin

text \<open>
  What no operation on the \<^verbatim>\<open>identity\<close> schema undoes. A step is one committed call of a function of
  \<^verbatim>\<open>crates/identity/src\<close>, whatever its arguments and its answer; \<open>kept\<close> says that every row is
  still there with its identity columns, and that what ended stays ended. It holds along every step, so along
  every history.
\<close>

subsection \<open>Rows that evolve\<close>

definition evolves :: "('r \<Rightarrow> 'r \<Rightarrow> bool) \<Rightarrow> 'r list \<Rightarrow> 'r list \<Rightarrow> bool" where
  "evolves m t u \<longleftrightarrow> (\<forall>x \<in> set t. \<exists>y \<in> set u. m x y)"

lemma evolves_update:
  "(\<And>x. m x x) \<Longrightarrow> (\<And>x. x \<in> set t \<Longrightarrow> p x \<Longrightarrow> m x (f x)) \<Longrightarrow> evolves m t (update_where p f t)"
  unfolding evolves_def set_update_where by blast

lemma evolves_more: "evolves m t u \<Longrightarrow> evolves m t (u @ v)"
  by (auto simp: evolves_def)

lemma evolves_same: "(\<And>x. m x x) \<Longrightarrow> evolves m t t"
  by (auto simp: evolves_def)

lemma evolves_trans: "evolves m t u \<Longrightarrow> evolves m u v \<Longrightarrow> (\<And>x y z. m x y \<Longrightarrow> m y z \<Longrightarrow> m x z) \<Longrightarrow> evolves m t v"
  unfolding evolves_def by meson

definition session_kept :: "session_row \<Rightarrow> session_row \<Rightarrow> bool" where
  "session_kept x y \<longleftrightarrow> ss_id y = ss_id x \<and> ss_user y = ss_user x \<and> ss_kind y = ss_kind x \<and> ss_device y = ss_device x
     \<and> ss_audience y = ss_audience x \<and> ss_issued_at y = ss_issued_at x \<and> (ss_revoked_at x \<noteq> None \<longrightarrow> y = x)"

definition link_kept :: "refresh_row \<Rightarrow> refresh_row \<Rightarrow> bool" where
  "link_kept x y \<longleftrightarrow> rt_id y = rt_id x \<and> rt_session y = rt_session x \<and> rt_token_hash y = rt_token_hash x
     \<and> rt_expires_at y = rt_expires_at x \<and> (rt_consumed_at x \<noteq> None \<longrightarrow> y = x)"

definition device_kept :: "device_row \<Rightarrow> device_row \<Rightarrow> bool" where
  "device_kept x y \<longleftrightarrow> dv_id y = dv_id x \<and> dv_user y = dv_user x \<and> dv_kind y = dv_kind x \<and> dv_site y = dv_site x
     \<and> dv_secret_hash y = dv_secret_hash x \<and> (dv_revoked_at x \<noteq> None \<longrightarrow> y = x)"

definition code_kept :: "pairing_row \<Rightarrow> pairing_row \<Rightarrow> bool" where
  "code_kept x y \<longleftrightarrow> pc_id y = pc_id x \<and> pc_user y = pc_user x \<and> pc_code_hash y = pc_code_hash x
     \<and> pc_expected_kind y = pc_expected_kind x \<and> pc_site y = pc_site x
     \<and> pc_failed_attempts x \<le> pc_failed_attempts y \<and> (\<not> pairing_pending x \<longrightarrow> y = x)"

definition sign_in_kept :: "sign_in_row \<Rightarrow> sign_in_row \<Rightarrow> bool" where
  "sign_in_kept x y \<longleftrightarrow> sg_id y = sg_id x \<and> sg_code_hash y = sg_code_hash x \<and> sg_user y = sg_user x
     \<and> sg_site y = sg_site x \<and> (sg_consumed_at x \<noteq> None \<longrightarrow> y = x)"

definition identity_kept :: "identity_row \<Rightarrow> identity_row \<Rightarrow> bool" where
  "identity_kept x y \<longleftrightarrow> idn_id y = idn_id x \<and> idn_user y = idn_user x \<and> idn_provider y = idn_provider x
     \<and> idn_external y = idn_external x"

definition grant_kept :: "grant_row \<Rightarrow> grant_row \<Rightarrow> bool" where
  "grant_kept x y \<longleftrightarrow> gr_id y = gr_id x \<and> gr_user y = gr_user x \<and> gr_capability y = gr_capability x
     \<and> (gr_revoked_at x \<noteq> None \<longrightarrow> y = x)"

text \<open>A relay that was claimed stays; one that was not may expire away.\<close>

definition kept :: "db \<Rightarrow> db \<Rightarrow> bool" where
  "kept d e \<longleftrightarrow> evolves (\<lambda>x y. us_id y = us_id x) (t_users d) (t_users e)
     \<and> evolves session_kept (t_sessions d) (t_sessions e) \<and> evolves link_kept (t_refresh d) (t_refresh e)
     \<and> evolves device_kept (t_devices d) (t_devices e) \<and> evolves code_kept (t_pairing d) (t_pairing e)
     \<and> evolves sign_in_kept (t_sign_in d) (t_sign_in e) \<and> evolves identity_kept (t_identities d) (t_identities e)
     \<and> evolves grant_kept (t_grants d) (t_grants e)
     \<and> set (t_assertions d) \<subseteq> set (t_assertions e) \<and> set (t_revocations d) \<subseteq> set (t_revocations e)
     \<and> {r \<in> set (t_relays d). rl_claimed_at r \<noteq> None} \<subseteq> set (t_relays e)"

lemmas row_kept_defs = session_kept_def link_kept_def device_kept_def code_kept_def sign_in_kept_def
  identity_kept_def grant_kept_def

lemma row_kept_refl [simp]:
  "session_kept s s" "link_kept l l" "device_kept v v" "code_kept c c" "sign_in_kept g g" "identity_kept i i"
  "grant_kept a a"
  by (simp_all add: row_kept_defs)

lemma row_kept_trans:
  "session_kept x y \<Longrightarrow> session_kept y z \<Longrightarrow> session_kept x z"
  "link_kept l m \<Longrightarrow> link_kept m n \<Longrightarrow> link_kept l n"
  "device_kept u v \<Longrightarrow> device_kept v w \<Longrightarrow> device_kept u w"
  "code_kept a b \<Longrightarrow> code_kept b c \<Longrightarrow> code_kept a c"
  "sign_in_kept e f \<Longrightarrow> sign_in_kept f g \<Longrightarrow> sign_in_kept e g"
  "identity_kept i j \<Longrightarrow> identity_kept j k \<Longrightarrow> identity_kept i k"
  "grant_kept p q \<Longrightarrow> grant_kept q r \<Longrightarrow> grant_kept p r"
  by (auto simp: row_kept_defs)

lemma kept_refl [simp]: "kept d d"
  by (simp add: kept_def evolves_same)

lemma kept_trans: "kept d e \<Longrightarrow> kept e f \<Longrightarrow> kept d f"
  unfolding kept_def
  by (elim conjE, intro conjI; (blast | (erule (1) evolves_trans, (blast intro: row_kept_trans | simp))))

text \<open>A change of one table, and of the tables the history says nothing of.\<close>

lemma kept_table:
  "evolves (\<lambda>x y. us_id y = us_id x) (t_users d) users \<Longrightarrow> kept d (d\<lparr>t_users := users\<rparr>)"
  "evolves session_kept (t_sessions d) sessions \<Longrightarrow> kept d (d\<lparr>t_sessions := sessions\<rparr>)"
  "evolves link_kept (t_refresh d) links \<Longrightarrow> kept d (d\<lparr>t_refresh := links\<rparr>)"
  "evolves device_kept (t_devices d) devices \<Longrightarrow> kept d (d\<lparr>t_devices := devices\<rparr>)"
  "evolves code_kept (t_pairing d) codes \<Longrightarrow> kept d (d\<lparr>t_pairing := codes\<rparr>)"
  "evolves sign_in_kept (t_sign_in d) sign_ins \<Longrightarrow> kept d (d\<lparr>t_sign_in := sign_ins\<rparr>)"
  "evolves identity_kept (t_identities d) identities \<Longrightarrow> kept d (d\<lparr>t_identities := identities\<rparr>)"
  "evolves grant_kept (t_grants d) grants \<Longrightarrow> kept d (d\<lparr>t_grants := grants\<rparr>)"
  "set (t_assertions d) \<subseteq> set assertions \<Longrightarrow> kept d (d\<lparr>t_assertions := assertions\<rparr>)"
  "set (t_revocations d) \<subseteq> set revocations \<Longrightarrow> kept d (d\<lparr>t_revocations := revocations\<rparr>)"
  "{r \<in> set (t_relays d). rl_claimed_at r \<noteq> None} \<subseteq> set relays \<Longrightarrow> kept d (d\<lparr>t_relays := relays\<rparr>)"
  "kept d (d\<lparr>t_audit := audit\<rparr>)"
  by (simp_all add: kept_def evolves_same)

subsection \<open>Every operation advances the history\<close>

definition advances :: "db \<Rightarrow> db \<Rightarrow> bool" where
  "advances d e \<longleftrightarrow> (db_ok d \<longrightarrow> db_ok e \<and> kept d e)"

lemma advances_refl [simp]: "advances d d"
  by (simp add: advances_def)

lemma advances_trans: "advances d e \<Longrightarrow> advances e f \<Longrightarrow> advances d f"
  unfolding advances_def using kept_trans by blast

lemma advancesI: "(db_ok d \<Longrightarrow> db_ok e) \<Longrightarrow> (db_ok d \<Longrightarrow> kept d e) \<Longrightarrow> advances d e"
  by (simp add: advances_def)

text \<open>A table of the schema whose rows evolve: what an update or an insertion needs to advance the history.\<close>

locale evolving_table = constrained_table ok clash key
  for ok :: "'r \<Rightarrow> bool" and clash :: "'r \<Rightarrow> 'r \<Rightarrow> bool" and key :: "'r \<Rightarrow> uuid" +
  fixes rows :: "db \<Rightarrow> 'r list"
    and put :: "'r list \<Rightarrow> db \<Rightarrow> db"
    and rel :: "'r \<Rightarrow> 'r \<Rightarrow> bool"
  assumes rows_ok: "db_ok d \<Longrightarrow> table_ok ok clash (rows d)"
    and put_ok: "db_ok d \<Longrightarrow> table_ok ok clash u \<Longrightarrow> db_ok (put u d)"
    and put_kept: "evolves rel (rows d) u \<Longrightarrow> kept d (put u d)"
    and rel_refl: "rel x x"
begin

lemma updated:
  assumes "sql_update (\<lambda>_. ok) clash p f (rows d) = Inr u"
    and "\<And>x. db_ok d \<Longrightarrow> x \<in> set (rows d) \<Longrightarrow> p x \<Longrightarrow> rel x (f x)"
  shows "advances d (put u d)"
proof (rule advancesI)
  assume d: "db_ok d"
  show "db_ok (put u d)" by (rule put_ok [OF d update_ok [OF assms(1) rows_ok [OF d]]])
  show "kept d (put u d)"
    using evolves_update [of rel "rows d" p f, OF rel_refl assms(2) [OF d]] assms(1)
    by (intro put_kept) (simp add: sql_update_Inr)
qed

lemma inserted:
  assumes "sql_insert ok clash r (rows d) = Inr u"
  shows "advances d (put u d)"
proof (rule advancesI)
  assume d: "db_ok d"
  show "db_ok (put u d)" by (rule put_ok [OF d insert_ok [OF assms rows_ok [OF d]]])
  show "kept d (put u d)"
    using assms by (intro put_kept) (simp add: sql_insert_Inr evolves_more evolves_same [of rel, OF rel_refl])
qed

end

interpretation user_history: evolving_table user_ok user_clash us_id t_users "\<lambda>u d. d\<lparr>t_users := u\<rparr>" "\<lambda>x y. us_id y = us_id x"
  by unfold_locales (auto dest: db_okD(11) intro: kept_table)

interpretation session_history: evolving_table session_ok session_clash ss_id t_sessions "\<lambda>u d. d\<lparr>t_sessions := u\<rparr>" "session_kept"
  by unfold_locales (auto dest: db_okD(13) intro: kept_table)

interpretation device_history: evolving_table device_ok device_clash dv_id t_devices "\<lambda>u d. d\<lparr>t_devices := u\<rparr>" "device_kept"
  by unfold_locales (auto dest: db_okD(12) intro: kept_table)

interpretation link_history: evolving_table refresh_ok refresh_clash rt_id t_refresh "\<lambda>u d. d\<lparr>t_refresh := u\<rparr>" "link_kept"
  by unfold_locales (auto dest: db_okD(14) intro: kept_table)

interpretation code_history: evolving_table pairing_ok pairing_clash pc_id t_pairing "\<lambda>u d. d\<lparr>t_pairing := u\<rparr>" "code_kept"
  by unfold_locales (auto dest: db_okD(18) intro: kept_table)

interpretation sign_in_history: evolving_table sign_in_ok sign_in_clash sg_id t_sign_in "\<lambda>u d. d\<lparr>t_sign_in := u\<rparr>" "sign_in_kept"
  by unfold_locales (auto dest: db_okD(19) intro: kept_table)

interpretation identity_history: evolving_table identity_ok identity_clash idn_id t_identities "\<lambda>u d. d\<lparr>t_identities := u\<rparr>" "identity_kept"
  by unfold_locales (auto dest: db_okD(20) intro: kept_table)

interpretation grant_history: evolving_table grant_ok grant_clash gr_id t_grants "\<lambda>u d. d\<lparr>t_grants := u\<rparr>" "grant_kept"
  by unfold_locales (auto dest: db_okD(15) intro: kept_table)

subsection \<open>The operations\<close>

lemma create_user_advances: "create_user d k now = Inr (x, e) \<Longrightarrow> advances d e"
  by (auto simp: create_user_def intro: user_history.inserted)

lemma set_user_status_advances: "set_user_status d i st now = Inr (x, e) \<Longrightarrow> advances d e"
  by (auto simp: set_user_status_def intro!: user_history.updated)

lemma link_external_identity_advances:
  "link_external_identity d k user provider external now = Inr (x, e) \<Longrightarrow> advances d e"
  by (auto simp: link_external_identity_def Let_def identity_kept_def split: if_splits option.splits
      intro: identity_history.inserted identity_history.updated)

lemma grant_advances:
  assumes "grant d k u capability now expires_at = Inr (x, e)"
  shows "advances d e"
proof -
  have live: "gr_revoked_at y = None" if "db_ok d" "y \<in> set (t_grants d)" "gr_id y = gr_id z"
    "fetch_optional (\<lambda>x. grant_live_clash x r) (t_grants d) = Some z" for y z r
    using grants_table.same_key [OF db_okD(15) [OF that(1)] that(2) _ that(3)] fetch_optional_SomeD [OF that(4)]
    by (auto simp: grant_live_clash_def)
  then show ?thesis
    using assms by (auto simp: grant_def Let_def grant_kept_def split: if_splits option.splits
        intro: grant_history.inserted grant_history.updated)
qed

lemma revoke_grant_advances: "revoke_grant d u capability now = Inr (x, e) \<Longrightarrow> advances d e"
  by (auto simp: revoke_grant_def Let_def grant_kept_def intro!: grant_history.updated)

lemma record_revocation_advances: "record_revocation d k subj i reason by_whom now = Inr (x, e) \<Longrightarrow> advances d e"
  using record_revocation_Inr [of d k subj i reason by_whom now x e] by (intro advancesI) (auto intro: kept_table)

lemma create_session_advances: "create_session d k n = Inr (x, e) \<Longrightarrow> advances d e"
  by (auto simp: create_session_def split: if_splits intro: session_history.inserted)

lemma revoke_where_advances: "revoke_where d p now = Inr (x, e) \<Longrightarrow> advances d e"
  by (auto simp: revoke_where_def Let_def session_kept_def revoked_session_def intro!: session_history.updated)

lemma revoke_session_advances: "revoke_session d i now = Inr (x, e) \<Longrightarrow> advances d e"
  by (auto simp: revoke_session_def dest: revoke_where_advances)

lemma revoke_all_sessions_of_user_advances: "revoke_all_sessions_of_user d u now = Inr (x, e) \<Longrightarrow> advances d e"
  by (auto simp: revoke_all_sessions_of_user_def dest: revoke_where_advances)

lemma revoke_site_sessions_advances: "revoke_site_sessions d u site now = Inr (x, e) \<Longrightarrow> advances d e"
  by (auto simp: revoke_site_sessions_def dest: revoke_where_advances)

lemma touch_last_seen_advances:
  assumes "touch_last_seen d i device now min_interval = (x, e)"
  shows "advances d e"
proof -
  have session: "advances d (d\<lparr>t_sessions := t\<rparr>)"
    if "sql_update (\<lambda>_. session_ok) session_clash (\<lambda>r. ss_id r = i \<and> ss_revoked_at r = None \<and> P r)
          (\<lambda>r. r\<lparr>ss_last_seen_at := Some now\<rparr>) (t_sessions d) = Inr t" for t P
    by (rule session_history.updated [OF that]) (simp add: session_kept_def)
  have device: "advances d' (d'\<lparr>t_devices := t\<rparr>)"
    if "sql_update (\<lambda>_. device_ok) device_clash (\<lambda>r. dv_id r = k \<and> dv_revoked_at r = None \<and> P r)
          (\<lambda>r. r\<lparr>dv_last_seen_at := Some now\<rparr>) (t_devices d') = Inr t" for d' t k P
    by (rule device_history.updated [OF that]) (simp add: device_kept_def)
  show ?thesis
    using assms
    by (auto simp: touch_last_seen_def Let_def split: sum.splits option.splits
        intro: session advances_trans [OF session device] simp flip: persist_simps)
qed

lemma issue_refresh_token_advances: "issue_refresh_token d k i token t e = Inr (x, d') \<Longrightarrow> advances d d'"
  by (auto simp: issue_refresh_token_def split: if_splits intro: link_history.inserted)

lemma register_site_device_advances: "register_site_device d k n secret now = Inr (x, e) \<Longrightarrow> advances d e"
  by (auto simp: register_site_device_def split: if_splits intro: device_history.inserted)

lemma revoke_device_advances: "revoke_device d i now = Inr (x, e) \<Longrightarrow> advances d e"
  by (auto simp: revoke_device_def device_kept_def dest!: revoke_where_advances
      intro: advances_trans [OF device_history.updated])

lemma spend_link_advances:
  assumes "spend_link d k r replacement now e = Inr (token, d')" and "r \<in> set (t_refresh d)" and "rt_consumed_at r = None"
  shows "advances d d'"
proof (rule advancesI)
  assume d: "db_ok d"
  note spent = spend_link_Inr [OF assms(1,2)]
  show "db_ok d'" by (rule spent(2) [OF d])
  have "rt_consumed_at x = None" if "x \<in> set (t_refresh d)" "rt_id x = rt_id r" for x
    using refresh_table.same_key [OF db_okD(14) [OF d] that(1) assms(2) that(2)] assms(3) by simp
  then have "evolves link_kept (t_refresh d) (update_where (\<lambda>x. rt_id x = rt_id r)
      (\<lambda>x. x\<lparr>rt_consumed_at := Some now, rt_replaced_by := Some k\<rparr>) (t_refresh d))"
    by (intro evolves_update) (auto simp: link_kept_def)
  then show "kept d d'" unfolding spent(1) by (intro kept_table evolves_more)
qed

lemma rotate_refresh_token_advances:
  assumes "rotate_refresh_token d k presented rr now e = Inr (x, d')"
  shows "advances d d'"
proof (cases "db_ok d")
  case True
  then show ?thesis
    using assms presented_link_Some [OF True]
    by (auto simp: rotate_refresh_token_def split: option.splits if_splits intro: spend_link_advances)
qed (simp add: advances_def)

lemma burn_family_advances: "burn_family d k i now = Inr e \<Longrightarrow> advances d e"
  by (auto simp: burn_family_def dest!: revoke_where_advances record_revocation_advances intro: advances_trans)

lemma rotate_session_advances:
  assumes "rotate_session d k presented rr ra now ae re = Inr (x, d')"
  shows "advances d d'"
proof (cases "db_ok d")
  case True
  have swap: "advances e (e\<lparr>t_sessions := t\<rparr>)"
    if "sql_update (\<lambda>_. session_ok) session_clash (\<lambda>x. ss_id x = i \<and> ss_revoked_at x = None)
        (\<lambda>x. x\<lparr>ss_token_hash := Some ra, ss_expires_at := ae, ss_last_seen_at := Some now\<rparr>) (t_sessions e) = Inr t" for e t i
    by (rule session_history.updated [OF that]) (simp add: session_kept_def)
  show ?thesis
    using assms presented_link_Some [OF True]
    by (auto simp: rotate_session_def Let_def split: option.splits if_splits dest: burn_family_advances
        intro: advances_trans [OF spend_link_advances swap])
qed (simp add: advances_def)

lemma create_code_advances:
  assumes "create_code d k n = Inr (x, e)"
  shows "advances d e"
proof (rule advancesI)
  show "db_ok d \<Longrightarrow> db_ok e" by (rule create_code_Inr(2) [OF assms])
  show "kept d e"
    unfolding create_code_Inr(1) [OF assms]
    by (intro kept_table evolves_more evolves_update) (auto simp: code_kept_def pairing_pending_def)
qed

lemma kind_refused_advances:
  assumes "kind_refused d r k = Inr (x, e)" and "pairing_pending r" and "r \<in> set (t_pairing d)"
  shows "advances d e"
proof -
  have "advances d (d\<lparr>t_pairing := t\<rparr>)"
    if "sql_update (\<lambda>_. pairing_ok) pairing_clash (\<lambda>x. pc_id x = pc_id r \<and> pc_failed_attempts x < 5)
          (\<lambda>x. x\<lparr>pc_failed_attempts := pc_failed_attempts x + 1\<rparr>) (t_pairing d) = Inr t" for t
  proof (rule code_history.updated [OF that])
    fix x
    assume "db_ok d" "x \<in> set (t_pairing d)" "pc_id x = pc_id r \<and> pc_failed_attempts x < 5"
    then have "x = r" using pairing_table.same_key [OF db_okD(18) _ assms(3)] by blast
    then show "code_kept x (x\<lparr>pc_failed_attempts := pc_failed_attempts x + 1\<rparr>)"
      using assms(2) by (simp add: code_kept_def)
  qed
  then show ?thesis using assms(1) by (auto simp: kind_refused_def split: option.splits if_splits)
qed

lemma redeem_pairing_advances:
  assumes "redeem_pairing d ids q = Inr (x, e)"
  shows "advances d e"
proof -
  have consume: "advances d' (d'\<lparr>t_pairing := t\<rparr>)"
    if "sql_update (\<lambda>_. pairing_ok) pairing_clash
          (\<lambda>x. pc_id x = i \<and> pc_consumed_at x = None \<and> pc_superseded_at x = None)
          (\<lambda>x. x\<lparr>pc_consumed_at := Some now, pc_consumed_by := Some j\<rparr>) (t_pairing d') = Inr t" for d' t i j now
    by (rule code_history.updated [OF that]) (simp add: code_kept_def pairing_pending_def)
  have first: "advances d d1" if "kind_refused d r k = Inr (y, d1)"
    "fetch_optional (acceptable (pr_presented q) (pr_now q)) (t_pairing d) = Some r" for r k y d1
    by (rule kind_refused_advances [OF that(1)]) (use fetch_optional_SomeD [OF that(2)] acceptable_pending in auto)
  show ?thesis
    using assms
    by (cases ids)
      (auto simp: redeem_pairing_def Let_def split: option.splits if_splits
        dest!: register_site_device_advances consume create_session_advances issue_refresh_token_advances first,
       (meson advances_trans)+)
qed

lemma issue_sign_in_advances: "issue_sign_in d k c n = Inr (x, e) \<Longrightarrow> advances d e"
  by (cases c) (auto simp: issue_sign_in_def split: if_splits intro: sign_in_history.inserted)

lemma redeem_sign_in_advances:
  assumes "redeem_sign_in sha256 base64url d q = Inr (x, e)"
  shows "advances d e"
proof -
  have "advances d (d\<lparr>t_sign_in := t\<rparr>)"
    if "sql_update (\<lambda>_. sign_in_ok) sign_in_clash (redeemable c (sr_now q)) (\<lambda>r. r\<lparr>sg_consumed_at := Some (sr_now q)\<rparr>)
          (t_sign_in d) = Inr t" for c t
    by (rule sign_in_history.updated [OF that]) (simp add: sign_in_kept_def redeemable_def)
  then show ?thesis
    using assms by (auto simp: redeem_sign_in_def Let_def split: option.splits if_splits)
qed

lemma receive_relay_advances:
  assumes "receive_relay d k p g s out now ttl = Inr (x, e)"
  shows "advances d e"
proof -
  obtain t where t: "sql_insert relay_ok relay_clash (relay_row_of k p g s out now ttl) (t_relays d) = Inr t"
    and e: "e = d\<lparr>t_relays := t\<rparr>"
    using assms by (auto simp: receive_relay_def)
  show ?thesis
    using relays_table.insert_ok [OF t] t e
    by (intro advancesI) (auto simp: sql_insert_Inr intro!: kept_table dest: db_okD(22))
qed

lemma claim_relay_advances:
  assumes "claim_relay d i held now = Inr (x, e)"
  shows "advances d e"
proof -
  have "advances d (d\<lparr>t_relays := t\<rparr>)"
    if "sql_update (\<lambda>_. relay_ok) relay_clash (\<lambda>x. rl_id x = j \<and> rl_claimed_at x = None)
          (\<lambda>x. x\<lparr>rl_claimed_at := Some now, rl_code := None\<rparr>) (t_relays d) = Inr t" for t j
    using that relays_table.update_ok [OF that]
    by (intro advancesI) (auto simp: sql_update_Inr set_update_where intro!: kept_table dest: db_okD(22))
  then show ?thesis
    using assms by (auto simp: claim_relay_def split: option.splits)
qed

lemma collect_expired_relays_advances: "collect_expired_relays d now = (n, e) \<Longrightarrow> advances d e"
  by (rule advancesI)
    (auto simp: collect_expired_relays_def Let_def intro!: kept_table relays_table.delete_ok dest: db_okD(22))

lemma redeem_assertion_advances:
  assumes "redeem_assertion d k c u now = Inr (x, e)"
  shows "advances d e"
proof -
  obtain b t where t: "sql_insert_or_ignore assertion_ok assertion_nonce_clash assertion_clash
      (assertion_row_of k c u now) (t_assertions d) = Inr (b, t)" and e: "e = d\<lparr>t_assertions := t\<rparr>"
    using assms by (auto simp: redeem_assertion_def split: if_splits)
  show ?thesis
    using assertions_table.insert_or_ignore_ok [OF t] t e
    by (intro advancesI) (auto simp: sql_insert_or_ignore_Inr intro!: kept_table dest: db_okD(21) split: if_splits)
qed

lemma audit_record_advances: "audit_record d a now = Inr e \<Longrightarrow> advances d e"
  using audit_record_Inr [of d a now e] by (intro advancesI) (auto intro: kept_table)

lemma collect_audit_before_advances: "collect_audit_before scan d before limit = (n, e) \<Longrightarrow> advances d e"
  by (rule advancesI)
    (auto simp: collect_audit_before_def split: prod.splits intro!: kept_table
      dest: audit_table.delete_limited_ok db_okD(17))

subsection \<open>Histories\<close>

text \<open>
  One committed call. Functions that answer a refusal beside the database commit it too, which is the most a
  caller can do; a call that fails is rolled back and is no step.
\<close>

inductive identity_step ::
  "(string \<Rightarrow> digest) \<Rightarrow> (digest \<Rightarrow> string) \<Rightarrow> (audit_row list \<Rightarrow> audit_row list) \<Rightarrow> db \<Rightarrow> db \<Rightarrow> bool"
  for sha256 base64url scan where
  step_create_user: "create_user d k now = Inr (x1, e) \<Longrightarrow> identity_step sha256 base64url scan d e"
| step_set_user_status: "set_user_status d i st now = Inr (x2, e) \<Longrightarrow> identity_step sha256 base64url scan d e"
| step_link: "link_external_identity d k u provider external now = Inr (x3, e) \<Longrightarrow> identity_step sha256 base64url scan d e"
| step_grant: "grant d k u capability now expires = Inr (x4, e) \<Longrightarrow> identity_step sha256 base64url scan d e"
| step_revoke_grant: "revoke_grant d u capability now = Inr (x5, e) \<Longrightarrow> identity_step sha256 base64url scan d e"
| step_record_revocation: "record_revocation d k subj i reason by_whom now = Inr (x6, e) \<Longrightarrow> identity_step sha256 base64url scan d e"
| step_create_session: "create_session d k n = Inr (x7, e) \<Longrightarrow> identity_step sha256 base64url scan d e"
| step_revoke_session: "revoke_session d i now = Inr (x8, e) \<Longrightarrow> identity_step sha256 base64url scan d e"
| step_revoke_all: "revoke_all_sessions_of_user d u now = Inr (x9, e) \<Longrightarrow> identity_step sha256 base64url scan d e"
| step_revoke_site: "revoke_site_sessions d owner site now = Inr (x10, e) \<Longrightarrow> identity_step sha256 base64url scan d e"
| step_touch: "touch_last_seen d i dev now interval = (x11, e) \<Longrightarrow> identity_step sha256 base64url scan d e"
| step_issue_link: "issue_refresh_token d k i token now until = Inr (x12, e) \<Longrightarrow> identity_step sha256 base64url scan d e"
| step_rotate_link: "rotate_refresh_token d k presented rr now until = Inr (x13, e) \<Longrightarrow> identity_step sha256 base64url scan d e"
| step_rotate_session: "rotate_session d k presented rr ra now ae re = Inr (x14, e) \<Longrightarrow> identity_step sha256 base64url scan d e"
| step_register_device: "register_site_device d k nd secret now = Inr (x15, e) \<Longrightarrow> identity_step sha256 base64url scan d e"
| step_revoke_device: "revoke_device d i now = Inr (x16, e) \<Longrightarrow> identity_step sha256 base64url scan d e"
| step_create_code: "create_code d k np = Inr (x17, e) \<Longrightarrow> identity_step sha256 base64url scan d e"
| step_redeem_code: "redeem_pairing d ids q = Inr (x18, e) \<Longrightarrow> identity_step sha256 base64url scan d e"
| step_issue_sign_in: "issue_sign_in d k c ns = Inr (x19, e) \<Longrightarrow> identity_step sha256 base64url scan d e"
| step_redeem_sign_in: "redeem_sign_in sha256 base64url d sq = Inr (x20, e) \<Longrightarrow> identity_step sha256 base64url scan d e"
| step_receive: "receive_relay d k provider cap state outcome now ttl = Inr (x21, e) \<Longrightarrow> identity_step sha256 base64url scan d e"
| step_claim: "claim_relay d i held now = Inr (x22, e) \<Longrightarrow> identity_step sha256 base64url scan d e"
| step_collect_relays: "collect_expired_relays d now = (x23, e) \<Longrightarrow> identity_step sha256 base64url scan d e"
| step_assertion: "redeem_assertion d k claims u now = Inr (x24, e) \<Longrightarrow> identity_step sha256 base64url scan d e"
| step_audit: "audit_record d a now = Inr e \<Longrightarrow> identity_step sha256 base64url scan d e"
| step_collect_audit: "collect_audit_before scan d before limit = (x25, e) \<Longrightarrow> identity_step sha256 base64url scan d e"

lemma step_advances: "identity_step sha256 base64url scan d e \<Longrightarrow> advances d e"
  by (induction rule: identity_step.induct)
    (erule create_user_advances set_user_status_advances link_external_identity_advances grant_advances
      revoke_grant_advances record_revocation_advances create_session_advances revoke_session_advances
      revoke_all_sessions_of_user_advances revoke_site_sessions_advances touch_last_seen_advances
      issue_refresh_token_advances rotate_refresh_token_advances rotate_session_advances
      register_site_device_advances revoke_device_advances create_code_advances redeem_pairing_advances
      issue_sign_in_advances redeem_sign_in_advances receive_relay_advances claim_relay_advances
      collect_expired_relays_advances redeem_assertion_advances audit_record_advances
      collect_audit_before_advances)+

lemma history_advances: "(identity_step sha256 base64url scan)\<^sup>*\<^sup>* d e \<Longrightarrow> advances d e"
  by (induction rule: rtranclp_induct) (auto dest: step_advances intro: advances_trans)

lemma history_kept:
  assumes "(identity_step sha256 base64url scan)\<^sup>*\<^sup>* d e" and "db_ok d"
  shows "db_ok e" and "kept d e"
  using history_advances [OF assms(1)] assms(2) by (simp_all add: advances_def)

lemma kept_session: "kept d e \<Longrightarrow> x \<in> set (t_sessions d) \<Longrightarrow> \<exists>y \<in> set (t_sessions e). session_kept x y"
  and kept_link: "kept d e \<Longrightarrow> l \<in> set (t_refresh d) \<Longrightarrow> \<exists>y \<in> set (t_refresh e). link_kept l y"
  and kept_code: "kept d e \<Longrightarrow> c \<in> set (t_pairing d) \<Longrightarrow> \<exists>y \<in> set (t_pairing e). code_kept c y"
  and kept_identity: "kept d e \<Longrightarrow> i \<in> set (t_identities d) \<Longrightarrow> \<exists>y \<in> set (t_identities e). identity_kept i y"
  and kept_device: "kept d e \<Longrightarrow> v \<in> set (t_devices d) \<Longrightarrow> \<exists>y \<in> set (t_devices e). device_kept v y"
  and kept_assertion: "kept d e \<Longrightarrow> a \<in> set (t_assertions d) \<Longrightarrow> a \<in> set (t_assertions e)"
  by (auto simp: kept_def evolves_def)

text \<open>
  C3: a well-formed database stays well-formed along every history of the identity schema, and no
  history undoes anything: users, sessions, refresh links, devices, codes, provider identities and grants keep
  their rows and identity columns, whatever was revoked, consumed or superseded stays exactly as it ended, and
  nonces, revocations and claimed relays are never forgotten.
\<close>

theorem identity_history_is_never_undone:
  assumes "(identity_step sha256 base64url scan)\<^sup>*\<^sup>* d e" and "db_ok d"
  shows "db_ok e \<and> kept d e"
  using history_kept [OF assms] by blast

text \<open>
  A session that was revoked once authenticates with no credential after any further history, and its
  row never changes again.
\<close>

lemma revoked_session_never_returns:
  assumes "(identity_step sha256 base64url scan)\<^sup>*\<^sup>* d e" and "db_ok d"
    and "session_at d i = Some r" and "ss_revoked_at r \<noteq> None"
  shows "session_at e i = Some r \<and> (\<forall>s. authenticate e presented audience now = Some s \<longrightarrow> s_id s \<noteq> i)"
proof -
  note h = history_kept [OF assms(1,2)]
  have "r \<in> set (t_sessions d)" "ss_id r = i" using assms(3) by (simp_all add: session_at_iff [OF assms(2)])
  then have "session_at e i = Some r"
    using kept_session [OF h(2)] assms(4) by (auto simp: session_at_iff [OF h(1)] session_kept_def)
  then show ?thesis using revoked_never_authenticates [OF h(1) _ assms(4)] by blast
qed

text \<open>
  A refresh link that was spent once is answered as a replay after any further history, by both
  rotations, and never yields a successor again.
\<close>

lemma spent_link_is_always_a_replay:
  assumes "(identity_step sha256 base64url scan)\<^sup>*\<^sup>* d e" and "db_ok d"
    and "presented_link d presented = Some (r, s)" and "rt_consumed_at r \<noteq> None"
  shows "rotate_refresh_token e k presented rr now until = Inr (Inl ReplayedLink, e)
     \<and> (case rotate_session e k presented rr ra now ae re of
          Inl err \<Rightarrow> True
        | Inr (res, e') \<Rightarrow> res = Inl (RotationReplayed (rt_session r) (ss_user s)))"
proof -
  note h = history_kept [OF assms(1,2)]
  have r: "r \<in> set (t_refresh d)" "rt_token_hash r = presented" "s \<in> set (t_sessions d)" "ss_id s = rt_session r"
    using assms(3) by (simp_all add: presented_link_Some [OF assms(2)] session_at_iff [OF assms(2)])
  obtain y where y: "y \<in> set (t_sessions e)" "session_kept s y" using kept_session [OF h(2) r(3)] by blast
  have "r \<in> set (t_refresh e)" using kept_link [OF h(2) r(1)] assms(4) by (auto simp: link_kept_def)
  then have "presented_link e presented = Some (r, y)"
    using y r by (simp add: presented_link_Some [OF h(1)] session_at_iff [OF h(1)] session_kept_def)
  then show ?thesis
    using assms(4) y(2)
    by (auto simp: rotate_refresh_token_def rotate_session_def session_kept_def bindE_def split: sum.splits)
qed

text \<open>
  A provider identity never moves: the user it was first linked to is found under it after any further
  history, whatever other users it is linked for.
\<close>

lemma provider_identity_never_moves:
  assumes "(identity_step sha256 base64url scan)\<^sup>*\<^sup>* d e" and "db_ok d"
    and "find_user_by_external_identity d provider external = Some user"
  shows "find_user_by_external_identity e provider external = Some user"
proof -
  let ?p = "\<lambda>r. idn_provider r = provider_str provider \<and> idn_external r = external"
  note h = history_kept [OF assms(1,2)]
  obtain x where x: "fetch_optional ?p (t_identities d) = Some x" "idn_user x = user"
    using assms(3) by (auto simp: find_user_by_external_identity_def)
  then obtain y where y: "y \<in> set (t_identities e)" "?p y" "idn_user y = user"
    using kept_identity [OF h(2)] fetch_optional_SomeD [OF x(1)] by (metis identity_kept_def)
  then obtain z where z: "fetch_optional ?p (t_identities e) = Some z" using fetch_optional_None by (metis (mono_tags, lifting) not_None_eq)
  have "z = y"
    by (rule identities_table.unclashing [OF db_okD(20) [OF h(1)]])
      (use fetch_optional_SomeD [OF z] y in \<open>simp_all add: identity_clash_def identity_name_clash_def\<close>)
  then show ?thesis using z y(3) by (simp add: find_user_by_external_identity_def)
qed

text \<open>A history of the example: one more user is registered.\<close>

lemma example_history:
  "\<exists>e. (identity_step example_sha256 example_base64url rev)\<^sup>*\<^sup>* identity_example e
     \<and> length (t_users e) = 2"
proof -
  have "case create_user identity_example 2 60 of Inr (_, e) \<Rightarrow> length (t_users e) = 2 | Inl _ \<Rightarrow> False" by code_simp
  then obtain u e where c: "create_user identity_example 2 60 = Inr (u, e)" and l: "length (t_users e) = 2"
    by (auto split: sum.splits prod.splits)
  from step_create_user [OF c] have "identity_step example_sha256 example_base64url rev identity_example e" .
  then show ?thesis using l by blast
qed

theorem identity_history_is_never_undone_witness:
  "\<exists>e. length (t_users e) = 2 \<and> db_ok e \<and> kept identity_example e"
proof -
  obtain e where h: "(identity_step example_sha256 example_base64url rev)\<^sup>*\<^sup>* identity_example e" "length (t_users e) = 2"
    using example_history by blast
  from identity_history_is_never_undone [OF h(1) identity_example_ok] h(2) show ?thesis by blast
qed

lemma revoked_session_never_returns_witness:
  "\<exists>e. length (t_users e) = 2 \<and> session_at e 12 = Some example_old_session"
proof -
  obtain e where h: "(identity_step example_sha256 example_base64url rev)\<^sup>*\<^sup>* identity_example e" "length (t_users e) = 2"
    using example_history by blast
  have "session_at identity_example 12 = Some example_old_session" "ss_revoked_at example_old_session \<noteq> None"
    by code_simp+
  from revoked_session_never_returns [OF h(1) identity_example_ok this] h(2) show ?thesis by blast
qed

lemma spent_link_is_always_a_replay_witness:
  "\<exists>e. length (t_users e) = 2
     \<and> rotate_refresh_token e 99 (example_digest 3) (example_digest 17) 100 2000 = Inr (Inl ReplayedLink, e)"
proof -
  obtain e where h: "(identity_step example_sha256 example_base64url rev)\<^sup>*\<^sup>* identity_example e" "length (t_users e) = 2"
    using example_history by blast
  have "rt_consumed_at example_spent_link \<noteq> None" by code_simp
  from spent_link_is_always_a_replay [OF h(1) identity_example_ok example_presented this] h(2) show ?thesis by blast
qed

lemma provider_identity_never_moves_witness:
  "\<exists>e. length (t_users e) = 2 \<and> find_user_by_external_identity e Telegram ''42'' = Some 1"
proof -
  obtain e where h: "(identity_step example_sha256 example_base64url rev)\<^sup>*\<^sup>* identity_example e" "length (t_users e) = 2"
    using example_history by blast
  have "find_user_by_external_identity identity_example Telegram ''42'' = Some 1" by code_simp
  from provider_identity_never_moves [OF h(1) identity_example_ok this] h(2) show ?thesis by blast
qed

end
