(* ===== verification/Faults.thy ===== *)
theory Faults
  imports Prelude
begin

text \<open>
  \<^verbatim>\<open>crates/core/src/error.rs\<close>, \<^verbatim>\<open>crates/http/src/fault.rs\<close> and the rendering half of \<^verbatim>\<open>observe.rs\<close>: the
  closed table of public failures, and what the one middleware of a public listener puts in the place
  of a failing response. An internal failure carries its diagnostics as text; a response carries the
  markers that the code keeps in its extensions.
\<close>

subsection \<open>The table\<close>

datatype failure_kind =
    RouteNotFound | MethodNotAllowed | PayloadTooLarge | RequestTimeout | NotAuthenticated | Forbidden
  | CapabilityNotGranted | NotFound | InvalidRequest | MissingIdempotencyKey | IdempotencyConflict
  | ManifestDigestStale | SiteHostnameTaken | RateLimited | Overloaded | UpstreamUnavailable
  | UpstreamInvalidResponse | UpstreamTimeout

definition all_kinds :: "failure_kind list" where
  "all_kinds = [RouteNotFound, MethodNotAllowed, PayloadTooLarge, RequestTimeout, NotAuthenticated, Forbidden,
     CapabilityNotGranted, NotFound, InvalidRequest, MissingIdempotencyKey, IdempotencyConflict,
     ManifestDigestStale, SiteHostnameTaken, RateLimited, Overloaded, UpstreamUnavailable,
     UpstreamInvalidResponse, UpstreamTimeout]"

definition unauthored_kinds :: "failure_kind list" where
  "unauthored_kinds = [RouteNotFound, MethodNotAllowed, PayloadTooLarge, RequestTimeout, InvalidRequest]"

record public_fault =
  pf_status :: nat
  pf_code :: string
  pf_message :: string
  pf_retryable :: bool

fun fault_of :: "failure_kind \<Rightarrow> public_fault" where
  "fault_of RouteNotFound = \<lparr>pf_status = 404, pf_code = ''platform.route.not_found'',
     pf_message = ''No such resource.'', pf_retryable = False\<rparr>"
| "fault_of MethodNotAllowed = \<lparr>pf_status = 405, pf_code = ''platform.route.method_not_allowed'',
     pf_message = ''That method is not allowed for this resource.'', pf_retryable = False\<rparr>"
| "fault_of PayloadTooLarge = \<lparr>pf_status = 413, pf_code = ''platform.request.payload_too_large'',
     pf_message = ''The request body exceeds the permitted size.'', pf_retryable = False\<rparr>"
| "fault_of RequestTimeout = \<lparr>pf_status = 504, pf_code = ''platform.request.timeout'',
     pf_message = ''The request took too long and was abandoned.'', pf_retryable = True\<rparr>"
| "fault_of NotAuthenticated = \<lparr>pf_status = 401, pf_code = ''platform.auth.unauthenticated'',
     pf_message = ''Authentication is required.'', pf_retryable = False\<rparr>"
| "fault_of Forbidden = \<lparr>pf_status = 403, pf_code = ''platform.auth.forbidden'',
     pf_message = ''You are not allowed to perform this action.'', pf_retryable = False\<rparr>"
| "fault_of CapabilityNotGranted = \<lparr>pf_status = 403, pf_code = ''edge.capability_not_granted'',
     pf_message = ''This credential does not grant this capability.'', pf_retryable = False\<rparr>"
| "fault_of NotFound = \<lparr>pf_status = 404, pf_code = ''platform.resource.not_found'',
     pf_message = ''No such resource.'', pf_retryable = False\<rparr>"
| "fault_of InvalidRequest = \<lparr>pf_status = 400, pf_code = ''platform.request.invalid'',
     pf_message = ''The request body is not valid for this endpoint.'', pf_retryable = False\<rparr>"
| "fault_of MissingIdempotencyKey = \<lparr>pf_status = 400, pf_code = ''platform.request.idempotency_key_required'',
     pf_message = ''This endpoint requires an Idempotency-Key header.'', pf_retryable = False\<rparr>"
| "fault_of IdempotencyConflict = \<lparr>pf_status = 409, pf_code = ''platform.request.idempotency_conflict'',
     pf_message = ''That idempotency key is in use for a different request.'', pf_retryable = False\<rparr>"
| "fault_of ManifestDigestStale = \<lparr>pf_status = 409, pf_code = ''platform.site.manifest_digest_stale'',
     pf_message = ''The manifest is not the active manifest of the site.'', pf_retryable = False\<rparr>"
| "fault_of SiteHostnameTaken = \<lparr>pf_status = 409, pf_code = ''platform.site.hostname_taken'',
     pf_message = ''Another approved site has this hostname.'', pf_retryable = False\<rparr>"
| "fault_of RateLimited = \<lparr>pf_status = 429, pf_code = ''platform.limit.rate_exceeded'',
     pf_message = ''Too many requests. Slow down and try again.'', pf_retryable = True\<rparr>"
| "fault_of Overloaded = \<lparr>pf_status = 503, pf_code = ''platform.limit.overloaded'',
     pf_message = ''The service is busy. Try again shortly.'', pf_retryable = True\<rparr>"
| "fault_of UpstreamUnavailable = \<lparr>pf_status = 503, pf_code = ''edge.upstream_unavailable'',
     pf_message = ''The requested service is temporarily unavailable.'', pf_retryable = True\<rparr>"
| "fault_of UpstreamInvalidResponse = \<lparr>pf_status = 502, pf_code = ''edge.upstream_invalid_response'',
     pf_message = ''The requested service returned an invalid response.'', pf_retryable = True\<rparr>"
| "fault_of UpstreamTimeout = \<lparr>pf_status = 504, pf_code = ''edge.upstream_timeout'',
     pf_message = ''The requested service took too long to respond.'', pf_retryable = True\<rparr>"

definition internal_fault :: public_fault where
  "internal_fault = \<lparr>pf_status = 500, pf_code = ''platform.internal.error'',
     pf_message = ''The request could not be completed.'', pf_retryable = False\<rparr>"

datatype subsystem = ConfigSubsystem | TelemetrySubsystem | HttpSubsystem | PersistenceSubsystem

datatype platform_error = Rejected failure_kind | InternalError subsystem string

fun fault :: "platform_error \<Rightarrow> public_fault" where
  "fault (Rejected kind) = fault_of kind"
| "fault (InternalError _ _) = internal_fault"

definition error_status :: "platform_error \<Rightarrow> nat" where
  "error_status e = pf_status (fault e)"

definition from_status :: "nat \<Rightarrow> platform_error option" where
  "from_status status = map_option Rejected (find (\<lambda>kind. pf_status (fault_of kind) = status) unauthored_kinds)"

subsection \<open>Responses\<close>

record fault_envelope =
  fe_code :: string
  fe_message :: string
  fe_retryable :: bool
  fe_correlation :: string
  fe_trace :: "string option"

datatype http_body = RawBody string | EnvelopeBody fault_envelope

record http_response =
  hr_status :: nat
  hr_body :: http_body
  hr_retry_after :: "string option"
  hr_correlation :: "string option"
  hr_panic :: "string option"
  hr_authored :: "failure_kind option"
  hr_preserved :: bool

definition plain_response :: "nat \<Rightarrow> http_body \<Rightarrow> http_response" where
  "plain_response status body = \<lparr>hr_status = status, hr_body = body, hr_retry_after = None, hr_correlation = None,
     hr_panic = None, hr_authored = None, hr_preserved = False\<rparr>"

definition reject :: "failure_kind \<Rightarrow> http_response" where
  "reject kind = (plain_response (pf_status (fault_of kind)) (RawBody []))\<lparr>hr_authored := Some kind\<rparr>"

definition panic_response :: "string \<Rightarrow> http_response" where
  "panic_response payload = (plain_response 500 (RawBody []))\<lparr>hr_panic := Some payload\<rparr>"

definition preserve_contract_error :: "http_response \<Rightarrow> http_response" where
  "preserve_contract_error r = r\<lparr>hr_preserved := True\<rparr>"

text \<open>\<open>status_text\<close> renders a status for the log record of an unmapped one.\<close>

definition classify :: "(nat \<Rightarrow> string) \<Rightarrow> http_response \<Rightarrow> platform_error" where
  "classify status_text r =
     (case hr_panic r of
        Some payload \<Rightarrow> InternalError HttpSubsystem (''a request handler panicked: '' @ payload)
      | None \<Rightarrow>
          (case hr_authored r of
             Some kind \<Rightarrow> Rejected kind
           | None \<Rightarrow>
               (case from_status (hr_status r) of
                  Some e \<Rightarrow> e
                | None \<Rightarrow> InternalError HttpSubsystem (''no failure kind maps to status '' @ status_text (hr_status r)))))"

record request_context =
  rc_correlation :: string
  rc_trace :: "string option"

definition render :: "platform_error \<Rightarrow> request_context \<Rightarrow> http_response" where
  "render e ctx =
     (let f = fault e
      in plain_response (pf_status f) (EnvelopeBody
           \<lparr>fe_code = pf_code f, fe_message = pf_message f, fe_retryable = pf_retryable f,
            fe_correlation = rc_correlation ctx, fe_trace = rc_trace ctx\<rparr>))"

definition observed :: "(nat \<Rightarrow> string) \<Rightarrow> request_context \<Rightarrow> http_response \<Rightarrow> http_response" where
  "observed status_text ctx r =
     (let shown = (if 400 \<le> hr_status r \<and> \<not> hr_preserved r
                   then (render (classify status_text r) ctx)\<lparr>hr_retry_after := hr_retry_after r\<rparr>
                   else r)
      in shown\<lparr>hr_correlation := Some (rc_correlation ctx)\<rparr>)"

subsection \<open>The table is closed\<close>

lemma in_all_kinds [simp]: "kind \<in> set all_kinds"
  by (cases kind) (simp_all add: all_kinds_def)

lemma fault_of_status: "400 \<le> pf_status (fault_of kind)" "pf_status (fault_of kind) \<noteq> 500"
  by (cases kind; simp)+

text \<open>
  The codes of the table are pairwise different and none is the internal one; a status alone
  names a failure exactly when no handler authored it; and the public projection of an error repeats as
  retryable only the failures whose status is 429 or a 5xx other than 500.
\<close>

lemma fault_table_is_unambiguous:
  "(pf_code (fault_of k) = pf_code (fault_of l)) = (k = l)
   \<and> pf_code (fault_of k) \<noteq> pf_code internal_fault
   \<and> (from_status (pf_status (fault_of k)) = Some (Rejected k)) = (k \<in> set unauthored_kinds)
   \<and> pf_retryable (fault e) = (error_status e = 429 \<or> 500 < error_status e)"
proof -
  have codes: "distinct (map (pf_code \<circ> fault_of) all_kinds)" by code_simp
  have "inj_on (pf_code \<circ> fault_of) (set all_kinds)" using codes by (simp only: distinct_map)
  then have inj: "(pf_code (fault_of k) = pf_code (fault_of l)) = (k = l)"
    by (metis comp_apply in_all_kinds inj_on_eq_iff)
  have "pf_code (fault_of k) \<noteq> pf_code internal_fault"
    by (cases k) (simp_all add: internal_fault_def)
  moreover have "(from_status (pf_status (fault_of k)) = Some (Rejected k)) = (k \<in> set unauthored_kinds)"
    by (cases k) (simp_all add: from_status_def unauthored_kinds_def)
  moreover have "pf_retryable (fault e) = (error_status e = 429 \<or> 500 < error_status e)"
  proof (cases e)
    case (Rejected kind)
    then show ?thesis by (cases kind) (simp_all add: error_status_def)
  qed (simp add: error_status_def internal_fault_def)
  ultimately show ?thesis using inj by auto
qed

subsection \<open>What leaves the listener\<close>

text \<open>
  Every response carries the correlation of its request; a failing one that was not validated as a
  contract envelope leaves with a body, a status and a code of the table, and the time to wait if
  one was set. Nothing of the handler's body, of a panic or of an unmapped status reaches the client:
  two responses with the same status and the same named failure that both panicked or both did not
  are the same to it.
\<close>

lemma diagnostics_never_leave:
  assumes "400 \<le> hr_status r" and "\<not> hr_preserved r" and "\<not> hr_preserved q" and "hr_status q = hr_status r"
    and "hr_authored q = hr_authored r" and "hr_retry_after q = hr_retry_after r"
    and "(hr_panic q = None) = (hr_panic r = None)"
  shows "(\<exists>f \<in> insert internal_fault (range fault_of). hr_status (observed status_text ctx r) = pf_status f
        \<and> hr_body (observed status_text ctx r) = EnvelopeBody
            \<lparr>fe_code = pf_code f, fe_message = pf_message f, fe_retryable = pf_retryable f,
             fe_correlation = rc_correlation ctx, fe_trace = rc_trace ctx\<rparr>)
     \<and> hr_retry_after (observed status_text ctx r) = hr_retry_after r
     \<and> hr_correlation (observed status_text ctx r) = Some (rc_correlation ctx)
     \<and> observed status_text ctx q = observed other_text ctx r"
proof -
  have "fault e \<in> insert internal_fault (range fault_of)" for e
    by (cases e) simp_all
  then have "\<exists>f \<in> insert internal_fault (range fault_of). hr_status (observed status_text ctx r) = pf_status f
        \<and> hr_body (observed status_text ctx r) = EnvelopeBody
            \<lparr>fe_code = pf_code f, fe_message = pf_message f, fe_retryable = pf_retryable f,
             fe_correlation = rc_correlation ctx, fe_trace = rc_trace ctx\<rparr>"
    by (rule bexI [rotated]) (use assms(1,2) in \<open>simp add: observed_def render_def plain_response_def Let_def\<close>)
  moreover have "fault (classify status_text q) = fault (classify other_text r)"
    using assms(4,5,7) by (auto simp: classify_def split: option.splits)
  then have "observed status_text ctx q = observed other_text ctx r"
    using assms(1-4,6) by (simp add: observed_def render_def Let_def)
  moreover have "hr_retry_after (observed status_text ctx r) = hr_retry_after r"
    using assms(1,2) by (simp add: observed_def Let_def)
  ultimately show ?thesis by (simp add: observed_def Let_def)
qed

lemma diagnostics_never_leave_witness:
  "observed (\<lambda>_. ''500'') \<lparr>rc_correlation = ''c'', rc_trace = None\<rparr> (panic_response ''password'')
     = observed (\<lambda>_. []) \<lparr>rc_correlation = ''c'', rc_trace = None\<rparr> (panic_response ''other'')"
proof -
  have "400 \<le> hr_status (panic_response ''other'')" "\<not> hr_preserved (panic_response ''other'')"
    "\<not> hr_preserved (panic_response ''password'')"
    "hr_status (panic_response ''password'') = hr_status (panic_response ''other'')"
    "hr_authored (panic_response ''password'') = hr_authored (panic_response ''other'')"
    "hr_retry_after (panic_response ''password'') = hr_retry_after (panic_response ''other'')"
    "(hr_panic (panic_response ''password'') = None) = (hr_panic (panic_response ''other'') = None)"
    by (simp_all add: panic_response_def plain_response_def)
  from diagnostics_never_leave [OF this] show ?thesis by blast
qed

end
