(* ===== verification/Readiness.thy ===== *)
theory Readiness
  imports Faults
begin

text \<open>
  \<^verbatim>\<open>crates/http/src/lifecycle.rs\<close>, the readiness answer of \<^verbatim>\<open>admin.rs\<close> and \<^verbatim>\<open>crates/core/src/role.rs\<close>:
  the facts of a process that readiness is computed from. An atomic cell is a field, and every setter
  is one step; the gauge is the field \<open>ru_published\<close>. The clock is read before a setter and passed in.
\<close>

subsection \<open>Roles\<close>

datatype runtime_role = Edge | Ingest | Scheduler

fun role_str :: "runtime_role \<Rightarrow> string" where
  "role_str Edge = ''edge''"
| "role_str Ingest = ''ingest''"
| "role_str Scheduler = ''scheduler''"

fun binary_name :: "runtime_role \<Rightarrow> string" where
  "binary_name Edge = ''ratatoskr-edge''"
| "binary_name Ingest = ''ratatoskr-ingest''"
| "binary_name Scheduler = ''ratatoskr-scheduler''"

definition may_have_public_listener :: "runtime_role \<Rightarrow> bool" where
  "may_have_public_listener r \<longleftrightarrow> r = Edge \<or> r = Ingest"

fun default_admin_port :: "runtime_role \<Rightarrow> 16 word" where
  "default_admin_port Edge = 9464"
| "default_admin_port Ingest = 9465"
| "default_admin_port Scheduler = 9466"

fun default_public_port :: "runtime_role \<Rightarrow> 16 word option" where
  "default_public_port Edge = Some 8080"
| "default_public_port Ingest = None"
| "default_public_port Scheduler = None"

subsection \<open>Checks\<close>

datatype check_name =
    ArchiveChatgptReceipt | ArchiveChatgptReport | ArchiveClaudeReceipt | ArchiveClaudeReport
  | ArchiveStaging | BusCheck | DatabaseCheck | DrainCheck | StartupCheck

text \<open>The derived order of the variants is the order of their declaration.\<close>

fun check_index :: "check_name \<Rightarrow> nat" where
  "check_index ArchiveChatgptReceipt = 0"
| "check_index ArchiveChatgptReport = 1"
| "check_index ArchiveClaudeReceipt = 2"
| "check_index ArchiveClaudeReport = 3"
| "check_index ArchiveStaging = 4"
| "check_index BusCheck = 5"
| "check_index DatabaseCheck = 6"
| "check_index DrainCheck = 7"
| "check_index StartupCheck = 8"

lemma check_index_inject: "check_index x = check_index y \<Longrightarrow> x = y"
  by (cases x; cases y) simp_all

instantiation check_name :: linorder
begin

definition less_eq_check_name :: "check_name \<Rightarrow> check_name \<Rightarrow> bool" where
  "less_eq_check_name x y \<longleftrightarrow> check_index x \<le> check_index y"

definition less_check_name :: "check_name \<Rightarrow> check_name \<Rightarrow> bool" where
  "less_check_name x y \<longleftrightarrow> check_index x < check_index y"

instance
  by standard (auto simp: less_eq_check_name_def less_check_name_def intro: check_index_inject)

end

definition gates_readiness :: "check_name \<Rightarrow> bool" where
  "gates_readiness n \<longleftrightarrow> n \<notin> {ArchiveChatgptReceipt, ArchiveChatgptReport, ArchiveClaudeReceipt, ArchiveClaudeReport}"

datatype check_reason = StartupIncomplete | ShutdownRequested | DependencyUnavailable

record check =
  ck_name :: check_name
  ck_pass :: bool
  ck_reason :: "check_reason option"

subsection \<open>The state of a process\<close>

text \<open>Three values and not two: a dependency that is not configured is not one that is down.\<close>

datatype dependency = DepAbsent | DepUp | DepDown

definition set_dependency :: "bool \<Rightarrow> dependency" where
  "set_dependency ready = (if ready then DepUp else DepDown)"

record runtime_state =
  ru_role :: runtime_role
  ru_started :: bool
  ru_draining :: bool
  ru_database :: dependency
  ru_database_observed_at :: int
  ru_bus :: dependency
  ru_bus_observed_at :: int
  ru_staging :: dependency
  ru_chatgpt_receipt :: dependency
  ru_chatgpt_report :: dependency
  ru_claude_receipt :: dependency
  ru_claude_report :: dependency
  ru_published :: bool

definition dependency_check :: "check_name \<Rightarrow> dependency \<Rightarrow> check list" where
  "dependency_check n dep = (case dep of
     DepAbsent \<Rightarrow> []
   | _ \<Rightarrow> [\<lparr>ck_name = n, ck_pass = (dep = DepUp), ck_reason = (if dep = DepUp then None else Some DependencyUnavailable)\<rparr>])"

definition unsorted_checks :: "runtime_state \<Rightarrow> check list" where
  "unsorted_checks s =
     [\<lparr>ck_name = DrainCheck, ck_pass = (\<not> ru_draining s),
        ck_reason = (if ru_draining s then Some ShutdownRequested else None)\<rparr>,
       \<lparr>ck_name = StartupCheck, ck_pass = ru_started s,
        ck_reason = (if ru_started s then None else Some StartupIncomplete)\<rparr>]
      @ dependency_check DatabaseCheck (ru_database s)
      @ dependency_check BusCheck (ru_bus s)
      @ dependency_check ArchiveChatgptReceipt (ru_chatgpt_receipt s)
      @ dependency_check ArchiveChatgptReport (ru_chatgpt_report s)
      @ dependency_check ArchiveClaudeReceipt (ru_claude_receipt s)
      @ dependency_check ArchiveClaudeReport (ru_claude_report s)
      @ dependency_check ArchiveStaging (ru_staging s)"

definition checks :: "runtime_state \<Rightarrow> check list" where
  "checks s = sort_key ck_name (unsorted_checks s)"

definition is_ready :: "runtime_state \<Rightarrow> bool" where
  "is_ready s \<longleftrightarrow> ru_started s \<and> \<not> ru_draining s
     \<and> list_all (\<lambda>c. gates_readiness (ck_name c) \<longrightarrow> ck_pass c) (checks s)"

definition publish_readiness :: "runtime_state \<Rightarrow> runtime_state" where
  "publish_readiness s = s\<lparr>ru_published := is_ready s\<rparr>"

definition new_runtime :: "runtime_role \<Rightarrow> runtime_state" where
  "new_runtime role = publish_readiness
     \<lparr>ru_role = role, ru_started = False, ru_draining = False, ru_database = DepAbsent,
      ru_database_observed_at = 0, ru_bus = DepAbsent, ru_bus_observed_at = 0, ru_staging = DepAbsent,
      ru_chatgpt_receipt = DepAbsent, ru_chatgpt_report = DepAbsent, ru_claude_receipt = DepAbsent,
      ru_claude_report = DepAbsent, ru_published = False\<rparr>"

subsection \<open>What changes it\<close>

definition mark_startup_complete :: "runtime_state \<Rightarrow> runtime_state" where
  "mark_startup_complete s = publish_readiness (s\<lparr>ru_started := True\<rparr>)"

definition set_database_reachable :: "bool \<Rightarrow> int \<Rightarrow> runtime_state \<Rightarrow> runtime_state" where
  "set_database_reachable reachable now s = publish_readiness
     (s\<lparr>ru_database_observed_at := (if reachable then now else ru_database_observed_at s),
        ru_database := set_dependency reachable\<rparr>)"

definition set_bus_reachable :: "bool \<Rightarrow> int \<Rightarrow> runtime_state \<Rightarrow> runtime_state" where
  "set_bus_reachable reachable now s = publish_readiness
     (s\<lparr>ru_bus_observed_at := (if reachable then now else ru_bus_observed_at s), ru_bus := set_dependency reachable\<rparr>)"

definition set_archive_staging_ready :: "bool \<Rightarrow> runtime_state \<Rightarrow> runtime_state" where
  "set_archive_staging_ready ready s = publish_readiness (s\<lparr>ru_staging := set_dependency ready\<rparr>)"

definition set_archive_receipt_ready :: "string \<Rightarrow> bool \<Rightarrow> runtime_state \<Rightarrow> runtime_state" where
  "set_archive_receipt_ready provider ready s =
     (if provider = ''chatgpt'' then publish_readiness (s\<lparr>ru_chatgpt_receipt := set_dependency ready\<rparr>)
      else if provider = ''claude'' then publish_readiness (s\<lparr>ru_claude_receipt := set_dependency ready\<rparr>)
      else s)"

definition set_archive_report_ready :: "string \<Rightarrow> bool \<Rightarrow> runtime_state \<Rightarrow> runtime_state" where
  "set_archive_report_ready provider ready s =
     (if provider = ''chatgpt'' then publish_readiness (s\<lparr>ru_chatgpt_report := set_dependency ready\<rparr>)
      else if provider = ''claude'' then publish_readiness (s\<lparr>ru_claude_report := set_dependency ready\<rparr>)
      else s)"

definition begin_draining :: "runtime_state \<Rightarrow> runtime_state" where
  "begin_draining s = publish_readiness (s\<lparr>ru_draining := True\<rparr>)"

subsection \<open>What reads it\<close>

definition reachable_of :: "dependency \<Rightarrow> bool option" where
  "reachable_of dep = (case dep of DepAbsent \<Rightarrow> None | _ \<Rightarrow> Some (dep = DepUp))"

definition database_reachable :: "runtime_state \<Rightarrow> bool option" where
  "database_reachable s = reachable_of (ru_database s)"

definition bus_reachable :: "runtime_state \<Rightarrow> bool option" where
  "bus_reachable s = reachable_of (ru_bus s)"

definition observed_at :: "int \<Rightarrow> instant option" where
  "observed_at micros = (if micros \<noteq> 0 then Some micros else None)"

definition archive_provider_ready :: "runtime_state \<Rightarrow> string \<Rightarrow> bool" where
  "archive_provider_ready s provider \<longleftrightarrow> ru_staging s = DepUp
     \<and> (if provider = ''chatgpt'' then ru_chatgpt_receipt s = DepUp \<and> ru_chatgpt_report s = DepUp
        else provider = ''claude'' \<and> ru_claude_receipt s = DepUp \<and> ru_claude_report s = DepUp)"

text \<open>The status and the state of \<^verbatim>\<open>GET /health/ready\<close>.\<close>

definition ready_answer :: "runtime_state \<Rightarrow> nat \<times> string \<times> check list" where
  "ready_answer s = (if is_ready s then 200 else 503, if is_ready s then ''ready'' else ''not_ready'', checks s)"

subsection \<open>Readiness\<close>

lemmas setters = mark_startup_complete_def set_database_reachable_def set_bus_reachable_def
  set_archive_staging_ready_def set_archive_receipt_ready_def set_archive_report_ready_def begin_draining_def
  publish_readiness_def set_dependency_def

lemma set_dependency_check: "set (dependency_check n dep) = (if dep = DepAbsent then {}
    else {\<lparr>ck_name = n, ck_pass = (dep = DepUp), ck_reason = (if dep = DepUp then None else Some DependencyUnavailable)\<rparr>})"
  by (cases dep) (simp_all add: dependency_check_def)

lemma set_checks: "set (checks s) = set (unsorted_checks s)"
  by (simp add: checks_def)

lemma dependency_check_names: "map ck_name (dependency_check n dep) = (if dep = DepAbsent then [] else [n])"
  by (cases dep) (simp_all add: dependency_check_def)

lemma distinct_check_names: "distinct (map ck_name (checks s))"
proof -
  have "distinct (map ck_name (unsorted_checks s))"
    unfolding unsorted_checks_def map_append dependency_check_names by simp
  then show ?thesis by (simp add: distinct_map checks_def)
qed

lemma is_ready_iff:
  "is_ready s \<longleftrightarrow> ru_started s \<and> \<not> ru_draining s \<and> ru_database s \<noteq> DepDown \<and> ru_bus s \<noteq> DepDown \<and> ru_staging s \<noteq> DepDown"
  by (cases "ru_database s"; cases "ru_bus s"; cases "ru_staging s")
    (auto simp: is_ready_def set_checks unsorted_checks_def list_all_iff set_dependency_check gates_readiness_def)

lemma published_irrelevant [simp]: "is_ready (s\<lparr>ru_published := b\<rparr>) = is_ready s"
  by (simp add: is_ready_iff)

text \<open>
  The answer of the readiness route is 200 exactly when the process started, does not drain and none of
  the database, the bus and the staging root that it uses is down: no state of an archive receiver decides it. The
  checks it lists are in ascending order without repetition, and the failing ones are those with a reason.
\<close>

lemma readiness_is_the_gating_checks:
  "(fst (ready_answer s) = 200 \<longleftrightarrow> ru_started s \<and> \<not> ru_draining s
       \<and> database_reachable s \<noteq> Some False \<and> bus_reachable s \<noteq> Some False \<and> ru_staging s \<noteq> DepDown)
   \<and> sorted_wrt (<) (map ck_name (snd (snd (ready_answer s))))
   \<and> list_all (\<lambda>c. ck_pass c = (ck_reason c = None)) (snd (snd (ready_answer s)))"
proof -
  have "sorted_wrt (<) (map ck_name (checks s))"
    using distinct_check_names by (simp add: strict_sorted_iff checks_def)
  moreover have "list_all (\<lambda>c. ck_pass c = (ck_reason c = None)) (checks s)"
    by (auto simp: list_all_iff set_checks unsorted_checks_def set_dependency_check split: if_splits)
  moreover have "fst (ready_answer s) = 200 \<longleftrightarrow> ru_started s \<and> \<not> ru_draining s
       \<and> database_reachable s \<noteq> Some False \<and> bus_reachable s \<noteq> Some False \<and> ru_staging s \<noteq> DepDown"
    by (cases "ru_database s"; cases "ru_bus s")
      (simp_all add: ready_answer_def is_ready_iff database_reachable_def bus_reachable_def reachable_of_def)
  ultimately show ?thesis by (simp add: ready_answer_def)
qed

inductive runtime_step :: "runtime_state \<Rightarrow> runtime_state \<Rightarrow> bool" where
  step_startup: "runtime_step s (mark_startup_complete s)"
| step_database: "runtime_step s (set_database_reachable up now s)"
| step_bus: "runtime_step s (set_bus_reachable up now s)"
| step_staging: "runtime_step s (set_archive_staging_ready up s)"
| step_receipt: "runtime_step s (set_archive_receipt_ready provider up s)"
| step_report: "runtime_step s (set_archive_report_ready provider up s)"
| step_drain: "runtime_step s (begin_draining s)"

lemma runtime_step_facts:
  assumes "runtime_step s t"
  shows "ru_draining s \<Longrightarrow> ru_draining t" and "ru_published s = is_ready s \<Longrightarrow> ru_published t = is_ready t"
    and "ru_role t = ru_role s"
  using assms by (induction rule: runtime_step.induct) (simp_all add: setters)

text \<open>
  After any history of a process the gauge shows its readiness, its role is the one it was built with, and
  once a shutdown began no later probe makes it ready again.
\<close>

lemma drain_is_final:
  assumes "runtime_step\<^sup>*\<^sup>* (new_runtime role) s" and "runtime_step\<^sup>*\<^sup>* (begin_draining s) t"
  shows "ru_published s = is_ready s \<and> ru_published t = is_ready t \<and> ru_role t = role
    \<and> \<not> is_ready t \<and> fst (ready_answer t) = 503"
proof -
  have "ru_published s = is_ready s \<and> ru_role s = role"
    using assms(1)
  proof (induction rule: rtranclp_induct)
    case base
    show ?case unfolding new_runtime_def publish_readiness_def published_irrelevant by simp
  next
    case (step t u)
    then show ?case using runtime_step_facts(2,3) [OF step(2)] by simp
  qed
  moreover have "ru_draining t \<and> ru_published t = is_ready t \<and> ru_role t = ru_role s"
    using assms(2)
  proof (induction rule: rtranclp_induct)
    case base
    show ?case by (simp add: begin_draining_def publish_readiness_def)
  next
    case (step t u)
    then show ?case using runtime_step_facts [OF step(2)] by simp
  qed
  ultimately show ?thesis by (simp add: ready_answer_def is_ready_iff)
qed

lemma drain_is_final_witness:
  "is_ready (mark_startup_complete (new_runtime Edge))
   \<and> \<not> is_ready (set_database_reachable True 5 (begin_draining (mark_startup_complete (new_runtime Edge))))"
proof -
  have "runtime_step\<^sup>*\<^sup>* (new_runtime Edge) (mark_startup_complete (new_runtime Edge))"
    by (rule r_into_rtranclp) (rule step_startup)
  moreover have "runtime_step\<^sup>*\<^sup>* (begin_draining (mark_startup_complete (new_runtime Edge)))
      (set_database_reachable True 5 (begin_draining (mark_startup_complete (new_runtime Edge))))"
    by (rule r_into_rtranclp) (rule step_database)
  ultimately have "\<not> is_ready (set_database_reachable True 5 (begin_draining (mark_startup_complete (new_runtime Edge))))"
    using drain_is_final by blast
  then show ?thesis by (simp add: is_ready_iff setters new_runtime_def)
qed

end
