(* ===== verification/Throttle.thy ===== *)
theory Throttle
  imports Complex_Main Faults "HOL-Library.AList"
begin

text \<open>
  \<^verbatim>\<open>crates/http/src/limit.rs\<close>: the per-actor token buckets and the concurrency bound of a listener. A
  table of buckets is a list of keys and values with distinct keys. The tokens, an \<^verbatim>\<open>f64\<close> in the code,
  are rational numbers, so rounding is not modelled; elapsed time is cut to whole seconds where the code
  does. The poisoned mutex, which admits, is not modelled.
\<close>

subsection \<open>Buckets\<close>

record bucket =
  bk_tokens :: rat
  bk_at :: instant

definition max_tracked_actors :: nat where
  "max_tracked_actors = 10000"

record actor_limiter =
  al_per_minute :: rat
  al_buckets :: "(uuid \<times> bucket) list"

definition new_limiter :: "32 word \<Rightarrow> actor_limiter" where
  "new_limiter per_minute = \<lparr>al_per_minute = of_nat (max (unat per_minute) 1), al_buckets = []\<rparr>"

text \<open>\<open>as_secs\<close> of a duration truncates towards zero; a negative one counts as none.\<close>

definition elapsed_secs :: "instant \<Rightarrow> instant \<Rightarrow> int" where
  "elapsed_secs since now = max 0 ((now - since) div 1000000)"

definition refill :: "bucket \<Rightarrow> rat \<Rightarrow> instant \<Rightarrow> rat" where
  "refill b per_minute now = min (bk_tokens b + of_int (elapsed_secs (bk_at b) now) * per_minute / 60) per_minute"

definition spend :: "rat \<Rightarrow> (uuid \<times> bucket) list \<Rightarrow> uuid \<Rightarrow> instant \<Rightarrow> bool \<times> (uuid \<times> bucket) list" where
  "spend per_minute bs actor now =
     (let b = (case map_of bs actor of Some b \<Rightarrow> b | None \<Rightarrow> \<lparr>bk_tokens = per_minute, bk_at = now\<rparr>);
          tokens = refill b per_minute now
      in if tokens < 1 then (False, AList.update actor \<lparr>bk_tokens = tokens, bk_at = now\<rparr> bs)
         else (True, AList.update actor \<lparr>bk_tokens = tokens - 1, bk_at = now\<rparr> bs))"

definition reclaimed :: "rat \<Rightarrow> instant \<Rightarrow> (uuid \<times> bucket) list \<Rightarrow> (uuid \<times> bucket) list" where
  "reclaimed per_minute now bs = filter (\<lambda>(_, b). refill b per_minute now < per_minute) bs"

definition admit :: "actor_limiter \<Rightarrow> uuid \<Rightarrow> instant \<Rightarrow> bool \<times> actor_limiter" where
  "admit l actor now =
     (let pm = al_per_minute l; bs = al_buckets l
      in if map_of bs actor = None \<and> max_tracked_actors \<le> length bs then
           let kept = reclaimed pm now bs
           in if max_tracked_actors \<le> length kept then (False, l\<lparr>al_buckets := kept\<rparr>)
              else let (ok, bs') = spend pm kept actor now in (ok, l\<lparr>al_buckets := bs'\<rparr>)
         else let (ok, bs') = spend pm bs actor now in (ok, l\<lparr>al_buckets := bs'\<rparr>))"

text \<open>A run of calls: the limiter it leaves and the answers it gave, in order.\<close>

fun admits :: "actor_limiter \<Rightarrow> (uuid \<times> instant) list \<Rightarrow> bool list \<times> actor_limiter" where
  "admits l [] = ([], l)"
| "admits l ((actor, now) # calls) =
     (let (ok, l1) = admit l actor now; (oks, l2) = admits l1 calls in (ok # oks, l2))"

subsection \<open>What an actor has left\<close>

text \<open>The allowance of an actor at an instant: a full burst when it has no bucket.\<close>

definition allowance :: "actor_limiter \<Rightarrow> uuid \<Rightarrow> instant \<Rightarrow> rat" where
  "allowance l actor now =
     (case map_of (al_buckets l) actor of
        Some b \<Rightarrow> refill b (al_per_minute l) now
      | None \<Rightarrow> al_per_minute l)"

definition limiter_ok :: "actor_limiter \<Rightarrow> bool" where
  "limiter_ok l \<longleftrightarrow> 1 \<le> al_per_minute l \<and> distinct (map fst (al_buckets l)) \<and> length (al_buckets l) \<le> max_tracked_actors
     \<and> (\<forall>b \<in> snd ` set (al_buckets l). 0 \<le> bk_tokens b \<and> bk_tokens b \<le> al_per_minute l)"

lemma new_limiter_ok: "limiter_ok (new_limiter n)"
  by (simp add: limiter_ok_def new_limiter_def)

lemma map_of_filter_value:
  "distinct (map fst xs) \<Longrightarrow> map_of (filter (\<lambda>(_, v). P v) xs) k = Option.bind (map_of xs k) (\<lambda>v. if P v then Some v else None)"
  by (induction xs) (auto simp: map_of_eq_None_iff image_iff split: if_splits)

lemma elapsed_secs_nonneg [simp]: "0 \<le> elapsed_secs since now"
  by (simp add: elapsed_secs_def)

lemma refill_le [simp]: "refill b pm now \<le> pm"
  by (simp add: refill_def)

lemma refill_nonneg: "0 \<le> bk_tokens b \<Longrightarrow> 0 \<le> pm \<Longrightarrow> 0 \<le> refill b pm now"
  by (simp add: refill_def)

lemma refill_same [simp]: "bk_tokens b \<le> pm \<Longrightarrow> bk_at b = now \<Longrightarrow> refill b pm now = bk_tokens b"
  by (simp add: refill_def elapsed_secs_def)

lemma length_alist_update: "length (AList.update k v xs) = length xs + (if map_of xs k = None then 1 else 0)"
  by (induction xs) auto

lemma spend_result:
  assumes "spend pm bs actor now = (ok, bs')" and "distinct (map fst bs)"
    and "\<forall>b \<in> snd ` set bs. 0 \<le> bk_tokens b \<and> bk_tokens b \<le> pm" and "1 \<le> pm"
  defines "left \<equiv> (case map_of bs actor of Some b \<Rightarrow> refill b pm now | None \<Rightarrow> pm)"
  shows "ok \<longleftrightarrow> 1 \<le> left"
    and "map_of bs' = (map_of bs)(actor \<mapsto> \<lparr>bk_tokens = left - (if ok then 1 else 0), bk_at = now\<rparr>)"
    and "distinct (map fst bs')" and "\<forall>b \<in> snd ` set bs'. 0 \<le> bk_tokens b \<and> bk_tokens b \<le> pm"
    and "length bs' = length bs + (if map_of bs actor = None then 1 else 0)"
proof -
  let ?b = "case map_of bs actor of Some b \<Rightarrow> b | None \<Rightarrow> \<lparr>bk_tokens = pm, bk_at = now\<rparr>"
  let ?new = "\<lparr>bk_tokens = left - (if ok then 1 else 0), bk_at = now\<rparr>"
  have left: "refill ?b pm now = left" by (simp add: left_def split: option.splits)
  have ok: "ok \<longleftrightarrow> 1 \<le> left" and bs': "bs' = AList.update actor ?new bs"
    using assms(1) by (auto simp: spend_def Let_def left not_less split: if_splits)
  show "ok \<longleftrightarrow> 1 \<le> left" by (rule ok)
  show "map_of bs' = (map_of bs)(actor \<mapsto> ?new)" by (simp add: bs' update_conv')
  show d: "distinct (map fst bs')" using assms(2) by (simp add: bs' distinct_update)
  have "0 \<le> left" "left \<le> pm"
    using assms(3,4) by (auto simp: left_def intro!: refill_nonneg dest!: map_of_SomeD split: option.splits)
  then have new: "0 \<le> bk_tokens ?new \<and> bk_tokens ?new \<le> pm" using ok by auto
  show "\<forall>b \<in> snd ` set bs'. 0 \<le> bk_tokens b \<and> bk_tokens b \<le> pm"
  proof
    fix b
    assume "b \<in> snd ` set bs'"
    then obtain k where "map_of bs' k = Some b" using d by (auto simp: map_of_eq_Some_iff)
    then have "b = ?new \<or> map_of bs k = Some b" by (auto simp: bs' update_conv' split: if_splits)
    then show "0 \<le> bk_tokens b \<and> bk_tokens b \<le> pm" using new assms(3) by (auto dest!: map_of_SomeD)
  qed
  show "length bs' = length bs + (if map_of bs actor = None then 1 else 0)"
    by (simp add: bs' length_alist_update)
qed

text \<open>What one call leaves: the caller's bucket is settled now, and no other actor loses anything.\<close>

lemma admit_result:
  assumes "limiter_ok l" and "admit l actor now = (ok, l')"
  shows "limiter_ok l'" and "al_per_minute l' = al_per_minute l"
    and "(\<not> ok \<and> map_of (al_buckets l) actor = None \<and> map_of (al_buckets l') actor = None)
         \<or> (map_of (al_buckets l') actor
              = Some \<lparr>bk_tokens = allowance l actor now - (if ok then 1 else 0), bk_at = now\<rparr>
            \<and> ok = (1 \<le> allowance l actor now))"
    and "a \<noteq> actor \<Longrightarrow> map_of (al_buckets l') a = map_of (al_buckets l) a
         \<or> (map_of (al_buckets l') a = None
            \<and> (\<exists>b. map_of (al_buckets l) a = Some b \<and> refill b (al_per_minute l) now = al_per_minute l))"
proof -
  let ?pm = "al_per_minute l" and ?bs = "al_buckets l"
  define kept where "kept = reclaimed ?pm now ?bs"
  have l: "1 \<le> ?pm" "distinct (map fst ?bs)" "length ?bs \<le> max_tracked_actors"
    "\<forall>b \<in> snd ` set ?bs. 0 \<le> bk_tokens b \<and> bk_tokens b \<le> ?pm"
    using assms(1) by (simp_all add: limiter_ok_def)
  have kept: "distinct (map fst kept)" "\<forall>b \<in> snd ` set kept. 0 \<le> bk_tokens b \<and> bk_tokens b \<le> ?pm"
    "length kept \<le> max_tracked_actors"
    using l by (auto simp: kept_def reclaimed_def distinct_map_filter intro: order_trans [OF length_filter_le])
  have look: "map_of kept k = Option.bind (map_of ?bs k) (\<lambda>b. if refill b ?pm now < ?pm then Some b else None)" for k
    unfolding kept_def reclaimed_def by (rule map_of_filter_value [OF l(2)])
  have gone: "map_of kept k = map_of ?bs k \<or> (map_of kept k = None
      \<and> (\<exists>b. map_of ?bs k = Some b \<and> refill b ?pm now = ?pm))" for k
    using look [of k] refill_le [of _ ?pm now] by (cases "map_of ?bs k") (auto simp: less_le)
  consider (full) "map_of ?bs actor = None" "\<not> ok" "l' = l\<lparr>al_buckets := kept\<rparr>"
    | (room) bs' where "map_of ?bs actor = None" "length kept < max_tracked_actors" "spend ?pm kept actor now = (ok, bs')"
        "l' = l\<lparr>al_buckets := bs'\<rparr>"
    | (plain) bs' where "map_of ?bs actor \<noteq> None \<or> length ?bs < max_tracked_actors" "spend ?pm ?bs actor now = (ok, bs')"
        "l' = l\<lparr>al_buckets := bs'\<rparr>"
    using assms(2) by (auto simp: admit_def Let_def kept_def not_le split: if_splits prod.splits)
  then have "limiter_ok l' \<and> al_per_minute l' = ?pm
    \<and> ((\<not> ok \<and> map_of ?bs actor = None \<and> map_of (al_buckets l') actor = None)
         \<or> (map_of (al_buckets l') actor
              = Some \<lparr>bk_tokens = allowance l actor now - (if ok then 1 else 0), bk_at = now\<rparr>
            \<and> ok = (1 \<le> allowance l actor now)))
    \<and> (a \<noteq> actor \<longrightarrow> map_of (al_buckets l') a = map_of ?bs a
         \<or> (map_of (al_buckets l') a = None \<and> (\<exists>b. map_of ?bs a = Some b \<and> refill b ?pm now = ?pm)))"
  proof cases
    case full
    then show ?thesis using l kept gone look by (simp add: limiter_ok_def)
  next
    case room
    then have none: "map_of kept actor = None" using look by simp
    note s = spend_result [OF room(3) kept(1,2) l(1)]
    show ?thesis
      using room(1,2,4) l(1) s none gone by (auto simp: limiter_ok_def allowance_def)
  next
    case plain
    note s = spend_result [OF plain(2) l(2,4,1)]
    have "length bs' \<le> max_tracked_actors" using plain(1) l(3) s(5) by auto
    then show ?thesis
      using plain(3) l(1) s by (auto simp: limiter_ok_def allowance_def)
  qed
  then show "limiter_ok l'" and "al_per_minute l' = ?pm"
    and "(\<not> ok \<and> map_of ?bs actor = None \<and> map_of (al_buckets l') actor = None)
         \<or> (map_of (al_buckets l') actor
              = Some \<lparr>bk_tokens = allowance l actor now - (if ok then 1 else 0), bk_at = now\<rparr>
            \<and> ok = (1 \<le> allowance l actor now))"
    and "a \<noteq> actor \<Longrightarrow> map_of (al_buckets l') a = map_of ?bs a
         \<or> (map_of (al_buckets l') a = None \<and> (\<exists>b. map_of ?bs a = Some b \<and> refill b ?pm now = ?pm))"
    by auto
qed

subsection \<open>The rate is a bound\<close>

text \<open>The tokens an actor can have at most at an instant, with time counted continuously.\<close>

definition refilled :: "rat \<Rightarrow> int \<Rightarrow> rat" where
  "refilled per_minute micros = of_int micros * per_minute / 60000000"

lemma refilled_facts:
  assumes "0 \<le> pm"
  shows "0 \<le> n \<Longrightarrow> 0 \<le> refilled pm n" and "m \<le> n \<Longrightarrow> refilled pm m \<le> refilled pm n"
    and "refilled pm (m + n) = refilled pm m + refilled pm n"
proof -
  show mono: "refilled pm m \<le> refilled pm n" if "m \<le> n" for m n
  proof -
    have "of_int m * pm \<le> of_int n * pm" using assms that by (intro mult_right_mono) simp_all
    then show ?thesis by (simp add: refilled_def divide_right_mono)
  qed
  show "0 \<le> n \<Longrightarrow> 0 \<le> refilled pm n" using mono [of 0 n] by (simp add: refilled_def)
  show "refilled pm (m + n) = refilled pm m + refilled pm n" by (simp add: refilled_def distrib_right add_divide_distrib)
qed

definition potential :: "actor_limiter \<Rightarrow> uuid \<Rightarrow> instant \<Rightarrow> rat" where
  "potential l actor now =
     (case map_of (al_buckets l) actor of
        Some b \<Rightarrow> min (al_per_minute l)
           (bk_tokens b + refilled (al_per_minute l) (max 0 (now - bk_at b)))
      | None \<Rightarrow> al_per_minute l)"

lemma elapsed_secs_le: "of_int (elapsed_secs since now) \<le> (of_int (max 0 (now - since)) / 1000000 :: rat)"
proof -
  have "x div 1000000 * 1000000 \<le> x" for x :: int
    by (simp add: minus_mod_eq_div_mult [symmetric])
  from this [of "now - since"] have "elapsed_secs since now * 1000000 \<le> max 0 (now - since)"
    by (simp add: elapsed_secs_def max_def)
  then have "(of_int (elapsed_secs since now * 1000000) :: rat) \<le> of_int (max 0 (now - since))"
    by (simp only: of_int_le_iff)
  then show ?thesis by (simp add: field_simps)
qed

lemma min_shift:
  fixes x y z p b :: rat
  shows "x \<le> y \<Longrightarrow> min (b + x) p \<le> min p (b + y)"
    and "x \<le> y + z \<Longrightarrow> 0 \<le> z \<Longrightarrow> min p (b + x) \<le> min p (b + y) + z"
  by (auto simp: min_def)

lemma allowance_le_potential:
  assumes "limiter_ok l"
  shows "allowance l actor now \<le> potential l actor now"
proof (cases "map_of (al_buckets l) actor")
  case None
  then show ?thesis by (simp add: allowance_def potential_def)
next
  case (Some b)
  have "of_int (elapsed_secs (bk_at b) now) * (al_per_minute l / 60)
      \<le> of_int (max 0 (now - bk_at b)) / 1000000 * (al_per_minute l / 60)"
    using assms by (intro mult_right_mono elapsed_secs_le) (simp add: limiter_ok_def)
  then have "of_int (elapsed_secs (bk_at b) now) * al_per_minute l / 60
      \<le> refilled (al_per_minute l) (max 0 (now - bk_at b))"
    by (simp add: refilled_def)
  then show ?thesis by (simp only: Some allowance_def potential_def refill_def option.case min_shift(1))
qed

lemma potential_bounds:
  assumes "limiter_ok l"
  shows "0 \<le> potential l actor now" and "potential l actor now \<le> al_per_minute l"
  using assms
  by (auto simp: potential_def limiter_ok_def split: option.splits dest!: map_of_SomeD
      intro!: add_nonneg_nonneg refilled_facts(1))

lemma potential_later:
  assumes "limiter_ok l" and "t \<le> u"
  shows "potential l actor u \<le> potential l actor t + refilled (al_per_minute l) (u - t)"
proof (cases "map_of (al_buckets l) actor")
  case None
  then show ?thesis using assms by (simp add: potential_def limiter_ok_def refilled_facts(1))
next
  case (Some b)
  have pm: "1 \<le> al_per_minute l" using assms(1) by (simp add: limiter_ok_def)
  have "max 0 (u - bk_at b) \<le> max 0 (t - bk_at b) + (u - t)" using assms(2) by linarith
  then have "refilled (al_per_minute l) (max 0 (u - bk_at b))
      \<le> refilled (al_per_minute l) (max 0 (t - bk_at b)) + refilled (al_per_minute l) (u - t)"
    using refilled_facts(2,3) [of "al_per_minute l"] pm by (metis order_trans zero_le_one)
  moreover have "0 \<le> refilled (al_per_minute l) (u - t)" using refilled_facts(1) pm assms(2) by simp
  ultimately show ?thesis unfolding potential_def Some option.case by (rule min_shift(2))
qed

lemma admit_spends:
  assumes "limiter_ok l" and "admit l actor now = (ok, l')"
  shows "potential l' a now \<le> potential l a now - (if ok \<and> a = actor then 1 else 0)"
proof (cases "a = actor")
  case True
  have zero: "refilled pm 0 = 0" for pm by (simp add: refilled_def)
  from admit_result(3) [OF assms] show ?thesis
  proof
    assume "\<not> ok \<and> map_of (al_buckets l) actor = None \<and> map_of (al_buckets l') actor = None"
    then show ?thesis using admit_result(2) [OF assms] by (simp add: True potential_def)
  next
    assume a: "map_of (al_buckets l') actor
        = Some \<lparr>bk_tokens = allowance l actor now - (if ok then 1 else 0), bk_at = now\<rparr>
      \<and> ok = (1 \<le> allowance l actor now)"
    then have "potential l' actor now \<le> allowance l actor now - (if ok then 1 else 0)"
      by (simp add: potential_def zero)
    then show ?thesis using allowance_le_potential [OF assms(1), of actor now] by (simp add: True split: if_splits)
  qed
next
  case False
  note rate = admit_result(2) [OF assms]
  from admit_result(4) [OF assms False] show ?thesis
  proof
    assume "map_of (al_buckets l') a = map_of (al_buckets l) a"
    then have "potential l' a now = potential l a now"
      using rate by (simp add: potential_def split: option.split)
    then show ?thesis using False by simp
  next
    assume "map_of (al_buckets l') a = None \<and>
      (\<exists>b. map_of (al_buckets l) a = Some b \<and> refill b (al_per_minute l) now = al_per_minute l)"
    then have "potential l' a now = al_per_minute l" "allowance l a now = al_per_minute l"
      using rate by (auto simp: potential_def allowance_def)
    then show ?thesis using allowance_le_potential [OF assms(1), of a now] False by simp
  qed
qed

definition granted :: "uuid \<Rightarrow> (uuid \<times> instant) list \<Rightarrow> bool list \<Rightarrow> nat" where
  "granted actor calls oks = length (filter (\<lambda>(c, ok). fst c = actor \<and> ok) (zip calls oks))"

lemma admits_bounded:
  assumes "limiter_ok l" and "sorted (map snd calls)" and "\<forall>c \<in> set calls. t \<le> snd c \<and> snd c \<le> u" and "t \<le> u"
    and "admits l calls = (oks, l')"
  shows "of_nat (granted actor calls oks) \<le> potential l actor t + refilled (al_per_minute l) (u - t)"
  using assms
proof (induction calls arbitrary: l t oks)
  case Nil
  have "0 \<le> refilled (al_per_minute l) (u - t)"
    using Nil.prems(1,4) by (simp add: limiter_ok_def refilled_facts(1))
  then show ?case using Nil.prems potential_bounds(1) [OF Nil.prems(1), of actor t] by (simp add: granted_def)
next
  case (Cons c calls)
  obtain a now where c: "c = (a, now)" by (cases c)
  obtain ok l1 oks' where s: "admit l a now = (ok, l1)" "admits l1 calls = (oks', l')" "oks = ok # oks'"
    using Cons.prems(5) by (auto simp: c Let_def split: prod.splits)
  have t: "t \<le> now" "now \<le> u" using Cons.prems(3) by (simp_all add: c)
  have "of_nat (granted actor calls oks') \<le> potential l1 actor now + refilled (al_per_minute l1) (u - now)"
  proof (rule Cons.IH [OF admit_result(1) [OF Cons.prems(1) s(1)] _ _ t(2) s(2)])
    show "sorted (map snd calls)" using Cons.prems(2) by simp
    show "\<forall>c \<in> set calls. now \<le> snd c \<and> snd c \<le> u" using Cons.prems(2,3) by (auto simp: c)
  qed
  moreover have "potential l1 actor now \<le> potential l actor now - (if ok \<and> actor = a then 1 else 0)"
    by (rule admit_spends [OF Cons.prems(1) s(1)])
  moreover have "potential l actor now \<le> potential l actor t + refilled (al_per_minute l) (now - t)"
    by (rule potential_later [OF Cons.prems(1) t(1)])
  moreover have "al_per_minute l1 = al_per_minute l" by (rule admit_result(2) [OF Cons.prems(1) s(1)])
  moreover have "of_nat (granted actor (c # calls) oks)
      = (if ok \<and> actor = a then 1 else 0) + (of_nat (granted actor calls oks') :: rat)"
    by (simp add: granted_def c s(3))
  moreover have "refilled (al_per_minute l) (u - t)
      = refilled (al_per_minute l) (now - t) + refilled (al_per_minute l) (u - now)"
    using refilled_facts(3) [of "al_per_minute l" "now - t" "u - now"] Cons.prems(1) by (simp add: limiter_ok_def)
  ultimately show ?case by (simp split: if_splits)
qed



subsection \<open>Waiting and hurrying\<close>

fun hurried :: "instant \<Rightarrow> instant list \<Rightarrow> bool" where
  "hurried t [] = True"
| "hurried t (u # us) = (u < t + seconds 1 \<and> hurried u us)"

text \<open>
  An actor whose bucket refills a token in the time it waits is admitted; but elapsed time is cut to
  whole seconds and a refusal restarts it, so an actor with no token that asks again within every second
  is refused for as long as it goes on, however long that is.
\<close>

lemma hurried_actor_is_refused_forever:
  assumes "limiter_ok l" and "map_of (al_buckets l) actor = Some b" and "bk_tokens b < 1"
  shows "(60 \<le> of_int (elapsed_secs (bk_at b) now) * al_per_minute l \<longrightarrow> fst (admit l actor now))
    \<and> (hurried (bk_at b) asked \<longrightarrow>
        fst (admits l (map (Pair actor) asked)) = replicate (length asked) False)"
proof -
  have "0 \<le> bk_tokens b" "1 \<le> al_per_minute l"
    using assms(1,2) by (auto simp: limiter_ok_def dest!: map_of_SomeD)
  then have "fst (admit l actor now)" if "60 \<le> of_int (elapsed_secs (bk_at b) now) * al_per_minute l"
    using admit_result(3) [OF assms(1) surjective_pairing, of actor now] assms(2) that
    by (auto simp: allowance_def refill_def)
  moreover have "fst (admits l (map (Pair actor) asked)) = replicate (length asked) False"
    if "hurried (bk_at b) asked"
    using that assms
  proof (induction asked arbitrary: l b)
    case Nil
    then show ?case by simp
  next
    case (Cons t asked)
    obtain ok l1 where s: "admit l actor t = (ok, l1)" by fastforce
    have "elapsed_secs (bk_at b) t = 0"
      using Cons.prems(1) by (simp add: elapsed_secs_def seconds_def max_def)
    then have "allowance l actor t = min (bk_tokens b) (al_per_minute l)"
      using Cons.prems(3) by (simp add: allowance_def refill_def)
    then have low: "allowance l actor t < 1" using Cons.prems(4) by simp
    have r: "\<not> ok" "map_of (al_buckets l1) actor = Some \<lparr>bk_tokens = allowance l actor t, bk_at = t\<rparr>"
      using admit_result(3) [OF Cons.prems(2) s] low Cons.prems(3) by auto
    have "fst (admits l1 (map (Pair actor) asked)) = replicate (length asked) False"
      by (rule Cons.IH [OF _ admit_result(1) [OF Cons.prems(2) s] r(2)]) (use Cons.prems(1) low in simp_all)
    then show ?case using s r(1) by (auto simp: Let_def split: prod.splits)
  qed
  ultimately show ?thesis by blast
qed

lemma hurried_actor_is_refused_forever_witness:
  "fst (admits (snd (admit (new_limiter 1) 7 0)) (map (Pair 7) [900000, 1800000, 2700000])) = [False, False, False]"
proof -
  let ?l = "snd (admit (new_limiter 1) 7 0)"
  have "limiter_ok ?l" by (rule admit_result(1) [OF new_limiter_ok surjective_pairing])
  moreover have "map_of (al_buckets ?l) 7 = Some \<lparr>bk_tokens = 0, bk_at = 0\<rparr>"
    by (simp add: admit_def spend_def new_limiter_def refill_def elapsed_secs_def max_tracked_actors_def Let_def)
  ultimately show ?thesis
    using hurried_actor_is_refused_forever [of ?l 7 "\<lparr>bk_tokens = 0, bk_at = 0\<rparr>" 0 "[900000, 1800000, 2700000]"]
    by (simp add: seconds_def numeral_eq_Suc)
qed

subsection \<open>The concurrency bound\<close>

text \<open>
  Requests interleave: one arrives with \<open>fetch_add\<close>, goes on or is refused, and leaves when its guard is
  dropped, whether it was answered or its client went away. A refused request holds its slot until
  then. \<open>u32 as usize\<close> keeps the value.
\<close>

record concurrency =
  cc_in_flight :: nat
  cc_limit :: nat

definition new_concurrency :: "32 word \<Rightarrow> concurrency" where
  "new_concurrency bound = \<lparr>cc_in_flight = 0, cc_limit = max (unat bound) 1\<rparr>"

text \<open>Whether the request goes on, and the counter after its arrival.\<close>

definition shed_enter :: "concurrency \<Rightarrow> bool \<times> concurrency" where
  "shed_enter c = (cc_in_flight c < cc_limit c, c\<lparr>cc_in_flight := cc_in_flight c + 1\<rparr>)"

definition shed_leave :: "concurrency \<Rightarrow> concurrency" where
  "shed_leave c = c\<lparr>cc_in_flight := cc_in_flight c - 1\<rparr>"

inductive listening :: "32 word \<Rightarrow> nat \<Rightarrow> nat \<Rightarrow> concurrency \<Rightarrow> bool" for bound where
  listening_start: "listening bound 0 0 (new_concurrency bound)"
| listening_enter: "listening bound running refused c \<Longrightarrow> shed_enter c = (True, c') \<Longrightarrow>
    listening bound (running + 1) refused c'"
| listening_refuse: "listening bound running refused c \<Longrightarrow> shed_enter c = (False, c') \<Longrightarrow>
    listening bound running (refused + 1) c'"
| listening_done: "listening bound (running + 1) refused c \<Longrightarrow> listening bound running refused (shed_leave c)"
| listening_refused: "listening bound running (refused + 1) c \<Longrightarrow> listening bound running refused (shed_leave c)"

text \<open>
  Whatever the interleaving of arrivals, refusals and departures, no more requests run at once than the
  bound, the counter is exactly the requests that hold a slot, and a request is refused only when the
  bound is reached by those.
\<close>

lemma running_requests_are_bounded:
  assumes "listening bound running refused c"
  shows "cc_limit c = max (unat bound) 1 \<and> running \<le> max (unat bound) 1 \<and> cc_in_flight c = running + refused
    \<and> (fst (shed_enter c) \<longleftrightarrow> running + refused < max (unat bound) 1)"
  using assms
proof (induction rule: listening.induct)
  case listening_start
  then show ?case by (auto simp: new_concurrency_def shed_enter_def)
next
  case (listening_enter running refused c c')
  then show ?case by (auto simp: shed_enter_def)
next
  case (listening_refuse running refused c c')
  then show ?case by (auto simp: shed_enter_def)
next
  case (listening_done running refused c)
  then show ?case by (auto simp: shed_leave_def shed_enter_def)
next
  case (listening_refused running refused c)
  then show ?case by (auto simp: shed_leave_def shed_enter_def)
qed

lemma running_requests_are_bounded_witness:
  "\<exists>c. listening 1 1 1 c \<and> cc_in_flight c = 2"
proof -
  have "listening 1 1 1 \<lparr>cc_in_flight = 2, cc_limit = 1\<rparr>"
    using listening_refuse [OF listening_enter [OF listening_start]]
    by (simp add: shed_enter_def new_concurrency_def numeral_2_eq_2)
  from this running_requests_are_bounded [OF this] show ?thesis by auto
qed

end
