(* ===== verification/Principal.thy ===== *)
theory Principal
  imports Devices Throttle
begin

text \<open>
  \<^verbatim>\<open>crates/public-api/src/auth.rs\<close>: from a presented credential to the principal of a request. The
  extractor reads the clock three times; the readings are arguments. What it inserts into the request for a
  deploy route (\<open>DeployerSite\<close>) is the second component of its answer.
\<close>

record principal =
  pl_user :: uuid
  pl_session :: uuid
  pl_device :: "uuid option"
  pl_kind :: session_kind

text \<open>The part of the listener's state the extractor reads.\<close>

record auth_env =
  av_sha256 :: "string \<Rightarrow> digest"
  av_audience :: string

definition last_seen_interval :: int where
  "last_seen_interval = seconds 60"

definition deployer_site :: "db \<Rightarrow> bool \<Rightarrow> uuid \<Rightarrow> uuid \<Rightarrow> failure_kind + string option" where
  "deployer_site d deploy_route device_id user_id =
     (case find_device d device_id of
        None \<Rightarrow> Inl NotAuthenticated
      | Some x \<Rightarrow>
          if d_kind x \<noteq> SiteDeployer then Inr None
          else (case d_site x of
                  Some site \<Rightarrow> if d_user x = user_id \<and> is_active x \<and> deploy_route then Inr (Some site)
                               else Inl Forbidden
                | None \<Rightarrow> Inl Forbidden))"

text \<open>
  \<open>header\<close> is the \<^verbatim>\<open>Authorization\<close> header and \<open>deploy_route\<close> whether the dispatcher marked the request. A
  refusal before the limiter leaves the limiter as it was; a failed touch is only logged.
\<close>

definition from_request_parts ::
  "auth_env \<Rightarrow> actor_limiter \<Rightarrow> db \<Rightarrow> string option \<Rightarrow> bool \<Rightarrow> instant \<times> instant \<times> instant
     \<Rightarrow> (failure_kind + principal \<times> string option) \<times> actor_limiter \<times> db" where
  "from_request_parts env l d header deploy_route = (\<lambda>(now, admitted_at, touched_at).
     (case bearer (av_sha256 env) header of
        None \<Rightarrow> (Inl NotAuthenticated, l, d)
      | Some presented \<Rightarrow>
          (case authenticate d presented (av_audience env) now of
             None \<Rightarrow> (Inl NotAuthenticated, l, d)
           | Some s \<Rightarrow>
               (case (case s_device s of None \<Rightarrow> Inr None
                      | Some device_id \<Rightarrow> deployer_site d deploy_route device_id (s_user s)) of
                  Inl kind \<Rightarrow> (Inl kind, l, d)
                | Inr site \<Rightarrow>
                    (case admit l (s_user s) admitted_at of
                       (False, l') \<Rightarrow> (Inl RateLimited, l', d)
                     | (True, l') \<Rightarrow>
                         (Inr (\<lparr>pl_user = s_user s, pl_session = s_id s, pl_device = s_device s, pl_kind = s_kind s\<rparr>,
                               site),
                          l', snd (touch_last_seen d (s_id s) (s_device s) touched_at last_seen_interval)))))))"

subsection \<open>What a principal is\<close>

lemma deployer_site_Inr:
  assumes "deployer_site d deploy_route device_id user_id = Inr site"
  shows "\<exists>x. find_device d device_id = Some x \<and>
    (case site of None \<Rightarrow> d_kind x \<noteq> SiteDeployer
     | Some s \<Rightarrow> d_kind x = SiteDeployer \<and> d_site x = Some s \<and> d_user x = user_id \<and> is_active x \<and> deploy_route)"
  using assms by (auto simp: deployer_site_def split: option.splits if_splits)

lemma from_request_parts_Inr:
  assumes "from_request_parts env l d header deploy_route (now, admitted_at, touched_at) = (Inr (p, site), l', d')"
  shows "\<exists>presented s. bearer (av_sha256 env) header = Some presented
    \<and> authenticate d presented (av_audience env) now = Some s
    \<and> p = \<lparr>pl_user = s_user s, pl_session = s_id s, pl_device = s_device s, pl_kind = s_kind s\<rparr>
    \<and> (case s_device s of None \<Rightarrow> site = None
       | Some device_id \<Rightarrow> deployer_site d deploy_route device_id (s_user s) = Inr site)
    \<and> admit l (s_user s) admitted_at = (True, l')
    \<and> d' = snd (touch_last_seen d (s_id s) (s_device s) touched_at last_seen_interval)"
  using assms
  by (auto simp: from_request_parts_def split: option.splits sum.splits prod.splits bool.splits if_splits)

text \<open>
  C15: a request has a principal only through a live session of this audience, whose user has allowance
  left. A session of a deployer device is a principal only on a deploy route, for the one site the device
  was registered for, while the device is active and belongs to the user of the session; a session of any
  other device never carries a site.
\<close>

theorem principal_is_authenticated:
  assumes "db_ok d"
    and "from_request_parts env l d header deploy_route (now, admitted_at, touched_at) = (Inr (p, site), l', d')"
  shows "\<exists>r \<in> set (t_sessions d). \<exists>presented. bearer (av_sha256 env) header = Some presented
    \<and> ss_token_hash r = Some presented \<and> ss_audience r = av_audience env \<and> ss_revoked_at r = None
    \<and> now < ss_expires_at r \<and> pl_user p = ss_user r \<and> pl_session p = ss_id r \<and> pl_device p = ss_device r
    \<and> admit l (ss_user r) admitted_at = (True, l')
    \<and> (\<forall>x \<in> set (t_devices d). Some (dv_id x) = ss_device r \<longrightarrow>
         (if dv_kind x = ''site_deployer''
          then deploy_route \<and> site = dv_site x \<and> site \<noteq> None \<and> dv_user x = ss_user r \<and> dv_revoked_at x = None
          else site = None))"
proof -
  obtain presented s where p: "bearer (av_sha256 env) header = Some presented"
    and s: "authenticate d presented (av_audience env) now = Some s"
    and prin: "p = \<lparr>pl_user = s_user s, pl_session = s_id s, pl_device = s_device s, pl_kind = s_kind s\<rparr>"
    and site: "case s_device s of None \<Rightarrow> site = None
       | Some device_id \<Rightarrow> deployer_site d deploy_route device_id (s_user s) = Inr site"
    and a: "admit l (s_user s) admitted_at = (True, l')"
    using from_request_parts_Inr [OF assms(2)] by blast
  obtain r where r: "r \<in> set (t_sessions d)" "authenticates presented (av_audience env) now r" "s = session_from_row r"
    using s by (auto simp: authenticate_Some [OF assms(1)])
  have dev: "if dv_kind x = ''site_deployer''
          then deploy_route \<and> site = dv_site x \<and> site \<noteq> None \<and> dv_user x = ss_user r \<and> dv_revoked_at x = None
          else site = None" if x: "x \<in> set (t_devices d)" "Some (dv_id x) = ss_device r" for x
  proof -
    have "fetch_optional (\<lambda>y. dv_id y = dv_id x) (t_devices d) = Some x"
      using device_at_iff [OF assms(1), of "dv_id x" x] x(1) by (simp add: device_at_def)
    then have found: "find_device d (dv_id x) = Some \<lparr>d_id = dv_id x, d_user = dv_user x, d_kind = stored_device_kind x,
        d_display_name = dv_display_name x, d_site = dv_site x, d_created_at = dv_created_at x,
        d_revoked_at = dv_revoked_at x\<rparr>"
      by (simp add: find_device_def)
    have kind: "stored_device_kind x = SiteDeployer \<longleftrightarrow> dv_kind x = ''site_deployer''"
      by (auto simp: stored_device_kind_def device_kind_from_str_def)
    have "deployer_site d deploy_route (dv_id x) (ss_user r) = Inr site"
      using site x(2) r(3) by (simp split: option.splits)
    from deployer_site_Inr [OF this] show ?thesis
      using kind by (auto simp: found is_active_def split: option.splits)
  qed
  show ?thesis
    by (intro bexI [OF _ r(1)] exI [of _ presented] conjI ballI impI dev)
      (use r(2) p a prin in \<open>simp_all add: authenticates_def r(3)\<close>)
qed

definition example_auth_env :: auth_env where
  "example_auth_env = \<lparr>av_sha256 = (\<lambda>s. replicate 32 (word_of_nat (length s))), av_audience = ''edge''\<rparr>"

definition example_entry :: "(failure_kind + principal \<times> string option) \<times> actor_limiter \<times> db" where
  "example_entry = from_request_parts example_auth_env (new_limiter 60) identity_example (Some ''Bearer c'') False
     (100, 100, 100)"

theorem principal_is_authenticated_witness:
  "\<exists>p site l d. example_entry = (Inr (p, site), l, d) \<and> site = None
     \<and> (\<exists>r \<in> set (t_sessions identity_example). pl_session p = ss_id r \<and> ss_revoked_at r = None \<and> ss_device r = Some 5)"
proof -
  have made: "case example_entry of (Inr (p, _), _) \<Rightarrow> pl_session p = 10 | _ \<Rightarrow> False" by code_simp
  obtain answer l d where run: "example_entry = (answer, l, d)" by (rule prod_cases3)
  obtain p site where a: "answer = Inr (p, site)" and p: "pl_session p = 10"
    using made unfolding run prod.case by (cases answer) auto
  obtain r where r: "r \<in> set (t_sessions identity_example)" "ss_revoked_at r = None" "pl_session p = ss_id r"
    and dev: "\<forall>x \<in> set (t_devices identity_example). Some (dv_id x) = ss_device r \<longrightarrow>
         (if dv_kind x = ''site_deployer''
          then False \<and> site = dv_site x \<and> site \<noteq> None \<and> dv_user x = ss_user r \<and> dv_revoked_at x = None
          else site = None)"
    using principal_is_authenticated [OF identity_example_ok run [unfolded a example_entry_def]] by blast
  have "ss_device r = Some 5"
    using r p by (auto simp: identity_example_def example_device_session_def example_browser_session_def
        example_old_session_def)
  moreover have "site = None" using dev calculation by (simp add: identity_example_def)
  ultimately show ?thesis using run a r by blast
qed

end
