(* ===== verification/Idempotency.thy ===== *)
theory Idempotency
  imports Delivery
begin

text \<open>
  \<^verbatim>\<open>crates/idempotency/src/lib.rs\<close>: the ledger that turns a repeated request into one operation.
  \<open>sha256\<close> is \<open>Sha256::digest\<close> of the crate \<open>sha2\<close>; a timestamp of the ledger is in microseconds.
\<close>

definition digest_of_key :: "(string \<Rightarrow> digest) \<Rightarrow> string \<Rightarrow> digest" where
  "digest_of_key sha256 key = sha256 key"

definition digest_of_body :: "(string \<Rightarrow> digest) \<Rightarrow> string \<Rightarrow> digest" where
  "digest_of_body sha256 body = sha256 body"

datatype reservation =
    Fresh uuid
  | Replay "uuid option" "16 word"
  | InFlight
  | ConflictingPayload

datatype ledger_outcome =
    Proceed uuid
  | ReplayOperation uuid
  | Refuse

fun reservation_outcome :: "reservation \<Rightarrow> ledger_outcome" where
  "reservation_outcome (Fresh record_id) = Proceed record_id"
| "reservation_outcome (Replay (Some operation_id) _) = ReplayOperation operation_id"
| "reservation_outcome (Replay None _) = Refuse"
| "reservation_outcome InFlight = Refuse"
| "reservation_outcome ConflictingPayload = Refuse"

text \<open>The scope of a key: actor, route, operation kind and the digest of the key.\<close>

type_synonym ledger_scope = "uuid \<times> string \<times> string \<times> digest"

definition scope_of :: "idempotency_row \<Rightarrow> ledger_scope" where
  "scope_of r = (id_owner r, id_route r, id_kind r, id_key_hash r)"

definition reserved_row :: "uuid \<Rightarrow> ledger_scope \<Rightarrow> digest \<Rightarrow> instant \<Rightarrow> int \<Rightarrow> idempotency_row" where
  "reserved_row k sc fingerprint now ttl =
     (case sc of (owner, route, kind, key) \<Rightarrow>
       \<lparr>id_record = k, id_owner = owner, id_route = route, id_kind = kind, id_key_hash = key,
        id_fingerprint = fingerprint, id_operation = None, id_response_status = None,
        id_reserved_at = now, id_completed_at = None, id_expires_at = now + ttl\<rparr>)"

text \<open>\<open>u16::try_from\<close> of a stored \<^verbatim>\<open>smallint\<close>, and \<open>i16::try_from\<close> of a \<open>u16\<close>.\<close>

definition stored_status :: "16 word \<Rightarrow> int" where
  "stored_status s = (if uint s \<le> 32767 then uint s else 500)"

definition replayed_status :: "int option \<Rightarrow> 16 word" where
  "replayed_status s = (case s of
     Some n \<Rightarrow> if 0 \<le> n \<and> n \<le> 65535 then word_of_int n else 500
   | None \<Rightarrow> 500)"

definition decide ::
  "db \<Rightarrow> uuid \<Rightarrow> ledger_scope \<Rightarrow> digest \<Rightarrow> instant \<Rightarrow> int \<Rightarrow> persistence_error + reservation \<times> db" where
  "decide d k sc fingerprint now ttl =
     (let t = delete_where (\<lambda>r. scope_of r = sc \<and> id_expires_at r \<le> now) (t_idempotency d)
      in bindE (map_err Query (sql_insert_or_ignore idempotency_ok idempotency_scope_clash idempotency_clash
               (reserved_row k sc fingerprint now ttl) t)) (\<lambda>(inserted, t).
           let d = d\<lparr>t_idempotency := t\<rparr> in
           if inserted then Inr (Fresh k, d)
           else bindE (map_err Query (ok_or Row_not_found (fetch_optional (\<lambda>r. scope_of r = sc) t))) (\<lambda>row.
             if id_fingerprint row \<noteq> fingerprint then Inr (ConflictingPayload, d)
             else if id_completed_at row = None then Inr (InFlight, d)
             else Inr (Replay (id_operation row) (replayed_status (id_response_status row)), d))))"

text \<open>\<open>reserve\<close> is \<open>decide\<close> with a counter labelled by the outcome.\<close>

fun ledger_outcome_label :: "ledger_outcome \<Rightarrow> string" where
  "ledger_outcome_label (Proceed _) = ''proceed''"
| "ledger_outcome_label (ReplayOperation _) = ''replay''"
| "ledger_outcome_label Refuse = ''refuse''"

definition reserve ::
  "db \<Rightarrow> uuid \<Rightarrow> ledger_scope \<Rightarrow> digest \<Rightarrow> instant \<Rightarrow> int
     \<Rightarrow> persistence_error + (reservation \<times> string) \<times> db" where
  "reserve d k sc fingerprint now ttl =
     bindE (decide d k sc fingerprint now ttl) (\<lambda>(reservation, d').
       Inr ((reservation, ledger_outcome_label (reservation_outcome reservation)), d'))"

definition completed_row :: "uuid option \<Rightarrow> 16 word \<Rightarrow> instant \<Rightarrow> idempotency_row \<Rightarrow> idempotency_row" where
  "completed_row operation status now r =
     r\<lparr>id_operation := operation, id_response_status := Some (stored_status status), id_completed_at := Some now\<rparr>"

definition complete ::
  "db \<Rightarrow> uuid \<Rightarrow> uuid option \<Rightarrow> 16 word \<Rightarrow> instant \<Rightarrow> persistence_error + db" where
  "complete d k operation status now =
     map_err Query
       (bindE (sql_update (\<lambda>_. idempotency_ok) idempotency_clash (\<lambda>r. id_record r = k)
                 (completed_row operation status now) (t_idempotency d))
         (\<lambda>t. if row_exists (\<lambda>r. id_record r = k) t
                  \<and> \<not> (case operation of None \<Rightarrow> True | Some i \<Rightarrow> operation_exists d i)
              then Inl Foreign_key_violation
              else Inr (d\<lparr>t_idempotency := t\<rparr>)))"

definition collect_expired :: "db \<Rightarrow> instant \<Rightarrow> nat \<times> db" where
  "collect_expired d now =
     (rows_affected (\<lambda>r. id_expires_at r \<le> now) (t_idempotency d),
      d\<lparr>t_idempotency := delete_where (\<lambda>r. id_expires_at r \<le> now) (t_idempotency d)\<rparr>)"

subsection \<open>What a scope holds\<close>

lemma scope_clash: "idempotency_scope_clash x y \<longleftrightarrow> scope_of x = scope_of y"
  by (auto simp: idempotency_scope_clash_def scope_of_def)

lemma reserved_row_simps [simp]:
  "scope_of (reserved_row k sc fp now ttl) = sc" "id_record (reserved_row k sc fp now ttl) = k"
  "id_fingerprint (reserved_row k sc fp now ttl) = fp" "id_expires_at (reserved_row k sc fp now ttl) = now + ttl"
  "id_completed_at (reserved_row k sc fp now ttl) = None" "id_reserved_at (reserved_row k sc fp now ttl) = now"
  "id_operation (reserved_row k sc fp now ttl) = None" "id_response_status (reserved_row k sc fp now ttl) = None"
  by (cases sc; simp add: reserved_row_def scope_of_def)+

lemma completed_row_simps [simp]:
  "scope_of (completed_row i s now r) = scope_of r" "id_record (completed_row i s now r) = id_record r"
  "id_fingerprint (completed_row i s now r) = id_fingerprint r"
  "id_expires_at (completed_row i s now r) = id_expires_at r"
  "id_completed_at (completed_row i s now r) = Some now" "id_operation (completed_row i s now r) = i"
  "id_response_status (completed_row i s now r) = Some (stored_status s)"
  "idempotency_clash (completed_row i s now r) x = idempotency_clash r x"
  by (simp_all add: completed_row_def scope_of_def idempotency_clash_def idempotency_scope_clash_def)

definition ledger_at :: "db \<Rightarrow> ledger_scope \<Rightarrow> idempotency_row option" where
  "ledger_at d sc = fetch_optional (\<lambda>r. scope_of r = sc) (t_idempotency d)"

lemma ledger_at_iff:
  assumes "db_ok d"
  shows "ledger_at d sc = Some r \<longleftrightarrow> r \<in> set (t_idempotency d) \<and> scope_of r = sc"
proof
  assume "ledger_at d sc = Some r"
  then show "r \<in> set (t_idempotency d) \<and> scope_of r = sc"
    by (auto simp: ledger_at_def dest: fetch_optional_SomeD)
next
  assume r: "r \<in> set (t_idempotency d) \<and> scope_of r = sc"
  then obtain s where s: "ledger_at d sc = Some s"
    by (auto simp: ledger_at_def) (metis (mono_tags, lifting) fetch_optional_None not_None_eq)
  then have "s \<in> set (t_idempotency d)" "scope_of s = sc" by (auto simp: ledger_at_def dest: fetch_optional_SomeD)
  with r idempotency_table.unclashing [OF db_okD(8) [OF assms]] have "s = r"
    by (auto simp: idempotency_clash_def scope_clash)
  with s show "ledger_at d sc = Some r" by simp
qed

text \<open>What \<open>decide\<close> finds, in terms of the live row of the scope.\<close>

definition live_row :: "db \<Rightarrow> ledger_scope \<Rightarrow> instant \<Rightarrow> idempotency_row option" where
  "live_row d sc now = (case ledger_at d sc of Some r \<Rightarrow> if id_expires_at r \<le> now then None else Some r | None \<Rightarrow> None)"

definition answer_of :: "idempotency_row \<Rightarrow> digest \<Rightarrow> reservation" where
  "answer_of row fingerprint =
     (if id_fingerprint row \<noteq> fingerprint then ConflictingPayload
      else if id_completed_at row = None then InFlight
      else Replay (id_operation row) (replayed_status (id_response_status row)))"

lemma decide_spec:
  assumes "db_ok d" and "decide d k sc fingerprint now ttl = Inr (res, d')"
  shows "db_ok d'"
    and "(case live_row d sc now of
            Some row \<Rightarrow> res = answer_of row fingerprint \<and> d' = d
          | None \<Rightarrow> res = Fresh k \<and> ledger_at d' sc = Some (reserved_row k sc fingerprint now ttl))"
    and "sc' \<noteq> sc \<Longrightarrow> ledger_at d' sc' = ledger_at d sc'"
proof -
  note t = db_okD(8) [OF assms(1)]
  define t1 where "t1 = delete_where (\<lambda>r. scope_of r = sc \<and> id_expires_at r \<le> now) (t_idempotency d)"
  have ok1: "table_ok idempotency_ok idempotency_clash t1" unfolding t1_def by (rule idempotency_table.delete_ok [OF t])
  obtain inserted t2 where ins: "sql_insert_or_ignore idempotency_ok idempotency_scope_clash idempotency_clash
      (reserved_row k sc fingerprint now ttl) t1 = Inr (inserted, t2)"
    using assms(2) by (auto simp: decide_def Let_def t1_def)
  have d': "d' = d\<lparr>t_idempotency := t2\<rparr>"
    using assms(2) ins by (auto simp: decide_def Let_def t1_def [symmetric] split: if_splits)
  have "table_ok idempotency_ok idempotency_clash t2" by (rule idempotency_table.insert_or_ignore_ok [OF ins ok1])
  then show ok': "db_ok d'" using assms(1) d' by auto
  have live: "live_row d sc now = fetch_optional (\<lambda>r. scope_of r = sc) t1"
  proof (cases "ledger_at d sc")
    case None
    then have "\<forall>r \<in> set (t_idempotency d). scope_of r \<noteq> sc" by (simp add: ledger_at_def fetch_optional_None)
    then have "\<forall>r \<in> set t1. scope_of r \<noteq> sc" by (simp add: t1_def)
    then have "fetch_optional (\<lambda>r. scope_of r = sc) t1 = None" by (simp add: fetch_optional_None)
    with None show ?thesis by (simp add: live_row_def)
  next
    case (Some r)
    then have r: "r \<in> set (t_idempotency d)" "scope_of r = sc" using ledger_at_iff [OF assms(1)] by auto
    have uniq: "x = r" if "x \<in> set (t_idempotency d)" "scope_of x = sc" for x
      using that r idempotency_table.unclashing [OF t] by (auto simp: idempotency_clash_def scope_clash)
    show ?thesis
    proof (cases "id_expires_at r \<le> now")
      case True
      then have "fetch_optional (\<lambda>r. scope_of r = sc) t1 = None"
        using uniq by (fastforce simp: fetch_optional_None t1_def)
      with Some True show ?thesis by (simp add: live_row_def)
    next
      case False
      then have "r \<in> set t1" using r by (simp add: t1_def)
      then obtain x where x: "fetch_optional (\<lambda>r. scope_of r = sc) t1 = Some x"
        using r(2) by (metis (mono_tags, lifting) fetch_optional_None not_None_eq)
      then have "x \<in> set t1" "scope_of x = sc" by (auto dest: fetch_optional_SomeD)
      then have "x = r" using uniq by (simp add: t1_def)
      with x Some False show ?thesis by (simp add: live_row_def)
    qed
  qed
  show "case live_row d sc now of
            Some row \<Rightarrow> res = answer_of row fingerprint \<and> d' = d
          | None \<Rightarrow> res = Fresh k \<and> ledger_at d' sc = Some (reserved_row k sc fingerprint now ttl)"
  proof (cases "live_row d sc now")
    case None
    then have "\<forall>x \<in> set t1. scope_of x \<noteq> sc" unfolding live by (simp add: fetch_optional_None)
    then have i: "inserted" "t2 = t1 @ [reserved_row k sc fingerprint now ttl]"
      using ins by (auto simp: sql_insert_or_ignore_Inr scope_clash split: if_splits)
    then have "res = Fresh k" using assms(2) ins by (simp add: decide_def Let_def t1_def [symmetric])
    moreover have "ledger_at d' sc = Some (reserved_row k sc fingerprint now ttl)"
      unfolding ledger_at_iff [OF ok'] using i(2) d' by simp
    ultimately show ?thesis using None by simp
  next
    case (Some row)
    then have row: "fetch_optional (\<lambda>r. scope_of r = sc) t1 = Some row" unfolding live .
    then have "row \<in> set t1" "scope_of row = sc" by (auto dest: fetch_optional_SomeD)
    then have i: "\<not> inserted" "t2 = t1"
      using ins by (auto simp: sql_insert_or_ignore_Inr scope_clash split: if_splits)
    have "t1 = t_idempotency d"
    proof -
      have mem: "row \<in> set (t_idempotency d)" "\<not> (scope_of row = sc \<and> id_expires_at row \<le> now)"
        using \<open>row \<in> set t1\<close> by (auto simp: t1_def)
      have "\<not> (scope_of x = sc \<and> id_expires_at x \<le> now)" if "x \<in> set (t_idempotency d)" for x
        using that mem \<open>scope_of row = sc\<close> idempotency_table.unclashing [OF t, of x row]
        by (auto simp: idempotency_clash_def scope_clash)
      then show ?thesis unfolding t1_def by (rule delete_where_none)
    qed
    then have "d' = d" using d' i(2) by simp
    moreover have "res = answer_of row fingerprint"
      using assms(2) ins i row by (auto simp: decide_def Let_def t1_def [symmetric] answer_of_def split: if_splits)
    ultimately show ?thesis using Some by simp
  qed
  show "ledger_at d' sc' = ledger_at d sc'" if "sc' \<noteq> sc"
  proof -
    have "r \<in> set (t_idempotency d') \<and> scope_of r = sc' \<longleftrightarrow> r \<in> set (t_idempotency d) \<and> scope_of r = sc'" for r
      using that ins by (auto simp: d' t1_def sql_insert_or_ignore_Inr split: if_splits)
    then show ?thesis
      using ledger_at_iff [OF assms(1), of sc'] ledger_at_iff [OF ok', of sc']
      by (metis not_None_eq)
  qed
qed

lemma complete_spec:
  assumes "db_ok d" and "complete d k operation status now = Inr d'"
  shows "db_ok d'"
    and "ledger_at d' sc = map_option (\<lambda>r. if id_record r = k then completed_row operation status now r else r)
           (ledger_at d sc)"
proof -
  obtain t where t: "sql_update (\<lambda>_. idempotency_ok) idempotency_clash (\<lambda>r. id_record r = k)
      (completed_row operation status now) (t_idempotency d) = Inr t" "d' = d\<lparr>t_idempotency := t\<rparr>"
    using assms(2) by (auto simp: complete_def split: if_splits)
  show "db_ok d'" using idempotency_table.update_ok [OF t(1) db_okD(8) [OF assms(1)]] assms(1) t(2) by auto
  have "t = update_where (\<lambda>r. id_record r = k) (completed_row operation status now) (t_idempotency d)"
    using t(1) by (simp add: sql_update_Inr)
  then show "ledger_at d' sc = map_option (\<lambda>r. if id_record r = k then completed_row operation status now r else r)
           (ledger_at d sc)"
    using t(2) by (simp add: ledger_at_def fetch_update_where)
qed

lemma collect_spec:
  assumes "db_ok d" and "collect_expired d now = (n, d')"
  shows "db_ok d'" and "ledger_at d' sc = live_row d sc now"
proof -
  have d': "d' = d\<lparr>t_idempotency := delete_where (\<lambda>r. id_expires_at r \<le> now) (t_idempotency d)\<rparr>"
    using assms(2) by (simp add: collect_expired_def)
  show ok': "db_ok d'" using assms(1) d' by (auto intro: idempotency_table.delete_ok db_okD(8))
  have at': "ledger_at d' sc = Some r \<longleftrightarrow> r \<in> set (t_idempotency d) \<and> \<not> id_expires_at r \<le> now \<and> scope_of r = sc" for r
    by (subst ledger_at_iff [OF ok']) (simp add: d')
  have "ledger_at d' sc = Some r \<longleftrightarrow> live_row d sc now = Some r" for r
  proof (cases "ledger_at d sc")
    case None
    then have "r \<notin> set (t_idempotency d) \<or> scope_of r \<noteq> sc" using ledger_at_iff [OF assms(1), of sc r] by simp
    with None show ?thesis unfolding at' by (auto simp: live_row_def)
  next
    case (Some x)
    then have "r \<in> set (t_idempotency d) \<and> scope_of r = sc \<longleftrightarrow> x = r"
      using ledger_at_iff [OF assms(1), of sc r] by auto
    with Some show ?thesis unfolding at' by (auto simp: live_row_def)
  qed
  then show "ledger_at d' sc = live_row d sc now" by (metis not_None_eq)
qed

subsection \<open>Retrying\<close>

text \<open>The steps other requests take on the ledger while a key is reserved.\<close>

datatype ledger_step =
    Decide uuid ledger_scope digest instant int
  | Complete uuid "uuid option" "16 word" instant
  | Collect instant

fun step_time :: "ledger_step \<Rightarrow> instant" where
  "step_time (Decide _ _ _ now _) = now"
| "step_time (Complete _ _ _ now) = now"
| "step_time (Collect now) = now"

text \<open>A step that fails rolls back and leaves the database as it was.\<close>

fun run_step :: "ledger_step \<Rightarrow> db \<Rightarrow> db" where
  "run_step (Decide k sc fp now ttl) d = (case decide d k sc fp now ttl of Inr (_, d') \<Rightarrow> d' | Inl _ \<Rightarrow> d)"
| "run_step (Complete k i s now) d = (case complete d k i s now of Inr d' \<Rightarrow> d' | Inl _ \<Rightarrow> d)"
| "run_step (Collect now) d = snd (collect_expired d now)"

lemma run_step_keeps:
  assumes "db_ok d" and "ledger_at d sc = Some r" and "step_time s < id_expires_at r"
    and "\<And>i st now. s \<noteq> Complete (id_record r) i st now"
  shows "db_ok (run_step s d)" and "ledger_at (run_step s d) sc = Some r"
proof -
  have live: "live_row d sc (step_time s) = Some r" using assms(2,3) by (simp add: live_row_def)
  have "db_ok (run_step s d) \<and> ledger_at (run_step s d) sc = Some r"
  proof (cases s)
    case (Decide k sc' fp now ttl)
    show ?thesis
    proof (cases "decide d k sc' fp now ttl")
      case (Inl e)
      with Decide assms show ?thesis by simp
    next
      case (Inr a)
      then obtain res d' where run: "decide d k sc' fp now ttl = Inr (res, d')" by (cases a) auto
      note spec = decide_spec [OF assms(1) run]
      show ?thesis
      proof (cases "sc' = sc")
        case True
        with spec(1,2) live Decide run assms(2) show ?thesis by simp
      next
        case False
        with spec(1) spec(3) [of sc] Decide run assms(2) show ?thesis by simp
      qed
    qed
  next
    case (Complete k i st now)
    then have "k \<noteq> id_record r" using assms(4) by auto
    with complete_spec [OF assms(1)] Complete assms(1,2) show ?thesis
      by (cases "complete d k i st now") auto
  next
    case (Collect now)
    obtain n d' where "collect_expired d now = (n, d')" by fastforce
    with collect_spec [OF assms(1) this] live Collect show ?thesis by simp
  qed
  then show "db_ok (run_step s d)" "ledger_at (run_step s d) sc = Some r" by simp_all
qed

lemma run_steps_keep:
  assumes "db_ok d" and "ledger_at d sc = Some r" and "\<forall>s \<in> set steps. step_time s < id_expires_at r"
    and "\<forall>s \<in> set steps. \<forall>i st now. s \<noteq> Complete (id_record r) i st now"
  shows "db_ok (fold run_step steps d) \<and> ledger_at (fold run_step steps d) sc = Some r"
  using assms
proof (induction steps arbitrary: d)
  case Nil
  then show ?case by simp
next
  case (Cons s steps)
  have "step_time s < id_expires_at r" "\<And>i st now. s \<noteq> Complete (id_record r) i st now"
    using Cons.prems(3,4) by auto
  from run_step_keeps [OF Cons.prems(1,2) this] Cons show ?case by simp
qed

text \<open>
  C27: a key is reserved once. After a fresh reservation, whatever other requests and collections do
  while it is live, no later request with the key is fresh: before the work is completed the same
  payload is in flight and another payload is a conflict, and no operation is created twice.
\<close>

theorem key_is_reserved_once:
  assumes "db_ok d" and "decide d k sc fingerprint now ttl = Inr (Fresh k, d1)"
    and "\<forall>s \<in> set steps. step_time s < now + ttl"
    and "\<forall>s \<in> set steps. \<forall>i st t. s \<noteq> Complete k i st t"
    and "later < now + ttl"
    and "decide (fold run_step steps d1) k' sc fingerprint' later ttl' = Inr (res, d2)"
  shows "res = (if fingerprint' = fingerprint then InFlight else ConflictingPayload)
    \<and> reservation_outcome res = Refuse \<and> d2 = fold run_step steps d1"
proof -
  let ?r = "reserved_row k sc fingerprint now ttl"
  note spec = decide_spec [OF assms(1,2)]
  have fresh: "live_row d sc now = None"
    using spec(2) by (cases "live_row d sc now") (auto simp: answer_of_def split: if_splits)
  then have r: "ledger_at d1 sc = Some ?r" using spec(2) by simp
  have keep: "db_ok (fold run_step steps d1) \<and> ledger_at (fold run_step steps d1) sc = Some ?r"
    by (rule run_steps_keep [OF spec(1) r]) (use assms(3,4) in simp_all)
  then have "live_row (fold run_step steps d1) sc later = Some ?r" using assms(5) by (simp add: live_row_def)
  then have "res = answer_of ?r fingerprint' \<and> d2 = fold run_step steps d1"
    using decide_spec(2) [OF _ assms(6)] keep by simp
  then show ?thesis by (auto simp: answer_of_def)
qed

text \<open>
  A completed request is replayed. After the first attempt was completed with an operation, a
  retry with the same payload, at any time before the key expires and whatever happened on the
  ledger in between, gets that operation and the status of the first answer, and another payload is
  refused; nothing is written.
\<close>

lemma retry_replays_the_first_answer:
  assumes "db_ok d" and "decide d k sc fingerprint now ttl = Inr (Fresh k, d1)"
    and "complete d1 k (Some i) status done_at = Inr d2" and "status < 600"
    and "\<forall>s \<in> set steps. step_time s < now + ttl"
    and "\<forall>s \<in> set steps. \<forall>i st t. s \<noteq> Complete k i st t"
    and "later < now + ttl"
    and "decide (fold run_step steps d2) k' sc fingerprint' later ttl' = Inr (res, d3)"
  shows "(if fingerprint' = fingerprint then res = Replay (Some i) status else res = ConflictingPayload)
    \<and> d3 = fold run_step steps d2"
proof -
  let ?r = "completed_row (Some i) status done_at (reserved_row k sc fingerprint now ttl)"
  note spec = decide_spec [OF assms(1,2)]
  have fresh: "live_row d sc now = None"
    using spec(2) by (cases "live_row d sc now") (auto simp: answer_of_def split: if_splits)
  then have "ledger_at d1 sc = Some (reserved_row k sc fingerprint now ttl)" using spec(2) by simp
  then have r: "ledger_at d2 sc = Some ?r" using complete_spec(2) [OF spec(1) assms(3)] by simp
  have keep: "db_ok (fold run_step steps d2) \<and> ledger_at (fold run_step steps d2) sc = Some ?r"
    by (rule run_steps_keep [OF complete_spec(1) [OF spec(1) assms(3)] r]) (use assms(5,6) in simp_all)
  then have "live_row (fold run_step steps d2) sc later = Some ?r" using assms(7) by (simp add: live_row_def)
  then have res: "res = answer_of ?r fingerprint' \<and> d3 = fold run_step steps d2"
    using decide_spec(2) [OF _ assms(8)] keep by simp
  have "uint status < 600" using assms(4) by (simp add: word_less_def)
  then have "replayed_status (Some (stored_status status)) = status"
    by (simp add: replayed_status_def stored_status_def)
  with res show ?thesis by (simp add: answer_of_def)
qed

text \<open>An expired key is free again.\<close>

lemma expired_key_is_fresh:
  assumes "db_ok d" and "ledger_at d sc = Some r" and "id_expires_at r \<le> now"
    and "decide d k sc fingerprint now ttl = Inr (res, d')"
  shows "res = Fresh k"
  using decide_spec(2) [OF assms(1,4)] assms(2,3) by (simp add: live_row_def)

subsection \<open>The properties at concrete inputs\<close>

definition demo_ledger_scope :: ledger_scope where
  "demo_ledger_scope = (2, ''/v1/captures'', ''content.capture.submit'', replicate 32 7)"

definition demo_reservation :: "persistence_error + reservation \<times> db" where
  "demo_reservation = decide (demo_db ''accepted'') 60 demo_ledger_scope (replicate 32 1) 100 50"

definition demo_completion :: "persistence_error + db" where
  "demo_completion = complete (snd (projr demo_reservation)) 60 (Some 1) 202 110"

lemma demo_reserved:
  obtains d1 where "decide (demo_db ''accepted'') 60 demo_ledger_scope (replicate 32 1) 100 50 = Inr (Fresh 60, d1)"
    and "d1 = snd (projr demo_reservation)"
proof -
  have "\<not> isl demo_reservation \<and> fst (projr demo_reservation) = Fresh 60" by code_simp
  then show thesis using that [of "snd (projr demo_reservation)"] unfolding demo_reservation_def
    by (cases "decide (demo_db ''accepted'') 60 demo_ledger_scope (replicate 32 1) 100 50") auto
qed

lemma demo_completed:
  obtains d1 d2 where "decide (demo_db ''accepted'') 60 demo_ledger_scope (replicate 32 1) 100 50 = Inr (Fresh 60, d1)"
    and "complete d1 60 (Some 1) 202 110 = Inr d2" and "d2 = projr demo_completion"
proof -
  obtain d1 where d1: "decide (demo_db ''accepted'') 60 demo_ledger_scope (replicate 32 1) 100 50 = Inr (Fresh 60, d1)"
    "d1 = snd (projr demo_reservation)" by (rule demo_reserved)
  have "\<not> isl demo_completion" by code_simp
  then have "complete d1 60 (Some 1) 202 110 = Inr (projr demo_completion)"
    unfolding demo_completion_def d1(2)
    by (cases "complete (snd (projr demo_reservation)) 60 (Some 1) 202 110") auto
  with d1(1) show thesis using that by blast
qed

theorem key_is_reserved_once_witness:
  "\<exists>d1 d2. decide (demo_db ''accepted'') 60 demo_ledger_scope (replicate 32 1) 100 50 = Inr (Fresh 60, d1)
     \<and> decide d1 61 demo_ledger_scope (replicate 32 1) 120 50 = Inr (InFlight, d2)"
proof -
  obtain d1 where r: "decide (demo_db ''accepted'') 60 demo_ledger_scope (replicate 32 1) 100 50 = Inr (Fresh 60, d1)"
    and d1: "d1 = snd (projr demo_reservation)" by (rule demo_reserved)
  have "\<not> isl (decide (snd (projr demo_reservation)) 61 demo_ledger_scope (replicate 32 1) 120 50)" by code_simp
  then obtain res d2 where d2: "decide d1 61 demo_ledger_scope (replicate 32 1) 120 50 = Inr (res, d2)"
    unfolding d1 by (cases "decide (snd (projr demo_reservation)) 61 demo_ledger_scope (replicate 32 1) 120 50") auto
  have ok: "db_ok (demo_db ''accepted'')" by code_simp
  have "res = InFlight"
    using key_is_reserved_once [OF ok r, of "[]" 120 61 "replicate 32 1" 50 res d2] d2 by simp
  with r d2 show ?thesis by blast
qed

end
