(* ===== verification/Submission.thy ===== *)
theory Submission
  imports Scheduling Idempotency Audit_Trail Faults
begin

text \<open>
  What the two doors through which work is accepted have in common: the transaction of
  \<^verbatim>\<open>crates/public-api/src/intake.rs\<close> and that of \<^verbatim>\<open>crates/ingest/src/webhook.rs\<close>. Each reserves a key in
  the ledger, opens an operation, enqueues a command, completes the reservation and writes an audit row.
  The locale states the laws of such a door and derives what a retry of a request meets.
\<close>

datatype submission = Opened uuid | Seen_before uuid

text \<open>
  What one transaction mints, and whether it could be begun and committed. \<open>mn_clock\<close> is \<^verbatim>\<open>now()\<close> of the
  database.
\<close>

record tx_mint =
  mn_record :: uuid
  mn_operation :: uuid
  mn_command :: uuid
  mn_outbox :: uuid
  mn_audit :: uuid
  mn_clock :: instant
  mn_begins :: bool
  mn_commits :: bool

text \<open>A failed dependency is logged and answered with one kind.\<close>

definition timed_out :: "'e + 'a \<Rightarrow> failure_kind + 'a" where
  "timed_out = map_err (\<lambda>_. RequestTimeout)"

lemma timed_out_simps [simp]:
  "timed_out (Inl e) = Inl RequestTimeout"
  "timed_out (Inr a) = Inr a"
  "timed_out m = Inr a \<longleftrightarrow> m = Inr a"
  by (simp_all add: timed_out_def)

lemma timed_out_Inl: "timed_out m = Inl e \<Longrightarrow> e = RequestTimeout"
  by (cases m) simp_all

subsection \<open>What an accepted request leaves behind\<close>

record ticket =
  tc_record :: uuid
  tc_owner :: uuid
  tc_route :: string
  tc_kind :: string
  tc_key :: string
  tc_key_digest :: digest
  tc_print :: digest
  tc_now :: instant
  tc_ttl :: int

definition ticket_scope :: "ticket \<Rightarrow> ledger_scope" where
  "ticket_scope t = (tc_owner t, tc_route t, tc_kind t, tc_key_digest t)"

definition settled_row :: "uuid \<Rightarrow> ticket \<Rightarrow> idempotency_row" where
  "settled_row i t =
     completed_row (Some i) 202 (tc_now t) (reserved_row (tc_record t) (ticket_scope t) (tc_print t) (tc_now t) (tc_ttl t))"

definition key_taken :: "db \<Rightarrow> ticket \<Rightarrow> bool" where
  "key_taken d t \<longleftrightarrow> list_ex (\<lambda>x. op_owner x = tc_owner t \<and> op_kind x = tc_kind t
     \<and> op_idempotency x = Some (tc_key t)) (t_operations d)"

definition readable_ticket :: "ticket \<Rightarrow> bool" where
  "readable_ticket t \<longleftrightarrow> length (tc_print t) = 32 \<and> 0 < tc_ttl t"

lemma settled_row_simps [simp]:
  "scope_of (settled_row i t) = ticket_scope t" "id_expires_at (settled_row i t) = tc_now t + tc_ttl t"
  "id_fingerprint (settled_row i t) = tc_print t" "id_completed_at (settled_row i t) = Some (tc_now t)"
  "id_operation (settled_row i t) = Some i" "id_record (settled_row i t) = tc_record t"
  by (simp_all add: settled_row_def)

lemma answer_of_settled:
  "reservation_outcome (answer_of (settled_row i t) fp) = (if fp = tc_print t then ReplayOperation i else Refuse)"
  by (simp add: answer_of_def)

lemma answer_never_proceeds [simp]: "reservation_outcome (answer_of row fp) \<noteq> Proceed k"
  by (cases "id_operation row") (simp_all add: answer_of_def)

text \<open>A live row answers: the ledger can be asked once the reservation is well-formed.\<close>

lemma decide_live:
  assumes "db_ok d" and "live_row d (ticket_scope t) (tc_now t) = Some row" and "readable_ticket t"
  shows "decide d k (ticket_scope t) (tc_print t) (tc_now t) (tc_ttl t) = Inr (answer_of row (tc_print t), d)"
proof -
  let ?r = "reserved_row k (ticket_scope t) (tc_print t) (tc_now t) (tc_ttl t)"
  let ?gone = "\<lambda>r. scope_of r = ticket_scope t \<and> id_expires_at r \<le> tc_now t"
  have row: "row \<in> set (t_idempotency d)" "scope_of row = ticket_scope t" "\<not> id_expires_at row \<le> tc_now t"
    using assms(2) by (auto simp: live_row_def ledger_at_iff [OF assms(1)] split: option.splits if_splits)
  have only: "x = row" if "x \<in> set (t_idempotency d)" "scope_of x = ticket_scope t" for x
    by (rule idempotency_table.unclashing [OF db_okD(8) [OF assms(1)] that(1) row(1)])
      (simp add: idempotency_clash_def scope_clash that(2) row(2))
  have none: "delete_where ?gone (t_idempotency d) = t_idempotency d"
    by (rule delete_where_none) (use only row(3) in blast)
  have "idempotency_ok row" by (rule idempotency_table.row_ok [OF db_okD(8) [OF assms(1)] row(1)])
  then have "idempotency_ok ?r"
    using row(2) assms(3) by (auto simp: idempotency_ok_def scope_of_def ticket_scope_def reserved_row_def readable_ticket_def)
  then have ins: "sql_insert_or_ignore idempotency_ok idempotency_scope_clash idempotency_clash ?r (t_idempotency d)
      = Inr (False, t_idempotency d)"
    using row by (auto simp: sql_insert_or_ignore_def scope_clash list_ex_iff)
  have found: "fetch_optional (\<lambda>r. scope_of r = ticket_scope t) (t_idempotency d) = Some row"
    using ledger_at_iff [OF assms(1)] row by (simp add: ledger_at_def)
  show ?thesis
    by (simp add: decide_def none ins found answer_of_def Let_def)
qed

lemma accept_key_taken:
  assumes "key_taken d t"
  shows "\<exists>e. accept d i (tc_owner t) (tc_kind t) correlation (Some (tc_key t)) reporter now = Inl e"
proof (cases "accept d i (tc_owner t) (tc_kind t) correlation (Some (tc_key t)) reporter now")
  case (Inr a)
  then obtain op d' where "accept d i (tc_owner t) (tc_kind t) correlation (Some (tc_key t)) reporter now = Inr (op, d')"
    by (cases a) auto
  then have "\<forall>x \<in> set (t_operations d). \<not> operation_clash x
      (accepted_row i (tc_owner t) (tc_kind t) correlation (Some (tc_key t)) reporter now)"
    by (simp add: accept_Inr)
  with assms show ?thesis by (auto simp: key_taken_def list_ex_iff operation_clash_def accepted_row_def)
qed simp

text \<open>The table each step writes.\<close>

lemma decide_frame: "decide d k sc fp now ttl = Inr (res, d') \<Longrightarrow> \<exists>t. d' = d\<lparr>t_idempotency := t\<rparr>"
  by (auto simp: decide_def Let_def split: if_splits)

lemma decide_operations: "decide d k sc fp now ttl = Inr (res, d') \<Longrightarrow> t_operations d' = t_operations d"
  by (drule decide_frame) auto

lemma complete_frame: "complete d k operation status now = Inr d' \<Longrightarrow> \<exists>t. d' = d\<lparr>t_idempotency := t\<rparr>"
  by (auto simp: complete_def split: if_splits)

subsection \<open>A door\<close>

locale submission_door =
  fixes submit :: "'r \<Rightarrow> db \<Rightarrow> failure_kind + submission \<times> db"
    and ticket_of :: "'r \<Rightarrow> ticket"
    and begins :: "'r \<Rightarrow> bool"
  assumes opened: "db_ok d \<Longrightarrow> submit r d = Inr (Opened i, d') \<Longrightarrow>
      db_ok d' \<and> live_row d (ticket_scope (ticket_of r)) (tc_now (ticket_of r)) = None
      \<and> key_taken d' (ticket_of r)
      \<and> ledger_at d' (ticket_scope (ticket_of r)) = Some (settled_row i (ticket_of r))"
    and answering: "db_ok d \<Longrightarrow> readable_ticket (ticket_of r) \<Longrightarrow> begins r \<Longrightarrow>
      live_row d (ticket_scope (ticket_of r)) (tc_now (ticket_of r)) = Some row \<Longrightarrow>
      submit r d = (case reservation_outcome (answer_of row (tc_print (ticket_of r))) of
        ReplayOperation i \<Rightarrow> Inr (Seen_before i, d) | _ \<Rightarrow> Inl IdempotencyConflict)"
    and refusing: "db_ok d \<Longrightarrow> key_taken d (ticket_of r) \<Longrightarrow>
      live_row d (ticket_scope (ticket_of r)) (tc_now (ticket_of r)) = None \<Longrightarrow> submit r d = Inl RequestTimeout"
begin

text \<open>
  A retry with the key of an accepted request, while the reservation is kept: the same payload gets the
  operation of the first one and another payload is refused, and nothing is written either way.
\<close>

lemma retry_is_answered:
  assumes "db_ok d" and "submit r d = Inr (Opened i, d')"
    and "\<forall>s \<in> set steps. step_time s < tc_now (ticket_of r) + tc_ttl (ticket_of r)"
    and "\<forall>s \<in> set steps. \<forall>j st t. s \<noteq> Complete (tc_record (ticket_of r)) j st t"
    and "ticket_scope (ticket_of r') = ticket_scope (ticket_of r)" and "readable_ticket (ticket_of r')" and "begins r'"
    and "tc_now (ticket_of r') < tc_now (ticket_of r) + tc_ttl (ticket_of r)"
  shows "submit r' (fold run_step steps d') =
    (if tc_print (ticket_of r') = tc_print (ticket_of r) then Inr (Seen_before i, fold run_step steps d')
     else Inl IdempotencyConflict)"
proof -
  note eff = opened [OF assms(1,2)]
  have keep: "db_ok (fold run_step steps d') \<and> ledger_at (fold run_step steps d') (ticket_scope (ticket_of r))
      = Some (settled_row i (ticket_of r))"
    by (rule run_steps_keep) (use eff assms(3,4) in auto)
  then have "live_row (fold run_step steps d') (ticket_scope (ticket_of r')) (tc_now (ticket_of r'))
      = Some (settled_row i (ticket_of r))"
    using assms(5,8) by (simp add: live_row_def)
  from answering [OF conjunct1 [OF keep] assms(6,7) this] show ?thesis
    by (simp add: answer_of_settled split: if_splits)
qed

text \<open>
  The operation of an accepted request keeps its key. A request of the same owner and operation kind with
  that key that the ledger does not answer, because the reservation expired or because the request came
  through another route, is refused whenever it is made.
\<close>

lemma spent_key_is_refused:
  assumes "db_ok d" and "submit r d = Inr (Opened i, d')" and "db_ok e" and "operations_survive d' e"
    and "live_row e (ticket_scope (ticket_of r')) (tc_now (ticket_of r')) = None"
    and "tc_owner (ticket_of r') = tc_owner (ticket_of r)" and "tc_kind (ticket_of r') = tc_kind (ticket_of r)"
    and "tc_key (ticket_of r') = tc_key (ticket_of r)"
  shows "submit r' e = Inl RequestTimeout"
proof (rule refusing [OF assms(3) _ assms(5)])
  have "key_taken d' (ticket_of r)" using opened [OF assms(1,2)] by blast
  with assms(4) have "key_taken e (ticket_of r)"
    unfolding key_taken_def operations_survive_def list_all_iff list_ex_iff by metis
  then show "key_taken e (ticket_of r')" using assms(6-8) by (simp add: key_taken_def)
qed

end

text \<open>The same facts for the steps of the two doors.\<close>

lemma opened_row:
  assumes "db_ok d" and "decide d (tc_record t) (ticket_scope t) (tc_print t) (tc_now t) (tc_ttl t) = Inr (res, d1)"
    and "reservation_outcome res = Proceed k"
  shows "k = tc_record t" and "live_row d (ticket_scope t) (tc_now t) = None" and "db_ok d1"
    and "ledger_at d1 (ticket_scope t)
      = Some (reserved_row (tc_record t) (ticket_scope t) (tc_print t) (tc_now t) (tc_ttl t))"
proof -
  note spec = decide_spec [OF assms(1,2)]
  show none: "live_row d (ticket_scope t) (tc_now t) = None"
    using spec(2) assms(3) by (cases "live_row d (ticket_scope t) (tc_now t)") auto
  show "k = tc_record t" using spec(2) none assms(3) by simp
  show "db_ok d1" by (rule spec(1))
  show "ledger_at d1 (ticket_scope t)
      = Some (reserved_row (tc_record t) (ticket_scope t) (tc_print t) (tc_now t) (tc_ttl t))"
    using spec(2) none by simp
qed

lemma settled_by_complete:
  assumes "db_ok d" and "complete d (tc_record t) (Some i) 202 (tc_now t) = Inr d'"
    and "ledger_at d (ticket_scope t)
      = Some (reserved_row (tc_record t) (ticket_scope t) (tc_print t) (tc_now t) (tc_ttl t))"
  shows "db_ok d'" and "ledger_at d' (ticket_scope t) = Some (settled_row i t)"
  using complete_spec [OF assms(1,2)] assms(3) by (simp_all add: settled_row_def)

end
