(* ===== verification/Intake.thy ===== *)
theory Intake
  imports Principal Submission
begin

text \<open>
  \<^verbatim>\<open>crates/public-api/src/intake.rs\<close>: the transaction every command route of the public API shares. A
  refusal inside it is an error and leaves the database the caller has; a replay returns before anything is
  written.
\<close>

record intake =
  iq_route :: string
  iq_kind :: string
  iq_audit_action :: string
  iq_key :: string
  iq_fingerprint :: string
  iq_correlation :: string
  iq_reporter :: "string option"

record prepared =
  pd_subject :: subject
  pd_command_id :: uuid
  pd_payload :: json

record site_edit =
  sx_site :: string
  sx_source_ref :: string
  sx_revision :: string

text \<open>SHA-256, the size of a document in PostgreSQL, and how long the listener honours a key.\<close>

record intake_env =
  ie_sha256 :: "string \<Rightarrow> digest"
  ie_octets :: "json \<Rightarrow> int"
  ie_ttl :: int

definition submission_event :: "uuid \<Rightarrow> string \<Rightarrow> principal \<Rightarrow> uuid \<Rightarrow> string \<Rightarrow> audit_event" where
  "submission_event k action p operation correlation =
     \<lparr>ae_id = k, ae_actor_user = Some (pl_user p), ae_actor_session = Some (pl_session p), ae_action = action,
      ae_target_kind = ''operation'', ae_target = Some operation, ae_outcome = Allowed, ae_correlation = correlation\<rparr>"

definition record_site_edit :: "db \<Rightarrow> uuid \<Rightarrow> instant \<Rightarrow> site_edit \<Rightarrow> sql_error + db" where
  "record_site_edit d operation clock e =
     bindE (sql_insert site_edit_ok site_edit_clash
              \<lparr>sed_operation = operation, sed_site = sx_site e, sed_source_ref = sx_source_ref e,
               sed_revision = sx_revision e, sed_created_at = clock\<rparr> (t_site_edits d)) (\<lambda>t.
       if operation_exists d operation then Inr (d\<lparr>t_site_edits := t\<rparr>) else Inl Foreign_key_violation)"

type_synonym preparation = "operation \<Rightarrow> instant \<Rightarrow> failure_kind + prepared option"

definition enqueue_prepared ::
  "(json \<Rightarrow> int) \<Rightarrow> db \<Rightarrow> uuid \<Rightarrow> prepared option \<Rightarrow> uuid \<Rightarrow> instant \<Rightarrow> eventing_error + db" where
  "enqueue_prepared octets d k prepared operation now =
     (case prepared of
        None \<Rightarrow> Inr d
      | Some c \<Rightarrow> bindE (enqueue octets d k (pd_command_id c) (pd_subject c) (pd_payload c) (Some operation) now)
                    (\<lambda>(_, d'). Inr d'))"

definition intake_admit ::
  "intake_env \<Rightarrow> tx_mint \<Rightarrow> principal \<Rightarrow> intake \<Rightarrow> site_edit option \<Rightarrow> preparation \<Rightarrow> instant \<Rightarrow> db
     \<Rightarrow> failure_kind + submission \<times> db" where
  "intake_admit env mn p q edit prepare now d =
     (if \<not> mn_begins mn then Inl RequestTimeout
      else bindE (timed_out (reserve d (mn_record mn)
               (pl_user p, iq_route q, iq_kind q, digest_of_key (ie_sha256 env) (iq_key q))
               (digest_of_body (ie_sha256 env) (iq_fingerprint q)) now (ie_ttl env))) (\<lambda>((reservation, _), d1).
        (case reservation_outcome reservation of
           ReplayOperation operation_id \<Rightarrow> Inr (Seen_before operation_id, d)
         | Refuse \<Rightarrow> Inl IdempotencyConflict
         | Proceed record_id \<Rightarrow>
             bindE (timed_out (accept d1 (mn_operation mn) (pl_user p) (iq_kind q) (iq_correlation q)
                     (Some (iq_key q)) (iq_reporter q) now)) (\<lambda>(operation, d2).
             bindE (prepare operation now) (\<lambda>prepared.
             bindE (timed_out (enqueue_prepared (ie_octets env) d2 (mn_outbox mn) prepared (o_id operation) now)) (\<lambda>d3.
             bindE (case edit of None \<Rightarrow> Inr d3
                    | Some e \<Rightarrow> timed_out (record_site_edit d3 (o_id operation) (mn_clock mn) e)) (\<lambda>d4.
             bindE (timed_out (complete d4 record_id (Some (o_id operation)) 202 now)) (\<lambda>d5.
             bindE (timed_out (audit_record d5
                     (submission_event (mn_audit mn) (iq_audit_action q) p (o_id operation) (iq_correlation q)) now)) (\<lambda>d6.
               if mn_commits mn then Inr (Opened (o_id operation), d6) else Inl RequestTimeout)))))))))"

text \<open>\<open>accept\<close> answers with the operation either way; \<open>mint\<close> enqueues nothing.\<close>

definition intake_accept ::
  "intake_env \<Rightarrow> tx_mint \<Rightarrow> principal \<Rightarrow> intake \<Rightarrow> (operation \<Rightarrow> instant \<Rightarrow> failure_kind + prepared) \<Rightarrow> instant \<Rightarrow> db
     \<Rightarrow> (failure_kind + uuid) \<times> db" where
  "intake_accept env mn p q prepare now d =
     (case intake_admit env mn p q None (\<lambda>operation now. bindE (prepare operation now) (\<lambda>c. Inr (Some c))) now d of
        Inr (Opened operation_id, d') \<Rightarrow> (Inr operation_id, d')
      | Inr (Seen_before operation_id, d') \<Rightarrow> (Inr operation_id, d')
      | Inl kind \<Rightarrow> (Inl kind, d))"

definition intake_mint ::
  "intake_env \<Rightarrow> tx_mint \<Rightarrow> principal \<Rightarrow> intake \<Rightarrow> instant \<Rightarrow> db \<Rightarrow> failure_kind + submission \<times> db" where
  "intake_mint env mn p q now d = intake_admit env mn p q None (\<lambda>_ _. Inr None) now d"

subsection \<open>What the transaction writes\<close>

definition ticket_of_intake :: "intake_env \<Rightarrow> tx_mint \<Rightarrow> principal \<Rightarrow> intake \<Rightarrow> instant \<Rightarrow> ticket" where
  "ticket_of_intake env mn p q now =
     \<lparr>tc_record = mn_record mn, tc_owner = pl_user p, tc_route = iq_route q, tc_kind = iq_kind q, tc_key = iq_key q,
      tc_key_digest = digest_of_key (ie_sha256 env) (iq_key q),
      tc_print = digest_of_body (ie_sha256 env) (iq_fingerprint q), tc_now = now, tc_ttl = ie_ttl env\<rparr>"

lemma ticket_of_intake_simps [simp]:
  "tc_record (ticket_of_intake env mn p q now) = mn_record mn" "tc_owner (ticket_of_intake env mn p q now) = pl_user p"
  "tc_kind (ticket_of_intake env mn p q now) = iq_kind q" "tc_key (ticket_of_intake env mn p q now) = iq_key q"
  "tc_print (ticket_of_intake env mn p q now) = digest_of_body (ie_sha256 env) (iq_fingerprint q)"
  "tc_now (ticket_of_intake env mn p q now) = now" "tc_ttl (ticket_of_intake env mn p q now) = ie_ttl env"
  "ticket_scope (ticket_of_intake env mn p q now)
     = (pl_user p, iq_route q, iq_kind q, digest_of_key (ie_sha256 env) (iq_key q))"
  by (simp_all add: ticket_of_intake_def ticket_scope_def)

text \<open>
  The transaction with everything that differs between its callers as an argument: what identifies the
  request, the command it becomes, the site edit and the audit row.
\<close>

definition run_submission ::
  "(json \<Rightarrow> int) \<Rightarrow> tx_mint \<Rightarrow> ticket \<Rightarrow> string \<Rightarrow> string option \<Rightarrow> site_edit option \<Rightarrow> preparation
     \<Rightarrow> (uuid \<Rightarrow> audit_event) \<Rightarrow> db \<Rightarrow> failure_kind + submission \<times> db" where
  "run_submission octets mn t correlation reporter edit prepare event d =
     (if \<not> mn_begins mn then Inl RequestTimeout
      else bindE (timed_out (decide d (tc_record t) (ticket_scope t) (tc_print t) (tc_now t) (tc_ttl t)))
        (\<lambda>(reservation, d1).
        (case reservation_outcome reservation of
           ReplayOperation operation_id \<Rightarrow> Inr (Seen_before operation_id, d)
         | Refuse \<Rightarrow> Inl IdempotencyConflict
         | Proceed record_id \<Rightarrow>
             bindE (timed_out (accept d1 (mn_operation mn) (tc_owner t) (tc_kind t) correlation (Some (tc_key t))
                     reporter (tc_now t))) (\<lambda>(operation, d2).
             bindE (prepare operation (tc_now t)) (\<lambda>prepared.
             bindE (timed_out (enqueue_prepared octets d2 (mn_outbox mn) prepared (o_id operation) (tc_now t))) (\<lambda>d3.
             bindE (case edit of None \<Rightarrow> Inr d3
                    | Some e \<Rightarrow> timed_out (record_site_edit d3 (o_id operation) (mn_clock mn) e)) (\<lambda>d4.
             bindE (timed_out (complete d4 record_id (Some (o_id operation)) 202 (tc_now t))) (\<lambda>d5.
             bindE (timed_out (audit_record d5 (event (o_id operation)) (tc_now t))) (\<lambda>d6.
               if mn_commits mn then Inr (Opened (o_id operation), d6) else Inl RequestTimeout)))))))))"

lemma bind_reserve:
  "bindE (timed_out (reserve d k sc fp now ttl)) f = bindE (timed_out (decide d k sc fp now ttl))
     (\<lambda>(res, d'). f ((res, ledger_outcome_label (reservation_outcome res)), d'))"
  by (cases "decide d k sc fp now ttl") (auto simp: reserve_def)

lemma intake_is_submission:
  "intake_admit env mn p q edit prepare now d =
     run_submission (ie_octets env) mn (ticket_of_intake env mn p q now) (iq_correlation q) (iq_reporter q) edit prepare
       (\<lambda>i. submission_event (mn_audit mn) (iq_audit_action q) p i (iq_correlation q)) d"
  unfolding intake_admit_def run_submission_def bind_reserve ticket_of_intake_simps prod.case by (rule refl)

text \<open>The outbox after the command of a request: nothing is added without one or for a message that is there.\<close>

definition outbox_after ::
  "(json \<Rightarrow> int) \<Rightarrow> uuid \<Rightarrow> prepared option \<Rightarrow> uuid \<Rightarrow> instant \<Rightarrow> outbox_row list \<Rightarrow> outbox_row list" where
  "outbox_after octets k prepared operation now t =
     (case prepared of
        None \<Rightarrow> t
      | Some c \<Rightarrow>
          if list_ex (\<lambda>r. ob_message r = pd_command_id c) t then t
          else t @ [outbox_row_of k (pd_command_id c) (pd_subject c) (pd_payload c) (octets (pd_payload c))
                 (Some operation) now])"

lemma enqueue_prepared_Inr:
  assumes "enqueue_prepared octets d k prepared operation now = Inr d'"
  shows "db_ok d \<Longrightarrow> db_ok d'"
    and "d' = d\<lparr>t_outbox := outbox_after octets k prepared operation now (t_outbox d)\<rparr>"
proof -
  have "(db_ok d \<longrightarrow> db_ok d') \<and> d' = d\<lparr>t_outbox := outbox_after octets k prepared operation now (t_outbox d)\<rparr>"
  proof (cases prepared)
    case None
    with assms show ?thesis by (simp add: enqueue_prepared_def outbox_after_def)
  next
    case (Some a)
    then obtain b where e: "enqueue octets d k (pd_command_id a) (pd_subject a) (pd_payload a) (Some operation) now = Inr (b, d')"
      using assms by (auto simp: enqueue_prepared_def)
    have "b \<longleftrightarrow> \<not> list_ex (\<lambda>r. ob_message r = pd_command_id a) (t_outbox d)"
      using enqueue_Inr(2) [OF e] by (auto simp: list_ex_iff)
    then show ?thesis using enqueue_Inr(1,3) [OF e] by (simp add: Some outbox_after_def)
  qed
  then show "db_ok d \<Longrightarrow> db_ok d'"
    "d' = d\<lparr>t_outbox := outbox_after octets k prepared operation now (t_outbox d)\<rparr>" by blast+
qed

lemma record_site_edit_Inr:
  "record_site_edit d operation clock e = Inr d' \<Longrightarrow>
     d' = d\<lparr>t_site_edits := t_site_edits d @ [\<lparr>sed_operation = operation, sed_site = sx_site e,
       sed_source_ref = sx_source_ref e, sed_revision = sx_revision e, sed_created_at = clock\<rparr>]\<rparr>
     \<and> (db_ok d \<longrightarrow> db_ok d')"
  by (auto simp: record_site_edit_def sql_insert_Inr split: if_splits
      intro!: db_ok_update intro: site_edits_table.insert_ok [of _ "t_site_edits d"] db_okD)

text \<open>The links of a committed transaction.\<close>

lemma run_submission_Opened:
  assumes "run_submission octets mn t correlation reporter edit prepare event d = Inr (Opened i, d')"
  obtains reservation d1 record_id operation d2 prepared d3 d4 d5
  where "mn_begins mn" and "mn_commits mn" and "i = mn_operation mn" and "o_id operation = i"
    and "decide d (tc_record t) (ticket_scope t) (tc_print t) (tc_now t) (tc_ttl t) = Inr (reservation, d1)"
    and "reservation_outcome reservation = Proceed record_id"
    and "accept d1 i (tc_owner t) (tc_kind t) correlation (Some (tc_key t)) reporter (tc_now t) = Inr (operation, d2)"
    and "prepare operation (tc_now t) = Inr prepared"
    and "enqueue_prepared octets d2 (mn_outbox mn) prepared i (tc_now t) = Inr d3"
    and "(case edit of None \<Rightarrow> Inr d3
          | Some e \<Rightarrow> timed_out (record_site_edit d3 i (mn_clock mn) e)) = (Inr d4 :: failure_kind + db)"
    and "complete d4 record_id (Some i) 202 (tc_now t) = Inr d5"
    and "audit_record d5 (event i) (tc_now t) = Inr d'"
proof -
  from assms obtain reservation d1 where res: "mn_begins mn"
    "decide d (tc_record t) (ticket_scope t) (tc_print t) (tc_now t) (tc_ttl t) = Inr (reservation, d1)"
    by (auto simp: run_submission_def split: if_splits)
  from assms res obtain record_id where rec: "reservation_outcome reservation = Proceed record_id"
    by (auto simp: run_submission_def split: if_splits ledger_outcome.splits)
  from assms res rec obtain operation d2 prepared d3 d4 d5 where
    acc: "accept d1 (mn_operation mn) (tc_owner t) (tc_kind t) correlation (Some (tc_key t)) reporter (tc_now t)
           = Inr (operation, d2)"
    and rest: "prepare operation (tc_now t) = Inr prepared"
      "enqueue_prepared octets d2 (mn_outbox mn) prepared (o_id operation) (tc_now t) = Inr d3"
      "(case edit of None \<Rightarrow> Inr d3
          | Some e \<Rightarrow> timed_out (record_site_edit d3 (o_id operation) (mn_clock mn) e)) = (Inr d4 :: failure_kind + db)"
      "complete d4 record_id (Some (o_id operation)) 202 (tc_now t) = Inr d5"
      "audit_record d5 (event (o_id operation)) (tc_now t) = Inr d'"
      "mn_commits mn" "i = o_id operation"
    by (auto simp: run_submission_def split: if_splits)
  have "o_id operation = mn_operation mn" using acc by (auto simp: accept_Inr)
  with res rec acc rest show thesis using that by metis
qed

text \<open>What a committed transaction did to each table.\<close>

lemma submission_opened:
  assumes ok: "db_ok d" and run: "run_submission octets mn t correlation reporter edit prepare event d = Inr (Opened i, d')"
  shows "db_ok d'"
    and "live_row d (ticket_scope t) (tc_now t) = None"
    and "ledger_at d' (ticket_scope t)
           = Some (settled_row i t)"
    and "t_operations d' = t_operations d @ [accepted_row i (tc_owner t) (tc_kind t) correlation
           (Some (tc_key t)) reporter (tc_now t)]"
    and "i = mn_operation mn" and "mn_begins mn \<and> mn_commits mn"
    and "\<exists>operation prepared. o_id operation = i \<and> prepare operation (tc_now t) = Inr prepared
           \<and> t_outbox d' = outbox_after octets (mn_outbox mn) prepared i (tc_now t) (t_outbox d)"
    and "t_audit d' = t_audit d @ [audit_row_of
           (event i) (tc_now t)]"
    and "t_site_edits d' = t_site_edits d @ (case edit of None \<Rightarrow> [] | Some e \<Rightarrow>
           [\<lparr>sed_operation = i, sed_site = sx_site e, sed_source_ref = sx_source_ref e, sed_revision = sx_revision e,
             sed_created_at = mn_clock mn\<rparr>])"
proof -
  obtain reservation d1 record_id operation d2 prepared d3 d4 d5 where
    tx: "mn_begins mn" "mn_commits mn" and i: "i = mn_operation mn" and op: "o_id operation = i"
    and dec: "decide d (tc_record t) (ticket_scope t)
           (tc_print t) (tc_now t) (tc_ttl t) = Inr (reservation, d1)"
    and rec: "reservation_outcome reservation = Proceed record_id"
    and acc: "accept d1 i (tc_owner t) (tc_kind t) correlation (Some (tc_key t)) reporter (tc_now t)
           = Inr (operation, d2)"
    and prep: "prepare operation (tc_now t) = Inr prepared"
    and enq: "enqueue_prepared octets d2 (mn_outbox mn) prepared i (tc_now t) = Inr d3"
    and site: "(case edit of None \<Rightarrow> Inr d3
          | Some e \<Rightarrow> timed_out (record_site_edit d3 i (mn_clock mn) e)) = (Inr d4 :: failure_kind + db)"
    and com: "complete d4 record_id (Some i) 202 (tc_now t) = Inr d5"
    and aud: "audit_record d5 (event i) (tc_now t) = Inr d'"
    using run by (rule run_submission_Opened)
  note row = opened_row [OF ok dec rec]
  obtain t1 where d1: "d1 = d\<lparr>t_idempotency := t1\<rparr>" using decide_frame [OF dec] by blast
  have d2: "db_ok d2" "d2 = d1\<lparr>t_operations := t_operations d1 @ [accepted_row i (tc_owner t) (tc_kind t)
      correlation (Some (tc_key t)) reporter (tc_now t)]\<rparr>"
    using accept_ok [OF acc row(3)] acc by (simp_all add: accept_Inr)
  note enqd = enqueue_prepared_Inr [OF enq]
  note d3 = enqd(2)
  let ?edits = "case edit of None \<Rightarrow> [] | Some e \<Rightarrow>
           [\<lparr>sed_operation = i, sed_site = sx_site e, sed_source_ref = sx_source_ref e, sed_revision = sx_revision e,
             sed_created_at = mn_clock mn\<rparr>]"
  have d4: "d4 = d3\<lparr>t_site_edits := t_site_edits d3 @ ?edits\<rparr>" "db_ok d4"
    using site record_site_edit_Inr enqd(1) [OF d2(1)] by (cases edit; force)+
  have led4: "ledger_at d4 sc = ledger_at d1 sc" for sc
    by (simp add: d2(2) d3 d4(1) ledger_at_def)
  have com': "complete d4 (tc_record t) (Some i) 202 (tc_now t) = Inr d5" using com row(1) by simp
  note settled = settled_by_complete [OF d4(2) com']
  obtain t5 where d5: "d5 = d4\<lparr>t_idempotency := t5\<rparr>" using complete_frame [OF com] by blast
  have d6: "d' = d5\<lparr>t_audit := t_audit d5 @ [audit_row_of
      (event i) (tc_now t)]\<rparr>"
    by (rule audit_record_Inr(1) [OF aud])
  note frames = d6 d5 d4(1) d3 d2(2) d1
  have led: "ledger_at d4 (ticket_scope t)
      = Some (reserved_row (tc_record t) (ticket_scope t) (tc_print t) (tc_now t) (tc_ttl t))"
    using led4 row(4) by simp
  show "live_row d (ticket_scope t) (tc_now t) = None" using row(2) by simp
  show "db_ok d'" by (rule audit_record_Inr(2) [OF aud settled(1) [OF led]])
  show "ledger_at d' (ticket_scope t) = Some (settled_row i t)"
    using settled(2) [OF led] by (simp add: ledger_at_def d6)
  show "t_operations d' = t_operations d @ [accepted_row i (tc_owner t) (tc_kind t) correlation
           (Some (tc_key t)) reporter (tc_now t)]"
    by (simp add: frames)
  show "i = mn_operation mn" by (rule i)
  show "mn_begins mn \<and> mn_commits mn" using tx by simp
  show "\<exists>operation prepared. o_id operation = i \<and> prepare operation (tc_now t) = Inr prepared
           \<and> t_outbox d' = outbox_after octets (mn_outbox mn) prepared i (tc_now t) (t_outbox d)"
  proof (intro exI conjI)
    show "o_id operation = i" "prepare operation (tc_now t) = Inr prepared" by (rule op prep)+
    show "t_outbox d' = outbox_after octets (mn_outbox mn) prepared i (tc_now t) (t_outbox d)"
      by (simp add: frames)
  qed
  show "t_audit d' = t_audit d @ [audit_row_of
           (event i) (tc_now t)]"
    by (simp add: frames)
  show "t_site_edits d' = t_site_edits d @ ?edits"
    by (simp add: frames)
qed

text \<open>The two ways the transaction refuses a key that is not fresh.\<close>

lemma submission_live:
  assumes "db_ok d" and "live_row d (ticket_scope t) (tc_now t) = Some row" and "readable_ticket t" and "mn_begins mn"
  shows "run_submission octets mn t correlation reporter edit prepare event d =
    (case reservation_outcome (answer_of row (tc_print t)) of
       ReplayOperation i \<Rightarrow> Inr (Seen_before i, d) | _ \<Rightarrow> Inl IdempotencyConflict)"
  using decide_live [OF assms(1-3)] assms(4) by (simp add: run_submission_def split: ledger_outcome.split)

lemma submission_taken:
  assumes "db_ok d" and "key_taken d t" and "live_row d (ticket_scope t) (tc_now t) = None"
  shows "run_submission octets mn t correlation reporter edit prepare event d = Inl RequestTimeout"
proof (cases "decide d (tc_record t) (ticket_scope t) (tc_print t) (tc_now t) (tc_ttl t)")
  case (Inl e)
  then show ?thesis by (simp add: run_submission_def)
next
  case (Inr a)
  then obtain res d1 where dec: "decide d (tc_record t) (ticket_scope t) (tc_print t) (tc_now t) (tc_ttl t)
      = Inr (res, d1)" by (cases a) auto
  have res: "res = Fresh (tc_record t)" using decide_spec(2) [OF assms(1) dec] assms(3) by simp
  have "key_taken d1 t" using assms(2) decide_operations [OF dec] by (simp add: key_taken_def)
  then obtain e where "accept d1 (mn_operation mn) (tc_owner t) (tc_kind t) correlation (Some (tc_key t))
      reporter (tc_now t) = Inl e" using accept_key_taken by blast
  with dec res show ?thesis by (simp add: run_submission_def)
qed

lemma submission_seen:
  assumes "db_ok d" and "run_submission octets mn t correlation reporter edit prepare event d = Inr (Seen_before i, d')"
  shows "d' = d" and "\<exists>row. live_row d (ticket_scope t) (tc_now t) = Some row \<and> id_fingerprint row = tc_print t
    \<and> id_operation row = Some i"
proof -
  obtain res d1 where dec: "decide d (tc_record t) (ticket_scope t) (tc_print t) (tc_now t) (tc_ttl t) = Inr (res, d1)"
    using assms(2) by (auto simp: run_submission_def split: if_splits)
  have res: "reservation_outcome res = ReplayOperation i" and "d' = d"
    using assms(2) dec by (auto simp: run_submission_def split: if_splits ledger_outcome.splits)
  then show "d' = d" by simp
  show "\<exists>row. live_row d (ticket_scope t) (tc_now t) = Some row \<and> id_fingerprint row = tc_print t
    \<and> id_operation row = Some i"
  proof (cases "live_row d (ticket_scope t) (tc_now t)")
    case None
    then show ?thesis using decide_spec(2) [OF assms(1) dec] res by simp
  next
    case (Some row)
    then have "res = answer_of row (tc_print t)" using decide_spec(2) [OF assms(1) dec] by simp
    then show ?thesis using res Some by (cases "id_operation row") (auto simp: answer_of_def split: if_splits)
  qed
qed

lemma submission_door_opened:
  assumes "db_ok d" and "run_submission octets mn t correlation reporter edit prepare event d = Inr (Opened i, d')"
  shows "db_ok d' \<and> live_row d (ticket_scope t) (tc_now t) = None \<and> key_taken d' t
    \<and> ledger_at d' (ticket_scope t) = Some (settled_row i t)"
  using submission_opened(1-4) [OF assms] by (simp add: key_taken_def accepted_row_def)

subsection \<open>The public API is a door\<close>

type_synonym intake_request = "tx_mint \<times> principal \<times> intake \<times> site_edit option \<times> preparation \<times> instant"

definition intake_submit :: "intake_env \<Rightarrow> intake_request \<Rightarrow> db \<Rightarrow> failure_kind + submission \<times> db" where
  "intake_submit env r d = (case r of (mn, p, q, edit, prepare, now) \<Rightarrow> intake_admit env mn p q edit prepare now d)"

definition intake_ticket :: "intake_env \<Rightarrow> intake_request \<Rightarrow> ticket" where
  "intake_ticket env r = (case r of (mn, p, q, edit, prepare, now) \<Rightarrow> ticket_of_intake env mn p q now)"

definition intake_begins :: "intake_request \<Rightarrow> bool" where
  "intake_begins r = mn_begins (fst r)"

interpretation intake_door: submission_door "intake_submit env" "intake_ticket env" intake_begins for env
proof
  fix d d' i row and r :: intake_request
  obtain mn p q edit prepare now where r: "r = (mn, p, q, edit, prepare, now)" by (cases r) auto
  have run: "intake_submit env r = run_submission (ie_octets env) mn (intake_ticket env r) (iq_correlation q)
      (iq_reporter q) edit prepare (\<lambda>i. submission_event (mn_audit mn) (iq_audit_action q) p i (iq_correlation q))"
    by (simp add: fun_eq_iff r intake_submit_def intake_ticket_def intake_is_submission)
  have begins: "intake_begins r = mn_begins mn" by (simp add: r intake_begins_def)
  show "db_ok d' \<and> live_row d (ticket_scope (intake_ticket env r)) (tc_now (intake_ticket env r)) = None
      \<and> key_taken d' (intake_ticket env r)
      \<and> ledger_at d' (ticket_scope (intake_ticket env r)) = Some (settled_row i (intake_ticket env r))"
    if "db_ok d" "intake_submit env r d = Inr (Opened i, d')"
    using submission_door_opened that unfolding run by blast
  show "intake_submit env r d = (case reservation_outcome (answer_of row (tc_print (intake_ticket env r))) of
        ReplayOperation i \<Rightarrow> Inr (Seen_before i, d) | _ \<Rightarrow> Inl IdempotencyConflict)"
    if "db_ok d" "readable_ticket (intake_ticket env r)" "intake_begins r"
      "live_row d (ticket_scope (intake_ticket env r)) (tc_now (intake_ticket env r)) = Some row"
    using submission_live that unfolding run begins by blast
  show "intake_submit env r d = Inl RequestTimeout"
    if "db_ok d" "key_taken d (intake_ticket env r)"
      "live_row d (ticket_scope (intake_ticket env r)) (tc_now (intake_ticket env r)) = None"
    using submission_taken that unfolding run by blast
qed

subsection \<open>What a caller of the public API can rely on\<close>

text \<open>
  C6: an accepted request is whole. When the transaction of the public API answers with a new operation, the
  ledger holds its key as completed with that operation, exactly one operation was added (accepted, of the
  caller, with the key and the reporter of the route), the command that was prepared for it is in the outbox,
  a site edit is recorded beside it, and the audit trail names the caller's session; the database stays
  well-formed.
\<close>

theorem accepted_request_is_whole:
  assumes "db_ok d" and "intake_admit env mn p q edit prepare now d = Inr (Opened i, d')"
  shows "db_ok d'
    \<and> t_operations d' = t_operations d @ [accepted_row i (pl_user p) (iq_kind q) (iq_correlation q) (Some (iq_key q))
        (iq_reporter q) now]
    \<and> ledger_at d' (pl_user p, iq_route q, iq_kind q, digest_of_key (ie_sha256 env) (iq_key q))
        = Some (settled_row i (ticket_of_intake env mn p q now))
    \<and> (\<exists>operation prepared. o_id operation = i \<and> prepare operation now = Inr prepared
         \<and> t_outbox d' = outbox_after (ie_octets env) (mn_outbox mn) prepared i now (t_outbox d))
    \<and> t_site_edits d' = t_site_edits d @ (case edit of None \<Rightarrow> [] | Some e \<Rightarrow>
        [\<lparr>sed_operation = i, sed_site = sx_site e, sed_source_ref = sx_source_ref e, sed_revision = sx_revision e,
          sed_created_at = mn_clock mn\<rparr>])
    \<and> t_audit d' = t_audit d @ [audit_row_of
        (submission_event (mn_audit mn) (iq_audit_action q) p i (iq_correlation q)) now]"
  using submission_opened [OF assms(1) assms(2) [unfolded intake_is_submission]] by simp

text \<open>
  C32: a retry gets the operation of the first request. Once a request opened an operation, a request of the
  same user on the same route with the same key, made while the key is honoured and whatever other requests
  and sweeps did to the ledger in between, answers with that operation when its body has the same digest and
  is a conflict otherwise; it opens nothing and writes nothing.
\<close>

theorem retry_returns_the_first_operation:
  assumes "db_ok d" and "intake_admit env mn p q edit prepare now d = Inr (Opened i, d')"
    and "\<forall>s \<in> set steps. step_time s < now + ie_ttl env"
    and "\<forall>s \<in> set steps. \<forall>j st t. s \<noteq> Complete (mn_record mn) j st t"
    and "pl_user p' = pl_user p" and "iq_route q' = iq_route q" and "iq_kind q' = iq_kind q" and "iq_key q' = iq_key q"
    and "length (ie_sha256 env (iq_fingerprint q')) = 32" and "0 < ie_ttl env" and "mn_begins mn'"
    and "later < now + ie_ttl env"
  shows "intake_admit env mn' p' q' edit' prepare' later (fold run_step steps d') =
    (if ie_sha256 env (iq_fingerprint q') = ie_sha256 env (iq_fingerprint q)
     then Inr (Seen_before i, fold run_step steps d') else Inl IdempotencyConflict)"
  using intake_door.retry_is_answered [where env = env and r = "(mn, p, q, edit, prepare, now)"
      and r' = "(mn', p', q', edit', prepare', later)" and d = d and i = i and d' = d' and steps = steps] assms
  by (simp add: intake_submit_def intake_ticket_def intake_begins_def readable_ticket_def digest_of_body_def)

text \<open>
  C33: a key opens one operation, ever. The ledger scopes a key to its route and forgets it after a day, but
  the operation keeps it and is unique per owner, kind and key. So a later request of the user for the same
  kind of operation with that key, which the ledger no longer or never answers (because the reservation
  expired, or because it came through another route), is not accepted and not replayed: it is answered with a
  timeout, however often it is made.
\<close>

theorem spent_key_always_times_out:
  assumes "db_ok d" and "intake_admit env mn p q edit prepare now d = Inr (Opened i, d')"
    and "db_ok e" and "operations_survive d' e"
    and "pl_user p' = pl_user p" and "iq_kind q' = iq_kind q" and "iq_key q' = iq_key q"
    and "live_row e (pl_user p', iq_route q', iq_kind q', digest_of_key (ie_sha256 env) (iq_key q')) later = None"
  shows "intake_admit env mn' p' q' edit' prepare' later e = Inl RequestTimeout"
  using intake_door.spent_key_is_refused [where env = env and r = "(mn, p, q, edit, prepare, now)"
      and r' = "(mn', p', q', edit', prepare', later)" and d = d and i = i and d' = d' and e = e] assms
  by (simp add: intake_submit_def intake_ticket_def)

subsection \<open>The properties at concrete inputs\<close>

definition example_sha256 :: "string \<Rightarrow> digest" where
  "example_sha256 s = replicate 32 (word_of_nat (length s))"

definition example_intake_env :: intake_env where
  "example_intake_env = \<lparr>ie_sha256 = example_sha256, ie_octets = (\<lambda>_. 2), ie_ttl = 1000\<rparr>"

definition example_mint :: tx_mint where
  "example_mint = \<lparr>mn_record = 101, mn_operation = 102, mn_command = 103, mn_outbox = 104, mn_audit = 105,
     mn_clock = 100, mn_begins = True, mn_commits = True\<rparr>"

definition example_principal :: principal where
  "example_principal = \<lparr>pl_user = 1, pl_session = 11, pl_device = None, pl_kind = Browser\<rparr>"

definition example_intake :: "string \<Rightarrow> intake" where
  "example_intake route = \<lparr>iq_route = route, iq_kind = ''content.capture.submit'',
     iq_audit_action = ''content.capture.submit'', iq_key = ''k1'', iq_fingerprint = ''body'',
     iq_correlation = ''correlation:1'', iq_reporter = Some ''ratatoskr-extractor''\<rparr>"

definition example_preparation :: preparation where
  "example_preparation _ _ = Inr (Some \<lparr>pd_subject = Subject ''cmd.content.capture.requested.v1'',
     pd_command_id = 103, pd_payload = JObject []\<rparr>)"

definition example_admission :: "failure_kind + submission \<times> db" where
  "example_admission = intake_admit example_intake_env example_mint example_principal (example_intake ''/v1/captures'')
     None example_preparation 100 identity_example"

lemma example_admitted:
  obtains d where "intake_admit example_intake_env example_mint example_principal (example_intake ''/v1/captures'')
     None example_preparation 100 identity_example = Inr (Opened 102, d)"
proof -
  have "case example_admission of Inr (Opened i, _) \<Rightarrow> i = 102 | _ \<Rightarrow> False" by code_simp
  then show thesis using that
    by (auto simp: example_admission_def split: sum.splits submission.splits)
qed

theorem accepted_request_is_whole_witness:
  "\<exists>d. intake_admit example_intake_env example_mint example_principal (example_intake ''/v1/captures'')
     None example_preparation 100 identity_example = Inr (Opened 102, d)
   \<and> length (t_operations d) = 1 \<and> (\<exists>x \<in> set (t_outbox d). ob_message x = 103) \<and> length (t_audit d) = 1"
proof -
  obtain d where run: "intake_admit example_intake_env example_mint example_principal (example_intake ''/v1/captures'')
     None example_preparation 100 identity_example = Inr (Opened 102, d)" by (rule example_admitted)
  have "t_operations identity_example = []" "t_audit identity_example = []" "t_outbox identity_example = []"
    by (simp_all add: identity_example_def empty_db_def)
  with accepted_request_is_whole [OF identity_example_ok run] run show ?thesis
    by (auto simp: example_preparation_def outbox_after_def outbox_row_of_def)
qed

theorem retry_returns_the_first_operation_witness:
  "\<exists>d. intake_admit example_intake_env example_mint example_principal (example_intake ''/v1/captures'')
       None example_preparation 100 identity_example = Inr (Opened 102, d)
     \<and> intake_admit example_intake_env example_mint example_principal (example_intake ''/v1/captures'')
       None example_preparation 200 d = Inr (Seen_before 102, d)"
proof -
  obtain d where run: "intake_admit example_intake_env example_mint example_principal (example_intake ''/v1/captures'')
     None example_preparation 100 identity_example = Inr (Opened 102, d)" by (rule example_admitted)
  from retry_returns_the_first_operation [OF identity_example_ok run, where steps = "[]" and mn' = example_mint
      and p' = example_principal and q' = "example_intake ''/v1/captures''" and later = 200] run
  show ?thesis by (simp add: example_intake_env_def example_sha256_def example_mint_def)
qed

theorem spent_key_always_times_out_witness:
  "\<exists>d. intake_admit example_intake_env example_mint example_principal (example_intake ''/v1/captures'')
       None example_preparation 100 identity_example = Inr (Opened 102, d)
     \<and> intake_admit example_intake_env example_mint example_principal (example_intake ''/v1/captures/blobs'')
       None example_preparation 200 d = Inl RequestTimeout"
proof -
  obtain d where run: "intake_admit example_intake_env example_mint example_principal (example_intake ''/v1/captures'')
     None example_preparation 100 identity_example = Inr (Opened 102, d)" by (rule example_admitted)
  have d: "d = snd (projr example_admission)" using run by (simp add: example_admission_def)
  have "live_row (snd (projr example_admission)) (1, ''/v1/captures/blobs'', ''content.capture.submit'',
      digest_of_key example_sha256 ''k1'') 200 = None" by code_simp
  then have free: "live_row d (pl_user example_principal, iq_route (example_intake ''/v1/captures/blobs''),
      iq_kind (example_intake ''/v1/captures/blobs''),
      digest_of_key (ie_sha256 example_intake_env) (iq_key (example_intake ''/v1/captures/blobs''))) 200 = None"
    unfolding d by (simp add: example_principal_def example_intake_def example_intake_env_def)
  have "db_ok d" using submission_opened(1) [OF identity_example_ok run [unfolded intake_is_submission]] .
  moreover have "operations_survive d d" by (auto simp: operations_survive_def list_all_iff list_ex_iff)
  ultimately show ?thesis
    using spent_key_always_times_out [OF identity_example_ok run, of d example_principal
        "example_intake ''/v1/captures/blobs''" 200 example_mint None example_preparation] free run
    by (simp add: example_intake_def)
qed

end
