(* ===== verification/Capture_Command.thy ===== *)
theory Capture_Command
  imports Subjects
begin

text \<open>
  \<^verbatim>\<open>crates/eventing/src/content_capture.rs\<close> and \<^verbatim>\<open>crates/core/src/address.rs\<close>: the one command that asks
  the extractor for a document, and the addresses Platform hands on. The grammars, validators and
  serializers of the contracts crate, the URL parser and SHA-256 are the fields of \<open>capture_env\<close>.
\<close>

text \<open>\<open>BlobRef\<close>: the members the code reads, next to the value that is carried.\<close>

record blob_ref =
  br_owner_service :: string
  br_length_bytes :: "64 word"
  br_value :: json

datatype capture_source = CaptureUrl string | CaptureBlob blob_ref

datatype capture_error = InvalidMember string

record capture_request =
  cq_operation :: uuid
  cq_key_hex :: string
  cq_url :: "string option"
  cq_blob :: "blob_ref option"

record wire_command =
  wc_command_id :: uuid
  wc_command_type :: string
  wc_issued_at :: instant
  wc_producer :: string
  wc_aggregate :: string
  wc_correlation :: string
  wc_tenant :: string
  wc_payload :: "(string \<times> json) list"

record parsed_url =
  pu_scheme :: string
  pu_host :: "string option"

record capture_env =
  cp_sha256 :: "string \<Rightarrow> 8 word list"
  cp_url :: "string \<Rightarrow> parsed_url option"
  cp_digest_hex :: "string \<Rightarrow> string option"
  cp_capture_url :: "string \<Rightarrow> string option"
  cp_producer :: "string \<Rightarrow> string option"
  cp_entity :: "string \<Rightarrow> string option"
  cp_entity_of_operation :: "uuid \<Rightarrow> string"
  cp_tenant_of_user :: "uuid \<Rightarrow> string"
  cp_capture_type :: string
  cp_validate :: "capture_request \<Rightarrow> bool"
  cp_capture_value :: "capture_request \<Rightarrow> json option"
  cp_command_value :: "wire_command \<Rightarrow> json option"

definition platform_producer :: string where
  "platform_producer = ''ratatoskr-platform''"

text \<open>\<open>format!("{:x}", digest)\<close>\<close>

definition hex_digit :: "nat \<Rightarrow> char" where
  "hex_digit n = char_of (if n < 10 then 48 + n else 87 + n)"

definition lower_hex :: "8 word list \<Rightarrow> string" where
  "lower_hex bs = concat (map (\<lambda>b. [hex_digit (unat b div 16), hex_digit (unat b mod 16)]) bs)"

definition is_capture_url :: "capture_env \<Rightarrow> string \<Rightarrow> bool" where
  "is_capture_url env raw \<longleftrightarrow> cp_capture_url env raw \<noteq> None"

record capture_command =
  cco_command_id :: uuid
  cco_operation_id :: uuid
  cco_principal :: uuid
  cco_correlation :: string
  cco_idempotency_key :: string
  cco_issued_at :: instant
  cco_source :: capture_source

definition capture_members :: "capture_env \<Rightarrow> capture_source \<Rightarrow> capture_error + string option \<times> blob_ref option" where
  "capture_members env s =
     (case s of
        CaptureUrl url \<Rightarrow> bindE (ok_or (InvalidMember ''url'') (cp_capture_url env url)) (\<lambda>u. Inr (Some u, None))
      | CaptureBlob blob \<Rightarrow> Inr (None, Some blob))"

definition capture_envelope :: "capture_env \<Rightarrow> capture_command \<Rightarrow> capture_error + json" where
  "capture_envelope env c =
     bindE (ok_or (InvalidMember ''idempotency_key'')
              (cp_digest_hex env (lower_hex (cp_sha256 env (cco_idempotency_key c))))) (\<lambda>hex.
     bindE (capture_members env (cco_source c)) (\<lambda>(url, blob).
       let payload = \<lparr>cq_operation = cco_operation_id c, cq_key_hex = hex, cq_url = url, cq_blob = blob\<rparr>
       in if \<not> cp_validate env payload then Inl (InvalidMember ''source'')
          else case cp_capture_value env payload of
            Some (JObject body) \<Rightarrow>
              bindE (ok_or (InvalidMember ''producer'') (cp_producer env platform_producer)) (\<lambda>producer.
              bindE (ok_or (InvalidMember ''correlation_id'') (cp_entity env (cco_correlation c))) (\<lambda>correlation.
                ok_or (InvalidMember ''envelope'') (cp_command_value env
                  \<lparr>wc_command_id = cco_command_id c, wc_command_type = cp_capture_type env,
                   wc_issued_at = cco_issued_at c, wc_producer = producer,
                   wc_aggregate = cp_entity_of_operation env (cco_operation_id c), wc_correlation = correlation,
                   wc_tenant = cp_tenant_of_user env (cco_principal c), wc_payload = body\<rparr>)))
          | _ \<Rightarrow> Inl (InvalidMember ''payload'')))"

subsection \<open>Addresses\<close>

definition max_url :: nat where
  "max_url = 2048"

definition is_capturable :: "capture_env \<Rightarrow> string \<Rightarrow> bool" where
  "is_capturable env raw =
     (if max_url < length raw then False
      else case cp_url env raw of
        None \<Rightarrow> False
      | Some url \<Rightarrow> pu_scheme url \<in> {''http'', ''https''} \<and> pu_host url \<noteq> None)"

text \<open>The rendering of a digest is the lowercase hexadecimal text the contracts require.\<close>

lemma hex_digit_lower: "n < 16 \<Longrightarrow> is_lower_hex (hex_digit n)"
  by (auto simp: hex_digit_def char_classes of_char_of)

lemma lower_hex_digest: "length bs = 32 \<Longrightarrow> sha256_hex (lower_hex bs)"
proof -
  assume len: "length bs = 32"
  have "length (lower_hex bs) = 2 * length bs"
    by (induction bs) (simp_all add: lower_hex_def)
  moreover have "list_all is_lower_hex (lower_hex bs)"
  proof -
    have "unat b div 16 < 16" for b :: "8 word"
    proof -
      have "unat b < 2 ^ LENGTH(8)" by (rule unsigned_less)
      then show ?thesis by simp
    qed
    then show ?thesis by (auto simp: lower_hex_def list_all_iff hex_digit_lower)
  qed
  ultimately show ?thesis using len by (simp add: sha256_hex_def)
qed

end
