(* ===== verification/Captures.thy ===== *)
theory Captures
  imports Intake Capture_Command
begin

text \<open>
  \<^verbatim>\<open>crates/public-api/src/captures.rs\<close>: submitting an address or a stored blob for capture. The JSON
  readers, the permalink grammar and the social contract are the fields of \<open>social_env\<close>.
\<close>

datatype social_provider = ProviderX | ProviderInstagram | ProviderThreads | ProviderOther

datatype acquisition_method = BrowserExtensionCapture | OtherAcquisition

datatype saved_authority = ExplicitUserCapture | OtherAuthority

record social_provenance =
  sp_provider :: social_provider
  sp_captured_at :: instant
  sp_acquisition :: acquisition_method
  sp_authority :: saved_authority

record submit_capture =
  sub_url :: string
  sub_social :: "social_provenance option"

record social_request =
  sq_operation :: uuid
  sq_key_hex :: string
  sq_permalink :: string
  sq_captured_at :: instant
  sq_provider :: social_provider
  sq_acquisition :: acquisition_method
  sq_authority :: saved_authority

record social_env =
  sv_read_submit :: "string \<Rightarrow> submit_capture option"
  sv_read_blob :: "string \<Rightarrow> blob_ref option"
  sv_permalink :: "string \<Rightarrow> string option"
  sv_command_subject :: "social_provider \<Rightarrow> string"
  sv_social_type :: string
  sv_social_value :: "social_request \<Rightarrow> json option"

definition capture_route :: string where
  "capture_route = ''/v1/captures''"

definition blob_route :: string where
  "blob_route = ''/v1/captures/blobs''"

definition telegram_blob_owner :: string where
  "telegram_blob_owner = ''ratatoskr-telegram''"

definition max_blob_capture_bytes :: "64 word" where
  "max_blob_capture_bytes = 52428800"

definition capture_kind :: string where
  "capture_kind = ''content.capture.submit''"

definition capture_command_type :: string where
  "capture_command_type = ''content.capture.requested.v1''"

definition extractor_producer :: string where
  "extractor_producer = ''ratatoskr-extractor''"

text \<open>\<open>header\<close> is the \<^verbatim>\<open>Idempotency-Key\<close> header, when it is visible text.\<close>

definition capture_key :: "string option \<Rightarrow> failure_kind + string" where
  "capture_key header =
     ok_or MissingIdempotencyKey
       (case map_option trim header of
          Some value \<Rightarrow> if value \<noteq> [] \<and> length value \<le> 255 then Some value else None
        | None \<Rightarrow> None)"

definition is_provider_permalink :: "capture_env \<Rightarrow> string \<Rightarrow> social_provider \<Rightarrow> bool" where
  "is_provider_permalink env url provider =
     (case cp_url env url of
        None \<Rightarrow> False
      | Some parsed \<Rightarrow>
          if pu_scheme parsed \<noteq> ''https'' then False
          else (case pu_host parsed of
                  None \<Rightarrow> False
                | Some host \<Rightarrow>
                    let host = map to_ascii_lowercase host
                    in (case provider of
                          ProviderX \<Rightarrow> host \<in> {''x.com'', ''www.x.com'', ''mobile.x.com'', ''twitter.com'',
                            ''www.twitter.com'', ''mobile.twitter.com''}
                        | ProviderInstagram \<Rightarrow> host \<in> {''instagram.com'', ''www.instagram.com''}
                        | ProviderThreads \<Rightarrow> host \<in> {''threads.net'', ''www.threads.net'', ''threads.com'',
                            ''www.threads.com''}
                        | ProviderOther \<Rightarrow> False)))"

definition capture_parse ::
  "capture_env \<Rightarrow> social_env \<Rightarrow> string option \<Rightarrow> string \<Rightarrow> failure_kind + string \<times> submit_capture" where
  "capture_parse env sv header body =
     bindE (capture_key header) (\<lambda>key.
     bindE (ok_or InvalidRequest (sv_read_submit sv body)) (\<lambda>submit.
       if \<not> is_capturable env (sub_url submit) \<or> \<not> is_capture_url env (sub_url submit) then Inl InvalidRequest
       else if (case sub_social submit of
                  Some social \<Rightarrow> sp_acquisition social \<noteq> BrowserExtensionCapture
                    \<or> sp_authority social \<noteq> ExplicitUserCapture
                    \<or> \<not> is_provider_permalink env (sub_url submit) (sp_provider social)
                | None \<Rightarrow> False)
            then Inl InvalidRequest
       else Inr (key, submit)))"

definition capture_reporter :: "submit_capture \<Rightarrow> string" where
  "capture_reporter submit =
     (case map_option sp_provider (sub_social submit) of
        Some ProviderX \<Rightarrow> ''ratatoskr-x''
      | Some ProviderInstagram \<Rightarrow> ''ratatoskr-instagram''
      | Some ProviderThreads \<Rightarrow> ''ratatoskr-threads''
      | _ \<Rightarrow> extractor_producer)"

subsection \<open>The commands\<close>

definition command_subject :: "string \<Rightarrow> failure_kind + subject" where
  "command_subject command_type = timed_out (subject_new Command command_type)"

definition content_command ::
  "capture_env \<Rightarrow> uuid \<Rightarrow> operation \<Rightarrow> principal \<Rightarrow> intake \<Rightarrow> instant \<Rightarrow> capture_source \<Rightarrow> failure_kind + json" where
  "content_command env command_id operation p q now source =
     timed_out (capture_envelope env
       \<lparr>cco_command_id = command_id, cco_operation_id = o_id operation, cco_principal = pl_user p,
        cco_correlation = iq_correlation q, cco_idempotency_key = iq_key q, cco_issued_at = now,
        cco_source = source\<rparr>)"

definition social_command ::
  "capture_env \<Rightarrow> social_env \<Rightarrow> uuid \<Rightarrow> operation \<Rightarrow> principal \<Rightarrow> string \<Rightarrow> instant \<Rightarrow> string \<Rightarrow> social_provenance
     \<Rightarrow> failure_kind + json" where
  "social_command env sv command_id operation p key now url social =
     bindE (ok_or InvalidRequest (sv_permalink sv url)) (\<lambda>permalink.
     bindE (ok_or RequestTimeout (cp_digest_hex env (lower_hex (cp_sha256 env key)))) (\<lambda>hex.
       case sv_social_value sv
              \<lparr>sq_operation = o_id operation, sq_key_hex = hex, sq_permalink = permalink,
               sq_captured_at = sp_captured_at social, sq_provider = sp_provider social,
               sq_acquisition = sp_acquisition social, sq_authority = sp_authority social\<rparr> of
         Some (JObject payload) \<Rightarrow>
           bindE (ok_or RequestTimeout (cp_producer env platform_producer)) (\<lambda>producer.
             ok_or RequestTimeout (cp_command_value env
               \<lparr>wc_command_id = command_id, wc_command_type = sv_social_type sv, wc_issued_at = now,
                wc_producer = producer, wc_aggregate = cp_entity_of_operation env (o_id operation),
                wc_correlation = cp_entity_of_operation env (o_id operation),
                wc_tenant = cp_tenant_of_user env (pl_user p), wc_payload = payload\<rparr>))
       | _ \<Rightarrow> Inl RequestTimeout))"

definition prepare_url ::
  "capture_env \<Rightarrow> social_env \<Rightarrow> uuid \<Rightarrow> principal \<Rightarrow> intake \<Rightarrow> submit_capture \<Rightarrow> operation \<Rightarrow> instant
     \<Rightarrow> failure_kind + prepared" where
  "prepare_url env sv command_id p q submit operation now =
     (case sub_social submit of
        Some social \<Rightarrow>
          bindE (command_subject (sv_command_subject sv (sp_provider social))) (\<lambda>subj.
          bindE (social_command env sv command_id operation p (iq_key q) now (sub_url submit) social) (\<lambda>payload.
            Inr \<lparr>pd_subject = subj, pd_command_id = command_id, pd_payload = payload\<rparr>))
      | None \<Rightarrow>
          bindE (command_subject capture_command_type) (\<lambda>subj.
          bindE (content_command env command_id operation p q now (CaptureUrl (sub_url submit))) (\<lambda>payload.
            Inr \<lparr>pd_subject = subj, pd_command_id = command_id, pd_payload = payload\<rparr>)))"

definition prepare_blob ::
  "capture_env \<Rightarrow> uuid \<Rightarrow> principal \<Rightarrow> intake \<Rightarrow> blob_ref \<Rightarrow> operation \<Rightarrow> instant \<Rightarrow> failure_kind + prepared" where
  "prepare_blob env command_id p q blob operation now =
     bindE (command_subject capture_command_type) (\<lambda>subj.
     bindE (content_command env command_id operation p q now (CaptureBlob blob)) (\<lambda>payload.
       Inr \<lparr>pd_subject = subj, pd_command_id = command_id, pd_payload = payload\<rparr>))"

subsection \<open>The routes\<close>

text \<open>The answer is the operation to poll (202), or the failure the middleware renders.\<close>

definition url_intake :: "string \<Rightarrow> submit_capture \<Rightarrow> string \<Rightarrow> string \<Rightarrow> intake" where
  "url_intake key submit body correlation =
     \<lparr>iq_route = capture_route, iq_kind = capture_kind, iq_audit_action = capture_kind, iq_key = key,
      iq_fingerprint = body, iq_correlation = correlation, iq_reporter = Some (capture_reporter submit)\<rparr>"

definition submit_url ::
  "capture_env \<Rightarrow> social_env \<Rightarrow> intake_env \<Rightarrow> tx_mint \<Rightarrow> principal \<Rightarrow> string option \<Rightarrow> string \<Rightarrow> string \<Rightarrow> instant
     \<Rightarrow> db \<Rightarrow> (failure_kind + uuid) \<times> db" where
  "submit_url env sv ie mn p header body correlation now d =
     (case capture_parse env sv header body of
        Inl kind \<Rightarrow> (Inl kind, d)
      | Inr (key, submit) \<Rightarrow>
          let q = url_intake key submit body correlation
          in intake_accept ie mn p q (prepare_url env sv (mn_command mn) p q submit) now d)"

definition blob_intake :: "string \<Rightarrow> string \<Rightarrow> string \<Rightarrow> intake" where
  "blob_intake key body correlation =
     \<lparr>iq_route = blob_route, iq_kind = capture_kind, iq_audit_action = capture_kind, iq_key = key,
      iq_fingerprint = body, iq_correlation = correlation, iq_reporter = Some extractor_producer\<rparr>"

definition submit_blob ::
  "capture_env \<Rightarrow> social_env \<Rightarrow> intake_env \<Rightarrow> tx_mint \<Rightarrow> principal \<Rightarrow> string option \<Rightarrow> string \<Rightarrow> string \<Rightarrow> instant
     \<Rightarrow> db \<Rightarrow> (failure_kind + uuid) \<times> db" where
  "submit_blob env sv ie mn p header body correlation now d =
     (if pl_kind p \<noteq> TelegramMiniApp then (Inl Forbidden, d)
      else case capture_key header of
        Inl kind \<Rightarrow> (Inl kind, d)
      | Inr key \<Rightarrow>
          (case sv_read_blob sv body of
             None \<Rightarrow> (Inl InvalidRequest, d)
           | Some blob \<Rightarrow>
               if \<not> (1 \<le> br_length_bytes blob \<and> br_length_bytes blob \<le> max_blob_capture_bytes)
               then (Inl InvalidRequest, d)
               else if br_owner_service blob \<noteq> telegram_blob_owner then (Inl Forbidden, d)
               else let q = blob_intake key body correlation
                    in intake_accept ie mn p q (prepare_blob env (mn_command mn) p q blob) now d))"

end
