(* ===== verification/Webhook.thy ===== *)
theory Webhook
  imports Captures
begin

text \<open>
  The crate \<^verbatim>\<open>crates/ingest\<close>: a registered source pushes a signal, and it becomes the operation and the
  command that \<^verbatim>\<open>POST /v1/captures\<close> would have made. Everything up to the transaction is \<open>receive\<close>; the
  transaction is \<open>webhook_accept\<close>, the second door of \<open>submission_door\<close>.
\<close>

subsection \<open>Targets and sources\<close>

datatype target = ContentCapture

definition all_targets :: "target list" where
  "all_targets = [ContentCapture]"

fun target_str :: "target \<Rightarrow> string" where
  "target_str ContentCapture = ''content.capture''"

definition target_parse :: "string \<Rightarrow> target option" where
  "target_parse raw = find (\<lambda>t. target_str t = raw) all_targets"

fun target_reporter :: "target \<Rightarrow> string" where
  "target_reporter ContentCapture = ''ratatoskr-extractor''"

fun target_operation_kind :: "target \<Rightarrow> string" where
  "target_operation_kind ContentCapture = ''content.capture.submit''"

fun target_command_type :: "target \<Rightarrow> string" where
  "target_command_type ContentCapture = ''content.capture.requested.v1''"

record webhook_source =
  ws_id :: uuid
  ws_owner :: uuid
  ws_target :: target
  ws_label :: string

datatype source_error = SourcePersistence persistence_error | UnknownTarget uuid string

definition source_authenticate :: "db \<Rightarrow> digest \<Rightarrow> source_error + webhook_source option" where
  "source_authenticate d presented =
     (case fetch_optional (\<lambda>r. so_token_hash r = presented \<and> so_disabled_at r = None) (t_sources d) of
        None \<Rightarrow> Inr None
      | Some r \<Rightarrow>
          (case target_parse (so_target r) of
             None \<Rightarrow> Inl (UnknownTarget (so_id r) (so_target r))
           | Some t \<Rightarrow> Inr (Some \<lparr>ws_id = so_id r, ws_owner = so_owner r, ws_target = t, ws_label = so_label r\<rparr>)))"

definition register_source ::
  "db \<Rightarrow> uuid \<Rightarrow> uuid \<Rightarrow> string \<Rightarrow> digest \<Rightarrow> target \<Rightarrow> instant \<Rightarrow> persistence_error + uuid \<times> db" where
  "register_source d k owner label token t now =
     persist (bindE (sql_insert source_ok source_clash
              \<lparr>so_id = k, so_owner = owner, so_label = label, so_token_hash = token, so_target = target_str t,
               so_created_at = now, so_disabled_at = None\<rparr> (t_sources d)) (\<lambda>ts.
       if user_exists d owner then Inr (k, d\<lparr>t_sources := ts\<rparr>) else Inl Foreign_key_violation))"

subsection \<open>Reading a signal\<close>

text \<open>\<open>ge_read_signal\<close> is the JSON reader of \<^verbatim>\<open>WebhookSignal\<close>: the address of a readable body.\<close>

record ingest_env =
  ge_capture :: capture_env
  ge_intake :: intake_env
  ge_uuid_text :: "uuid \<Rightarrow> string"
  ge_read_signal :: "string \<Rightarrow> string option"

definition webhook_action :: string where
  "webhook_action = ''ingest.webhook.receive''"

definition webhook_route :: string where
  "webhook_route = ''/v1/ingest/webhooks''"

definition max_external_id :: nat where
  "max_external_id = 200"

definition qualify :: "ingest_env \<Rightarrow> uuid \<Rightarrow> string \<Rightarrow> string" where
  "qualify env source_id external_id = ge_uuid_text env source_id @ CHR '':'' # external_id"

definition webhook_parse :: "ingest_env \<Rightarrow> string option \<Rightarrow> string \<Rightarrow> failure_kind + string \<times> string" where
  "webhook_parse env header body =
     bindE (ok_or MissingIdempotencyKey
       (case map_option trim header of
          Some value \<Rightarrow> if value \<noteq> [] \<and> length value \<le> max_external_id then Some value else None
        | None \<Rightarrow> None)) (\<lambda>key.
     bindE (ok_or InvalidRequest (ge_read_signal env body)) (\<lambda>url.
       if \<not> is_capturable (ge_capture env) url \<or> \<not> is_capture_url (ge_capture env) url then Inl InvalidRequest
       else Inr (key, url)))"

definition decision_event ::
  "uuid \<Rightarrow> webhook_source \<Rightarrow> string \<Rightarrow> uuid \<Rightarrow> audit_outcome \<Rightarrow> string \<Rightarrow> audit_event" where
  "decision_event k source target_kind target_id outcome correlation =
     \<lparr>ae_id = k, ae_actor_user = Some (ws_owner source), ae_actor_session = None, ae_action = webhook_action,
      ae_target_kind = target_kind, ae_target = Some target_id, ae_outcome = outcome, ae_correlation = correlation\<rparr>"

subsection \<open>The transaction\<close>

definition webhook_reserve ::
  "ingest_env \<Rightarrow> db \<Rightarrow> uuid \<Rightarrow> webhook_source \<Rightarrow> string \<Rightarrow> string \<Rightarrow> instant
     \<Rightarrow> failure_kind + ledger_outcome \<times> db" where
  "webhook_reserve env d k source qualified body now =
     (case reserve d k (ws_owner source, webhook_route, target_operation_kind (ws_target source),
              digest_of_key (ie_sha256 (ge_intake env)) qualified)
            (digest_of_body (ie_sha256 (ge_intake env)) body) now (ie_ttl (ge_intake env)) of
        Inr ((reservation, _), d') \<Rightarrow>
          (case reservation_outcome reservation of
             Refuse \<Rightarrow> Inl IdempotencyConflict
           | res \<Rightarrow> Inr (res, d'))
      | Inl _ \<Rightarrow> Inl RequestTimeout)"

definition open_operation ::
  "db \<Rightarrow> uuid \<Rightarrow> webhook_source \<Rightarrow> string \<Rightarrow> string \<Rightarrow> instant \<Rightarrow> (operation \<times> db) option" where
  "open_operation d k source qualified correlation now =
     (case accept d k (ws_owner source) (target_operation_kind (ws_target source)) correlation (Some qualified)
            (Some (target_reporter (ws_target source))) now of
        Inr a \<Rightarrow> Some a
      | Inl _ \<Rightarrow> None)"

definition webhook_accept ::
  "ingest_env \<Rightarrow> tx_mint \<Rightarrow> webhook_source \<Rightarrow> string \<Rightarrow> string \<Rightarrow> string \<Rightarrow> string \<Rightarrow> instant \<Rightarrow> db
     \<Rightarrow> failure_kind + submission \<times> db" where
  "webhook_accept env mn source key url body correlation now d =
     (let qualified = qualify env (ws_id source) key in
      bindE (timed_out (subject_new Command (target_command_type (ws_target source)))) (\<lambda>subj.
      if \<not> mn_begins mn then Inl RequestTimeout
      else bindE (webhook_reserve env d (mn_record mn) source qualified body now) (\<lambda>(reserved, d1).
        (case reserved of
           ReplayOperation operation_id \<Rightarrow> Inr (Seen_before operation_id, d)
         | Refuse \<Rightarrow> Inl IdempotencyConflict
         | Proceed record_id \<Rightarrow>
             bindE (ok_or RequestTimeout (open_operation d1 (mn_operation mn) source qualified correlation now))
               (\<lambda>(operation, d2).
             bindE (timed_out (capture_envelope (ge_capture env)
               \<lparr>cco_command_id = mn_command mn, cco_operation_id = o_id operation, cco_principal = ws_owner source,
                cco_correlation = correlation, cco_idempotency_key = key, cco_issued_at = now,
                cco_source = CaptureUrl url\<rparr>)) (\<lambda>payload.
             bindE (timed_out (enqueue (ie_octets (ge_intake env)) d2 (mn_outbox mn) (mn_command mn) subj payload
               (Some (o_id operation)) now)) (\<lambda>(_, d3).
             bindE (timed_out (complete d3 record_id (Some (o_id operation)) 202 now)) (\<lambda>d4.
             bindE (timed_out (audit_record d4
               (decision_event (mn_audit mn) source ''operation'' (o_id operation) Allowed correlation) now)) (\<lambda>d5.
               if mn_commits mn then Inr (Opened (o_id operation), d5) else Inl RequestTimeout)))))))))"

subsection \<open>The route\<close>

text \<open>
  \<open>denied\<close> is the identifier of the audit row of a denial and \<open>clock\<close> what the handler read before writing it
  and before asking the limiter; \<open>now\<close> is read by \<open>accept\<close>.
\<close>

definition receive ::
  "ingest_env \<Rightarrow> tx_mint \<Rightarrow> uuid \<Rightarrow> uuid \<Rightarrow> string option \<Rightarrow> string option \<Rightarrow> string \<Rightarrow> string
     \<Rightarrow> instant \<times> instant \<Rightarrow> actor_limiter \<Rightarrow> db \<Rightarrow> (failure_kind + uuid) \<times> actor_limiter \<times> db" where
  "receive env mn denied source_id authorization key_header body correlation = (\<lambda>(clock, now) l d.
     case bearer (ie_sha256 (ge_intake env)) authorization of
       None \<Rightarrow> (Inl NotAuthenticated, l, d)
     | Some presented \<Rightarrow>
         (case source_authenticate d presented of
            Inr None \<Rightarrow> (Inl NotAuthenticated, l, d)
          | Inl _ \<Rightarrow> (Inl RequestTimeout, l, d)
          | Inr (Some source) \<Rightarrow>
              if ws_id source \<noteq> source_id
              then (Inl NotAuthenticated, l,
                    case audit_record d (decision_event denied source ''webhook_source'' source_id Denied correlation)
                           clock of
                      Inr d' \<Rightarrow> d' | Inl _ \<Rightarrow> d)
              else (case admit l (ws_id source) clock of
                      (False, l') \<Rightarrow> (Inl RateLimited, l', d)
                    | (True, l') \<Rightarrow>
                        (case webhook_parse env key_header body of
                           Inl kind \<Rightarrow> (Inl kind, l', d)
                         | Inr (key, url) \<Rightarrow>
                             (case webhook_accept env mn source key url body correlation now d of
                                Inr (Opened operation_id, d') \<Rightarrow> (Inr operation_id, l', d')
                              | Inr (Seen_before operation_id, d') \<Rightarrow> (Inr operation_id, l', d')
                              | Inl kind \<Rightarrow> (Inl kind, l', d))))))"

subsection \<open>The webhook is a door\<close>

definition webhook_ticket :: "ingest_env \<Rightarrow> tx_mint \<Rightarrow> webhook_source \<Rightarrow> string \<Rightarrow> string \<Rightarrow> instant \<Rightarrow> ticket" where
  "webhook_ticket env mn source key body now =
     \<lparr>tc_record = mn_record mn, tc_owner = ws_owner source, tc_route = webhook_route,
      tc_kind = target_operation_kind (ws_target source), tc_key = qualify env (ws_id source) key,
      tc_key_digest = digest_of_key (ie_sha256 (ge_intake env)) (qualify env (ws_id source) key),
      tc_print = digest_of_body (ie_sha256 (ge_intake env)) body, tc_now = now, tc_ttl = ie_ttl (ge_intake env)\<rparr>"

lemma webhook_ticket_simps [simp]:
  "tc_record (webhook_ticket env mn source key body now) = mn_record mn"
  "tc_owner (webhook_ticket env mn source key body now) = ws_owner source"
  "tc_kind (webhook_ticket env mn source key body now) = target_operation_kind (ws_target source)"
  "tc_key (webhook_ticket env mn source key body now) = qualify env (ws_id source) key"
  "tc_print (webhook_ticket env mn source key body now) = digest_of_body (ie_sha256 (ge_intake env)) body"
  "tc_now (webhook_ticket env mn source key body now) = now"
  "tc_ttl (webhook_ticket env mn source key body now) = ie_ttl (ge_intake env)"
  "ticket_scope (webhook_ticket env mn source key body now) = (ws_owner source, webhook_route,
     target_operation_kind (ws_target source), digest_of_key (ie_sha256 (ge_intake env)) (qualify env (ws_id source) key))"
  by (simp_all add: webhook_ticket_def ticket_scope_def)

definition webhook_prepare ::
  "ingest_env \<Rightarrow> uuid \<Rightarrow> webhook_source \<Rightarrow> string \<Rightarrow> string \<Rightarrow> string \<Rightarrow> subject \<Rightarrow> preparation" where
  "webhook_prepare env command_id source key url correlation subj operation now =
     bindE (timed_out (capture_envelope (ge_capture env)
       \<lparr>cco_command_id = command_id, cco_operation_id = o_id operation, cco_principal = ws_owner source,
        cco_correlation = correlation, cco_idempotency_key = key, cco_issued_at = now,
        cco_source = CaptureUrl url\<rparr>)) (\<lambda>payload.
       Inr (Some \<lparr>pd_subject = subj, pd_command_id = command_id, pd_payload = payload\<rparr>))"

definition capture_subject :: subject where
  "capture_subject = Subject ''cmd.content.capture.requested.v1''"

lemma capture_subject_new: "subject_new Command ''content.capture.requested.v1'' = Inr capture_subject"
  by code_simp

lemma bind_webhook_reserve:
  "bindE (webhook_reserve env d k source qualified body now) f =
     bindE (timed_out (decide d k (ws_owner source, webhook_route, target_operation_kind (ws_target source),
              digest_of_key (ie_sha256 (ge_intake env)) qualified)
            (digest_of_body (ie_sha256 (ge_intake env)) body) now (ie_ttl (ge_intake env))))
       (\<lambda>(res, d'). case reservation_outcome res of Refuse \<Rightarrow> Inl IdempotencyConflict | out \<Rightarrow> f (out, d'))"
  by (cases "decide d k (ws_owner source, webhook_route, target_operation_kind (ws_target source),
              digest_of_key (ie_sha256 (ge_intake env)) qualified)
            (digest_of_body (ie_sha256 (ge_intake env)) body) now (ie_ttl (ge_intake env))")
    (auto simp: webhook_reserve_def reserve_def split: ledger_outcome.split)

lemma bind_second: "bindE (timed_out (bindE m (\<lambda>(_, y). Inr y))) f = bindE (timed_out m) (\<lambda>(_, y). f y)"
  by (cases m) auto

lemma webhook_is_submission:
  "webhook_accept env mn source key url body correlation now d =
     run_submission (ie_octets (ge_intake env)) mn (webhook_ticket env mn source key body now) correlation
       (Some (target_reporter (ws_target source))) None
       (webhook_prepare env (mn_command mn) source key url correlation capture_subject)
       (\<lambda>i. decision_event (mn_audit mn) source ''operation'' i Allowed correlation) d"
proof (cases "mn_begins mn")
  case False
  then show ?thesis
    by (cases "ws_target source") (simp add: webhook_accept_def run_submission_def capture_subject_new)
next
  case True
  obtain out where out: "decide d (mn_record mn) (ws_owner source, webhook_route, target_operation_kind (ws_target source),
              digest_of_key (ie_sha256 (ge_intake env)) (qualify env (ws_id source) key))
            (digest_of_body (ie_sha256 (ge_intake env)) body) now (ie_ttl (ge_intake env)) = out" by simp
  have type: "target_command_type (ws_target source) = ''content.capture.requested.v1''" by (cases "ws_target source") simp
  show ?thesis
  proof (cases out)
    case (Inl e)
    with out True show ?thesis
      by (simp add: webhook_accept_def run_submission_def type capture_subject_new bind_webhook_reserve)
  next
    case (Inr a)
    obtain res d1 where a: "a = (res, d1)" by (cases a) auto
    show ?thesis
    proof (cases "accept d1 (mn_operation mn) (ws_owner source) (target_operation_kind (ws_target source)) correlation
        (Some (qualify env (ws_id source) key)) (Some (target_reporter (ws_target source))) now")
      case acc: (Inl e)
      with out Inr a True show ?thesis
        by (simp add: webhook_accept_def run_submission_def type capture_subject_new bind_webhook_reserve
            open_operation_def split: ledger_outcome.split)
    next
      case acc: (Inr b)
      obtain operation d2 where b: "b = (operation, d2)" by (cases b) auto
      show ?thesis using out Inr a True acc b
        by (simp add: webhook_accept_def run_submission_def type capture_subject_new bind_webhook_reserve
            open_operation_def webhook_prepare_def enqueue_prepared_def bindE_assoc bind_second
            split: ledger_outcome.split)
    qed
  qed
qed

type_synonym signal = "tx_mint \<times> webhook_source \<times> string \<times> string \<times> string \<times> string \<times> instant"

definition webhook_submit :: "ingest_env \<Rightarrow> signal \<Rightarrow> db \<Rightarrow> failure_kind + submission \<times> db" where
  "webhook_submit env r d =
     (case r of (mn, source, key, url, body, correlation, now) \<Rightarrow> webhook_accept env mn source key url body correlation now d)"

definition signal_ticket :: "ingest_env \<Rightarrow> signal \<Rightarrow> ticket" where
  "signal_ticket env r =
     (case r of (mn, source, key, url, body, correlation, now) \<Rightarrow> webhook_ticket env mn source key body now)"

definition signal_begins :: "signal \<Rightarrow> bool" where
  "signal_begins r = mn_begins (fst r)"

interpretation webhook_door: submission_door "webhook_submit env" "signal_ticket env" signal_begins for env
proof
  fix d d' i row and r :: signal
  obtain mn source key url body correlation now where r: "r = (mn, source, key, url, body, correlation, now)"
    by (cases r) auto
  have run: "webhook_submit env r = run_submission (ie_octets (ge_intake env)) mn (signal_ticket env r) correlation
       (Some (target_reporter (ws_target source))) None
       (webhook_prepare env (mn_command mn) source key url correlation capture_subject)
       (\<lambda>i. decision_event (mn_audit mn) source ''operation'' i Allowed correlation)"
    by (simp add: fun_eq_iff r webhook_submit_def signal_ticket_def webhook_is_submission)
  have begins: "signal_begins r = mn_begins mn" by (simp add: r signal_begins_def)
  show "db_ok d' \<and> live_row d (ticket_scope (signal_ticket env r)) (tc_now (signal_ticket env r)) = None
      \<and> key_taken d' (signal_ticket env r)
      \<and> ledger_at d' (ticket_scope (signal_ticket env r)) = Some (settled_row i (signal_ticket env r))"
    if "db_ok d" "webhook_submit env r d = Inr (Opened i, d')"
    using submission_door_opened that unfolding run by blast
  show "webhook_submit env r d = (case reservation_outcome (answer_of row (tc_print (signal_ticket env r))) of
        ReplayOperation i \<Rightarrow> Inr (Seen_before i, d) | _ \<Rightarrow> Inl IdempotencyConflict)"
    if "db_ok d" "readable_ticket (signal_ticket env r)" "signal_begins r"
      "live_row d (ticket_scope (signal_ticket env r)) (tc_now (signal_ticket env r)) = Some row"
    using submission_live that unfolding run begins by blast
  show "webhook_submit env r d = Inl RequestTimeout"
    if "db_ok d" "key_taken d (signal_ticket env r)"
      "live_row d (ticket_scope (signal_ticket env r)) (tc_now (signal_ticket env r)) = None"
    using submission_taken that unfolding run by blast
qed

subsection \<open>What a source can rely on\<close>

lemma webhook_parse_Inr:
  "webhook_parse env header body = Inr (key, url) \<Longrightarrow> key \<noteq> [] \<and> length key \<le> 200
     \<and> is_capturable (ge_capture env) url \<and> is_capture_url (ge_capture env) url"
  by (auto simp: webhook_parse_def max_external_id_def split: option.splits if_splits)

lemma source_authenticate_Some:
  assumes "source_authenticate d presented = Inr (Some source)"
  shows "\<exists>r \<in> set (t_sources d). so_token_hash r = presented \<and> so_disabled_at r = None \<and> so_id r = ws_id source
    \<and> so_owner r = ws_owner source \<and> so_target r = target_str (ws_target source)"
proof -
  obtain r where r: "fetch_optional (\<lambda>r. so_token_hash r = presented \<and> so_disabled_at r = None) (t_sources d) = Some r"
    and t: "target_parse (so_target r) = Some (ws_target source)"
    and s: "ws_id source = so_id r" "ws_owner source = so_owner r"
    using assms by (auto simp: source_authenticate_def split: option.splits)
  have "so_target r = target_str (ws_target source)" using t by (auto simp: target_parse_def find_Some_iff)
  with fetch_optional_SomeD [OF r] s show ?thesis by auto
qed

text \<open>A credential of an enabled source that is presented at the URL of another one, and the row of that denial.\<close>

definition misdirected :: "ingest_env \<Rightarrow> string option \<Rightarrow> uuid \<Rightarrow> source_row \<Rightarrow> bool" where
  "misdirected env authorization source_id r \<longleftrightarrow>
     bearer (ie_sha256 (ge_intake env)) authorization = Some (so_token_hash r) \<and> so_disabled_at r = None
     \<and> so_target r = ''content.capture'' \<and> so_id r \<noteq> source_id"

definition denial_row :: "uuid \<Rightarrow> uuid \<Rightarrow> uuid \<Rightarrow> string \<Rightarrow> instant \<Rightarrow> audit_row" where
  "denial_row k owner source_id correlation clock =
     \<lparr>au_id = k, au_occurred_at = clock, au_actor_user = Some owner, au_actor_session = None,
      au_action = ''ingest.webhook.receive'', au_target_kind = ''webhook_source'', au_target = Some source_id,
      au_outcome = ''denied'', au_correlation = correlation\<rparr>"

definition denial_audited :: "uuid \<Rightarrow> uuid \<Rightarrow> uuid \<Rightarrow> string \<Rightarrow> instant \<Rightarrow> db \<Rightarrow> db" where
  "denial_audited k owner source_id correlation clock d =
     (if (\<forall>x \<in> set (t_audit d). au_id x \<noteq> k) \<and> entity_ref correlation \<and> user_exists d owner
      then d\<lparr>t_audit := t_audit d @ [denial_row k owner source_id correlation clock]\<rparr> else d)"

lemma audited_denial:
  "(case audit_record d (decision_event k source ''webhook_source'' source_id Denied correlation) clock of
      Inr d' \<Rightarrow> d' | Inl _ \<Rightarrow> d) = denial_audited k (ws_owner source) source_id correlation clock d"
  by (auto simp: denial_audited_def audit_record_def sql_insert_def decision_event_def denial_row_def audit_row_of_def
      audit_ok_def audit_clash_def bounded_def webhook_action_def list_ex_iff)

lemma misdirected_source:
  assumes "db_ok d" and "r \<in> set (t_sources d)" and "misdirected env authorization source_id r"
  shows "source_authenticate d (so_token_hash r) = Inr (Some
      \<lparr>ws_id = so_id r, ws_owner = so_owner r, ws_target = ContentCapture, ws_label = so_label r\<rparr>)"
proof -
  have r: "so_disabled_at r = None" "so_target r = ''content.capture''" using assms(3) by (simp_all add: misdirected_def)
  obtain x where x: "fetch_optional (\<lambda>x. so_token_hash x = so_token_hash r \<and> so_disabled_at x = None) (t_sources d) = Some x"
    using assms(2) r(1) by (metis (mono_tags, lifting) fetch_optional_None not_None_eq)
  have "source_clash x r" using fetch_optional_SomeD [OF x] by (simp add: source_clash_def)
  then have "x = r" using sources_table.unclashing [OF db_okD(23) [OF assms(1)]] fetch_optional_SomeD [OF x] assms(2) by blast
  moreover have "target_parse ''content.capture'' = Some ContentCapture" by code_simp
  ultimately show ?thesis using x r by (simp add: source_authenticate_def)
qed

text \<open>A refusal: nothing is written, unless the credential was misdirected.\<close>

lemma receive_Inl:
  assumes "db_ok d"
    and "receive env mn denied source_id authorization key_header body correlation (clock, now) l d = (Inl kind, l', d')"
  shows "if \<exists>r \<in> set (t_sources d). misdirected env authorization source_id r
    then kind = NotAuthenticated \<and> (\<exists>r \<in> set (t_sources d). misdirected env authorization source_id r
      \<and> d' = denial_audited denied (so_owner r) source_id correlation clock d)
    else d' = d"
proof (cases "\<exists>r \<in> set (t_sources d). misdirected env authorization source_id r")
  case True
  then obtain r where r: "r \<in> set (t_sources d)" "misdirected env authorization source_id r" by blast
  have b: "bearer (ie_sha256 (ge_intake env)) authorization = Some (so_token_hash r)" "so_id r \<noteq> source_id"
    using r(2) by (simp_all add: misdirected_def)
  have "kind = NotAuthenticated \<and> d' = denial_audited denied (so_owner r) source_id correlation clock d"
    using assms(2) unfolding receive_def prod.case b(1) option.case misdirected_source [OF assms(1) r] sum.case audited_denial
    by (simp add: b(2))
  then show ?thesis using r by auto
next
  case False
  have "d' = d"
  proof (rule ccontr)
    assume "d' \<noteq> d"
    then obtain presented source where s: "bearer (ie_sha256 (ge_intake env)) authorization = Some presented"
      "source_authenticate d presented = Inr (Some source)" "ws_id source \<noteq> source_id"
      using assms(2)
      by (auto simp: receive_def split: option.splits sum.splits prod.splits bool.splits if_splits submission.splits)
    show False using source_authenticate_Some [OF s(2)] s(1,3) False by (cases "ws_target source") (auto simp: misdirected_def)
  qed
  with False show ?thesis by auto
qed

text \<open>
  C7: a signal is accepted only from the registered source its URL names. An accepted signal was presented with
  the credential of a source that is not disabled and is the one of the path, within that source's allowance,
  with a capturable address; either it is a redelivery (same identifier and body) that is answered with the
  operation the ledger holds and writes nothing, or one operation of the source's owner is added, for the
  extractor to report. A refused signal changes nothing, with one exception: the credential of an enabled source at
  another source's URL is refused as not authenticated and leaves one audit row that names its owner, when that row can
  be written. An unknown credential leaves no row.
\<close>

theorem signal_is_accepted_for_its_owner:
  assumes "db_ok d"
    and "receive env mn denied source_id authorization key_header body correlation (clock, now) l d = (answer, l', d')"
  shows "case answer of
      Inr i \<Rightarrow> \<exists>r \<in> set (t_sources d). \<exists>key url.
        bearer (ie_sha256 (ge_intake env)) authorization = Some (so_token_hash r)
        \<and> so_disabled_at r = None \<and> so_id r = source_id \<and> so_target r = ''content.capture''
        \<and> admit l source_id clock = (True, l')
        \<and> webhook_parse env key_header body = Inr (key, url) \<and> is_capturable (ge_capture env) url
        \<and> (let sc = (so_owner r, webhook_route, ''content.capture.submit'',
                digest_of_key (ie_sha256 (ge_intake env)) (qualify env source_id key))
            in case live_row d sc now of
                 Some row \<Rightarrow> id_operation row = Some i
                   \<and> id_fingerprint row = digest_of_body (ie_sha256 (ge_intake env)) body \<and> d' = d
               | None \<Rightarrow> t_operations d' = t_operations d @ [accepted_row i (so_owner r) ''content.capture.submit''
                   correlation (Some (qualify env source_id key)) (Some ''ratatoskr-extractor'') now])
    | Inl kind \<Rightarrow>
        if \<exists>r \<in> set (t_sources d). misdirected env authorization source_id r
        then kind = NotAuthenticated \<and> (\<exists>r \<in> set (t_sources d). misdirected env authorization source_id r
          \<and> d' = denial_audited denied (so_owner r) source_id correlation clock d)
        else d' = d"
proof (cases answer)
  case (Inl kind)
  from receive_Inl [OF assms(1) assms(2) [unfolded Inl]] show ?thesis unfolding Inl sum.case .
next
  case (Inr i)
  obtain presented source key url out where
    b: "bearer (ie_sha256 (ge_intake env)) authorization = Some presented"
    and src: "source_authenticate d presented = Inr (Some source)" and same: "ws_id source = source_id"
    and adm: "admit l source_id clock = (True, l')"
    and par: "webhook_parse env key_header body = Inr (key, url)"
    and acc: "webhook_accept env mn source key url body correlation now d = Inr (out, d')"
    and out: "out = Opened i \<or> out = Seen_before i"
    using assms(2) Inr
    by (auto simp: receive_def split: option.splits sum.splits prod.splits bool.splits if_splits submission.splits)
  obtain r where r: "r \<in> set (t_sources d)" "so_token_hash r = presented" "so_disabled_at r = None"
    "so_id r = source_id" "so_owner r = ws_owner source" "so_target r = target_str (ws_target source)"
    using source_authenticate_Some [OF src] same by auto
  have tgt: "ws_target source = ContentCapture" by (cases "ws_target source") simp
  let ?t = "webhook_ticket env mn source key body now"
  have scope: "ticket_scope ?t = (so_owner r, webhook_route, ''content.capture.submit'',
      digest_of_key (ie_sha256 (ge_intake env)) (qualify env source_id key))"
    by (simp add: tgt r(5) same)
  note run = acc [unfolded webhook_is_submission]
  have "case live_row d (ticket_scope ?t) now of
                 Some row \<Rightarrow> id_operation row = Some i
                   \<and> id_fingerprint row = digest_of_body (ie_sha256 (ge_intake env)) body \<and> d' = d
               | None \<Rightarrow> t_operations d' = t_operations d @ [accepted_row i (so_owner r) ''content.capture.submit''
                   correlation (Some (qualify env source_id key)) (Some ''ratatoskr-extractor'') now]"
    using out
  proof
    assume "out = Opened i"
    with submission_opened(2,4) [OF assms(1), of _ mn ?t] run show ?thesis
      by (simp add: tgt r(5) same del: webhook_ticket_simps(8))
  next
    assume "out = Seen_before i"
    note seen_run = run [unfolded this]
    obtain row where "live_row d (ticket_scope ?t) now = Some row"
      "id_fingerprint row = digest_of_body (ie_sha256 (ge_intake env)) body" "id_operation row = Some i"
      using submission_seen(2) [OF assms(1) seen_run] by (auto simp del: webhook_ticket_simps(8))
    with submission_seen(1) [OF assms(1) seen_run] show ?thesis by simp
  qed
  then show ?thesis unfolding Inr sum.case Let_def scope
    using r(1-4) r(6) b adm par webhook_parse_Inr [OF par] by (auto simp: tgt)
qed

text \<open>
  Redelivering a signal is answered with the operation of the first delivery. After a signal opened an
  operation, a delivery of the same source with the same identifier, while the key is honoured and whatever
  happened to the ledger in between, gets that operation if its body has the same digest and is a conflict
  otherwise, and writes nothing.
\<close>

lemma redelivery_gets_the_first_operation:
  assumes "db_ok d" and "webhook_accept env mn source key url body correlation now d = Inr (Opened i, d')"
    and "\<forall>s \<in> set steps. step_time s < now + ie_ttl (ge_intake env)"
    and "\<forall>s \<in> set steps. \<forall>j st t. s \<noteq> Complete (mn_record mn) j st t"
    and "length (ie_sha256 (ge_intake env) body') = 32" and "0 < ie_ttl (ge_intake env)" and "mn_begins mn'"
    and "later < now + ie_ttl (ge_intake env)"
  shows "webhook_accept env mn' source key url' body' correlation' later (fold run_step steps d') =
    (if ie_sha256 (ge_intake env) body' = ie_sha256 (ge_intake env) body
     then Inr (Seen_before i, fold run_step steps d') else Inl IdempotencyConflict)"
  using webhook_door.retry_is_answered [where env = env and r = "(mn, source, key, url, body, correlation, now)"
      and r' = "(mn', source, key, url', body', correlation', later)" and d = d and i = i and d' = d' and steps = steps]
    assms
  by (simp add: webhook_submit_def signal_ticket_def signal_begins_def readable_ticket_def digest_of_body_def)

text \<open>
  Redelivering a signal after its key expired is not safe. The operation of the first delivery keeps the
  qualified identifier, so a delivery that the ledger no longer knows is answered with a timeout, for ever:
  no new operation is opened and the first one is not named.
\<close>

lemma late_redelivery_always_times_out:
  assumes "db_ok d" and "webhook_accept env mn source key url body correlation now d = Inr (Opened i, d')"
    and "db_ok e" and "operations_survive d' e"
    and "live_row e (ws_owner source, webhook_route, target_operation_kind (ws_target source),
           digest_of_key (ie_sha256 (ge_intake env)) (qualify env (ws_id source) key)) later = None"
  shows "webhook_accept env mn' source key url' body' correlation' later e = Inl RequestTimeout"
  using webhook_door.spent_key_is_refused [where env = env and r = "(mn, source, key, url, body, correlation, now)"
      and r' = "(mn', source, key, url', body', correlation', later)" and d = d and i = i and d' = d' and e = e] assms
  by (simp add: webhook_submit_def signal_ticket_def)

lemma intake_accept_Opened:
  assumes "intake_accept env mn p q prepare now d = (Inr i, d')" and "d' \<noteq> d"
    and "db_ok d"
  shows "intake_admit env mn p q None (\<lambda>operation now. bindE (prepare operation now) (\<lambda>c. Inr (Some c))) now d
    = Inr (Opened i, d')"
  using assms(1,2) submission_seen(1) [OF assms(3)]
  by (auto simp: intake_accept_def intake_is_submission split: sum.splits submission.splits)

text \<open>
  A webhook is a second door into one room. A signal and a client's capture of the same address, for the
  same user, with the same identifier, minted and correlated alike, leave the same outbox: the extractor
  cannot tell through which door a request came.
\<close>

lemma webhook_is_a_second_door:
  assumes "db_ok d"
    and "webhook_accept env mn source key url body correlation now d = Inr (Opened i, d1)"
    and "submit_url (ge_capture env) sv (ge_intake env) mn p header body' correlation now d = (Inr j, d2)"
    and "capture_parse (ge_capture env) sv header body' = Inr (key, \<lparr>sub_url = url, sub_social = None\<rparr>)"
    and "pl_user p = ws_owner source" and "d2 \<noteq> d"
  shows "i = j \<and> t_outbox d1 = t_outbox d2"
proof -
  let ?s = "\<lparr>sub_url = url, sub_social = None\<rparr>"
  let ?q = "url_intake key ?s body' correlation"
  let ?p = "\<lambda>operation now. bindE (prepare_url (ge_capture env) sv (mn_command mn) p ?q ?s operation now) (\<lambda>c. Inr (Some c))"
  have second: "intake_admit (ge_intake env) mn p ?q None ?p now d = Inr (Opened j, d2)"
    by (rule intake_accept_Opened [OF _ assms(6,1)]) (use assms(3,4) in \<open>simp add: submit_url_def Let_def\<close>)
  note one = submission_opened(5,7) [OF assms(1) assms(2) [unfolded webhook_is_submission]]
  note two = submission_opened(5,7) [OF assms(1) second [unfolded intake_is_submission]]
  obtain o1 c1 where o1: "o_id o1 = i"
    "webhook_prepare env (mn_command mn) source key url correlation capture_subject o1 now = Inr c1"
    "t_outbox d1 = outbox_after (ie_octets (ge_intake env)) (mn_outbox mn) c1 i now (t_outbox d)"
    using one(2) by auto
  obtain o2 c2 where o2: "o_id o2 = j" "?p o2 now = Inr c2"
    "t_outbox d2 = outbox_after (ie_octets (ge_intake env)) (mn_outbox mn) c2 j now (t_outbox d)"
    using two(2) unfolding ticket_of_intake_simps by blast
  have ij: "i = j" using one(1) two(1) by simp
  have "?p o2 now = webhook_prepare env (mn_command mn) source key url correlation capture_subject o1 now"
    using o1(1) o2(1) ij assms(5)
    by (simp add: webhook_prepare_def prepare_url_def command_subject_def content_command_def url_intake_def
        capture_command_type_def capture_subject_new bindE_assoc)
  then have "c1 = c2" using o1(2) o2(2) by simp
  with o1(3) o2(3) ij show ?thesis by simp
qed

subsection \<open>The properties at concrete inputs\<close>

definition example_capture_env :: capture_env where
  "example_capture_env = \<lparr>cp_sha256 = example_sha256,
     cp_url = (\<lambda>s. Some \<lparr>pu_scheme = ''https'', pu_host = Some s\<rparr>),
     cp_digest_hex = Some, cp_capture_url = Some, cp_producer = Some, cp_entity = Some,
     cp_entity_of_operation = (\<lambda>_. ''operation:1''), cp_tenant_of_user = (\<lambda>_. ''user:1''),
     cp_capture_type = ''content.capture.requested.v1'', cp_validate = (\<lambda>_. True),
     cp_capture_value = (\<lambda>_. Some (JObject [])), cp_command_value = (\<lambda>c. Some (JObject (wc_payload c)))\<rparr>"

definition example_ingest_env :: ingest_env where
  "example_ingest_env = \<lparr>ge_capture = example_capture_env, ge_intake = example_intake_env,
     ge_uuid_text = (\<lambda>_. ''source''), ge_read_signal = Some\<rparr>"

definition example_source :: webhook_source where
  "example_source = \<lparr>ws_id = 80, ws_owner = 1, ws_target = ContentCapture, ws_label = ''feed''\<rparr>"

definition sourced_db :: db where
  "sourced_db = identity_example\<lparr>t_sources := [\<lparr>so_id = 80, so_owner = 1, so_label = ''feed'',
     so_token_hash = example_sha256 ''cred'', so_target = ''content.capture'', so_created_at = 1,
     so_disabled_at = None\<rparr>]\<rparr>"

lemma sourced_db_ok: "db_ok sourced_db"
  unfolding sourced_db_def by (rule db_ok_update [OF identity_example_ok])
    ((simp add: table_ok_def source_ok_def example_sha256_def), code_simp)

theorem signal_is_accepted_for_its_owner_witness:
  "\<exists>d. receive example_ingest_env example_mint 106 80 (Some ''Bearer cred'') (Some ''e1'') ''a.example'' ''correlation:1''
       (100, 100) (new_limiter 60) sourced_db = (Inr 102, snd (admit (new_limiter 60) 80 100), d)
     \<and> op_owner (last (t_operations d)) = 1"
proof -
  obtain answer l d where run: "receive example_ingest_env example_mint 106 80 (Some ''Bearer cred'') (Some ''e1'')
      ''a.example'' ''correlation:1'' (100, 100) (new_limiter 60) sourced_db = (answer, l, d)"
    by (cases "receive example_ingest_env example_mint 106 80 (Some ''Bearer cred'') (Some ''e1'')
      ''a.example'' ''correlation:1'' (100, 100) (new_limiter 60) sourced_db") auto
  have "fst (receive example_ingest_env example_mint 106 80 (Some ''Bearer cred'') (Some ''e1'')
      ''a.example'' ''correlation:1'' (100, 100) (new_limiter 60) sourced_db) = Inr 102" by code_simp
  then have a: "answer = Inr 102" using run by simp
  have free: "live_row sourced_db sc 100 = None" for sc
    by (simp add: live_row_def ledger_at_def sourced_db_def identity_example_def empty_db_def fetch_optional_def)
  obtain r key where r: "r \<in> set (t_sources sourced_db)" "admit (new_limiter 60) 80 100 = (True, l)"
    "t_operations d = t_operations sourced_db @ [accepted_row 102 (so_owner r) ''content.capture.submit''
       ''correlation:1'' (Some (qualify example_ingest_env 80 key)) (Some ''ratatoskr-extractor'') 100]"
    using signal_is_accepted_for_its_owner [OF sourced_db_ok run] unfolding a sum.case Let_def free option.case by blast
  then have "so_owner r = 1" by (simp add: sourced_db_def)
  with r(2,3) run a show ?thesis by (simp add: accepted_row_def)
qed

end
