(* ===== verification/Site_Hub.thy ===== *)
theory Site_Hub
  imports Scheduling Sessions Delivery Faults "HOL-Library.AList"
begin

text \<open>
  \<^verbatim>\<open>crates/public-api/src/site_events.rs\<close>: the per-site buffers of the event stream, the bounds of its
  connections, and the reader behind each connection. A \<^verbatim>\<open>HashMap\<close> is a list of keys and values with
  distinct keys, and the two mutexes are taken one call at a time. A sequence number is a natural
  number: a \<^verbatim>\<open>u64\<close> that counts the events of one process does not come to its end. The watch
  channel of a site is the last number it was sent, and a receiver the number it saw last; every
  send is a new number. The SSE transport with its keep-alive comments is not modelled: a connection
  is the list of frames it was sent.
\<close>

subsection \<open>Events\<close>

text \<open>
  \<open>SiteEvent\<close> of \<^verbatim>\<open>ratatoskr-sites-contracts\<close> with the notices the code builds; an identifier, a
  reference, a digest or a time of that crate is its canonical text.
\<close>

datatype site_event =
    ReleaseAnnounced (release_id: string) (published_at: string)
  | DraftAnnounced (draft_source: string) (draft_revision: string) (draft_slug: "string option")
  | EditDone uuid string string
  | EditClashed uuid string string
  | Resync

text \<open>
  \<open>event_value\<close> is \<open>serde_json::to_value\<close> of an event (\<open>None\<close> when it fails), \<open>json_text\<close> the text of
  a JSON value and \<open>parse_instant\<close> the parser of \<open>jiff::Timestamp\<close>.
\<close>

record stream_env =
  event_value :: "site_event \<Rightarrow> json option"
  json_text :: "json \<Rightarrow> string"
  parse_instant :: "string \<Rightarrow> instant option"

record frame =
  fr_id :: string
  fr_kind :: string
  fr_data :: string

definition sse_frame :: "stream_env \<Rightarrow> string \<Rightarrow> site_event \<Rightarrow> frame" where
  "sse_frame env i e =
     (let document = (case event_value env e of Some v \<Rightarrow> v | None \<Rightarrow> JNull)
      in \<lparr>fr_id = i,
          fr_kind = (case Option.bind (json_get ''type'' document) as_str of Some k \<Rightarrow> k | None \<Rightarrow> ''resync''),
          fr_data = json_text env document\<rparr>)"

subsection \<open>The buffers\<close>

definition window_events :: nat where
  "window_events = 256"

definition window_age :: int where
  "window_age = seconds (24 * 3600)"

definition sites_max :: nat where
  "sites_max = 1024"

record stored_event =
  se_sequence :: nat
  se_at :: instant
  se_event :: site_event

record site_log =
  lg_last :: nat
  lg_events :: "stored_event list"
  lg_anonymous :: nat
  lg_clients :: "(string \<times> nat) list"
  lg_owners :: nat
  lg_wake :: nat

definition default_log :: site_log where
  "default_log = \<lparr>lg_last = 0, lg_events = [], lg_anonymous = 0, lg_clients = [], lg_owners = 0, lg_wake = 0\<rparr>"

type_synonym staged_event = "string \<times> site_event \<times> instant"

record site_hub =
  hb_epoch :: string
  hb_sites :: "(string \<times> site_log) list"
  hb_staged :: "(uuid \<times> staged_event list) list"

definition new_hub :: "string \<Rightarrow> site_hub" where
  "new_hub epoch = \<lparr>hb_epoch = epoch, hb_sites = [], hb_staged = []\<rparr>"

text \<open>\<open>entry(site).or_default()\<close>.\<close>

definition log_of :: "site_hub \<Rightarrow> string \<Rightarrow> site_log" where
  "log_of h site = (case map_of (hb_sites h) site of Some log \<Rightarrow> log | None \<Rightarrow> default_log)"

definition set_log :: "site_hub \<Rightarrow> string \<Rightarrow> site_log \<Rightarrow> site_hub" where
  "set_log h site log = h\<lparr>hb_sites := AList.update site log (hb_sites h)\<rparr>"

definition full_for :: "site_hub \<Rightarrow> string \<Rightarrow> bool" where
  "full_for h site \<longleftrightarrow> map_of (hb_sites h) site = None \<and> sites_max \<le> length (hb_sites h)"

definition stage :: "stream_env \<Rightarrow> site_hub \<Rightarrow> incoming \<Rightarrow> string \<Rightarrow> site_event \<Rightarrow> instant \<Rightarrow> site_hub" where
  "stage env h m site e now =
     (let at = (case Option.bind (Option.bind (json_get ''occurred_at'' (in_payload m)) as_str) (parse_instant env) of
                  None \<Rightarrow> now | Some occurred \<Rightarrow> min occurred now);
          staged = (case map_of (hb_staged h) (in_message_id m) of None \<Rightarrow> [] | Some l \<Rightarrow> l)
      in h\<lparr>hb_staged := AList.update (in_message_id m) (staged @ [(site, e, at)]) (hb_staged h)\<rparr>)"

fun trim_window :: "instant \<Rightarrow> stored_event list \<Rightarrow> stored_event list" where
  "trim_window now [] = []"
| "trim_window now (oldest # rest) =
     (if window_events < length (oldest # rest) \<or> se_at oldest < now - window_age
      then trim_window now rest else oldest # rest)"

definition push :: "site_hub \<Rightarrow> string \<Rightarrow> site_event \<Rightarrow> instant \<Rightarrow> instant \<Rightarrow> site_hub" where
  "push h site e at now =
     (if at < now - window_age then h
      else if full_for h site then h
      else let log = log_of h site; sequence = lg_last log + 1
           in set_log h site (log\<lparr>lg_last := sequence,
                lg_events := trim_window now (lg_events log
                  @ [\<lparr>se_sequence = sequence, se_at = at, se_event = e\<rparr>]),
                lg_wake := sequence\<rparr>))"

fun push_all :: "site_hub \<Rightarrow> staged_event list \<Rightarrow> instant \<Rightarrow> site_hub" where
  "push_all h [] now = h"
| "push_all h ((site, e, at) # rest) now = push_all (push h site e at now) rest now"

definition settle :: "site_hub \<Rightarrow> uuid \<Rightarrow> bool \<Rightarrow> instant \<Rightarrow> site_hub" where
  "settle h message_id committed now =
     (let staged = (case map_of (hb_staged h) message_id of None \<Rightarrow> [] | Some l \<Rightarrow> l);
          h1 = h\<lparr>hb_staged := AList.delete message_id (hb_staged h)\<rparr>
      in if committed then push_all h1 staged now else h1)"

definition subscribe :: "site_hub \<Rightarrow> string \<Rightarrow> nat \<times> site_hub" where
  "subscribe h site = (lg_wake (log_of h site), set_log h site (log_of h site))"

subsection \<open>Reading\<close>

datatype feed = Events "(nat \<times> site_event) list" nat | Gap nat

definition may_see :: "bool \<Rightarrow> site_event \<Rightarrow> bool" where
  "may_see owner e \<longleftrightarrow> owner \<or> (case e of ReleaseAnnounced _ _ \<Rightarrow> True | _ \<Rightarrow> False)"

definition hub_read :: "site_hub \<Rightarrow> string \<Rightarrow> nat \<Rightarrow> bool \<Rightarrow> feed" where
  "hub_read h site cursor owner =
     (case map_of (hb_sites h) site of
        None \<Rightarrow> Events [] 0
      | Some log \<Rightarrow>
          if cursor < lg_last log
             \<and> (case lg_events log of [] \<Rightarrow> False | oldest # _ \<Rightarrow> cursor + 1 < se_sequence oldest)
          then Gap (lg_last log)
          else Events (map (\<lambda>x. (se_sequence x, se_event x))
                 (filter (\<lambda>x. may_see owner (se_event x)) (filter (\<lambda>x. cursor < se_sequence x) (lg_events log))))
               (lg_last log))"

fun feed_last :: "feed \<Rightarrow> nat" where
  "feed_last (Events _ n) = n"
| "feed_last (Gap n) = n"

definition u64_max :: nat where
  "u64_max = 2 ^ 64 - 1"

text \<open>\<open>str::parse::<u64>\<close>: an optional plus sign and at least one digit, and the value fits.\<close>

definition digits_value :: "string \<Rightarrow> nat" where
  "digits_value s = foldl (\<lambda>n c. 10 * n + (byte c - 48)) 0 s"

definition parse_u64 :: "string \<Rightarrow> nat option" where
  "parse_u64 s =
     (let ds = (case s of [] \<Rightarrow> [] | c # cs \<Rightarrow> if c = CHR ''+'' then cs else s)
      in if ds \<noteq> [] \<and> list_all is_ascii_digit ds \<and> digits_value ds \<le> u64_max then Some (digits_value ds) else None)"

definition event_id :: "site_hub \<Rightarrow> nat \<Rightarrow> string" where
  "event_id h sequence = hb_epoch h @ CHR ''.'' # digits_of sequence"

definition cursor_of :: "site_hub \<Rightarrow> string \<Rightarrow> string \<Rightarrow> nat option" where
  "cursor_of h site last_event_id =
     (let newest = feed_last (hub_read h site u64_max True)
      in Option.bind (split_once (CHR ''.'') last_event_id) (\<lambda>(epoch, text).
           if epoch = hb_epoch h
           then Option.bind (parse_u64 text) (\<lambda>sequence. if sequence \<le> newest then Some sequence else None)
           else None))"

subsection \<open>Counting connections\<close>

record stream_limits =
  sl_per_client :: nat
  sl_per_site :: nat
  sl_per_site_owner :: nat
  sl_owner_check :: int

definition default_stream_limits :: stream_limits where
  "default_stream_limits =
     \<lparr>sl_per_client = 4, sl_per_site = 64, sl_per_site_owner = 16, sl_owner_check = seconds 15 * 4\<rparr>"

record admitted =
  ad_site :: string
  ad_client :: "string option"

definition clients_at :: "site_log \<Rightarrow> string \<Rightarrow> nat" where
  "clients_at log client = (case map_of (lg_clients log) client of Some n \<Rightarrow> n | None \<Rightarrow> 0)"

definition hub_admit :: "site_hub \<Rightarrow> string \<Rightarrow> string option \<Rightarrow> stream_limits \<Rightarrow> admitted option \<times> site_hub" where
  "hub_admit h site client limits =
     (if full_for h site then (None, h)
      else let log = log_of h site in
        case client of
          Some c \<Rightarrow>
            if sl_per_site limits \<le> lg_anonymous log \<or> sl_per_client limits \<le> clients_at log c
            then (None, set_log h site log)
            else (Some \<lparr>ad_site = site, ad_client = client\<rparr>,
                  set_log h site (log\<lparr>lg_anonymous := lg_anonymous log + 1,
                    lg_clients := AList.update c (clients_at log c + 1) (lg_clients log)\<rparr>))
        | None \<Rightarrow>
            if sl_per_site_owner limits \<le> lg_owners log then (None, set_log h site log)
            else (Some \<lparr>ad_site = site, ad_client = client\<rparr>,
                  set_log h site (log\<lparr>lg_owners := lg_owners log + 1\<rparr>)))"

text \<open>\<open>Drop for Admitted\<close>; the subtraction of natural numbers saturates as the code's does.\<close>

definition hub_release :: "site_hub \<Rightarrow> admitted \<Rightarrow> site_hub" where
  "hub_release h a =
     (case map_of (hb_sites h) (ad_site a) of
        None \<Rightarrow> h
      | Some log \<Rightarrow>
          (case ad_client a of
             None \<Rightarrow> set_log h (ad_site a) (log\<lparr>lg_owners := lg_owners log - 1\<rparr>)
           | Some c \<Rightarrow>
               set_log h (ad_site a) (log\<lparr>lg_anonymous := lg_anonymous log - 1,
                 lg_clients :=
                   (case map_of (lg_clients log) c of
                      None \<Rightarrow> lg_clients log
                    | Some n \<Rightarrow> if n - 1 = 0 then AList.delete c (lg_clients log)
                                else AList.update c (n - 1) (lg_clients log))\<rparr>)))"

subsection \<open>One connection\<close>

record owner_watch =
  ow_token :: digest
  ow_audience :: string
  ow_ends_at :: instant

text \<open>
  \<open>clock\<close> is what \<open>jiff::Timestamp::now\<close> answers, the wall clock; the checks are timed by the
  monotonic clock of the runtime, \<open>ticks\<close>.
\<close>

definition owner_live :: "db \<Rightarrow> owner_watch \<Rightarrow> instant \<Rightarrow> bool \<times> owner_watch" where
  "owner_live d w clock =
     (case authenticate d (ow_token w) (ow_audience w) clock of
        None \<Rightarrow> (False, w)
      | Some s \<Rightarrow>
          if s_kind s \<noteq> SiteOwner then (False, w)
          else let used = (case s_last_seen_at s of Some t \<Rightarrow> t | None \<Rightarrow> s_issued_at s)
               in (True, w\<lparr>ow_ends_at := min (s_expires_at s) (used + site_owner_idle)\<rparr>))"

definition owner_due :: "owner_watch \<Rightarrow> int \<Rightarrow> int \<Rightarrow> instant \<Rightarrow> int" where
  "owner_due w next_check ticks clock = min next_check (ticks + max 0 (ow_ends_at w - clock))"

record reader =
  rd_site :: string
  rd_owner :: bool
  rd_watch :: "owner_watch option"
  rd_check_every :: int
  rd_wake :: nat
  rd_next_check :: int
  rd_pending :: "frame list"
  rd_cursor :: nat
  rd_admitted :: admitted

definition reader_last :: "site_hub \<Rightarrow> reader \<Rightarrow> nat" where
  "reader_last h r = feed_last (hub_read h (rd_site r) u64_max True)"

definition reader_resync :: "stream_env \<Rightarrow> site_hub \<Rightarrow> nat \<Rightarrow> reader \<Rightarrow> reader" where
  "reader_resync env h newest r =
     r\<lparr>rd_cursor := newest, rd_pending := rd_pending r @ [sse_frame env (event_id h newest) Resync]\<rparr>"

definition reader_fill :: "stream_env \<Rightarrow> site_hub \<Rightarrow> reader \<Rightarrow> reader" where
  "reader_fill env h r =
     (case hub_read h (rd_site r) (rd_cursor r) (rd_owner r) of
        Events events newest \<Rightarrow>
          r\<lparr>rd_pending := rd_pending r @ map (\<lambda>(n, e). sse_frame env (event_id h n) e) events,
            rd_cursor := max (rd_cursor r) newest\<rparr>
      | Gap newest \<Rightarrow> reader_resync env h newest r)"

record connection =
  cn_site :: string
  cn_owner :: "owner_watch option"
  cn_client :: string
  cn_last_event_id :: "string option"

definition open_stream ::
  "stream_env \<Rightarrow> site_hub \<Rightarrow> stream_limits \<Rightarrow> connection \<Rightarrow> int \<Rightarrow> (failure_kind + reader) \<times> site_hub" where
  "open_stream env h limits c ticks =
     (let client = (if cn_owner c = None then Some (cn_client c) else None) in
      case hub_admit h (cn_site c) client limits of
        (None, h1) \<Rightarrow> (Inl Overloaded, h1)
      | (Some a, h1) \<Rightarrow>
          let (wake, h2) = subscribe h1 (cn_site c);
              r = \<lparr>rd_site = cn_site c, rd_owner = (cn_owner c \<noteq> None), rd_watch = cn_owner c,
                   rd_check_every = sl_owner_check limits, rd_wake = wake,
                   rd_next_check = ticks + sl_owner_check limits, rd_pending = [], rd_cursor = 0,
                   rd_admitted = a\<rparr>
          in (Inr (case map_option (cursor_of h2 (cn_site c)) (cn_last_event_id c) of
                     None \<Rightarrow> r\<lparr>rd_cursor := reader_last h2 r\<rparr>
                   | Some (Some cursor) \<Rightarrow> r\<lparr>rd_cursor := cursor\<rparr>
                   | Some None \<Rightarrow> reader_resync env h2 (reader_last h2 r) r), h2))"

definition still_live :: "db \<Rightarrow> reader \<Rightarrow> instant \<Rightarrow> int \<Rightarrow> int \<Rightarrow> bool \<times> reader" where
  "still_live d r clock ticks later =
     (case rd_watch r of
        None \<Rightarrow> (True, r)
      | Some w \<Rightarrow>
          if ticks < owner_due w (rd_next_check r) ticks clock then (True, r)
          else let (live, w1) = owner_live d w clock
               in (live, r\<lparr>rd_watch := Some w1, rd_next_check := later + rd_check_every r\<rparr>))"

text \<open>
  One turn of the loop in \<open>events\<close>: the stream ends, yields a frame, found new frames and goes
  round, or waits. \<open>woken\<close> is the end of a wait on the channel.
\<close>

datatype turn = Ended | Yields frame | Again | Waits

definition reader_turn ::
  "stream_env \<Rightarrow> db \<Rightarrow> site_hub \<Rightarrow> reader \<Rightarrow> instant \<Rightarrow> int \<Rightarrow> int \<Rightarrow> turn \<times> reader" where
  "reader_turn env d h r clock ticks later =
     (let (live, r1) = still_live d r clock ticks later in
      if \<not> live then (Ended, r1)
      else case rd_pending r1 of
          f # fs \<Rightarrow> (Yields f, r1\<lparr>rd_pending := fs\<rparr>)
        | [] \<Rightarrow>
            let r2 = reader_fill env h r1
            in if rd_pending r2 \<noteq> [] then (Again, r2) else (Waits, r2))"

definition woken :: "site_hub \<Rightarrow> reader \<Rightarrow> reader option" where
  "woken h r =
     (let wake = lg_wake (log_of h (rd_site r))
      in if wake = rd_wake r then None else Some (r\<lparr>rd_wake := wake\<rparr>))"

subsection \<open>What a buffer keeps\<close>

text \<open>
  \<open>es\<close> is every event a site was ever given, in order; its buffer holds a final stretch of them,
  numbered from one, and is empty only when there was none.
\<close>

definition numbered :: "stored_event \<Rightarrow> nat \<times> site_event" where
  "numbered x = (se_sequence x, se_event x)"

definition retains :: "site_event list \<Rightarrow> site_log \<Rightarrow> bool" where
  "retains es log \<longleftrightarrow> lg_last log = length es \<and> lg_wake log = length es
     \<and> length (lg_events log) \<le> window_events
     \<and> (\<exists>k. map numbered (lg_events log) = drop k (enumerate 1 es) \<and> (es \<noteq> [] \<longrightarrow> k < length es))"

definition hub_retains :: "(string \<Rightarrow> site_event list) \<Rightarrow> site_hub \<Rightarrow> bool" where
  "hub_retains F h \<longleftrightarrow> (\<forall>site. retains (F site) (log_of h site))"

lemma retains_default [simp]: "retains [] default_log"
  by (simp add: retains_def default_log_def)

lemma retains_cong: "lg_last log' = lg_last log \<Longrightarrow> lg_wake log' = lg_wake log \<Longrightarrow> lg_events log' = lg_events log
    \<Longrightarrow> retains es log' \<longleftrightarrow> retains es log"
  by (simp add: retains_def)

lemma log_of_set_log [simp]: "log_of (set_log h site log) s = (if s = site then log else log_of h s)"
  by (simp add: log_of_def set_log_def update_conv' )

lemma set_log_simps [simp]:
  "hb_epoch (set_log h site log) = hb_epoch h" "hb_staged (set_log h site log) = hb_staged h"
  by (simp_all add: set_log_def)

lemma trim_window_drop:
  "\<not> se_at x < now - window_age \<Longrightarrow> \<exists>k \<le> length xs. trim_window now (xs @ [x]) = drop k (xs @ [x])"
proof (induction xs)
  case Nil
  then show ?case by (simp add: window_events_def)
next
  case (Cons y ys)
  then obtain k where k: "k \<le> length ys" "trim_window now (ys @ [x]) = drop k (ys @ [x])" by auto
  show ?case
  proof (cases "window_events < length (y # ys @ [x]) \<or> se_at y < now - window_age")
    case True
    with k show ?thesis by (intro exI [of _ "Suc k"]) simp
  next
    case False
    then show ?thesis by (intro exI [of _ 0]) simp
  qed
qed

lemma trim_window_bound: "length (trim_window now xs) \<le> window_events"
  by (induction xs) auto

text \<open>An event reaches the buffer unless it is too old, or its site is new to a full hub.\<close>

definition keeps :: "site_hub \<Rightarrow> string \<Rightarrow> instant \<Rightarrow> instant \<Rightarrow> bool" where
  "keeps h site at now \<longleftrightarrow> \<not> at < now - window_age \<and> \<not> full_for h site"

lemma retains_push:
  assumes "retains es log" and "\<not> at < now - window_age"
  shows "retains (es @ [e]) (log\<lparr>lg_last := lg_last log + 1,
      lg_events := trim_window now (lg_events log @ [\<lparr>se_sequence = lg_last log + 1, se_at = at, se_event = e\<rparr>]),
      lg_wake := lg_last log + 1\<rparr>)"
proof -
  let ?x = "\<lparr>se_sequence = lg_last log + 1, se_at = at, se_event = e\<rparr>"
  obtain j where j: "map numbered (lg_events log) = drop j (enumerate 1 es)" "es \<noteq> [] \<longrightarrow> j < length es"
    using assms(1) by (auto simp: retains_def)
  obtain k where k: "k \<le> length (lg_events log)" "trim_window now (lg_events log @ [?x]) = drop k (lg_events log @ [?x])"
    using trim_window_drop [of ?x now "lg_events log"] assms(2) by auto
  have len: "length (lg_events log) = length es - j" using arg_cong [OF j(1), of length] by simp
  have app: "map numbered (lg_events log @ [?x]) = drop (min j (length es)) (enumerate 1 (es @ [e]))"
    using j assms(1) by (cases "es = []") (simp_all add: numbered_def enumerate_append_eq retains_def)
  have "map numbered (trim_window now (lg_events log @ [?x])) = drop (k + min j (length es)) (enumerate 1 (es @ [e]))"
    by (simp only: k(2) drop_map [symmetric] app drop_drop)
  moreover have "k + min j (length es) < length (es @ [e])" using k(1) len j(2) by (cases "es = []") auto
  ultimately show ?thesis
    using assms(1) trim_window_bound [of now "lg_events log @ [?x]"]
    by (auto simp: retains_def simp del: map_append)
qed

lemma push_retains:
  assumes "hub_retains F h"
  shows "hub_retains (\<lambda>s. F s @ (if s = site \<and> keeps h site at now then [e] else [])) (push h site e at now)"
  using assms retains_push [of "F site" "log_of h site" at now e]
  by (auto simp: hub_retains_def push_def keeps_def Let_def)

subsection \<open>The history of a run\<close>

text \<open>What a batch of staged events adds to the stream of a site.\<close>

fun added :: "site_hub \<Rightarrow> staged_event list \<Rightarrow> instant \<Rightarrow> string \<Rightarrow> site_event list" where
  "added h [] now s = []"
| "added h ((site, e, at) # rest) now s =
     (if s = site \<and> keeps h site at now then [e] else []) @ added (push h site e at now) rest now s"

text \<open>Whatever the rest of the process does to the hub, one call at a time.\<close>

datatype hub_action =
    Staging incoming string site_event instant
  | Settling uuid bool instant
  | Subscribing string
  | Admitting string "string option" stream_limits
  | Releasing admitted

fun hub_act :: "stream_env \<Rightarrow> hub_action \<Rightarrow> site_hub \<Rightarrow> site_hub" where
  "hub_act env (Staging m site e now) h = stage env h m site e now"
| "hub_act env (Settling i committed now) h = settle h i committed now"
| "hub_act env (Subscribing site) h = snd (subscribe h site)"
| "hub_act env (Admitting site client limits) h = snd (hub_admit h site client limits)"
| "hub_act env (Releasing a) h = hub_release h a"

fun act_added :: "hub_action \<Rightarrow> site_hub \<Rightarrow> string \<Rightarrow> site_event list" where
  "act_added (Settling i committed now) h s =
     (if committed
      then added (h\<lparr>hb_staged := AList.delete i (hb_staged h)\<rparr>)
             (case map_of (hb_staged h) i of None \<Rightarrow> [] | Some l \<Rightarrow> l) now s
      else [])"
| "act_added _ h s = []"

fun history :: "stream_env \<Rightarrow> hub_action list \<Rightarrow> site_hub \<Rightarrow> string \<Rightarrow> site_event list" where
  "history env [] h s = []"
| "history env (a # acts) h s = act_added a h s @ history env acts (hub_act env a h) s"

lemma hub_retains_cong: "(\<And>s. F s = G s) \<Longrightarrow> hub_retains F h \<Longrightarrow> hub_retains G h"
  by (simp add: hub_retains_def)

lemma hub_retains_same:
  "hub_retains F h \<Longrightarrow> (\<And>s. retains (F s) (log_of h s) \<Longrightarrow> retains (F s) (log_of h' s)) \<Longrightarrow> hub_retains F h'"
  by (simp add: hub_retains_def)

lemma log_of_staged [simp]: "log_of (h\<lparr>hb_staged := x\<rparr>) s = log_of h s"
  by (simp add: log_of_def)

lemma hub_retains_set_log:
  "hub_retains F h \<Longrightarrow> lg_last log = lg_last (log_of h site) \<Longrightarrow> lg_wake log = lg_wake (log_of h site)
    \<Longrightarrow> lg_events log = lg_events (log_of h site) \<Longrightarrow> hub_retains F (set_log h site log)"
  by (simp add: hub_retains_def retains_def)

lemma log_of_known: "map_of (hb_sites h) site = Some log \<Longrightarrow> log_of h site = log"
  by (simp add: log_of_def)

lemma push_all_retains:
  "hub_retains F h \<Longrightarrow> hub_retains (\<lambda>s. F s @ added h staged now s) (push_all h staged now)"
proof (induction staged arbitrary: F h)
  case Nil
  then show ?case by simp
next
  case (Cons x rest)
  obtain site e at where x: "x = (site, e, at)" by (cases x)
  show ?case
    using Cons.IH [OF push_retains [OF Cons.prems, of site at now e]] by (simp add: x append_assoc [symmetric] del: append_assoc)
qed

lemma hub_act_retains:
  assumes "hub_retains F h"
  shows "hub_retains (\<lambda>s. F s @ act_added a h s) (hub_act env a h)"
proof (cases a)
  case (Settling i committed now)
  have "hub_retains F (h\<lparr>hb_staged := AList.delete i (hb_staged h)\<rparr>)"
    using assms by (simp add: hub_retains_def)
  then show ?thesis using push_all_retains by (auto simp: Settling settle_def Let_def)
next
  case (Staging m site e now)
  with assms show ?thesis by (simp add: stage_def hub_retains_def Let_def)
next
  case (Subscribing site)
  with assms show ?thesis by (simp add: subscribe_def hub_retains_set_log)
next
  case (Admitting site client limits)
  with assms show ?thesis
    by (auto simp: hub_admit_def Let_def intro!: hub_retains_set_log split: option.splits)
next
  case (Releasing a)
  with assms show ?thesis
    by (auto simp: hub_release_def Let_def intro!: hub_retains_set_log dest!: log_of_known split: option.splits)
qed

lemma history_retains:
  "hub_retains F h \<Longrightarrow> hub_retains (\<lambda>s. F s @ history env acts h s) (fold (hub_act env) acts h)"
proof (induction acts arbitrary: F h)
  case Nil
  then show ?case by simp
next
  case (Cons a acts)
  show ?case using Cons.IH [OF hub_act_retains [OF Cons.prems, of a env]] by simp
qed

lemma new_hub_retains: "hub_retains (\<lambda>_. []) (new_hub epoch)"
  by (simp add: hub_retains_def new_hub_def log_of_def)

lemma push_epoch: "hb_epoch (push h site e at now) = hb_epoch h"
  by (simp add: push_def Let_def)

lemma push_all_epoch: "hb_epoch (push_all h staged now) = hb_epoch h"
  by (induction h staged now rule: push_all.induct) (simp_all add: push_epoch)

lemma hub_act_epoch: "hb_epoch (hub_act env a h) = hb_epoch h"
  by (cases a) (auto simp: stage_def settle_def subscribe_def hub_admit_def hub_release_def Let_def push_all_epoch
      split: option.splits)

subsection \<open>A read is exact\<close>

lemma filter_enumerate: "filter (\<lambda>x. c < fst x) (enumerate (Suc n) es) = drop (c - n) (enumerate (Suc n) es)"
proof (induction es arbitrary: n)
  case Nil
  then show ?case by simp
next
  case (Cons e es)
  show ?case
  proof (cases "c \<le> n")
    case True
    then have "filter (\<lambda>x. c < fst x) (enumerate (Suc (Suc n)) es) = enumerate (Suc (Suc n)) es"
      by (auto simp: filter_id_conv in_set_enumerate_eq)
    with True show ?thesis by simp
  next
    case False
    then obtain m where "c - n = Suc m" by (metis Suc_diff_Suc not_le)
    moreover have "c - Suc n = m" using calculation by simp
    ultimately show ?thesis using False Cons.IH [of "Suc n"] by simp
  qed
qed

text \<open>The events after a cursor, with their numbers, as far as the connection may see them.\<close>

definition unread :: "bool \<Rightarrow> nat \<Rightarrow> site_event list \<Rightarrow> (nat \<times> site_event) list" where
  "unread owner cursor es = filter (may_see owner \<circ> snd) (drop cursor (enumerate 1 es))"

lemma retained_stretch:
  assumes "retains es log"
  obtains k where "map numbered (lg_events log) = enumerate (Suc k) (drop k es)"
    and "es = [] \<and> k = 0 \<or> k < length es"
proof -
  obtain k where k: "map numbered (lg_events log) = drop k (enumerate 1 es)" "es \<noteq> [] \<longrightarrow> k < length es"
    using assms by (auto simp: retains_def)
  have split: "drop j (enumerate 1 xs) = enumerate (Suc j) (drop j xs)" for j and xs :: "site_event list"
    by (intro nth_equalityI) (simp_all add: nth_enumerate_eq)
  show thesis
  proof (cases "es = []")
    case True
    with k(1) that [of 0] show thesis by simp
  next
    case False
    with k split that [of k] show thesis by simp
  qed
qed

lemma buffered_after:
  assumes "map numbered xs = enumerate (Suc k) es"
  shows "map (\<lambda>x. (se_sequence x, se_event x)) (filter (\<lambda>x. may_see owner (se_event x))
      (filter (\<lambda>x. cursor < se_sequence x) xs))
    = filter (may_see owner \<circ> snd) (drop (cursor - k) (enumerate (Suc k) es))"
proof -
  have "map numbered (filter (\<lambda>x. may_see owner (se_event x)) (filter (\<lambda>x. cursor < se_sequence x) xs))
      = filter (may_see owner \<circ> snd) (filter (\<lambda>x. cursor < fst x) (map numbered xs))"
    by (simp add: filter_map o_def numbered_def)
  with assms show ?thesis by (simp add: filter_enumerate numbered_def [abs_def])
qed

lemma oldest_sequence:
  assumes "map numbered (oldest # rest) = enumerate (Suc k) es"
  shows "se_sequence oldest = Suc k"
  using assms by (cases es) (simp_all add: numbered_def)

lemma hub_read_exact:
  assumes "hub_retains F h" and "cursor \<le> length (F site)"
  shows "hub_read h site cursor owner = Events (unread owner cursor (F site)) (length (F site))
    \<or> hub_read h site cursor owner = Gap (length (F site)) \<and> cursor < length (F site)
      \<and> cursor + 1 \<notin> se_sequence ` set (lg_events (log_of h site))"
proof (cases "map_of (hb_sites h) site")
  case None
  then have "log_of h site = default_log" by (simp add: log_of_def)
  with assms(1) have "F site = []" by (auto simp: hub_retains_def retains_def default_log_def dest!: spec [of _ site])
  with None show ?thesis by (simp add: hub_read_def unread_def)
next
  case (Some log)
  have r: "retains (F site) log" using assms(1) log_of_known [OF Some] by (auto simp: hub_retains_def)
  obtain k where k: "map numbered (lg_events log) = enumerate (Suc k) (drop k (F site))"
    and start: "F site = [] \<and> k = 0 \<or> k < length (F site)"
    by (rule retained_stretch [OF r])
  have last: "lg_last log = length (F site)" using r by (simp add: retains_def)
  show ?thesis
  proof (cases "k \<le> cursor")
    case True
    have "enumerate (Suc k) (drop k (F site)) = drop k (enumerate 1 (F site))"
      by (intro nth_equalityI) (simp_all add: nth_enumerate_eq)
    with True buffered_after [OF k, of owner cursor]
    have "map (\<lambda>x. (se_sequence x, se_event x)) (filter (\<lambda>x. may_see owner (se_event x))
        (filter (\<lambda>x. cursor < se_sequence x) (lg_events log))) = unread owner cursor (F site)"
      by (simp add: unread_def)
    with True show ?thesis using oldest_sequence k
      by (auto simp: hub_read_def Some last split: list.splits)
  next
    case False
    with start have "drop k (F site) \<noteq> []" by auto
    then have "lg_events log \<noteq> []" using arg_cong [OF k, of length] by auto
    then obtain oldest rest where log: "lg_events log = oldest # rest" by (cases "lg_events log") auto
    have "se_sequence oldest = Suc k" using k log oldest_sequence by simp
    moreover have "cursor < length (F site)" using False start by auto
    moreover have "fst ` set (map numbered (lg_events log)) = se_sequence ` set (lg_events log)"
      by (simp add: image_image numbered_def)
    then have "se_sequence ` set (lg_events log) \<subseteq> {Suc k..}"
      unfolding k by (auto simp: in_set_enumerate_eq)
    ultimately show ?thesis using False
      by (auto simp: hub_read_def Some last log log_of_known [OF Some])
  qed
qed

subsection \<open>A connection's stream\<close>

text \<open>
  A connection in its process: anything may happen to the hub between two turns of its loop. The
  frames it has yielded come last.
\<close>

datatype activity =
    Elsewhere hub_action
  | Turning db instant int int
  | Waking

fun follow :: "stream_env \<Rightarrow> activity \<Rightarrow> site_hub \<times> reader \<times> frame list \<Rightarrow> site_hub \<times> reader \<times> frame list" where
  "follow env (Elsewhere a) (h, r, sent) = (hub_act env a h, r, sent)"
| "follow env (Turning d clock ticks later) (h, r, sent) =
     (case reader_turn env d h r clock ticks later of
        (Yields f, r') \<Rightarrow> (h, r', sent @ [f])
      | (_, r') \<Rightarrow> (h, r', sent))"
| "follow env Waking (h, r, sent) = (h, (case woken h r of None \<Rightarrow> r | Some r' \<Rightarrow> r'), sent)"

fun elsewhere :: "activity list \<Rightarrow> hub_action list" where
  "elsewhere [] = []"
| "elsewhere (Elsewhere a # rest) = a # elsewhere rest"
| "elsewhere (_ # rest) = elsewhere rest"

definition event_frames :: "stream_env \<Rightarrow> string \<Rightarrow> (nat \<times> site_event) list \<Rightarrow> frame list" where
  "event_frames env epoch = map (\<lambda>(n, e). sse_frame env (epoch @ CHR ''.'' # digits_of n) e)"

lemma event_frames_simps [simp]:
  "event_frames env epoch [] = []"
  "event_frames env epoch (xs @ ys) = event_frames env epoch xs @ event_frames env epoch ys"
  by (simp_all add: event_frames_def)

text \<open>
  Since the start of the stretch it reads, which is where it was opened or the number of its last
  \<open>resync\<close>, the connection was given exactly the visible events, in order and each once.
\<close>

definition stretch ::
  "stream_env \<Rightarrow> string \<Rightarrow> bool \<Rightarrow> nat \<Rightarrow> site_event list \<Rightarrow> nat \<Rightarrow> frame list \<Rightarrow> bool" where
  "stretch env epoch owner opened es cursor given \<longleftrightarrow> cursor \<le> length es \<and>
     (\<exists>before start. start \<le> cursor
        \<and> given = before @ event_frames env epoch (unread owner start (take cursor es))
        \<and> (before = [] \<and> start = opened
           \<or> before \<noteq> [] \<and> last before = sse_frame env (epoch @ CHR ''.'' # digits_of start) Resync))"

lemma unread_append:
  assumes "start \<le> length xs"
  shows "unread owner start (xs @ ys) = unread owner start xs @ unread owner (length xs) (xs @ ys)"
  using assms by (simp add: unread_def enumerate_append_eq)

lemma unread_all [simp]: "length es \<le> c \<Longrightarrow> unread owner c es = []"
  by (simp add: unread_def)

lemma stretch_more: "stretch env epoch owner opened es cursor given \<Longrightarrow> stretch env epoch owner opened (es @ fs) cursor given"
  by (auto simp: stretch_def)

lemma stretch_start: "opened \<le> length es \<Longrightarrow> stretch env epoch owner opened es opened []"
  unfolding stretch_def by (intro conjI exI [of _ "[]"] exI [of _ opened]) simp_all

lemma stretch_resync:
  "stretch env epoch owner opened es (length es) (given @ [sse_frame env (epoch @ CHR ''.'' # digits_of (length es)) Resync])"
  unfolding stretch_def
  by (intro conjI exI [of _ "given @ [sse_frame env (epoch @ CHR ''.'' # digits_of (length es)) Resync]"]
      exI [of _ "length es"]) simp_all

lemma stretch_events:
  assumes "stretch env epoch owner opened es cursor given"
  shows "stretch env epoch owner opened es (length es) (given @ event_frames env epoch (unread owner cursor es))"
proof -
  obtain before start where s: "cursor \<le> length es" "start \<le> cursor"
    "given = before @ event_frames env epoch (unread owner start (take cursor es))"
    and b: "before = [] \<and> start = opened
      \<or> before \<noteq> [] \<and> last before = sse_frame env (epoch @ CHR ''.'' # digits_of start) Resync"
    using assms by (auto simp: stretch_def)
  have "unread owner start (take cursor es @ drop cursor es)
      = unread owner start (take cursor es) @ unread owner cursor (take cursor es @ drop cursor es)"
    using s(1,2) unread_append [of start "take cursor es" owner "drop cursor es"] by simp
  then have "given @ event_frames env epoch (unread owner cursor es)
      = before @ event_frames env epoch (unread owner start (take (length es) es))"
    by (simp add: s(3))
  with s(1,2) b show ?thesis
    unfolding stretch_def by (intro conjI exI [of _ before] exI [of _ start]) simp_all
qed

definition reading :: "stream_env \<Rightarrow> nat \<Rightarrow> (string \<Rightarrow> site_event list) \<Rightarrow> site_hub \<times> reader \<times> frame list \<Rightarrow> bool" where
  "reading env opened F = (\<lambda>(h, r, sent). hub_retains F h
     \<and> stretch env (hb_epoch h) (rd_owner r) opened (F (rd_site r)) (rd_cursor r) (sent @ rd_pending r)
     \<and> rd_wake r \<le> length (F (rd_site r)))"

lemma reader_fill_same [simp]:
  "rd_site (reader_fill env h r) = rd_site r" "rd_owner (reader_fill env h r) = rd_owner r" "rd_wake (reader_fill env h r) = rd_wake r"
  by (simp_all add: reader_fill_def reader_resync_def split: feed.splits)

lemma reader_fill_stretch:
  assumes "reading env opened F (h, r, sent)"
  shows "reading env opened F (h, reader_fill env h r, sent)"
proof -
  let ?es = "F (rd_site r)"
  have ret: "hub_retains F h"
    and st: "stretch env (hb_epoch h) (rd_owner r) opened ?es (rd_cursor r) (sent @ rd_pending r)"
    and wake: "rd_wake r \<le> length ?es"
    using assms by (simp_all add: reading_def)
  have le: "rd_cursor r \<le> length ?es" using st by (simp add: stretch_def)
  show ?thesis
    using hub_read_exact [OF ret le, of "rd_owner r"] ret stretch_events [OF st] le wake
      stretch_resync [of env "hb_epoch h" "rd_owner r" opened ?es "sent @ rd_pending r"]
    by (auto simp: reading_def reader_fill_def reader_resync_def event_id_def event_frames_def max_absorb2)
qed

lemma still_live_same:
  assumes "still_live d r clock ticks later = (live, r')"
  shows "rd_site r' = rd_site r" "rd_owner r' = rd_owner r" "rd_pending r' = rd_pending r" "rd_cursor r' = rd_cursor r"
    "rd_wake r' = rd_wake r"
  using assms by (auto simp: still_live_def split: option.splits if_splits prod.splits)

lemma reader_turn_cases:
  assumes "reader_turn env d h r clock ticks later = (t, r')"
  obtains (ended) "still_live d r clock ticks later = (False, r')" "t = Ended"
  | (yields) f fs r1 where "still_live d r clock ticks later = (True, r1)" "rd_pending r1 = f # fs"
      "t = Yields f" "r' = r1\<lparr>rd_pending := fs\<rparr>"
  | (fills) r1 where "still_live d r clock ticks later = (True, r1)" "rd_pending r1 = []"
      "r' = reader_fill env h r1" "t = (if rd_pending r' = [] then Waits else Again)"
  using assms by (auto simp: reader_turn_def Let_def split: prod.splits if_splits list.splits)

lemma follow_reading:
  assumes "reading env opened F (h, r, sent)" and "follow env a (h, r, sent) = (h', r', sent')"
  shows "reading env opened (\<lambda>s. F s @ (case a of Elsewhere b \<Rightarrow> act_added b h s | _ \<Rightarrow> [])) (h', r', sent')
    \<and> rd_site r' = rd_site r \<and> rd_owner r' = rd_owner r"
proof (cases a)
  case (Elsewhere b)
  with assms show ?thesis
    by (auto simp: reading_def hub_act_epoch intro: hub_act_retains stretch_more dest: trans_le_add1)
next
  case (Turning d clock ticks later)
  obtain t r1 where turn: "reader_turn env d h r clock ticks later = (t, r1)" by fastforce
  then have out: "h' = h" "r' = r1" "sent' = (case t of Yields f \<Rightarrow> sent @ [f] | _ \<Rightarrow> sent)"
    using assms(2) by (auto simp: Turning split: turn.splits)
  from turn show ?thesis
  proof (cases rule: reader_turn_cases)
    case ended
    with assms(1) out still_live_same [OF ended(1)] show ?thesis by (simp add: Turning reading_def)
  next
    case (yields f fs r0)
    with assms(1) out still_live_same [OF yields(1)] show ?thesis by (simp add: Turning reading_def)
  next
    case (fills r0)
    note same = still_live_same [OF fills(1)]
    have "reading env opened F (h, r0, sent)" using assms(1) by (simp add: reading_def same)
    with reader_fill_stretch [OF this] out fills same show ?thesis by (simp add: Turning)
  qed
next
  case Waking
  moreover have "lg_wake (log_of h (rd_site r)) = length (F (rd_site r))"
    using assms(1) by (simp add: reading_def hub_retains_def retains_def)
  ultimately show ?thesis using assms by (auto simp: reading_def woken_def Let_def split: option.splits if_splits)
qed

lemma follow_all:
  assumes "reading env opened F (h, r, sent)" and "fold (follow env) acts (h, r, sent) = (h', r', sent')"
  shows "reading env opened (\<lambda>s. F s @ history env (elsewhere acts) h s) (h', r', sent')
    \<and> rd_site r' = rd_site r \<and> rd_owner r' = rd_owner r"
  using assms
proof (induction acts arbitrary: F h r sent)
  case Nil
  then show ?case by simp
next
  case (Cons a acts)
  obtain h1 r1 sent1 where step: "follow env a (h, r, sent) = (h1, r1, sent1)" by (rule prod_cases3)
  note one = follow_reading [OF Cons.prems(1) step]
  have hub: "h1 = (case a of Elsewhere b \<Rightarrow> hub_act env b h | _ \<Rightarrow> h)"
    using step by (cases a) (auto split: prod.splits turn.splits)
  show ?case
    using Cons.IH [OF one [THEN conjunct1]] Cons.prems(2) step one hub by (cases a) auto
qed

lemma feed_last_read [simp]: "feed_last (hub_read h site cursor owner) = lg_last (log_of h site)"
  by (auto simp: hub_read_def log_of_def default_log_def split: option.split list.split)

lemma cursor_of_bound: "cursor_of h site raw = Some n \<Longrightarrow> n \<le> lg_last (log_of h site)"
  by (auto simp: cursor_of_def split: option.splits bind_splits if_splits)

lemma open_stream_reading:
  assumes "open_stream env h limits c ticks = (Inr r, h')" and "hub_retains F h"
  shows "reading env (rd_cursor r) F (h', r, [])" and "rd_site r = cn_site c" and "rd_owner r = (cn_owner c \<noteq> None)"
    and "hb_epoch h' = hb_epoch h"
proof -
  let ?client = "if cn_owner c = None then Some (cn_client c) else None"
  obtain a h1 where admit: "hub_admit h (cn_site c) ?client limits = (Some a, h1)"
    using assms(1) by (auto simp: open_stream_def Let_def split: prod.splits option.splits)
  have h1: "hub_retains F h1" "hb_epoch h1 = hb_epoch h"
    using hub_act_retains [OF assms(2), of "Admitting (cn_site c) ?client limits" env]
      hub_act_epoch [of env "Admitting (cn_site c) ?client limits" h] by (simp_all add: admit)
  define h2 where "h2 = set_log h1 (cn_site c) (log_of h1 (cn_site c))"
  have h2: "hub_retains F h2" "hb_epoch h2 = hb_epoch h" using h1 by (auto simp: h2_def intro: hub_retains_set_log)
  let ?es = "F (cn_site c)"
  have last: "lg_last (log_of h2 (cn_site c)) = length ?es" and wake: "lg_wake (log_of h1 (cn_site c)) = length ?es"
    using h1 h2 by (auto simp: hub_retains_def retains_def)
  have "h' = h2" and shape: "rd_site r = cn_site c" "rd_owner r = (cn_owner c \<noteq> None)" "rd_wake r = length ?es"
    and at: "rd_cursor r = length ?es \<and> rd_pending r = []
      \<or> rd_cursor r \<le> length ?es \<and> rd_pending r = []
      \<or> rd_cursor r = length ?es \<and> rd_pending r = [sse_frame env (event_id h2 (length ?es)) Resync]"
    using assms(1) last cursor_of_bound [of h2 "cn_site c"] wake
    by (auto simp: open_stream_def admit subscribe_def Let_def h2_def [symmetric] reader_resync_def reader_last_def
        split: option.splits)
  then show "reading env (rd_cursor r) F (h', r, [])"
    using h2(1) stretch_start [of "rd_cursor r" ?es env "hb_epoch h2" "rd_owner r"]
      stretch_resync [of env "hb_epoch h2" "rd_owner r" "length ?es" ?es "[]"]
    by (auto simp: reading_def event_id_def)
  show "rd_site r = cn_site c" "rd_owner r = (cn_owner c \<noteq> None)" by (fact shape)+
  show "hb_epoch h' = hb_epoch h" using \<open>h' = h2\<close> h2(2) by simp
qed

lemma hub_epoch_run: "hb_epoch (fold (hub_act env) bs h) = hb_epoch h"
  by (induction bs arbitrary: h) (simp_all add: hub_act_epoch)

lemma follow_epoch: "hb_epoch (fst (fold (follow env) acts x)) = hb_epoch (fst x)"
proof (induction acts arbitrary: x)
  case Nil
  then show ?case by simp
next
  case (Cons a acts)
  have "hb_epoch (fst (follow env a x)) = hb_epoch (fst x)"
    by (cases x; cases a) (simp_all add: hub_act_epoch split: prod.splits turn.splits)
  with Cons.IH show ?case by simp
qed

lemma connection_run:
  assumes "open_stream env (fold (hub_act env) earlier (new_hub epoch)) limits c ticks = (Inr r, h)"
    and "fold (follow env) acts (h, r, []) = (h', r', sent)"
  shows "reading env (rd_cursor r) (\<lambda>s. history env earlier (new_hub epoch) s @ history env (elsewhere acts) h s)
      (h', r', sent)"
    and "rd_site r' = cn_site c" and "rd_owner r' = (cn_owner c \<noteq> None)" and "hb_epoch h' = epoch"
proof -
  note opened = open_stream_reading [OF assms(1) history_retains [OF new_hub_retains], simplified append_Nil]
  note run = follow_all [OF opened(1) assms(2)]
  show "reading env (rd_cursor r) (\<lambda>s. history env earlier (new_hub epoch) s @ history env (elsewhere acts) h s)
      (h', r', sent)" by (rule run [THEN conjunct1])
  show "rd_site r' = cn_site c" "rd_owner r' = (cn_owner c \<noteq> None)" using run opened by simp_all
  have "hb_epoch (new_hub epoch) = epoch" by (simp add: new_hub_def)
  with opened(4) follow_epoch [of env acts "(h, r, [])"] assms(2) show "hb_epoch h' = epoch"
    by (simp add: hub_epoch_run)
qed

text \<open>
  C11: an open connection misses nothing. From the start of the process, whatever is published,
  opened and closed meanwhile, what the connection was given is the list of the visible events of
  its site after the place it reads from, in order and each once; that place is the cursor it was
  opened at, or the number of the last \<open>resync\<close> it was sent.
\<close>

theorem live_stream_misses_nothing:
  assumes "open_stream env (fold (hub_act env) earlier (new_hub epoch)) limits c ticks = (Inr r, h)"
    and "fold (follow env) acts (h, r, []) = (h', r', sent)"
    and "es = history env earlier (new_hub epoch) (cn_site c) @ history env (elsewhere acts) h (cn_site c)"
  shows "stretch env epoch (cn_owner c \<noteq> None) (rd_cursor r) es (rd_cursor r') (sent @ rd_pending r')"
  using connection_run [OF assms(1,2)] by (simp add: reading_def assms(3))

lemma fill_empty:
  assumes "reading env opened F (h, r, sent)" and "rd_pending (reader_fill env h r) = []"
  shows "rd_cursor (reader_fill env h r) = length (F (rd_site r))"
proof -
  have "hub_retains F h" and "rd_cursor r \<le> length (F (rd_site r))" using assms(1) by (simp_all add: reading_def stretch_def)
  with hub_read_exact [OF this, of "rd_owner r"] assms(2) show ?thesis
    by (auto simp: reader_fill_def reader_resync_def max_absorb2)
qed

text \<open>
  A connection that waits has been given everything, and the next event of its site wakes it.
\<close>

lemma waiting_connection_is_woken:
  assumes "open_stream env (fold (hub_act env) earlier (new_hub epoch)) limits c ticks = (Inr r, h)"
    and "fold (follow env) acts (h, r, []) = (h', r', sent)"
    and "reader_turn env d h' r' clock now later = (Waits, r'')"
    and "es = history env earlier (new_hub epoch) (cn_site c) @ history env (elsewhere acts) h (cn_site c)"
  shows "stretch env epoch (cn_owner c \<noteq> None) (rd_cursor r) es (length es) sent
    \<and> (\<forall>after. history env after h' (cn_site c) \<noteq> [] \<longrightarrow> woken (fold (hub_act env) after h') r'' \<noteq> None)"
proof (intro conjI allI impI)
  note run = connection_run [OF assms(1,2)]
  obtain r1 where live: "still_live d r' clock now later = (True, r1)" and fill: "r'' = reader_fill env h' r1"
    and idle: "rd_pending r'' = []"
    using assms(3) by (cases rule: reader_turn_cases) (auto split: if_splits)
  note same = still_live_same [OF live]
  let ?F = "\<lambda>s. history env earlier (new_hub epoch) s @ history env (elsewhere acts) h s"
  have r1: "reading env (rd_cursor r) ?F (h', r1, sent)" using run(1) by (simp add: reading_def same)
  note r'' = reader_fill_stretch [OF r1, folded fill]
  show "stretch env epoch (cn_owner c \<noteq> None) (rd_cursor r) es (length es) sent"
    using r'' fill_empty [OF r1] idle run(2-4) by (simp add: reading_def fill same assms(4))
  fix after
  assume "history env after h' (cn_site c) \<noteq> []"
  moreover have "hub_retains ?F h'" using r1 by (simp add: reading_def)
  from history_retains [OF this, of env after] have "lg_wake (log_of (fold (hub_act env) after h') (cn_site c))
      = length (?F (cn_site c)) + length (history env after h' (cn_site c))"
    by (auto simp: hub_retains_def retains_def)
  moreover from \<open>history env after h' (cn_site c) \<noteq> []\<close> have "0 < length (history env after h' (cn_site c))" by simp
  moreover have "rd_wake r'' \<le> length (?F (cn_site c))"
    using r'' run(2) by (simp_all add: reading_def fill same)
  ultimately have "rd_wake r'' < lg_wake (log_of (fold (hub_act env) after h') (cn_site c))" by linarith
  with run(2) show "woken (fold (hub_act env) after h') r'' \<noteq> None" by (auto simp: woken_def Let_def fill same)
qed

text \<open>
  C28: an owner's connection ends with its session: once the session is revoked or expired, the
  first turn at or after the next check ends the stream, whatever is left to send.
\<close>

theorem owner_stream_ends_with_its_session:
  assumes "db_ok d" and "row \<in> set (t_sessions d)" and "ss_token_hash row = Some (ow_token w)"
    and "ss_revoked_at row \<noteq> None \<or> ss_expires_at row \<le> clock"
    and "rd_watch r = Some w" and "rd_next_check r \<le> ticks"
  shows "fst (reader_turn env d h r clock ticks later) = Ended"
proof -
  have "authenticate d (ow_token w) audience clock = None" for audience
  proof (rule ccontr)
    assume "authenticate d (ow_token w) audience clock \<noteq> None"
    then obtain x where x: "x \<in> set (t_sessions d)" "authenticates (ow_token w) audience clock x"
      by (auto simp: authenticate_Some [OF assms(1)])
    then have "x = row"
      using sessions_table.unclashing [OF db_okD(13) [OF assms(1)] x(1) assms(2)] assms(3)
      by (simp add: session_clash_def authenticates_def)
    with x(2) assms(4) show False by (auto simp: authenticates_def)
  qed
  moreover have "\<not> ticks < owner_due w (rd_next_check r) ticks clock" using assms(6) by (simp add: owner_due_def)
  ultimately show ?thesis by (simp add: reader_turn_def still_live_def assms(5) owner_live_def)
qed

subsection \<open>Resuming\<close>

lemma byte_digit_char: "n < 10 \<Longrightarrow> byte (digit_char n) = 48 + n"
  by (simp add: digit_char_def)

lemma digits_value_digits_of: "digits_value (digits_of n) = n"
proof (induction n rule: digits_of.induct)
  case (1 n)
  then show ?case by (subst digits_of.simps) (simp add: digits_value_def byte_digit_char)
qed

lemma digits_of_ascii: "list_all is_ascii_digit (digits_of n)"
  using digits_of_digit [of n] by (auto simp: list_all_iff is_ascii_digit_def byte_digit_char)

lemma parse_u64_digits_of:
  assumes "n \<le> u64_max"
  shows "parse_u64 (digits_of n) = Some n"
proof -
  have "is_ascii_digit (hd (digits_of n))" using digits_of_ascii [of n] digits_of_nonempty [of n] by (cases "digits_of n") auto
  then have "hd (digits_of n) \<noteq> CHR ''+''" by (auto simp: is_ascii_digit_def)
  then have "(case digits_of n of [] \<Rightarrow> [] | c # cs \<Rightarrow> if c = CHR ''+'' then cs else digits_of n) = digits_of n"
    by (auto split: list.splits)
  then show ?thesis
    using assms digits_of_ascii [of n] digits_of_nonempty [of n] by (simp add: parse_u64_def digits_value_digits_of)
qed

text \<open>
  A client that presents the identifier of an event resumes right after that event, and an
  identifier of another epoch, or of an event that is still to come, is unknown: such a client is told
  to \<open>resync\<close>.
\<close>

lemma event_ids_resume_in_place:
  assumes "CHR ''.'' \<notin> set epoch" and "CHR ''.'' \<notin> set other"
    and "h = fold (hub_act env) acts (new_hub epoch)" and "n \<le> u64_max"
  shows "cursor_of h site (other @ CHR ''.'' # digits_of n)
    = (if other = epoch \<and> n \<le> length (history env acts (new_hub epoch) site) then Some n else None)"
proof -
  have "hub_retains (\<lambda>s. history env acts (new_hub epoch) s) h"
    using history_retains [OF new_hub_retains, of env acts epoch] by (simp add: assms(3))
  then have "lg_last (log_of h site) = length (history env acts (new_hub epoch) site)"
    by (simp add: hub_retains_def retains_def)
  moreover have "hb_epoch h = epoch" by (simp add: assms(3) hub_epoch_run) (simp add: new_hub_def)
  moreover have "split_once (CHR ''.'') (other @ CHR ''.'' # digits_of n) = Some (other, digits_of n)"
    using assms(2) by (simp add: split_once_Some)
  ultimately show ?thesis using assms(4) by (simp add: cursor_of_def parse_u64_digits_of)
qed

subsection \<open>Open connections\<close>

text \<open>
  The connections of the process: each that was admitted is open until it is dropped, once.
\<close>

datatype door_action =
    Opening string "string option"
  | Closing nat
  | Aside hub_action

abbreviation number :: "('a \<Rightarrow> bool) \<Rightarrow> 'a list \<Rightarrow> nat" where
  "number P xs \<equiv> length (filter P xs)"

fun door_step :: "stream_env \<Rightarrow> stream_limits \<Rightarrow> door_action \<Rightarrow> site_hub \<times> admitted list \<Rightarrow> site_hub \<times> admitted list" where
  "door_step env limits (Opening site client) (h, live) =
     (case hub_admit h site client limits of
        (None, h') \<Rightarrow> (h', live)
      | (Some a, h') \<Rightarrow> (h', a # live))"
| "door_step env limits (Closing n) (h, live) =
     (if n < length live then (hub_release h (live ! n), take n live @ drop (Suc n) live) else (h, live))"
| "door_step env limits (Aside a) (h, live) =
     (case a of
        Admitting _ _ _ \<Rightarrow> (h, live)
      | Releasing _ \<Rightarrow> (h, live)
      | _ \<Rightarrow> (hub_act env a h, live))"

definition site_counts :: "stream_limits \<Rightarrow> site_log \<Rightarrow> (string option) list \<Rightarrow> bool" where
  "site_counts limits log live \<longleftrightarrow>
     lg_anonymous log = number (\<lambda>c. c \<noteq> None) live \<and> number (\<lambda>c. c \<noteq> None) live \<le> sl_per_site limits
     \<and> lg_owners log = number (\<lambda>c. c = None) live \<and> number (\<lambda>c. c = None) live \<le> sl_per_site_owner limits
     \<and> (\<forall>c. clients_at log c = number (\<lambda>x. x = Some c) live)
     \<and> (\<forall>c. number (\<lambda>x. x = Some c) live \<le> sl_per_client limits)"

definition clients_of :: "string \<Rightarrow> admitted list \<Rightarrow> (string option) list" where
  "clients_of site live = map ad_client (filter (\<lambda>a. ad_site a = site) live)"

definition hub_counts :: "stream_limits \<Rightarrow> site_hub \<times> admitted list \<Rightarrow> bool" where
  "hub_counts limits = (\<lambda>(h, live). \<forall>site. site_counts limits (log_of h site) (clients_of site live))"

lemma clients_of_simps [simp]:
  "clients_of site [] = []"
  "clients_of site (a # live) = (if ad_site a = site then [ad_client a] else []) @ clients_of site live"
  "clients_of site (xs @ ys) = clients_of site xs @ clients_of site ys"
  by (simp_all add: clients_of_def)

lemma site_counts_same:
  "site_counts limits log cs \<Longrightarrow> lg_anonymous log' = lg_anonymous log \<Longrightarrow> lg_clients log' = lg_clients log
    \<Longrightarrow> lg_owners log' = lg_owners log \<Longrightarrow> site_counts limits log' cs"
  by (simp add: site_counts_def clients_at_def)

lemma hub_counts_same:
  assumes "hub_counts limits (h, live)"
    and "\<And>s. lg_anonymous (log_of h' s) = lg_anonymous (log_of h s)
      \<and> lg_clients (log_of h' s) = lg_clients (log_of h s) \<and> lg_owners (log_of h' s) = lg_owners (log_of h s)"
  shows "hub_counts limits (h', live)"
  using assms by (auto simp: hub_counts_def intro: site_counts_same)

lemma push_counts: "lg_anonymous (log_of (push h site e at now) s) = lg_anonymous (log_of h s)
    \<and> lg_clients (log_of (push h site e at now) s) = lg_clients (log_of h s)
    \<and> lg_owners (log_of (push h site e at now) s) = lg_owners (log_of h s)"
  by (simp add: push_def Let_def)

lemma push_all_counts: "lg_anonymous (log_of (push_all h staged now) s) = lg_anonymous (log_of h s)
    \<and> lg_clients (log_of (push_all h staged now) s) = lg_clients (log_of h s)
    \<and> lg_owners (log_of (push_all h staged now) s) = lg_owners (log_of h s)"
  by (induction h staged now rule: push_all.induct) (simp_all add: push_counts)

lemma owner_opened:
  "site_counts limits log cs \<Longrightarrow> lg_owners log < sl_per_site_owner limits
    \<Longrightarrow> site_counts limits (log\<lparr>lg_owners := Suc (lg_owners log)\<rparr>) (None # cs)"
  by (simp add: site_counts_def clients_at_def)

lemma client_opened:
  "site_counts limits log cs \<Longrightarrow> lg_anonymous log < sl_per_site limits \<Longrightarrow> clients_at log c < sl_per_client limits
    \<Longrightarrow> site_counts limits (log\<lparr>lg_anonymous := Suc (lg_anonymous log),
          lg_clients := AList.update c (Suc (clients_at log c)) (lg_clients log)\<rparr>) (Some c # cs)"
  by (simp add: site_counts_def clients_at_def update_conv')

lemma owner_closed:
  "site_counts limits log (xs @ None # ys) \<Longrightarrow> site_counts limits (log\<lparr>lg_owners := lg_owners log - 1\<rparr>) (xs @ ys)"
  by (auto simp: site_counts_def clients_at_def)

lemma client_closed:
  assumes "site_counts limits log (xs @ Some c # ys)"
  shows "site_counts limits (log\<lparr>lg_anonymous := lg_anonymous log - 1,
      lg_clients := (case map_of (lg_clients log) c of
          None \<Rightarrow> lg_clients log
        | Some n \<Rightarrow> if n - 1 = 0 then AList.delete c (lg_clients log)
                    else AList.update c (n - 1) (lg_clients log))\<rparr>) (xs @ ys)"
proof -
  have c: "clients_at log c = Suc (number (\<lambda>x. x = Some c) (xs @ ys))" using assms by (simp add: site_counts_def)
  then obtain n where n: "map_of (lg_clients log) c = Some n" "n = clients_at log c"
    by (auto simp: clients_at_def split: option.splits)
  define log' where "log' = log\<lparr>lg_anonymous := lg_anonymous log - 1, lg_clients :=
      if n - 1 = 0 then AList.delete c (lg_clients log) else AList.update c (n - 1) (lg_clients log)\<rparr>"
  have "clients_at log' x = number (\<lambda>y. y = Some x) (xs @ ys)" for x
  proof -
    have "clients_at log' x = (if x = c then n - 1 else clients_at log x)"
      by (simp add: log'_def clients_at_def update_conv' delete_conv')
    moreover have "clients_at log x = number (\<lambda>y. y = Some x) (xs @ Some c # ys)" using assms by (simp add: site_counts_def)
    ultimately show ?thesis using c n(2) by simp
  qed
  moreover have "number (\<lambda>y. y = Some x) (xs @ ys) \<le> sl_per_client limits" for x
  proof -
    have "number (\<lambda>y. y = Some x) (xs @ Some c # ys) \<le> sl_per_client limits" using assms by (simp add: site_counts_def)
    then show ?thesis by (auto split: if_splits)
  qed
  moreover have "lg_anonymous log' = number (\<lambda>x. x \<noteq> None) (xs @ ys)" "lg_owners log' = lg_owners log"
    using assms by (simp_all add: log'_def site_counts_def)
  ultimately have "site_counts limits log' (xs @ ys)" using assms by (simp add: site_counts_def)
  then show ?thesis by (simp add: n(1) log'_def)
qed

lemma admit_counts:
  assumes "hub_counts limits (h, live)" and "hub_admit h site client limits = (answer, h')"
  shows "hub_counts limits (h', (case answer of None \<Rightarrow> live | Some a \<Rightarrow> a # live))"
proof -
  have here: "site_counts limits (log_of h site) (clients_of site live)" using assms(1) by (simp add: hub_counts_def)
  show ?thesis
    using assms owner_opened [OF here] client_opened [OF here]
    by (auto simp: hub_counts_def hub_admit_def Let_def not_le split: if_splits option.splits)
qed

lemma release_counts:
  assumes "hub_counts limits (h, xs @ a # ys)"
  shows "hub_counts limits (hub_release h a, xs @ ys)"
proof -
  let ?site = "ad_site a" and ?log = "log_of h (ad_site a)"
  have counts: "site_counts limits (log_of h s) (clients_of s (xs @ a # ys))" for s
    using assms by (simp add: hub_counts_def)
  from counts [of ?site]
  have here: "site_counts limits ?log (clients_of ?site xs @ ad_client a # clients_of ?site ys)" by simp
  then have known: "map_of (hb_sites h) ?site = Some ?log"
    by (cases "map_of (hb_sites h) ?site"; cases "ad_client a")
      (simp_all add: log_of_def site_counts_def default_log_def)
  have other: "site_counts limits (log_of h s) (clients_of s (xs @ ys))" if "s \<noteq> ?site" for s
    using counts [of s] that by simp
  show ?thesis
  proof (cases "ad_client a")
    case None
    with owner_closed [of limits ?log] here other show ?thesis
      by (auto simp: hub_counts_def hub_release_def known)
  next
    case (Some c)
    with client_closed [of limits ?log _ c] here other show ?thesis
      by (auto simp: hub_counts_def hub_release_def known)
  qed
qed

lemma door_step_counts:
  assumes "hub_counts limits s"
  shows "hub_counts limits (door_step env limits a s)"
proof -
  obtain h live where s: "s = (h, live)" by (cases s)
  show ?thesis
  proof (cases a)
    case (Opening site client)
    obtain answer h' where "hub_admit h site client limits = (answer, h')" by fastforce
    with admit_counts [OF assms [unfolded s] this] show ?thesis by (simp add: s Opening split: option.splits)
  next
    case (Closing n)
    have "n < length live \<Longrightarrow> live = take n live @ live ! n # drop (Suc n) live" by (rule id_take_nth_drop)
    with assms release_counts [of limits h "take n live" "live ! n" "drop (Suc n) live"] show ?thesis
      by (auto simp: s Closing)
  next
    case (Aside b)
    show ?thesis using assms
      by (auto simp: s Aside stage_def settle_def subscribe_def Let_def push_all_counts
          intro: hub_counts_same split: hub_action.splits)
  qed
qed

lemma door_counts: "hub_counts limits s \<Longrightarrow> hub_counts limits (fold (door_step env limits) acts s)"
  by (induction acts arbitrary: s) (simp_all add: door_step_counts)

text \<open>
  Whatever is published, opened and closed, in any order, the hub counts exactly the connections
  that are open, per site, per client of a site and for the owners of a site, and no count is
  above its bound.
\<close>

lemma open_connections_are_counted:
  "\<exists>h live. fold (door_step env limits) acts (new_hub epoch, []) = (h, live)
     \<and> (\<forall>site. lg_anonymous (log_of h site) = number (\<lambda>a. ad_site a = site \<and> ad_client a \<noteq> None) live
          \<and> lg_anonymous (log_of h site) \<le> sl_per_site limits
          \<and> lg_owners (log_of h site) = number (\<lambda>a. ad_site a = site \<and> ad_client a = None) live
          \<and> lg_owners (log_of h site) \<le> sl_per_site_owner limits
          \<and> (\<forall>c. clients_at (log_of h site) c = number (\<lambda>a. ad_site a = site \<and> ad_client a = Some c) live
               \<and> clients_at (log_of h site) c \<le> sl_per_client limits))"
proof -
  have "hub_counts limits (new_hub epoch, [])"
    by (simp add: hub_counts_def new_hub_def log_of_def site_counts_def default_log_def clients_at_def)
  then have run: "hub_counts limits (fold (door_step env limits) acts (new_hub epoch, []))"
    by (rule door_counts)
  obtain h live where hl: "fold (door_step env limits) acts (new_hub epoch, []) = (h, live)" by fastforce
  have "number P (clients_of site live) = number (\<lambda>a. ad_site a = site \<and> P (ad_client a)) live" for P site
    by (simp add: clients_of_def filter_map o_def conj_commute)
  with run hl show ?thesis by (auto simp: hub_counts_def site_counts_def)
qed

subsection \<open>Concrete runs\<close>

definition demo_stream_env :: stream_env where
  "demo_stream_env =
     \<lparr>event_value = (\<lambda>e. Some (JObject [(''type'', JString (case e of ReleaseAnnounced _ _ \<Rightarrow> ''release.published''
        | DraftAnnounced _ _ _ \<Rightarrow> ''draft.changed'' | EditDone _ _ _ \<Rightarrow> ''edit.completed''
        | EditClashed _ _ _ \<Rightarrow> ''edit.conflicted'' | Resync \<Rightarrow> ''resync''))])),
      json_text = (\<lambda>_. ''{}''), parse_instant = (\<lambda>_. None)\<rparr>"

definition demo_publish :: "uuid \<Rightarrow> site_event \<Rightarrow> hub_action list" where
  "demo_publish i e =
     [Staging \<lparr>in_message_id = i, in_subject = Subject ''evt.sites.release.published.v1'',
        in_producer = ''ratatoskr-sites'', in_payload = JNull\<rparr> ''blog'' e 0,
      Settling i True 0]"

definition demo_connection :: connection where
  "demo_connection = \<lparr>cn_site = ''blog'', cn_owner = None, cn_client = ''c'', cn_last_event_id = None\<rparr>"

definition demo_open :: "(failure_kind + reader) \<times> site_hub" where
  "demo_open = open_stream demo_stream_env
     (fold (hub_act demo_stream_env) (demo_publish 1 (ReleaseAnnounced ''r1'' ''t1'')) (new_hub ''e''))
     default_stream_limits demo_connection 0"

definition demo_activity :: "db \<Rightarrow> activity list" where
  "demo_activity d = map Elsewhere (demo_publish 2 (ReleaseAnnounced ''r2'' ''t2'')) @ [Turning d 0 0 0, Turning d 0 0 0]"

definition demo_hub :: site_hub where
  "demo_hub = \<lparr>hb_epoch = ''e'',
     hb_sites = [(''blog'', \<lparr>lg_last = 1,
        lg_events = [\<lparr>se_sequence = 1, se_at = 0, se_event = ReleaseAnnounced ''r1'' ''t1''\<rparr>],
        lg_anonymous = 1, lg_clients = [(''c'', 1)], lg_owners = 0, lg_wake = 1\<rparr>)], hb_staged = []\<rparr>"

definition demo_reader :: reader where
  "demo_reader = \<lparr>rd_site = ''blog'', rd_owner = False, rd_watch = None, rd_check_every = 60000000, rd_wake = 1,
     rd_next_check = 60000000, rd_pending = [], rd_cursor = 1,
     rd_admitted = \<lparr>ad_site = ''blog'', ad_client = Some ''c''\<rparr>\<rparr>"

lemmas hub_defs = open_stream_def hub_admit_def subscribe_def stage_def settle_def push_def log_of_def set_log_def
  full_for_def new_hub_def default_log_def default_stream_limits_def window_age_def window_events_def sites_max_def
  seconds_def clients_at_def json_get_def reader_last_def Let_def

lemma demo_opens: "demo_open = (Inr demo_reader, demo_hub)"
  by (simp add: hub_defs demo_open_def demo_publish_def demo_connection_def demo_stream_env_def demo_reader_def demo_hub_def)

definition demo_hub2 :: site_hub where
  "demo_hub2 = demo_hub\<lparr>
     hb_sites := [(''blog'', \<lparr>lg_last = 2,
        lg_events = [\<lparr>se_sequence = 1, se_at = 0, se_event = ReleaseAnnounced ''r1'' ''t1''\<rparr>,
          \<lparr>se_sequence = 2, se_at = 0, se_event = ReleaseAnnounced ''r2'' ''t2''\<rparr>],
        lg_anonymous = 1, lg_clients = [(''c'', 1)], lg_owners = 0, lg_wake = 2\<rparr>)]\<rparr>"

lemma demo_published:
  "fold (follow demo_stream_env) (map Elsewhere (demo_publish 2 (ReleaseAnnounced ''r2'' ''t2''))) (demo_hub, r, sent)
    = (demo_hub2, r, sent)"
  by (simp add: hub_defs demo_publish_def demo_stream_env_def demo_hub_def demo_hub2_def)

lemma demo_turns:
  "reader_turn demo_stream_env d demo_hub2 demo_reader 0 0 0
     = (Again, demo_reader\<lparr>rd_pending := [sse_frame demo_stream_env (event_id demo_hub2 2) (ReleaseAnnounced ''r2'' ''t2'')],
          rd_cursor := 2\<rparr>)"
  "reader_turn demo_stream_env d demo_hub2 (demo_reader\<lparr>rd_pending := [f], rd_cursor := 2\<rparr>) 0 0 0
     = (Yields f, demo_reader\<lparr>rd_pending := [], rd_cursor := 2\<rparr>)"
  "reader_turn demo_stream_env d demo_hub2 (demo_reader\<lparr>rd_pending := [], rd_cursor := 2\<rparr>) 0 0 0
     = (Waits, demo_reader\<lparr>rd_pending := [], rd_cursor := 2\<rparr>)"
  by (simp_all add: reader_turn_def still_live_def reader_fill_def hub_read_def demo_hub2_def demo_reader_def Let_def
      may_see_def)

lemma demo_run:
  "fold (follow demo_stream_env) (demo_activity d) (demo_hub, demo_reader, [])
     = (demo_hub2, demo_reader\<lparr>rd_pending := [], rd_cursor := 2\<rparr>,
        [sse_frame demo_stream_env (event_id demo_hub2 2) (ReleaseAnnounced ''r2'' ''t2'')])"
  by (simp add: demo_activity_def demo_published demo_turns)

theorem live_stream_misses_nothing_witness:
  "stretch demo_stream_env ''e'' False 1
     (history demo_stream_env (demo_publish 1 (ReleaseAnnounced ''r1'' ''t1'')) (new_hub ''e'') ''blog''
      @ history demo_stream_env (elsewhere (demo_activity empty_db)) demo_hub ''blog'') 2
     [sse_frame demo_stream_env (event_id demo_hub2 2) (ReleaseAnnounced ''r2'' ''t2'')]"
  using live_stream_misses_nothing [OF demo_opens [unfolded demo_open_def] demo_run refl]
  by (simp add: demo_connection_def demo_reader_def)

lemma waiting_connection_is_woken_witness:
  "woken (fold (hub_act demo_stream_env) (demo_publish 3 (ReleaseAnnounced ''r3'' ''t3'')) demo_hub2)
     (demo_reader\<lparr>rd_pending := [], rd_cursor := 2\<rparr>) \<noteq> None"
proof -
  have "history demo_stream_env (demo_publish 3 (ReleaseAnnounced ''r3'' ''t3'')) demo_hub2 ''blog'' \<noteq> []"
    by (simp add: hub_defs keeps_def demo_publish_def demo_stream_env_def demo_hub_def demo_hub2_def)
  with waiting_connection_is_woken [OF demo_opens [unfolded demo_open_def] demo_run demo_turns(3) refl]
  show ?thesis by (simp add: demo_connection_def)
qed

lemma event_ids_resume_in_place_witness:
  "cursor_of (fold (hub_act demo_stream_env) (demo_publish 1 (ReleaseAnnounced ''r1'' ''t1'')) (new_hub ''e''))
     ''blog'' (''e'' @ CHR ''.'' # digits_of 1) = Some 1"
  by (subst event_ids_resume_in_place [OF _ _ refl])
    (simp_all add: u64_max_def hub_defs keeps_def demo_publish_def demo_stream_env_def)

theorem owner_stream_ends_with_its_session_witness:
  "fst (reader_turn demo_stream_env identity_example (new_hub ''e'')
     \<lparr>rd_site = ''blog'', rd_owner = True,
      rd_watch = Some \<lparr>ow_token = example_digest 9, ow_audience = ''site:blog'', ow_ends_at = 900\<rparr>,
      rd_check_every = 60, rd_wake = 0, rd_next_check = 60,
      rd_pending = [sse_frame demo_stream_env ''e.1'' Resync], rd_cursor = 0,
      rd_admitted = \<lparr>ad_site = ''blog'', ad_client = None\<rparr>\<rparr> 100 60 61) = Ended"
  by (rule owner_stream_ends_with_its_session [where row = example_old_session
        and w = "\<lparr>ow_token = example_digest 9, ow_audience = ''site:blog'', ow_ends_at = 900\<rparr>",
        OF identity_example_ok])
    (simp_all add: identity_example_def example_old_session_def)

end
