(* ===== verification/Site_Handlers.thy ===== *)
theory Site_Handlers
  imports Site_Hub Projection
begin

text \<open>
  \<^verbatim>\<open>crates/public-api/src/site_events.rs\<close>, the three handlers that feed the hub: the notices of the
  sites service, and the two handlers that apply a report or a notes conflict exactly as the operation
  projection does and announce an edit's end to the owner of its site. A handler stages an event while
  its transaction runs; the \<open>settled\<close> hook of the delivery publishes or drops it.
\<close>

subsection \<open>Handlers\<close>

text \<open>
  The parsers of \<^verbatim>\<open>ratatoskr-sites-contracts\<close>, \<^verbatim>\<open>ratatoskr-identifiers\<close> and the \<^verbatim>\<open>uuid\<close> crate that the
  handlers call: the payloads of the two sites events, a conflict identifier, a source reference, a
  digest and a UUID.
\<close>

record site_contracts =
  sy_stream :: stream_env
  read_release :: "json \<Rightarrow> (string \<times> string \<times> string) option"
  read_draft :: "json \<Rightarrow> (string \<times> string \<times> string \<times> string option) option"
  read_conflict_id :: "json \<Rightarrow> string option"
  parse_source_ref :: "string \<Rightarrow> string option"
  parse_digest_hex :: "string \<Rightarrow> string option"
  parse_operation_id :: "string \<Rightarrow> uuid option"

type_synonym staging = "db \<Rightarrow> site_hub \<Rightarrow> incoming \<Rightarrow> instant \<Rightarrow> (eventing_error + outcome \<times> db) \<times> site_hub"

definition site_event_handle :: "site_contracts \<Rightarrow> staging" where
  "site_event_handle sy d h m now =
     (case json_get ''payload'' (in_payload m) of
        None \<Rightarrow> (Inr (outcome.Rejected, d), h)
      | Some payload \<Rightarrow>
          (case if subject_str (in_subject m) = ''evt.sites.release.published.v1''
                then map_option (\<lambda>(site, release, at). (site, ReleaseAnnounced release at)) (read_release sy payload)
                else if subject_str (in_subject m) = ''evt.sites.draft.changed.v1''
                then map_option (\<lambda>(site, source, revision, slug). (site, DraftAnnounced source revision slug))
                       (read_draft sy payload)
                else None of
             None \<Rightarrow> (Inr (outcome.Rejected, d), h)
           | Some (site, e) \<Rightarrow> (Inr (Applied, d), stage (sy_stream sy) h m site e now)))"

definition operation_of :: "site_contracts \<Rightarrow> incoming \<Rightarrow> uuid option" where
  "operation_of sy m =
     Option.bind (json_get ''payload'' (in_payload m)) (\<lambda>payload.
     Option.bind (json_get ''operation_id'' payload) (\<lambda>v.
     Option.bind (as_str v) (parse_operation_id sy)))"

definition edit_completed :: "site_contracts \<Rightarrow> uuid \<Rightarrow> string \<Rightarrow> string \<Rightarrow> site_event option" where
  "edit_completed sy i source_ref revision =
     Option.bind (parse_source_ref sy source_ref) (\<lambda>source.
     map_option (EditDone i source) (parse_digest_hex sy revision))"

definition completed_edit :: "db \<Rightarrow> uuid \<Rightarrow> (string \<times> string \<times> string) option" where
  "completed_edit d i =
     map_option (\<lambda>e. (sed_site e, sed_source_ref e, sed_revision e))
       (fetch_optional (\<lambda>e. sed_operation e = i
          \<and> row_exists (\<lambda>r. op_id r = sed_operation e \<and> op_status r = ''succeeded'') (t_operations d)) (t_site_edits d))"

definition site_edit_reports_handle :: "site_contracts \<Rightarrow> contracts \<Rightarrow> (nat \<Rightarrow> uuid) \<Rightarrow> staging" where
  "site_edit_reports_handle sy c ids d h m now =
     (case progress_handle c ids d m now of
        Inl e \<Rightarrow> (Inl e, h)
      | Inr (out, d') \<Rightarrow>
          (Inr (out, d'),
           if out \<noteq> Applied then h
           else case operation_of sy m of
               None \<Rightarrow> h
             | Some i \<Rightarrow>
                 (case completed_edit d' i of
                    None \<Rightarrow> h
                  | Some (site, source_ref, revision) \<Rightarrow>
                      (case edit_completed sy i source_ref revision of
                         None \<Rightarrow> h
                       | Some e \<Rightarrow> stage (sy_stream sy) h m site e now))))"

definition site_edit_conflicts_handle :: "site_contracts \<Rightarrow> contracts \<Rightarrow> (nat \<Rightarrow> uuid) \<Rightarrow> staging" where
  "site_edit_conflicts_handle sy c ids d h m now =
     (case conflict_handle c ids d m now of
        Inl e \<Rightarrow> (Inl e, h)
      | Inr (out, d') \<Rightarrow>
          (Inr (out, d'),
           if out \<noteq> Applied \<or> subject_str (in_subject m) \<noteq> ''evt.notes.conflict.raised.v1'' then h
           else case (operation_of sy m,
                  Option.bind (Option.bind (json_get ''payload'' (in_payload m)) (json_get ''conflict_id''))
                    (read_conflict_id sy)) of
               (Some i, Some conflict) \<Rightarrow>
                 (case fetch_optional (\<lambda>e. sed_operation e = i) (t_site_edits d') of
                    None \<Rightarrow> h
                  | Some edit \<Rightarrow>
                      (case parse_source_ref sy (sed_source_ref edit) of
                         None \<Rightarrow> h
                       | Some source \<Rightarrow>
                           stage (sy_stream sy) h m (sed_site edit) (EditClashed i conflict source) now))
             | _ \<Rightarrow> h))"

subsection \<open>A delivery with its hook\<close>

text \<open>
  \<open>deliver\<close> with a handler that stages and its \<open>settled\<close> hook; \<open>settled_at\<close> is the clock when the
  hook runs.
\<close>

definition deliver_staging ::
  "bool \<Rightarrow> staging \<Rightarrow> db \<Rightarrow> site_hub \<Rightarrow> incoming \<Rightarrow> instant \<Rightarrow> instant \<Rightarrow> delivery \<times> site_hub" where
  "deliver_staging commits handle d h m now settled_at =
     (let x = deliver commits (\<lambda>d m now. fst (handle d h m now)) d m now;
          h1 = (case inbox_begin d (in_message_id m) (in_subject m) (in_producer m) now of
                  Inr (First, d1) \<Rightarrow> snd (handle d1 h m now)
                | _ \<Rightarrow> h)
      in (x, case dl_settled x of None \<Rightarrow> h1 | Some committed \<Rightarrow> settle h1 (in_message_id m) committed settled_at))"

text \<open>
  What the hub may expect of a handler: it stages at most one event, under the identifier of the
  message it handles, and only when it applied the message.
\<close>

locale staging_handler =
  fixes env :: stream_env and handle :: staging
  assumes stages: "handle d h m now = (Inr (out, d'), h') \<Longrightarrow>
      h' = h \<or> out = Applied \<and> (\<exists>site e. h' = stage env h m site e now)"
    and stages_nothing: "handle d h m now = (Inl err, h') \<Longrightarrow> h' = h"
begin

lemma settled_nothing: "map_of (hb_staged h) i = None \<Longrightarrow> settle h i committed now = h"
  by (simp add: settle_def Let_def) (simp add: map_of_eq_None_iff)

lemma settled_stage:
  assumes "map_of (hb_staged h) (in_message_id m) = None"
  shows "\<exists>at \<le> now. settle (stage env h m site e now) (in_message_id m) committed settled_at
    = (if committed then push h site e at settled_at else h)"
proof -
  have "AList.delete (in_message_id m) (AList.update (in_message_id m) l (hb_staged h)) = hb_staged h" for l
    using assms by (simp add: delete_update_same map_of_eq_None_iff)
  moreover define at where "at = (case Option.bind (Option.bind (json_get ''occurred_at'' (in_payload m)) as_str)
      (parse_instant env) of None \<Rightarrow> now | Some occurred \<Rightarrow> min occurred now)"
  ultimately have "settle (stage env h m site e now) (in_message_id m) committed settled_at
      = (if committed then push h site e at settled_at else h)"
    using assms by (simp add: stage_def settle_def Let_def update_conv')
  moreover have "at \<le> now" by (simp add: at_def split: option.split)
  ultimately show ?thesis by blast
qed

lemma delivery_publishes:
  assumes "deliver_staging commits handle d h m now settled_at = (x, h')"
    and "map_of (hb_staged h) (in_message_id m) = None"
  shows "h' = h \<or> dl_result x = Inr (Some Applied)
    \<and> (\<exists>d1 d2 site e at. inbox_begin d (in_message_id m) (in_subject m) (in_producer m) now = Inr (First, d1)
         \<and> handle d1 h m now = (Inr (Applied, d2), stage env h m site e now)
         \<and> inbox_finish d2 (in_message_id m) Applied now = Inr (dl_db x)
         \<and> at \<le> now \<and> h' = push h site e at settled_at)"
proof -
  let ?i = "in_message_id m"
  have x: "x = deliver commits (\<lambda>d m now. fst (handle d h m now)) d m now"
    using assms(1) by (simp add: deliver_staging_def Let_def)
  show ?thesis
  proof (cases "\<exists>d1. inbox_begin d ?i (in_subject m) (in_producer m) now = Inr (First, d1)")
    case False
    then have "dl_settled x = None" and "h' = h"
      using assms(1) unfolding x
      by (auto simp: deliver_staging_def deliver_def Let_def split: sum.splits prod.splits reception.splits)
    then show ?thesis by simp
  next
    case True
    then obtain d1 where d1: "inbox_begin d ?i (in_subject m) (in_producer m) now = Inr (First, d1)" by blast
    obtain answer h1 where handled: "handle d1 h m now = (answer, h1)" by fastforce
    obtain committed where c: "dl_settled x = Some committed" and out: "committed \<longleftrightarrow> (\<exists>out. dl_result x = Inr (Some out))"
      unfolding x by (auto simp: deliver_def d1 split: sum.splits prod.splits)
    have h': "h' = settle h1 ?i committed settled_at"
      using assms(1) c unfolding x by (auto simp: deliver_staging_def Let_def d1 handled)
    show ?thesis
    proof (cases "h1 = h")
      case True
      with h' assms(2) show ?thesis by (simp add: settled_nothing)
    next
      case False
      then obtain d2 site e where a: "answer = Inr (Applied, d2)" "h1 = stage env h m site e now"
        using stages [of d1 h m now] stages_nothing [of d1 h m now] handled
        by (cases answer; cases "projr answer") fastforce+
      obtain at where at: "at \<le> now" "h' = (if committed then push h site e at settled_at else h)"
        using settled_stage [OF assms(2), where now = now] a(2) h' by metis
      have "committed \<Longrightarrow> dl_result x = Inr (Some Applied) \<and> inbox_finish d2 ?i Applied now = Inr (dl_db x)"
        using out unfolding x by (auto simp: deliver_def d1 handled a split: sum.splits prod.splits if_splits)
      with at d1 handled a show ?thesis by auto
    qed
  qed
qed

end

interpretation sites_feed: staging_handler "sy_stream sy" "site_event_handle sy" for sy
  by unfold_locales (fastforce simp: site_event_handle_def split: option.splits if_splits)+

interpretation edit_reports: staging_handler "sy_stream sy" "site_edit_reports_handle sy c ids" for sy c ids
  by unfold_locales (fastforce simp: site_edit_reports_handle_def split: option.splits if_splits sum.splits)+

interpretation edit_conflicts: staging_handler "sy_stream sy" "site_edit_conflicts_handle sy c ids" for sy c ids
  by unfold_locales (fastforce simp: site_edit_conflicts_handle_def split: option.splits if_splits sum.splits)+

text \<open>To the database, the two edit handlers are the operation projection and the conflict projection.\<close>

lemma edit_reports_project [simp]: "fst (site_edit_reports_handle sy c ids d h m now) = progress_handle c ids d m now"
  by (auto simp: site_edit_reports_handle_def split: sum.splits)

lemma edit_conflicts_project [simp]: "fst (site_edit_conflicts_handle sy c ids d h m now) = conflict_handle c ids d m now"
  by (auto simp: site_edit_conflicts_handle_def split: sum.splits)

interpretation site_feed: event_handler "\<lambda>d m now. fst (site_event_handle sy d h m now)" for sy h
  by unfold_locales (auto simp: site_event_handle_def split: option.splits if_splits)

subsection \<open>What is announced\<close>

lemma inbox_finish_frame:
  "inbox_finish d i out now = Inr d' \<Longrightarrow> t_operations d' = t_operations d \<and> t_site_edits d' = t_site_edits d"
  by (auto simp: inbox_finish_def)

lemma stage_inject:
  "map_of (hb_staged h) (in_message_id m) = None \<Longrightarrow>
    stage env h m site e now = stage env h m site' e' now \<longleftrightarrow> site' = site \<and> e' = e"
  by (auto simp: stage_def Let_def dest!: arg_cong [where f = "\<lambda>h. map_of (hb_staged h) (in_message_id m)"]
      simp: update_conv' split: option.splits)

lemma stage_changes: "map_of (hb_staged h) (in_message_id m) = None \<Longrightarrow> stage env h m site e now \<noteq> h"
  by (auto simp: stage_def Let_def update_conv' dest!: arg_cong [where f = "\<lambda>h. map_of (hb_staged h) (in_message_id m)"])

lemma succeeded_lifecycle:
  assumes "db_ok d" and "row_exists (\<lambda>r. op_id r = i \<and> op_status r = ''succeeded'') (t_operations d)"
  shows "lifecycle d i = Some Succeeded"
proof -
  obtain r where r: "r \<in> set (t_operations d)" "op_id r = i" "op_status r = ''succeeded''"
    using assms(2) by (auto simp: row_exists_def list_ex_iff)
  have "fetch_optional (\<lambda>r. op_id r = i) (t_operations d) = Some r"
    using ops_table.fetch_key [OF db_okD(1) [OF assms(1)]] r by blast
  moreover have "status_from_str ''succeeded'' = Some Succeeded" by code_simp
  ultimately show ?thesis by (simp add: lifecycle_def r(3))
qed

text \<open>
  C12: the end of an edit is announced only after the transaction that recorded it has committed: if a
  delivery to the report handler changes the hub at all, it was applied and committed, and what it
  published to a site is the completion of an edit of that site whose operation is recorded as
  succeeded.
\<close>

theorem edit_completion_follows_the_commit:
  assumes "deliver_staging commits (site_edit_reports_handle sy c ids) d h m now settled_at = (x, h')"
    and "map_of (hb_staged h) (in_message_id m) = None" and "db_ok d" and "h' \<noteq> h"
  shows "dl_result x = Inr (Some Applied)
    \<and> (\<exists>edit \<in> set (t_site_edits (dl_db x)). \<exists>source revision at.
         lifecycle (dl_db x) (sed_operation edit) = Some Succeeded \<and> at \<le> now
         \<and> h' = push h (sed_site edit) (EditDone (sed_operation edit) source revision) at settled_at)"
proof -
  obtain d1 d2 site e at where r: "dl_result x = Inr (Some Applied)"
    and d1: "inbox_begin d (in_message_id m) (in_subject m) (in_producer m) now = Inr (First, d1)"
    and handled: "site_edit_reports_handle sy c ids d1 h m now = (Inr (Applied, d2), stage (sy_stream sy) h m site e now)"
    and fin: "inbox_finish d2 (in_message_id m) Applied now = Inr (dl_db x)"
    and at: "at \<le> now" "h' = push h site e at settled_at"
    using edit_reports.delivery_publishes [OF assms(1,2)] assms(4) by blast
  obtain i source_ref revision where "completed_edit d2 i = Some (site, source_ref, revision)"
    and e: "edit_completed sy i source_ref revision = Some e" and run: "progress_handle c ids d1 m now = Inr (Applied, d2)"
    using handled
    by (auto simp: site_edit_reports_handle_def stage_inject [OF assms(2)] stage_changes [OF assms(2), symmetric]
        split: sum.splits if_splits option.splits)
  then obtain edit where edit: "edit \<in> set (t_site_edits d2)" "sed_operation edit = i" "sed_site edit = site"
    and ended: "row_exists (\<lambda>r. op_id r = i \<and> op_status r = ''succeeded'') (t_operations d2)"
    by (auto simp: completed_edit_def dest!: fetch_optional_SomeD)
  have "db_ok d2" using progress_keeps(1) [OF run begun_db_ok [OF d1 assms(3)]] .
  from succeeded_lifecycle [OF this ended] have "lifecycle d2 i = Some Succeeded" .
  moreover obtain source digest where "e = EditDone i source digest"
    using e by (auto simp: edit_completed_def split: bind_splits)
  moreover note inbox_finish_frame [OF fin]
  moreover have "lifecycle (dl_db x) i = lifecycle d2 i" by (simp add: calculation lifecycle_cong)
  ultimately show ?thesis using r edit at by auto
qed

subsection \<open>A concrete delivery\<close>

definition edit_contracts :: contracts where
  "edit_contracts = demo_contracts\<lparr>decode_report := (\<lambda>v.
     map_option (\<lambda>st. \<lparr>rep_operation = 1, rep_status = st, rep_stage = None, rep_percent = None, rep_results = [],
        rep_error = None, rep_warnings = []\<rparr>)
       (Option.bind (Option.bind (json_get ''status'' v) as_str) status_from_str))\<rparr>"

definition demo_site_contracts :: site_contracts where
  "demo_site_contracts = \<lparr>sy_stream = demo_stream_env, read_release = (\<lambda>_. None), read_draft = (\<lambda>_. None),
     read_conflict_id = as_str, parse_source_ref = Some, parse_digest_hex = Some,
     parse_operation_id = (\<lambda>s. if s = ''1'' then Some 1 else None)\<rparr>"

definition edit_report :: incoming where
  "edit_report = \<lparr>in_message_id = 40, in_subject = Subject ''evt.platform.operation.reported.v1'',
     in_producer = ''ratatoskr-x'',
     in_payload = JObject [(''tenant_id'', JString ''user:two''),
       (''payload'', JObject [(''status'', JString ''succeeded''), (''operation_id'', JString ''1'')])]\<rparr>"

definition edit_db :: db where
  "edit_db = (demo_db ''running'')\<lparr>t_site_edits := [\<lparr>sed_operation = 1, sed_site = ''blog'', sed_source_ref = ''note'',
     sed_revision = replicate 64 CHR ''a'', sed_created_at = 11\<rparr>]\<rparr>"

lemma edit_db_ok: "db_ok edit_db"
  by code_simp

lemma edit_published:
  "hb_sites (snd (deliver_staging True (site_edit_reports_handle demo_site_contracts edit_contracts demo_ids)
     edit_db (new_hub ''e'') edit_report 20 21)) \<noteq> []"
  by code_simp

theorem edit_completion_follows_the_commit_witness:
  "dl_result (fst (deliver_staging True (site_edit_reports_handle demo_site_contracts edit_contracts demo_ids)
     edit_db (new_hub ''e'') edit_report 20 21)) = Inr (Some Applied)"
  by (rule edit_completion_follows_the_commit [OF prod.collapse [symmetric] _ edit_db_ok, THEN conjunct1])
    (use edit_published in \<open>auto simp: new_hub_def\<close>)

end
