(* ===== verification/Site_Routes.thy ===== *)
theory Site_Routes
  imports Principal
begin

text \<open>
  The route table of \<^verbatim>\<open>crates/public-api/src/sites.rs\<close> with its start-up check, the classification of a
  request and the two buckets of the public class, and \<^verbatim>\<open>crates/public-api/src/gateway/paths.rs\<close>, which
  paths Edge forwards. A method and a capability are their names; a path is the text the HTTP library
  hands over.
\<close>

subsection \<open>Text\<close>

definition strip_prefix :: "string \<Rightarrow> string \<Rightarrow> string option" where
  "strip_prefix pat s = (if starts_with pat s then Some (drop (length pat) s) else None)"

definition ends_with :: "string \<Rightarrow> string \<Rightarrow> bool" where
  "ends_with pat s \<longleftrightarrow> starts_with (rev pat) (rev s)"

text \<open>\<open>str::replace\<close>: every occurrence, from the left, without overlaps.\<close>

fun replace_text :: "string \<Rightarrow> string \<Rightarrow> string \<Rightarrow> string" where
  "replace_text pat to [] = []"
| "replace_text pat to (c # cs) =
     (if pat \<noteq> [] \<and> starts_with pat (c # cs) then to @ replace_text pat to (drop (length pat - 1) cs)
      else c # replace_text pat to cs)"

fun join_text :: "string \<Rightarrow> string list \<Rightarrow> string" where
  "join_text sep [] = []"
| "join_text sep [x] = x"
| "join_text sep (x # y # rest) = x @ sep @ join_text sep (y # rest)"

subsection \<open>Forwardable paths\<close>

fun resolve_segments :: "string list \<Rightarrow> string list \<Rightarrow> string list option" where
  "resolve_segments kept [] = Some kept"
| "resolve_segments kept (segment # rest) =
     (if segment = '''' \<or> segment = ''.'' then resolve_segments kept rest
      else if segment = ''..'' then (if kept = [] then None else resolve_segments (butlast kept) rest)
      else resolve_segments (kept @ [segment]) rest)"

definition resolved :: "string \<Rightarrow> string \<Rightarrow> string list option" where
  "resolved prefix path =
     (let below = (case strip_prefix prefix path of Some b \<Rightarrow> b | None \<Rightarrow> path);
          decoded = replace_text [CHR 0x5C] ''/'' (replace_text ''%5c'' ''/'' (replace_text ''%2f'' ''/''
                      (replace_text ''%2e'' ''.'' (map to_ascii_lowercase below))))
      in resolve_segments [] (split_on (CHR ''/'') decoded))"

definition forwardable :: "string \<Rightarrow> string \<Rightarrow> bool" where
  "forwardable prefix path = (case resolved prefix path of None \<Rightarrow> False
     | Some kept \<Rightarrow> (case kept of [] \<Rightarrow> True | first # _ \<Rightarrow> first \<noteq> ''internal''))"

definition names_site :: "string \<Rightarrow> string \<Rightarrow> bool" where
  "names_site path site = (case resolved ''/v1/sites'' path of None \<Rightarrow> False
     | Some kept \<Rightarrow> (case kept of [] \<Rightarrow> False | first # _ \<Rightarrow> first = site))"

subsection \<open>The route table\<close>

datatype site_route_class = Management | SiteOrigin | SignIn | Release | Deploy

record site_route =
  sw_methods :: "string list"
  sw_path :: string
  sw_class :: "site_route_class option"
  sw_capability :: "string option"

abbreviation row :: "string list \<Rightarrow> string \<Rightarrow> site_route_class \<Rightarrow> string option \<Rightarrow> site_route" where
  "row methods path cl capability \<equiv>
     \<lparr>sw_methods = methods, sw_path = path, sw_class = Some cl, sw_capability = capability\<rparr>"

definition routes :: "site_route list" where
  "routes =
     [row [''GET''] '''' Management None,
      row [''GET'', ''PUT''] ''/{site}/manifest'' Management None,
      row [''POST'', ''DELETE''] ''/{site}/manifest/approval'' Management None,
      row [''GET'', ''PUT'', ''DELETE''] ''/{site}/publications'' Management None,
      row [''GET'', ''PUT'', ''DELETE''] ''/{site}/publications/{publication}'' Management None,
      row [''GET''] ''/{site}/releases'' Management None,
      row [''POST''] ''/{site}/releases'' Release None,
      row [''POST''] ''/{site}/sign-in-codes'' Management None,
      row [''POST''] ''/{site}/sessions'' SignIn None,
      row [''POST''] ''/{site}/deploys'' Deploy None,
      row [''POST''] ''/{site}/deploys/{commit}/activate'' Deploy None,
      row [''GET'', ''HEAD''] ''/{site}/content/release'' SiteOrigin (Some ''pages.read''),
      row [''GET'', ''HEAD''] ''/{site}/content/pages/{*slug}'' SiteOrigin (Some ''pages.read''),
      row [''GET'', ''HEAD''] ''/{site}/content/assets/{sha256}'' SiteOrigin (Some ''assets.read''),
      row [''GET'', ''HEAD''] ''/{site}/content/search'' SiteOrigin (Some ''search.publication''),
      row [''GET''] ''/{site}/events'' SiteOrigin (Some ''live.release''),
      row [''GET''] ''/{site}/drafts/pages/{*slug}'' SiteOrigin (Some ''draft.read''),
      row [''GET''] ''/{site}/drafts/sources/{source_ref}'' SiteOrigin (Some ''draft.read''),
      row [''POST''] ''/{site}/drafts/sources/{source_ref}/blobs'' SiteOrigin (Some ''notes.edit''),
      row [''POST''] ''/{site}/edits'' SiteOrigin (Some ''notes.edit''),
      row [''GET''] ''/{site}/conflicts/{conflict_id}'' SiteOrigin (Some ''draft.read''),
      row [''GET''] ''/{site}/library'' SiteOrigin (Some ''library.read''),
      row [''GET''] ''/{site}/knowledge/search'' SiteOrigin (Some ''knowledge.search'')]"

text \<open>The faults of one method of one row, given the rows after it.\<close>

definition row_faults :: "site_route \<Rightarrow> site_route list \<Rightarrow> string \<Rightarrow> string list" where
  "row_faults r later m =
     (let named = m @ '' /v1/sites'' @ sw_path r
      in (if sw_class r = None then [named @ '' has no route class''] else [])
         @ (if (sw_class r = Some SiteOrigin) \<noteq> (sw_capability r \<noteq> None)
            then [named @ '' must name one capability exactly when it is site-origin''] else [])
         @ (if list_ex (\<lambda>x. sw_path x = sw_path r \<and> m \<in> set (sw_methods x)) later
            then [named @ '' has more than one row''] else []))"

fun route_faults :: "site_route list \<Rightarrow> string list" where
  "route_faults [] = []"
| "route_faults (r # later) = concat (map (row_faults r later) (sw_methods r)) @ route_faults later"

definition check_routes :: "site_route list \<Rightarrow> string + unit" where
  "check_routes rs =
     (if route_faults rs = [] then Inr ()
      else Inl (''the site route table is not valid (ADR-0017): '' @ join_text ''; '' (route_faults rs)))"

text \<open>\<open>holds\<close> of the module, over the segments of the pattern and of the path.\<close>

fun holds_segments :: "string list \<Rightarrow> string list \<Rightarrow> bool" where
  "holds_segments [] actual = (actual = [])"
| "holds_segments (expected # rest) [] = False"
| "holds_segments (expected # rest) (segment # actual) =
     (if starts_with ''{*'' expected then segment \<noteq> ''''
      else if starts_with ''{'' expected then segment \<noteq> '''' \<and> holds_segments rest actual
      else expected = segment \<and> holds_segments rest actual)"

definition row_holds :: "string \<Rightarrow> string \<Rightarrow> bool" where
  "row_holds pat below = holds_segments (split_on (CHR ''/'') pat) (split_on (CHR ''/'') below)"

definition nth_segment :: "nat \<Rightarrow> string \<Rightarrow> string option" where
  "nth_segment n path = (let ws = split_on (CHR ''/'') path in if n < length ws then Some (ws ! n) else None)"

definition classify_site :: "string \<Rightarrow> string \<Rightarrow> failure_kind + string \<times> site_route" where
  "classify_site m path =
     (case strip_prefix ''/v1/sites'' path of
        None \<Rightarrow> Inl RouteNotFound
      | Some below \<Rightarrow>
          let site = (case nth_segment 1 below of Some s \<Rightarrow> s | None \<Rightarrow> []);
              rows = filter (\<lambda>r. row_holds (sw_path r) below) routes
          in if rows = [] then Inl RouteNotFound
             else bindE (ok_or MethodNotAllowed (find (\<lambda>r. m \<in> set (sw_methods r)) rows)) (\<lambda>r. Inr (site, r)))"

subsection \<open>Requests\<close>

text \<open>
  The parts of a request the module reads: header names are in lower case, in the order they came; the
  peer is the text of its address, and the body has a size when its length is known before it is read.
\<close>

record http_request =
  hq_method :: string
  hq_path :: string
  hq_query :: "string option"
  hq_headers :: "(string \<times> string) list"
  hq_peer :: "string option"
  hq_body :: string
  hq_body_size :: "nat option"

definition header_values :: "http_request \<Rightarrow> string \<Rightarrow> string list" where
  "header_values q name = map snd (filter (\<lambda>(n, _). n = name) (hq_headers q))"

definition header_value :: "http_request \<Rightarrow> string \<Rightarrow> string option" where
  "header_value q name = map_of (hq_headers q) name"

text \<open>\<open>HeaderValue::to_str\<close>: visible ASCII and the tab only.\<close>

definition to_str :: "string \<Rightarrow> string option" where
  "to_str v = (if list_all (\<lambda>c. byte c = 9 \<or> (32 \<le> byte c \<and> byte c < 127)) v then Some v else None)"

definition declares_body :: "http_request \<Rightarrow> bool" where
  "declares_body q \<longleftrightarrow> (case header_value q ''content-length'' of None \<Rightarrow> False | Some v \<Rightarrow> v \<noteq> ''0'')
     \<or> header_value q ''transfer-encoding'' \<noteq> None"

definition is_deploy_json :: "http_request \<Rightarrow> bool" where
  "is_deploy_json q =
     (case Option.bind (header_value q ''content-type'') to_str of
        None \<Rightarrow> False
      | Some v \<Rightarrow> map to_ascii_lowercase (trim (hd (split_on (CHR '';'') v))) = ''application/json'')"

definition is_content :: "string \<Rightarrow> bool" where
  "is_content path \<longleftrightarrow> nth_segment 4 path = Some ''content''"

subsection \<open>The public class\<close>

definition client_requests_per_minute :: "32 word" where
  "client_requests_per_minute = 120"

definition site_requests_per_minute :: "32 word" where
  "site_requests_per_minute = 1200"

definition client_namespace :: uuid where
  "client_namespace = 0x0199e5a00c117e479c0a51e500000001"

definition site_namespace :: uuid where
  "site_namespace = 0x0199e5a00c117e479c0a51e500000002"

record public_limits =
  pb_clients :: actor_limiter
  pb_sites :: actor_limiter
  pb_retry_after :: nat

definition new_public_limits :: "32 word \<Rightarrow> 32 word \<Rightarrow> public_limits" where
  "new_public_limits per_client per_site =
     (let slowest = max (min (unat per_client) (unat per_site)) 1
      in \<lparr>pb_clients = new_limiter per_client, pb_sites = new_limiter per_site,
          pb_retry_after = (60 + slowest - 1) div slowest\<rparr>)"

definition default_public_limits :: public_limits where
  "default_public_limits = new_public_limits client_requests_per_minute site_requests_per_minute"

text \<open>\<open>uuid_v5\<close> is the name-based UUID of the \<^verbatim>\<open>uuid\<close> crate. The site's bucket is asked only when the client's admits.\<close>

definition public_admit ::
  "(uuid \<Rightarrow> string \<Rightarrow> uuid) \<Rightarrow> public_limits \<Rightarrow> string \<Rightarrow> string \<Rightarrow> instant \<Rightarrow> bool \<times> public_limits" where
  "public_admit uuid_v5 l client site now =
     (case admit (pb_clients l) (uuid_v5 client_namespace client) now of
        (False, clients) \<Rightarrow> (False, l\<lparr>pb_clients := clients\<rparr>)
      | (True, clients) \<Rightarrow>
          (case admit (pb_sites l) (uuid_v5 site_namespace site) now of
             (ok, sites) \<Rightarrow> (ok, l\<lparr>pb_clients := clients, pb_sites := sites\<rparr>)))"

text \<open>\<open>parse_ip\<close> is the parser of \<open>IpAddr\<close> followed by its canonical text.\<close>

definition client_key :: "(string \<Rightarrow> string option) \<Rightarrow> string \<Rightarrow> http_request \<Rightarrow> string" where
  "client_key parse_ip gateway_peer q =
     (case hq_peer q of
        None \<Rightarrow> []
      | Some peer \<Rightarrow>
          if peer = gateway_peer
          then (case header_values q ''x-ratatoskr-client-ip'' of
                  [value] \<Rightarrow> (case Option.bind (to_str value) parse_ip of Some address \<Rightarrow> address | None \<Rightarrow> peer)
                | _ \<Rightarrow> peer)
          else peer)"

subsection \<open>The table is unambiguous\<close>

fun overlap :: "string list \<Rightarrow> string list \<Rightarrow> bool" where
  "overlap [] ys = (ys = [])"
| "overlap (x # xs) [] = False"
| "overlap (x # xs) (y # ys) =
     (if starts_with ''{*'' x \<or> starts_with ''{*'' y then True
      else if starts_with ''{'' x \<or> starts_with ''{'' y then overlap xs ys
      else x = y \<and> overlap xs ys)"

lemma holds_overlap: "holds_segments xs actual \<Longrightarrow> holds_segments ys actual \<Longrightarrow> overlap xs ys"
proof (induction xs ys arbitrary: actual rule: overlap.induct)
  case (1 ys)
  then show ?case by (cases ys) auto
next
  case (3 x xs y ys)
  then show ?case by (cases actual) (auto split: if_splits)
qed simp_all

lemma routes_disjoint:
  "list_all (\<lambda>r. list_all (\<lambda>r'. overlap (split_on (CHR ''/'') (sw_path r)) (split_on (CHR ''/'') (sw_path r'))
      \<longrightarrow> sw_path r = sw_path r') routes) routes"
  by code_simp

lemma routes_checked: "route_faults routes = []"
  by code_simp

text \<open>The faults of a table say exactly what the check promises of a table without them.\<close>

lemma route_faults_sound:
  assumes "route_faults rs = []" and "r \<in> set rs" and "m \<in> set (sw_methods r)"
  shows "sw_class r \<noteq> None" and "(sw_class r = Some SiteOrigin) = (sw_capability r \<noteq> None)"
    and "r' \<in> set rs \<Longrightarrow> m \<in> set (sw_methods r') \<Longrightarrow> sw_path r' = sw_path r \<Longrightarrow> r' = r"
  using assms
proof (induction rs)
  case (Cons x later)
  {
    case 1
    with Cons show ?case by (auto simp: row_faults_def Let_def split: if_splits)
  next
    case 2
    with Cons show ?case by (auto simp: row_faults_def Let_def split: if_splits)
  next
    case 3
    with Cons show ?case by (auto simp: row_faults_def Let_def list_ex_iff split: if_splits)
  }
qed simp_all

lemma one_route:
  assumes "r \<in> set routes" "row_holds (sw_path r) below" "m \<in> set (sw_methods r)"
    and "r' \<in> set routes" "row_holds (sw_path r') below" "m \<in> set (sw_methods r')"
  shows "r' = r"
proof -
  have "overlap (split_on (CHR ''/'') (sw_path r')) (split_on (CHR ''/'') (sw_path r))"
    using assms(2,5) holds_overlap by (simp add: row_holds_def)
  then have "sw_path r' = sw_path r" using routes_disjoint assms(1,4) by (simp add: list_all_iff)
  then show ?thesis using route_faults_sound(3) [OF routes_checked assms(1,3,4,6)] by simp
qed

text \<open>
  The site route table passes its start-up check, and the class of a request does not depend on
  the order of the table: the row that answers a method and a path is the only one that holds them.
\<close>

lemma site_routes_are_unambiguous:
  "check_routes routes = Inr ()
   \<and> (classify_site m path = Inr (site, r)) =
     (r \<in> set routes \<and> m \<in> set (sw_methods r)
      \<and> (\<exists>below. strip_prefix ''/v1/sites'' path = Some below \<and> row_holds (sw_path r) below
           \<and> site = (case nth_segment 1 below of Some s \<Rightarrow> s | None \<Rightarrow> [])))"
proof (cases "strip_prefix ''/v1/sites'' path")
  case None
  then show ?thesis by (simp add: check_routes_def routes_checked classify_site_def)
next
  case (Some below)
  let ?rows = "filter (\<lambda>r. row_holds (sw_path r) below) routes"
  have "find (\<lambda>r. m \<in> set (sw_methods r)) ?rows = Some r
      \<longleftrightarrow> r \<in> set routes \<and> row_holds (sw_path r) below \<and> m \<in> set (sw_methods r)"
  proof
    assume "find (\<lambda>r. m \<in> set (sw_methods r)) ?rows = Some r"
    from fetch_optional_SomeD [unfolded fetch_optional_def, OF this]
    show "r \<in> set routes \<and> row_holds (sw_path r) below \<and> m \<in> set (sw_methods r)" by simp
  next
    assume r: "r \<in> set routes \<and> row_holds (sw_path r) below \<and> m \<in> set (sw_methods r)"
    then obtain r' where r': "find (\<lambda>r. m \<in> set (sw_methods r)) ?rows = Some r'"
      by (cases "find (\<lambda>r. m \<in> set (sw_methods r)) ?rows") (auto simp: find_None_iff)
    from fetch_optional_SomeD [unfolded fetch_optional_def, OF this] r one_route [of r below m r']
    have "r' = r" by simp
    with r' show "find (\<lambda>r. m \<in> set (sw_methods r)) ?rows = Some r" by simp
  qed
  then show ?thesis
    using Some by (auto simp: check_routes_def routes_checked classify_site_def Let_def)
qed

end
