(* ===== verification/Site_Sessions.thy ===== *)
theory Site_Sessions
  imports Site_Routes Site_Sign_In Site_Hub
begin

text \<open>
  \<^verbatim>\<open>crates/public-api/src/site_sessions.rs\<close>: the sign-in of a site's owner, the site cookie and what it
  authenticates, and the revocation of a site's sessions. The JSON readers, \<open>SiteId::parse\<close> and the
  cryptography are parameters; a transaction that cannot begin or commit is a flag of its mint. The databases that the
  statements of a sign-in read are arguments of it, since no lock ties them to the one it commits on. Bytes that
  are not UTF-8, and the header text that is built from constants, are not modelled.
\<close>

record sign_in_env =
  si_sha256 :: "string \<Rightarrow> digest"
  si_base64url :: "digest \<Rightarrow> string"
  si_site_id :: "string \<Rightarrow> bool"
  si_read_code_request :: "string \<Rightarrow> (string \<times> string) option"
  si_read_session_request :: "string \<Rightarrow> (string \<times> string) option"
  si_read_revoke :: "string \<Rightarrow> string option"

text \<open>An answer: a refusal of the taxonomy, the unknown site, or what the route promises.\<close>

datatype 'a reply = Declined failure_kind | Unknown_site | Answered 'a

text \<open>What a request draws: the identifiers of its rows, its credential, and whether its transaction begins and commits.\<close>

record sign_in_mint =
  sm_row :: uuid
  sm_credential :: "(string \<times> digest) option"
  sm_begins :: bool
  sm_commits :: bool

definition site_cookie :: string where
  "site_cookie = ''__Host-ratatoskr-site''"

definition max_sign_in_body :: nat where
  "max_sign_in_body = 4096"

subsection \<open>Approvals\<close>

definition approved_row :: "string \<Rightarrow> approval_row \<Rightarrow> bool" where
  "approved_row site r \<longleftrightarrow> sap_site r = site \<and> sap_state r = ''approved''"

definition approved_hostname :: "db \<Rightarrow> string \<Rightarrow> string option" where
  "approved_hostname d site = map_option sap_hostname (fetch_optional (approved_row site) (t_approvals d))"

definition approved_now :: "db \<Rightarrow> string \<Rightarrow> string \<Rightarrow> bool" where
  "approved_now d site hostname = row_exists (\<lambda>r. approved_row site r \<and> sap_hostname r = hostname) (t_approvals d)"

text \<open>\<open>Origin\<close> is \<^verbatim>\<open>https://\<close> and the hostname.\<close>

definition origin_is :: "http_request \<Rightarrow> string \<Rightarrow> bool" where
  "origin_is q hostname = (case Option.bind (header_value q ''origin'') to_str of
     None \<Rightarrow> False | Some origin \<Rightarrow> strip_prefix ''https://'' origin = Some hostname)"

subsection \<open>Signing in\<close>

text \<open>\<open>char::is_control\<close> over the UTF-8 text: below the space, the delete character, and U+0080 to U+009F.\<close>

fun has_control :: "string \<Rightarrow> bool" where
  "has_control [] = False"
| "has_control (c # cs) = (byte c < 32 \<or> byte c = 127
     \<or> (byte c = 194 \<and> (case cs of [] \<Rightarrow> False | c' # _ \<Rightarrow> 128 \<le> byte c' \<and> byte c' \<le> 159)) \<or> has_control cs)"

definition is_return_path :: "string \<Rightarrow> bool" where
  "is_return_path path \<longleftrightarrow> starts_with ''/'' path \<and> \<not> starts_with ''//'' path
     \<and> \<not> starts_with [CHR ''/'', CHR 0x5C] path \<and> length path \<le> 1024 \<and> \<not> has_control path"

definition challenge_valid :: "string \<Rightarrow> bool" where
  "challenge_valid challenge \<longleftrightarrow> length challenge = 43
     \<and> list_all (\<lambda>c. is_ascii_alphanumeric c \<or> c = CHR ''-'' \<or> c = CHR ''_'') challenge"

record issued_code =
  ic_code :: string
  ic_redirect_url :: string
  ic_expires_at :: instant

definition issue_code ::
  "sign_in_env \<Rightarrow> sign_in_mint \<Rightarrow> principal \<Rightarrow> string \<Rightarrow> string \<Rightarrow> instant \<Rightarrow> db \<Rightarrow> issued_code reply \<times> db" where
  "issue_code env mn p site body now d =
     (if max_sign_in_body < length body then (Declined InvalidRequest, d)
      else case si_read_code_request env body of
        None \<Rightarrow> (Declined InvalidRequest, d)
      | Some (challenge, return_path) \<Rightarrow>
          if \<not> challenge_valid challenge \<or> \<not> is_return_path return_path then (Declined InvalidRequest, d)
          else if \<not> si_site_id env site then (Unknown_site, d)
          else (case approved_hostname d site of
              None \<Rightarrow> (Unknown_site, d)
            | Some hostname \<Rightarrow>
                if \<not> sm_begins mn then (Declined RequestTimeout, d)
                else (case (case sm_credential mn of
                         None \<Rightarrow>
                           if primary_session d (pl_session p) (pl_user p) now then Inl (Query Row_not_found)
                           else Inr (Inl IssueRefused, d)
                       | Some minted \<Rightarrow> issue_sign_in d (sm_row mn) minted
                              \<lparr>nsi_user = pl_user p, nsi_created_by = pl_session p, nsi_site = site,
                               nsi_challenge = challenge, nsi_return_path = return_path, nsi_hostname = hostname,
                               nsi_now = now\<rparr>) of
                    Inl _ \<Rightarrow> (Declined RequestTimeout, d)
                  | Inr (res, d1) \<Rightarrow>
                      if \<not> sm_commits mn then (Declined RequestTimeout, d)
                      else (case res of
                          Inl _ \<Rightarrow> (Declined Forbidden, d1)
                        | Inr c \<Rightarrow> (Answered \<lparr>ic_code = c,
                            ic_redirect_url = ''https://'' @ hostname @ ''/.ratatoskr/sign-in/?code='' @ c,
                            ic_expires_at = now + code_ttl\<rparr>, d1)))))"

record opened_session =
  og_return_path :: string
  og_expires_at :: instant
  og_cookie :: string

text \<open>
  The transaction of a sign-in runs READ COMMITTED: its statements read what is committed when each of them runs.
  \<open>found\<close> is the database of its first statement, the update that consumes the code, and \<open>reread\<close> the
  one its unlocked read of the approval sees; \<open>d\<close> is the database its writes are committed on.
\<close>

definition consume_code ::
  "(string \<Rightarrow> digest) \<Rightarrow> (digest \<Rightarrow> string) \<Rightarrow> db \<Rightarrow> sign_in_redeem \<Rightarrow> db \<Rightarrow> persistence_error + db" where
  "consume_code sha256 base64url found q d =
     (if row_exists (redeemable (secret_digest sha256 (sr_code q)) (sr_now q)) (t_sign_in found)
      then bindE (redeem_sign_in sha256 base64url d q) (\<lambda>(_, d1). Inr d1)
      else Inr d)"

definition open_session ::
  "sign_in_env \<Rightarrow> sign_in_mint \<Rightarrow> string \<Rightarrow> http_request \<Rightarrow> instant \<Rightarrow> db \<times> db \<Rightarrow> db \<Rightarrow> opened_session reply \<times> db" where
  "open_session env mn site q now = (\<lambda>(found, reread) d.
     if max_sign_in_body < length (hq_body q) then (Declined InvalidRequest, d)
     else case si_read_session_request env (hq_body q) of
       None \<Rightarrow> (Declined InvalidRequest, d)
     | Some (code, verifier) \<Rightarrow>
         if code = [] \<or> 128 < length code \<or> 128 < length verifier then (Declined NotAuthenticated, d)
         else (case sm_credential mn of
             None \<Rightarrow> (Declined RequestTimeout, d)
           | Some (credential, token) \<Rightarrow>
               if \<not> sm_begins mn then (Declined RequestTimeout, d)
               else let presented = \<lparr>sr_site = site, sr_code = code, sr_verifier = verifier, sr_now = now\<rparr>
               in (case bindE (redeem_sign_in (si_sha256 env) (si_base64url env) found presented) (\<lambda>(redeemed, _).
                        bindE (consume_code (si_sha256 env) (si_base64url env) found presented d) (\<lambda>d1.
                          case redeemed of
                            Inl _ \<Rightarrow> Inr (None, d1)
                          | Inr g \<Rightarrow>
                              if origin_is q (rs_hostname g) \<and> approved_now reread site (rs_hostname g)
                              then bindE (create_session d1 (sm_row mn)
                                     (site_owner (rs_user g) (site_audience site) token now))
                                     (\<lambda>(_, d2). Inr (Some (rs_return_path g), d2))
                              else Inr (None, d1))) of
                      Inl _ \<Rightarrow> (Declined RequestTimeout, d)
                    | Inr (accepted, d3) \<Rightarrow>
                        if \<not> sm_commits mn then (Declined RequestTimeout, d)
                        else (case accepted of
                            None \<Rightarrow> (Declined NotAuthenticated, d3)
                          | Some return_path \<Rightarrow>
                              (Answered \<lparr>og_return_path = return_path, og_expires_at = now + site_owner_lifetime,
                                 og_cookie = site_cookie @ ''='' @ credential\<rparr>, d3)))))"

subsection \<open>The cookie\<close>

definition cookie_pairs :: "http_request \<Rightarrow> (string \<times> string) list" where
  "cookie_pairs q =
     List.map_filter (\<lambda>pair. split_once (CHR ''='') (trim pair))
       (concat (map (split_on (CHR '';'')) (List.map_filter to_str (header_values q ''cookie''))))"

definition request_cookie :: "http_request \<Rightarrow> string option" where
  "request_cookie q = map_of (cookie_pairs q) site_cookie"

definition safe_method :: "string \<Rightarrow> bool" where
  "safe_method m \<longleftrightarrow> m = ''GET'' \<or> m = ''HEAD'' \<or> m = ''OPTIONS''"

text \<open>The marker and the origin that an unsafe method of a site page must carry.\<close>

definition site_marked :: "db \<Rightarrow> http_request \<Rightarrow> string \<Rightarrow> bool" where
  "site_marked d q site \<longleftrightarrow> header_value q ''x-ratatoskr-site-request'' = Some ''1''
     \<and> (case approved_hostname d site of None \<Rightarrow> False | Some hostname \<Rightarrow> origin_is q hostname)"

definition site_session_owner ::
  "(string \<Rightarrow> digest) \<Rightarrow> actor_limiter \<Rightarrow> db \<Rightarrow> http_request \<Rightarrow> string \<Rightarrow> instant
     \<Rightarrow> (failure_kind + principal option) \<times> actor_limiter \<times> db" where
  "site_session_owner sha256 l d q site now =
     (case request_cookie q of
        None \<Rightarrow> (Inr None, l, d)
      | Some token \<Rightarrow>
          (case authenticate d (secret_digest sha256 token) (site_audience site) now of
             None \<Rightarrow> (Inr None, l, d)
           | Some s \<Rightarrow>
               if s_kind s \<noteq> SiteOwner then (Inr None, l, d)
               else (case admit l (s_user s) now of
                   (False, l') \<Rightarrow> (Inl RateLimited, l', d)
                 | (True, l') \<Rightarrow>
                     if \<not> safe_method (hq_method q) \<and> \<not> site_marked d q site then (Inl Forbidden, l', d)
                     else (Inr (Some \<lparr>pl_user = s_user s, pl_session = s_id s, pl_device = None, pl_kind = SiteOwner\<rparr>),
                           l', snd (touch_last_seen d (s_id s) None now (seconds 60))))))"

definition site_owner_watch ::
  "(string \<Rightarrow> digest) \<Rightarrow> actor_limiter \<Rightarrow> db \<Rightarrow> http_request \<Rightarrow> string \<Rightarrow> instant
     \<Rightarrow> (failure_kind + owner_watch option) \<times> actor_limiter \<times> db" where
  "site_owner_watch sha256 l d q site now =
     (case site_session_owner sha256 l d q site now of
        (Inl kind, l', d') \<Rightarrow> (Inl kind, l', d')
      | (Inr None, l', d') \<Rightarrow> (Inr None, l', d')
      | (Inr (Some p), l', d') \<Rightarrow>
          (Inr (case (request_cookie q, find_session d' (pl_session p)) of
                  (Some token, Some found) \<Rightarrow>
                    let used = (case s_last_seen_at found of Some t \<Rightarrow> t | None \<Rightarrow> s_issued_at found)
                    in Some \<lparr>ow_token = secret_digest sha256 token, ow_audience = site_audience site,
                             ow_ends_at = min (s_expires_at found) (used + site_owner_idle)\<rparr>
                | _ \<Rightarrow> None), l', d'))"

subsection \<open>Revoking\<close>

text \<open>\<open>ids\<close> names the revocation rows, in the order they are inserted.\<close>

definition revoke_site ::
  "sign_in_env \<Rightarrow> (nat \<Rightarrow> uuid) \<Rightarrow> bool \<times> bool \<Rightarrow> principal \<Rightarrow> string \<Rightarrow> instant \<Rightarrow> db \<Rightarrow> nat reply \<times> db" where
  "revoke_site env ids = (\<lambda>(begins, commits) p body now d.
     case si_read_revoke env body of
       None \<Rightarrow> (Declined InvalidRequest, d)
     | Some site \<Rightarrow>
         if \<not> si_site_id env site then (Declined InvalidRequest, d)
         else if \<not> begins then (Declined RequestTimeout, d)
         else (case bindE (revoke_site_sessions d (Some (pl_user p)) site now) (\<lambda>(revoked, d1).
                  bindE (foldE (\<lambda>(n, i) e. bindE (record_revocation e (ids n) SessionSubject i UserRequest
                           (Some (pl_user p)) now) (\<lambda>(_, e'). Inr e')) (enumerate 0 revoked) d1)
                    (\<lambda>d2. if commits then Inr (length revoked, d2) else Inl (Query Row_not_found))) of
             Inl _ \<Rightarrow> (Declined RequestTimeout, d)
           | Inr (n, d2) \<Rightarrow> (Answered n, d2)))"

subsection \<open>What opens, holds and ends a site session\<close>

lemma redeem_sign_in_Inr:
  assumes "redeem_sign_in sha256 base64url d q = Inr (Inr g, d')"
  obtains r where "r \<in> set (t_sign_in d)" "redeemable (sha256 (sr_code q)) (sr_now q) r" "still_approved d r (sr_now q)"
    and "sg_site r = sr_site q" "sg_challenge r = base64url (sha256 (sr_verifier q))"
    and "rs_user g = sg_user r" "rs_hostname g = sg_hostname r"
    and "d' = d\<lparr>t_sign_in := update_where (redeemable (sha256 (sr_code q)) (sr_now q))
          (\<lambda>r. r\<lparr>sg_consumed_at := Some (sr_now q)\<rparr>) (t_sign_in d)\<rparr>"
  using assms
  by (auto simp: redeem_sign_in_def Let_def secret_digest_def challenge_of_def sql_update_Inr
      split: option.splits if_splits dest!: fetch_optional_SomeD)

lemma consume_code_cases:
  assumes "consume_code sha256 base64url found q d = Inr d'"
  shows "d' = d \<and> (\<forall>r \<in> set (t_sign_in found). \<not> redeemable (sha256 (sr_code q)) (sr_now q) r)
     \<or> (\<exists>x. redeem_sign_in sha256 base64url d q = Inr (x, d'))"
  using assms by (auto simp: consume_code_def secret_digest_def row_exists_def list_ex_iff split: if_splits)

lemma redeem_sign_in_frame:
  assumes "redeem_sign_in sha256 base64url d q = Inr (x, d')"
  shows "d' = d\<lparr>t_sign_in := update_where (redeemable (sha256 (sr_code q)) (sr_now q))
          (\<lambda>r. r\<lparr>sg_consumed_at := Some (sr_now q)\<rparr>) (t_sign_in d)\<rparr>"
  using assms by (auto simp: redeem_sign_in_def secret_digest_def Let_def sql_update_Inr split: if_splits option.splits)

lemma open_session_Answered:
  assumes "open_session env mn site q now (found, reread) d = (Answered a, d')"
  obtains code verifier credential token g d0 d1 s where
    "si_read_session_request env (hq_body q) = Some (code, verifier)" and "sm_credential mn = Some (credential, token)"
    and "redeem_sign_in (si_sha256 env) (si_base64url env) found
           \<lparr>sr_site = site, sr_code = code, sr_verifier = verifier, sr_now = now\<rparr> = Inr (Inr g, d0)"
    and "consume_code (si_sha256 env) (si_base64url env) found
           \<lparr>sr_site = site, sr_code = code, sr_verifier = verifier, sr_now = now\<rparr> d = Inr d1"
    and "origin_is q (rs_hostname g)" and "approved_now reread site (rs_hostname g)"
    and "create_session d1 (sm_row mn) (site_owner (rs_user g) (site_audience site) token now) = Inr (s, d')"
    and "og_cookie a = site_cookie @ ''='' @ credential"
proof -
  obtain code verifier where body: "si_read_session_request env (hq_body q) = Some (code, verifier)"
    using assms by (auto simp: open_session_def split: if_splits option.splits)
  obtain credential token where minted: "sm_credential mn = Some (credential, token)"
    using assms by (auto simp: open_session_def body split: if_splits option.splits)
  let ?q = "\<lparr>sr_site = site, sr_code = code, sr_verifier = verifier, sr_now = now\<rparr>"
  obtain redeemed d0 where redeemed: "redeem_sign_in (si_sha256 env) (si_base64url env) found ?q = Inr (redeemed, d0)"
    using assms by (auto simp: open_session_def body minted Let_def split: if_splits sum.splits)
  obtain d1 where spent: "consume_code (si_sha256 env) (si_base64url env) found ?q d = Inr d1"
    using assms
    by (cases "consume_code (si_sha256 env) (si_base64url env) found ?q d")
      (auto simp: open_session_def body minted redeemed Let_def split: if_splits)
  obtain g where g: "redeemed = Inr g"
    using assms by (cases redeemed) (auto simp: open_session_def body minted redeemed spent Let_def split: if_splits)
  have accepted: "origin_is q (rs_hostname g) \<and> approved_now reread site (rs_hostname g)"
    using assms by (auto simp: open_session_def body minted redeemed spent g Let_def split: if_splits)
  obtain s where "create_session d1 (sm_row mn) (site_owner (rs_user g) (site_audience site) token now) = Inr (s, d')"
    and "og_cookie a = site_cookie @ ''='' @ credential"
    using assms accepted
    by (cases "create_session d1 (sm_row mn) (site_owner (rs_user g) (site_audience site) token now)")
      (auto simp: open_session_def body minted redeemed spent g Let_def split: if_splits)
  then show ?thesis using body minted redeemed [unfolded g] spent accepted that by blast
qed

text \<open>A presentation that is not answered with a session changes nothing, or consumes its code only.\<close>

lemma open_session_declined:
  assumes "open_session env mn site q now (found, reread) d = (answer, d')" and "\<And>a. answer \<noteq> Answered a"
  shows "d' = d \<or> (\<exists>sq x. redeem_sign_in (si_sha256 env) (si_base64url env) d sq = Inr (x, d'))"
proof (rule disjCI)
  assume none: "\<nexists>sq x. redeem_sign_in (si_sha256 env) (si_base64url env) d sq = Inr (x, d')"
  have "d' = d" if "consume_code (si_sha256 env) (si_base64url env) found sq d = Inr d'" for sq
    using consume_code_cases [OF that] none by blast
  then show "d' = d"
    using assms
    apply (cases answer)
      apply (auto simp: open_session_def Let_def split: if_splits option.splits sum.split_asm)
    subgoal for _ _ _ _ redeemed by (cases redeemed) auto
    done
qed

text \<open>
  C29: a site session is opened only by the presentation, from the hostname its site is approved under,
  of a live code of that site together with the verifier of its challenge, while the session that approved
  the code is live and its user holds the owner grant; the session is that user's, for that site only,
  and the code is spent. Each condition holds of the database that the statement which checks it reads: the code, its
  session and its grant when the code is consumed, the approval when it is read again.
\<close>

theorem site_session_needs_an_approved_code:
  assumes "open_session env mn site q now (found, reread) d = (Answered a, d')"
  shows "\<exists>code verifier r credential token.
     si_read_session_request env (hq_body q) = Some (code, verifier)
     \<and> r \<in> set (t_sign_in found) \<and> redeemable (si_sha256 env code) now r \<and> sg_site r = site
     \<and> sg_challenge r = si_base64url env (si_sha256 env verifier) \<and> still_approved found r now
     \<and> origin_is q (sg_hostname r)
     \<and> (\<exists>x \<in> set (t_approvals reread). approved_row site x \<and> sap_hostname x = sg_hostname r)
     \<and> sm_credential mn = Some (credential, token) \<and> og_cookie a = site_cookie @ ''='' @ credential
     \<and> t_sessions d' = t_sessions d
          @ [session_row_of (sm_row mn) (site_owner (sg_user r) (site_audience site) token now)]
     \<and> (\<forall>x \<in> set (t_sign_in d'). \<not> redeemable (si_sha256 env code) now x)"
proof -
  obtain code verifier credential token g d0 d1 s where read: "si_read_session_request env (hq_body q) = Some (code, verifier)"
    and minted: "sm_credential mn = Some (credential, token)"
    and redeemed: "redeem_sign_in (si_sha256 env) (si_base64url env) found
      \<lparr>sr_site = site, sr_code = code, sr_verifier = verifier, sr_now = now\<rparr> = Inr (Inr g, d0)"
    and spent: "consume_code (si_sha256 env) (si_base64url env) found
      \<lparr>sr_site = site, sr_code = code, sr_verifier = verifier, sr_now = now\<rparr> d = Inr d1"
    and from_site: "origin_is q (rs_hostname g)" "approved_now reread site (rs_hostname g)"
    and created: "create_session d1 (sm_row mn) (site_owner (rs_user g) (site_audience site) token now) = Inr (s, d')"
    and a: "og_cookie a = site_cookie @ ''='' @ credential"
    by (rule open_session_Answered [OF assms])
  obtain r where r: "r \<in> set (t_sign_in found)" "redeemable (si_sha256 env code) now r" "still_approved found r now"
    "sg_site r = site" "sg_challenge r = si_base64url env (si_sha256 env verifier)"
    "rs_user g = sg_user r" "rs_hostname g = sg_hostname r"
    using redeem_sign_in_Inr [OF redeemed] by auto
  obtain x where "redeem_sign_in (si_sha256 env) (si_base64url env) d
      \<lparr>sr_site = site, sr_code = code, sr_verifier = verifier, sr_now = now\<rparr> = Inr (x, d1)"
    using consume_code_cases [OF spent] r(1,2) by auto
  then have d1: "d1 = d\<lparr>t_sign_in := update_where (redeemable (si_sha256 env code) now)
          (\<lambda>r. r\<lparr>sg_consumed_at := Some now\<rparr>) (t_sign_in d)\<rparr>"
    by (auto dest: redeem_sign_in_frame)
  note d' = create_session_Inr(2) [OF created]
  have "\<exists>x \<in> set (t_approvals reread). approved_row site x \<and> sap_hostname x = sg_hostname r"
    using from_site(2) r(7) by (auto simp: approved_now_def row_exists_def list_ex_iff)
  moreover have "\<forall>x \<in> set (t_sign_in d'). \<not> redeemable (si_sha256 env code) now x"
    by (auto simp: d' d1 set_update_where redeemable_def)
  moreover have "t_sessions d' = t_sessions d
      @ [session_row_of (sm_row mn) (site_owner (sg_user r) (site_audience site) token now)]"
    by (simp add: d' d1 r(6))
  ultimately show ?thesis using read minted r from_site(1) a by auto
qed

text \<open>
  A site cookie authenticates only at its own site: whoever it names is the user of a live
  \<open>site_owner\<close> session with that credential and the audience of the site, used within the hour, with
  allowance left; and a request that may change anything carries the page's marker and comes from the
  hostname the site is approved under.
\<close>

lemma site_cookie_is_bound_to_its_site:
  assumes "db_ok d" and "site_session_owner sha256 l d q site now = (Inr (Some p), l', d')"
  shows "\<exists>token. \<exists>r \<in> set (t_sessions d). request_cookie q = Some token \<and> ss_token_hash r = Some (sha256 token)
    \<and> ss_kind r = ''site_owner'' \<and> ss_audience r = site_audience site \<and> ss_revoked_at r = None
    \<and> now < ss_expires_at r \<and> recently_used now r
    \<and> p = \<lparr>pl_user = ss_user r, pl_session = ss_id r, pl_device = None, pl_kind = SiteOwner\<rparr>
    \<and> admit l (ss_user r) now = (True, l')
    \<and> (safe_method (hq_method q)
       \<or> header_value q ''x-ratatoskr-site-request'' = Some ''1''
         \<and> (\<exists>x \<in> set (t_approvals d). approved_row site x \<and> origin_is q (sap_hostname x)))"
proof -
  obtain token s where token: "request_cookie q = Some token"
    and s: "authenticate d (sha256 token) (site_audience site) now = Some s" "s_kind s = SiteOwner"
    and rest: "admit l (s_user s) now = (True, l')" "safe_method (hq_method q) \<or> site_marked d q site"
    and p: "p = \<lparr>pl_user = s_user s, pl_session = s_id s, pl_device = None, pl_kind = SiteOwner\<rparr>"
    using assms(2)
    by (auto simp: site_session_owner_def secret_digest_def split: option.splits if_splits prod.splits bool.splits)
  obtain r where r: "r \<in> set (t_sessions d)" "authenticates (sha256 token) (site_audience site) now r" "s = session_from_row r"
    using s(1) by (auto simp: authenticate_Some [OF assms(1)])
  have "ss_kind r = ''site_owner''"
    using s(2) by (auto simp: r(3) session_from_row_def session_kind_from_str_def split: if_splits)
  moreover have "site_marked d q site \<Longrightarrow> header_value q ''x-ratatoskr-site-request'' = Some ''1''
         \<and> (\<exists>x \<in> set (t_approvals d). approved_row site x \<and> origin_is q (sap_hostname x))"
    by (auto simp: site_marked_def approved_hostname_def split: option.splits dest!: fetch_optional_SomeD)
  ultimately show ?thesis
    using token r rest p by (intro exI [of _ token] bexI [of _ r]) (auto simp: authenticates_def)
qed

lemma revocations_recorded:
  assumes "foldE (\<lambda>(n, i) e. bindE (record_revocation e (ids n) SessionSubject i UserRequest by_whom now)
      (\<lambda>(_, e'). Inr e')) (enumerate k is) d = Inr d'"
  shows "\<exists>rs. d' = d\<lparr>t_revocations := t_revocations d @ rs\<rparr> \<and> map rv_subject rs = is
    \<and> (\<forall>r \<in> set rs. rv_subject_kind r = ''session'' \<and> rv_reason r = ''user_request'')"
  using assms
proof (induction "is" arbitrary: k d)
  case Nil
  then show ?case by (intro exI [of _ "[]"]) simp
next
  case (Cons i more)
  then obtain j e where one: "record_revocation d (ids k) SessionSubject i UserRequest by_whom now = Inr (j, e)"
    and rest: "foldE (\<lambda>(n, i) e. bindE (record_revocation e (ids n) SessionSubject i UserRequest by_whom now)
      (\<lambda>(_, e'). Inr e')) (enumerate (Suc k) more) e = Inr d'" by auto
  obtain r where r: "rv_subject_kind r = revocation_subject_str SessionSubject" "rv_subject r = i"
    "rv_reason r = reason_str UserRequest" "e = d\<lparr>t_revocations := t_revocations d @ [r]\<rparr>"
    using record_revocation_Inr(1) [OF one] by blast
  obtain rs where rs: "d' = e\<lparr>t_revocations := t_revocations e @ rs\<rparr>" "map rv_subject rs = more"
    "\<forall>r \<in> set rs. rv_subject_kind r = ''session'' \<and> rv_reason r = ''user_request''"
    using Cons.IH [OF rest] by blast
  then show ?case using r by (intro exI [of _ "r # rs"]) simp
qed

text \<open>
  Revoking a site ends exactly the live \<open>site_owner\<close> sessions of the caller at that site, all of
  them, counts them, and records one revocation for each at the caller's request; every other session
  stays as it is.
\<close>

lemma revoke_site_ends_the_callers_sessions_there:
  assumes "revoke_site env ids flags p body now d = (Answered n, d')"
  shows "\<exists>site ended rs. si_read_revoke env body = Some site
     \<and> ended = filter (\<lambda>r. ss_kind r = ''site_owner'' \<and> ss_audience r = site_audience site \<and> ss_user r = pl_user p
          \<and> ss_revoked_at r = None) (t_sessions d)
     \<and> n = length ended
     \<and> (\<forall>i. session_at d' i = map_option (\<lambda>r. if r \<in> set ended then revoked_session now r else r) (session_at d i))
     \<and> t_revocations d' = t_revocations d @ rs \<and> map rv_subject rs = map ss_id ended
     \<and> (\<forall>r \<in> set rs. rv_subject_kind r = ''session'' \<and> rv_reason r = ''user_request'')"
proof -
  obtain begins commits where flags: "flags = (begins, commits)" by (cases flags)
  obtain site where site: "si_read_revoke env body = Some site"
    using assms by (auto simp: revoke_site_def flags split: option.splits)
  obtain revoked d1 where revoked: "revoke_site_sessions d (Some (pl_user p)) site now = Inr (revoked, d1)"
    and recorded: "foldE (\<lambda>(n, i) e. bindE (record_revocation e (ids n) SessionSubject i UserRequest
        (Some (pl_user p)) now) (\<lambda>(_, e'). Inr e')) (enumerate 0 revoked) d1 = Inr d'"
    and n: "n = length revoked"
    using assms by (auto simp: revoke_site_def flags site split: if_splits sum.splits)
  let ?ended = "filter (\<lambda>r. ss_kind r = ''site_owner'' \<and> ss_audience r = site_audience site \<and> ss_user r = pl_user p
      \<and> ss_revoked_at r = None) (t_sessions d)"
  note r = revoke_where_Inr [OF revoked [unfolded revoke_site_sessions_def]]
  obtain rs where rs: "d' = d1\<lparr>t_revocations := t_revocations d1 @ rs\<rparr>" "map rv_subject rs = revoked"
    "\<forall>r \<in> set rs. rv_subject_kind r = ''session'' \<and> rv_reason r = ''user_request''"
    using revocations_recorded [OF recorded] by blast
  have ids: "revoked = map ss_id ?ended" using r(3) by (simp add: conj_assoc)
  have "session_at d' i = map_option (\<lambda>r. if r \<in> set ?ended then revoked_session now r else r) (session_at d i)" for i
  proof -
    have "session_at d' i = session_at d1 i" by (simp add: rs(1) session_at_def)
    also have "\<dots> = map_option (\<lambda>r. if r \<in> set ?ended then revoked_session now r else r) (session_at d i)"
      using r(2) by (cases "session_at d i") (auto simp: session_at_def dest: fetch_optional_SomeD)
    finally show ?thesis .
  qed
  moreover have "t_revocations d1 = t_revocations d" using r(4) by auto
  ultimately show ?thesis using site rs n ids by (intro exI [of _ site] exI [of _ ?ended] exI [of _ rs]) simp
qed

subsection \<open>A concrete site\<close>

definition example_approval :: approval_row where
  "example_approval = \<lparr>sap_site = ''blog'', sap_changed_by = 1, sap_manifest = replicate 64 (CHR ''a''),
     sap_capabilities = [''pages.read'', ''notes.edit''], sap_hostname = ''blog.example'', sap_state = ''approved'',
     sap_repository = None, sap_changed_at = 5\<rparr>"

definition example_site_session :: session_row where
  "example_site_session =
     \<lparr>ss_id = 13, ss_user = 1, ss_kind = ''site_owner'', ss_device = None, ss_audience = ''site:blog'', ss_issued_at = 20,
      ss_expires_at = 1000, ss_last_seen_at = Some 20, ss_revoked_at = None, ss_token_hash = Some (replicate 32 0)\<rparr>"

definition site_example :: db where
  "site_example = identity_example\<lparr>t_approvals := [example_approval],
     t_sessions := t_sessions identity_example @ [example_site_session]\<rparr>"

lemma site_example_ok: "db_ok site_example"
proof -
  have "table_ok approval_ok approval_clash [example_approval]" by code_simp
  then have "db_ok (identity_example\<lparr>t_approvals := [example_approval]\<rparr>)"
    by (rule db_ok_update [OF identity_example_ok])
  moreover have "table_ok session_ok session_clash (t_sessions identity_example @ [example_site_session])" by code_simp
  ultimately show ?thesis unfolding site_example_def by (rule db_ok_update)
qed

definition example_sign_in_env :: sign_in_env where
  "example_sign_in_env = \<lparr>si_sha256 = example_sha256, si_base64url = example_base64url, si_site_id = (\<lambda>_. True),
     si_read_code_request = (\<lambda>_. None), si_read_session_request = (\<lambda>_. Some (''code'', ''v'')),
     si_read_revoke = (\<lambda>_. Some ''blog'')\<rparr>"

definition example_site_request :: "string \<Rightarrow> http_request" where
  "example_site_request m = \<lparr>hq_method = m, hq_path = ''/v1/sites/blog/edits'', hq_query = None,
     hq_headers = [(''origin'', ''https://blog.example''), (''x-ratatoskr-site-request'', ''1''),
       (''cookie'', ''a=b; __Host-ratatoskr-site=t'')], hq_peer = None, hq_body = ''{}'', hq_body_size = Some 2\<rparr>"

definition example_opened :: "opened_session reply \<times> db" where
  "example_opened = open_session example_sign_in_env
     \<lparr>sm_row = 90, sm_credential = Some (''c'', example_digest 8), sm_begins = True, sm_commits = True\<rparr>
     ''blog'' (example_site_request ''POST'') 100 (site_example, site_example) site_example"

theorem site_session_needs_an_approved_code_witness:
  "\<exists>a d'. example_opened = (Answered a, d') \<and> length (t_sessions d') = Suc (length (t_sessions site_example))"
proof -
  have made: "case example_opened of (Answered _, _) \<Rightarrow> True | _ \<Rightarrow> False" by code_simp
  obtain answer d' where run: "example_opened = (answer, d')" by fastforce
  obtain a where a: "answer = Answered a" using made unfolding run prod.case by (cases answer) simp_all
  have "length (t_sessions d') = Suc (length (t_sessions site_example))"
    using site_session_needs_an_approved_code [OF run [unfolded a example_opened_def]] by auto
  with run a show ?thesis by blast
qed

end
