(* ===== verification/Site_Dispatch.thy ===== *)
theory Site_Dispatch
  imports Site_Sessions
begin

text \<open>
  The dispatcher of \<^verbatim>\<open>crates/public-api/src/sites.rs\<close> with its guards, \<^verbatim>\<open>admin.rs\<close> and
  \<^verbatim>\<open>site_capabilities.rs\<close>: from a request under \<^verbatim>\<open>/v1/sites\<close> to a refusal or to the handler that serves it
  and the principal it serves. What a handler does is modelled where its component is. The sites service,
  which answers the active manifest of a site, the query parser and the contract's list of public
  capabilities are parameters. \<open>clock n\<close> is the n-th reading of the clock.
\<close>

record dispatch_env =
  dy_auth :: auth_env
  dy_uuid_v5 :: "uuid \<Rightarrow> string \<Rightarrow> uuid"
  dy_parse_ip :: "string \<Rightarrow> string option"
  dy_gateway_peer :: string
  dy_is_public :: "string \<Rightarrow> bool"
  dy_site_id :: "string \<Rightarrow> bool"
  dy_active :: "principal \<Rightarrow> string \<Rightarrow> string list option"
  dy_query_chars :: "string \<Rightarrow> nat option"

record door_state =
  ds_db :: db
  ds_actors :: actor_limiter
  ds_public :: public_limits

datatype service =
    Proxy | Build_release | Issue_sign_in_code | Withdraw_approval | Approve_manifest | Open_site_session
  | Forward_content | Stream_events "owner_watch option" string | Upload_blob string | Edit_note
  | Read_conflict string | Search_library

datatype verdict =
    Refused failure_kind
  | Limited nat
  | No_such_site
  | Serves service "principal option" string

subsection \<open>Capabilities\<close>

definition notes_edit :: string where
  "notes_edit = ''notes.edit''"

definition effective_set ::
  "dispatch_env \<Rightarrow> db \<Rightarrow> principal option \<Rightarrow> string \<Rightarrow> failure_kind + string list option" where
  "effective_set env d p site =
     (case fetch_optional (approved_row site) (t_approvals d) of
        None \<Rightarrow> Inr None
      | Some a \<Rightarrow>
          let reader = (case p of Some p \<Rightarrow> p | None \<Rightarrow>
                \<lparr>pl_user = sap_changed_by a, pl_session = 0, pl_device = None, pl_kind = ServiceSession\<rparr>)
          in (case dy_active env reader site of
                None \<Rightarrow> Inl UpstreamUnavailable
              | Some active \<Rightarrow> Inr (Some (filter (\<lambda>c. c \<in> set active) (sap_capabilities a)))))"

definition require_capability ::
  "dispatch_env \<Rightarrow> db \<Rightarrow> principal \<Rightarrow> string \<Rightarrow> string \<Rightarrow> failure_kind + unit" where
  "require_capability env d p site capability =
     bindE (effective_set env d (Some p) site) (\<lambda>effective. case effective of
       Some names \<Rightarrow> if capability \<in> set names then Inr () else Inl CapabilityNotGranted
     | None \<Rightarrow> Inl NotAuthenticated)"

definition public_capability :: "dispatch_env \<Rightarrow> db \<Rightarrow> string \<Rightarrow> string \<Rightarrow> failure_kind + bool" where
  "public_capability env d site capability =
     (if \<not> dy_site_id env site then Inr False
      else bindE (effective_set env d None site) (\<lambda>effective. Inr (case effective of
             Some names \<Rightarrow> capability \<in> set names | None \<Rightarrow> False)))"

subsection \<open>Guards\<close>

definition require_owner :: "db \<Rightarrow> principal \<Rightarrow> instant \<Rightarrow> failure_kind + unit" where
  "require_owner d p now = (if holds d (pl_user p) owner_grant now then Inr () else Inl Forbidden)"

definition caller ::
  "dispatch_env \<Rightarrow> door_state \<Rightarrow> http_request \<Rightarrow> bool \<Rightarrow> (nat \<Rightarrow> instant)
     \<Rightarrow> (failure_kind + principal \<times> string option) \<times> door_state" where
  "caller env st q deploy_route clock =
     (case from_request_parts (dy_auth env) (ds_actors st) (ds_db st)
             (Option.bind (header_value q ''authorization'') to_str) deploy_route (clock 0, clock 1, clock 2) of
        (answer, l, d) \<Rightarrow> (answer, st\<lparr>ds_actors := l, ds_db := d\<rparr>))"

definition owner_guard ::
  "dispatch_env \<Rightarrow> door_state \<Rightarrow> http_request \<Rightarrow> (nat \<Rightarrow> instant) \<Rightarrow> (failure_kind + principal) \<times> door_state" where
  "owner_guard env st q clock =
     (case caller env st q False clock of
        (Inl kind, st') \<Rightarrow> (Inl kind, st')
      | (Inr (p, _), st') \<Rightarrow>
          (if pl_device p \<noteq> None \<or> pl_kind p = DeviceKindSession then Inl Forbidden
           else bindE (require_owner (ds_db st') p (clock 3)) (\<lambda>_. Inr p), st'))"

definition deployer_guard ::
  "dispatch_env \<Rightarrow> door_state \<Rightarrow> http_request \<Rightarrow> string \<Rightarrow> (nat \<Rightarrow> instant)
     \<Rightarrow> (failure_kind + principal) \<times> door_state" where
  "deployer_guard env st q site clock =
     (case caller env st q True clock of
        (Inl kind, st') \<Rightarrow> (Inl kind, st')
      | (Inr (p, own), st') \<Rightarrow>
          (if pl_device p = None \<and> pl_kind p \<noteq> DeviceKindSession
           then bindE (require_owner (ds_db st') p (clock 3)) (\<lambda>_. Inr p)
           else (case own of
                   Some s \<Rightarrow> if s = site then Inr p else Inl CapabilityNotGranted
                 | None \<Rightarrow> Inl Forbidden), st'))"

text \<open>\<open>public_limit\<close>: the refusal with its \<^verbatim>\<open>Retry-After\<close>, or nothing.\<close>

definition public_limit ::
  "dispatch_env \<Rightarrow> door_state \<Rightarrow> http_request \<Rightarrow> string \<Rightarrow> (nat \<Rightarrow> instant) \<Rightarrow> verdict option \<times> door_state" where
  "public_limit env st q site clock =
     (case public_admit (dy_uuid_v5 env) (ds_public st) (client_key (dy_parse_ip env) (dy_gateway_peer env) q) site (clock 4) of
        (ok, limits) \<Rightarrow> (if ok then None else Some (Limited (pb_retry_after limits)), st\<lparr>ds_public := limits\<rparr>))"

text \<open>\<open>site_owner\<close>: the site session in the cookie, over the state of the listener.\<close>

definition cookie_guard ::
  "dispatch_env \<Rightarrow> door_state \<Rightarrow> http_request \<Rightarrow> string \<Rightarrow> (nat \<Rightarrow> instant)
     \<Rightarrow> (failure_kind + principal option) \<times> door_state" where
  "cookie_guard env st q site clock =
     (case site_session_owner (av_sha256 (dy_auth env)) (ds_actors st) (ds_db st) q site (clock 5) of
        (answer, l, d) \<Rightarrow> (answer, st\<lparr>ds_actors := l, ds_db := d\<rparr>))"

subsection \<open>Routes of the site itself\<close>

definition owner_route :: "dispatch_env \<Rightarrow> http_request \<Rightarrow> string \<Rightarrow> principal \<Rightarrow> verdict" where
  "owner_route env q site p =
     (let below = drop 4 (split_on (CHR ''/'') (hq_path q));
          searched = (case dy_query_chars env (case hq_query q of Some s \<Rightarrow> s | None \<Rightarrow> []) of
             Some n \<Rightarrow> 1 \<le> n \<and> n \<le> 512 | None \<Rightarrow> False);
          search = (if below = [''library''] \<or> searched then Serves Search_library (Some p) site
                    else Refused InvalidRequest)
      in case below of
           [a] \<Rightarrow>
             if a = ''drafts'' then Serves Proxy (Some p) site
             else if a = ''edits'' then Serves Edit_note (Some p) site
             else if a = ''library'' then search else Refused RouteNotFound
         | [a, b] \<Rightarrow>
             if a = ''drafts'' then Serves Proxy (Some p) site
             else if a = ''conflicts'' then Serves (Read_conflict b) (Some p) site
             else if a = ''knowledge'' \<and> b = ''search'' then search else Refused RouteNotFound
         | a # b # c # further \<Rightarrow>
             if a = ''drafts'' then
               (case further of
                  [e] \<Rightarrow> if b = ''sources'' \<and> e = ''blobs'' then Serves (Upload_blob c) (Some p) site
                         else Serves Proxy (Some p) site
                | _ \<Rightarrow> Serves Proxy (Some p) site)
             else Refused RouteNotFound
         | [] \<Rightarrow> Refused RouteNotFound)"

definition content_route ::
  "dispatch_env \<Rightarrow> door_state \<Rightarrow> http_request \<Rightarrow> string \<Rightarrow> string \<Rightarrow> (nat \<Rightarrow> instant) \<Rightarrow> verdict \<times> door_state" where
  "content_route env st q site capability clock =
     (if declares_body q then (Refused InvalidRequest, st)
      else case public_limit env st q site clock of
          (Some refused, st') \<Rightarrow> (refused, st')
        | (None, st') \<Rightarrow>
            (case public_capability env (ds_db st') site capability of
               Inr True \<Rightarrow> Serves Forward_content None site
             | Inr False \<Rightarrow> No_such_site
             | Inl kind \<Rightarrow> Refused kind, st'))"

definition site_origin ::
  "dispatch_env \<Rightarrow> door_state \<Rightarrow> http_request \<Rightarrow> string \<Rightarrow> string \<Rightarrow> (nat \<Rightarrow> instant) \<Rightarrow> verdict \<times> door_state" where
  "site_origin env st q site capability clock =
     (if is_content (hq_path q) then content_route env st q site capability clock
      else if dy_is_public env capability then
        (case public_limit env st q site clock of
           (Some refused, st') \<Rightarrow> (refused, st')
         | (None, st') \<Rightarrow>
             (case public_capability env (ds_db st') site capability of
                Inl kind \<Rightarrow> (Refused kind, st')
              | Inr False \<Rightarrow> (No_such_site, st')
              | Inr True \<Rightarrow>
                  (case site_owner_watch (av_sha256 (dy_auth env)) (ds_actors st') (ds_db st') q site (clock 5) of
                     (Inl kind, l, d) \<Rightarrow> (Refused kind, st'\<lparr>ds_actors := l, ds_db := d\<rparr>)
                   | (Inr watch, l, d) \<Rightarrow>
                       (Serves (Stream_events watch (client_key (dy_parse_ip env) (dy_gateway_peer env) q)) None site,
                        st'\<lparr>ds_actors := l, ds_db := d\<rparr>))))
      else case cookie_guard env st q site clock of
          (Inl kind, st') \<Rightarrow> (Refused kind, st')
        | (Inr None, st') \<Rightarrow> (Refused NotAuthenticated, st')
        | (Inr (Some p), st') \<Rightarrow>
            (case require_capability env (ds_db st') p site capability of
               Inl kind \<Rightarrow> Refused kind
             | Inr _ \<Rightarrow> owner_route env q site p, st'))"

subsection \<open>The dispatcher\<close>

definition is_under :: "string \<Rightarrow> string \<Rightarrow> bool" where
  "is_under pat path =
     (let ps = split_on (CHR ''/'') pat; ss = split_on (CHR ''/'') path
      in length ps \<le> length ss
         \<and> list_all2 (\<lambda>expected segment. if starts_with ''{'' expected then segment \<noteq> '''' else segment = expected)
              ps (take (length ps) ss))"

definition sign_in_codes_path :: string where
  "sign_in_codes_path = ''{site}/sign-in-codes''"

definition approval_path :: string where
  "approval_path = ''{site}/manifest/approval''"

definition site_release ::
  "dispatch_env \<Rightarrow> door_state \<Rightarrow> http_request \<Rightarrow> string \<Rightarrow> (nat \<Rightarrow> instant) \<Rightarrow> verdict option \<times> door_state" where
  "site_release env st q site clock =
     (case cookie_guard env st q site clock of
        (Inl kind, st') \<Rightarrow> (Some (Refused kind), st')
      | (Inr None, st') \<Rightarrow> (None, st')
      | (Inr (Some p), st') \<Rightarrow>
          (Some (case require_capability env (ds_db st') p site notes_edit of
                   Inr _ \<Rightarrow> Serves Build_release (Some p) site
                 | Inl kind \<Rightarrow> Refused kind), st'))"

definition managed ::
  "dispatch_env \<Rightarrow> door_state \<Rightarrow> http_request \<Rightarrow> string \<Rightarrow> site_route_class \<Rightarrow> (nat \<Rightarrow> instant)
     \<Rightarrow> verdict \<times> door_state" where
  "managed env st q site cl clock =
     (case owner_guard env st q clock of
        (Inl kind, st') \<Rightarrow> (Refused kind, st')
      | (Inr p, st') \<Rightarrow>
          (Serves
             (if cl = Release then Build_release
              else let below = (case strip_prefix ''/v1/sites/'' (hq_path q) of Some b \<Rightarrow> b | None \<Rightarrow> [])
                in if is_under sign_in_codes_path below then Issue_sign_in_code
                   else if is_under approval_path below
                   then if hq_method q = ''DELETE'' then Withdraw_approval else Approve_manifest
                   else Proxy)
             (Some p) site, st'))"

definition dispatch ::
  "dispatch_env \<Rightarrow> door_state \<Rightarrow> http_request \<Rightarrow> (nat \<Rightarrow> instant) \<Rightarrow> verdict \<times> door_state" where
  "dispatch env st q clock =
     (case classify_site (hq_method q) (hq_path q) of
        Inl kind \<Rightarrow> (Refused kind, st)
      | Inr (site, r) \<Rightarrow>
          (case sw_class r of
             None \<Rightarrow> (Refused RouteNotFound, st)
           | Some cl \<Rightarrow>
               if site \<noteq> [] \<and> \<not> names_site (hq_path q) site then (Refused RouteNotFound, st)
               else (case cl of
                   SiteOrigin \<Rightarrow>
                     (case sw_capability r of
                        None \<Rightarrow> (Refused RouteNotFound, st)
                      | Some capability \<Rightarrow> site_origin env st q site capability clock)
                 | Deploy \<Rightarrow>
                     (case deployer_guard env st q site clock of
                        (Inl kind, st') \<Rightarrow> (Refused kind, st')
                      | (Inr p, st') \<Rightarrow>
                          (if ends_with ''/deploys'' (hq_path q) \<and> \<not> is_deploy_json q then Refused InvalidRequest
                           else if ends_with ''/activate'' (hq_path q) \<and> (declares_body q \<or> hq_body_size q \<noteq> Some 0)
                           then Refused InvalidRequest
                           else Serves Proxy (Some p) site, st'))
                 | SignIn \<Rightarrow>
                     (case public_limit env st q site clock of
                        (Some refused, st') \<Rightarrow> (refused, st')
                      | (None, st') \<Rightarrow> (Serves Open_site_session None site, st'))
                 | _ \<Rightarrow>
                     if cl = Release \<and> header_value q ''authorization'' = None then
                       (case site_release env st q site clock of
                          (Some answer, st') \<Rightarrow> (answer, st')
                        | (None, st') \<Rightarrow> managed env st' q site cl clock)
                     else managed env st q site cl clock)))"

subsection \<open>Whom a route serves\<close>

definition signed_in :: "dispatch_env \<Rightarrow> db \<Rightarrow> http_request \<Rightarrow> instant \<Rightarrow> principal \<Rightarrow> bool" where
  "signed_in env d q now p \<longleftrightarrow> (\<exists>h. \<exists>r \<in> set (t_sessions d).
     bearer (av_sha256 (dy_auth env)) (Option.bind (header_value q ''authorization'') to_str) = Some h
     \<and> ss_token_hash r = Some h \<and> ss_audience r = av_audience (dy_auth env) \<and> ss_revoked_at r = None
     \<and> now < ss_expires_at r \<and> pl_user p = ss_user r \<and> pl_session p = ss_id r \<and> pl_device p = ss_device r)"

definition is_owner :: "dispatch_env \<Rightarrow> db \<Rightarrow> http_request \<Rightarrow> (nat \<Rightarrow> instant) \<Rightarrow> principal \<Rightarrow> bool" where
  "is_owner env d q clock p \<longleftrightarrow> signed_in env d q (clock 0) p \<and> pl_device p = None \<and> pl_kind p \<noteq> DeviceKindSession
     \<and> (\<exists>g \<in> set (t_grants d). live_grant (pl_user p) owner_grant (clock 3) g)"

definition is_deployer_of :: "dispatch_env \<Rightarrow> db \<Rightarrow> http_request \<Rightarrow> string \<Rightarrow> (nat \<Rightarrow> instant) \<Rightarrow> principal \<Rightarrow> bool" where
  "is_deployer_of env d q site clock p \<longleftrightarrow> signed_in env d q (clock 0) p
     \<and> (\<exists>x \<in> set (t_devices d). pl_device p = Some (dv_id x) \<and> dv_kind x = ''site_deployer'' \<and> dv_site x = Some site
          \<and> dv_user x = pl_user p \<and> dv_revoked_at x = None)"

definition is_site_owner_of :: "dispatch_env \<Rightarrow> db \<Rightarrow> http_request \<Rightarrow> string \<Rightarrow> (nat \<Rightarrow> instant) \<Rightarrow> principal \<Rightarrow> bool" where
  "is_site_owner_of env d q site clock p \<longleftrightarrow> (\<exists>token. \<exists>r \<in> set (t_sessions d). request_cookie q = Some token
     \<and> authenticates (av_sha256 (dy_auth env) token) (site_audience site) (clock 5) r \<and> ss_kind r = ''site_owner''
     \<and> pl_user p = ss_user r \<and> pl_session p = ss_id r \<and> pl_device p = None
     \<and> (safe_method (hq_method q) \<or> site_marked d q site))"

definition effective :: "dispatch_env \<Rightarrow> db \<Rightarrow> principal \<Rightarrow> string \<Rightarrow> string \<Rightarrow> bool" where
  "effective env d p site capability \<longleftrightarrow> (\<exists>a \<in> set (t_approvals d). approved_row site a
     \<and> capability \<in> set (sap_capabilities a) \<and> (\<exists>active. dy_active env p site = Some active \<and> capability \<in> set active))"

lemma touch_frame:
  "t_grants (snd (touch_last_seen d i device now m)) = t_grants d"
  "t_approvals (snd (touch_last_seen d i device now m)) = t_approvals d"
  by (simp_all add: touch_last_seen_def Let_def split: sum.split option.split)

lemma holds_grant: "holds d u capability now \<longleftrightarrow> (\<exists>g \<in> set (t_grants d). live_grant u capability now g)"
  by (simp add: holds_def row_exists_def list_ex_iff)

lemma caller_Inr:
  assumes "caller env st q deploy_route clock = (Inr (p, own), st')" and "db_ok (ds_db st)"
  shows "signed_in env (ds_db st) q (clock 0) p" and "t_grants (ds_db st') = t_grants (ds_db st)"
    and "own = Some site \<Longrightarrow> is_deployer_of env (ds_db st) q site clock p"
proof -
  let ?d = "ds_db st" and ?header = "Option.bind (header_value q ''authorization'') to_str"
  obtain l d where entry: "from_request_parts (dy_auth env) (ds_actors st) ?d ?header deploy_route
      (clock 0, clock 1, clock 2) = (Inr (p, own), l, d)" and st': "st' = st\<lparr>ds_actors := l, ds_db := d\<rparr>"
    using assms(1) by (auto simp: caller_def split: prod.splits)
  obtain h s where h: "bearer (av_sha256 (dy_auth env)) ?header = Some h"
    and s: "authenticate ?d h (av_audience (dy_auth env)) (clock 0) = Some s"
    and p: "p = \<lparr>pl_user = s_user s, pl_session = s_id s, pl_device = s_device s, pl_kind = s_kind s\<rparr>"
    and own: "case s_device s of None \<Rightarrow> own = None
       | Some device_id \<Rightarrow> deployer_site ?d deploy_route device_id (s_user s) = Inr own"
    and d: "d = snd (touch_last_seen ?d (s_id s) (s_device s) (clock 2) last_seen_interval)"
    using from_request_parts_Inr [OF entry] by blast
  obtain r where r: "r \<in> set (t_sessions ?d)" "authenticates h (av_audience (dy_auth env)) (clock 0) r"
    "s = session_from_row r"
    using s by (auto simp: authenticate_Some [OF assms(2)])
  show signed: "signed_in env ?d q (clock 0) p"
    unfolding signed_in_def by (intro exI [of _ h] bexI [OF _ r(1)]) (use h r(2,3) p in \<open>simp add: authenticates_def\<close>)
  show "t_grants (ds_db st') = t_grants ?d" by (simp add: st' d touch_frame)
  assume site: "own = Some site"
  then obtain device_id where dev: "s_device s = Some device_id"
    and "deployer_site ?d deploy_route device_id (s_user s) = Inr (Some site)"
    using own by (auto split: option.splits)
  from deployer_site_Inr [OF this(2)] obtain x where x: "find_device ?d device_id = Some x" "d_kind x = SiteDeployer"
    "d_site x = Some site" "d_user x = s_user s" "is_active x" by auto
  then obtain y where y: "y \<in> set (t_devices ?d)" "dv_id y = device_id" "stored_device_kind y = SiteDeployer"
    "dv_site y = Some site" "dv_user y = s_user s" "dv_revoked_at y = None"
    by (auto simp: find_device_def is_active_def dest!: fetch_optional_SomeD)
  have "dv_kind y = ''site_deployer''"
    using y(3) by (auto simp: stored_device_kind_def device_kind_from_str_def split: if_splits)
  with y dev p signed show "is_deployer_of env ?d q site clock p" unfolding is_deployer_of_def by auto
qed

lemma owner_guard_Inr:
  assumes "owner_guard env st q clock = (Inr p, st')" and "db_ok (ds_db st)"
  shows "is_owner env (ds_db st) q clock p"
proof -
  obtain own where c: "caller env st q False clock = (Inr (p, own), st')"
    and rest: "pl_device p = None" "pl_kind p \<noteq> DeviceKindSession" "holds (ds_db st') (pl_user p) owner_grant (clock 3)"
    using assms(1) by (auto simp: owner_guard_def require_owner_def split: prod.splits sum.splits if_splits)
  with caller_Inr(1,2) [OF c assms(2)] show ?thesis by (simp add: is_owner_def holds_grant)
qed

lemma deployer_guard_Inr:
  assumes "deployer_guard env st q site clock = (Inr p, st')" and "db_ok (ds_db st)"
  shows "is_owner env (ds_db st) q clock p \<or> is_deployer_of env (ds_db st) q site clock p"
proof -
  obtain own where c: "caller env st q True clock = (Inr (p, own), st')"
    and rest: "pl_device p = None \<and> pl_kind p \<noteq> DeviceKindSession \<and> holds (ds_db st') (pl_user p) owner_grant (clock 3)
      \<or> own = Some site"
    using assms(1)
    by (auto simp: deployer_guard_def require_owner_def split: prod.splits sum.splits if_splits option.splits)
  with caller_Inr [OF c assms(2)] show ?thesis by (auto simp: is_owner_def holds_grant)
qed

lemma cookie_guard_Inr:
  assumes "cookie_guard env st q site clock = (Inr (Some p), st')" and "db_ok (ds_db st)"
  shows "is_site_owner_of env (ds_db st) q site clock p" and "t_approvals (ds_db st') = t_approvals (ds_db st)"
proof -
  let ?d = "ds_db st" and ?sha = "av_sha256 (dy_auth env)"
  obtain token s l' where token: "request_cookie q = Some token"
    and s: "authenticate ?d (?sha token) (site_audience site) (clock 5) = Some s" "s_kind s = SiteOwner"
    and safe: "safe_method (hq_method q) \<or> site_marked ?d q site"
    and p: "p = \<lparr>pl_user = s_user s, pl_session = s_id s, pl_device = None, pl_kind = SiteOwner\<rparr>"
    and st': "st' = st\<lparr>ds_actors := l', ds_db := snd (touch_last_seen ?d (s_id s) None (clock 5) (seconds 60))\<rparr>"
    using assms(1)
    by (auto simp: cookie_guard_def site_session_owner_def secret_digest_def
        split: option.splits if_splits prod.splits bool.splits)
  obtain r where r: "r \<in> set (t_sessions ?d)" "authenticates (?sha token) (site_audience site) (clock 5) r"
    "s = session_from_row r"
    using s(1) by (auto simp: authenticate_Some [OF assms(2)])
  have "ss_kind r = ''site_owner''"
    using s(2) by (auto simp: r(3) session_from_row_def session_kind_from_str_def split: if_splits)
  then show "is_site_owner_of env ?d q site clock p"
    unfolding is_site_owner_of_def
    by (intro exI [of _ token] bexI [OF _ r(1)]) (use token r safe p in simp)
  show "t_approvals (ds_db st') = t_approvals ?d" by (simp add: st' touch_frame)
qed

lemma require_capability_Inr:
  assumes "require_capability env d p site capability = Inr u"
  shows "effective env d p site capability"
  using assms
  by (auto simp: require_capability_def effective_set_def effective_def Let_def
      split: option.splits if_splits dest!: fetch_optional_SomeD)

lemma public_capability_True:
  assumes "public_capability env d site capability = Inr True"
  shows "dy_site_id env site \<and> (\<exists>reader. effective env d reader site capability)"
  using assms
  by (auto simp: public_capability_def effective_set_def effective_def Let_def
      split: option.splits if_splits dest!: fetch_optional_SomeD)

lemma effective_cong: "t_approvals d' = t_approvals d \<Longrightarrow> effective env d' p site capability = effective env d p site capability"
  by (simp add: effective_def)

lemma managed_serves:
  assumes "managed env st q site cl clock = (Serves service who site', st')" and "db_ok (ds_db st)"
  shows "site' = site" and "\<exists>p. who = Some p \<and> is_owner env (ds_db st) q clock p"
    and "cl = Release \<Longrightarrow> service = Build_release"
  using assms owner_guard_Inr [OF _ assms(2)]
  by (auto simp: managed_def Let_def split: prod.splits sum.splits)

lemma site_release_serves:
  assumes "site_release env st q site clock = (Some (Serves service who site'), st')" and "db_ok (ds_db st)"
  shows "site' = site" and "service = Build_release"
    and "\<exists>p. who = Some p \<and> is_site_owner_of env (ds_db st) q site clock p \<and> effective env (ds_db st) p site notes_edit"
proof -
  obtain p u where c: "cookie_guard env st q site clock = (Inr (Some p), st')"
    and granted: "require_capability env (ds_db st') p site notes_edit = Inr u"
    and out: "service = Build_release" "who = Some p" "site' = site"
    using assms(1) by (auto simp: site_release_def split: prod.splits sum.splits option.splits)
  have "effective env (ds_db st) p site notes_edit"
    using require_capability_Inr [OF granted] effective_cong [OF cookie_guard_Inr(2) [OF c assms(2)]] by simp
  with cookie_guard_Inr(1) [OF c assms(2)] out
  show "site' = site" "service = Build_release"
    "\<exists>p. who = Some p \<and> is_site_owner_of env (ds_db st) q site clock p \<and> effective env (ds_db st) p site notes_edit"
    by auto
qed

lemma site_release_none:
  "site_release env st q site clock = (None, st') \<Longrightarrow> ds_db st' = ds_db st"
  by (auto simp: site_release_def cookie_guard_def site_session_owner_def
      split: prod.splits sum.splits option.splits if_splits bool.splits)

lemma public_limit_db: "public_limit env st q site clock = (answer, st') \<Longrightarrow> ds_db st' = ds_db st"
  by (auto simp: public_limit_def split: prod.splits)

lemma public_limit_refuses: "public_limit env st q site clock = (Some v, st') \<Longrightarrow> v = Limited (pb_retry_after (ds_public st'))"
  by (auto simp: public_limit_def split: prod.splits if_splits)

lemma owner_route_serves: "owner_route env q site p = Serves service who site' \<Longrightarrow> who = Some p \<and> site' = site"
  by (auto simp: owner_route_def Let_def split: list.splits if_splits)

lemma site_origin_serves:
  assumes "site_origin env st q site capability clock = (Serves service who site', st')" and "db_ok (ds_db st)"
  shows "site' = site
    \<and> (who = None \<and> (is_content (hq_path q) \<or> dy_is_public env capability) \<and> dy_site_id env site
         \<and> (\<exists>reader. effective env (ds_db st) reader site capability)
       \<or> (\<exists>p. who = Some p \<and> is_site_owner_of env (ds_db st) q site clock p
            \<and> effective env (ds_db st) p site capability))"
proof (cases "is_content (hq_path q)")
  case True
  then obtain st1 where l: "public_limit env st q site clock = (None, st1)"
    and p: "public_capability env (ds_db st1) site capability = Inr True" and "who = None" "site' = site"
    using assms(1)
    by (auto simp: site_origin_def content_route_def dest: public_limit_refuses
        split: if_splits prod.splits option.splits sum.splits bool.splits)
  with public_capability_True [OF p] public_limit_db [OF l] True show ?thesis by simp
next
  case content: False
  show ?thesis
  proof (cases "dy_is_public env capability")
    case True
    with content obtain st1 where l: "public_limit env st q site clock = (None, st1)"
      and p: "public_capability env (ds_db st1) site capability = Inr True" and "who = None" "site' = site"
      using assms(1)
      by (auto simp: site_origin_def dest: public_limit_refuses
          split: if_splits prod.splits option.splits sum.splits bool.splits)
    with public_capability_True [OF p] public_limit_db [OF l] True show ?thesis by simp
  next
    case False
    with content obtain p st1 u where c: "cookie_guard env st q site clock = (Inr (Some p), st1)"
      and granted: "require_capability env (ds_db st1) p site capability = Inr u"
      and served: "owner_route env q site p = Serves service who site'"
      using assms(1) by (auto simp: site_origin_def split: if_splits prod.splits option.splits sum.splits)
    have "effective env (ds_db st) p site capability"
      using require_capability_Inr [OF granted] effective_cong [OF cookie_guard_Inr(2) [OF c assms(2)]] by simp
    with cookie_guard_Inr(1) [OF c assms(2)] owner_route_serves [OF served] show ?thesis by auto
  qed
qed

text \<open>
  C1: nothing under \<^verbatim>\<open>/v1/sites\<close> is served to anyone its class does not admit. A request that is served has
  one row of the table and names, after its dots and escapes are resolved, the site its guard was asked about;
  a management route serves the owner of the deployment in a session no device opened; a release, the
  owner or a site session of that site whose effective set has \<open>notes.edit\<close>; a deploy, the owner or the
  active deployer device paired for that site; a route of the site itself, a site session of that site
  whose effective set has the route's capability, or anyone when the capability is a public one
  the approved site has.
\<close>

theorem dispatch_serves_whom_the_class_admits:
  assumes "db_ok (ds_db st)" and "dispatch env st q clock = (Serves service who site, st')"
  shows "\<exists>r. classify_site (hq_method q) (hq_path q) = Inr (site, r) \<and> (site = [] \<or> names_site (hq_path q) site)
    \<and> (case sw_class r of
         None \<Rightarrow> False
       | Some Management \<Rightarrow> (\<exists>p. who = Some p \<and> is_owner env (ds_db st) q clock p)
       | Some Release \<Rightarrow> service = Build_release \<and> (\<exists>p. who = Some p \<and> (is_owner env (ds_db st) q clock p
            \<or> is_site_owner_of env (ds_db st) q site clock p \<and> effective env (ds_db st) p site notes_edit))
       | Some Deploy \<Rightarrow> service = Proxy \<and> (\<exists>p. who = Some p \<and> (is_owner env (ds_db st) q clock p
            \<or> is_deployer_of env (ds_db st) q site clock p))
       | Some SignIn \<Rightarrow> service = Open_site_session \<and> who = None
       | Some SiteOrigin \<Rightarrow> (\<exists>capability. sw_capability r = Some capability
            \<and> (who = None \<and> (is_content (hq_path q) \<or> dy_is_public env capability) \<and> dy_site_id env site
                 \<and> (\<exists>reader. effective env (ds_db st) reader site capability)
               \<or> (\<exists>p. who = Some p \<and> is_site_owner_of env (ds_db st) q site clock p
                    \<and> effective env (ds_db st) p site capability))))"
proof -
  obtain site' r where row: "classify_site (hq_method q) (hq_path q) = Inr (site', r)"
    using assms(2) by (auto simp: dispatch_def split: sum.splits)
  obtain cl where cl: "sw_class r = Some cl" using assms(2) by (auto simp: dispatch_def row split: option.splits)
  have named: "site' = [] \<or> names_site (hq_path q) site'"
    using assms(2) by (auto simp: dispatch_def row cl split: if_splits)
  note run = assms(2) [unfolded dispatch_def row cl sum.case prod.case option.case]
  show ?thesis
  proof (cases cl)
    case Management
    with run named have "managed env st q site' cl clock = (Serves service who site, st')" by auto
    from managed_serves(1,2) [OF this assms(1)] row named cl Management show ?thesis by auto
  next
    case SiteOrigin
    then obtain capability where c: "sw_capability r = Some capability"
      and served: "site_origin env st q site' capability clock = (Serves service who site, st')"
      using run named by (auto split: option.splits)
    from site_origin_serves [OF served assms(1)] row named cl SiteOrigin c show ?thesis by auto
  next
    case SignIn
    with run named have "service = Open_site_session \<and> who = None \<and> site = site'"
      by (auto dest: public_limit_refuses split: prod.splits option.splits)
    with row named cl SignIn show ?thesis by auto
  next
    case Deploy
    then obtain p where g: "deployer_guard env st q site' clock = (Inr p, st')" and "who = Some p" "service = Proxy" "site = site'"
      using run named by (auto split: prod.splits sum.splits if_splits)
    with deployer_guard_Inr [OF g assms(1)] row named cl Deploy show ?thesis by auto
  next
    case Release
    show ?thesis
    proof (cases "\<exists>answer st1. header_value q ''authorization'' = None \<and> site_release env st q site' clock = (Some answer, st1)")
      case True
      with run named Release have "site_release env st q site' clock = (Some (Serves service who site), st')" by auto
      from site_release_serves [OF this assms(1)] row named cl Release show ?thesis by auto
    next
      case False
      then obtain st1 where m: "managed env st1 q site' Release clock = (Serves service who site, st')"
        and same: "ds_db st1 = ds_db st"
        using run named Release site_release_none [of env st q site' clock]
        by (auto split: if_splits prod.splits option.splits)
      have ok: "db_ok (ds_db st1)" using same assms(1) by simp
      from managed_serves [OF m ok] same row named cl Release show ?thesis by auto
    qed
  qed
qed

subsection \<open>A concrete request\<close>

definition example_dispatch_env :: dispatch_env where
  "example_dispatch_env = \<lparr>dy_auth = example_auth_env, dy_uuid_v5 = (\<lambda>n s. n), dy_parse_ip = Some, dy_gateway_peer = ''g'',
     dy_is_public = (\<lambda>c. c = ''pages.read''), dy_site_id = (\<lambda>_. True), dy_active = (\<lambda>_ _. Some [''notes.edit'']),
     dy_query_chars = (\<lambda>_. None)\<rparr>"

definition example_door :: door_state where
  "example_door = \<lparr>ds_db = site_example, ds_actors = new_limiter 60, ds_public = default_public_limits\<rparr>"

definition example_list_request :: http_request where
  "example_list_request = \<lparr>hq_method = ''GET'', hq_path = ''/v1/sites'', hq_query = None,
     hq_headers = [(''authorization'', ''Bearer cc'')], hq_peer = None, hq_body = [], hq_body_size = Some 0\<rparr>"

definition example_verdict :: "verdict \<times> door_state" where
  "example_verdict = dispatch example_dispatch_env example_door example_list_request (\<lambda>_. 100)"

theorem dispatch_serves_whom_the_class_admits_witness:
  "\<exists>p st'. example_verdict = (Serves Proxy (Some p) [], st')
     \<and> is_owner example_dispatch_env site_example example_list_request (\<lambda>_. 100) p"
proof -
  have made: "case example_verdict of (Serves Proxy (Some _) [], _) \<Rightarrow> True | _ \<Rightarrow> False" by code_simp
  obtain answer st' where run: "example_verdict = (answer, st')" by fastforce
  obtain p where p: "answer = Serves Proxy (Some p) []"
    using made unfolding run prod.case by (auto split: verdict.splits service.splits option.splits list.splits)
  have row: "classify_site ''GET'' ''/v1/sites'' = Inr ([], hd routes)" "sw_class (hd routes) = Some Management"
    by (simp_all add: classify_site_def strip_prefix_def nth_segment_def row_holds_def routes_def starts_with_def)
  have ok: "db_ok (ds_db example_door)" by (simp add: example_door_def site_example_ok)
  obtain p' where "Some p = Some p'" "is_owner example_dispatch_env (ds_db example_door) example_list_request (\<lambda>_. 100) p'"
    using dispatch_serves_whom_the_class_admits [OF ok run [unfolded p example_verdict_def]] row
    by (auto simp: example_list_request_def)
  with run p show ?thesis by (auto simp: example_door_def)
qed

end
