(* ===== verification/Settings.thy ===== *)
theory Settings
  imports Identity
begin

text \<open>
  The configuration tree of \<^verbatim>\<open>crates/core/src/config/model.rs\<close>, its built-in defaults
  (\<open>PlatformConfig::defaults\<close> of \<^verbatim>\<open>config/mod.rs\<close>) and the three roles of \<^verbatim>\<open>crates/core/src/role.rs\<close>.
  Sizes and times are \<open>u64\<close> or \<open>u32\<close> words. A URL is what its accessors answer, since the parser is
  not under \<open>src/\<close>; the map of gateway routes and of exporter headers is its list in key order.
\<close>

subsection \<open>Roles\<close>

datatype runtime_role = EdgeRole | IngestRole | SchedulerRole

fun role_str :: "runtime_role \<Rightarrow> string" where
  "role_str EdgeRole = ''edge''"
| "role_str IngestRole = ''ingest''"
| "role_str SchedulerRole = ''scheduler''"

fun binary_name :: "runtime_role \<Rightarrow> string" where
  "binary_name EdgeRole = ''ratatoskr-edge''"
| "binary_name IngestRole = ''ratatoskr-ingest''"
| "binary_name SchedulerRole = ''ratatoskr-scheduler''"

definition may_have_public_listener :: "runtime_role \<Rightarrow> bool" where
  "may_have_public_listener r \<longleftrightarrow> r = EdgeRole \<or> r = IngestRole"

fun default_admin_port :: "runtime_role \<Rightarrow> 16 word" where
  "default_admin_port EdgeRole = 9464"
| "default_admin_port IngestRole = 9465"
| "default_admin_port SchedulerRole = 9466"

fun default_public_port :: "runtime_role \<Rightarrow> 16 word option" where
  "default_public_port EdgeRole = Some 8080"
| "default_public_port IngestRole = None"
| "default_public_port SchedulerRole = None"

subsection \<open>Addresses\<close>

datatype ip_addr = IPv4 "8 word \<times> 8 word \<times> 8 word \<times> 8 word" | IPv6 "128 word"

fun is_loopback :: "ip_addr \<Rightarrow> bool" where
  "is_loopback (IPv4 (a, _)) = (a = 127)"
| "is_loopback (IPv6 w) = (w = 1)"

definition localhost :: ip_addr where
  "localhost = IPv4 (127, 0, 0, 1)"

text \<open>The flow label and the scope of an IPv6 socket address are \<open>(0, 0)\<close> in an IPv4 one.\<close>

record socket_addr =
  sk_ip :: ip_addr
  sk_port :: "16 word"
  sk_scope :: "32 word \<times> 32 word"

definition socket_new :: "ip_addr \<Rightarrow> 16 word \<Rightarrow> socket_addr" where
  "socket_new ip port = \<lparr>sk_ip = ip, sk_port = port, sk_scope = (0, 0)\<rparr>"

record url =
  ur_scheme :: string
  ur_has_host :: bool
  ur_username :: string
  ur_password :: "string option"
  ur_query :: "string option"

subsection \<open>Listeners and the gateway\<close>

record public_config =
  pub_bind :: socket_addr
  pub_request_timeout_seconds :: "64 word"
  pub_max_body_bytes :: "64 word"
  pub_max_concurrent_requests :: "32 word"
  pub_actor_requests_per_minute :: "32 word"

datatype route_class = ControlClass | StreamClass | TransferClass

record route_budget =
  bd_max_body_bytes :: "64 word"
  bd_response_timeout_seconds :: "64 word"

record route_budgets =
  gbs_control :: route_budget
  gbs_stream :: route_budget
  gbs_transfer :: route_budget

fun for_class :: "route_budgets \<Rightarrow> route_class \<Rightarrow> route_budget" where
  "for_class b ControlClass = gbs_control b"
| "for_class b StreamClass = gbs_stream b"
| "for_class b TransferClass = gbs_transfer b"

record gateway_route =
  gw_prefix :: string
  gw_listener :: socket_addr
  gw_class :: "route_class option"
  gw_capabilities_path :: string
  gw_archive_receipt_path :: string

record gateway_config =
  gc_routes :: "(string \<times> gateway_route) list"
  gc_budgets :: route_budgets

definition gateway_transfer_paths :: "(string \<times> string \<times> 64 word option) list" where
  "gateway_transfer_paths =
     [(''notes'', ''/connections/{connection}/blobs'', None),
      (''notes'', ''/connections/{connection}/blobs/{token}/chunks/{index}'', Some (16 * 1024 * 1024)),
      (''notes'', ''/connections/{connection}/changes'', Some (2 * 1024 * 1024)),
      (''notes'', ''/connections/{connection}/manifest'', Some (32 * 1024 * 1024)),
      (''sites'', ''/{site}/deploys'', Some 1048576),
      (''sites'', ''/{site}/drafts/sources/{source_ref}/blobs'', None)]"

definition default_control_budget :: route_budget where
  "default_control_budget = \<lparr>bd_max_body_bytes = 1048576, bd_response_timeout_seconds = 15\<rparr>"

definition default_stream_budget :: route_budget where
  "default_stream_budget = \<lparr>bd_max_body_bytes = 1048576, bd_response_timeout_seconds = 300\<rparr>"

definition default_transfer_budget :: route_budget where
  "default_transfer_budget = \<lparr>bd_max_body_bytes = 104857600, bd_response_timeout_seconds = 300\<rparr>"

definition default_budgets :: route_budgets where
  "default_budgets = \<lparr>gbs_control = default_control_budget, gbs_stream = default_stream_budget,
     gbs_transfer = default_transfer_budget\<rparr>"

subsection \<open>The other sections\<close>

record archive_staging =
  stg_root :: string
  stg_max_archive_bytes :: "64 word"
  stg_sweep_interval_seconds :: "64 word"

record channel_digests =
  cdg_listener :: socket_addr
  cdg_service_secret :: string

record database_config =
  dbc_url :: string
  dbc_max_connections :: "32 word"
  dbc_acquire_timeout_seconds :: "64 word"

record bus_config =
  bsc_url :: url
  bsc_nkey_seed_path :: "string option"

record identity_config =
  idc_assertion_key :: "string option"
  idc_oauth_completion_url :: "url option"

record retention_config =
  rtn_inbox_days :: "64 word"
  rtn_outbox_days :: "64 word"
  rtn_audit_days :: "64 word"
  rtn_schedule_occurrence_days :: "64 word"

record shutdown_config =
  shd_drain_seconds :: "64 word"
  shd_grace_seconds :: "64 word"

datatype log_format = JsonLines | Pretty

record otlp_config =
  ot_endpoint :: url
  ot_timeout_seconds :: "64 word"
  ot_headers :: "(string \<times> string) list"

record telemetry_config =
  tel_log_format :: log_format
  tel_log_filter :: string
  tel_otlp :: "otlp_config option"

text \<open>How long the event stream keeps a message, in days.\<close>

definition event_retention_days :: "64 word" where
  "event_retention_days = 7"

definition default_sites_gateway_peer :: ip_addr where
  "default_sites_gateway_peer = IPv4 (127, 0, 0, 83)"

definition default_stale_after_seconds :: "64 word" where
  "default_stale_after_seconds = 86400"

definition default_max_archive_bytes :: "64 word" where
  "default_max_archive_bytes = 2147483648"

definition default_actor_requests_per_minute :: "32 word" where
  "default_actor_requests_per_minute = 120"

definition default_log_filter :: string where
  "default_log_filter = ''info,tower_http=info,hyper=warn,h2=warn''"

record platform_config =
  cf_admin_bind :: socket_addr
  cf_public :: "public_config option"
  cf_gateway :: gateway_config
  cf_archive_staging :: archive_staging
  cf_channel_digests :: "channel_digests option"
  cf_database :: "database_config option"
  cf_bus :: "bus_config option"
  cf_identity :: identity_config
  cf_retention :: retention_config
  cf_stale_after_seconds :: "64 word"
  cf_allowed_registrars :: "string list"
  cf_gateway_peer :: ip_addr
  cf_shutdown :: shutdown_config
  cf_telemetry :: telemetry_config

definition default_staging :: archive_staging where
  "default_staging = \<lparr>stg_root = ''/tmp/ratatoskr-platform-ai-archive-staging'',
     stg_max_archive_bytes = default_max_archive_bytes, stg_sweep_interval_seconds = 300\<rparr>"

definition default_retention :: retention_config where
  "default_retention = \<lparr>rtn_inbox_days = 30, rtn_outbox_days = 30, rtn_audit_days = 365,
     rtn_schedule_occurrence_days = 90\<rparr>"

definition default_public :: "16 word \<Rightarrow> public_config" where
  "default_public port = \<lparr>pub_bind = socket_new localhost port, pub_request_timeout_seconds = 15,
     pub_max_body_bytes = 1048576, pub_max_concurrent_requests = 64,
     pub_actor_requests_per_minute = default_actor_requests_per_minute\<rparr>"

definition config_defaults :: "runtime_role \<Rightarrow> platform_config" where
  "config_defaults role =
     \<lparr>cf_admin_bind = socket_new localhost (default_admin_port role),
      cf_public = map_option default_public (default_public_port role),
      cf_gateway = \<lparr>gc_routes = [], gc_budgets = default_budgets\<rparr>,
      cf_archive_staging = default_staging, cf_channel_digests = None, cf_database = None, cf_bus = None,
      cf_identity = \<lparr>idc_assertion_key = None, idc_oauth_completion_url = None\<rparr>,
      cf_retention = default_retention, cf_stale_after_seconds = default_stale_after_seconds,
      cf_allowed_registrars = [], cf_gateway_peer = default_sites_gateway_peer,
      cf_shutdown = \<lparr>shd_drain_seconds = 5, shd_grace_seconds = 25\<rparr>,
      cf_telemetry = \<lparr>tel_log_format = JsonLines, tel_log_filter = default_log_filter, tel_otlp = None\<rparr>\<rparr>"

lemmas default_settings = config_defaults_def default_public_def default_retention_def default_staging_def
  default_budgets_def default_control_budget_def default_stream_budget_def default_transfer_budget_def
  default_log_filter_def default_actor_requests_per_minute_def default_max_archive_bytes_def
  default_stale_after_seconds_def default_sites_gateway_peer_def socket_new_def localhost_def

end
