(* ===== verification/Startup_Rules.thy ===== *)
theory Startup_Rules
  imports Settings Scheduling
begin

text \<open>
  The startup rules of \<^verbatim>\<open>crates/core/src/config/validate.rs\<close> and \<^verbatim>\<open>validate/sites.rs\<close>, the report of their
  violations, and \<open>load_from\<close> of \<^verbatim>\<open>config/mod.rs\<close>. A rule is its condition with the violation that its
  failure pushes; a group of rules is the list of them in source order. What the parsers of other crates
  and the file system answer is a parameter.
\<close>

record violation =
  vl_key :: string
  vl_env_var :: string
  vl_rule :: string

abbreviation violated :: "string \<Rightarrow> string \<Rightarrow> string \<Rightarrow> violation" where
  "violated key env_var rule \<equiv> \<lparr>vl_key = key, vl_env_var = env_var, vl_rule = rule\<rparr>"

type_synonym rules = "(bool \<times> violation) list"

definition failing :: "rules \<Rightarrow> violation list" where
  "failing rs = map snd (filter (\<lambda>(ok, _). \<not> ok) rs)"

record startup_env =
  cv_env_filter :: "string \<Rightarrow> bool"
  cv_base64 :: "string \<Rightarrow> 8 word list option"
  cv_readable :: "string \<Rightarrow> bool"

definition to_ascii_uppercase :: "char \<Rightarrow> char" where
  "to_ascii_uppercase c = (if is_ascii_lowercase c then char_of (byte c - 32) else c)"

definition within :: "'a::ord \<Rightarrow> 'a \<Rightarrow> 'a \<Rightarrow> bool" where
  "within lo hi x \<longleftrightarrow> lo \<le> x \<and> x \<le> hi"

text \<open>\<open>u64::saturating_add\<close>.\<close>

definition saturating_add :: "64 word \<Rightarrow> 64 word \<Rightarrow> 64 word" where
  "saturating_add a b = (if a + b < a then - 1 else a + b)"

definition path_is_absolute :: "string \<Rightarrow> bool" where
  "path_is_absolute p = starts_with ''/'' p"

definition web_url :: "url \<Rightarrow> bool" where
  "web_url u \<longleftrightarrow> (ur_scheme u = ''http'' \<or> ur_scheme u = ''https'') \<and> ur_has_host u"

subsection \<open>Listeners, telemetry and shutdown\<close>

fun forbidden_public_listener :: "runtime_role \<Rightarrow> string" where
  "forbidden_public_listener EdgeRole = ''the edge role must not open a public listener (ARCHITECTURE.md S18)''"
| "forbidden_public_listener IngestRole = ''the ingest role must not open a public listener (ARCHITECTURE.md S9)''"
| "forbidden_public_listener SchedulerRole =
     ''the scheduler role must not open a public listener (ARCHITECTURE.md S18)''"

fun required_public_listener :: "runtime_role \<Rightarrow> string" where
  "required_public_listener EdgeRole = ''the edge role requires a public listener (ARCHITECTURE.md S18)''"
| "required_public_listener IngestRole =
     ''the ingest role requires a public listener; a webhook source reaches it from outside (ARCHITECTURE.md S9)''"
| "required_public_listener SchedulerRole =
     ''the scheduler role must not open a public listener (ARCHITECTURE.md S18)''"

definition public_bind_violation :: "string \<Rightarrow> violation" where
  "public_bind_violation rule = violated ''public.bind'' ''RATATOSKR__PUBLIC__BIND'' rule"

definition listener_rules :: "runtime_role \<Rightarrow> platform_config \<Rightarrow> rules" where
  "listener_rules role c =
     [(\<not> (may_have_public_listener role \<and> cf_public c = None),
       public_bind_violation (required_public_listener role)),
      (\<not> (\<not> may_have_public_listener role \<and> cf_public c \<noteq> None),
       public_bind_violation (forbidden_public_listener role))]"

definition public_rules :: "socket_addr \<Rightarrow> public_config \<Rightarrow> rules" where
  "public_rules admin p =
     [(pub_bind p \<noteq> admin, public_bind_violation
        ''must not equal admin.bind; the operator plane and the public surface are separate listeners (AGENTS.md)''),
      (within 1 300 (pub_request_timeout_seconds p), violated ''public.request_timeout_seconds''
        ''RATATOSKR__PUBLIC__REQUEST_TIMEOUT_SECONDS'' ''must be 1..=300 (ARCHITECTURE.md S5.2)''),
      (within 1024 104857600 (pub_max_body_bytes p), violated ''public.max_body_bytes''
        ''RATATOSKR__PUBLIC__MAX_BODY_BYTES'' ''must be 1024..=104857600 (ARCHITECTURE.md S14)'')]"

definition shutdown_ceiling_seconds :: "64 word" where
  "shutdown_ceiling_seconds = 120"

definition process_rules :: "startup_env \<Rightarrow> platform_config \<Rightarrow> rules" where
  "process_rules env c =
     (let drain = shd_drain_seconds (cf_shutdown c); grace = shd_grace_seconds (cf_shutdown c)
      in [(cv_env_filter env (tel_log_filter (cf_telemetry c)), violated ''telemetry.log_filter''
             ''RATATOSKR__TELEMETRY__LOG_FILTER''
             ''must parse as a tracing-subscriber EnvFilter directive string, e.g. info,tower_http=info''),
          (drain \<le> 60, violated ''shutdown.drain_seconds'' ''RATATOSKR__SHUTDOWN__DRAIN_SECONDS''
             ''must be 0..=60, and drain_seconds + grace_seconds must not exceed 120''),
          (within 1 shutdown_ceiling_seconds grace \<and> saturating_add drain grace \<le> shutdown_ceiling_seconds,
             violated ''shutdown.grace_seconds'' ''RATATOSKR__SHUTDOWN__GRACE_SECONDS''
             ''must be 1..=120, and drain_seconds + grace_seconds must not exceed 120'')])"

text \<open>The class \<^verbatim>\<open>^[a-z0-9-]{1,64}$\<close>.\<close>

definition is_header_name :: "string \<Rightarrow> bool" where
  "is_header_name name \<longleftrightarrow> within 1 64 (length name)
     \<and> list_all (\<lambda>b. is_ascii_lowercase b \<or> is_ascii_digit b \<or> b = CHR ''-'') name"

definition otlp_rules :: "otlp_config \<Rightarrow> rules" where
  "otlp_rules t =
     [(web_url (ot_endpoint t), violated ''telemetry.otlp.endpoint'' ''RATATOSKR__TELEMETRY__OTLP__ENDPOINT''
        ''must be an http or https URL with a host''),
      (within 1 60 (ot_timeout_seconds t), violated ''telemetry.otlp.timeout_seconds''
        ''RATATOSKR__TELEMETRY__OTLP__TIMEOUT_SECONDS'' ''must be 1..=60''),
      (list_all is_header_name (map fst (ot_headers t)), violated ''telemetry.otlp.headers''
        ''RATATOSKR__TELEMETRY__OTLP__HEADERS__<NAME>'' ''every header name must match ^[a-z0-9-]{1,64}$''),
      (ur_username (ot_endpoint t) = [] \<and> ur_password (ot_endpoint t) = None \<and> ur_query (ot_endpoint t) = None,
        violated ''telemetry.otlp.endpoint'' ''RATATOSKR__TELEMETRY__OTLP__ENDPOINT''
        ''must not embed a user name, a password or a query string; a collector credential belongs in telemetry.otlp.headers, which cannot be printed (SECURITY.md)'')]"

subsection \<open>Dependencies\<close>

definition database_rules :: "database_config \<Rightarrow> rules" where
  "database_rules b =
     [(within 1 100 (dbc_max_connections b), violated ''database.max_connections''
        ''RATATOSKR__DATABASE__MAX_CONNECTIONS'' ''must be 1..=100''),
      (within 1 30 (dbc_acquire_timeout_seconds b), violated ''database.acquire_timeout_seconds''
        ''RATATOSKR__DATABASE__ACQUIRE_TIMEOUT_SECONDS'' ''must be 1..=30''),
      (starts_with ''postgres://'' (dbc_url b) \<or> starts_with ''postgresql://'' (dbc_url b),
        violated ''database.url'' ''RATATOSKR__DATABASE__URL'' ''must be a postgres:// or postgresql:// URL'')]"

definition seed_rules :: "startup_env \<Rightarrow> string \<Rightarrow> rules" where
  "seed_rules env path =
     (if \<not> path_is_absolute path
      then [(False, violated ''bus.nkey_seed_path'' ''RATATOSKR__BUS__NKEY_SEED_PATH''
               ''must be an absolute path; a relative one resolves against the unit's working directory'')]
      else [(cv_readable env path, violated ''bus.nkey_seed_path'' ''RATATOSKR__BUS__NKEY_SEED_PATH''
               ''must name a file this process can READ, holding its NATS nkey seed; a permission failure here is usually the unit's Group= (deploy/nats/README.md)'')])"

definition bus_rules :: "startup_env \<Rightarrow> bus_config \<Rightarrow> rules" where
  "bus_rules env b =
     [(ur_scheme (bsc_url b) \<in> {''nats'', ''tls'', ''ws'', ''wss''}, violated ''bus.url'' ''RATATOSKR__BUS__URL''
        ''must be a nats://, tls://, ws:// or wss:// URL''),
      (ur_username (bsc_url b) = [] \<and> ur_password (bsc_url b) = None, violated ''bus.url'' ''RATATOSKR__BUS__URL''
        ''must not embed a user name or a password; a bus credential belongs in a credentials file read by path (SECURITY.md)'')]
     @ (case bsc_nkey_seed_path b of None \<Rightarrow> [] | Some path \<Rightarrow> seed_rules env path)"

definition identity_rules :: "startup_env \<Rightarrow> identity_config \<Rightarrow> rules" where
  "identity_rules env i =
     [(case idc_assertion_key i of None \<Rightarrow> True
       | Some key \<Rightarrow> (case cv_base64 env key of None \<Rightarrow> False | Some bytes \<Rightarrow> length bytes = 32),
        violated ''identity.assertion_key'' ''RATATOSKR__IDENTITY__ASSERTION_KEY''
        ''must be a base64 Ed25519 PUBLIC key decoding to exactly 32 bytes (ADR-0011)''),
      (case idc_oauth_completion_url i of None \<Rightarrow> True | Some u \<Rightarrow> web_url u,
        violated ''identity.oauth_completion_url'' ''RATATOSKR__IDENTITY__OAUTH_COMPLETION_URL''
        ''must be an http or https URL with a host; a browser is redirected to it'')]"

definition retention_rules :: "retention_config \<Rightarrow> rules" where
  "retention_rules r =
     [(event_retention_days \<le> rtn_inbox_days r, violated ''retention.inbox_days'' ''RATATOSKR__RETENTION__INBOX_DAYS''
        ''must be at least as long as the event stream keeps a message, or the inbox forgets a message the bus can still redeliver'')]"

definition limit_rules :: "public_config \<Rightarrow> rules" where
  "limit_rules p =
     [(within 1 4096 (pub_max_concurrent_requests p), violated ''public.max_concurrent_requests''
        ''RATATOSKR__PUBLIC__MAX_CONCURRENT_REQUESTS''
        ''must be 1..=4096; zero refuses every request rather than disabling the limit''),
      (within 1 100000 (pub_actor_requests_per_minute p), violated ''public.actor_requests_per_minute''
        ''RATATOSKR__PUBLIC__ACTOR_REQUESTS_PER_MINUTE''
        ''must be 1..=100000; zero refuses every request rather than disabling the limit'')]"

definition operations_rules :: "64 word \<Rightarrow> rules" where
  "operations_rules stale_after =
     [(within 3600 2592000 stale_after, violated ''operations.stale_after_seconds''
        ''RATATOSKR__OPERATIONS__STALE_AFTER_SECONDS''
        ''must be 3600..=2592000; zero harvests every unterminated operation rather than disabling the reaper'')]"

definition staging_rules :: "archive_staging \<Rightarrow> rules" where
  "staging_rules s =
     [(path_is_absolute (stg_root s), violated ''archive_staging.root'' ''RATATOSKR__ARCHIVE_STAGING__ROOT''
        ''must be an absolute private directory so staging never depends on process cwd''),
      (within 1048576 10737418240 (stg_max_archive_bytes s), violated ''archive_staging.max_archive_bytes''
        ''RATATOSKR__ARCHIVE_STAGING__MAX_ARCHIVE_BYTES''
        ''must be 1048576..=10737418240 bytes (V21); staging needs about twice this much free space per in-flight archive''),
      (within 30 3600 (stg_sweep_interval_seconds s), violated ''archive_staging.sweep_interval_seconds''
        ''RATATOSKR__ARCHIVE_STAGING__SWEEP_INTERVAL_SECONDS''
        ''must be 30..=3600 seconds (V23); the staging reaper runs this often'')]"

definition digests_rules :: "runtime_role \<Rightarrow> channel_digests \<Rightarrow> rules" where
  "digests_rules role d =
     [(role = EdgeRole, violated ''channel_digests'' ''RATATOSKR__CHANNEL_DIGESTS__LISTENER''
        ''may be configured only for ratatoskr-edge; no other role reads digests (V22)''),
      (is_loopback (sk_ip (cdg_listener d)) \<and> sk_port (cdg_listener d) = 8098, violated ''channel_digests.listener''
        ''RATATOSKR__CHANNEL_DIGESTS__LISTENER''
        ''must be a loopback address on port 8098, the channel-digests API (V22)''),
      (\<not> (length (cdg_service_secret d) = 0 \<or> 4096 < length (cdg_service_secret d)),
        violated ''channel_digests.service_secret'' ''RATATOSKR__CHANNEL_DIGESTS__SERVICE_SECRET''
        ''must be 1..=4096 bytes and set together with the listener (V22)'')]"

definition peer_rules :: "ip_addr \<Rightarrow> rules" where
  "peer_rules peer =
     [(is_loopback peer \<and> peer \<noteq> localhost, violated ''sites.gateway_peer'' ''RATATOSKR__SITES__GATEWAY_PEER''
        ''must be a loopback address other than 127.0.0.1, the source of cloudflared (V24)'')]"

subsection \<open>The gateway\<close>

definition gateway_services :: "(string \<times> string \<times> 16 word) list" where
  "gateway_services =
     [(''knowledge'', ''/v1/k'', 8091), (''github'', ''/v1/gh'', 8092), (''vault'', ''/v1/vault'', 8093),
      (''social'', ''/v1/social'', 8094), (''ai'', ''/v1/ai'', 8095), (''chatgpt'', ''/v1/chatgpt'', 8096),
      (''claude'', ''/v1/claude'', 8097), (''notes'', ''/v1/notes'', 8099), (''sites'', ''/v1/sites'', 8100)]"

definition gateway_service :: "string \<Rightarrow> (string \<times> 16 word) option" where
  "gateway_service = map_of gateway_services"

definition route_violation :: "string option \<Rightarrow> string \<Rightarrow> string \<Rightarrow> violation" where
  "route_violation route field rule =
     (case route of
        Some name \<Rightarrow> violated (''gateway.routes.'' @ name @ ''.'' @ field)
          (''RATATOSKR__GATEWAY__ROUTES__'' @ map to_ascii_uppercase name @ ''__'' @ map to_ascii_uppercase field) rule
      | None \<Rightarrow> violated (''gateway.routes.'' @ field) ''RATATOSKR__GATEWAY__ROUTES'' rule)"

definition budget_rules :: "route_budgets \<Rightarrow> rules" where
  "budget_rules bs = concat (map (\<lambda>(key, env_var, b).
     [(within 1024 104857600 (bd_max_body_bytes b),
         violated key env_var ''must be 1024..=104857600 for every gateway route class''),
      (within 1 300 (bd_response_timeout_seconds b),
         violated key env_var ''must be 1..=300 for every gateway route class'')])
     [(''gateway.budgets.control'', ''RATATOSKR__GATEWAY__BUDGETS__CONTROL'', gbs_control bs),
      (''gateway.budgets.stream'', ''RATATOSKR__GATEWAY__BUDGETS__STREAM'', gbs_stream bs),
      (''gateway.budgets.transfer'', ''RATATOSKR__GATEWAY__BUDGETS__TRANSFER'', gbs_transfer bs)])"

definition sub_path_limits :: "string \<Rightarrow> 64 word list" where
  "sub_path_limits service =
     List.map_filter (\<lambda>(_, _, limit). limit) (filter (\<lambda>(owner, _, _). owner = service) gateway_transfer_paths)"

definition largest_limit :: "string \<Rightarrow> 64 word option" where
  "largest_limit service = (case sub_path_limits service of [] \<Rightarrow> None | x # xs \<Rightarrow> Some (fold max xs x))"

text \<open>What a route may cost: its class, raised to the transfer budget when a sub-path of it carries bytes.\<close>

definition route_cost :: "route_budgets \<Rightarrow> string \<Rightarrow> route_class \<Rightarrow> route_budget" where
  "route_cost bs service cl =
     (let b = for_class bs cl; transfer = gbs_transfer bs
      in if list_ex (\<lambda>(owner, _, _). owner = service) gateway_transfer_paths
         then \<lparr>bd_max_body_bytes = max (bd_max_body_bytes b) (bd_max_body_bytes transfer),
               bd_response_timeout_seconds = max (bd_response_timeout_seconds b) (bd_response_timeout_seconds transfer)\<rparr>
         else b)"

definition cost_rules :: "public_config \<Rightarrow> route_budget \<Rightarrow> rules" where
  "cost_rules p b =
     [(bd_max_body_bytes b \<le> pub_max_body_bytes p, violated ''public.max_body_bytes''
        ''RATATOSKR__PUBLIC__MAX_BODY_BYTES'' ''must be at least the largest configured gateway route body budget''),
      (bd_response_timeout_seconds b \<le> pub_request_timeout_seconds p, violated ''public.request_timeout_seconds''
        ''RATATOSKR__PUBLIC__REQUEST_TIMEOUT_SECONDS''
        ''must be at least the largest configured gateway response-header budget'')]"

text \<open>\<open>taken\<close> holds the prefixes of the routes before this one.\<close>

definition route_rules :: "platform_config \<Rightarrow> string \<Rightarrow> gateway_route \<Rightarrow> string list \<Rightarrow> rules" where
  "route_rules c service r taken =
     (let known = gateway_service service; name = map_option (\<lambda>_. service) known; budgets = gc_budgets (cf_gateway c)
      in [(gw_prefix r \<notin> set taken, route_violation name ''prefix'' ''must be unique across the gateway route table''),
          (gw_class r \<noteq> None, route_violation name ''class''
             ''must select control, stream, or transfer so Edge can enforce a finite budget'')]
         @ (case known of
              None \<Rightarrow> [(False, route_violation None ''service''
                 ''must name one of knowledge, github, vault, social, ai, chatgpt, claude, notes, sites'')]
            | Some (prefix, port) \<Rightarrow>
                [(gw_prefix r = prefix, route_violation name ''prefix'' ''must be the service's unique canonical /v1 prefix''),
                 (is_loopback (sk_ip (gw_listener r)) \<and> sk_port (gw_listener r) = port, route_violation name ''listener''
                    ''must be the service's allocated loopback listener from DEPLOYMENT_TARGET.md''),
                 (gw_capabilities_path r = ''/v1/capabilities'', route_violation name ''capabilities_path''
                    ''must be /v1/capabilities so aggregation reads the service-owned document''),
                 (gw_archive_receipt_path r = ''/v1/ai-archives/receipt'', route_violation name ''archive_receipt_path''
                    ''must be /v1/ai-archives/receipt so archive delivery has one bounded service-owned path''),
                 (case largest_limit service of None \<Rightarrow> True
                    | Some limit \<Rightarrow> limit \<le> bd_max_body_bytes (gbs_transfer budgets),
                    violated ''gateway.budgets.transfer.max_body_bytes''
                      ''RATATOSKR__GATEWAY__BUDGETS__TRANSFER__MAX_BODY_BYTES''
                      ''must hold the largest body limit of a sub-path of a configured route'')]
                @ (case (cf_public c, gw_class r) of
                     (Some p, Some cl) \<Rightarrow> cost_rules p (route_cost budgets service cl)
                   | _ \<Rightarrow> [])))"

fun table_rules :: "platform_config \<Rightarrow> (string \<times> gateway_route) list \<Rightarrow> string list \<Rightarrow> rules" where
  "table_rules c [] taken = []"
| "table_rules c ((service, r) # rest) taken = route_rules c service r taken @ table_rules c rest (gw_prefix r # taken)"

definition configured :: "platform_config \<Rightarrow> string \<Rightarrow> bool" where
  "configured c service \<longleftrightarrow> service \<in> set (map fst (gc_routes (cf_gateway c)))"

definition gateway_rules :: "runtime_role \<Rightarrow> platform_config \<Rightarrow> rules" where
  "gateway_rules role c =
     [(\<not> (role \<noteq> EdgeRole \<and> gc_routes (cf_gateway c) \<noteq> []), violated ''gateway.routes'' ''RATATOSKR__GATEWAY__ROUTES''
        ''may be configured only for ratatoskr-edge; clients reach domain APIs through Edge'')]
     @ budget_rules (gc_budgets (cf_gateway c))
     @ [(configured c ''chatgpt'' = configured c ''claude'', violated ''gateway.routes.archive_receivers''
        ''RATATOSKR__GATEWAY__ROUTES''
        ''must configure both canonical ChatGPT and Claude archive receivers or neither'')]
     @ table_rules c (gc_routes (cf_gateway c)) []"

subsection \<open>Validation, its report and loading\<close>

definition optional_rules :: "('a \<Rightarrow> rules) \<Rightarrow> 'a option \<Rightarrow> rules" where
  "optional_rules f x = (case x of None \<Rightarrow> [] | Some a \<Rightarrow> f a)"

definition startup_rules :: "startup_env \<Rightarrow> runtime_role \<Rightarrow> platform_config \<Rightarrow> rules" where
  "startup_rules env role c =
     listener_rules role c
     @ optional_rules (public_rules (cf_admin_bind c)) (cf_public c)
     @ process_rules env c
     @ optional_rules otlp_rules (tel_otlp (cf_telemetry c))
     @ optional_rules database_rules (cf_database c)
     @ optional_rules (bus_rules env) (cf_bus c)
     @ identity_rules env (cf_identity c)
     @ retention_rules (cf_retention c)
     @ optional_rules limit_rules (cf_public c)
     @ operations_rules (cf_stale_after_seconds c)
     @ gateway_rules role c
     @ staging_rules (cf_archive_staging c)
     @ optional_rules (digests_rules role) (cf_channel_digests c)
     @ peer_rules (cf_gateway_peer c)"

definition validate :: "startup_env \<Rightarrow> runtime_role \<Rightarrow> platform_config \<Rightarrow> violation list" where
  "validate env role c = failing (startup_rules env role c)"

datatype 'e config_error = Source 'e | Invalid "violation list"

text \<open>\<open>extracted\<close> is what the provider stack yields.\<close>

definition load_from :: "startup_env \<Rightarrow> runtime_role \<Rightarrow> 'e + platform_config \<Rightarrow> 'e config_error + platform_config" where
  "load_from env role extracted =
     bindE (map_err Source extracted) (\<lambda>c.
       let violations = validate env role c in if violations = [] then Inr c else Inl (Invalid violations))"

definition exit_code :: "'e config_error \<Rightarrow> 8 word" where
  "exit_code e = 78"

abbreviation nl :: string where
  "nl \<equiv> [CHR 0x0A]"

definition footer :: "runtime_role \<Rightarrow> string" where
  "footer role = ''Supplied values are never echoed.'' @ nl @ ''Validate without starting: '' @ binary_name role
     @ '' check-config'' @ nl"

definition report_block :: "violation \<Rightarrow> string" where
  "report_block v = ''  '' @ vl_key v @ nl @ ''      '' @ vl_env_var v @ nl @ ''      '' @ vl_rule v @ nl @ nl"

definition report_invalid :: "runtime_role \<Rightarrow> violation list \<Rightarrow> string" where
  "report_invalid role vs =
     binary_name role @ '': refusing to start; '' @ digits_of (length vs) @ '' configuration problem''
     @ (if length vs = 1 then [] else ''s'') @ ''.'' @ nl @ nl @ concat (map report_block vs) @ footer role"

subsection \<open>What an accepted configuration guarantees\<close>

lemma failing_simps [simp]:
  "failing [] = []"
  "failing ((ok, v) # rs) = (if ok then failing rs else v # failing rs)"
  "failing (rs @ rs') = failing rs @ failing rs'"
  by (simp_all add: failing_def)

lemma failing_Nil: "failing rs = [] \<longleftrightarrow> list_all fst rs"
  by (auto simp: failing_def filter_empty_conv list_all_iff)

lemma set_failing: "set (failing rs) \<subseteq> set (map snd rs)"
  by (auto simp: failing_def)

lemma optional_rules_simps [simp]:
  "optional_rules f None = []" "optional_rules f (Some a) = f a"
  by (simp_all add: optional_rules_def)

lemma saturating_add_fits:
  assumes "saturating_add a b \<le> 120"
  shows "unat a + unat b \<le> 120"
proof -
  have "\<not> a + b < a"
    using assms word_order.extremum_unique [of "120 :: 64 word"] by (auto simp: saturating_add_def split: if_splits)
  then have "a \<le> a + b" and le: "a + b \<le> 120"
    using assms by (simp_all add: saturating_add_def)
  then have sum: "unat (a + b) = unat a + unat b"
    using no_olen_add_nat [of a b] unat_add_lem [of a b] by blast
  have "unat (a + b) \<le> unat (120 :: 64 word)" using le by (simp add: word_le_nat_alt)
  then show ?thesis using sum by simp
qed

lemma fold_max_ge: "x \<le> fold max xs (x :: 'a::linorder)" "y \<in> set xs \<Longrightarrow> y \<le> fold max xs x"
proof (induction xs arbitrary: x)
  case Nil
  { case 1 then show ?case by simp next case 2 then show ?case by simp }
next
  case (Cons z xs)
  { case 1
    have "max z x \<le> fold max xs (max z x)" by (rule Cons)
    then show ?case by simp
  next
    case 2
    have "max z x \<le> fold max xs (max z x)" by (rule Cons)
    then show ?case using 2 Cons(2) [of "max z x"] by auto }
qed

lemma largest_limit_ge:
  assumes "largest_limit service = Some m" and "(service, path, Some limit) \<in> set gateway_transfer_paths"
  shows "limit \<le> m"
proof -
  have "limit \<in> set (sub_path_limits service)"
    using assms(2) by (force simp: sub_path_limits_def map_filter_def)
  then show ?thesis
    using assms(1) fold_max_ge by (auto simp: largest_limit_def split: list.splits)
qed

lemma largest_limit_None:
  assumes "largest_limit service = None"
  shows "(service, path, Some limit) \<notin> set gateway_transfer_paths"
proof
  assume "(service, path, Some limit) \<in> set gateway_transfer_paths"
  then have "limit \<in> set (sub_path_limits service)" by (force simp: sub_path_limits_def map_filter_def)
  then show False using assms by (auto simp: largest_limit_def split: list.splits)
qed

lemma route_cost_ge:
  "bd_max_body_bytes (for_class bs cl) \<le> bd_max_body_bytes (route_cost bs s cl)"
  "bd_response_timeout_seconds (for_class bs cl) \<le> bd_response_timeout_seconds (route_cost bs s cl)"
  "(s, path, limit) \<in> set gateway_transfer_paths \<Longrightarrow>
     bd_max_body_bytes (gbs_transfer bs) \<le> bd_max_body_bytes (route_cost bs s cl)"
  by (auto simp: route_cost_def Let_def list_ex_iff)

text \<open>What the rules of one route check.\<close>

lemma route_rules_ok:
  assumes "list_all fst (route_rules c service r taken)"
  obtains prefix port cl where "gateway_service service = Some (prefix, port)" and "gw_prefix r = prefix"
    and "is_loopback (sk_ip (gw_listener r))" and "sk_port (gw_listener r) = port" and "gw_class r = Some cl"
    and "gw_prefix r \<notin> set taken"
    and "\<And>p. cf_public c = Some p \<Longrightarrow>
          bd_max_body_bytes (route_cost (gc_budgets (cf_gateway c)) service cl) \<le> pub_max_body_bytes p
          \<and> bd_response_timeout_seconds (route_cost (gc_budgets (cf_gateway c)) service cl) \<le> pub_request_timeout_seconds p"
    and "\<And>path limit. (service, path, Some limit) \<in> set gateway_transfer_paths \<Longrightarrow>
          limit \<le> bd_max_body_bytes (gbs_transfer (gc_budgets (cf_gateway c)))"
proof -
  obtain prefix port where known: "gateway_service service = Some (prefix, port)"
    using assms by (auto simp: route_rules_def Let_def split: option.splits)
  obtain cl where cl: "gw_class r = Some cl"
    using assms by (auto simp: route_rules_def Let_def split: option.splits)
  have largest: "case largest_limit service of None \<Rightarrow> True
      | Some limit \<Rightarrow> limit \<le> bd_max_body_bytes (gbs_transfer (gc_budgets (cf_gateway c)))"
    using assms by (simp add: route_rules_def Let_def known)
  have limit: "limit \<le> bd_max_body_bytes (gbs_transfer (gc_budgets (cf_gateway c)))"
    if "(service, path, Some limit) \<in> set gateway_transfer_paths" for path limit
    using largest largest_limit_None largest_limit_ge that by (force split: option.splits)
  have fields: "gw_prefix r = prefix" "is_loopback (sk_ip (gw_listener r))" "sk_port (gw_listener r) = port"
    "gw_prefix r \<notin> set taken"
    and cost: "list_all fst (case cf_public c of None \<Rightarrow> []
      | Some p \<Rightarrow> cost_rules p (route_cost (gc_budgets (cf_gateway c)) service cl))"
    using assms by (auto simp: route_rules_def Let_def known cl split: option.splits)
  show ?thesis
    by (rule that [OF known fields(1-3) cl fields(4) _ limit])
      (use cost in \<open>auto simp: cost_rules_def\<close>)
qed

lemma table_rules_ok:
  assumes "list_all fst (table_rules c rs taken)"
  shows "distinct (map (gw_prefix \<circ> snd) rs)" and "gw_prefix ` snd ` set rs \<inter> set taken = {}"
    and "(service, r) \<in> set rs \<Longrightarrow> \<exists>t. list_all fst (route_rules c service r t)"
  using assms
proof (induction rs arbitrary: taken)
  case (Cons x rs)
  obtain s r' where x: "x = (s, r')" by fastforce
  { case 1
    then show ?case using Cons(1,2) [of "gw_prefix r' # taken"] by (auto simp: x image_iff disjoint_iff)
  next
    case 2
    then have "gw_prefix r' \<notin> set taken" by (auto simp: x elim: route_rules_ok)
    then show ?case using 2 Cons(2) [of "gw_prefix r' # taken"] by (auto simp: x)
  next
    case 3
    then show ?case using Cons(3) [of "gw_prefix r' # taken"] by (auto simp: x)
  }
qed simp_all

text \<open>The rules of the table at one of its routes, when there is a public listener.\<close>

lemma table_route_ok:
  assumes "list_all fst (table_rules c rs [])" and "(s, r) \<in> set rs" and "cf_public c = Some p"
  shows "gateway_service s = Some (gw_prefix r, sk_port (gw_listener r)) \<and> is_loopback (sk_ip (gw_listener r))
      \<and> (\<exists>cl. gw_class r = Some cl
        \<and> bd_max_body_bytes (for_class (gc_budgets (cf_gateway c)) cl) \<le> pub_max_body_bytes p
        \<and> bd_response_timeout_seconds (for_class (gc_budgets (cf_gateway c)) cl) \<le> pub_request_timeout_seconds p
        \<and> (\<forall>path limit. (s, path, Some limit) \<in> set gateway_transfer_paths \<longrightarrow> limit \<le> pub_max_body_bytes p))"
proof -
  let ?b = "gc_budgets (cf_gateway c)"
  obtain t where "list_all fst (route_rules c s r t)" using table_rules_ok(3) [OF assms(1,2)] by blast
  then show ?thesis
  proof (rule route_rules_ok)
    fix prefix port cl
    assume known: "gateway_service s = Some (prefix, port)" "gw_prefix r = prefix" "is_loopback (sk_ip (gw_listener r))"
      "sk_port (gw_listener r) = port" and cl: "gw_class r = Some cl"
      and cost: "\<And>p. cf_public c = Some p \<Longrightarrow> bd_max_body_bytes (route_cost ?b s cl) \<le> pub_max_body_bytes p
        \<and> bd_response_timeout_seconds (route_cost ?b s cl) \<le> pub_request_timeout_seconds p"
      and limits: "\<And>path limit. (s, path, Some limit) \<in> set gateway_transfer_paths \<Longrightarrow>
        limit \<le> bd_max_body_bytes (gbs_transfer ?b)"
    have "limit \<le> pub_max_body_bytes p" if "(s, path, Some limit) \<in> set gateway_transfer_paths" for path limit
      using limits [OF that] route_cost_ge(3) [OF that, of ?b cl] cost [OF assms(3)] by (meson order_trans)
    then show ?thesis
      using known cl cost [OF assms(3)] route_cost_ge(1,2) [of ?b cl s] by (blast intro: order_trans)
  qed
qed


subsection \<open>A deployment with every section\<close>

definition full_url :: "string \<Rightarrow> url" where
  "full_url scheme = \<lparr>ur_scheme = scheme, ur_has_host = True, ur_username = [], ur_password = None, ur_query = None\<rparr>"

definition full_route :: "string \<times> string \<times> 16 word \<Rightarrow> string \<times> gateway_route" where
  "full_route = (\<lambda>(service, prefix, port). (service,
     \<lparr>gw_prefix = prefix, gw_listener = socket_new localhost port, gw_class = Some ControlClass,
      gw_capabilities_path = ''/v1/capabilities'', gw_archive_receipt_path = ''/v1/ai-archives/receipt''\<rparr>))"

definition full_config :: platform_config where
  "full_config = (config_defaults EdgeRole)
     \<lparr>cf_public := Some ((default_public 8080)\<lparr>pub_max_body_bytes := 104857600, pub_request_timeout_seconds := 300\<rparr>),
      cf_gateway := \<lparr>gc_routes = map full_route gateway_services, gc_budgets = default_budgets\<rparr>,
      cf_channel_digests := Some \<lparr>cdg_listener = socket_new localhost 8098, cdg_service_secret = ''s''\<rparr>,
      cf_database := Some \<lparr>dbc_url = ''postgres://h/db'', dbc_max_connections = 10, dbc_acquire_timeout_seconds = 5\<rparr>,
      cf_bus := Some \<lparr>bsc_url = full_url ''nats'', bsc_nkey_seed_path = Some ''/run/seed''\<rparr>,
      cf_telemetry := \<lparr>tel_log_format = JsonLines, tel_log_filter = default_log_filter,
        tel_otlp = Some \<lparr>ot_endpoint = full_url ''https'', ot_timeout_seconds = 5, ot_headers = [(''x-key'', ''v'')]\<rparr>\<rparr>\<rparr>"

definition willing_env :: startup_env where
  "willing_env = \<lparr>cv_env_filter = (\<lambda>_. True), cv_base64 = (\<lambda>_. None), cv_readable = (\<lambda>_. True)\<rparr>"

lemma full_gateway_accepted: "list_all fst (gateway_rules EdgeRole full_config)"
  by (simp add: gateway_rules_def budget_rules_def route_rules_def Let_def cost_rules_def route_cost_def
      largest_limit_def sub_path_limits_def gateway_transfer_paths_def gateway_service_def gateway_services_def
      full_config_def full_route_def default_settings within_def configured_def)

lemma full_config_accepted: "validate willing_env EdgeRole full_config = []"
proof -
  have "list_all fst (startup_rules willing_env EdgeRole full_config)"
    using full_gateway_accepted
    by (simp add: startup_rules_def listener_rules_def public_rules_def process_rules_def otlp_rules_def
        database_rules_def bus_rules_def seed_rules_def identity_rules_def retention_rules_def limit_rules_def
        operations_rules_def staging_rules_def digests_rules_def peer_rules_def Let_def within_def
        full_config_def full_url_def willing_env_def default_settings may_have_public_listener_def web_url_def
        saturating_add_def shutdown_ceiling_seconds_def is_header_name_def char_classes path_is_absolute_def
        starts_with_def event_retention_days_def)
  then show ?thesis by (simp add: validate_def failing_Nil)
qed


end
