(* ===== verification/Startup_Report.thy ===== *)
theory Startup_Report
  imports Startup_Rules
begin

text \<open>
  What a failed start prints: \<open>report_unreadable\<close> of \<^verbatim>\<open>crates/core/src/config/validate.rs\<close> and \<open>ConfigError::report\<close> of
  \<^verbatim>\<open>config/mod.rs\<close>, and that no supplied value reaches the report of a broken rule. The extraction library's
  error is read through the members the code reads; the Unicode upper case is a parameter.
\<close>

datatype problem_kind = MissingField string | UnknownField string | OtherProblem

record extraction_problem =
  xp_path :: "string list"
  xp_kind :: problem_kind

definition key_of :: "extraction_problem \<Rightarrow> string" where
  "key_of e =
     (let path = join_with (CHR ''.'') (xp_path e)
      in case xp_kind e of
           MissingField name \<Rightarrow> if path = [] then name else path @ ''.'' @ name
         | UnknownField name \<Rightarrow> if path \<noteq> [] then path else name
         | OtherProblem \<Rightarrow> if path \<noteq> [] then path else ''(the provider did not report a key)'')"

definition env_var_of :: "(string \<Rightarrow> string) \<Rightarrow> string \<Rightarrow> string" where
  "env_var_of upper key = ''RATATOSKR__'' @ upper (concat (map (\<lambda>c. if c = CHR ''.'' then ''__'' else [c]) key))"

fun reason_of :: "problem_kind \<Rightarrow> string" where
  "reason_of (UnknownField _) = ''is not a configuration key of this process''"
| "reason_of (MissingField _) = ''is required and was not supplied''"
| "reason_of OtherProblem = ''could not be read as the type of this field''"

definition report_unreadable :: "(string \<Rightarrow> string) \<Rightarrow> runtime_role \<Rightarrow> extraction_problem list \<Rightarrow> string" where
  "report_unreadable upper role problems =
     binary_name role @ '': refusing to start; the configuration could not be read.'' @ nl @ nl
     @ concat (map (\<lambda>e. report_block (violated (key_of e) (env_var_of upper (key_of e)) (reason_of (xp_kind e)))) problems)
     @ footer role"

fun config_report :: "(string \<Rightarrow> string) \<Rightarrow> runtime_role \<Rightarrow> extraction_problem list config_error \<Rightarrow> string" where
  "config_report upper role (Source problems) = report_unreadable upper role problems"
| "config_report upper role (Invalid violations) = report_invalid role violations"

text \<open>Two problems with the same path and kind are reported alike: the report is a function of the keys alone.\<close>

lemma missing_member_is_named:
  "xp_kind e = MissingField name \<Longrightarrow> \<exists>prefix. key_of e = prefix @ name"
  by (simp add: key_of_def Let_def)

subsection \<open>The shape of a configuration\<close>

text \<open>
  What a configuration has, without any value it was given: which sections, whether the seed path is absolute, and for
  each route the name it has in the closed list of services, if it is there, and whether it has a class.
\<close>

record config_shape =
  sh_public :: bool
  sh_otlp :: bool
  sh_database :: bool
  sh_bus :: bool
  sh_seed_absolute :: "bool option"
  sh_digests :: bool
  sh_routes :: "(string option \<times> bool) list"

definition route_shape :: "string \<times> gateway_route \<Rightarrow> string option \<times> bool" where
  "route_shape = (\<lambda>(service, r).
     (if service \<in> set (map fst gateway_services) then Some service else None, gw_class r \<noteq> None))"

definition shape_of :: "platform_config \<Rightarrow> config_shape" where
  "shape_of c =
     \<lparr>sh_public = (cf_public c \<noteq> None), sh_otlp = (tel_otlp (cf_telemetry c) \<noteq> None), sh_database = (cf_database c \<noteq> None),
      sh_bus = (cf_bus c \<noteq> None),
      sh_seed_absolute = map_option path_is_absolute (Option.bind (cf_bus c) bsc_nkey_seed_path),
      sh_digests = (cf_channel_digests c \<noteq> None), sh_routes = map route_shape (gc_routes (cf_gateway c))\<rparr>"

subsection \<open>The violations of a group do not depend on its values\<close>

lemma reported_constants:
  "map snd (listener_rules role c) = map snd (listener_rules role c')"
  "map snd (public_rules a p) = map snd (public_rules a' p')"
  "map snd (otlp_rules t) = map snd (otlp_rules t')"
  "map snd (database_rules b) = map snd (database_rules b')"
  "map snd (identity_rules env i) = map snd (identity_rules env' i')"
  "map snd (retention_rules r) = map snd (retention_rules r')"
  "map snd (limit_rules p) = map snd (limit_rules p')"
  "map snd (operations_rules n) = map snd (operations_rules n')"
  "map snd (staging_rules s) = map snd (staging_rules s')"
  "map snd (digests_rules role x) = map snd (digests_rules role' x')"
  "map snd (peer_rules y) = map snd (peer_rules y')"
  "map snd (cost_rules q z) = map snd (cost_rules q' z')"
  by (simp_all only: listener_rules_def public_rules_def otlp_rules_def database_rules_def identity_rules_def
      retention_rules_def limit_rules_def operations_rules_def staging_rules_def digests_rules_def peer_rules_def
      cost_rules_def list.map snd_conv)

lemma reported_process: "map snd (process_rules env c) = map snd (process_rules env' c')"
  by (simp only: process_rules_def Let_def list.map snd_conv)

lemma reported_budgets: "map snd (budget_rules bs) = map snd (budget_rules bs')"
  by (simp only: budget_rules_def list.map prod.case concat.simps map_append snd_conv)

lemma reported_optional:
  "(x = None) = (y = None) \<Longrightarrow> (\<And>a b. map snd (f a) = map snd (g b)) \<Longrightarrow>
     map snd (optional_rules f x) = map snd (optional_rules g y)"
  by (cases x; cases y) simp_all

lemma reported_seed:
  "path_is_absolute path = path_is_absolute path' \<Longrightarrow> map snd (seed_rules env path) = map snd (seed_rules env' path')"
  by (simp add: seed_rules_def)

lemma reported_bus:
  assumes "(cf_bus c = None) = (cf_bus c' = None)"
    and "map_option path_is_absolute (Option.bind (cf_bus c) bsc_nkey_seed_path)
      = map_option path_is_absolute (Option.bind (cf_bus c') bsc_nkey_seed_path)"
  shows "map snd (optional_rules (bus_rules env) (cf_bus c)) = map snd (optional_rules (bus_rules env') (cf_bus c'))"
proof (cases "cf_bus c"; cases "cf_bus c'")
  fix b b'
  assume some: "cf_bus c = Some b" "cf_bus c' = Some b'"
  show ?thesis
    using assms(2)
    by (cases "bsc_nkey_seed_path b"; cases "bsc_nkey_seed_path b'")
      (simp_all add: some bus_rules_def reported_seed [of _ _ env env'])
qed (use assms(1) in simp_all)

lemma reported_route:
  assumes "route_shape (s, r) = route_shape (s', r')" and "(cf_public c = None) = (cf_public c' = None)"
  shows "map snd (route_rules c s r taken) = map snd (route_rules c' s' r' taken')"
proof -
  have known: "gateway_service x = None \<longleftrightarrow> x \<notin> set (map fst gateway_services)" for x
    by (simp add: gateway_service_def map_of_eq_None_iff)
  show ?thesis
  proof (cases "gateway_service s")
    case None
    then have "gateway_service s' = None" using assms(1) by (auto simp: route_shape_def known split: if_splits)
    with None show ?thesis
      by (simp only: route_rules_def Let_def option.case option.map list.map map_append snd_conv)
  next
    case (Some service)
    obtain prefix port where service: "service = (prefix, port)" by (cases service)
    have "s \<in> set (map fst gateway_services)" using Some known [of s] by auto
    then have same: "s' = s" and classed: "(gw_class r = None) = (gw_class r' = None)"
      using assms(1) by (auto simp: route_shape_def split: if_splits)
    have "map snd (case (cf_public c, gw_class r) of
          (Some p, Some cl) \<Rightarrow> cost_rules p (route_cost (gc_budgets (cf_gateway c)) s cl) | _ \<Rightarrow> [])
      = map snd (case (cf_public c', gw_class r') of
          (Some p, Some cl) \<Rightarrow> cost_rules p (route_cost (gc_budgets (cf_gateway c')) s cl) | _ \<Rightarrow> [])"
      using classed assms(2) reported_constants(12)
      by (cases "cf_public c"; cases "gw_class r"; cases "cf_public c'"; cases "gw_class r'") simp_all
    then show ?thesis
      by (simp only: same route_rules_def Let_def Some service option.case option.map prod.case list.map map_append snd_conv)
  qed
qed

lemma reported_table:
  "map route_shape rs = map route_shape rs' \<Longrightarrow> (cf_public c = None) = (cf_public c' = None) \<Longrightarrow>
     map snd (table_rules c rs taken) = map snd (table_rules c' rs' taken')"
proof (induction rs arbitrary: rs' taken taken')
  case Nil
  then show ?case by simp
next
  case (Cons x rs)
  then obtain y ys where rs': "rs' = y # ys" by (cases rs') simp_all
  obtain s r s' r' where x: "x = (s, r)" "y = (s', r')" by (cases x; cases y) auto
  have "route_shape (s, r) = route_shape (s', r')" and rest: "map route_shape rs = map route_shape ys"
    using Cons.prems(1) by (simp_all add: rs' x)
  note head = reported_route [OF this(1) Cons.prems(2), of taken taken']
    and later = Cons.IH [OF rest Cons.prems(2), of "gw_prefix r # taken" "gw_prefix r' # taken'"]
  show ?case by (simp only: rs' x table_rules.simps map_append head later)
qed

lemma reported_rules:
  assumes "shape_of c = shape_of c'"
  shows "map snd (startup_rules env role c) = map snd (startup_rules env' role c')"
proof -
  have shape: "(cf_public c = None) = (cf_public c' = None)"
    "(tel_otlp (cf_telemetry c) = None) = (tel_otlp (cf_telemetry c') = None)"
    "(cf_database c = None) = (cf_database c' = None)" "(cf_bus c = None) = (cf_bus c' = None)"
    "map_option path_is_absolute (Option.bind (cf_bus c) bsc_nkey_seed_path)
      = map_option path_is_absolute (Option.bind (cf_bus c') bsc_nkey_seed_path)"
    "(cf_channel_digests c = None) = (cf_channel_digests c' = None)"
    "map route_shape (gc_routes (cf_gateway c)) = map route_shape (gc_routes (cf_gateway c'))"
    using assms unfolding shape_of_def config_shape.ext_inject by argo+
  have gateway: "map snd (gateway_rules role c) = map snd (gateway_rules role c')"
    unfolding gateway_rules_def map_append list.map snd_conv
    using reported_budgets reported_table [OF shape(7,1)] by metis
  show ?thesis
    unfolding startup_rules_def map_append gateway
    by (intro arg_cong2 [where f = append] refl reported_constants reported_process reported_bus shape
        reported_optional [OF shape(1) reported_constants(2)] reported_optional [OF shape(2) reported_constants(3)]
        reported_optional [OF shape(3) reported_constants(4)] reported_optional [OF shape(1) reported_constants(7)]
        reported_optional [OF shape(6) reported_constants(10)])
qed

lemma failing_determined:
  "map snd rs = map snd rs' \<Longrightarrow> map fst rs = map fst rs' \<Longrightarrow> failing rs = failing rs'"
  by (metis zip_map_fst_snd)

text \<open>
  C22: the report of a broken configuration cannot echo a supplied value. Two configurations of the same shape (the
  same optional sections, a seed path that is absolute in both or in neither, and the same routes as far as the names of
  the known services and the presence of a class go), read by any environments, are held against the same rules with the
  same keys, variables and texts in the same order; so if they break the same rules, whatever their values are, they are
  reported by the same text.
\<close>

theorem report_names_no_supplied_value:
  assumes "shape_of c = shape_of c'"
  shows "map snd (startup_rules env role c) = map snd (startup_rules env' role c')
     \<and> (map fst (startup_rules env role c) = map fst (startup_rules env' role c') \<longrightarrow>
          validate env role c = validate env' role c'
          \<and> report_invalid role (validate env role c) = report_invalid role (validate env' role c'))"
proof -
  note rules = reported_rules [OF assms, of env role env']
  have "validate env role c = validate env' role c'"
    if "map fst (startup_rules env role c) = map fst (startup_rules env' role c')"
    unfolding validate_def by (rule failing_determined [OF rules that])
  with rules show ?thesis by simp
qed

text \<open>Two wrong values of one setting.\<close>

lemma table_rules_stale: "table_rules (c\<lparr>cf_stale_after_seconds := n\<rparr>) rs taken = table_rules c rs taken"
proof (induction rs arbitrary: taken)
  case (Cons x rs)
  have kept: "cf_gateway (c\<lparr>cf_stale_after_seconds := n\<rparr>) = cf_gateway c"
    "cf_public (c\<lparr>cf_stale_after_seconds := n\<rparr>) = cf_public c" by simp_all
  obtain s r where x: "x = (s, r)" by (cases x)
  show ?case by (simp only: x table_rules.simps route_rules_def kept Cons.IH)
qed simp

theorem report_names_no_supplied_value_witness:
  "validate willing_env EdgeRole (full_config\<lparr>cf_stale_after_seconds := 7\<rparr>)
     = validate willing_env EdgeRole (full_config\<lparr>cf_stale_after_seconds := 3599\<rparr>)"
proof -
  let ?c = "\<lambda>n. full_config\<lparr>cf_stale_after_seconds := n\<rparr>"
  have "shape_of (?c 7) = shape_of (?c 3599)" by (simp add: shape_of_def)
  moreover have "map fst (startup_rules willing_env EdgeRole (?c 7)) = map fst (startup_rules willing_env EdgeRole (?c 3599))"
    by (simp add: startup_rules_def listener_rules_def process_rules_def gateway_rules_def configured_def
        operations_rules_def within_def table_rules_stale)
  ultimately show ?thesis
    using report_names_no_supplied_value [of "?c 7" "?c 3599" willing_env EdgeRole willing_env] by blast
qed

end
