(* ===== verification/Account_Routes.thy ===== *)
theory Account_Routes
  imports Site_Dispatch Pairing Relay
begin

text \<open>
  What the handlers of \<^verbatim>\<open>crates/public-api/src/sessions.rs\<close>, \<^verbatim>\<open>devices.rs\<close> and \<^verbatim>\<open>credentials.rs\<close> share: the
  shape of their transactions, the audit record of a refusal, and the cursors, limits and pages of the two
  listings. The UUID text and the range of a timestamp belong to other crates and are parameters.
\<close>

subsection \<open>Transactions\<close>

text \<open>
  What the body of a transaction leaves its handler with: an answer to send after the commit, or one to send
  after the transaction is dropped, which rolls back what the body wrote.
\<close>

datatype 'a finish = Commit 'a | Abandon 'a

definition transact ::
  "bool \<times> bool \<Rightarrow> db \<Rightarrow> (db \<Rightarrow> persistence_error + (failure_kind + 'a) finish \<times> db) \<Rightarrow> (failure_kind + 'a) \<times> db" where
  "transact = (\<lambda>(begins, commits) d body.
     if \<not> begins then (Inl RequestTimeout, d)
     else case body d of
       Inl _ \<Rightarrow> (Inl RequestTimeout, d)
     | Inr (Abandon answer, _) \<Rightarrow> (answer, d)
     | Inr (Commit answer, d') \<Rightarrow> if commits then (answer, d') else (Inl RequestTimeout, d))"

lemma transact_cases:
  assumes "transact (begins, commits) d body = (answer, d')"
  shows "(answer = Inl RequestTimeout \<and> d' = d) \<or> (\<exists>d''. body d = Inr (Abandon answer, d'') \<and> d' = d)
     \<or> body d = Inr (Commit answer, d')"
proof (cases "body d")
  case (Inl e)
  then show ?thesis using assms by (simp add: transact_def split: if_splits)
next
  case (Inr x)
  obtain f d'' where x: "x = (f, d'')" by fastforce
  show ?thesis using assms Inr x by (cases f) (simp_all add: transact_def split: if_splits)
qed

lemma transact_Inr:
  assumes "transact (begins, commits) d body = (Inr a, d')"
  shows "body d = Inr (Commit (Inr a), d') \<or> (\<exists>d''. body d = Inr (Abandon (Inr a), d'') \<and> d' = d)"
  using transact_cases [OF assms] by auto

text \<open>A record written on a connection of its own: a failure of it is only logged.\<close>

definition audit_apart :: "db \<Rightarrow> audit_event \<Rightarrow> instant \<Rightarrow> db" where
  "audit_apart d e now = (case audit_record d e now of Inl _ \<Rightarrow> d | Inr d' \<Rightarrow> d')"

lemma audit_apart_frame: "\<exists>t. audit_apart d e now = d\<lparr>t_audit := t\<rparr>"
proof (cases "audit_record d e now")
  case (Inl x)
  then have "audit_apart d e now = d\<lparr>t_audit := t_audit d\<rparr>" by (simp add: audit_apart_def)
  then show ?thesis by blast
next
  case (Inr d')
  then show ?thesis using audit_record_Inr(1) [of d e now d'] by (auto simp: audit_apart_def)
qed

lemma audit_apart_simps [simp]:
  "t_sessions (audit_apart d e now) = t_sessions d" "t_devices (audit_apart d e now) = t_devices d"
  "t_pairing (audit_apart d e now) = t_pairing d" "t_refresh (audit_apart d e now) = t_refresh d"
  "t_revocations (audit_apart d e now) = t_revocations d" "t_users (audit_apart d e now) = t_users d"
  using audit_apart_frame [of d e now] by auto

text \<open>The actor of an audit record, when the caller is known.\<close>

definition event_by :: "uuid \<Rightarrow> principal \<Rightarrow> string \<Rightarrow> string \<Rightarrow> uuid option \<Rightarrow> audit_outcome \<Rightarrow> string \<Rightarrow> audit_event" where
  "event_by k p action target_kind target outcome correlation =
     \<lparr>ae_id = k, ae_actor_user = Some (pl_user p), ae_actor_session = Some (pl_session p), ae_action = action,
      ae_target_kind = target_kind, ae_target = target, ae_outcome = outcome, ae_correlation = correlation\<rparr>"

definition event_of ::
  "uuid \<Rightarrow> uuid option \<Rightarrow> uuid option \<Rightarrow> string \<Rightarrow> string \<Rightarrow> uuid option \<Rightarrow> audit_outcome \<Rightarrow> string \<Rightarrow> audit_event" where
  "event_of k user session action target_kind target outcome correlation =
     \<lparr>ae_id = k, ae_actor_user = user, ae_actor_session = session, ae_action = action,
      ae_target_kind = target_kind, ae_target = target, ae_outcome = outcome, ae_correlation = correlation\<rparr>"

text \<open>\<open>ids\<close> names the rows a loop of \<open>record_revocation\<close> inserts, in order.\<close>

definition record_revocations ::
  "(nat \<Rightarrow> uuid) \<Rightarrow> uuid list \<Rightarrow> uuid \<Rightarrow> instant \<Rightarrow> db \<Rightarrow> persistence_error + db" where
  "record_revocations ids subjects user now d =
     foldE (\<lambda>(n, i) e. bindE (record_revocation e (ids n) SessionSubject i UserRequest (Some user) now) (\<lambda>(_, e'). Inr e'))
       (enumerate 0 subjects) d"

subsection \<open>Cursors and limits\<close>

record cursor_env =
  cu_uuid_text :: "uuid \<Rightarrow> string"
  cu_uuid_parse :: "string \<Rightarrow> uuid option"
  cu_timestamp :: "int \<Rightarrow> bool"

text \<open>\<open>str::parse::<i64>\<close>: an optional sign and at least one digit, and the value fits.\<close>

definition parse_i64 :: "string \<Rightarrow> int option" where
  "parse_i64 s =
     (let minus = (case s of [] \<Rightarrow> False | c # _ \<Rightarrow> c = CHR ''-'');
          ds = (case s of [] \<Rightarrow> [] | c # cs \<Rightarrow> if c = CHR ''-'' \<or> c = CHR ''+'' then cs else s);
          value = (if minus then - int (digits_value ds) else int (digits_value ds))
      in if ds \<noteq> [] \<and> list_all is_ascii_digit ds \<and> - (2 ^ 63) \<le> value \<and> value < 2 ^ 63 then Some value else None)"

definition encode_cursor :: "cursor_env \<Rightarrow> instant \<times> uuid \<Rightarrow> string" where
  "encode_cursor env = (\<lambda>(t, i). decimal t @ CHR ''.'' # cu_uuid_text env i)"

definition decode_cursor :: "cursor_env \<Rightarrow> string \<Rightarrow> (instant \<times> uuid) option" where
  "decode_cursor env raw =
     Option.bind (split_once (CHR ''.'') raw) (\<lambda>(micros, identifier).
     Option.bind (cu_uuid_parse env identifier) (\<lambda>i.
     Option.bind (parse_i64 micros) (\<lambda>t. if cu_timestamp env t then Some (t, i) else None)))"

definition page_limit :: "string option \<Rightarrow> int option" where
  "page_limit limit =
     (case limit of None \<Rightarrow> Some 20
      | Some raw \<Rightarrow> Option.bind (parse_i64 raw) (\<lambda>v. if 1 \<le> v \<and> v \<le> 100 then Some v else None))"

definition page_anchor :: "cursor_env \<Rightarrow> string option \<Rightarrow> (instant \<times> uuid) option option" where
  "page_anchor env cursor =
     (case cursor of None \<Rightarrow> Some None
      | Some raw \<Rightarrow> if raw = [] then Some None else map_option Some (decode_cursor env raw))"

text \<open>The page a listing answers: its rows, and a cursor exactly when the page is as long as its limit.\<close>

definition answered_page ::
  "cursor_env \<Rightarrow> ('r \<Rightarrow> instant \<times> uuid) \<Rightarrow> ((instant \<times> uuid) option \<Rightarrow> int \<Rightarrow> 'r list) \<Rightarrow> string option \<Rightarrow> string option
     \<Rightarrow> failure_kind + 'r list \<times> string option" where
  "answered_page env key rows_of limit cursor =
     (case page_limit limit of None \<Rightarrow> Inl InvalidRequest
      | Some n \<Rightarrow> (case page_anchor env cursor of None \<Rightarrow> Inl InvalidRequest
          | Some after \<Rightarrow>
              let rows = rows_of after n
              in Inr (rows, if int (length rows) = n \<and> rows \<noteq> [] then Some (encode_cursor env (key (last rows))) else None)))"

subsection \<open>A cursor is the key of its row\<close>

lemma decimal_ascii: "0 \<le> t \<Longrightarrow> decimal t = digits_of (nat t)" "t < 0 \<Longrightarrow> decimal t = CHR ''-'' # digits_of (nat (- t))"
  by (simp_all add: decimal_def)

lemma parse_i64_decimal:
  assumes "- (2 ^ 63) \<le> t" and "t < 2 ^ 63"
  shows "parse_i64 (decimal t) = Some t"
proof (cases "t < 0")
  case True
  then show ?thesis
    using assms digits_of_ascii [of "nat (- t)"] digits_of_nonempty [of "nat (- t)"]
    by (simp add: parse_i64_def decimal_ascii digits_value_digits_of Let_def)
next
  case False
  obtain c cs where ds: "digits_of (nat t) = c # cs" using digits_of_nonempty [of "nat t"] by (cases "digits_of (nat t)") auto
  then have "is_ascii_digit c" using digits_of_ascii [of "nat t"] by simp
  then have "c \<noteq> CHR ''-''" "c \<noteq> CHR ''+''" by (auto simp: is_ascii_digit_def)
  then show ?thesis
    using False assms digits_of_ascii [of "nat t"] digits_value_digits_of [of "nat t"]
    by (simp add: parse_i64_def decimal_ascii ds)
qed

lemma decimal_no_dot: "CHR ''.'' \<notin> set (decimal t)"
proof -
  have "CHR ''.'' \<notin> set (digits_of n)" for n
    using digits_of_ascii [of n] by (auto simp: list_all_iff is_ascii_digit_def)
  then show ?thesis by (simp add: decimal_def)
qed

lemma cursor_roundtrip:
  assumes "cu_uuid_parse env (cu_uuid_text env i) = Some i" and "cu_timestamp env t"
    and "- (2 ^ 63) \<le> t" and "t < 2 ^ 63"
  shows "decode_cursor env (encode_cursor env (t, i)) = Some (t, i)"
proof -
  have "split_once (CHR ''.'') (decimal t @ CHR ''.'' # cu_uuid_text env i) = Some (decimal t, cu_uuid_text env i)"
    using decimal_no_dot by (simp add: split_once_Some)
  then show ?thesis
    using assms by (simp add: decode_cursor_def encode_cursor_def parse_i64_decimal)
qed

subsection \<open>Walking a listing by its cursors\<close>

text \<open>A client's walk: ask for a page, and again with each cursor that a page answers, verbatim.\<close>

fun cursor_walk :: "nat \<Rightarrow> (string option \<Rightarrow> failure_kind + 'r list \<times> string option) \<Rightarrow> string option \<Rightarrow> failure_kind + 'r list" where
  "cursor_walk 0 page cursor = Inr []"
| "cursor_walk (Suc fuel) page cursor =
     bindE (page cursor) (\<lambda>(rows, more). case more of None \<Rightarrow> Inr rows
       | Some c \<Rightarrow> bindE (cursor_walk fuel page (Some c)) (\<lambda>rest. Inr (rows @ rest)))"

text \<open>The query a listing answers its pages from, with rows whose keys survive being written as a cursor.\<close>

locale cursor_listing =
  fixes ok :: "cursor_env \<Rightarrow> 'd \<Rightarrow> bool"
    and key :: "'r \<Rightarrow> instant \<times> uuid"
    and all_rows :: "'d \<Rightarrow> 'r list"
    and rows_of :: "'d \<Rightarrow> (instant \<times> uuid) option \<Rightarrow> int \<Rightarrow> 'r list"
  assumes descending: "ok env d \<Longrightarrow> sorted_wrt (\<lambda>x y. key y < key x) (all_rows d)"
    and rows: "ok env d \<Longrightarrow> rows_of d after (int n) = take n (filter (\<lambda>r. behind after (key r)) (all_rows d))"
    and cursors: "ok env d \<Longrightarrow> r \<in> set (all_rows d) \<Longrightarrow> decode_cursor env (encode_cursor env (key r)) = Some (key r)"

sublocale cursor_listing \<subseteq> ordered: keyset "\<lambda>d. \<exists>env. ok env d" key all_rows
  "\<lambda>d n after. (take n (filter (\<lambda>r. behind after (key r)) (all_rows d)),
      n < length (filter (\<lambda>r. behind after (key r)) (all_rows d)))"
  using descending by unfold_locales auto

context cursor_listing begin

lemma walk_from:
  assumes "ok env d" and "page_limit limit = Some (int n)" and "0 < n" and "all_rows d = xs @ ys" and "length ys \<le> fuel"
    and "cursor = (if xs = [] then None else Some (encode_cursor env (key (last xs))))"
  shows "cursor_walk (Suc fuel) (answered_page env key (rows_of d) limit) cursor = Inr ys"
  using assms(4-6)
proof (induction fuel arbitrary: xs ys cursor)
  case (0 xs ys cursor)
  then have ys: "ys = []" by simp
  have written: "encode_cursor env k \<noteq> []" for k by (cases k) (simp add: encode_cursor_def)
  have anchor: "page_anchor env cursor = Some (if xs = [] then None else Some (key (last xs)))"
    using 0 cursors [OF assms(1), of "last xs"] written by (simp add: page_anchor_def)
  have "filter (\<lambda>r. behind (if xs = [] then None else Some (key (last xs))) (key r)) (all_rows d) = ys"
    using ordered.filter_behind_suffix [of d xs ys] assms(1) 0 by (cases "xs = []") auto
  then have "rows_of d (if xs = [] then None else Some (key (last xs))) (int n) = []"
    using rows [OF assms(1)] ys by simp
  then show ?case by (simp add: answered_page_def assms(2) anchor ys)
next
  case (Suc fuel xs ys cursor)
  have written: "encode_cursor env k \<noteq> []" for k by (cases k) (simp add: encode_cursor_def)
  have anchor: "page_anchor env cursor = Some (if xs = [] then None else Some (key (last xs)))"
    using Suc.prems cursors [OF assms(1), of "last xs"] written by (simp add: page_anchor_def)
  have "filter (\<lambda>r. behind (if xs = [] then None else Some (key (last xs))) (key r)) (all_rows d) = ys"
    using ordered.filter_behind_suffix [of d xs ys] assms(1) Suc.prems by (cases "xs = []") auto
  then have page: "answered_page env key (rows_of d) limit cursor
      = Inr (take n ys, if length (take n ys) = n then Some (encode_cursor env (key (last (take n ys)))) else None)"
    using rows [OF assms(1)] assms(3) by (auto simp: answered_page_def assms(2) anchor Let_def)
  show ?case
  proof (cases "length (take n ys) = n")
    case False
    then have "length ys < n" by (simp add: min_def split: if_splits)
    then show ?thesis by (simp add: page)
  next
    case True
    have ne: "take n ys \<noteq> []" using True assms(3) by auto
    have "cursor_walk (Suc fuel) (answered_page env key (rows_of d) limit) (Some (encode_cursor env (key (last (take n ys)))))
        = Inr (drop n ys)"
    proof (rule Suc.IH [of "xs @ take n ys"])
      show "all_rows d = (xs @ take n ys) @ drop n ys" using Suc.prems by simp
      show "length (drop n ys) \<le> fuel" using Suc.prems assms(3) True by simp
      show "Some (encode_cursor env (key (last (take n ys)))) = (if xs @ take n ys = [] then None
          else Some (encode_cursor env (key (last (xs @ take n ys)))))" using ne by simp
    qed
    then show ?thesis by (subst cursor_walk.simps(2)) (simp add: page True del: cursor_walk.simps)
  qed
qed

lemma walk_answers_everything:
  assumes "ok env d" and "page_limit limit = Some n"
  shows "cursor_walk (Suc (length (all_rows d))) (answered_page env key (rows_of d) limit) None = Inr (all_rows d)"
proof -
  have n: "1 \<le> n" using assms(2) by (auto simp: page_limit_def bind_eq_Some_conv split: option.splits if_splits)
  then have "page_limit limit = Some (int (nat n))" "0 < nat n" using assms(2) by simp_all
  then show ?thesis by (intro walk_from [OF assms(1), of limit "nat n" "[]"]) simp_all
qed

end

end
