(* ===== verification/Session_Routes.thy ===== *)
theory Session_Routes
  imports Account_Routes Identity_History
begin

text \<open>
  \<^verbatim>\<open>crates/public-api/src/sessions.rs\<close>: the exchange of a Telegram assertion for a session, and the listing
  and revocation of a caller's sessions, with \<open>list_live_sessions\<close> of \<^verbatim>\<open>crates/identity/src/session.rs\<close>. The JSON
  reader and the cryptography are parameters; what a request draws (identifiers, its credential, whether its
  transaction begins and commits) is its mint.
\<close>

subsection \<open>The exchange\<close>

record exchange_env =
  xe_read :: "string \<Rightarrow> string option"
  xe_key :: "8 word list option"
  xe_audience :: string
  xe_b64 :: "string \<Rightarrow> 8 word list option"
  xe_ed25519 :: "8 word list \<Rightarrow> string \<Rightarrow> 8 word list \<Rightarrow> bool"
  xe_claims :: "8 word list \<Rightarrow> assertion_claims option"

record exchange_mint =
  xm_user :: uuid
  xm_identity :: uuid
  xm_assertion :: uuid
  xm_session :: uuid
  xm_audit :: uuid
  xm_refusal :: uuid
  xm_credential :: "(string \<times> digest) option"
  xm_begins :: bool
  xm_commits :: bool

record session_minted =
  mi_credential :: string
  mi_expires_at :: instant
  mi_user :: uuid

definition telegram_session_lifetime :: int where
  "telegram_session_lifetime = seconds 3600"

definition max_assertion :: nat where
  "max_assertion = 4096"

text \<open>\<open>ku\<close> and \<open>ki\<close> are the identifiers a first sight of the person draws.\<close>

definition resolve_person :: "db \<Rightarrow> uuid \<Rightarrow> uuid \<Rightarrow> string \<Rightarrow> instant \<Rightarrow> persistence_error + uuid \<times> db" where
  "resolve_person d ku ki subject now =
     bindE (case find_user_by_external_identity d Telegram subject of
              Some u \<Rightarrow> Inr (u, d)
            | None \<Rightarrow> bindE (create_user d ku now) (\<lambda>(u, d1). Inr (u_id u, d1)))
       (\<lambda>(u, d1). bindE (link_external_identity d1 ki u Telegram subject now) (\<lambda>(x, d2). Inr (ei_user x, d2)))"

definition telegram_session :: "uuid \<Rightarrow> string \<Rightarrow> digest \<Rightarrow> instant \<Rightarrow> new_session" where
  "telegram_session user audience token now =
     \<lparr>ns_user = user, ns_kind = TelegramMiniApp, ns_device = None, ns_audience = audience, ns_token = Some token,
      ns_issued_at = now, ns_expires_at = now + telegram_session_lifetime\<rparr>"

text \<open>The answer \<open>None\<close> is a replay.\<close>

definition mint_session ::
  "exchange_env \<Rightarrow> exchange_mint \<Rightarrow> assertion_claims \<Rightarrow> string \<Rightarrow> instant \<Rightarrow> db
     \<Rightarrow> (failure_kind + session_minted option) \<times> db" where
  "mint_session env mn claims correlation now d =
     transact (xm_begins mn, xm_commits mn) d (\<lambda>d0.
       bindE (resolve_person d0 (xm_user mn) (xm_identity mn) (ac_subject claims) now) (\<lambda>(user, d1).
       bindE (redeem_assertion d1 (xm_assertion mn) claims user now) (\<lambda>(redeemed, d2).
         case redeemed of
           None \<Rightarrow> Inr (Abandon (Inr None), d2)
         | Some _ \<Rightarrow>
             (case xm_credential mn of
                None \<Rightarrow> Inr (Abandon (Inl RequestTimeout), d2)
              | Some (credential, token) \<Rightarrow>
                  bindE (create_session d2 (xm_session mn) (telegram_session user (xe_audience env) token now)) (\<lambda>(s, d3).
                  bindE (audit_record d3 (event_of (xm_audit mn) (Some user) (Some (s_id s)) ''session.exchange_assertion''
                           ''session'' (Some (s_id s)) Allowed correlation) now) (\<lambda>d4.
                  Inr (Commit (Inr (Some \<lparr>mi_credential = credential, mi_expires_at = now + telegram_session_lifetime,
                                          mi_user = user\<rparr>)), d4)))))))"

definition refuse_exchange ::
  "exchange_mint \<Rightarrow> string \<Rightarrow> instant \<Rightarrow> db \<Rightarrow> (failure_kind + session_minted) \<times> db" where
  "refuse_exchange mn correlation refused_at d =
     (Inl NotAuthenticated, audit_apart d (event_of (xm_refusal mn) None None ''session.exchange_assertion'' ''assertion''
        None Denied correlation) refused_at)"

definition exchange_telegram ::
  "exchange_env \<Rightarrow> exchange_mint \<Rightarrow> string \<Rightarrow> string \<Rightarrow> instant \<times> instant \<Rightarrow> db
     \<Rightarrow> (failure_kind + session_minted) \<times> db" where
  "exchange_telegram env mn body correlation = (\<lambda>(now, refused_at) d.
     case xe_read env body of
       None \<Rightarrow> (Inl InvalidRequest, d)
     | Some assertion \<Rightarrow>
         (case xe_key env of
            None \<Rightarrow> (Inl NotAuthenticated, d)
          | Some key \<Rightarrow>
              if max_assertion < length assertion then refuse_exchange mn correlation refused_at d
              else (case verify_assertion (xe_b64 env) (xe_ed25519 env) (xe_claims env) assertion key (xe_audience env) now of
                  Inl _ \<Rightarrow> refuse_exchange mn correlation refused_at d
                | Inr claims \<Rightarrow>
                    (case mint_session env mn claims correlation now d of
                       (Inr (Some m), d') \<Rightarrow> (Inr m, d')
                     | (Inr None, d') \<Rightarrow> refuse_exchange mn correlation refused_at d'
                     | (Inl kind, d') \<Rightarrow> (Inl kind, d')))))"

subsection \<open>Listing\<close>

record session_device_ref =
  sdr_id :: uuid
  sdr_kind :: device_kind
  sdr_display_name :: "string option"

record listed_session =
  lt_id :: uuid
  lt_user :: uuid
  lt_kind :: session_kind
  lt_device :: "session_device_ref option"
  lt_issued_at :: instant
  lt_expires_at :: instant
  lt_last_seen_at :: "instant option"
  lt_site :: "string option"
  lt_hostname :: "string option"

text \<open>The row with its two left joins; the approval's state is not looked at.\<close>

definition joined_approval :: "db \<Rightarrow> session_row \<Rightarrow> approval_row option" where
  "joined_approval d r =
     (if ss_kind r = ''site_owner'' then fetch_optional (\<lambda>a. sap_site a = drop 5 (ss_audience r)) (t_approvals d) else None)"

definition listed_session_of :: "db \<Rightarrow> session_row \<Rightarrow> listed_session" where
  "listed_session_of d r =
     \<lparr>lt_id = ss_id r, lt_user = ss_user r,
      lt_kind = (case session_kind_from_str (ss_kind r) of Some k \<Rightarrow> k | None \<Rightarrow> ServiceSession),
      lt_device = map_option (\<lambda>x. \<lparr>sdr_id = dv_id x, sdr_kind = stored_device_kind x, sdr_display_name = dv_display_name x\<rparr>)
        (Option.bind (ss_device r) (device_at d)),
      lt_issued_at = ss_issued_at r, lt_expires_at = ss_expires_at r, lt_last_seen_at = ss_last_seen_at r,
      lt_site = map_option sap_site (joined_approval d r), lt_hostname = map_option sap_hostname (joined_approval d r)\<rparr>"

definition live_session :: "uuid \<Rightarrow> instant \<Rightarrow> session_row \<Rightarrow> bool" where
  "live_session user now r \<longleftrightarrow> ss_user r = user \<and> ss_revoked_at r = None \<and> now < ss_expires_at r \<and> recently_used now r"

definition session_key :: "session_row \<Rightarrow> instant \<times> uuid" where
  "session_key r = (ss_issued_at r, ss_id r)"

definition list_live_sessions :: "db \<Rightarrow> uuid \<Rightarrow> instant \<Rightarrow> (instant \<times> uuid) option \<Rightarrow> int \<Rightarrow> listed_session list" where
  "list_live_sessions d user now after limit =
     take (nat limit) (map (listed_session_of d) (take (nat (limit + 1)) (rev (sort_key session_key
       (filter (\<lambda>r. live_session user now r \<and> (case after of None \<Rightarrow> True | Some a \<Rightarrow> session_key r < a)) (t_sessions d))))))"

definition listed_key :: "listed_session \<Rightarrow> instant \<times> uuid" where
  "listed_key s = (lt_issued_at s, lt_id s)"

definition list_sessions ::
  "cursor_env \<Rightarrow> principal \<Rightarrow> string option \<Rightarrow> string option \<Rightarrow> instant \<Rightarrow> db
     \<Rightarrow> failure_kind + listed_session list \<times> string option" where
  "list_sessions env p limit cursor now d =
     answered_page env listed_key (\<lambda>after n. list_live_sessions d (pl_user p) now after n) limit cursor"

subsection \<open>Revoking\<close>

record revoke_mint =
  rm_audit :: uuid
  rm_revocations :: "nat \<Rightarrow> uuid"
  rm_begins :: bool
  rm_commits :: bool

definition revoke_own_session ::
  "revoke_mint \<Rightarrow> principal \<Rightarrow> uuid \<Rightarrow> string \<Rightarrow> instant \<Rightarrow> db \<Rightarrow> (failure_kind + unit) \<times> db" where
  "revoke_own_session mn p session_id correlation now d =
     transact (rm_begins mn, rm_commits mn) d (\<lambda>d0.
       case find_session d0 session_id of
         None \<Rightarrow> Inr (Abandon (Inl NotFound), d0)
       | Some s \<Rightarrow>
           if s_user s \<noteq> pl_user p then
             bindE (audit_record d0 (event_by (rm_audit mn) p ''session.revoke'' ''session'' (Some session_id) Denied correlation) now)
               (\<lambda>d1. Inr (Commit (Inl NotFound), d1))
           else if \<not> is_live_at s now then Inr (Abandon (Inl NotFound), d0)
           else bindE (revoke_session d0 session_id now) (\<lambda>(_, d1).
                bindE (record_revocation d1 (rm_revocations mn 0) SessionSubject session_id UserRequest (Some (pl_user p)) now)
                  (\<lambda>(_, d2).
                bindE (audit_record d2 (event_by (rm_audit mn) p ''session.revoke'' ''session'' (Some session_id) Allowed
                         correlation) now) (\<lambda>d3. Inr (Commit (Inr ()), d3)))))"

definition revoke_all ::
  "revoke_mint \<Rightarrow> principal \<Rightarrow> string \<Rightarrow> instant \<Rightarrow> db \<Rightarrow> (failure_kind + nat) \<times> db" where
  "revoke_all mn p correlation now d =
     transact (rm_begins mn, rm_commits mn) d (\<lambda>d0.
       let live = list_live_session_ids d0 (pl_user p) now
       in bindE (revoke_all_sessions_of_user d0 (pl_user p) now) (\<lambda>(_, d1).
          bindE (record_revocations (rm_revocations mn) live (pl_user p) now d1) (\<lambda>d2.
          bindE (audit_record d2 (event_by (rm_audit mn) p ''session.revoke_all'' ''session'' None Allowed correlation) now)
            (\<lambda>d3. Inr (Commit (Inr (length live)), d3)))))"

subsection \<open>The person behind an assertion\<close>

lemma link_external_identity_Inr:
  assumes "link_external_identity d k user provider external now = Inr (x, d')"
  shows "find_user_by_external_identity d' provider external = Some (ei_user x)"
    and "find_user_by_external_identity d provider external = Some u \<Longrightarrow> ei_user x = u"
    and "\<exists>t. d' = d\<lparr>t_identities := t\<rparr>"
proof -
  let ?q = "\<lambda>r. idn_provider r = provider_str provider \<and> idn_external r = external"
  let ?r = "\<lparr>idn_id = k, idn_user = user, idn_provider = provider_str provider, idn_external = external,
               idn_created_at = now, idn_last_seen_at = Some now\<rparr>"
  have same: "(\<lambda>y. identity_name_clash y ?r) = ?q" by (auto simp: identity_name_clash_def)
  show "\<exists>t. d' = d\<lparr>t_identities := t\<rparr>"
    using assms by (auto simp: link_external_identity_def Let_def)
  show "find_user_by_external_identity d' provider external = Some (ei_user x)"
  proof (cases "fetch_optional ?q (t_identities d)")
    case None
    then show ?thesis
      using assms by (auto simp: link_external_identity_def Let_def same find_user_by_external_identity_def sql_insert_Inr
          fetch_optional_append split: if_splits)
  next
    case (Some y)
    then show ?thesis
      using assms by (auto simp: link_external_identity_def Let_def same find_user_by_external_identity_def sql_update_Inr
          fetch_update_where split: if_splits)
  qed
  show "ei_user x = u" if "find_user_by_external_identity d provider external = Some u"
    using that assms by (auto simp: link_external_identity_def Let_def same find_user_by_external_identity_def split: if_splits)
qed

lemma resolve_person_Inr:
  assumes "resolve_person d ku ki subject now = Inr (u, d')"
  shows "advances d d'" and "find_user_by_external_identity d' Telegram subject = Some u"
    and "find_user_by_external_identity d Telegram subject = Some v \<Longrightarrow> u = v"
    and "\<exists>us ids. d' = d\<lparr>t_users := us, t_identities := ids\<rparr>"
proof -
  obtain w d1 x where first: "(find_user_by_external_identity d Telegram subject = Some w \<and> d1 = d)
      \<or> (find_user_by_external_identity d Telegram subject = None \<and> (\<exists>y. create_user d ku now = Inr (y, d1)))"
    and link: "link_external_identity d1 ki w Telegram subject now = Inr (x, d')" and u: "u = ei_user x"
    using assms by (auto simp: resolve_person_def split: option.splits)
  have "advances d d1" using first create_user_advances by auto
  then show "advances d d'" using link_external_identity_advances [OF link] by (rule advances_trans)
  show "find_user_by_external_identity d' Telegram subject = Some u"
    using link_external_identity_Inr(1) [OF link] u by simp
  show "u = v" if "find_user_by_external_identity d Telegram subject = Some v"
    using first that link_external_identity_Inr(2) [OF link, of v] u by auto
  have "\<exists>us. d1 = d\<lparr>t_users := us\<rparr>"
  proof (cases "find_user_by_external_identity d Telegram subject")
    case None
    then show ?thesis using first by (auto simp: create_user_def)
  next
    case (Some y)
    then have "d1 = d\<lparr>t_users := t_users d\<rparr>" using first by auto
    then show ?thesis by blast
  qed
  then show "\<exists>us ids. d' = d\<lparr>t_users := us, t_identities := ids\<rparr>"
    using link_external_identity_Inr(3) [OF link] by auto
qed

lemma redeem_assertion_Inr:
  assumes "redeem_assertion d k c user now = Inr (res, d')"
  shows "res = Some k \<and> d' = d\<lparr>t_assertions := t_assertions d @ [assertion_row_of k c user now]\<rparr>
      \<or> res = None \<and> d' = d"
  using assms by (auto simp: redeem_assertion_def sql_insert_or_ignore_Inr split: if_splits)

lemma redeemed_before:
  assumes "x \<in> set (t_assertions d)" and "ax_issuer x = ac_issuer c" and "ax_nonce x = ac_nonce c"
  shows "redeem_assertion d k c user now \<noteq> Inr (Some i, d')"
  using assms by (auto simp: redeem_assertion_def sql_insert_or_ignore_Inr assertion_nonce_clash_def assertion_row_of_def
      split: if_splits)

text \<open>What an exchange that opens a session has done.\<close>

lemma mint_session_Some:
  assumes "mint_session env mn claims correlation now d = (Inr (Some m), d')"
  obtains user d1 i d2 credential token where
      "resolve_person d (xm_user mn) (xm_identity mn) (ac_subject claims) now = Inr (user, d1)"
    and "redeem_assertion d1 (xm_assertion mn) claims user now = Inr (Some i, d2)"
    and "xm_credential mn = Some (credential, token)" and "mi_credential m = credential" and "mi_user m = user"
    and "mi_expires_at m = now + telegram_session_lifetime" and "advances d d'"
    and "\<exists>audits. d' = d1\<lparr>t_assertions := t_assertions d1 @ [assertion_row_of (xm_assertion mn) claims user now],
           t_sessions := t_sessions d1 @ [session_row_of (xm_session mn) (telegram_session user (xe_audience env) token now)],
           t_audit := audits\<rparr>"
proof -
  let ?ev = "\<lambda>user s. event_of (xm_audit mn) (Some user) (Some (s_id s)) ''session.exchange_assertion'' ''session''
                (Some (s_id s)) Allowed correlation"
  obtain user d1 where person: "resolve_person d (xm_user mn) (xm_identity mn) (ac_subject claims) now = Inr (user, d1)"
    and rest: "bindE (redeem_assertion d1 (xm_assertion mn) claims user now) (\<lambda>(redeemed, d2).
         case redeemed of
           None \<Rightarrow> Inr (Abandon (Inr None), d2)
         | Some _ \<Rightarrow>
             (case xm_credential mn of
                None \<Rightarrow> Inr (Abandon (Inl RequestTimeout), d2)
              | Some (credential, token) \<Rightarrow>
                  bindE (create_session d2 (xm_session mn) (telegram_session user (xe_audience env) token now)) (\<lambda>(s, d3).
                  bindE (audit_record d3 (?ev user s) now) (\<lambda>d4.
                  Inr (Commit (Inr (Some \<lparr>mi_credential = credential, mi_expires_at = now + telegram_session_lifetime,
                                          mi_user = user\<rparr>)), d4)))))
        \<in> {Inr (Commit (Inr (Some m)), d')} \<union> {Inr (Abandon (Inr (Some m)), d'') | d''. True}"
    using assms unfolding mint_session_def by (auto dest!: transact_Inr)
  obtain d2 res where redeem: "redeem_assertion d1 (xm_assertion mn) claims user now = Inr (Some res, d2)"
    using rest by (auto split: option.splits)
  obtain credential token where cred: "xm_credential mn = Some (credential, token)"
    using rest redeem by (auto split: option.splits)
  obtain s d3 where session: "create_session d2 (xm_session mn) (telegram_session user (xe_audience env) token now) = Inr (s, d3)"
    and audit: "audit_record d3 (?ev user s) now = Inr d'"
    and m: "m = \<lparr>mi_credential = credential, mi_expires_at = now + telegram_session_lifetime, mi_user = user\<rparr>"
    using rest redeem cred by auto
  show ?thesis
  proof (rule that [OF person redeem cred])
    show "advances d d'"
      by (rule advances_trans [OF resolve_person_Inr(1) [OF person] advances_trans [OF redeem_assertion_advances [OF redeem]
            advances_trans [OF create_session_advances [OF session] audit_record_advances [OF audit]]]])
    show "\<exists>audits. d' = d1\<lparr>t_assertions := t_assertions d1 @ [assertion_row_of (xm_assertion mn) claims user now],
           t_sessions := t_sessions d1 @ [session_row_of (xm_session mn) (telegram_session user (xe_audience env) token now)],
           t_audit := audits\<rparr>"
      using redeem_assertion_Inr [OF redeem] create_session_Inr(2) [OF session] audit_record_Inr(1) [OF audit] by auto
  qed (simp_all add: m)
qed

lemma mint_session_frame:
  assumes "mint_session env mn claims correlation now d = (answer, d')"
  shows "(\<exists>m. answer = Inr (Some m)) \<or> d' = d"
  using transact_cases [OF assms [unfolded mint_session_def]]
  by (auto split: option.splits)

lemma mint_session_replayed:
  assumes "x \<in> set (t_assertions d)" and "ax_issuer x = ac_issuer claims" and "ax_nonce x = ac_nonce claims"
  shows "mint_session env mn claims correlation now d \<noteq> (Inr (Some m), d')"
proof
  assume run: "mint_session env mn claims correlation now d = (Inr (Some m), d')"
  obtain user d1 i d2 where person: "resolve_person d (xm_user mn) (xm_identity mn) (ac_subject claims) now = Inr (user, d1)"
    and redeem: "redeem_assertion d1 (xm_assertion mn) claims user now = Inr (Some i, d2)"
    using mint_session_Some [OF run] by metis
  have "x \<in> set (t_assertions d1)" using assms(1) resolve_person_Inr(4) [OF person] by auto
  then show False using redeemed_before assms(2,3) redeem by blast
qed

text \<open>The claims of a token do not depend on when it is verified.\<close>

lemma verified_claims_agree:
  assumes "verify_assertion b64 ed25519 claims_json token key audience now = Inr c"
    and "verify_assertion b64 ed25519 claims_json token key audience later = Inr c'"
  shows "c' = c"
  using assms by (auto simp: verify_assertion_def split: if_splits)

lemma exchange_telegram_replayed:
  assumes "xe_read env body = Some assertion" and "xe_key env = Some key"
    and "verify_assertion (xe_b64 env) (xe_ed25519 env) (xe_claims env) assertion key (xe_audience env) now = Inr claims"
    and "x \<in> set (t_assertions d)" and "ax_issuer x = ac_issuer claims" and "ax_nonce x = ac_nonce claims"
  shows "\<exists>kind d'. exchange_telegram env mn body correlation (later, refused_at) d = (Inl kind, d') \<and> t_sessions d' = t_sessions d"
proof -
  have refused: "\<exists>kind d'. refuse_exchange mn correlation refused_at d = (Inl kind, d') \<and> t_sessions d' = t_sessions d"
    by (simp add: refuse_exchange_def)
  show ?thesis
  proof (cases "verify_assertion (xe_b64 env) (xe_ed25519 env) (xe_claims env) assertion key (xe_audience env) later")
    case (Inl r)
    then show ?thesis using refused by (simp add: exchange_telegram_def assms(1,2))
  next
    case (Inr claims')
    then have "claims' = claims" using verified_claims_agree assms(3) by blast
    obtain answer d' where run: "mint_session env mn claims correlation later d = (answer, d')" by fastforce
    have no: "\<nexists>m. answer = Inr (Some m)" using run mint_session_replayed [OF assms(4-6)] by blast
    with mint_session_frame [OF run] have "d' = d" by blast
    then show ?thesis
      using refused no Inr \<open>claims' = claims\<close>
      by (auto simp: exchange_telegram_def assms(1,2) run split: sum.splits option.splits)
  qed
qed

text \<open>
  C16: an exchange that opens a session was given an assertion that verifies, under the configured key, for this audience
  and in its time; the session is of the person the assertion names, who keeps the user they already
  have. While the recorded nonce is kept, no exchange of the same body opens another session, at any time and
  whatever it draws.
\<close>

theorem assertion_opens_one_session:
  assumes "db_ok d" and "exchange_telegram env mn body correlation (now, refused_at) d = (Inr m, d')"
  shows "\<exists>assertion key claims token. xe_read env body = Some assertion \<and> xe_key env = Some key
     \<and> verify_assertion (xe_b64 env) (xe_ed25519 env) (xe_claims env) assertion key (xe_audience env) now = Inr claims
     \<and> db_ok d' \<and> find_user_by_external_identity d' Telegram (ac_subject claims) = Some (mi_user m)
     \<and> (\<forall>u. find_user_by_external_identity d Telegram (ac_subject claims) = Some u \<longrightarrow> mi_user m = u)
     \<and> t_sessions d' = t_sessions d
         @ [session_row_of (xm_session mn) (telegram_session (mi_user m) (xe_audience env) token now)]
     \<and> (\<forall>mn' correlation' later refused' e. set (t_assertions d') \<subseteq> set (t_assertions e) \<longrightarrow>
          (\<exists>kind e'. exchange_telegram env mn' body correlation' (later, refused') e = (Inl kind, e')
             \<and> t_sessions e' = t_sessions e))"
proof -
  obtain assertion key claims where read: "xe_read env body = Some assertion" and key: "xe_key env = Some key"
    and verified: "verify_assertion (xe_b64 env) (xe_ed25519 env) (xe_claims env) assertion key (xe_audience env) now = Inr claims"
    and minted: "mint_session env mn claims correlation now d = (Inr (Some m), d')"
    using assms(2)
    by (auto simp: exchange_telegram_def refuse_exchange_def split: option.splits sum.splits prod.splits if_splits)
  from mint_session_Some [OF minted] obtain user d1 token where
      person: "resolve_person d (xm_user mn) (xm_identity mn) (ac_subject claims) now = Inr (user, d1)"
    and m: "mi_user m = user" and adv: "advances d d'"
    and made: "\<exists>audits. d' = d1\<lparr>t_assertions := t_assertions d1 @ [assertion_row_of (xm_assertion mn) claims user now],
           t_sessions := t_sessions d1 @ [session_row_of (xm_session mn) (telegram_session user (xe_audience env) token now)],
           t_audit := audits\<rparr>"
    by metis
  note person' = resolve_person_Inr [OF person]
  have again: "\<exists>kind e'. exchange_telegram env mn' body correlation' (later, refused') e = (Inl kind, e') \<and> t_sessions e' = t_sessions e"
    if "set (t_assertions d') \<subseteq> set (t_assertions e)" for mn' correlation' later refused' e
    by (rule exchange_telegram_replayed [OF read key verified, where x = "assertion_row_of (xm_assertion mn) claims user now"])
      (use that made in \<open>auto simp: assertion_row_of_def\<close>)
  have "db_ok d'" using adv assms(1) by (simp add: advances_def)
  moreover have "find_user_by_external_identity d' Telegram (ac_subject claims) = Some (mi_user m)"
    using person'(2) made m by (auto simp: find_user_by_external_identity_def)
  moreover have "t_sessions d' = t_sessions d
         @ [session_row_of (xm_session mn) (telegram_session (mi_user m) (xe_audience env) token now)]"
    using made person'(4) m by auto
  ultimately show ?thesis
    using read key verified person'(3) m again by blast
qed

subsection \<open>Ending sessions\<close>

lemma session_update_frame: "session_at (d\<lparr>t_revocations := rs\<rparr>) i = session_at d i" "session_at (d\<lparr>t_audit := a\<rparr>) i = session_at d i"
  by (simp_all add: session_at_def)

text \<open>
  A caller ends a session only when it is their own and live, at once and alone: it authenticates no
  longer, the reason is recorded, no other session changes. Every other identifier gets the same answer, a
  missing session as a foreign one, and changes no session; only a foreign one leaves an audit record.
\<close>

lemma revocation_is_the_owners:
  assumes "db_ok d" and "revoke_own_session mn p i correlation now d = (answer, d')"
  shows "case answer of
       Inr _ \<Rightarrow> (\<exists>r \<in> set (t_sessions d). ss_id r = i \<and> ss_user r = pl_user p \<and> ss_revoked_at r = None \<and> now < ss_expires_at r)
         \<and> db_ok d' \<and> (\<forall>token audience later s. authenticate d' token audience later = Some s \<longrightarrow> s_id s \<noteq> i)
         \<and> (\<forall>j. j \<noteq> i \<longrightarrow> session_at d' j = session_at d j)
         \<and> count_revocations d' SessionSubject i = Suc (count_revocations d SessionSubject i)
     | Inl kind \<Rightarrow> (kind = NotFound \<or> kind = RequestTimeout) \<and>
         (d' = d \<or> (\<exists>r \<in> set (t_sessions d). ss_id r = i \<and> ss_user r \<noteq> pl_user p) \<and> kind = NotFound
            \<and> d' = d\<lparr>t_audit := t_audit d @ [audit_row_of (event_by (rm_audit mn) p ''session.revoke'' ''session'' (Some i)
                 Denied correlation) now]\<rparr>)"
proof (cases answer)
  case (Inr u)
  then obtain s d1 x y d2 where found: "find_session d i = Some s" and own: "s_user s = pl_user p" and live: "is_live_at s now"
    and revoked: "revoke_session d i now = Inr (x, d1)"
    and recorded: "record_revocation d1 (rm_revocations mn 0) SessionSubject i UserRequest (Some (pl_user p)) now = Inr (y, d2)"
    and audited: "audit_record d2 (event_by (rm_audit mn) p ''session.revoke'' ''session'' (Some i) Allowed correlation) now = Inr d'"
    using assms(2) unfolding revoke_own_session_def
    by (auto dest!: transact_Inr split: option.splits if_splits)
  obtain ids where ended: "revoke_where d (\<lambda>r. ss_id r = i) now = Inr (ids, d1)"
    using revoked by (auto simp: revoke_session_def)
  note e = revoke_where_Inr [OF ended]
  obtain r where r: "session_at d i = Some r" "s = session_from_row r"
    using found by (auto simp: find_session_def session_at_def)
  have row: "r \<in> set (t_sessions d)" "ss_id r = i" using r(1) by (simp_all add: session_at_iff [OF assms(1)])
  obtain rv where rv: "rv_subject_kind rv = revocation_subject_str SessionSubject" "rv_subject rv = i"
      "d2 = d1\<lparr>t_revocations := t_revocations d1 @ [rv]\<rparr>"
    using record_revocation_Inr(1) [OF recorded] by blast
  note d' = audit_record_Inr(1) [OF audited]
  have ok: "db_ok d'"
    using audit_record_Inr(2) [OF audited] record_revocation_Inr(2) [OF recorded] e(1) assms(1) by blast
  have at: "session_at d' j = session_at d1 j" for j
    by (simp add: d' rv(3) session_update_frame)
  have "session_at d' i = Some (revoked_session now r)"
    using e(2) [of i] r live row by (simp add: at is_live_at_def)
  then have out: "s' \<noteq> i" if "authenticate d' token audience later = Some t" "s' = s_id t" for token audience later t s'
    using revoked_never_authenticates [OF ok _ _ that(1)] that(2) by simp
  have others: "session_at d' j = session_at d j" if "j \<noteq> i" for j
    using e(2) [of j] that by (cases "session_at d j") (auto simp: at dest: session_at_id)
  have "t_revocations d1 = t_revocations d" using e(4) by auto
  then have "count_revocations d' SessionSubject i = Suc (count_revocations d SessionSubject i)"
    using rv by (simp add: d' count_revocations_def rows_affected_def)
  then show ?thesis
    using Inr row r(2) own live ok out others by (auto simp: is_live_at_def)
next
  case (Inl kind)
  show ?thesis
    using transact_cases [OF assms(2) [unfolded revoke_own_session_def Inl]]
    by (auto simp: Inl find_session_def dest!: fetch_optional_SomeD audit_record_Inr(1) split: option.splits if_splits)
qed

lemma record_revocations_advances: "record_revocations ids subjects user now d = Inr e \<Longrightarrow> advances d e"
proof (induction subjects arbitrary: e rule: rev_induct)
  case Nil
  then show ?case by (simp add: record_revocations_def)
next
  case (snoc i subjects)
  then obtain f x where f: "record_revocations ids subjects user now d = Inr f"
    and x: "record_revocation f (ids (length subjects)) SessionSubject i UserRequest (Some user) now = Inr (x, e)"
    by (auto simp: record_revocations_def enumerate_append_eq foldE_append)
  show ?case using snoc.IH [OF f] record_revocation_advances [OF x] by (rule advances_trans)
qed

text \<open>
  Signing out everywhere ends every session of the caller, and no other: the answer is the number of
  sessions that were live, and each of them has its reason recorded. A session that had expired unrevoked is
  revoked without one.
\<close>

lemma revoke_all_signs_out_everywhere:
  assumes "db_ok d" and "revoke_all mn p correlation now d = (Inr n, d')"
  shows "db_ok d' \<and> (\<forall>token audience later s. authenticate d' token audience later = Some s \<longrightarrow> s_user s \<noteq> pl_user p)
     \<and> (\<forall>i r. session_at d i = Some r \<longrightarrow> ss_user r \<noteq> pl_user p \<longrightarrow> session_at d' i = Some r)
     \<and> (\<exists>rs. t_revocations d' = t_revocations d @ rs \<and> map rv_subject rs = list_live_session_ids d (pl_user p) now \<and> n = length rs)
     \<and> t_devices d' = t_devices d"
proof -
  obtain m d1 d2 where revoked: "revoke_all_sessions_of_user d (pl_user p) now = Inr (m, d1)"
    and recorded: "record_revocations (rm_revocations mn) (list_live_session_ids d (pl_user p) now) (pl_user p) now d1 = Inr d2"
    and audited: "audit_record d2 (event_by (rm_audit mn) p ''session.revoke_all'' ''session'' None Allowed correlation) now = Inr d'"
    and n: "n = length (list_live_session_ids d (pl_user p) now)"
    using assms(2) unfolding revoke_all_def by (auto dest!: transact_Inr simp: Let_def)
  obtain ids where ended: "revoke_where d (\<lambda>r. ss_user r = pl_user p) now = Inr (ids, d1)"
    using revoked by (auto simp: revoke_all_sessions_of_user_def)
  note e = revoke_where_Inr [OF ended]
  obtain rs where rs: "d2 = d1\<lparr>t_revocations := t_revocations d1 @ rs\<rparr>"
      "map rv_subject rs = list_live_session_ids d (pl_user p) now"
    using revocations_recorded [OF recorded [unfolded record_revocations_def]] by blast
  note d' = audit_record_Inr(1) [OF audited]
  have "advances d d'"
    using revoke_all_sessions_of_user_advances [OF revoked] record_revocations_advances [OF recorded]
      audit_record_advances [OF audited] by (blast intro: advances_trans)
  then have ok: "db_ok d'" using assms(1) by (simp add: advances_def)
  have at: "session_at d' i = map_option (\<lambda>r. if ss_user r = pl_user p \<and> ss_revoked_at r = None then revoked_session now r else r)
      (session_at d i)" for i
    using e(2) [of i] by (simp add: d' rs(1) session_at_def)
  have out: "s_user s \<noteq> pl_user p" if a: "authenticate d' token audience later = Some s" for token audience later s
  proof -
    obtain x where x: "x \<in> set (t_sessions d')" "authenticates token audience later x" "s = session_from_row x"
      using a by (auto simp: authenticate_Some [OF ok])
    then have "session_at d' (ss_id x) = Some x" by (simp add: session_at_iff [OF ok])
    then obtain y where y: "x = (if ss_user y = pl_user p \<and> ss_revoked_at y = None then revoked_session now y else y)"
      using at [of "ss_id x"] by auto
    have "ss_revoked_at x = None" using x(2) by (simp add: authenticates_def)
    then show ?thesis using y x(3) by (auto split: if_splits)
  qed
  have "t_revocations d1 = t_revocations d" "t_devices d1 = t_devices d" using e(4) by auto
  then have "t_revocations d' = t_revocations d @ rs" "t_devices d' = t_devices d" by (simp_all add: d' rs(1))
  moreover have "n = length rs" using rs(2) n by (metis length_map)
  moreover have "session_at d' i = Some r" if "session_at d i = Some r" "ss_user r \<noteq> pl_user p" for i r
    using at [of i] that by simp
  ultimately show ?thesis using ok out rs(2) by blast
qed

subsection \<open>Walking the listing\<close>

definition live_sessions :: "uuid \<Rightarrow> instant \<Rightarrow> db \<Rightarrow> listed_session list" where
  "live_sessions user now d = map (listed_session_of d) (rev (sort_key session_key (filter (live_session user now) (t_sessions d))))"

text \<open>The instants of the rows are timestamps that a cursor can carry.\<close>

definition carried :: "cursor_env \<Rightarrow> instant \<times> uuid \<Rightarrow> bool" where
  "carried env = (\<lambda>(t, i). cu_uuid_parse env (cu_uuid_text env i) = Some i \<and> cu_timestamp env t
     \<and> - (2 ^ 63) \<le> t \<and> t < 2 ^ 63)"

lemma carried_cursor: "carried env k \<Longrightarrow> decode_cursor env (encode_cursor env k) = Some k"
  by (cases k) (simp add: carried_def cursor_roundtrip)

definition sessions_carried :: "cursor_env \<Rightarrow> db \<Rightarrow> bool" where
  "sessions_carried env d \<longleftrightarrow> db_ok d \<and> list_all (\<lambda>r. carried env (session_key r)) (t_sessions d)"

lemma listed_session_key [simp]: "listed_key (listed_session_of d r) = session_key r"
  by (simp add: listed_session_of_def session_key_def listed_key_def)

lemma live_sessions_sorted:
  assumes "db_ok d"
  shows "sorted_wrt (\<lambda>x y. listed_key y < listed_key x) (live_sessions user now d)"
proof -
  let ?rows = "filter (live_session user now) (t_sessions d)"
  have "distinct (map ss_id (t_sessions d))" by (rule sessions_table.distinct_keys [OF db_okD(13) [OF assms]])
  then have "distinct (map session_key ?rows)"
    by (auto simp: session_key_def distinct_map inj_on_def distinct_filter)
  then have "sorted_wrt (<) (map session_key (sort_key session_key ?rows))"
    by (simp add: strict_sorted_iff distinct_map)
  then show ?thesis by (simp add: live_sessions_def sorted_wrt_rev sorted_wrt_map)
qed

lemma list_live_sessions_rows:
  "list_live_sessions d user now after (int n)
     = take n (filter (\<lambda>r. behind after (listed_key r)) (live_sessions user now d))"
proof -
  have "filter (\<lambda>r. behind after (session_key r)) (rev (sort_key session_key (filter (live_session user now) (t_sessions d))))
      = rev (sort_key session_key (filter (\<lambda>r. live_session user now r
           \<and> (case after of None \<Rightarrow> True | Some a \<Rightarrow> session_key r < a)) (t_sessions d)))"
    by (cases after) (simp_all add: rev_filter [symmetric] filter_sort conj_ac)
  then show ?thesis
    by (simp add: list_live_sessions_def live_sessions_def take_map filter_map o_def nat_add_distrib)
qed

interpretation own_sessions: cursor_listing sessions_carried listed_key "live_sessions user now"
  "\<lambda>d after n. list_live_sessions d user now after n" for user now
proof unfold_locales
  show "sorted_wrt (\<lambda>x y. listed_key y < listed_key x) (live_sessions user now d)"
    if "sessions_carried env d" for env d
    using that live_sessions_sorted by (simp add: sessions_carried_def)
  show "list_live_sessions d user now after (int n)
      = take n (filter (\<lambda>r. behind after (listed_key r)) (live_sessions user now d))" for d after n
    by (rule list_live_sessions_rows)
  show "decode_cursor env (encode_cursor env (listed_key r)) = Some (listed_key r)"
    if "sessions_carried env d" "r \<in> set (live_sessions user now d)" for env d r
    using that by (auto simp: live_sessions_def sessions_carried_def list_all_iff simp del: prod.case intro!: carried_cursor)
qed


subsection \<open>Examples\<close>

definition example_claims :: assertion_claims where
  "example_claims = \<lparr>ac_issuer = telegram_issuer, ac_subject = ''4711'', ac_audience = ''edge'',
     ac_nonce = replicate 16 (CHR ''n''), ac_issued_at = 90, ac_expires_at = 200\<rparr>"

definition example_exchange_env :: exchange_env where
  "example_exchange_env = \<lparr>xe_read = Some, xe_key = Some [], xe_audience = ''edge'', xe_b64 = (\<lambda>_. Some []),
     xe_ed25519 = (\<lambda>_ _ _. True), xe_claims = (\<lambda>_. Some example_claims)\<rparr>"

definition example_exchange :: "(failure_kind + session_minted) \<times> db" where
  "example_exchange = exchange_telegram example_exchange_env
     \<lparr>xm_user = 40, xm_identity = 41, xm_assertion = 42, xm_session = 43, xm_audit = 44, xm_refusal = 45,
      xm_credential = Some (''c'', example_digest 20), xm_begins = True, xm_commits = True\<rparr>
     ''p.s'' ''correlation:1'' (100, 101) identity_example"

theorem assertion_opens_one_session_witness:
  "\<exists>m d'. example_exchange = (Inr m, d') \<and> length (t_sessions d') = Suc (length (t_sessions identity_example))
     \<and> find_user_by_external_identity d' Telegram ''4711'' = Some (mi_user m)"
proof -
  have made: "case example_exchange of (Inr _, _) \<Rightarrow> True | _ \<Rightarrow> False" by code_simp
  obtain answer d' where run: "example_exchange = (answer, d')" by fastforce
  obtain m where m: "answer = Inr m" using made unfolding run prod.case by (cases answer) simp_all
  obtain assertion key claims token where verified: "verify_assertion (xe_b64 example_exchange_env)
      (xe_ed25519 example_exchange_env) (xe_claims example_exchange_env) assertion key (xe_audience example_exchange_env) 100
        = Inr claims"
    and found: "find_user_by_external_identity d' Telegram (ac_subject claims) = Some (mi_user m)"
    and grown: "t_sessions d' = t_sessions identity_example
         @ [session_row_of 43 (telegram_session (mi_user m) (xe_audience example_exchange_env) token 100)]"
    using assertion_opens_one_session [OF identity_example_ok run [unfolded m example_exchange_def]]
    by (auto simp only: exchange_mint.select_convs)
  have "claims = example_claims"
    using verified by (auto simp: verify_assertion_def example_exchange_env_def split: if_splits)
  then have "find_user_by_external_identity d' Telegram ''4711'' = Some (mi_user m)"
    using found by (simp add: example_claims_def)
  with run m grown show ?thesis by (intro exI [of _ m] exI [of _ d']) simp
qed

definition example_caller :: principal where
  "example_caller = \<lparr>pl_user = 1, pl_session = 11, pl_device = None, pl_kind = Browser\<rparr>"

definition example_cursor_env :: cursor_env where
  "example_cursor_env = \<lparr>cu_uuid_text = (\<lambda>i. replicate (unat i) (CHR ''x'')),
     cu_uuid_parse = (\<lambda>s. Some (of_nat (length s))), cu_timestamp = (\<lambda>_. True)\<rparr>"

lemma example_sessions_carried: "sessions_carried example_cursor_env identity_example"
  unfolding sessions_carried_def
  by (intro conjI identity_example_ok) (simp add: carried_def session_key_def example_cursor_env_def
      identity_example_def example_device_session_def example_browser_session_def example_old_session_def)


end
