(* ===== verification/Device_Routes.thy ===== *)
theory Device_Routes
  imports Session_Routes
begin

text \<open>
  \<^verbatim>\<open>crates/public-api/src/devices.rs\<close>: minting a pairing code, pairing with one, and the listing and deletion of
  the caller's devices. The JSON readers, \<open>SiteId::parse\<close> and SHA-256 are parameters; what a request draws
  is its mint.
\<close>

subsection \<open>Minting a pairing code\<close>

record code_request =
  cqr_expected_kind :: "string option"
  cqr_site :: "string option"
  cqr_label :: "string option"

record pair_body =
  pb_code :: string
  pb_kind :: string
  pb_display_name :: "string option"

record device_env =
  dre_sha256 :: "string \<Rightarrow> digest"
  dre_site_id :: "string \<Rightarrow> bool"
  dre_audience :: string
  dre_read_code :: "string \<Rightarrow> code_request option"
  dre_read_pair :: "string \<Rightarrow> pair_body option"

definition pairing_code_ttl :: int where
  "pairing_code_ttl = seconds (10 * 60)"

definition device_session_ttl :: int where
  "device_session_ttl = seconds 3600"

definition refresh_ttl :: int where
  "refresh_ttl = seconds (24 * 30 * 3600)"

definition max_pair_body :: nat where
  "max_pair_body = 4096"

text \<open>A label or a name: one line of 1 to 120 characters.\<close>

definition one_line_of_120 :: "string \<Rightarrow> bool" where
  "one_line_of_120 s \<longleftrightarrow> \<not> (s = [] \<or> 120 < length s \<or> list_ex line_break s)"

definition pinned :: "device_env \<Rightarrow> code_request \<Rightarrow> (device_kind option \<times> string option) option" where
  "pinned env q =
     Option.bind (case cqr_expected_kind q of None \<Rightarrow> Some None
                  | Some raw \<Rightarrow> map_option Some (device_kind_from_str raw)) (\<lambda>expected.
       if \<not> opt_ok one_line_of_120 (cqr_label q) then None
       else (case (expected, cqr_site q) of
           (Some SiteDeployer, Some site) \<Rightarrow> if dre_site_id env site then Some (expected, Some site) else None
         | (Some SiteDeployer, None) \<Rightarrow> None
         | (_, Some _) \<Rightarrow> None
         | (_, None) \<Rightarrow> Some (expected, None)))"

record code_mint =
  cmt_code :: "(string \<times> digest) option"
  cmt_row :: uuid
  cmt_audit :: uuid
  cmt_begins :: bool
  cmt_commits :: bool

record code_issued =
  ci_code :: string
  ci_expires_at :: instant

text \<open>The clock is read for a denial, for the grant, and for the request itself.\<close>

definition create_pairing_code ::
  "device_env \<Rightarrow> code_mint \<Rightarrow> principal \<Rightarrow> string \<Rightarrow> string \<Rightarrow> instant \<times> instant \<times> instant \<Rightarrow> db
     \<Rightarrow> (failure_kind + code_issued) \<times> db" where
  "create_pairing_code env mn p body correlation = (\<lambda>(denied_at, asked_at, now) d.
     if pl_kind p = DeviceKindSession then
       (case audit_record d (event_by (cmt_audit mn) p ''device.pairing_code_create'' ''pairing_code'' None Denied correlation)
               denied_at of
          Inl _ \<Rightarrow> (Inl RequestTimeout, d)
        | Inr d' \<Rightarrow> (Inl NotAuthenticated, d'))
     else case dre_read_code env body of
       None \<Rightarrow> (Inl InvalidRequest, d)
     | Some q \<Rightarrow>
         (case pinned env q of
            None \<Rightarrow> (Inl InvalidRequest, d)
          | Some (expected, site) \<Rightarrow>
              (case (if site \<noteq> None then require_owner d p asked_at else Inr ()) of
                 Inl kind \<Rightarrow> (Inl kind, d)
               | Inr _ \<Rightarrow>
                   (case cmt_code mn of
                      None \<Rightarrow> (Inl RequestTimeout, d)
                    | Some (code, digest) \<Rightarrow>
                        transact (cmt_begins mn, cmt_commits mn) d (\<lambda>d0.
                          bindE (create_code d0 (cmt_row mn)
                                   \<lparr>np_user = pl_user p, np_created_by = pl_session p, np_expected_kind = expected,
                                    np_site = site, np_label = cqr_label q, np_code = digest, np_now = now,
                                    np_expires_at = now + pairing_code_ttl\<rparr>) (\<lambda>(created, d1).
                          bindE (audit_record d1 (event_by (cmt_audit mn) p ''device.pairing_code_create'' ''pairing_code''
                                   (Some (pg_id created)) Allowed correlation) now) (\<lambda>d2.
                          Inr (Commit (Inr \<lparr>ci_code = code, ci_expires_at = now + pairing_code_ttl\<rparr>), d2))))))))"

subsection \<open>Pairing\<close>

record pair_mint =
  pmt_device_secret :: "(string \<times> digest) option"
  pmt_access :: "(string \<times> digest) option"
  pmt_refresh :: "(string \<times> digest) option"
  pmt_rows :: "uuid \<times> uuid \<times> uuid"
  pmt_audit :: uuid
  pmt_refusal :: uuid
  pmt_begins :: bool
  pmt_commits :: bool

record paired =
  pdd_device :: uuid
  pdd_user :: uuid
  pdd_device_secret :: string
  pdd_credential :: string
  pdd_expires_at :: instant
  pdd_refresh_token :: string
  pdd_refresh_expires_at :: instant

definition refuse_pair :: "pair_mint \<Rightarrow> string \<Rightarrow> instant \<Rightarrow> db \<Rightarrow> (failure_kind + 'a) \<times> db" where
  "refuse_pair mn correlation refused_at d =
     (Inl NotAuthenticated, audit_apart d (event_of (pmt_refusal mn) None None ''device.pair'' ''pairing_code'' None Denied
        correlation) refused_at)"

definition redemption :: "device_env \<Rightarrow> device_kind \<Rightarrow> pair_body \<Rightarrow> digest \<Rightarrow> digest \<Rightarrow> digest \<Rightarrow> instant \<Rightarrow> pair_request" where
  "redemption env declared q secret access refresh now =
     \<lparr>pr_presented = dre_sha256 env (pb_code q), pr_declared_kind = declared, pr_display_name = pb_display_name q,
      pr_device_secret = secret, pr_access_token = access, pr_refresh_token = refresh, pr_audience = dre_audience env,
      pr_now = now, pr_access_expires_at = now + device_session_ttl, pr_refresh_expires_at = now + refresh_ttl\<rparr>"

definition paired_answer :: "redeemed_pairing \<Rightarrow> string \<Rightarrow> string \<Rightarrow> string \<Rightarrow> paired" where
  "paired_answer g secret access refresh =
     \<lparr>pdd_device = d_id (rp_device g), pdd_user = rp_user g, pdd_device_secret = secret, pdd_credential = access,
      pdd_expires_at = s_expires_at (rp_session g), pdd_refresh_token = refresh,
      pdd_refresh_expires_at = tk_expires_at (rp_refresh g)\<rparr>"

text \<open>The answer \<open>None\<close> of the transaction is a refused code: its transaction is dropped, not committed.\<close>

definition exchange_code ::
  "device_env \<Rightarrow> pair_mint \<Rightarrow> device_kind \<Rightarrow> pair_body \<Rightarrow> (string \<times> digest) \<times> (string \<times> digest) \<times> (string \<times> digest)
     \<Rightarrow> string \<Rightarrow> instant \<Rightarrow> db \<Rightarrow> (failure_kind + paired option) \<times> db" where
  "exchange_code env mn declared q = (\<lambda>(secret, access, refresh) correlation now d.
     transact (pmt_begins mn, pmt_commits mn) d (\<lambda>d0.
       bindE (redeem_pairing d0 (pmt_rows mn) (redemption env declared q (snd secret) (snd access) (snd refresh) now))
         (\<lambda>(redeemed, d1).
         case redeemed of
           Inl _ \<Rightarrow> Inr (Abandon (Inr None), d1)
         | Inr g \<Rightarrow>
             bindE (audit_record d1 (event_of (pmt_audit mn) (Some (rp_user g)) None ''device.pair'' ''device''
                      (Some (d_id (rp_device g))) Allowed correlation) now) (\<lambda>d2.
             Inr (Commit (Inr (Some (paired_answer g (fst secret) (fst access) (fst refresh)))), d2)))))"

text \<open>The route behind its limiter, and the route. All callers share one bucket.\<close>

definition pair_admitted ::
  "device_env \<Rightarrow> pair_mint \<Rightarrow> string \<Rightarrow> string \<Rightarrow> instant \<times> instant \<Rightarrow> db \<Rightarrow> (failure_kind + paired) \<times> db" where
  "pair_admitted env mn body correlation = (\<lambda>(now, refused_at) d.
     if max_pair_body < length body then refuse_pair mn correlation refused_at d
     else case dre_read_pair env body of
       None \<Rightarrow> (Inl InvalidRequest, d)
     | Some q \<Rightarrow>
         if pb_code q = [] \<or> 128 < length (pb_code q) then refuse_pair mn correlation refused_at d
         else (case device_kind_from_str (pb_kind q) of
             None \<Rightarrow> (Inl InvalidRequest, d)
           | Some declared \<Rightarrow>
               if \<not> opt_ok one_line_of_120 (pb_display_name q) then (Inl InvalidRequest, d)
               else (case (pmt_device_secret mn, pmt_access mn, pmt_refresh mn) of
                   (Some secret, Some access, Some refresh) \<Rightarrow>
                     (case exchange_code env mn declared q (secret, access, refresh) correlation now d of
                        (Inl kind, d') \<Rightarrow> (Inl kind, d')
                      | (Inr None, d') \<Rightarrow> refuse_pair mn correlation refused_at d'
                      | (Inr (Some g), d') \<Rightarrow> (Inr g, d'))
                 | _ \<Rightarrow> (Inl RequestTimeout, d))))"

definition pair ::
  "device_env \<Rightarrow> pair_mint \<Rightarrow> string \<Rightarrow> string \<Rightarrow> instant \<times> instant \<times> instant \<Rightarrow> actor_limiter \<times> db
     \<Rightarrow> (failure_kind + paired) \<times> actor_limiter \<times> db" where
  "pair env mn body correlation = (\<lambda>(admitted_at, now, refused_at) (l, d).
     (case admit l 0 admitted_at of
        (False, l') \<Rightarrow> (Inl RateLimited, l', d)
      | (True, l') \<Rightarrow> (case pair_admitted env mn body correlation (now, refused_at) d of (answer, d') \<Rightarrow> (answer, l', d'))))"

subsection \<open>Listing and deleting\<close>

definition listed_device_key :: "listed_device \<Rightarrow> instant \<times> uuid" where
  "listed_device_key x = (ld_created_at x, ld_id x)"

definition list_devices ::
  "cursor_env \<Rightarrow> principal \<Rightarrow> string option \<Rightarrow> string option \<Rightarrow> db \<Rightarrow> failure_kind + listed_device list \<times> string option" where
  "list_devices env p limit cursor d =
     answered_page env listed_device_key (\<lambda>after n. list_active_devices d (pl_user p) after n) limit cursor"

text \<open>The mint of a revocation: \<open>rm_revocations 0\<close> is the device's record, the sessions' follow.\<close>

definition delete_device ::
  "revoke_mint \<Rightarrow> principal \<Rightarrow> uuid \<Rightarrow> string \<Rightarrow> instant \<Rightarrow> db \<Rightarrow> (failure_kind + unit) \<times> db" where
  "delete_device mn p device_id correlation now d =
     transact (rm_begins mn, rm_commits mn) d (\<lambda>d0.
       case find_device d0 device_id of
         None \<Rightarrow> Inr (Abandon (Inl NotFound), d0)
       | Some x \<Rightarrow>
           if d_user x \<noteq> pl_user p then
             bindE (audit_record d0 (event_by (rm_audit mn) p ''device.revoke'' ''device'' (Some device_id) Denied correlation) now)
               (\<lambda>d1. Inr (Commit (Inl NotFound), d1))
           else if \<not> is_active x then Inr (Abandon (Inl NotFound), d0)
           else bindE (revoke_device d0 device_id now) (\<lambda>(sessions, d1).
                bindE (record_revocation d1 (rm_revocations mn 0) DeviceSubject device_id UserRequest (Some (pl_user p)) now)
                  (\<lambda>(_, d2).
                bindE (record_revocations (\<lambda>n. rm_revocations mn (Suc n)) sessions (pl_user p) now d2) (\<lambda>d3.
                bindE (audit_record d3 (event_by (rm_audit mn) p ''device.revoke'' ''device'' (Some device_id) Allowed correlation)
                         now) (\<lambda>d4. Inr (Commit (Inr ()), d4))))))"

subsection \<open>A refused presentation changes no code\<close>

lemma exchange_code_frame:
  assumes "exchange_code env mn declared q (secret, access, refresh) correlation now d = (answer, d')"
  shows "(\<exists>g. answer = Inr (Some g)) \<or> d' = d"
proof (rule ccontr)
  let ?run = "redeem_pairing d (pmt_rows mn) (redemption env declared q (snd secret) (snd access) (snd refresh) now)"
  assume no: "\<not> ?thesis"
  note steps = transact_cases [OF assms [unfolded exchange_code_def prod.case]]
  obtain redeemed d1 where run: "?run = Inr (redeemed, d1)" using steps no by auto
  show False using steps no run by (cases redeemed) auto
qed

lemma exchange_code_Some:
  assumes "exchange_code env mn declared q (secret, access, refresh) correlation now d = (Inr (Some g), d')"
  shows "\<exists>x d1. redeem_pairing d (pmt_rows mn) (redemption env declared q (snd secret) (snd access) (snd refresh) now) = Inr (Inr x, d1)
    \<and> g = paired_answer x (fst secret) (fst access) (fst refresh)
    \<and> audit_record d1 (event_of (pmt_audit mn) (Some (rp_user x)) None ''device.pair'' ''device'' (Some (d_id (rp_device x)))
           Allowed correlation) now = Inr d'"
proof -
  let ?run = "redeem_pairing d (pmt_rows mn) (redemption env declared q (snd secret) (snd access) (snd refresh) now)"
  note steps = transact_Inr [OF assms [unfolded exchange_code_def prod.case]]
  obtain redeemed d1 where run: "?run = Inr (redeemed, d1)" using steps by auto
  show ?thesis
  proof (cases redeemed)
    case (Inl x)
    then show ?thesis using steps run by simp
  next
    case (Inr x)
    then show ?thesis using steps run by auto
  qed
qed

lemma pair_answered:
  assumes "pair env mn body correlation (admitted_at, now, refused_at) (l, d) = (Inr g, l', d')"
  obtains q declared secret access refresh where "dre_read_pair env body = Some q"
    and "device_kind_from_str (pb_kind q) = Some declared"
    and "exchange_code env mn declared q (secret, access, refresh) correlation now d = (Inr (Some g), d')"
proof -
  have run: "pair_admitted env mn body correlation (now, refused_at) d = (Inr g, d')"
    using assms by (simp add: pair_def split: prod.splits bool.splits)
  then obtain q where q: "dre_read_pair env body = Some q"
    by (cases "dre_read_pair env body") (simp_all add: pair_admitted_def refuse_pair_def split: if_splits)
  from run q obtain declared where declared: "device_kind_from_str (pb_kind q) = Some declared"
    by (cases "device_kind_from_str (pb_kind q)") (simp_all add: pair_admitted_def refuse_pair_def split: if_splits)
  from run q declared obtain secret where secret: "pmt_device_secret mn = Some secret"
    by (cases "pmt_device_secret mn") (simp_all add: pair_admitted_def refuse_pair_def split: if_splits)
  from run q declared secret obtain access where access: "pmt_access mn = Some access"
    by (cases "pmt_access mn") (simp_all add: pair_admitted_def refuse_pair_def split: if_splits)
  from run q declared secret access obtain refresh where refresh: "pmt_refresh mn = Some refresh"
    by (cases "pmt_refresh mn") (simp_all add: pair_admitted_def refuse_pair_def split: if_splits)
  obtain answer e where ex: "exchange_code env mn declared q (secret, access, refresh) correlation now d = (answer, e)"
    by fastforce
  have "answer = Inr (Some g) \<and> e = d'"
    using run q declared secret access refresh ex
    by (simp add: pair_admitted_def refuse_pair_def split: if_splits sum.splits option.splits)
  then show ?thesis using that [OF q declared] ex by simp
qed

text \<open>Only a pairing that is answered changes anything but the audit trail.\<close>

lemma pair_refused_frame:
  assumes "pair env mn body correlation (admitted_at, now, refused_at) (l, d) = (Inl kind, l', d')"
  shows "\<exists>a. d' = d\<lparr>t_audit := a\<rparr>"
proof -
  have same: "\<exists>a. d = d\<lparr>t_audit := a\<rparr>" by (rule exI [of _ "t_audit d"]) simp
  have "pair_admitted env mn body correlation (now, refused_at) d = (Inl kind, d') \<or> d' = d"
    using assms by (auto simp: pair_def split: prod.splits bool.splits)
  then show ?thesis
  proof
    assume "pair_admitted env mn body correlation (now, refused_at) d = (Inl kind, d')"
    then have "d' = d \<or> (\<exists>e. d' = audit_apart d e refused_at)"
      by (auto simp: pair_admitted_def refuse_pair_def split: prod.splits if_splits option.splits sum.splits
          dest!: exchange_code_frame)
    then show ?thesis using same audit_apart_frame by auto
  qed (use same in simp)
qed

lemma wrong_kind_never_redeems:
  assumes "table_ok pairing_ok pairing_clash (t_pairing d)" and "r \<in> set (t_pairing d)" and "pairing_pending r"
    and "pc_code_hash r = pr_presented q" and "pc_expected_kind r = Some k"
    and "device_kind_from_str k \<noteq> Some (pr_declared_kind q)"
  shows "redeem_pairing d ids q \<noteq> Inr (Inr g, d')"
proof
  assume run: "redeem_pairing d ids q = Inr (Inr g, d')"
  obtain kd ks kr where ids: "ids = (kd, ks, kr)" by (cases ids)
  from redeem_pairing_success [OF run [unfolded ids]] obtain x where
      x: "fetch_optional (acceptable (pr_presented q) (pr_now q)) (t_pairing d) = Some x"
    and kind: "kind_refused d x (pr_declared_kind q) = Inr (False, d)" by metis
  have "x \<in> set (t_pairing d)" "pc_code_hash x = pc_code_hash r" "pairing_pending x"
    using fetch_optional_SomeD [OF x] assms(4) by (auto dest: acceptable_pending)
  then have "x = r"
    using pairing_table.unclashing [OF assms(1) _ assms(2)] assms(3) by (simp add: pairing_clash_def)
  then show False using kind assms(5,6) by (auto simp: kind_refused_def split: if_splits)
qed

text \<open>Requests to the pairing route, one after the other.\<close>

fun presentations ::
  "device_env \<Rightarrow> (pair_mint \<times> string \<times> string \<times> instant \<times> instant \<times> instant) list \<Rightarrow> actor_limiter \<times> db
     \<Rightarrow> (failure_kind + paired) list \<times> actor_limiter \<times> db" where
  "presentations env [] st = ([], st)"
| "presentations env ((mn, body, correlation, clock) # rest) st =
     (case pair env mn body correlation clock st of (answer, st') \<Rightarrow>
        (case presentations env rest st' of (answers, st'') \<Rightarrow> (answer # answers, st'')))"

definition wrong_kind :: "device_env \<Rightarrow> pairing_row \<Rightarrow> string \<Rightarrow> bool" where
  "wrong_kind env r body \<longleftrightarrow> (case dre_read_pair env body of None \<Rightarrow> False
     | Some q \<Rightarrow> dre_sha256 env (pb_code q) = pc_code_hash r
         \<and> (case (pc_expected_kind r, device_kind_from_str (pb_kind q)) of
              (Some k, Some declared) \<Rightarrow> device_kind_from_str k \<noteq> Some declared
            | _ \<Rightarrow> False))"

lemma wrong_kind_refused:
  assumes "table_ok pairing_ok pairing_clash (t_pairing d)" and "r \<in> set (t_pairing d)" and "pairing_pending r"
    and "wrong_kind env r body"
  shows "pair env mn body correlation (admitted_at, now, refused_at) (l, d) \<noteq> (Inr g, l', d')"
proof
  assume run: "pair env mn body correlation (admitted_at, now, refused_at) (l, d) = (Inr g, l', d')"
  obtain q k declared where q: "dre_read_pair env body = Some q" "dre_sha256 env (pb_code q) = pc_code_hash r"
      "pc_expected_kind r = Some k" "device_kind_from_str (pb_kind q) = Some declared" "device_kind_from_str k \<noteq> Some declared"
    using assms(4) by (auto simp: wrong_kind_def split: option.splits)
  from run show False
  proof (rule pair_answered)
    fix q' declared' secret access refresh
    assume q': "dre_read_pair env body = Some q'" "device_kind_from_str (pb_kind q') = Some declared'"
      and ex: "exchange_code env mn declared' q' (secret, access, refresh) correlation now d = (Inr (Some g), d')"
    let ?r = "redemption env declared' q' (snd secret) (snd access) (snd refresh) now"
    have same: "q' = q" "declared' = declared" using q' q(1,4) by simp_all
    have "pr_presented ?r = pc_code_hash r" "pr_declared_kind ?r = declared" by (simp_all add: redemption_def same q(2))
    then have "redeem_pairing d (pmt_rows mn) ?r \<noteq> Inr (Inr x, d1)" for x d1
      using wrong_kind_never_redeems [OF assms(1-3), of ?r] q(3,5) by simp
    then show False using exchange_code_Some [OF ex] by blast
  qed
qed

text \<open>
  C21: as the route is served, presenting a pinned code with another kind of device costs nothing: the
  transaction that counts the attempt is dropped. However many such presentations are made, at any rate and at any
  time, each is refused and every pairing code keeps its count of failed attempts, so a code is never
  exhausted.
\<close>

theorem wrong_kind_presentations_are_not_counted:
  assumes "db_ok d" and "r \<in> set (t_pairing d)" and "pairing_pending r"
    and "\<forall>(mn, body, rest) \<in> set qs. wrong_kind env r body"
  shows "\<exists>answers l' d'. presentations env qs (l, d) = (answers, l', d') \<and> length answers = length qs
     \<and> list_all isl answers \<and> t_pairing d' = t_pairing d \<and> t_devices d' = t_devices d \<and> t_sessions d' = t_sessions d"
proof -
  have "\<exists>answers l' a. presentations env qs (l, d\<lparr>t_audit := b\<rparr>) = (answers, l', d\<lparr>t_audit := a\<rparr>)
      \<and> length answers = length qs \<and> list_all isl answers" for b
    using assms(4)
  proof (induction qs arbitrary: l b)
    case Nil
    show ?case by (intro exI [of _ "[]"] exI [of _ l] exI [of _ b]) simp
  next
    case (Cons x qs)
    obtain mn body correlation admitted_at now refused_at
      where x: "x = (mn, body, correlation, admitted_at, now, refused_at)" by (cases x) auto
    obtain answer l1 d1 where run: "pair env mn body correlation (admitted_at, now, refused_at) (l, d\<lparr>t_audit := b\<rparr>) = (answer, l1, d1)"
      by (rule prod_cases3)
    have "answer \<noteq> Inr g" for g
      using wrong_kind_refused [of "d\<lparr>t_audit := b\<rparr>" r env body] db_okD(18) [OF assms(1)] assms(2,3) Cons.prems run
      by (auto simp: x)
    then obtain kind where kind: "answer = Inl kind" by (cases answer) auto
    obtain a where "d1 = (d\<lparr>t_audit := b\<rparr>)\<lparr>t_audit := a\<rparr>" using pair_refused_frame [OF run [unfolded kind]] by blast
    then have d1: "d1 = d\<lparr>t_audit := a\<rparr>" by simp
    obtain answers l2 a2 where rest: "presentations env qs (l1, d\<lparr>t_audit := a\<rparr>) = (answers, l2, d\<lparr>t_audit := a2\<rparr>)"
        "length answers = length qs" "list_all isl answers"
      using Cons.IH [of l1 a] Cons.prems by fastforce
    have "presentations env (x # qs) (l, d\<lparr>t_audit := b\<rparr>) = (answer # answers, l2, d\<lparr>t_audit := a2\<rparr>)"
      using run rest(1) by (simp add: x d1)
    then show ?case using rest(2,3) kind by (intro exI [of _ "answer # answers"] exI [of _ l2] exI [of _ a2]) simp
  qed
  from this [of "t_audit d"] obtain answers l' a where
    "presentations env qs (l, d) = (answers, l', d\<lparr>t_audit := a\<rparr>)" "length answers = length qs" "list_all isl answers"
    by auto
  then show ?thesis by (intro exI [of _ answers] exI [of _ l'] exI [of _ "d\<lparr>t_audit := a\<rparr>"]) simp
qed

subsection \<open>Deleting a device\<close>

text \<open>
  A caller deletes only an active device of their own: it and every session it opened are ended, each with its
  reason recorded, and no other device and no other session changes. Every other identifier gets the
  answer of a missing one and changes nothing but the audit trail.
\<close>

lemma deletion_is_the_owners:
  assumes "db_ok d" and "delete_device mn p i correlation now d = (answer, d')"
  shows "case answer of
       Inr _ \<Rightarrow> (\<exists>x. device_at d i = Some x \<and> dv_user x = pl_user p \<and> dv_revoked_at x = None)
         \<and> (\<exists>x. device_at d' i = Some x \<and> dv_revoked_at x = Some now)
         \<and> (\<forall>j. j \<noteq> i \<longrightarrow> device_at d' j = device_at d j)
         \<and> (\<forall>j. session_at d' j = map_option (\<lambda>r. if ss_device r = Some i \<and> ss_revoked_at r = None then revoked_session now r
               else r) (session_at d j))
         \<and> (\<exists>r rs. t_revocations d' = t_revocations d @ r # rs \<and> rv_subject r = i \<and> rv_subject_kind r = ''device''
              \<and> map rv_subject rs = map ss_id (filter (\<lambda>r. ss_device r = Some i \<and> ss_revoked_at r = None) (t_sessions d)))
     | Inl kind \<Rightarrow> (kind = NotFound \<or> kind = RequestTimeout) \<and> (\<exists>a. d' = d\<lparr>t_audit := a\<rparr>)"
proof (cases answer)
  case (Inr u)
  then obtain x sessions d1 y d2 d3 where found: "find_device d i = Some x" and own: "d_user x = pl_user p" and active: "is_active x"
    and revoked: "revoke_device d i now = Inr (sessions, d1)"
    and first: "record_revocation d1 (rm_revocations mn 0) DeviceSubject i UserRequest (Some (pl_user p)) now = Inr (y, d2)"
    and recorded: "record_revocations (\<lambda>n. rm_revocations mn (Suc n)) sessions (pl_user p) now d2 = Inr d3"
    and audited: "audit_record d3 (event_by (rm_audit mn) p ''device.revoke'' ''device'' (Some i) Allowed correlation) now = Inr d'"
    using assms(2) unfolding delete_device_def
    by (auto dest!: transact_Inr split: option.splits if_splits)
  obtain r where r: "device_at d i = Some r" "x = \<lparr>d_id = dv_id r, d_user = dv_user r, d_kind = stored_device_kind r,
      d_display_name = dv_display_name r, d_site = dv_site r, d_created_at = dv_created_at r, d_revoked_at = dv_revoked_at r\<rparr>"
    using found by (auto simp: find_device_def device_at_def)
  let ?p = "\<lambda>r. dv_id r = i \<and> dv_revoked_at r = None" and ?f = "\<lambda>r. r\<lparr>dv_revoked_at := Some now\<rparr>"
  let ?d1 = "d\<lparr>t_devices := update_where ?p ?f (t_devices d)\<rparr>"
  have ended: "revoke_where ?d1 (\<lambda>r. ss_device r = Some i) now = Inr (sessions, d1)"
    using revoke_device_Inr [OF revoked] by metis
  note e = revoke_where_Inr [OF ended]
  obtain v where v: "d1 = ?d1\<lparr>t_sessions := v\<rparr>" using e(4) by blast
  obtain rv where rv: "rv_subject_kind rv = revocation_subject_str DeviceSubject" "rv_subject rv = i"
      "d2 = d1\<lparr>t_revocations := t_revocations d1 @ [rv]\<rparr>"
    using record_revocation_Inr(1) [OF first] by blast
  obtain rs where rs: "d3 = d2\<lparr>t_revocations := t_revocations d2 @ rs\<rparr>" "map rv_subject rs = sessions"
    using revocations_recorded [OF recorded [unfolded record_revocations_def]] by blast
  note d' = audit_record_Inr(1) [OF audited]
  have devices: "device_at d' j = map_option (\<lambda>r. if ?p r then ?f r else r) (device_at d j)" for j
    by (simp add: d' rs(1) rv(3) v device_at_def fetch_update_where)
  have "session_at d' j = session_at d1 j" for j by (simp add: d' rs(1) rv(3) session_at_def)
  then have sess: "session_at d' j = map_option (\<lambda>r. if ss_device r = Some i \<and> ss_revoked_at r = None then revoked_session now r
      else r) (session_at d j)" for j
    using e(2) [of j] by (simp add: session_at_def)
  have revs: "t_revocations d' = t_revocations d @ rv # rs" by (simp add: d' rs(1) rv(3) v)
  have id: "dv_id r = i" using r(1) fetch_optional_SomeD by (fastforce simp: device_at_def)
  have "device_at d' i = Some (?f r)" using devices [of i] r active id by (simp add: is_active_def)
  moreover have "device_at d' j = device_at d j" if "j \<noteq> i" for j
    using devices [of j] that by (cases "device_at d j") (auto simp: device_at_def dest!: fetch_optional_SomeD)
  moreover have "sessions = map ss_id (filter (\<lambda>r. ss_device r = Some i \<and> ss_revoked_at r = None) (t_sessions d))"
    using e(3) by simp
  ultimately show ?thesis
    using Inr r own active sess revs rv(1,2) rs(2) by (simp add: is_active_def)
next
  case (Inl kind)
  have same: "\<exists>a. d = d\<lparr>t_audit := a\<rparr>" by (rule exI [of _ "t_audit d"]) simp
  have "(kind = NotFound \<or> kind = RequestTimeout) \<and> (d' = d \<or> (\<exists>a. d' = d\<lparr>t_audit := t_audit d @ a\<rparr>))"
    using transact_cases [OF assms(2) [unfolded delete_device_def Inl]]
    by (auto dest!: audit_record_Inr(1) split: option.splits if_splits)
  then show ?thesis using same by (auto simp: Inl)
qed

subsection \<open>The listing\<close>

definition devices_carried :: "cursor_env \<Rightarrow> db \<Rightarrow> bool" where
  "devices_carried env d \<longleftrightarrow> db_ok d \<and> list_all (\<lambda>r. carried env (device_key r)) (t_devices d)"

lemma listed_device_key_of [simp]: "listed_device_key (listed_device_of r) = device_key r"
  by (simp add: listed_device_of_def device_key_def listed_device_key_def)

interpretation own_devices: cursor_listing devices_carried listed_device_key "\<lambda>d. map listed_device_of (active_devices d user)"
  "\<lambda>d after n. list_active_devices d user after n" for user
proof unfold_locales
  fix env d assume "devices_carried env d"
  then have "distinct (map dv_id (t_devices d))"
    using devices_table.distinct_keys [OF db_okD(12)] by (simp add: devices_carried_def)
  then have "distinct (map device_key (filter (\<lambda>r. dv_user r = user \<and> dv_revoked_at r = None) (t_devices d)))"
    by (auto simp: device_key_def distinct_map inj_on_def distinct_filter)
  then have "sorted_wrt (<) (map device_key (sort_key device_key
      (filter (\<lambda>r. dv_user r = user \<and> dv_revoked_at r = None) (t_devices d))))"
    by (simp add: strict_sorted_iff distinct_map)
  then show "sorted_wrt (\<lambda>x y. listed_device_key y < listed_device_key x) (map listed_device_of (active_devices d user))"
    by (simp add: active_devices_def sorted_wrt_rev sorted_wrt_map)
next
  show "list_active_devices d user after (int n)
      = take n (filter (\<lambda>r. behind after (listed_device_key r)) (map listed_device_of (active_devices d user)))" for d after n
    by (simp add: list_active_devices_rows take_map filter_map o_def)
next
  show "decode_cursor env (encode_cursor env (listed_device_key r)) = Some (listed_device_key r)"
    if "devices_carried env d" "r \<in> set (map listed_device_of (active_devices d user))" for env d r
    using that by (auto simp: active_devices_def devices_carried_def list_all_iff intro!: carried_cursor)
qed

lemma device_walk_is_complete:
  assumes "devices_carried env d" and "page_limit limit = Some n"
  shows "cursor_walk (Suc (length (active_devices d (pl_user p)))) (\<lambda>cursor. list_devices env p limit cursor d) None
      = Inr (map listed_device_of (active_devices d (pl_user p)))"
  using own_devices.walk_answers_everything [OF assms, of "pl_user p"] by (simp add: list_devices_def)

subsection \<open>Six presentations of the wrong kind\<close>

definition example_device_env :: device_env where
  "example_device_env = \<lparr>dre_sha256 = (\<lambda>_. example_digest 5), dre_site_id = (\<lambda>_. True), dre_audience = ''edge'',
     dre_read_code = (\<lambda>_. None),
     dre_read_pair = (\<lambda>_. Some \<lparr>pb_code = ''code'', pb_kind = ''export_agent'', pb_display_name = None\<rparr>)\<rparr>"

definition example_pair_mint :: pair_mint where
  "example_pair_mint = \<lparr>pmt_device_secret = Some (''s'', example_digest 30), pmt_access = Some (''a'', example_digest 31),
     pmt_refresh = Some (''r'', example_digest 32), pmt_rows = (70, 71, 72), pmt_audit = 73, pmt_refusal = 74,
     pmt_begins = True, pmt_commits = True\<rparr>"

definition example_presentations :: "(pair_mint \<times> string \<times> string \<times> instant \<times> instant \<times> instant) list" where
  "example_presentations = replicate 6 (example_pair_mint, ''{}'', ''correlation:1'', 100, 100, 100)"

theorem wrong_kind_presentations_are_not_counted_witness:
  "\<exists>answers l d'. presentations example_device_env example_presentations (new_limiter 20, identity_example) = (answers, l, d')
     \<and> length answers = 6 \<and> list_all isl answers \<and> t_pairing d' = [example_code]"
proof -
  have r: "example_code \<in> set (t_pairing identity_example)" "pairing_pending example_code"
    by (simp_all add: identity_example_def example_code_def pairing_pending_def)
  have "wrong_kind example_device_env example_code ''{}''" by code_simp
  then have "\<forall>(mn, body, rest) \<in> set example_presentations. wrong_kind example_device_env example_code body"
    by (simp add: example_presentations_def in_set_replicate)
  moreover have "t_pairing identity_example = [example_code]" by (simp add: identity_example_def)
  moreover have "length example_presentations = 6" by (simp add: example_presentations_def)
  ultimately show ?thesis
    using wrong_kind_presentations_are_not_counted [OF identity_example_ok r, of example_presentations example_device_env
        "new_limiter 20"]
    by auto
qed

end
