(* ===== verification/Credential_Routes.thy ===== *)
theory Credential_Routes
  imports Device_Routes
begin

text \<open>
  \<^verbatim>\<open>crates/public-api/src/credentials.rs\<close>: a device opens a session with its root secret, and a session's
  credentials are rotated by its refresh link. Both routes are unauthenticated.
\<close>

record credential_env =
  cre_sha256 :: "string \<Rightarrow> digest"
  cre_audience :: string
  cre_read_login :: "string \<Rightarrow> (uuid \<times> string) option"
  cre_read_refresh :: "string \<Rightarrow> string option"

record credential_mint =
  crm_access :: "(string \<times> digest) option"
  crm_refresh :: "(string \<times> digest) option"
  crm_session :: uuid
  crm_link :: uuid
  crm_audit :: uuid
  crm_refusal :: uuid
  crm_begins :: bool
  crm_commits :: bool

definition max_credential_body :: nat where
  "max_credential_body = 2048"

definition mint_pair :: "credential_mint \<Rightarrow> ((string \<times> digest) \<times> (string \<times> digest)) option" where
  "mint_pair mn = Option.bind (crm_access mn) (\<lambda>access. map_option (Pair access) (crm_refresh mn))"

subsection \<open>Logging in\<close>

record session_opened =
  dso_user :: uuid
  dso_device :: uuid
  dso_credential :: string
  dso_expires_at :: instant
  dso_refresh_token :: string
  dso_refresh_expires_at :: instant

definition refuse_device :: "credential_mint \<Rightarrow> string \<Rightarrow> uuid option \<Rightarrow> instant \<Rightarrow> db \<Rightarrow> (failure_kind + 'a) \<times> db" where
  "refuse_device mn correlation attempted refused_at d =
     (Inl NotAuthenticated, audit_apart d (event_of (crm_refusal mn) None None ''session.open_device'' ''device'' attempted
        Denied correlation) refused_at)"

definition login_session :: "credential_env \<Rightarrow> uuid \<Rightarrow> uuid \<Rightarrow> digest \<Rightarrow> instant \<Rightarrow> new_session" where
  "login_session env owner device token now =
     \<lparr>ns_user = owner, ns_kind = DeviceKindSession, ns_device = Some device, ns_audience = cre_audience env, ns_token = Some token,
      ns_issued_at = now, ns_expires_at = now + device_session_ttl\<rparr>"

text \<open>The answer \<open>None\<close> is a presentation that is not believed; its transaction is dropped.\<close>

definition login_steps ::
  "credential_env \<Rightarrow> credential_mint \<Rightarrow> uuid \<Rightarrow> digest \<Rightarrow> string \<times> digest \<Rightarrow> string \<times> digest \<Rightarrow> string \<Rightarrow> instant \<Rightarrow> db
     \<Rightarrow> persistence_error + (failure_kind + session_opened option) finish \<times> db" where
  "login_steps env mn device presented access refresh correlation now d =
     (case authenticate_device d device presented of
        None \<Rightarrow> Inr (Abandon (Inr None), d)
      | Some owner \<Rightarrow>
          bindE (create_session d (crm_session mn) (login_session env owner device (snd access) now)) (\<lambda>(s, d1).
          bindE (issue_refresh_token d1 (crm_link mn) (s_id s) (snd refresh) now (now + refresh_ttl)) (\<lambda>(link, d2).
          bindE (audit_record d2 (event_of (crm_audit mn) (Some owner) (Some (s_id s)) ''session.open_device'' ''session''
                   (Some (s_id s)) Allowed correlation) now) (\<lambda>d3.
          Inr (Commit (Inr (Some \<lparr>dso_user = owner, dso_device = device, dso_credential = fst access, dso_expires_at = s_expires_at s,
                 dso_refresh_token = fst refresh, dso_refresh_expires_at = tk_expires_at link\<rparr>)), d3)))))"

definition open_device_session ::
  "credential_env \<Rightarrow> credential_mint \<Rightarrow> string \<Rightarrow> string \<Rightarrow> instant \<times> instant \<Rightarrow> db \<Rightarrow> (failure_kind + session_opened) \<times> db" where
  "open_device_session env mn body correlation = (\<lambda>(now, refused_at) d.
     if max_credential_body < length body then refuse_device mn correlation None refused_at d
     else case cre_read_login env body of
       None \<Rightarrow> (Inl InvalidRequest, d)
     | Some (device, secret) \<Rightarrow>
         (case mint_pair mn of
            None \<Rightarrow> (Inl RequestTimeout, d)
          | Some (access, refresh) \<Rightarrow>
              (case transact (crm_begins mn, crm_commits mn) d
                      (login_steps env mn device (cre_sha256 env secret) access refresh correlation now) of
                 (Inl kind, d') \<Rightarrow> (Inl kind, d')
               | (Inr None, d') \<Rightarrow> refuse_device mn correlation (Some device) refused_at d'
               | (Inr (Some a), d') \<Rightarrow> (Inr a, d'))))"

subsection \<open>Refreshing\<close>

record rotated_credentials =
  ro_credential :: string
  ro_expires_at :: instant
  ro_refresh_token :: string
  ro_refresh_expires_at :: instant

definition refuse_refresh :: "credential_mint \<Rightarrow> string \<Rightarrow> instant \<Rightarrow> db \<Rightarrow> (failure_kind + 'a) \<times> db" where
  "refuse_refresh mn correlation refused_at d =
     (Inl NotAuthenticated, audit_apart d (event_of (crm_refusal mn) None None ''session.refresh'' ''refresh_token'' None
        Denied correlation) refused_at)"

text \<open>A replay commits what it burned, with its denial; any other failure of the rotation is dropped.\<close>

definition refresh_steps ::
  "credential_mint \<Rightarrow> digest \<Rightarrow> string \<times> digest \<Rightarrow> string \<times> digest \<Rightarrow> string \<Rightarrow> instant \<Rightarrow> db
     \<Rightarrow> persistence_error + (failure_kind + rotated_credentials option) finish \<times> db" where
  "refresh_steps mn presented access refresh correlation now d =
     bindE (rotate_session d (crm_link mn) presented (snd refresh) (snd access) now (now + device_session_ttl) (now + refresh_ttl))
       (\<lambda>(rotated, d1). case rotated of
          Inr token \<Rightarrow>
            bindE (audit_record d1 (event_of (crm_audit mn) None (Some (tk_session token)) ''session.refresh'' ''session''
                     (Some (tk_session token)) Allowed correlation) now) (\<lambda>d2.
            Inr (Commit (Inr (Some \<lparr>ro_credential = fst access, ro_expires_at = now + device_session_ttl,
                   ro_refresh_token = fst refresh, ro_refresh_expires_at = tk_expires_at token\<rparr>)), d2))
        | Inl (RotationReplayed session_id _) \<Rightarrow>
            bindE (audit_record d1 (event_of (crm_audit mn) None (Some session_id) ''session.refresh'' ''session''
                     (Some session_id) Denied correlation) now) (\<lambda>d2.
            Inr (Commit (Inl NotAuthenticated), d2))
        | Inl _ \<Rightarrow> Inr (Abandon (Inr None), d1))"

definition refresh_credentials ::
  "credential_env \<Rightarrow> credential_mint \<Rightarrow> string \<Rightarrow> string \<Rightarrow> instant \<times> instant \<Rightarrow> db \<Rightarrow> (failure_kind + rotated_credentials) \<times> db" where
  "refresh_credentials env mn body correlation = (\<lambda>(now, refused_at) d.
     if max_credential_body < length body then refuse_refresh mn correlation refused_at d
     else case cre_read_refresh env body of
       None \<Rightarrow> (Inl InvalidRequest, d)
     | Some token \<Rightarrow>
         if token = [] \<or> 512 < length token then refuse_refresh mn correlation refused_at d
         else (case mint_pair mn of
             None \<Rightarrow> (Inl RequestTimeout, d)
           | Some (access, refresh) \<Rightarrow>
               (case transact (crm_begins mn, crm_commits mn) d
                       (refresh_steps mn (cre_sha256 env token) access refresh correlation now) of
                  (Inl kind, d') \<Rightarrow> (Inl kind, d')
                | (Inr None, d') \<Rightarrow> refuse_refresh mn correlation refused_at d'
                | (Inr (Some a), d') \<Rightarrow> (Inr a, d'))))"

subsection \<open>What a login grants\<close>

lemma open_device_session_Inr:
  assumes "open_device_session env mn body correlation (now, refused_at) d = (Inr a, d')"
  obtains device secret access refresh owner s d1 link d2 where "cre_read_login env body = Some (device, secret)"
    and "crm_access mn = Some access" and "crm_refresh mn = Some refresh"
    and "authenticate_device d device (cre_sha256 env secret) = Some owner"
    and "create_session d (crm_session mn) (login_session env owner device (snd access) now) = Inr (s, d1)"
    and "issue_refresh_token d1 (crm_link mn) (s_id s) (snd refresh) now (now + refresh_ttl) = Inr (link, d2)"
    and "audit_record d2 (event_of (crm_audit mn) (Some owner) (Some (s_id s)) ''session.open_device'' ''session''
                   (Some (s_id s)) Allowed correlation) now = Inr d'"
    and "dso_user a = owner" and "dso_device a = device" and "dso_refresh_expires_at a = tk_expires_at link"
proof -
  obtain device secret where read: "cre_read_login env body = Some (device, secret)"
    using assms by (auto simp: open_device_session_def refuse_device_def split: if_splits option.splits)
  obtain access refresh where minted: "crm_access mn = Some access" "crm_refresh mn = Some refresh"
    using assms read
    by (cases "crm_access mn"; cases "crm_refresh mn") (simp_all add: open_device_session_def refuse_device_def mint_pair_def split: if_splits)
  obtain answer e where run: "transact (crm_begins mn, crm_commits mn) d
      (login_steps env mn device (cre_sha256 env secret) access refresh correlation now) = (answer, e)" by fastforce
  have "answer = Inr (Some a) \<and> e = d'"
    using assms read minted run
    by (simp add: open_device_session_def refuse_device_def mint_pair_def split: if_splits sum.splits option.splits)
  then have "transact (crm_begins mn, crm_commits mn) d
      (login_steps env mn device (cre_sha256 env secret) access refresh correlation now) = (Inr (Some a), d')" using run by simp
  note steps = transact_Inr [OF this]
  obtain owner where owner: "authenticate_device d device (cre_sha256 env secret) = Some owner"
    using steps by (cases "authenticate_device d device (cre_sha256 env secret)") (simp_all add: login_steps_def)
  show ?thesis
    using steps by (auto simp: login_steps_def owner intro: that [OF read minted owner])
qed

text \<open>
  A login is answered only to the holder of an active device's root secret, with a session of that device and its
  owner: its credential authenticates here until it expires, one hour later.
\<close>

lemma device_login_opens_a_working_session:
  assumes "db_ok d" and "open_device_session env mn body correlation (now, refused_at) d = (Inr a, d')"
  shows "\<exists>x \<in> set (t_devices d). \<exists>secret access. dv_revoked_at x = None \<and> cre_read_login env body = Some (dv_id x, secret)
     \<and> dv_secret_hash x = cre_sha256 env secret \<and> dso_device a = dv_id x \<and> dso_user a = dv_user x \<and> db_ok d'
     \<and> crm_access mn = Some access
     \<and> (\<forall>t. t < now + device_session_ttl \<longrightarrow> authenticate d' (snd access) (cre_audience env) t
          = Some (session_from_row (session_row_of (crm_session mn)
              (login_session env (dv_user x) (dv_id x) (snd access) now))))"
  using assms(2)
proof (rule open_device_session_Inr)
  fix device secret access refresh owner s d1 link d2
  assume read: "cre_read_login env body = Some (device, secret)" and access: "crm_access mn = Some access"
    and owner: "authenticate_device d device (cre_sha256 env secret) = Some owner"
    and session: "create_session d (crm_session mn) (login_session env owner device (snd access) now) = Inr (s, d1)"
    and issued: "issue_refresh_token d1 (crm_link mn) (s_id s) (snd refresh) now (now + refresh_ttl) = Inr (link, d2)"
    and audited: "audit_record d2 (event_of (crm_audit mn) (Some owner) (Some (s_id s)) ''session.open_device'' ''session''
                   (Some (s_id s)) Allowed correlation) now = Inr d'"
    and a: "dso_user a = owner" "dso_device a = device"
  let ?r = "session_row_of (crm_session mn) (login_session env owner device (snd access) now)"
  have ok: "db_ok d'"
    using create_session_Inr(1) [OF session assms(1)] issue_refresh_token_Inr(2) [OF issued] audit_record_Inr(2) [OF audited] by blast
  have row: "?r \<in> set (t_sessions d')"
    using create_session_Inr(2) [OF session] issue_refresh_token_Inr(1) [OF issued] audit_record_Inr(1) [OF audited] by simp
  obtain x where x: "x \<in> set (t_devices d)" "dv_id x = device" "dv_revoked_at x = None"
      "dv_secret_hash x = cre_sha256 env secret" "dv_user x = owner"
    using owner by (auto simp: authenticate_device_def dest!: fetch_optional_SomeD)
  have "authenticate d' (snd access) (cre_audience env) t = Some (session_from_row ?r)" if "t < now + device_session_ttl" for t
  proof -
    have "authenticates (snd access) (cre_audience env) t ?r"
      using that by (simp add: authenticates_def session_row_of_def login_session_def recently_used_def)
    then show ?thesis using row by (auto simp: authenticate_Some [OF ok])
  qed
  then show ?thesis using x read access a ok by blast
qed

subsection \<open>What becomes of a refresh link\<close>

text \<open>
  What the tables say of a link of the session \<open>i\<close>: it is spent, or it is the only unspent link of the session and the
  session still expires at \<open>expiry\<close>.
\<close>

definition link_of_session :: "uuid \<Rightarrow> digest \<Rightarrow> instant \<Rightarrow> db \<Rightarrow> bool" where
  "link_of_session i token expiry d \<longleftrightarrow>
     (\<exists>r \<in> set (t_refresh d). \<exists>s. session_at d i = Some s \<and> rt_token_hash r = token \<and> rt_session r = i
        \<and> (rt_consumed_at r \<noteq> None \<or> ss_expires_at s = expiry \<and> (\<forall>x \<in> set (t_refresh d). unspent i x \<longrightarrow> x = r)))"

text \<open>
  A committed call: one of the two routes, or any other call. The other calls of the program never change the expiry of a
  session or a link that is there, and a link they issue (a pairing does) is of a session they create.
\<close>

definition keeps_links :: "db \<Rightarrow> db \<Rightarrow> bool" where
  "keeps_links d e \<longleftrightarrow> db_ok e
     \<and> (\<forall>i s. session_at d i = Some s \<longrightarrow> (\<exists>s'. session_at e i = Some s' \<and> ss_expires_at s' = ss_expires_at s))
     \<and> set (t_refresh d) \<subseteq> set (t_refresh e)
     \<and> (\<forall>r \<in> set (t_refresh e) - set (t_refresh d). session_at d (rt_session r) = None)"

inductive credential_step :: "credential_env \<Rightarrow> db \<Rightarrow> db \<Rightarrow> bool" for env where
  credential_login: "open_device_session env mn body correlation clocks d = (a, e) \<Longrightarrow> credential_step env d e"
| credential_refresh: "refresh_credentials env mn body correlation clocks d = (b, e) \<Longrightarrow> credential_step env d e"
| credential_other: "keeps_links d e \<Longrightarrow> credential_step env d e"

lemma keeps_links_refl: "db_ok d \<Longrightarrow> keeps_links d d"
  by (simp add: keeps_links_def)

lemma keeps_links_cong:
  "keeps_links d e \<Longrightarrow> db_ok f \<Longrightarrow> t_sessions f = t_sessions e \<Longrightarrow> t_refresh f = t_refresh e \<Longrightarrow> keeps_links d f"
  by (simp add: keeps_links_def session_at_def)

lemma audit_apart_ok: "db_ok d \<Longrightarrow> db_ok (audit_apart d e now)"
  using audit_record_Inr(2) [of d e now] by (auto simp: audit_apart_def split: sum.splits)

lemma revoke_where_keeps_links: "revoke_where d p now = Inr (ids, e) \<Longrightarrow> db_ok d \<Longrightarrow> keeps_links d e"
  using revoke_where_Inr [of d p now ids e] by (auto simp: keeps_links_def revoked_session_def)

text \<open>A new session with its first link, which is what a login and a pairing write.\<close>

lemma new_session_keeps_links:
  assumes "create_session d k n = Inr (s, d1)" and "issue_refresh_token d1 l (s_id s) token now until = Inr (link, d2)"
    and "db_ok d"
  shows "keeps_links d d2"
proof -
  note c = create_session_Inr [OF assms(1)]
  note i = issue_refresh_token_Inr [OF assms(2)]
  have ok: "db_ok d1" "db_ok d2" using c(1) i(2) assms(3) by blast+
  have d2: "t_sessions d2 = t_sessions d @ [session_row_of k n]" "t_refresh d2 = t_refresh d @ [link_row l k token now until]"
    by (simp_all add: i(1) c(2,3) session_from_row_def session_row_of_def)
  have "session_at d k = None"
    using c(4) by (auto simp: session_at_def fetch_optional_None session_clash_def session_row_of_def)
  moreover have "session_at d2 i = Some x" if "session_at d i = Some x" for i x
    using that session_at_iff [OF assms(3)] session_at_iff [OF ok(2)] by (simp add: d2)
  ultimately show ?thesis using ok(2) by (auto simp: keeps_links_def d2)
qed

lemma pairing_keeps_links:
  assumes "redeem_pairing d (kd, ks, kr) q = Inr (Inr g, e)" and "db_ok d"
  shows "keeps_links d e"
  using assms(1)
proof (rule redeem_pairing_success)
  fix r d2 t d4
  assume device: "register_site_device d kd \<lparr>nd_user = pc_user r, nd_kind = pr_declared_kind q,
           nd_display_name = pr_display_name q, nd_site = pc_site r\<rparr> (pr_device_secret q) (pr_now q) = Inr (rp_device g, d2)"
    and code: "sql_update (\<lambda>_. pairing_ok) pairing_clash
           (\<lambda>x. pc_id x = pc_id r \<and> pc_consumed_at x = None \<and> pc_superseded_at x = None)
           (\<lambda>x. x\<lparr>pc_consumed_at := Some (pr_now q), pc_consumed_by := Some (d_id (rp_device g))\<rparr>) (t_pairing d2) = Inr t"
    and session: "create_session (d2\<lparr>t_pairing := t\<rparr>) ks (device_session (pc_user r) (d_id (rp_device g)) q) = Inr (rp_session g, d4)"
    and issued: "issue_refresh_token d4 kr (s_id (rp_session g)) (pr_refresh_token q) (pr_now q) (pr_refresh_expires_at q)
           = Inr (rp_refresh g, e)"
  have "db_ok d2 \<and> t_sessions d2 = t_sessions d \<and> t_refresh d2 = t_refresh d"
    using device assms(2) devices_table.insert_ok [OF _ db_okD(12) [OF assms(2)]]
    by (auto simp: register_site_device_def split: if_splits intro!: db_ok_update)
  moreover from this have "db_ok (d2\<lparr>t_pairing := t\<rparr>)" using pairing_table.update_ok [OF code] by (auto dest: db_okD(18))
  note new_session_keeps_links [OF session issued this]
  ultimately show ?thesis by (simp add: keeps_links_def session_at_def)
qed

lemma login_keeps_links:
  assumes "open_device_session env mn body correlation clocks d = (a, e)" and "db_ok d"
  shows "keeps_links d e"
proof (cases a)
  case (Inl kind)
  obtain now refused_at where clocks: "clocks = (now, refused_at)" by (cases clocks)
  have "e = d \<or> (\<exists>x t. e = audit_apart d x t)"
  proof (cases "max_credential_body < length body \<or> cre_read_login env body = None \<or> mint_pair mn = None")
    case True
    then show ?thesis
      using assms(1) Inl by (auto simp: open_device_session_def clocks refuse_device_def split: if_splits option.splits)
  next
    case False
    then obtain device secret access refresh where read: "cre_read_login env body = Some (device, secret)"
      and m: "mint_pair mn = Some (access, refresh)" by auto
    obtain got f where run: "transact (crm_begins mn, crm_commits mn) d
        (login_steps env mn device (cre_sha256 env secret) access refresh correlation now) = (got, f)" by fastforce
    have out: "(a, e) = (case got of Inl kind \<Rightarrow> (Inl kind, f) | Inr None \<Rightarrow> refuse_device mn correlation (Some device) refused_at f
        | Inr (Some b) \<Rightarrow> (Inr b, f))"
      using assms(1) read m run False by (simp add: open_device_session_def clocks split: sum.splits option.splits)
    have "f = d \<or> (\<exists>b. got = Inr (Some b))"
      using transact_cases [OF run] by (auto simp: login_steps_def split: option.splits)
    then show ?thesis using out Inl by (auto simp: refuse_device_def split: sum.splits option.splits)
  qed
  then show ?thesis
    using keeps_links_refl [OF assms(2)] keeps_links_cong [OF keeps_links_refl [OF assms(2)]] audit_apart_ok [OF assms(2)]
    by fastforce
next
  case (Inr opened)
  obtain now refused_at where clocks: "clocks = (now, refused_at)" by (cases clocks)
  from assms(1) [unfolded Inr clocks] show ?thesis
  proof (rule open_device_session_Inr)
    fix device secret access refresh owner s d1 link d2
    assume session: "create_session d (crm_session mn) (login_session env owner device (snd access) now) = Inr (s, d1)"
      and issued: "issue_refresh_token d1 (crm_link mn) (s_id s) (snd refresh) now (now + refresh_ttl) = Inr (link, d2)"
      and audited: "audit_record d2 (event_of (crm_audit mn) (Some owner) (Some (s_id s)) ''session.open_device'' ''session''
                     (Some (s_id s)) Allowed correlation) now = Inr e"
    note new = new_session_keeps_links [OF session issued assms(2)]
    have "db_ok d2" using new by (simp add: keeps_links_def)
    then have "db_ok e" by (rule audit_record_Inr(2) [OF audited])
    then show ?thesis by (rule keeps_links_cong [OF new]) (simp_all add: audit_record_Inr(1) [OF audited])
  qed
qed

lemma keeps_links_link:
  assumes "keeps_links d e" and "link_of_session i token expiry d"
  shows "link_of_session i token expiry e"
proof -
  obtain r s where r: "r \<in> set (t_refresh d)" "session_at d i = Some s" "rt_token_hash r = token" "rt_session r = i"
    and or: "rt_consumed_at r \<noteq> None \<or> ss_expires_at s = expiry \<and> (\<forall>x \<in> set (t_refresh d). unspent i x \<longrightarrow> x = r)"
    using assms(2) by (auto simp: link_of_session_def)
  obtain s' where s': "session_at e i = Some s'" "ss_expires_at s' = ss_expires_at s"
    using assms(1) r(2) unfolding keeps_links_def by blast
  have "x \<in> set (t_refresh d)" if "x \<in> set (t_refresh e)" "unspent i x" for x
    using assms(1) that r(2) unfolding keeps_links_def unspent_def by (metis DiffI option.distinct(1))
  moreover have "r \<in> set (t_refresh e)" using assms(1) r(1) by (auto simp: keeps_links_def)
  ultimately show ?thesis using r s' or unfolding link_of_session_def by (metis (no_types, lifting))
qed

subsection \<open>A refresh\<close>

text \<open>What a call of the route leaves: nothing of the credentials changes, a link is spent, or a family is burned.\<close>

lemma rotate_session_replayed:
  "rotate_session d k presented rr ra now ae re = Inr (Inl (RotationReplayed i u), d1) \<Longrightarrow>
     \<exists>r s. presented_link d presented = Some (r, s) \<and> rt_consumed_at r \<noteq> None \<and> burn_family d k (rt_session r) now = Inr d1"
  by (auto simp: rotate_session_def Let_def split: option.splits if_splits)

lemma refresh_steps_commit:
  assumes "refresh_steps mn presented access refresh correlation now d = Inr (Commit got, e)"
  obtains (success) x d1 a ev where "rotate_session d (crm_link mn) presented (snd refresh) (snd access) now
        (now + device_session_ttl) (now + refresh_ttl) = Inr (Inr x, d1)"
      and "got = Inr (Some a)" and "audit_record d1 ev now = Inr e"
  | (replayed) r s d1 ev where "presented_link d presented = Some (r, s)" and "rt_consumed_at r \<noteq> None"
      and "burn_family d (crm_link mn) (rt_session r) now = Inr d1"
      and "got = Inl NotAuthenticated" and "audit_record d1 ev now = Inr e"
proof -
  obtain res d1 where rot: "rotate_session d (crm_link mn) presented (snd refresh) (snd access) now
      (now + device_session_ttl) (now + refresh_ttl) = Inr (res, d1)"
    using assms by (auto simp: refresh_steps_def)
  show thesis
  proof (cases res)
    case (Inr x)
    then show thesis using assms rot success by (auto simp: refresh_steps_def)
  next
    case (Inl failure)
    then show thesis
      using assms rot rotate_session_replayed [of d "crm_link mn" presented] replayed
      by (cases failure) (fastforce simp: refresh_steps_def)+
  qed
qed

lemma refresh_steps_abandon:
  assumes "refresh_steps mn presented access refresh correlation now d = Inr (Abandon got, e)"
  shows "got = Inr None"
proof -
  obtain res d1 where rot: "rotate_session d (crm_link mn) presented (snd refresh) (snd access) now
      (now + device_session_ttl) (now + refresh_ttl) = Inr (res, d1)"
    using assms by (auto simp: refresh_steps_def)
  show ?thesis
  proof (cases res)
    case (Inl failure)
    then show ?thesis using assms rot by (cases failure) (auto simp: refresh_steps_def)
  qed (use assms rot in \<open>auto simp: refresh_steps_def\<close>)
qed

lemma refresh_credentials_cases:
  assumes "refresh_credentials env mn body correlation (now, refused_at) d = (answer, d')" and "db_ok d"
  obtains (kept) "isl answer" and "t_sessions d' = t_sessions d" and "t_refresh d' = t_refresh d" and "db_ok d'"
  | (burned) token r s d1 where "cre_read_refresh env body = Some token" and "isl answer"
      and "presented_link d (cre_sha256 env token) = Some (r, s)" and "rt_consumed_at r \<noteq> None"
      and "burn_family d (crm_link mn) (rt_session r) now = Inr d1" and "t_sessions d' = t_sessions d1"
      and "t_refresh d' = t_refresh d1" and "db_ok d'"
  | (rotated) token access refresh x d1 where "cre_read_refresh env body = Some token"
      and "rotate_session d (crm_link mn) (cre_sha256 env token) (snd (refresh :: string \<times> digest))
             (snd (access :: string \<times> digest)) now (now + device_session_ttl) (now + refresh_ttl) = Inr (Inr x, d1)"
      and "t_sessions d' = t_sessions d1" and "t_refresh d' = t_refresh d1" and "db_ok d1 \<Longrightarrow> db_ok d'"
proof -
  note apart = audit_apart_ok [OF assms(2)]
  show thesis
  proof (cases "max_credential_body < length body \<or> cre_read_refresh env body = None \<or> mint_pair mn = None
      \<or> (\<exists>token. cre_read_refresh env body = Some token \<and> (token = [] \<or> 512 < length token))")
    case True
    then have "isl answer \<and> t_sessions d' = t_sessions d \<and> t_refresh d' = t_refresh d \<and> db_ok d'"
      using assms apart by (auto simp: refresh_credentials_def refuse_refresh_def split: if_splits option.splits)
    then show thesis by (intro kept) simp_all
  next
    case False
    then obtain token access refresh where token: "cre_read_refresh env body = Some token" "token \<noteq> []" "\<not> 512 < length token"
      and m: "mint_pair mn = Some (access, refresh)" and small: "\<not> max_credential_body < length body"
      by (cases "mint_pair mn") auto
    obtain got e where run: "transact (crm_begins mn, crm_commits mn) d
        (refresh_steps mn (cre_sha256 env token) access refresh correlation now) = (got, e)" by fastforce
    have out: "(answer, d') = (case got of Inl kind \<Rightarrow> (Inl kind, e) | Inr None \<Rightarrow> refuse_refresh mn correlation refused_at e
        | Inr (Some a) \<Rightarrow> (Inr a, e))"
      using assms(1) token m small run by (simp add: refresh_credentials_def split: sum.splits option.splits)
    from transact_cases [OF run] show thesis
    proof (elim disjE exE conjE)
      assume "got = Inl RequestTimeout" "e = d"
      with out assms(2) show thesis by (intro kept) simp_all
    next
      fix d2
      assume steps: "refresh_steps mn (cre_sha256 env token) access refresh correlation now d = Inr (Abandon got, d2)" and e: "e = d"
      have "got = Inr None" by (rule refresh_steps_abandon [OF steps])
      then show thesis using out e apart by (intro kept) (simp_all add: refuse_refresh_def)
    next
      assume "refresh_steps mn (cre_sha256 env token) access refresh correlation now d = Inr (Commit got, e)"
      then show thesis
      proof (rule refresh_steps_commit)
        fix x d1 a ev
        assume rot: "rotate_session d (crm_link mn) (cre_sha256 env token) (snd refresh) (snd access) now
            (now + device_session_ttl) (now + refresh_ttl) = Inr (Inr x, d1)"
          and got: "got = Inr (Some a)" and aud: "audit_record d1 ev now = Inr e"
        show thesis
          by (rule rotated [OF token(1) rot]) (use out got audit_record_Inr [OF aud] in simp_all)
      next
        fix r s d1 ev
        assume burn: "presented_link d (cre_sha256 env token) = Some (r, s)" "rt_consumed_at r \<noteq> None"
            "burn_family d (crm_link mn) (rt_session r) now = Inr d1"
          and got: "got = Inl NotAuthenticated" and aud: "audit_record d1 ev now = Inr e"
        show thesis
          by (rule burned [OF token(1) _ burn])
            (use out got audit_record_Inr [OF aud] burn_family_Inr(1) [OF burn(3) assms(2)] in simp_all)
      qed
    qed
  qed
qed

lemma rotate_session_link:
  assumes "rotate_session d k presented rr ra now ae re = Inr (Inr x, d1)" and "db_ok d" and "link_of_session i token expiry d"
  shows "db_ok d1" and "link_of_session i token expiry d1"
proof -
  let ?g = "\<lambda>y. y\<lparr>ss_token_hash := Some ra, ss_expires_at := ae, ss_last_seen_at := Some now\<rparr>"
  from rotate_session_success [OF assms(1)] obtain q s e t
    where link: "presented_link d presented = Some (q, s)" and fresh: "rt_consumed_at q = None"
      and sp: "spend_link d k q rr now re = Inr (x, e)"
      and u: "sql_update (\<lambda>_. session_ok) session_clash (\<lambda>y. ss_id y = rt_session q \<and> ss_revoked_at y = None) ?g
                (t_sessions e) = Inr t" and d1: "d1 = e\<lparr>t_sessions := t\<rparr>" .
  have q: "q \<in> set (t_refresh d)" using link by (simp add: presented_link_Some [OF assms(2)])
  note spent = spend_link_Inr [OF sp q]
  show "db_ok d1" using sessions_table.update_ok [OF u db_okD(13) [OF spent(2) [OF assms(2)]]] spent(2) [OF assms(2)] d1 by blast
  have sess: "session_at d1 j = map_option (\<lambda>y. if ss_id y = rt_session q \<and> ss_revoked_at y = None then ?g y else y)
      (session_at d j)" for j
    using u spent(1) d1 session_at_update [where f = ?g and d = e and p = "\<lambda>y. ss_id y = rt_session q \<and> ss_revoked_at y = None"]
    by (simp add: sql_update_Inr session_at_def)
  obtain r s0 where r: "r \<in> set (t_refresh d)" "session_at d i = Some s0" "rt_token_hash r = token" "rt_session r = i"
    and or: "rt_consumed_at r \<noteq> None \<or> ss_expires_at s0 = expiry \<and> (\<forall>y \<in> set (t_refresh d). unspent i y \<longrightarrow> y = r)"
    using assms(3) by (auto simp: link_of_session_def)
  have links: "t_refresh d1 = update_where (\<lambda>y. rt_id y = rt_id q)
      (\<lambda>y. y\<lparr>rt_consumed_at := Some now, rt_replaced_by := Some k\<rparr>) (t_refresh d) @ [link_row k (rt_session q) rr now re]"
    by (simp add: d1 spent(1))
  obtain s1 where s1: "session_at d1 i = Some s1" using sess [of i] r(2) by simp
  show "link_of_session i token expiry d1"
  proof (cases "rt_id r = rt_id q")
    case True
    then have "r\<lparr>rt_consumed_at := Some now, rt_replaced_by := Some k\<rparr> \<in> set (t_refresh d1)"
      using r(1) by (auto simp: links set_update_where)
    then show ?thesis
      using s1 r(3,4) unfolding link_of_session_def
      by (intro bexI [of _ "r\<lparr>rt_consumed_at := Some now, rt_replaced_by := Some k\<rparr>"] exI [of _ s1]) simp_all
  next
    case False
    then have there: "r \<in> set (t_refresh d1)" using r(1) by (auto simp: links set_update_where)
    show ?thesis
    proof (cases "rt_consumed_at r = None")
      case True
      have "rt_session q \<noteq> i" using or True fresh q False by (auto simp: unspent_def)
      then have "\<forall>y \<in> set (t_refresh d1). unspent i y \<longrightarrow> y = r"
        using or True by (auto simp: links set_update_where unspent_def)
      moreover have "ss_expires_at s1 = expiry"
        using sess [of i] r(2) s1 \<open>rt_session q \<noteq> i\<close> or True session_at_id [OF r(2)] by auto
      ultimately show ?thesis using there s1 r(3,4) by (auto simp: link_of_session_def)
    next
      case spent: False
      then show ?thesis using there s1 r(3,4) by (auto simp: link_of_session_def)
    qed
  qed
qed

lemma credential_step_link:
  assumes "credential_step env d e" and "db_ok d" and "link_of_session i token expiry d"
  shows "db_ok e \<and> link_of_session i token expiry e"
  using assms(1)
proof cases
  case (credential_login mn body correlation clocks a)
  from login_keeps_links [OF this assms(2)] show ?thesis
    using keeps_links_link [OF _ assms(3)] by (simp add: keeps_links_def)
next
  case credential_other
  then show ?thesis using keeps_links_link [OF _ assms(3)] by (simp add: keeps_links_def)
next
  case (credential_refresh mn body correlation clocks b)
  obtain now refused_at where clocks: "clocks = (now, refused_at)" by (cases clocks)
  from credential_refresh [unfolded clocks] assms(2) show ?thesis
  proof (cases rule: refresh_credentials_cases)
    case kept
    then have "keeps_links d e" by (intro keeps_links_cong [OF keeps_links_refl [OF assms(2)]]) simp_all
    then show ?thesis using keeps_links_link [OF _ assms(3)] kept by blast
  next
    case (burned token r s d1)
    have "keeps_links d d1"
      using burn_family_Inr [OF burned(5)] assms(2) by (auto simp: keeps_links_def revoked_session_def)
    then have "keeps_links d e" by (rule keeps_links_cong) (use burned in simp_all)
    then show ?thesis using keeps_links_link [OF _ assms(3)] burned by blast
  next
    case (rotated token access refresh x d1)
    note rot = rotate_session_link [OF rotated(2) assms(2,3)]
    then show ?thesis using rotated by (simp add: link_of_session_def session_at_def)
  qed
qed

text \<open>What a login leaves: the one link of the session it opens, as the foreign key of the links says.\<close>

lemma login_link:
  assumes "db_ok d" and "open_device_session env mn body correlation (now, refused_at) d = (Inr a, d')"
    and "crm_refresh mn = Some (token, digest)" and "\<forall>r \<in> set (t_refresh d). session_at d (rt_session r) \<noteq> None"
  shows "db_ok d'" and "dso_refresh_expires_at a = now + refresh_ttl"
    and "link_of_session (crm_session mn) digest (now + device_session_ttl) d'"
proof -
  have "db_ok d' \<and> dso_refresh_expires_at a = now + refresh_ttl \<and> link_of_session (crm_session mn) digest (now + device_session_ttl) d'"
    using assms(2)
  proof (rule open_device_session_Inr)
    fix device secret access refresh owner s d1 link d2
    assume refresh: "crm_refresh mn = Some refresh"
      and session: "create_session d (crm_session mn) (login_session env owner device (snd access) now) = Inr (s, d1)"
      and issued: "issue_refresh_token d1 (crm_link mn) (s_id s) (snd refresh) now (now + refresh_ttl) = Inr (link, d2)"
      and audited: "audit_record d2 (event_of (crm_audit mn) (Some owner) (Some (s_id s)) ''session.open_device'' ''session''
                     (Some (s_id s)) Allowed correlation) now = Inr d'"
      and expires: "dso_refresh_expires_at a = tk_expires_at link"
    note c = create_session_Inr [OF session]
    let ?r = "session_row_of (crm_session mn) (login_session env owner device (snd access) now)"
    let ?l = "link_row (crm_link mn) (crm_session mn) digest now (now + refresh_ttl)"
    have ok: "db_ok d'"
      using c(1) [OF assms(1)] issue_refresh_token_Inr(2) [OF issued] audit_record_Inr(2) [OF audited] by blast
    have ids: "s_id s = crm_session mn" "snd refresh = digest"
      using c(3) refresh assms(3) by (auto simp: session_from_row_def session_row_of_def)
    have rows: "t_sessions d' = t_sessions d @ [?r]" "t_refresh d' = t_refresh d @ [?l]"
      using c(2) issue_refresh_token_Inr(1) [OF issued] audit_record_Inr(1) [OF audited] by (simp_all add: ids)
    have "session_at d (crm_session mn) = None"
      using c(4) by (auto simp: session_at_def fetch_optional_None session_clash_def session_row_of_def)
    then have "\<not> unspent (crm_session mn) x" if "x \<in> set (t_refresh d)" for x
      using assms(4) that by (auto simp: unspent_def)
    moreover have "session_at d' (crm_session mn) = Some ?r" by (simp add: session_at_iff [OF ok] rows session_row_of_def)
    ultimately have "link_of_session (crm_session mn) digest (now + device_session_ttl) d'"
      by (auto simp: link_of_session_def rows session_row_of_def login_session_def)
    moreover have "tk_expires_at link = now + refresh_ttl"
      using issued by (auto simp: issue_refresh_token_def split: if_splits)
    ultimately show ?thesis using ok expires by simp
  qed
  then show "db_ok d'" "dso_refresh_expires_at a = now + refresh_ttl"
    "link_of_session (crm_session mn) digest (now + device_session_ttl) d'" by blast+
qed

text \<open>
  C20: a refresh link is of no use once the access credential it came with has expired. Whatever other calls are
  committed after a login, one hour after it every presentation of its link is refused, although the answer of the login
  names an expiry of the link thirty days away. A link that was not rotated within the hour is refused without a change of
  any credential; a presentation of one that was can only end its own session.
\<close>

theorem refresh_link_ends_with_its_session:
  assumes "db_ok d" and "\<forall>r \<in> set (t_refresh d). session_at d (rt_session r) \<noteq> None"
    and "open_device_session env mn body correlation (now, refused_at) d = (Inr a, d')"
    and "crm_refresh mn = Some (token, cre_sha256 env token)"
    and "(credential_step env)\<^sup>*\<^sup>* d' e"
    and "cre_read_refresh env request = Some token" and "now + device_session_ttl \<le> later"
    and "refresh_credentials env mn' request correlation' (later, refused') e = (answer, e')"
  shows "dso_refresh_expires_at a = now + refresh_ttl \<and> isl answer \<and> t_refresh e' = t_refresh e
     \<and> (if \<exists>r \<in> set (t_refresh e). rt_token_hash r = cre_sha256 env token \<and> rt_consumed_at r = None
        then t_sessions e' = t_sessions e
        else \<forall>i. session_at e' i = session_at e i
          \<or> i = crm_session mn \<and> session_at e' i = map_option (revoked_session later) (session_at e i))"
proof -
  note login = login_link [OF assms(1,3,4,2)]
  have "db_ok e \<and> link_of_session (crm_session mn) (cre_sha256 env token) (now + device_session_ttl) e"
    using assms(5) by (induction rule: rtranclp_induct) (use login credential_step_link in blast)+
  then obtain r s where ok: "db_ok e" and r: "r \<in> set (t_refresh e)" "session_at e (crm_session mn) = Some s"
      "rt_token_hash r = cre_sha256 env token" "rt_session r = crm_session mn"
    and or: "rt_consumed_at r \<noteq> None \<or> ss_expires_at s = now + device_session_ttl"
    by (auto simp: link_of_session_def)
  have presented: "presented_link e (cre_sha256 env token) = Some (r, s)"
    using r by (simp add: presented_link_Some [OF ok])
  have only: "x = r" if "x \<in> set (t_refresh e)" "rt_token_hash x = cre_sha256 env token" for x
    using refresh_table.unclashing [OF db_okD(14) [OF ok] that(1) r(1)] that(2) r(3) by (simp add: refresh_clash_def)
  from assms(8) ok show ?thesis
  proof (cases rule: refresh_credentials_cases)
    case kept
    then show ?thesis using login(2) by (simp add: session_at_def)
  next
    case (burned token' q x d1)
    then have q: "q = r" using presented assms(6) by simp
    have "t_refresh e' = t_refresh e" using burned(7) burn_family_Inr(4) [OF burned(5)] by simp
    moreover have "session_at e' i = session_at e i
        \<or> i = crm_session mn \<and> session_at e' i = map_option (revoked_session later) (session_at e i)" for i
    proof (cases "session_at e i")
      case (Some y)
      have "session_at e' i = session_at d1 i" by (simp add: session_at_def burned(6))
      then show ?thesis
        using burn_family_Inr(2) [OF burned(5), of i] r(4) session_at_id [OF Some] Some by (simp add: q)
    qed (use burn_family_Inr(2) [OF burned(5), of i] burned(6) in \<open>simp add: session_at_def\<close>)
    moreover have "\<not> (\<exists>y \<in> set (t_refresh e). rt_token_hash y = cre_sha256 env token \<and> rt_consumed_at y = None)"
    proof
      assume "\<exists>y \<in> set (t_refresh e). rt_token_hash y = cre_sha256 env token \<and> rt_consumed_at y = None"
      then obtain y where y: "y \<in> set (t_refresh e)" "rt_token_hash y = cre_sha256 env token" "rt_consumed_at y = None" by auto
      from only [OF y(1,2)] y(3) burned(4) show False by (simp add: q)
    qed
    ultimately show ?thesis using burned(2) login(2) by (simp only: if_False) blast
  next
    case (rotated token' access refresh x d1)
    have "token' = token" using rotated(1) assms(6) by simp
    note found = presented [folded this]
    have False
      by (rule rotate_session_success [OF rotated(2)]) (use found or assms(7) in simp)
    then show ?thesis ..
  qed
qed

text \<open>
  A spent link is refused with an authentication failure only when its session has been ended: the burn is
  committed with the denial.
\<close>

lemma spent_link_refusal_is_a_burn:
  assumes "db_ok d" and "cre_read_refresh env request = Some token" and "token \<noteq> []" and "length token \<le> 512"
    and "length request \<le> max_credential_body"
    and "presented_link d (cre_sha256 env token) = Some (r, s)" and "rt_consumed_at r \<noteq> None"
    and "refresh_credentials env mn request correlation (now, refused_at) d = (answer, d')"
  shows "answer = Inl RequestTimeout \<and> d' = d
     \<or> answer = Inl NotAuthenticated \<and> (\<exists>x. session_at d' (rt_session r) = Some x \<and> ss_revoked_at x \<noteq> None)"
proof (cases "mint_pair mn")
  case None
  then show ?thesis using assms by (simp add: refresh_credentials_def)
next
  case (Some pair)
  obtain access refresh where m: "mint_pair mn = Some (access, refresh)" using Some by (cases pair) simp
  obtain got e where run: "transact (crm_begins mn, crm_commits mn) d
      (refresh_steps mn (cre_sha256 env token) access refresh correlation now) = (got, e)" by fastforce
  have rot: "rotate_session d (crm_link mn) (cre_sha256 env token) rr ra now ae re
      = bindE (burn_family d (crm_link mn) (rt_session r) now) (\<lambda>d1. Inr (Inl (RotationReplayed (rt_session r) (ss_user s)), d1))"
    for rr ra ae re
    using assms(7) by (simp add: rotate_session_def assms(6))
  have steps: "(got = Inl RequestTimeout \<and> e = d) \<or> (got = Inl NotAuthenticated \<and>
      (\<exists>d1. burn_family d (crm_link mn) (rt_session r) now = Inr d1 \<and>
        audit_record d1 (event_of (crm_audit mn) None (Some (rt_session r)) ''session.refresh'' ''session''
                     (Some (rt_session r)) Denied correlation) now = Inr e))"
    using transact_cases [OF run] by (auto simp: refresh_steps_def rot)
  have same: "answer = Inl kind \<and> d' = e" if "got = Inl kind" for kind
    using assms(2-5,8) run m that by (simp add: refresh_credentials_def)
  have "(answer = Inl RequestTimeout \<and> d' = d) \<or> (answer = Inl NotAuthenticated \<and> d' = e \<and> got = Inl NotAuthenticated)"
    using steps same by blast
  moreover have "\<exists>x. session_at e (rt_session r) = Some x \<and> ss_revoked_at x \<noteq> None"
    if "burn_family d (crm_link mn) (rt_session r) now = Inr d1" "audit_record d1 v now = Inr e" for d1 v
  proof -
    have "session_at d (rt_session r) = Some s" using assms(6) by (simp add: presented_link_Some [OF assms(1)])
    then have "session_at d1 (rt_session r) = Some (if ss_revoked_at s = None then revoked_session now s else s)"
      using burn_family_Inr(2) [OF that(1), of "rt_session r"] by (auto dest: session_at_id)
    then show ?thesis using audit_record_Inr(1) [OF that(2)] by (auto simp: session_at_def)
  qed
  ultimately show ?thesis using steps by fastforce
qed

subsection \<open>A login evaluated\<close>

definition example_credential_env :: credential_env where
  "example_credential_env = \<lparr>cre_sha256 = (\<lambda>s. example_digest (of_nat (length s))), cre_audience = ''api'',
     cre_read_login = (\<lambda>body. Some (5, ''secret7'')),
     cre_read_refresh = (\<lambda>body. Some (replicate 21 (CHR ''r'')))\<rparr>"

definition example_credential_mint :: credential_mint where
  "example_credential_mint = \<lparr>crm_access = Some (replicate 20 (CHR ''a''), example_digest 20),
     crm_refresh = Some (replicate 21 (CHR ''r''), example_digest 21), crm_session = 80, crm_link = 81, crm_audit = 82,
     crm_refusal = 83, crm_begins = True, crm_commits = True\<rparr>"

definition example_login :: "(failure_kind + session_opened) \<times> db" where
  "example_login = open_device_session example_credential_env example_credential_mint ''{}'' ''correlation:1'' (100, 100)
     identity_example"

theorem refresh_link_ends_with_its_session_witness:
  "\<exists>a d' kind d''. example_login = (Inr a, d') \<and> dso_refresh_expires_at a = 100 + refresh_ttl
     \<and> refresh_credentials example_credential_env example_credential_mint ''{}'' ''correlation:2''
          (100 + device_session_ttl, 100 + device_session_ttl) d' = (Inl kind, d'')"
proof -
  have made: "case example_login of (Inr _, _) \<Rightarrow> True | _ \<Rightarrow> False" by code_simp
  obtain answer d' where run: "example_login = (answer, d')" by fastforce
  obtain a where a: "answer = Inr a" using made unfolding run prod.case by (cases answer) simp_all
  have link: "crm_refresh example_credential_mint
      = Some (replicate 21 (CHR ''r''), cre_sha256 example_credential_env (replicate 21 (CHR ''r'')))"
    and asked: "cre_read_refresh example_credential_env ''{}'' = Some (replicate 21 (CHR ''r''))"
    by (simp_all add: example_credential_mint_def example_credential_env_def)
  have keyed: "\<forall>r \<in> set (t_refresh identity_example). session_at identity_example (rt_session r) \<noteq> None"
    by (simp add: identity_example_def session_at_def fetch_optional_def example_spent_link_def example_link_def
        example_device_session_def)
  obtain got d'' where again: "refresh_credentials example_credential_env example_credential_mint ''{}'' ''correlation:2''
      (100 + device_session_ttl, 100 + device_session_ttl) d' = (got, d'')" by fastforce
  from refresh_link_ends_with_its_session [OF identity_example_ok keyed run [unfolded a example_login_def] link
      rtranclp.rtrancl_refl asked order_refl again]
  have "dso_refresh_expires_at a = 100 + refresh_ttl" "isl got" by blast+
  with run a again show ?thesis by (cases got) auto
qed

end
