(* ===== verification/Gateway.thy ===== *)
theory Gateway
  imports Site_Dispatch Startup_Rules
begin

text \<open>
  \<^verbatim>\<open>crates/public-api/src/gateway.rs\<close> with \<^verbatim>\<open>gateway/headers.rs\<close>, \<^verbatim>\<open>gateway/public.rs\<close> and \<open>refuses\<close> of \<^verbatim>\<open>notes.rs\<close>:
  from a client's request to the request that Edge sends to a domain service, and from the service's answer
  to the client's. The exchange itself is I/O: a request is planned, and an answer is made from what the
  exchange came to. Header names are lower case, as the HTTP library keeps them; the order of a header map
  matters only between the values of one name. The contract's names of the claims, the header and
  URI parsers and the text of identifiers and addresses are parameters.
\<close>

subsection \<open>Headers\<close>

type_synonym headers = "(string \<times> string) list"

record gateway_env =
  gy_header_name :: "string \<Rightarrow> string option"
  gy_header_value :: "string \<Rightarrow> bool"
  gy_uuid :: "uuid \<Rightarrow> string"
  gy_socket :: "socket_addr \<Rightarrow> string"
  gy_uri :: "string \<Rightarrow> bool"
  gy_user_header :: string
  gy_device_header :: string
  gy_correlation_header :: string
  gy_operation_header :: string
  gy_sha256_header :: string
  gy_byte_size_header :: string
  gy_archive_media_type :: string

record gateway_claims =
  gm_principal :: principal
  gm_device_kind :: "string option"
  gm_site :: "string option"
  gm_correlation :: string

definition reserved_prefix :: string where
  "reserved_prefix = ''x-ratatoskr-''"

definition reserved :: "string \<Rightarrow> bool" where
  "reserved name \<longleftrightarrow> starts_with reserved_prefix name"

definition connection_tokens :: "gateway_env \<Rightarrow> headers \<Rightarrow> string list" where
  "connection_tokens env hs =
     List.map_filter (gy_header_name env \<circ> trim) (concat (map (split_on (CHR '',''))
       (List.map_filter (to_str \<circ> snd) (filter (\<lambda>(n, _). n = ''connection'') hs))))"

definition hop_by_hop :: "string list" where
  "hop_by_hop = [''connection'', ''proxy-authenticate'', ''proxy-authorization'', ''te'', ''trailer'',
     ''transfer-encoding'', ''upgrade'', ''keep-alive'']"

definition client_only :: "string list" where
  "client_only = [''authorization'', ''cookie'', ''host'']"

definition cleaned :: "gateway_env \<Rightarrow> headers \<Rightarrow> headers" where
  "cleaned env hs = filter (\<lambda>(n, _). \<not> (reserved n \<or> n \<in> set (connection_tokens env hs) \<or> n \<in> set hop_by_hop
     \<or> n \<in> set client_only)) hs"

definition response_headers :: "gateway_env \<Rightarrow> headers \<Rightarrow> headers" where
  "response_headers env hs =
     filter (\<lambda>(n, _). \<not> (reserved n \<or> n \<in> set (connection_tokens env hs) \<or> n \<in> set hop_by_hop)) hs"

text \<open>\<open>HeaderMap::insert\<close> replaces every value of the name; a value that is not a header value is left out.\<close>

definition put_header :: "string \<Rightarrow> string \<Rightarrow> headers \<Rightarrow> headers" where
  "put_header name v hs = filter (\<lambda>(n, _). n \<noteq> name) hs @ [(name, v)]"

definition insert_header :: "gateway_env \<Rightarrow> string \<Rightarrow> string \<Rightarrow> headers \<Rightarrow> headers" where
  "insert_header env name v hs = (if gy_header_value env v then put_header name v hs else hs)"

definition insert_given :: "gateway_env \<Rightarrow> string \<Rightarrow> string option \<Rightarrow> headers \<Rightarrow> headers" where
  "insert_given env name v hs = (case v of None \<Rightarrow> hs | Some x \<Rightarrow> insert_header env name x hs)"

definition mint_claims :: "gateway_env \<Rightarrow> gateway_claims \<Rightarrow> headers \<Rightarrow> headers" where
  "mint_claims env c =
     insert_header env (gy_correlation_header env) (gm_correlation c)
     \<circ> insert_header env ''x-ratatoskr-session-kind'' (session_kind_str (pl_kind (gm_principal c)))
     \<circ> insert_given env ''x-ratatoskr-site-id'' (gm_site c)
     \<circ> insert_given env ''x-ratatoskr-device-kind'' (gm_device_kind c)
     \<circ> insert_given env (gy_device_header env) (map_option (gy_uuid env) (pl_device (gm_principal c)))
     \<circ> insert_header env (gy_user_header env) (gy_uuid env (pl_user (gm_principal c)))"

definition forwarded_headers :: "gateway_env \<Rightarrow> headers \<Rightarrow> gateway_claims \<Rightarrow> headers" where
  "forwarded_headers env hs c = mint_claims env c (cleaned env hs)"

definition claim_headers :: "gateway_env \<Rightarrow> gateway_claims \<Rightarrow> headers" where
  "claim_headers env c = forwarded_headers env [] c"

definition anonymous_headers :: "gateway_env \<Rightarrow> headers \<Rightarrow> string \<Rightarrow> headers" where
  "anonymous_headers env hs correlation =
     insert_header env (gy_correlation_header env) correlation
       (insert_header env ''x-ratatoskr-session-kind'' ''anonymous'' (cleaned env hs))"

definition archive_headers :: "gateway_env \<Rightarrow> headers \<Rightarrow> uuid \<Rightarrow> string \<Rightarrow> 64 word \<Rightarrow> headers" where
  "archive_headers env hs operation sha256 byte_size =
     insert_header env (gy_byte_size_header env) (digits_of (unat byte_size))
       (insert_header env (gy_sha256_header env) sha256
         (insert_header env (gy_operation_header env) (gy_uuid env operation) hs))"

subsection \<open>Routing\<close>

definition route_holds :: "gateway_route \<Rightarrow> string \<Rightarrow> bool" where
  "route_holds r path \<longleftrightarrow> path = gw_prefix r \<or> starts_with (gw_prefix r @ ''/'') path"

definition route_of :: "gateway_config \<Rightarrow> string \<Rightarrow> (string \<times> gateway_route) option" where
  "route_of g path = find (\<lambda>(_, r). route_holds r path) (gc_routes g)"

definition budget_of :: "gateway_config \<Rightarrow> gateway_route \<Rightarrow> route_budget option" where
  "budget_of g r = map_option (for_class (gc_budgets g)) (gw_class r)"

definition path_limits :: "string \<Rightarrow> string \<Rightarrow> 64 word list" where
  "path_limits service below =
     map (\<lambda>(_, _, limit). case limit of None \<Rightarrow> - 1 | Some n \<Rightarrow> n)
       (filter (\<lambda>(owner, sub_path, _). owner = service \<and> is_under sub_path below) gateway_transfer_paths)"

definition budget_for :: "gateway_config \<Rightarrow> string \<Rightarrow> gateway_route \<Rightarrow> string \<Rightarrow> route_budget option" where
  "budget_for g service r path =
     (let below = (case strip_prefix (gw_prefix r) path of None \<Rightarrow> [] | Some b \<Rightarrow> b); transfer = gbs_transfer (gc_budgets g)
      in (case path_limits service below of
            [] \<Rightarrow> budget_of g r
          | n # ns \<Rightarrow> Some (transfer\<lparr>bd_max_body_bytes := min (bd_max_body_bytes transfer) (fold min ns n)\<rparr>)))"

subsection \<open>The devices of the notes service\<close>

definition device_paths :: "string list" where
  "device_paths = [''/connections/{connection}/changes'', ''/connections/{connection}/manifest'',
     ''/connections/{connection}/blobs'', ''/connections/{connection}/device-operations'']"

definition session_upload_path :: string where
  "session_upload_path = ''/connections/{connection}/blobs''"

definition notes_refuses :: "string \<Rightarrow> string option \<Rightarrow> bool" where
  "notes_refuses below kind =
     (let device_path = list_ex (\<lambda>pat. is_under pat below) device_paths
      in if kind = None \<and> is_under session_upload_path below then False else device_path \<noteq> (kind \<noteq> None))"

definition device_kind_of :: "db \<Rightarrow> principal \<Rightarrow> failure_kind + string option" where
  "device_kind_of d p =
     (case pl_device p of
        None \<Rightarrow> Inr None
      | Some i \<Rightarrow> (case find_device d i of
            Some x \<Rightarrow> if d_user x = pl_user p \<and> is_active x then Inr (Some (device_kind_str (d_kind x))) else Inl NotAuthenticated
          | None \<Rightarrow> Inl NotAuthenticated))"

subsection \<open>The requests Edge sends\<close>

record forwarded =
  fo_service :: string
  fo_method :: string
  fo_uri :: string
  fo_headers :: headers
  fo_budget :: route_budget

definition path_and_query :: "http_request \<Rightarrow> string" where
  "path_and_query q = hq_path q @ (case hq_query q of None \<Rightarrow> [] | Some s \<Rightarrow> ''?'' @ s)"

definition upstream_uri :: "gateway_env \<Rightarrow> gateway_route \<Rightarrow> string \<Rightarrow> string" where
  "upstream_uri env r target = ''http://'' @ gy_socket env (gw_listener r) @ target"

definition declared_size :: "http_request \<Rightarrow> nat" where
  "declared_size q = (case hq_body_size q of None \<Rightarrow> 0 | Some n \<Rightarrow> n)"

text \<open>\<open>site\<close> is the site of the deployer credential, on a route of the deploy class only.\<close>

definition proxy :: "gateway_env \<Rightarrow> gateway_config \<Rightarrow> db \<Rightarrow> principal \<Rightarrow> string option \<Rightarrow> string \<Rightarrow> http_request
     \<Rightarrow> failure_kind + forwarded" where
  "proxy env g d p site correlation q =
     (case route_of g (hq_path q) of
        None \<Rightarrow> Inl RouteNotFound
      | Some (service, r) \<Rightarrow>
          if \<not> forwardable (gw_prefix r) (hq_path q) then Inl RouteNotFound
          else (case budget_for g service r (hq_path q) of
              None \<Rightarrow> Inl UpstreamUnavailable
            | Some budget \<Rightarrow>
                bindE (device_kind_of d p) (\<lambda>kind.
                let below = (case strip_prefix (gw_prefix r) (hq_path q) of None \<Rightarrow> [] | Some b \<Rightarrow> b)
                in if service = ''notes'' \<and> notes_refuses below kind then Inl Forbidden
                   else if \<not> gy_uri env (upstream_uri env r (path_and_query q)) then Inl UpstreamUnavailable
                   else if unat (bd_max_body_bytes budget) < declared_size q then Inl PayloadTooLarge
                   else Inr \<lparr>fo_service = service, fo_method = hq_method q,
                          fo_uri = upstream_uri env r (path_and_query q),
                          fo_headers = forwarded_headers env (hq_headers q)
                            \<lparr>gm_principal = p, gm_device_kind = kind, gm_site = site, gm_correlation = correlation\<rparr>,
                          fo_budget = budget\<rparr>)))"

definition send_notes_minted ::
  "gateway_env \<Rightarrow> gateway_config \<Rightarrow> http_request \<Rightarrow> gateway_claims \<Rightarrow> uuid \<Rightarrow> failure_kind + forwarded" where
  "send_notes_minted env g q c operation =
     (case map_of (gc_routes g) ''notes'' of
        None \<Rightarrow> Inl UpstreamUnavailable
      | Some r \<Rightarrow>
          if \<not> forwardable (gw_prefix r) (hq_path q) then Inl RouteNotFound
          else (case budget_of g r of
              None \<Rightarrow> Inl UpstreamUnavailable
            | Some budget \<Rightarrow>
                if \<not> gy_uri env (upstream_uri env r (path_and_query q)) then Inl UpstreamUnavailable
                else Inr \<lparr>fo_service = ''notes'', fo_method = hq_method q, fo_uri = upstream_uri env r (path_and_query q),
                       fo_headers = insert_header env (gy_operation_header env) (gy_uuid env operation)
                         (forwarded_headers env (hq_headers q) c),
                       fo_budget = budget\<rparr>))"

record archive_receipt =
  gr_provider :: string
  gr_principal :: principal
  gr_correlation :: string
  gr_operation :: uuid
  gr_sha256 :: string
  gr_byte_size :: "64 word"

definition forward_archive_receipt :: "gateway_env \<Rightarrow> gateway_config \<Rightarrow> archive_receipt \<Rightarrow> failure_kind + forwarded" where
  "forward_archive_receipt env g a =
     (case map_of (gc_routes g) (gr_provider a) of
        None \<Rightarrow> Inl UpstreamUnavailable
      | Some r \<Rightarrow> (case budget_of g r of
            None \<Rightarrow> Inl UpstreamUnavailable
          | Some budget \<Rightarrow>
              if \<not> gy_uri env (upstream_uri env r (gw_archive_receipt_path r)) then Inl UpstreamUnavailable
              else Inr \<lparr>fo_service = gr_provider a, fo_method = ''POST'', fo_uri = upstream_uri env r (gw_archive_receipt_path r),
                     fo_headers = put_header ''content-length'' (digits_of (unat (gr_byte_size a)))
                       (put_header ''content-type'' (gy_archive_media_type env)
                         (archive_headers env (claim_headers env \<lparr>gm_principal = gr_principal a, gm_device_kind = None,
                              gm_site = None, gm_correlation = gr_correlation a\<rparr>)
                            (gr_operation a) (gr_sha256 a) (gr_byte_size a))),
                     fo_budget = budget\<rparr>))"

definition forward_anonymous ::
  "gateway_env \<Rightarrow> gateway_config \<Rightarrow> string \<Rightarrow> string \<Rightarrow> string \<Rightarrow> headers \<Rightarrow> string \<Rightarrow> failure_kind + forwarded" where
  "forward_anonymous env g service verb target hs correlation =
     (case map_of (gc_routes g) service of
        None \<Rightarrow> Inl UpstreamUnavailable
      | Some r \<Rightarrow> (case budget_of g r of
            None \<Rightarrow> Inl UpstreamUnavailable
          | Some budget \<Rightarrow>
              if \<not> forwardable (gw_prefix r) (hd (split_on (CHR ''?'') target)) then Inl RouteNotFound
              else if \<not> gy_uri env (upstream_uri env r target) then Inl UpstreamUnavailable
              else Inr \<lparr>fo_service = service, fo_method = verb, fo_uri = upstream_uri env r target,
                     fo_headers = anonymous_headers env hs correlation, fo_budget = budget\<rparr>))"

subsection \<open>The answers Edge gives\<close>

text \<open>What an exchange came to. The body is \<open>None\<close> when reading it failed.\<close>

record upstream_response =
  up_status :: nat
  up_headers :: headers
  up_body :: "string option"

datatype exchange = Reached upstream_response | Body_over_limit | Body_broken | Unreachable | Late

record relayed_response =
  rl_status :: nat
  rl_headers :: headers
  rl_preserved :: bool

definition max_error_envelope_bytes :: nat where
  "max_error_envelope_bytes = 65536"

definition redirects :: "nat \<Rightarrow> bool" where
  "redirects status \<longleftrightarrow> 300 \<le> status \<and> status < 400"

definition successful :: "nat \<Rightarrow> bool" where
  "successful status \<longleftrightarrow> 200 \<le> status \<and> status < 300"

definition failed_status :: "nat \<Rightarrow> bool" where
  "failed_status status \<longleftrightarrow> 400 \<le> status \<and> status < 600"

definition read_bounded :: "nat \<Rightarrow> string option \<Rightarrow> string option" where
  "read_bounded n body = Option.bind body (\<lambda>bytes. if length bytes \<le> n then Some bytes else None)"

definition response_from_upstream ::
  "gateway_env \<Rightarrow> (string \<Rightarrow> bool) \<Rightarrow> upstream_response \<Rightarrow> failure_kind + relayed_response" where
  "response_from_upstream env is_envelope u =
     (if redirects (up_status u) \<and> up_status u \<noteq> 304 then Inl UpstreamInvalidResponse
      else if up_status u = 401 \<or> up_status u = 407 then Inl UpstreamInvalidResponse
      else if \<not> failed_status (up_status u)
      then Inr \<lparr>rl_status = up_status u, rl_headers = response_headers env (up_headers u), rl_preserved = False\<rparr>
      else (case read_bounded max_error_envelope_bytes (up_body u) of
          None \<Rightarrow> Inl UpstreamInvalidResponse
        | Some bytes \<Rightarrow> if is_envelope bytes
            then Inr \<lparr>rl_status = up_status u, rl_headers = response_headers env (up_headers u), rl_preserved = True\<rparr>
            else Inl UpstreamInvalidResponse))"

fun proxied :: "gateway_env \<Rightarrow> (string \<Rightarrow> bool) \<Rightarrow> exchange \<Rightarrow> failure_kind + relayed_response" where
  "proxied env is_envelope (Reached u) = response_from_upstream env is_envelope u"
| "proxied env is_envelope Body_over_limit = Inl PayloadTooLarge"
| "proxied env is_envelope Late = Inl UpstreamTimeout"
| "proxied env is_envelope x = Inl UpstreamUnavailable"

fun minted_answer :: "exchange \<Rightarrow> failure_kind + upstream_response" where
  "minted_answer (Reached u) = Inr u"
| "minted_answer Body_over_limit = Inl PayloadTooLarge"
| "minted_answer Body_broken = Inl InvalidRequest"
| "minted_answer Unreachable = Inl UpstreamUnavailable"
| "minted_answer Late = Inl UpstreamTimeout"

definition anonymous_answer :: "gateway_env \<Rightarrow> (string \<Rightarrow> bool) \<Rightarrow> exchange \<Rightarrow> failure_kind + relayed_response" where
  "anonymous_answer env is_envelope x =
     (case x of
        Reached u \<Rightarrow> map_sum id (\<lambda>r. r\<lparr>rl_headers := filter (\<lambda>(n, _). n \<noteq> ''set-cookie'') (rl_headers r)\<rparr>)
          (response_from_upstream env is_envelope u)
      | Late \<Rightarrow> Inl UpstreamTimeout
      | _ \<Rightarrow> Inl UpstreamUnavailable)"

text \<open>\<open>late\<close>: the deadline of the whole exchange passed while its body was read.\<close>

definition fetch_json ::
  "route_budgets \<Rightarrow> (string \<Rightarrow> 'a option) \<Rightarrow> bool \<Rightarrow> nat \<Rightarrow> exchange \<Rightarrow> bool \<Rightarrow> failure_kind + 'a" where
  "fetch_json bs from_slice scoped_not_found max_response x late =
     (case x of
        Late \<Rightarrow> Inl UpstreamTimeout
      | Reached u \<Rightarrow>
          if late then Inl UpstreamTimeout
          else if scoped_not_found \<and> up_status u = 404 then Inl NotFound
          else if \<not> successful (up_status u) then Inl UpstreamInvalidResponse
          else ok_or UpstreamInvalidResponse (Option.bind
                 (read_bounded (min (unat (bd_max_body_bytes (gbs_control bs))) max_response) (up_body u)) from_slice)
      | _ \<Rightarrow> Inl UpstreamUnavailable)"

subsection \<open>The claims are Edge's own\<close>

abbreviation claims_only :: "headers \<Rightarrow> headers" where
  "claims_only \<equiv> filter (\<lambda>(n, _). reserved n)"

lemma claims_only_insert:
  "claims_only (insert_header env n v hs)
     = (if gy_header_value env v then filter (\<lambda>(m, _). m \<noteq> n) (claims_only hs) @ (if reserved n then [(n, v)] else [])
        else claims_only hs)"
  by (simp add: insert_header_def put_header_def conj_commute)

lemma insert_header_claims:
  "claims_only hs = claims_only hs' \<Longrightarrow> claims_only (insert_header env n v hs) = claims_only (insert_header env n v hs')"
  unfolding claims_only_insert by (simp only:)

lemma insert_given_claims:
  assumes "claims_only hs = claims_only hs'"
  shows "claims_only (insert_given env n v hs) = claims_only (insert_given env n v hs')"
proof (cases v)
  case (Some x)
  show ?thesis unfolding insert_given_def Some option.case by (rule insert_header_claims [OF assms])
qed (simp add: insert_given_def assms)

lemma cleaned_has_no_claim: "claims_only (cleaned env hs) = []"
  by (auto simp: cleaned_def filter_empty_conv)

lemma forwarded_claims: "claims_only (forwarded_headers env hs c) = claims_only (claim_headers env c)"
  unfolding claim_headers_def forwarded_headers_def mint_claims_def comp_apply
  by (intro insert_header_claims insert_given_claims) (simp add: cleaned_has_no_claim)

lemma in_insert_header: "x \<in> set (insert_header env n v hs) \<Longrightarrow> x = (n, v) \<or> x \<in> set hs"
  by (auto simp: insert_header_def put_header_def split: if_splits)

lemma in_insert_given: "x \<in> set (insert_given env n v hs) \<Longrightarrow> v = Some (snd x) \<and> n = fst x \<or> x \<in> set hs"
  by (cases v) (auto simp: insert_given_def dest: in_insert_header)

definition claim_names :: "gateway_env \<Rightarrow> string list" where
  "claim_names env = [gy_user_header env, gy_device_header env, ''x-ratatoskr-device-kind'', ''x-ratatoskr-site-id'',
     ''x-ratatoskr-session-kind'', gy_correlation_header env]"

lemma in_mint_claims:
  assumes "(n, v) \<in> set (mint_claims env c hs)"
  shows "n \<in> set (claim_names env) \<or> (n, v) \<in> set hs"
  using assms unfolding mint_claims_def comp_apply claim_names_def
  by (auto dest!: in_insert_header in_insert_given)

definition header_passes :: "gateway_env \<Rightarrow> headers \<Rightarrow> string \<Rightarrow> bool" where
  "header_passes env hs n \<longleftrightarrow> \<not> reserved n \<and> n \<notin> set (connection_tokens env hs) \<and> n \<notin> set hop_by_hop \<and> n \<notin> set client_only"

lemma in_cleaned: "(n, v) \<in> set (cleaned env hs) \<longleftrightarrow> (n, v) \<in> set hs \<and> header_passes env hs n"
  by (auto simp: cleaned_def header_passes_def)

lemma proxy_Inr:
  assumes "proxy env g d p site correlation q = Inr f"
  obtains service r budget kind where "route_of g (hq_path q) = Some (service, r)"
    and "forwardable (gw_prefix r) (hq_path q)" and "budget_for g service r (hq_path q) = Some budget"
    and "device_kind_of d p = Inr kind"
    and "declared_size q \<le> unat (bd_max_body_bytes budget)"
    and "f = \<lparr>fo_service = service, fo_method = hq_method q, fo_uri = upstream_uri env r (path_and_query q),
       fo_headers = forwarded_headers env (hq_headers q)
         \<lparr>gm_principal = p, gm_device_kind = kind, gm_site = site, gm_correlation = correlation\<rparr>, fo_budget = budget\<rparr>"
proof -
  obtain service r where route: "route_of g (hq_path q) = Some (service, r)" "forwardable (gw_prefix r) (hq_path q)"
    using assms by (auto simp: proxy_def split: option.splits if_splits)
  obtain budget where budget: "budget_for g service r (hq_path q) = Some budget"
    using assms route by (auto simp: proxy_def split: option.splits)
  show ?thesis
    using assms route budget by (auto simp: proxy_def Let_def split: if_splits intro!: that [OF route budget])
qed

text \<open>
  C8: a domain service reads from a proxied request exactly the claims that Edge minted for the caller: whatever
  reserved headers the client sent, the ones forwarded are those of a request without any; and every
  other header that is forwarded is one the client sent that is no credential, no hop-by-hop field
  and not named by the client's connection header.
\<close>

theorem proxied_claims_are_edges_own:
  assumes "proxy env g d p site correlation q = Inr f"
  shows "\<exists>kind. device_kind_of d p = Inr kind
     \<and> claims_only (fo_headers f) = claims_only (claim_headers env
         \<lparr>gm_principal = p, gm_device_kind = kind, gm_site = site, gm_correlation = correlation\<rparr>)
     \<and> (\<forall>(n, v) \<in> set (fo_headers f). n \<in> set (claim_names env) \<or> (n, v) \<in> set (hq_headers q) \<and> header_passes env (hq_headers q) n)"
  using assms
proof (rule proxy_Inr)
  fix service r budget kind
  let ?c = "\<lparr>gm_principal = p, gm_device_kind = kind, gm_site = site, gm_correlation = correlation\<rparr>"
  assume kind: "device_kind_of d p = Inr kind"
    and f: "f = \<lparr>fo_service = service, fo_method = hq_method q, fo_uri = upstream_uri env r (path_and_query q),
       fo_headers = forwarded_headers env (hq_headers q) ?c, fo_budget = budget\<rparr>"
  have hs: "fo_headers f = mint_claims env ?c (cleaned env (hq_headers q))" by (simp add: f forwarded_headers_def)
  have "claims_only (fo_headers f) = claims_only (claim_headers env ?c)" by (simp add: f forwarded_claims)
  moreover have "n \<in> set (claim_names env) \<or> (n, v) \<in> set (hq_headers q) \<and> header_passes env (hq_headers q) n"
    if "(n, v) \<in> set (fo_headers f)" for n v
    using in_mint_claims [OF that [unfolded hs]] by (auto simp: in_cleaned)
  ultimately show ?thesis using kind by blast
qed

text \<open>An anonymous request claims a session kind and a correlation, and no one.\<close>

lemma anonymous_request_claims_no_one:
  assumes "(n, v) \<in> set (anonymous_headers env hs correlation)" and "reserved n"
  shows "n = ''x-ratatoskr-session-kind'' \<and> v = ''anonymous'' \<or> n = gy_correlation_header env \<and> v = correlation"
  using assms unfolding anonymous_headers_def
  by (auto simp: in_cleaned header_passes_def dest!: in_insert_header)

subsection \<open>Under an accepted configuration\<close>

lemma transfer_timeout_within_cost:
  "(s, path, limit) \<in> set gateway_transfer_paths \<Longrightarrow>
     bd_response_timeout_seconds (gbs_transfer bs) \<le> bd_response_timeout_seconds (route_cost bs s cl)"
  by (auto simp: route_cost_def Let_def list_ex_iff)

lemma accepted_route:
  assumes "load_from senv role extracted = Inr c" and "(s, r) \<in> set (gc_routes (cf_gateway c))"
  obtains cl public where "cf_public c = Some public" and "gw_class r = Some cl"
    and "gateway_service s = Some (gw_prefix r, sk_port (gw_listener r))" and "is_loopback (sk_ip (gw_listener r))"
    and "bd_max_body_bytes (route_cost (gc_budgets (cf_gateway c)) s cl) \<le> pub_max_body_bytes public"
    and "bd_response_timeout_seconds (route_cost (gc_budgets (cf_gateway c)) s cl) \<le> pub_request_timeout_seconds public"
proof -
  have all: "list_all fst (startup_rules senv role c)"
    using assms(1) by (auto simp: load_from_def Let_def map_err_def validate_def failing_Nil split: sum.splits if_splits)
  then have gateway: "list_all fst (gateway_rules role c)" and listener: "list_all fst (listener_rules role c)"
    by (simp_all add: startup_rules_def)
  have "gc_routes (cf_gateway c) \<noteq> []" using assms(2) by auto
  then have "role = EdgeRole" using gateway by (auto simp: gateway_rules_def)
  then obtain public where public: "cf_public c = Some public"
    using listener by (cases "cf_public c") (auto simp: listener_rules_def may_have_public_listener_def)
  obtain t where "list_all fst (route_rules c s r t)"
    using table_rules_ok(3) [OF _ assms(2)] gateway by (auto simp: gateway_rules_def)
  then show ?thesis
  proof (rule route_rules_ok)
    fix prefix port cl
    assume "gateway_service s = Some (prefix, port)" "gw_prefix r = prefix" "is_loopback (sk_ip (gw_listener r))"
      "sk_port (gw_listener r) = port" "gw_class r = Some cl"
      and "\<And>p. cf_public c = Some p \<Longrightarrow>
        bd_max_body_bytes (route_cost (gc_budgets (cf_gateway c)) s cl) \<le> pub_max_body_bytes p
        \<and> bd_response_timeout_seconds (route_cost (gc_budgets (cf_gateway c)) s cl) \<le> pub_request_timeout_seconds p"
    then show ?thesis using public by (intro that [of public cl]) simp_all
  qed
qed

lemma budget_within_cost:
  assumes "budget_for g s r path = Some b" and "gw_class r = Some cl"
  shows "bd_max_body_bytes b \<le> bd_max_body_bytes (route_cost (gc_budgets g) s cl)"
    and "bd_response_timeout_seconds b \<le> bd_response_timeout_seconds (route_cost (gc_budgets g) s cl)"
proof -
  let ?below = "case strip_prefix (gw_prefix r) path of None \<Rightarrow> [] | Some b \<Rightarrow> b"
  have "bd_max_body_bytes b \<le> bd_max_body_bytes (route_cost (gc_budgets g) s cl)
      \<and> bd_response_timeout_seconds b \<le> bd_response_timeout_seconds (route_cost (gc_budgets g) s cl)"
  proof (cases "path_limits s ?below")
    case Nil
    then have "b = for_class (gc_budgets g) cl" using assms by (simp add: budget_for_def Let_def budget_of_def)
    then show ?thesis using route_cost_ge(1,2) by simp
  next
    case (Cons n ns)
    then have b: "b = (gbs_transfer (gc_budgets g))
        \<lparr>bd_max_body_bytes := min (bd_max_body_bytes (gbs_transfer (gc_budgets g))) (fold min ns n)\<rparr>"
      using assms(1) by (simp add: budget_for_def Let_def)
    have "path_limits s ?below \<noteq> []" using Cons by simp
    then obtain sub limit where "(s, sub, limit) \<in> set gateway_transfer_paths"
      unfolding path_limits_def by (auto simp: filter_empty_conv)
    then show ?thesis
      using route_cost_ge(3) transfer_timeout_within_cost by (auto simp: b intro: min.coboundedI1)
  qed
  then show "bd_max_body_bytes b \<le> bd_max_body_bytes (route_cost (gc_budgets g) s cl)"
    and "bd_response_timeout_seconds b \<le> bd_response_timeout_seconds (route_cost (gc_budgets g) s cl)" by simp_all
qed

lemma starts_with_comparable:
  assumes "starts_with a z" and "starts_with b z"
  shows "starts_with a b \<or> starts_with b a"
proof -
  obtain t u where "z = a @ t" "z = b @ u" using assms unfolding starts_with_iff by blast
  then show ?thesis using append_eq_append_conv2 [of a t b u] by (auto simp: starts_with_iff)
qed

text \<open>No canonical prefix is a path below another.\<close>

lemma prefixes_apart:
  assumes "gateway_service s = Some (x, m)" and "gateway_service t = Some (y, n)"
    and "starts_with (x @ ''/'') (path @ ''/'')" and "starts_with (y @ ''/'') (path @ ''/'')"
  shows "s = t"
proof -
  have apart: "list_all (\<lambda>(s, x, _). list_all (\<lambda>(t, y, _). s = t \<or> \<not> starts_with (x @ ''/'') (y @ ''/'')) gateway_services)
      gateway_services"
    by code_simp
  have pairs: "u = v \<or> \<not> starts_with (z @ ''/'') (w @ ''/'')"
    if "gateway_service u = Some (z, i)" "gateway_service v = Some (w, j)" for u v z w i j
  proof -
    have u: "(u, z, i) \<in> set gateway_services" and v: "(v, w, j) \<in> set gateway_services"
      using that by (simp_all add: gateway_service_def map_of_SomeD)
    have "(\<lambda>(s, x, _). list_all (\<lambda>(t, y, _). s = t \<or> \<not> starts_with (x @ ''/'') (y @ ''/'')) gateway_services) (u, z, i)"
      using apart u unfolding list_all_iff by (rule bspec)
    then have "list_all (\<lambda>(t, y, _). u = t \<or> \<not> starts_with (z @ ''/'') (y @ ''/'')) gateway_services" by (simp only: prod.case)
    then have "(\<lambda>(t, y, _). u = t \<or> \<not> starts_with (z @ ''/'') (y @ ''/'')) (v, w, j)"
      using v unfolding list_all_iff by (rule bspec)
    then show ?thesis by (simp only: prod.case)
  qed
  show ?thesis
    using starts_with_comparable [OF assms(3,4)] pairs [OF assms(1,2)] pairs [OF assms(2,1)] by blast
qed

lemma route_holds_slash: "route_holds r path \<Longrightarrow> starts_with (gw_prefix r @ ''/'') (path @ ''/'')"
  by (auto simp: route_holds_def starts_with_iff)

text \<open>
  C10: with a configuration the process accepted, a proxied request goes to one service only, the one whose
  canonical prefix its path is at or below: to that service's loopback port, with the path and query
  unchanged, never to a path that resolves to an internal route; and what it may carry and take, which bounds
  the size it declared, is within the limits of the public listener.
\<close>

theorem proxied_request_stays_in_its_service:
  assumes "load_from senv role extracted = Inr c" and "proxy env (cf_gateway c) d p site correlation q = Inr f"
  shows "\<exists>r public. cf_public c = Some public \<and> (fo_service f, r) \<in> set (gc_routes (cf_gateway c))
     \<and> gateway_service (fo_service f) = Some (gw_prefix r, sk_port (gw_listener r)) \<and> is_loopback (sk_ip (gw_listener r))
     \<and> fo_uri f = upstream_uri env r (path_and_query q)
     \<and> route_holds r (hq_path q) \<and> forwardable (gw_prefix r) (hq_path q)
     \<and> (\<forall>(s', r') \<in> set (gc_routes (cf_gateway c)). route_holds r' (hq_path q) \<longrightarrow> s' = fo_service f)
     \<and> declared_size q \<le> unat (bd_max_body_bytes (fo_budget f))
     \<and> bd_max_body_bytes (fo_budget f) \<le> pub_max_body_bytes public
     \<and> bd_response_timeout_seconds (fo_budget f) \<le> pub_request_timeout_seconds public"
  using assms(2)
proof (rule proxy_Inr)
  fix s r b kind
  assume route: "route_of (cf_gateway c) (hq_path q) = Some (s, r)" and forward: "forwardable (gw_prefix r) (hq_path q)"
    and budget: "budget_for (cf_gateway c) s r (hq_path q) = Some b"
    and size: "declared_size q \<le> unat (bd_max_body_bytes b)"
    and f: "f = \<lparr>fo_service = s, fo_method = hq_method q, fo_uri = upstream_uri env r (path_and_query q),
       fo_headers = forwarded_headers env (hq_headers q)
         \<lparr>gm_principal = p, gm_device_kind = kind, gm_site = site, gm_correlation = correlation\<rparr>, fo_budget = b\<rparr>"
  have member: "(s, r) \<in> set (gc_routes (cf_gateway c))" and holds: "route_holds r (hq_path q)"
    using route by (auto simp: route_of_def find_Some_iff) (metis nth_mem)
  obtain cl public where public: "cf_public c = Some public" and cl: "gw_class r = Some cl"
    and known: "gateway_service s = Some (gw_prefix r, sk_port (gw_listener r))" "is_loopback (sk_ip (gw_listener r))"
    and cost: "bd_max_body_bytes (route_cost (gc_budgets (cf_gateway c)) s cl) \<le> pub_max_body_bytes public"
      "bd_response_timeout_seconds (route_cost (gc_budgets (cf_gateway c)) s cl) \<le> pub_request_timeout_seconds public"
    using accepted_route [OF assms(1) member] by blast
  have one: "s' = s" if "(s', r') \<in> set (gc_routes (cf_gateway c))" "route_holds r' (hq_path q)" for s' r'
    using accepted_route [OF assms(1) that(1)] prefixes_apart known(1) route_holds_slash [OF holds] route_holds_slash [OF that(2)]
    by metis
  have bounds: "bd_max_body_bytes b \<le> pub_max_body_bytes public"
    "bd_response_timeout_seconds b \<le> pub_request_timeout_seconds public"
    using budget_within_cost [OF budget cl] cost by (auto intro: order_trans)
  have "fo_service f = s" "fo_uri f = upstream_uri env r (path_and_query q)" "fo_budget f = b" by (simp_all add: f)
  then show ?thesis using public member known holds forward one size bounds by blast
qed

text \<open>
  A client never sees an authentication challenge or a redirect of a domain service, and sees an error of one
  only when it is the shared contract's envelope, within its bound; no reserved header of a service and no
  hop-by-hop field is relayed, and an answer to an anonymous request carries no cookie.
\<close>

lemma upstream_answer_is_filtered:
  assumes "proxied env is_envelope x = Inr r"
  shows "\<exists>u. x = Reached u \<and> rl_status r = up_status u \<and> rl_status r \<notin> {401, 407}
     \<and> (300 \<le> rl_status r \<and> rl_status r < 400 \<longrightarrow> rl_status r = 304)
     \<and> (400 \<le> rl_status r \<and> rl_status r < 600 \<longrightarrow> rl_preserved r
          \<and> (\<exists>bytes. up_body u = Some bytes \<and> length bytes \<le> max_error_envelope_bytes \<and> is_envelope bytes))
     \<and> (\<forall>(n, v) \<in> set (rl_headers r). \<not> reserved n \<and> n \<notin> set hop_by_hop \<and> n \<notin> set (connection_tokens env (up_headers u)))
     \<and> (\<exists>r'. anonymous_answer env is_envelope x = Inr r' \<and> rl_status r' = rl_status r
          \<and> (\<forall>(n, v) \<in> set (rl_headers r'). n \<noteq> ''set-cookie'' \<and> (n, v) \<in> set (rl_headers r)))"
proof -
  obtain u where x: "x = Reached u" using assms by (cases x) auto
  have relayed: "response_from_upstream env is_envelope u = Inr r" using assms by (simp add: x)
  have challenge: "\<not> (redirects (up_status u) \<and> up_status u \<noteq> 304)" "up_status u \<noteq> 401" "up_status u \<noteq> 407"
    using relayed by (auto simp: response_from_upstream_def split: if_splits)
  have r: "rl_status r = up_status u" "rl_headers r = response_headers env (up_headers u)"
    using relayed challenge by (auto simp: response_from_upstream_def split: if_splits option.splits)
  have error: "rl_preserved r \<and> (\<exists>bytes. up_body u = Some bytes \<and> length bytes \<le> max_error_envelope_bytes \<and> is_envelope bytes)"
    if "failed_status (up_status u)"
    using relayed challenge that
    by (auto simp: response_from_upstream_def read_bounded_def bind_eq_Some_conv split: if_splits option.splits)
  have headers: "\<forall>(n, v) \<in> set (rl_headers r). \<not> reserved n \<and> n \<notin> set hop_by_hop \<and> n \<notin> set (connection_tokens env (up_headers u))"
    by (auto simp: r response_headers_def)
  have "\<exists>r'. anonymous_answer env is_envelope x = Inr r' \<and> rl_status r' = rl_status r
      \<and> (\<forall>(n, v) \<in> set (rl_headers r'). n \<noteq> ''set-cookie'' \<and> (n, v) \<in> set (rl_headers r))"
    by (auto simp: anonymous_answer_def x relayed)
  then show ?thesis using x r challenge error headers by (auto simp: redirects_def failed_status_def)
qed

subsection \<open>A request proxied\<close>

definition example_gateway_env :: gateway_env where
  "example_gateway_env = \<lparr>gy_header_name = Some, gy_header_value = (\<lambda>_. True), gy_uuid = (\<lambda>_. ''1''),
     gy_socket = (\<lambda>_. ''127.0.0.1:8091''), gy_uri = (\<lambda>_. True), gy_user_header = ''x-ratatoskr-user-id'',
     gy_device_header = ''x-ratatoskr-device-id'', gy_correlation_header = ''x-ratatoskr-correlation-id'',
     gy_operation_header = ''x-ratatoskr-operation-id'', gy_sha256_header = ''x-ratatoskr-sha256'',
     gy_byte_size_header = ''x-ratatoskr-size'', gy_archive_media_type = ''application/zip''\<rparr>"

definition example_proxied :: http_request where
  "example_proxied = \<lparr>hq_method = ''GET'', hq_path = ''/v1/k/items'', hq_query = None,
     hq_headers = [(''x-ratatoskr-user-id'', ''2''), (''cookie'', ''c''), (''accept'', ''a'')], hq_peer = None, hq_body = [],
     hq_body_size = None\<rparr>"

definition example_reader :: principal where
  "example_reader = \<lparr>pl_user = 1, pl_session = 11, pl_device = None, pl_kind = Browser\<rparr>"

lemma example_proxy_plan:
  "\<exists>f. proxy example_gateway_env (cf_gateway full_config) identity_example example_reader None ''c:1'' example_proxied = Inr f"
proof -
  have route: "route_of (cf_gateway full_config) ''/v1/k/items''
      = Some (full_route (''knowledge'', ''/v1/k'', 8091))"
    by (simp add: full_config_def gateway_services_def route_of_def full_route_def route_holds_def starts_with_def)
  have ok: "forwardable ''/v1/k'' ''/v1/k/items''" by code_simp
  have "path_limits ''knowledge'' ''/items'' = []" by (simp add: path_limits_def gateway_transfer_paths_def)
  moreover have "strip_prefix ''/v1/k'' ''/v1/k/items'' = Some ''/items''" by (simp add: strip_prefix_def starts_with_def)
  ultimately have budget: "budget_for (cf_gateway full_config) ''knowledge'' (snd (full_route (''knowledge'', ''/v1/k'', 8091)))
      ''/v1/k/items'' = Some default_control_budget"
    by (simp add: budget_for_def Let_def full_route_def budget_of_def full_config_def default_budgets_def)
  show ?thesis
    using route ok budget
    by (simp add: proxy_def example_proxied_def full_route_def device_kind_of_def example_reader_def Let_def
        example_gateway_env_def declared_size_def)
qed

lemma full_config_loads: "load_from willing_env EdgeRole (Inr full_config :: unit + platform_config) = Inr full_config"
  using full_config_accepted by (simp add: load_from_def)

theorem proxied_claims_are_edges_own_witness:
  "\<exists>f. claims_only (fo_headers f) = [(''x-ratatoskr-user-id'', ''1''), (''x-ratatoskr-session-kind'', ''browser''),
        (''x-ratatoskr-correlation-id'', ''c:1'')]
     \<and> proxy example_gateway_env (cf_gateway full_config) identity_example example_reader None ''c:1'' example_proxied = Inr f"
proof -
  obtain f where f: "proxy example_gateway_env (cf_gateway full_config) identity_example example_reader None ''c:1''
      example_proxied = Inr f" using example_proxy_plan by blast
  have none: "device_kind_of identity_example example_reader = Inr None" by (simp add: device_kind_of_def example_reader_def)
  have "claims_only (claim_headers example_gateway_env \<lparr>gm_principal = example_reader, gm_device_kind = None, gm_site = None,
      gm_correlation = ''c:1''\<rparr>) = [(''x-ratatoskr-user-id'', ''1''), (''x-ratatoskr-session-kind'', ''browser''),
        (''x-ratatoskr-correlation-id'', ''c:1'')]"
    by code_simp
  then show ?thesis using proxied_claims_are_edges_own [OF f] none f by auto
qed

theorem proxied_request_stays_in_its_service_witness:
  "\<exists>f. proxy example_gateway_env (cf_gateway full_config) identity_example example_reader None ''c:1'' example_proxied = Inr f
     \<and> (\<exists>prefix port. gateway_service (fo_service f) = Some (prefix, port))"
proof -
  obtain f where f: "proxy example_gateway_env (cf_gateway full_config) identity_example example_reader None ''c:1''
      example_proxied = Inr f" using example_proxy_plan by blast
  then show ?thesis using proxied_request_stays_in_its_service [OF full_config_loads f] by blast
qed

lemma upstream_answer_is_filtered_witness:
  "\<exists>r. proxied example_gateway_env (\<lambda>_. True) (Reached \<lparr>up_status = 404, up_headers = [(''x-ratatoskr-user-id'', ''2''),
        (''etag'', ''e'')], up_body = Some ''{}''\<rparr>) = Inr r \<and> rl_preserved r"
proof -
  let ?x = "Reached \<lparr>up_status = 404, up_headers = [(''x-ratatoskr-user-id'', ''2''), (''etag'', ''e'')], up_body = Some ''{}''\<rparr>"
  obtain r where r: "proxied example_gateway_env (\<lambda>_. True) ?x = Inr r"
    by (simp add: response_from_upstream_def redirects_def failed_status_def read_bounded_def max_error_envelope_bytes_def)
  have "rl_status r = 404" using upstream_answer_is_filtered [OF r] by auto
  then have "rl_preserved r" using upstream_answer_is_filtered [OF r] by auto
  then show ?thesis using r by blast
qed

end
