(* ===== verification/Gateway_Capabilities.thy ===== *)
theory Gateway_Capabilities
  imports Gateway
begin

text \<open>
  The background observation of \<^verbatim>\<open>crates/public-api/src/gateway.rs\<close>: \<open>refresh_capabilities\<close> probes the capability
  document of every configured service, and what Edge answers about a service is read from what the probes
  left. Readings of the clock are texts, as the code keeps them; the JSON reader and the contract's test of a receipt
  document are parameters.
\<close>

record service_capabilities =
  sv_service :: string
  sv_document :: json
  sv_observed_at :: "string option"
  sv_stale :: bool
  sv_stale_since :: "string option"

record capability_board =
  cb_snapshots :: "string \<Rightarrow> service_capabilities option"
  cb_knowledge :: bool

definition empty_board :: capability_board where
  "empty_board = \<lparr>cb_snapshots = Map.empty, cb_knowledge = False\<rparr>"

definition knowledge_surface_available :: "json \<Rightarrow> bool" where
  "knowledge_surface_available document \<longleftrightarrow> Option.bind (json_get ''service'' document) as_str = Some ''knowledge''
     \<and> (case json_get ''capabilities'' document of
          Some (JArray values) \<Rightarrow> list_all (\<lambda>required. list_ex (\<lambda>v. as_str v = Some required) values)
            [''library.search'', ''library.read_state'']
        | _ \<Rightarrow> False)"

text \<open>The document of a probe: a success within the bound that reads as JSON.\<close>

definition observed_document :: "(string \<Rightarrow> json option) \<Rightarrow> exchange \<Rightarrow> json option" where
  "observed_document from_slice x =
     (case x of
        Reached u \<Rightarrow> if successful (up_status u)
          then Option.bind (read_bounded max_error_envelope_bytes (up_body u)) from_slice else None
      | _ \<Rightarrow> None)"

definition snapshot_after :: "string \<Rightarrow> json option \<times> string \<Rightarrow> service_capabilities option \<Rightarrow> service_capabilities" where
  "snapshot_after service = (\<lambda>(document, now) previous.
     case document of
       Some x \<Rightarrow> \<lparr>sv_service = service, sv_document = x, sv_observed_at = Some now, sv_stale = False, sv_stale_since = None\<rparr>
     | None \<Rightarrow> \<lparr>sv_service = service,
         sv_document = (case previous of None \<Rightarrow> JNull | Some v \<Rightarrow> sv_document v),
         sv_observed_at = Option.bind previous sv_observed_at, sv_stale = True,
         sv_stale_since = (case Option.bind previous sv_stale_since of None \<Rightarrow> Some now | Some t \<Rightarrow> Some t)\<rparr>)"

text \<open>One service of a pass, and a pass: \<open>probes\<close> answers the exchange with a service and the clock after it.\<close>

definition refresh_service ::
  "gateway_env \<Rightarrow> (string \<Rightarrow> json option) \<Rightarrow> (string \<Rightarrow> exchange \<times> string) \<Rightarrow> string \<times> gateway_route
     \<Rightarrow> capability_board \<Rightarrow> capability_board" where
  "refresh_service env from_slice probes = (\<lambda>(service, r) b.
     if \<not> gy_uri env (upstream_uri env r (gw_capabilities_path r)) then b
     else let (x, now) = probes service; document = observed_document from_slice x
       in b\<lparr>cb_knowledge := if service = ''knowledge''
              then (case document of None \<Rightarrow> False | Some v \<Rightarrow> knowledge_surface_available v) else cb_knowledge b,
            cb_snapshots := (cb_snapshots b)(service \<mapsto> snapshot_after service (document, now) (cb_snapshots b service))\<rparr>)"

definition refresh_capabilities ::
  "gateway_env \<Rightarrow> (string \<Rightarrow> json option) \<Rightarrow> gateway_config \<Rightarrow> (string \<Rightarrow> exchange \<times> string) \<Rightarrow> capability_board \<Rightarrow> capability_board" where
  "refresh_capabilities env from_slice g probes b = fold (refresh_service env from_slice probes) (gc_routes g) b"

definition capabilities :: "gateway_config \<Rightarrow> capability_board \<Rightarrow> service_capabilities list" where
  "capabilities g b = map (\<lambda>(service, _). case cb_snapshots b service of
       Some v \<Rightarrow> v
     | None \<Rightarrow> \<lparr>sv_service = service, sv_document = JNull, sv_observed_at = None, sv_stale = True, sv_stale_since = None\<rparr>)
     (gc_routes g)"

definition has_archive_receiver :: "gateway_config \<Rightarrow> string \<Rightarrow> bool" where
  "has_archive_receiver g provider =
     (case map_of (gc_routes g) provider of None \<Rightarrow> False | Some r \<Rightarrow> gw_class r = Some TransferClass)"

definition archive_receiver_available :: "(json \<Rightarrow> string \<Rightarrow> bool) \<Rightarrow> capability_board \<Rightarrow> string \<Rightarrow> bool" where
  "archive_receiver_available is_receipt b provider =
     (case cb_snapshots b provider of None \<Rightarrow> False | Some v \<Rightarrow> \<not> sv_stale v \<and> is_receipt (sv_document v) provider)"

subsection \<open>What a history of probes amounts to\<close>

type_synonym observation = "json option \<times> string"

definition successes :: "observation list \<Rightarrow> observation list" where
  "successes = filter (\<lambda>(document, _). document \<noteq> None)"

definition failures_since :: "observation list \<Rightarrow> observation list" where
  "failures_since h = takeWhile (\<lambda>(document, _). document = None) (rev h)"

text \<open>
  The document and its time are those of the last probe that succeeded; the snapshot is stale when a probe
  failed since, and then since the first of them.
\<close>

definition snapshot_of :: "string \<Rightarrow> observation list \<Rightarrow> service_capabilities option" where
  "snapshot_of service h =
     (if h = [] then None else Some \<lparr>sv_service = service,
        sv_document = (if successes h = [] then JNull else the (fst (last (successes h)))),
        sv_observed_at = (if successes h = [] then None else Some (snd (last (successes h)))),
        sv_stale = (failures_since h \<noteq> []),
        sv_stale_since = (if failures_since h = [] then None else Some (snd (last (failures_since h))))\<rparr>)"

lemma successes_snoc: "successes (h @ [(x, t)]) = (if x = None then successes h else successes h @ [(x, t)])"
  by (simp add: successes_def)

lemma failures_since_snoc: "failures_since (h @ [(x, t)]) = (if x = None then (x, t) # failures_since h else [])"
  by (simp add: failures_since_def)

lemma snapshot_of_snoc: "snapshot_of service (h @ [ob]) = Some (snapshot_after service ob (snapshot_of service h))"
proof (cases ob)
  case (Pair x t)
  show ?thesis
  proof (cases x)
    case None
    then show ?thesis
      by (auto simp: Pair snapshot_of_def snapshot_after_def successes_snoc failures_since_snoc successes_def failures_since_def)
  next
    case (Some v)
    then show ?thesis by (simp add: Pair snapshot_of_def snapshot_after_def successes_snoc failures_since_snoc)
  qed
qed

lemma refresh_service_other:
  "name \<noteq> service \<Longrightarrow> cb_snapshots (refresh_service env from_slice probes (service, r) b) name = cb_snapshots b name"
  by (simp add: refresh_service_def Let_def case_prod_beta)

lemma refresh_service_same:
  "gy_uri env (upstream_uri env r (gw_capabilities_path r)) \<Longrightarrow>
     cb_snapshots (refresh_service env from_slice probes (name, r) b) name
       = Some (snapshot_after name (observed_document from_slice (fst (probes name)), snd (probes name)) (cb_snapshots b name))"
  by (simp add: refresh_service_def Let_def case_prod_beta)

lemma refresh_others:
  "name \<notin> fst ` set rows \<Longrightarrow> cb_snapshots (fold (refresh_service env from_slice probes) rows b) name = cb_snapshots b name"
proof (induction rows arbitrary: b)
  case (Cons x rows)
  then show ?case by (cases x) (simp add: refresh_service_other)
qed simp

lemma refresh_one:
  assumes "distinct (map fst rows)" and "(name, r) \<in> set rows"
    and "gy_uri env (upstream_uri env r (gw_capabilities_path r))"
  shows "cb_snapshots (fold (refresh_service env from_slice probes) rows b) name
     = Some (snapshot_after name (observed_document from_slice (fst (probes name)), snd (probes name)) (cb_snapshots b name))"
  using assms
proof (induction rows arbitrary: b)
  case (Cons x rows)
  obtain s r' where x: "x = (s, r')" by fastforce
  show ?case
  proof (cases "s = name")
    case True
    then have "name \<notin> fst ` set rows" and r: "r' = r" using Cons.prems(1,2) by (auto simp: x image_iff)
    then show ?thesis
      using refresh_service_same [OF Cons.prems(3)] refresh_others by (simp add: x True)
  next
    case False
    then have "(name, r) \<in> set rows" using Cons.prems(2) by (simp add: x)
    then show ?thesis
      using Cons.IH [OF _ _ Cons.prems(3)] Cons.prems(1) refresh_service_other [OF not_sym [OF False]] by (simp add: x)
  qed
qed simp

text \<open>
  C30: after any number of passes, what Edge says about a configured service is a function of its probes alone:
  the document and the time of the last one that succeeded, stale exactly when one failed since and dated at the first
  of those; so an archive is accepted for a provider only while its last probe answered the receipt document.
\<close>

theorem board_shows_the_last_good_probe:
  assumes "distinct (map fst (gc_routes g))" and "(name, r) \<in> set (gc_routes g)"
    and "gy_uri env (upstream_uri env r (gw_capabilities_path r))"
  shows "cb_snapshots (fold (refresh_capabilities env from_slice g) passes empty_board) name
        = snapshot_of name (map (\<lambda>p. (observed_document from_slice (fst (p name)), snd (p name))) passes)
     \<and> (archive_receiver_available is_receipt (fold (refresh_capabilities env from_slice g) passes empty_board) name
         \<longrightarrow> (\<exists>v. passes \<noteq> [] \<and> observed_document from_slice (fst (last passes name)) = Some v \<and> is_receipt v name))"
proof -
  let ?h = "map (\<lambda>p. (observed_document from_slice (fst (p name)), snd (p name)))"
  have board: "cb_snapshots (fold (refresh_capabilities env from_slice g) passes empty_board) name = snapshot_of name (?h passes)"
  proof (induction passes rule: rev_induct)
    case Nil
    then show ?case by (simp add: empty_board_def snapshot_of_def)
  next
    case (snoc p passes)
    then show ?case
      unfolding map_append list.map snapshot_of_snoc
      by (simp add: refresh_capabilities_def refresh_one [OF assms])
  qed
  have "\<exists>v. passes \<noteq> [] \<and> observed_document from_slice (fst (last passes name)) = Some v \<and> is_receipt v name"
    if "archive_receiver_available is_receipt (fold (refresh_capabilities env from_slice g) passes empty_board) name"
  proof (cases passes rule: rev_cases)
    case Nil
    then show ?thesis using that board by (simp add: archive_receiver_available_def snapshot_of_def)
  next
    case (snoc qs p)
    have available: "case snapshot_of name (?h passes) of None \<Rightarrow> False | Some v \<Rightarrow> \<not> sv_stale v \<and> is_receipt (sv_document v) name"
      using that by (simp only: archive_receiver_available_def board)
    then show ?thesis
      unfolding snoc map_append list.map snapshot_of_snoc
      by (auto simp: snapshot_after_def split: option.splits)
  qed
  then show ?thesis using board by blast
qed

definition example_probes :: "(string \<Rightarrow> exchange \<times> string) list" where
  "example_probes = [(\<lambda>_. (Reached \<lparr>up_status = 200, up_headers = [], up_body = Some ''d''\<rparr>, ''t1'')), (\<lambda>_. (Late, ''t2'')), (\<lambda>_. (Unreachable, ''t3''))]"

theorem board_shows_the_last_good_probe_witness:
  "cb_snapshots (fold (refresh_capabilities example_gateway_env (\<lambda>s. Some (JString s)) (cf_gateway full_config)) example_probes
      empty_board) ''knowledge''
    = Some \<lparr>sv_service = ''knowledge'', sv_document = JString ''d'', sv_observed_at = Some ''t1'', sv_stale = True,
        sv_stale_since = Some ''t2''\<rparr>"
proof -
  let ?r = "snd (full_route (''knowledge'', ''/v1/k'', 8091))"
  have known: "distinct (map fst (gc_routes (cf_gateway full_config)))" "(''knowledge'', ?r) \<in> set (gc_routes (cf_gateway full_config))"
    by (simp_all add: full_config_def gateway_services_def full_route_def)
  have uri: "gy_uri example_gateway_env (upstream_uri example_gateway_env ?r (gw_capabilities_path ?r))"
    by (simp add: example_gateway_env_def)
  have "snapshot_of ''knowledge'' (map (\<lambda>p. (observed_document (\<lambda>s. Some (JString s)) (fst (p ''knowledge'')), snd (p ''knowledge'')))
      example_probes) = Some \<lparr>sv_service = ''knowledge'', sv_document = JString ''d'', sv_observed_at = Some ''t1'', sv_stale = True,
        sv_stale_since = Some ''t2''\<rparr>"
    by (simp add: example_probes_def observed_document_def successful_def read_bounded_def max_error_envelope_bytes_def
        snapshot_of_def successes_def failures_since_def)
  then show ?thesis using board_shows_the_last_good_probe [OF known uri] by metis
qed

end
