(* ===== verification/Site_Approvals.thy ===== *)
theory Site_Approvals
  imports Gateway Account_Routes
begin

text \<open>
  \<^verbatim>\<open>crates/public-api/src/site_approvals.rs\<close>: the owner approves or withdraws the manifest of a site. The approval
  row, the event that announces it, its audit record and, on a withdrawal, the end of the site's owner
  sessions are one transaction. What the sites service answers, the readers and serializers of the contracts
  and the JSON reader are parameters; a capability is its wire name, and a repository binding the JSON
  value it is read from. A column that does not read back fails like a statement.
\<close>

record active_manifest =
  am_site :: string
  am_manifest :: string
  am_hostname :: string
  am_capabilities :: "string list"
  am_repository :: "json option"

datatype approval_state = Approved | Withdrawn

record approval_change =
  ac_site :: string
  ac_manifest :: string
  ac_capabilities :: "string list"
  ac_hostname :: string
  ac_state :: approval_state
  ac_repository :: "json option"

record site_approval =
  sp_site :: string
  sp_manifest :: string
  sp_capabilities :: "string list"
  sp_hostname :: string
  sp_state :: string
  sp_repository :: "json option"

record approval_env =
  ap_gateway_env :: gateway_env
  ap_gateway :: gateway_config
  ap_sites :: "string \<Rightarrow> headers \<Rightarrow> exchange \<times> bool"
  ap_read :: "string \<Rightarrow> string option"
  ap_read_manifest :: "string \<Rightarrow> active_manifest option"
  ap_digest :: "string \<Rightarrow> bool"
  ap_site_id :: "string \<Rightarrow> bool"
  ap_hostname :: "string \<Rightarrow> bool"
  ap_capability :: "string \<Rightarrow> bool"
  ap_binding :: "json \<Rightarrow> bool"
  ap_event_type :: string
  ap_envelope :: "uuid \<Rightarrow> approval_change \<Rightarrow> uuid \<Rightarrow> string \<Rightarrow> instant \<Rightarrow> json option"
  ap_octets :: "json \<Rightarrow> int"

record approval_mint =
  apm_event :: uuid
  apm_outbox :: uuid
  apm_audit :: uuid
  apm_revocations :: "nat \<Rightarrow> uuid"
  apm_begins :: bool
  apm_commits :: bool

definition max_approval_body :: nat where
  "max_approval_body = 1024"

definition max_manifest_bytes :: nat where
  "max_manifest_bytes = 65536"

subsection \<open>Reading\<close>

definition read_approval :: "approval_env \<Rightarrow> string option \<Rightarrow> failure_kind + string" where
  "read_approval env body =
     ok_or InvalidRequest (Option.bind (read_bounded max_approval_body body) (\<lambda>bytes.
       Option.bind (ap_read env bytes) (\<lambda>digest. if ap_digest env digest then Some digest else None)))"

definition active_manifest_of :: "approval_env \<Rightarrow> principal \<Rightarrow> string \<Rightarrow> string \<Rightarrow> failure_kind + active_manifest" where
  "active_manifest_of env p correlation site =
     bindE (ok_or UpstreamUnavailable (map_of (gc_routes (ap_gateway env)) ''sites'')) (\<lambda>r.
       if \<not> ap_site_id env site then Inl NotFound
       else let uri = upstream_uri (ap_gateway_env env) r (''/internal/sites/'' @ site @ ''/manifest'')
         in if \<not> gy_uri (ap_gateway_env env) uri then Inl UpstreamUnavailable
            else (case ap_sites env uri (claim_headers (ap_gateway_env env)
                     \<lparr>gm_principal = p, gm_device_kind = None, gm_site = None, gm_correlation = correlation\<rparr>) of
                (x, late) \<Rightarrow> fetch_json (gc_budgets (ap_gateway env)) (ap_read_manifest env) True max_manifest_bytes x late))"

definition active_capabilities :: "approval_env \<Rightarrow> principal \<Rightarrow> string \<Rightarrow> string \<Rightarrow> failure_kind + string list" where
  "active_capabilities env p correlation site =
     bindE (active_manifest_of env p correlation site) (\<lambda>m. Inr (am_capabilities m))"

subsection \<open>The row and its announcement\<close>

definition approval_answer :: "approval_row \<Rightarrow> site_approval" where
  "approval_answer r =
     \<lparr>sp_site = sap_site r, sp_manifest = sap_manifest r, sp_capabilities = sap_capabilities r,
      sp_hostname = sap_hostname r, sp_state = sap_state r, sp_repository = sap_repository r\<rparr>"

definition approval_at :: "db \<Rightarrow> string \<Rightarrow> approval_row option" where
  "approval_at d site = fetch_optional (\<lambda>r. sap_site r = site) (t_approvals d)"

definition locked_approval :: "approval_env \<Rightarrow> db \<Rightarrow> string \<Rightarrow> persistence_error + approval_row option" where
  "locked_approval env d site =
     (case approval_at d site of
        None \<Rightarrow> Inr None
      | Some r \<Rightarrow> if opt_ok (ap_binding env) (sap_repository r) then Inr (Some r) else Inl (Query Decode_error))"

definition approved_row_of :: "approval_change \<Rightarrow> uuid \<Rightarrow> instant \<Rightarrow> approval_row" where
  "approved_row_of c user now =
     \<lparr>sap_site = ac_site c, sap_changed_by = user, sap_manifest = ac_manifest c, sap_capabilities = ac_capabilities c,
      sap_hostname = ac_hostname c, sap_state = ''approved'', sap_repository = ac_repository c, sap_changed_at = now\<rparr>"

text \<open>
  The upsert on the site. A violation of the unique index on the hostname has a name; every other violation
  is the same failed statement.
\<close>

datatype upsert_failure = HostnameIndex | OtherViolation

definition upsert_approval :: "db \<Rightarrow> approval_row \<Rightarrow> upsert_failure + db" where
  "upsert_approval d r =
     (if \<not> approval_ok r then Inl OtherViolation
      else if list_ex (\<lambda>x. sap_site x \<noteq> sap_site r \<and> approval_hostname_clash x r) (t_approvals d) then Inl HostnameIndex
      else if \<not> user_exists d (sap_changed_by r) then Inl OtherViolation
      else Inr (d\<lparr>t_approvals := if approval_at d (sap_site r) = None then t_approvals d @ [r]
              else update_where (\<lambda>x. sap_site x = sap_site r) (\<lambda>_. r) (t_approvals d)\<rparr>))"

definition announce_approval ::
  "approval_env \<Rightarrow> approval_mint \<Rightarrow> principal \<Rightarrow> string \<Rightarrow> approval_change \<Rightarrow> instant \<Rightarrow> db \<Rightarrow> persistence_error + db" where
  "announce_approval env mn p correlation c now d =
     (case (ap_envelope env (apm_event mn) c (pl_user p) correlation now, subject_new Event (ap_event_type env)) of
        (Some envelope, Inr subject) \<Rightarrow>
          (case enqueue (ap_octets env) d (apm_outbox mn) (apm_event mn) subject envelope None now of
             Inl _ \<Rightarrow> Inl (Query Check_violation)
           | Inr (_, d1) \<Rightarrow> audit_record d1 (event_by (apm_audit mn) p
               (if ac_state c = Withdrawn then ''site.approval.withdraw'' else ''site.approval.approve'')
               ''site'' None Allowed correlation) now)
      | _ \<Rightarrow> Inl (Query Decode_error))"

subsection \<open>Approving\<close>

definition same_approval :: "approval_change \<Rightarrow> approval_row \<Rightarrow> bool" where
  "same_approval c r \<longleftrightarrow> sap_state r = ''approved'' \<and> sap_manifest r = ac_manifest c"

definition store_approval ::
  "approval_env \<Rightarrow> approval_mint \<Rightarrow> principal \<Rightarrow> string \<Rightarrow> approval_change \<Rightarrow> instant \<Rightarrow> db
     \<Rightarrow> (failure_kind + site_approval) \<times> db" where
  "store_approval env mn p correlation c now d =
     transact (apm_begins mn, apm_commits mn) d (\<lambda>d0.
       bindE (locked_approval env d0 (ac_site c)) (\<lambda>stored.
         case Option.bind stored (\<lambda>r. if same_approval c r then Some r else None) of
           Some r \<Rightarrow> Inr (Abandon (if sap_repository r \<noteq> ac_repository c then Inl UpstreamInvalidResponse
                                   else Inr (approval_answer r)), d0)
         | None \<Rightarrow>
             (case upsert_approval d0 (approved_row_of c (pl_user p) now) of
                Inl HostnameIndex \<Rightarrow> Inr (Abandon (Inl SiteHostnameTaken), d0)
              | Inl OtherViolation \<Rightarrow> Inl (Query Check_violation)
              | Inr d1 \<Rightarrow> bindE (announce_approval env mn p correlation c now d1) (\<lambda>d2.
                  Inr (Commit (Inr (approval_answer (approved_row_of c (pl_user p) now))), d2)))))"

definition approve ::
  "approval_env \<Rightarrow> approval_mint \<Rightarrow> principal \<Rightarrow> string \<Rightarrow> string \<Rightarrow> string option \<Rightarrow> instant \<Rightarrow> db
     \<Rightarrow> (failure_kind + site_approval) \<times> db" where
  "approve env mn p correlation site body now d =
     (case bindE (read_approval env body) (\<lambda>requested.
        bindE (active_manifest_of env p correlation site) (\<lambda>m.
          if am_site m \<noteq> site then Inl UpstreamInvalidResponse
          else if am_manifest m \<noteq> requested then Inl ManifestDigestStale
          else if am_repository m = None then Inl InvalidRequest
          else Inr \<lparr>ac_site = am_site m, ac_manifest = am_manifest m, ac_capabilities = am_capabilities m,
                 ac_hostname = am_hostname m, ac_state = Approved, ac_repository = am_repository m\<rparr>)) of
        Inl kind \<Rightarrow> (Inl kind, d)
      | Inr change \<Rightarrow> store_approval env mn p correlation change now d)"

subsection \<open>Withdrawing\<close>

definition withdrawal_of :: "approval_env \<Rightarrow> string \<Rightarrow> approval_row \<Rightarrow> approval_change option" where
  "withdrawal_of env site r =
     (if list_all (ap_capability env) (sap_capabilities r) \<and> ap_site_id env site \<and> ap_digest env (sap_manifest r)
         \<and> ap_hostname env (sap_hostname r)
      then Some \<lparr>ac_site = site, ac_manifest = sap_manifest r, ac_capabilities = sap_capabilities r,
             ac_hostname = sap_hostname r, ac_state = Withdrawn, ac_repository = sap_repository r\<rparr>
      else None)"

definition withdrawn_row :: "uuid \<Rightarrow> instant \<Rightarrow> approval_row \<Rightarrow> approval_row" where
  "withdrawn_row user now r = r\<lparr>sap_state := ''withdrawn'', sap_changed_by := user, sap_changed_at := now\<rparr>"

definition mark_withdrawn :: "db \<Rightarrow> string \<Rightarrow> uuid \<Rightarrow> instant \<Rightarrow> persistence_error + db" where
  "mark_withdrawn d site user now =
     persist (bindE (sql_update (\<lambda>_. approval_ok) approval_clash (\<lambda>r. sap_site r = site) (withdrawn_row user now) (t_approvals d))
       (\<lambda>t. if user_exists d user then Inr (d\<lparr>t_approvals := t\<rparr>) else Inl Foreign_key_violation))"

definition withdraw ::
  "approval_env \<Rightarrow> approval_mint \<Rightarrow> principal \<Rightarrow> string \<Rightarrow> string \<Rightarrow> instant \<Rightarrow> db
     \<Rightarrow> (failure_kind + site_approval) \<times> db" where
  "withdraw env mn p correlation site now d =
     transact (apm_begins mn, apm_commits mn) d (\<lambda>d0.
       bindE (locked_approval env d0 site) (\<lambda>stored.
         case stored of
           None \<Rightarrow> Inr (Abandon (Inl NotFound), d0)
         | Some r \<Rightarrow>
             if sap_state r = ''withdrawn'' then Inr (Abandon (Inr (approval_answer r)), d0)
             else (case withdrawal_of env site r of
                 None \<Rightarrow> Inr (Abandon (Inl RequestTimeout), d0)
               | Some change \<Rightarrow>
                   bindE (mark_withdrawn d0 site (pl_user p) now) (\<lambda>d1.
                   bindE (revoke_site_sessions d1 None site now) (\<lambda>(revoked, d2).
                   bindE (record_revocations (apm_revocations mn) revoked (pl_user p) now d2) (\<lambda>d3.
                   bindE (announce_approval env mn p correlation change now d3) (\<lambda>d4.
                   Inr (Commit (Inr (approval_answer (withdrawn_row (pl_user p) now r))), d4))))))))"

subsection \<open>What the writes leave\<close>

lemma approval_at_Some: "db_ok d \<Longrightarrow> approval_at d site = Some r \<longleftrightarrow> r \<in> set (t_approvals d) \<and> sap_site r = site"
  unfolding approval_at_def by (rule approvals_table.fetch_key [OF db_okD(25)])

lemma upsert_approval_Inr:
  assumes "upsert_approval d r = Inr d'" and "db_ok d"
  shows "db_ok d'" and "set (t_approvals d') = {x \<in> set (t_approvals d). sap_site x \<noteq> sap_site r} \<union> {r}"
    and "\<exists>t. d' = d\<lparr>t_approvals := t\<rparr>" and "user_exists d (sap_changed_by r)"
proof -
  have ok: "approval_ok r" and user: "user_exists d (sap_changed_by r)"
    and free: "x \<in> set (t_approvals d) \<Longrightarrow> sap_site x \<noteq> sap_site r \<Longrightarrow> \<not> approval_hostname_clash x r" for x
    using assms(1) by (auto simp: upsert_approval_def list_ex_iff split: if_splits)
  have d': "d' = d\<lparr>t_approvals := if approval_at d (sap_site r) = None then t_approvals d @ [r]
      else update_where (\<lambda>x. sap_site x = sap_site r) (\<lambda>_. r) (t_approvals d)\<rparr>"
    using assms(1) by (auto simp: upsert_approval_def split: if_splits)
  have table: "table_ok approval_ok approval_clash (t_approvals d)" by (rule db_okD(25) [OF assms(2)])
  have "table_ok approval_ok approval_clash (t_approvals d')
      \<and> set (t_approvals d') = {x \<in> set (t_approvals d). sap_site x \<noteq> sap_site r} \<union> {r}"
  proof (cases "approval_at d (sap_site r)")
    case None
    then have sites: "\<forall>x \<in> set (t_approvals d). sap_site x \<noteq> sap_site r" by (simp add: approval_at_def fetch_optional_None)
    then have "\<forall>x \<in> set (t_approvals d). \<not> approval_clash x r" using free by (simp add: approval_clash_def)
    then have "sql_insert approval_ok approval_clash r (t_approvals d) = Inr (t_approvals d @ [r])"
      using ok by (simp add: sql_insert_Inr)
    then show ?thesis using approvals_table.insert_ok table sites None by (auto simp: d')
  next
    case (Some old)
    then have old: "old \<in> set (t_approvals d)" "sap_site old = sap_site r" by (simp_all add: approval_at_Some [OF assms(2)])
    let ?g = "\<lambda>x. if sap_site x = sap_site r then r else x"
    have apart: "\<not> approval_clash (?g x) (?g y)"
      if "x \<in> set (t_approvals d)" "y \<in> set (t_approvals d)" "\<not> approval_clash x y" for x y
    proof (cases "sap_site x = sap_site r")
      case True
      then show ?thesis using that free [OF that(2)]
        by (auto simp: approval_clash_def approval_hostname_clash_def)
    next
      case False
      then show ?thesis using that free [OF that(1)] by (simp add: approval_clash_def)
    qed
    have "sorted_wrt (\<lambda>x y. \<not> approval_clash (?g x) (?g y)) (t_approvals d)"
      by (rule sorted_wrt_mono_rel [of _ "\<lambda>x y. \<not> approval_clash x y"])
        (use apart table in \<open>auto simp: table_ok_def\<close>)
    then have "sorted_wrt (\<lambda>x y. \<not> approval_clash x y) (update_where (\<lambda>x. sap_site x = sap_site r) (\<lambda>_. r) (t_approvals d))"
      by (simp add: update_where_def sorted_wrt_map)
    then have "table_ok approval_ok approval_clash (update_where (\<lambda>x. sap_site x = sap_site r) (\<lambda>_. r) (t_approvals d))"
      using table ok by (auto simp: table_ok_def list_all_iff set_update_where)
    then show ?thesis using old Some by (auto simp: d' set_update_where)
  qed
  then show "db_ok d'" and "set (t_approvals d') = {x \<in> set (t_approvals d). sap_site x \<noteq> sap_site r} \<union> {r}"
    using assms(2) by (auto simp: d' intro!: db_ok_update)
  show "\<exists>t. d' = d\<lparr>t_approvals := t\<rparr>" by (auto simp: d')
  show "user_exists d (sap_changed_by r)" by (rule user)
qed

lemma announce_approval_Inr:
  assumes "announce_approval env mn p correlation c now d = Inr d'"
  obtains envelope subject b d1 where "ap_envelope env (apm_event mn) c (pl_user p) correlation now = Some envelope"
    and "subject_new Event (ap_event_type env) = Inr subject"
    and "enqueue (ap_octets env) d (apm_outbox mn) (apm_event mn) subject envelope None now = Inr (b, d1)"
    and "d' = d1\<lparr>t_audit := t_audit d1 @ [audit_row_of (event_by (apm_audit mn) p
               (if ac_state c = Withdrawn then ''site.approval.withdraw'' else ''site.approval.approve'')
               ''site'' None Allowed correlation) now]\<rparr>"
    and "db_ok d \<Longrightarrow> db_ok d'"
proof -
  obtain envelope where e: "ap_envelope env (apm_event mn) c (pl_user p) correlation now = Some envelope"
    using assms by (auto simp: announce_approval_def split: option.splits)
  obtain subject where s: "subject_new Event (ap_event_type env) = Inr subject"
    using assms e by (auto simp: announce_approval_def split: sum.splits)
  obtain b d1 where q: "enqueue (ap_octets env) d (apm_outbox mn) (apm_event mn) subject envelope None now = Inr (b, d1)"
    using assms e s by (auto simp: announce_approval_def split: sum.splits)
  have a: "audit_record d1 (event_by (apm_audit mn) p
      (if ac_state c = Withdrawn then ''site.approval.withdraw'' else ''site.approval.approve'')
      ''site'' None Allowed correlation) now = Inr d'"
    using assms by (simp add: announce_approval_def e s q)
  show ?thesis
    by (rule that [OF e s q audit_record_Inr(1) [OF a]]) (use audit_record_Inr(2) [OF a] enqueue_Inr(1) [OF q] in blast)
qed

lemma announce_frame:
  assumes "announce_approval env mn p correlation c now d = Inr d'"
  shows "t_approvals d' = t_approvals d" and "t_sessions d' = t_sessions d" and "db_ok d \<Longrightarrow> db_ok d'"
  using assms by (auto elim!: announce_approval_Inr dest!: enqueue_Inr(3))

text \<open>The event of an announcement, when its identifier is new.\<close>

lemma announce_event:
  assumes "announce_approval env mn p correlation c now d = Inr d'" and "\<forall>r \<in> set (t_outbox d). ob_message r \<noteq> apm_event mn"
  shows "\<exists>envelope subject. ap_envelope env (apm_event mn) c (pl_user p) correlation now = Some envelope
     \<and> subject_new Event (ap_event_type env) = Inr subject
     \<and> t_outbox d' = t_outbox d @ [outbox_row_of (apm_outbox mn) (apm_event mn) subject envelope (ap_octets env envelope) None now]"
  using assms(1)
proof (rule announce_approval_Inr)
  fix envelope subject b d1
  assume e: "ap_envelope env (apm_event mn) c (pl_user p) correlation now = Some envelope"
    and s: "subject_new Event (ap_event_type env) = Inr subject"
    and q: "enqueue (ap_octets env) d (apm_outbox mn) (apm_event mn) subject envelope None now = Inr (b, d1)"
    and d': "d' = d1\<lparr>t_audit := t_audit d1 @ [audit_row_of (event_by (apm_audit mn) p
               (if ac_state c = Withdrawn then ''site.approval.withdraw'' else ''site.approval.approve'')
               ''site'' None Allowed correlation) now]\<rparr>"
  have b by (use enqueue_Inr(2) [OF q] assms(2) in blast)
  then have "t_outbox d' = t_outbox d @ [outbox_row_of (apm_outbox mn) (apm_event mn) subject envelope (ap_octets env envelope) None now]"
    using enqueue_Inr(3) [OF q] by (simp add: d')
  with e s show ?thesis by blast
qed

text \<open>Storing an approval: nothing changes, or the row is written and announced.\<close>

lemma store_approval_cases:
  assumes "store_approval env mn p correlation c now d = (answer, d')"
  shows "d' = d \<and> ((\<exists>kind. answer = Inl kind)
        \<or> (\<exists>r. approval_at d (ac_site c) = Some r \<and> same_approval c r \<and> sap_repository r = ac_repository c
             \<and> answer = Inr (approval_answer r)))
     \<or> (\<exists>d1. upsert_approval d (approved_row_of c (pl_user p) now) = Inr d1
        \<and> announce_approval env mn p correlation c now d1 = Inr d'
        \<and> answer = Inr (approval_answer (approved_row_of c (pl_user p) now))
        \<and> (\<forall>r. approval_at d (ac_site c) = Some r \<longrightarrow> \<not> same_approval c r))"
proof (cases "Option.bind (approval_at d (ac_site c)) (\<lambda>r. if same_approval c r then Some r else None)")
  case (Some r)
  then have r: "approval_at d (ac_site c) = Some r" "same_approval c r" by (auto simp: bind_eq_Some_conv split: if_splits)
  show ?thesis
    using transact_cases [OF assms [unfolded store_approval_def]] r
    by (auto simp: locked_approval_def split: if_splits)
next
  case None
  then have differs: "\<forall>r. approval_at d (ac_site c) = Some r \<longrightarrow> \<not> same_approval c r" by auto
  show ?thesis
    using transact_cases [OF assms [unfolded store_approval_def]] differs
    by (cases "approval_at d (ac_site c)"; cases "upsert_approval d (approved_row_of c (pl_user p) now)")
      (auto simp: locked_approval_def split: if_splits upsert_failure.splits)
qed

lemma approve_Inr:
  assumes "approve env mn p correlation site body now d = (Inr a, d')"
  obtains m where "read_approval env body = Inr (am_manifest m)" and "active_manifest_of env p correlation site = Inr m"
    and "am_site m = site"
    and "store_approval env mn p correlation \<lparr>ac_site = site, ac_manifest = am_manifest m,
           ac_capabilities = am_capabilities m, ac_hostname = am_hostname m, ac_state = Approved,
           ac_repository = am_repository m\<rparr> now d = (Inr a, d')"
  using assms by (auto simp: approve_def bindE_def split: sum.splits if_splits)

lemma approved_rows_apart:
  assumes "db_ok d" and "x \<in> set (t_approvals d)" and "y \<in> set (t_approvals d)"
    and "sap_state x = ''approved''" and "sap_state y = ''approved''" and "sap_hostname x = sap_hostname y"
  shows "x = y"
  using approvals_table.unclashing [OF db_okD(25) [OF assms(1)] assms(2,3)] assms(4-6)
  by (simp add: approval_clash_def approval_hostname_clash_def)

text \<open>
  C14: an approval is answered only for the digest of the manifest that the sites service names as active, and leaves
  the site approved under exactly that digest, no other site approved under its hostname, every other site and every
  session as it was; and unless the site already had that approval, the row names the caller and the manifest's
  hostname and capabilities, and one event is enqueued in the same transaction, whose envelope is of that approval.
\<close>

theorem approval_is_of_the_active_manifest:
  assumes "db_ok d" and "approve env mn p correlation site body now d = (Inr a, d')"
    and "\<forall>r \<in> set (t_outbox d). ob_message r \<noteq> apm_event mn"
  shows "\<exists>m x. read_approval env body = Inr (am_manifest m) \<and> active_manifest_of env p correlation site = Inr m
     \<and> x \<in> set (t_approvals d') \<and> approved_row site x \<and> sap_manifest x = am_manifest m
     \<and> sap_repository x = am_repository m \<and> a = approval_answer x
     \<and> db_ok d' \<and> t_sessions d' = t_sessions d
     \<and> (\<forall>y \<in> set (t_approvals d'). sap_state y = ''approved'' \<and> sap_hostname y = sap_hostname x \<longrightarrow> sap_site y = site)
     \<and> (\<forall>y. sap_site y \<noteq> site \<longrightarrow> (y \<in> set (t_approvals d') \<longleftrightarrow> y \<in> set (t_approvals d)))
     \<and> (d' = d \<or> sap_changed_by x = pl_user p \<and> sap_hostname x = am_hostname m \<and> sap_capabilities x = am_capabilities m
         \<and> (\<exists>envelope subject. ap_envelope env (apm_event mn)
              \<lparr>ac_site = site, ac_manifest = am_manifest m, ac_capabilities = am_capabilities m,
               ac_hostname = am_hostname m, ac_state = Approved, ac_repository = am_repository m\<rparr>
              (pl_user p) correlation now = Some envelope
            \<and> subject_new Event (ap_event_type env) = Inr subject
            \<and> t_outbox d' = t_outbox d
                @ [outbox_row_of (apm_outbox mn) (apm_event mn) subject envelope (ap_octets env envelope) None now]))"
  using assms(2)
proof (rule approve_Inr)
  fix m :: active_manifest
  let ?c = "\<lparr>ac_site = site, ac_manifest = am_manifest m, ac_capabilities = am_capabilities m, ac_hostname = am_hostname m,
    ac_state = Approved, ac_repository = am_repository m\<rparr>"
  assume asked: "read_approval env body = Inr (am_manifest m)" and active: "active_manifest_of env p correlation site = Inr m"
    and store: "store_approval env mn p correlation ?c now d = (Inr a, d')"
  let ?w = "approved_row_of ?c (pl_user p) now"
  have only: "\<forall>y \<in> set (t_approvals e). sap_state y = ''approved'' \<and> sap_hostname y = sap_hostname x \<longrightarrow> sap_site y = site"
    if "db_ok e" "x \<in> set (t_approvals e)" "approved_row site x" for e x
    using approved_rows_apart [OF that(1,2)] that(3) by (fastforce simp: approved_row_def)
  have "(\<exists>x. x \<in> set (t_approvals d') \<and> approved_row site x \<and> sap_manifest x = am_manifest m
      \<and> sap_repository x = am_repository m \<and> a = approval_answer x \<and> d' = d)
    \<or> (\<exists>d1. upsert_approval d ?w = Inr d1 \<and> announce_approval env mn p correlation ?c now d1 = Inr d' \<and> a = approval_answer ?w)"
    using store_approval_cases [OF store]
    by (auto simp: approval_at_Some [OF assms(1)] same_approval_def approved_row_def)
  then show ?thesis
  proof (elim disjE exE conjE)
    fix x
    assume x: "x \<in> set (t_approvals d')" "approved_row site x" "sap_manifest x = am_manifest m"
      "sap_repository x = am_repository m" "a = approval_answer x" "d' = d"
    have "db_ok d'" using assms(1) x(6) by simp
    then show ?thesis
      using asked active x only [OF _ x(1,2)] by (intro exI [of _ m] exI [of _ x]) blast
  next
    fix d1
    assume up: "upsert_approval d ?w = Inr d1" and said: "announce_approval env mn p correlation ?c now d1 = Inr d'"
      and a: "a = approval_answer ?w"
    note w = upsert_approval_Inr [OF up assms(1)]
    note frame = announce_frame [OF said]
    have ok: "db_ok d'" using frame(3) w(1) by blast
    have rows: "set (t_approvals d') = {x \<in> set (t_approvals d). sap_site x \<noteq> site} \<union> {?w}"
      using w(2) frame(1) by (simp add: approved_row_of_def)
    have same: "t_sessions d' = t_sessions d" "t_outbox d1 = t_outbox d" using w(3) frame(2) by auto
    note event = announce_event [OF said, unfolded same(2), OF assms(3)]
    have x: "?w \<in> set (t_approvals d')" "approved_row site ?w" "sap_manifest ?w = am_manifest m"
      "sap_repository ?w = am_repository m" "sap_changed_by ?w = pl_user p" "sap_hostname ?w = am_hostname m"
      "sap_capabilities ?w = am_capabilities m" "sap_site ?w = site"
      using rows by (simp_all add: approved_row_of_def approved_row_def)
    have others: "\<forall>y. sap_site y \<noteq> site \<longrightarrow> (y \<in> set (t_approvals d') \<longleftrightarrow> y \<in> set (t_approvals d))"
      using rows x(8) by auto
    show ?thesis
      using asked active x a ok same(1) only [OF ok x(1,2)] others event by (intro exI [of _ m] exI [of _ ?w]) blast
  qed
qed

subsection \<open>Withdrawing ends what the approval allowed\<close>

lemma record_revocations_frame:
  "record_revocations ids subjects user now d = Inr e \<Longrightarrow> \<exists>t. e = d\<lparr>t_revocations := t\<rparr>"
proof (induction subjects arbitrary: e rule: rev_induct)
  case Nil
  then have "e = d\<lparr>t_revocations := t_revocations d\<rparr>" by (simp add: record_revocations_def)
  then show ?case by blast
next
  case (snoc i subjects)
  then obtain f x where f: "record_revocations ids subjects user now d = Inr f"
    and x: "record_revocation f (ids (length subjects)) SessionSubject i UserRequest (Some user) now = Inr (x, e)"
    by (auto simp: record_revocations_def enumerate_append_eq foldE_append)
  show ?case using snoc.IH [OF f] record_revocation_Inr(1) [OF x] by auto
qed

lemma record_revocations_ok: "record_revocations ids subjects user now d = Inr e \<Longrightarrow> db_ok d \<Longrightarrow> db_ok e"
proof (induction subjects arbitrary: e rule: rev_induct)
  case Nil
  then show ?case by (simp add: record_revocations_def)
next
  case (snoc i subjects)
  then obtain f x where f: "record_revocations ids subjects user now d = Inr f"
    and x: "record_revocation f (ids (length subjects)) SessionSubject i UserRequest (Some user) now = Inr (x, e)"
    by (auto simp: record_revocations_def enumerate_append_eq foldE_append)
  show ?case using snoc.IH [OF f snoc.prems(2)] record_revocation_Inr(2) [OF x] by blast
qed

lemma withdrawn_row_simps [simp]:
  "sap_site (withdrawn_row user now r) = sap_site r" "sap_state (withdrawn_row user now r) = ''withdrawn''"
  "sap_hostname (withdrawn_row user now r) = sap_hostname r"
  by (simp_all add: withdrawn_row_def)

lemma mark_withdrawn_Inr:
  assumes "mark_withdrawn d site user now = Inr d'"
  shows "d' = d\<lparr>t_approvals := update_where (\<lambda>r. sap_site r = site) (withdrawn_row user now) (t_approvals d)\<rparr>"
    and "db_ok d \<Longrightarrow> db_ok d'" and "user_exists d user"
proof -
  obtain t where t: "sql_update (\<lambda>_. approval_ok) approval_clash (\<lambda>r. sap_site r = site) (withdrawn_row user now)
      (t_approvals d) = Inr t" and d': "d' = d\<lparr>t_approvals := t\<rparr>" and user: "user_exists d user"
    using assms by (auto simp: mark_withdrawn_def split: if_splits)
  show "d' = d\<lparr>t_approvals := update_where (\<lambda>r. sap_site r = site) (withdrawn_row user now) (t_approvals d)\<rparr>"
    using t d' by (simp add: sql_update_Inr)
  show "db_ok d \<Longrightarrow> db_ok d'" using approvals_table.update_ok [OF t] d' by (auto dest: db_okD(25))
  show "user_exists d user" by (rule user)
qed

text \<open>A withdrawal: nothing changes, or the row is withdrawn, the site's sessions end and the event is enqueued.\<close>

lemma withdraw_cases:
  assumes "withdraw env mn p correlation site now d = (answer, d')"
  shows "d' = d \<and> ((\<exists>kind. answer = Inl kind)
       \<or> (\<exists>r. approval_at d site = Some r \<and> sap_state r = ''withdrawn'' \<and> answer = Inr (approval_answer r)))
     \<or> (\<exists>r change d1 revoked d2 d3. approval_at d site = Some r \<and> sap_state r \<noteq> ''withdrawn'' \<and> withdrawal_of env site r = Some change
         \<and> mark_withdrawn d site (pl_user p) now = Inr d1 \<and> revoke_site_sessions d1 None site now = Inr (revoked, d2)
         \<and> record_revocations (apm_revocations mn) revoked (pl_user p) now d2 = Inr d3
         \<and> announce_approval env mn p correlation change now d3 = Inr d'
         \<and> answer = Inr (approval_answer (withdrawn_row (pl_user p) now r)))"
proof -
  note run = transact_cases [OF assms [unfolded withdraw_def]]
  show ?thesis
  proof (cases "approval_at d site")
    case None
    then show ?thesis using run by (auto simp: locked_approval_def)
  next
    case (Some r)
    show ?thesis
    proof (cases "sap_state r = ''withdrawn''")
      case True
      then show ?thesis using run Some by (auto simp: locked_approval_def split: if_splits)
    next
      case False
      then show ?thesis using run Some
        by (cases "withdrawal_of env site r") (auto simp: locked_approval_def split: if_splits)
    qed
  qed
qed

lemma site_sessions_are_owners:
  assumes "db_ok d" and "x \<in> set (t_sessions d)" and "ss_audience x = site_audience site" and "site_id_name site"
  shows "ss_kind x = ''site_owner''"
  using sessions_table.row_ok [OF db_okD(13) [OF assms(1)] assms(2)] assms(3,4)
  by (simp add: session_ok_def site_audience_name_def site_audience_def starts_with_def)

text \<open>
  C13: withdrawing the approval of a site leaves the site without an approval and frees its hostname. It ends every
  live session opened on the site, whoever opened it, and changes no other session and no other site. One event is
  enqueued in the same transaction, whose envelope is of the site's row in the state \<open>Withdrawn\<close>.
\<close>

theorem withdrawal_ends_the_sites_sessions:
  assumes "db_ok d" and "withdraw env mn p correlation site now d = (Inr a, d')"
    and "approval_at d site = Some r" and "sap_state r = ''approved''"
    and "\<forall>x \<in> set (t_outbox d). ob_message x \<noteq> apm_event mn"
  shows "db_ok d' \<and> approved_hostname d' site = None \<and> a = approval_answer (withdrawn_row (pl_user p) now r)
     \<and> (\<forall>x \<in> set (t_sessions d'). ss_kind x = ''site_owner'' \<and> ss_audience x = site_audience site \<longrightarrow> ss_revoked_at x \<noteq> None)
     \<and> (\<forall>token later. authenticate d' token (site_audience site) later = None)
     \<and> (\<forall>i. session_at d' i = map_option (\<lambda>x. if ss_kind x = ''site_owner'' \<and> ss_audience x = site_audience site
          \<and> ss_revoked_at x = None then x\<lparr>ss_revoked_at := Some now\<rparr> else x) (session_at d i))
     \<and> (\<forall>y. sap_site y \<noteq> site \<longrightarrow> (y \<in> set (t_approvals d') \<longleftrightarrow> y \<in> set (t_approvals d)))
     \<and> (\<exists>envelope subject. ap_envelope env (apm_event mn)
            \<lparr>ac_site = site, ac_manifest = sap_manifest r, ac_capabilities = sap_capabilities r,
             ac_hostname = sap_hostname r, ac_state = Withdrawn, ac_repository = sap_repository r\<rparr>
            (pl_user p) correlation now = Some envelope
          \<and> subject_new Event (ap_event_type env) = Inr subject
          \<and> t_outbox d' = t_outbox d
              @ [outbox_row_of (apm_outbox mn) (apm_event mn) subject envelope (ap_octets env envelope) None now])"
proof -
  obtain change d1 revoked d2 d3 where change: "withdrawal_of env site r = Some change"
    and marked: "mark_withdrawn d site (pl_user p) now = Inr d1"
    and ended: "revoke_site_sessions d1 None site now = Inr (revoked, d2)"
    and recorded: "record_revocations (apm_revocations mn) revoked (pl_user p) now d2 = Inr d3"
    and said: "announce_approval env mn p correlation change now d3 = Inr d'"
    and a: "a = approval_answer (withdrawn_row (pl_user p) now r)"
    using withdraw_cases [OF assms(2)] assms(3,4) by auto
  note m = mark_withdrawn_Inr [OF marked]
  note e = revoke_where_Inr [OF ended [unfolded revoke_site_sessions_def]]
  obtain rv where d3: "d3 = d2\<lparr>t_revocations := rv\<rparr>" using record_revocations_frame [OF recorded] by blast
  obtain u where d2: "d2 = d1\<lparr>t_sessions := u\<rparr>" using e(4) by blast
  note frame = announce_frame [OF said]
  have ok2: "db_ok d2" using e(1) m(2) assms(1) by blast
  have ok: "db_ok d'" using frame(3) record_revocations_ok [OF recorded ok2] by blast
  have rows: "t_approvals d' = update_where (\<lambda>r. sap_site r = site) (withdrawn_row (pl_user p) now) (t_approvals d)"
    by (simp add: frame(1) d3 d2 m(1))
  have row: "\<exists>y \<in> set (t_approvals d). x = (if sap_site y = site then withdrawn_row (pl_user p) now y else y)"
    if "x \<in> set (t_approvals d')" for x
    using in_update_where [OF that [unfolded rows]] by blast
  have "\<not> approved_row site x" if x: "x \<in> set (t_approvals d')" for x
  proof -
    obtain y where "x = (if sap_site y = site then withdrawn_row (pl_user p) now y else y)" using row [OF x] by blast
    then show ?thesis by (simp add: approved_row_def split: if_splits)
  qed
  then have "approved_hostname d' site = None" by (simp add: approved_hostname_def fetch_optional_None)
  moreover have name: "site_id_name site"
    using approvals_table.row_ok [OF db_okD(25) [OF assms(1)]] assms(3) by (auto simp: approval_at_Some [OF assms(1)] approval_ok_def)
  moreover have over: "ss_revoked_at x \<noteq> None"
    if "x \<in> set (t_sessions d')" "ss_kind x = ''site_owner''" "ss_audience x = site_audience site" for x
  proof -
    have "x \<in> set (t_sessions d2)" using that(1) by (simp add: frame(2) d3)
    then have "session_at d2 (ss_id x) = Some x" by (simp add: session_at_iff [OF ok2])
    then obtain y where "x = (if (ss_kind y = ''site_owner'' \<and> ss_audience y = site_audience site) \<and> ss_revoked_at y = None
        then revoked_session now y else y)"
      using e(2) [of "ss_id x"] by auto
    then show ?thesis using that(2,3) by (cases "ss_revoked_at y") (auto split: if_splits)
  qed
  moreover have "authenticate d' token (site_audience site) later = None" for token later
  proof (rule ccontr)
    assume "authenticate d' token (site_audience site) later \<noteq> None"
    then obtain s where "authenticate d' token (site_audience site) later = Some s" by blast
    then obtain x where x: "x \<in> set (t_sessions d')" "authenticates token (site_audience site) later x"
      by (auto simp: authenticate_Some [OF ok])
    have "ss_revoked_at x = None" "ss_audience x = site_audience site" using x(2) by (simp_all add: authenticates_def)
    then show False using over [OF x(1) site_sessions_are_owners [OF ok x(1) _ name]] by blast
  qed
  moreover have "y \<in> set (t_approvals d') \<longleftrightarrow> y \<in> set (t_approvals d)" if "sap_site y \<noteq> site" for y
  proof
    assume "y \<in> set (t_approvals d')"
    then obtain x where "x \<in> set (t_approvals d)" "y = (if sap_site x = site then withdrawn_row (pl_user p) now x else x)"
      using row by blast
    then show "y \<in> set (t_approvals d)" using that by (simp split: if_splits)
  qed (use that in \<open>simp add: rows set_update_where\<close>)
  moreover have "session_at d' i = map_option (\<lambda>x. if ss_kind x = ''site_owner'' \<and> ss_audience x = site_audience site
      \<and> ss_revoked_at x = None then x\<lparr>ss_revoked_at := Some now\<rparr> else x) (session_at d i)" for i
    using e(2) [of i] unfolding revoked_session_def [symmetric] by (simp add: session_at_def frame(2) d3 m(1))
  moreover have "change = \<lparr>ac_site = site, ac_manifest = sap_manifest r, ac_capabilities = sap_capabilities r,
      ac_hostname = sap_hostname r, ac_state = Withdrawn, ac_repository = sap_repository r\<rparr>"
    using change by (simp add: withdrawal_of_def split: if_splits)
  moreover have "t_outbox d3 = t_outbox d" by (simp add: d3 d2 m(1))
  note announce_event [OF said, unfolded this, OF assms(5)]
  ultimately show ?thesis using ok a by (intro conjI allI) (blast | simp)+
qed

end
