(* ===== verification/Site_History.thy ===== *)
theory Site_History
  imports Site_Approvals Session_Routes Credential_Routes
begin

text \<open>
  The composition of the approval routes, the opening of a site session and every other committed call on the
  identity schema: along each of their histories a live site session belongs to a site that is approved, or to a
  sign-in that a withdrawal overtook.
\<close>

definition live_owner :: "session_row \<Rightarrow> bool" where
  "live_owner r \<longleftrightarrow> ss_kind r = ''site_owner'' \<and> ss_revoked_at r = None"

definition approved_sites :: "db \<Rightarrow> string set" where
  "approved_sites d = {sap_site x | x. x \<in> set (t_approvals d) \<and> sap_state x = ''approved''}"

text \<open>The sessions that the other callers of \<open>create_session\<close> make; a pairing makes its own within its redemption.\<close>

inductive edge_session :: "new_session \<Rightarrow> bool" where
  edge_login: "edge_session (login_session cenv owner device token now)"
| edge_telegram: "edge_session (telegram_session user audience token now)"

text \<open>
  A run of calls, the latest first, with the databases between them. A call stands where its last write takes effect
  for the others: a withdrawal where its statement ends the sessions, every other call where it commits. The approval
  that a sign-in reads is that of an earlier database of the run, since a withdrawal may take effect between that
  unlocked read and the commit; what its first statement reads is left open. \<open>Opened site k i\<close> is a sign-in that
  made the session \<open>k\<close>, with \<open>i\<close> calls since the approval was read; \<open>Withdrew site\<close> a withdrawal that changed
  anything.
\<close>

datatype site_call = Withdrew string | Opened string uuid nat | Other_call

definition opened_label :: "string \<Rightarrow> uuid \<Rightarrow> nat \<Rightarrow> opened_session reply \<Rightarrow> site_call" where
  "opened_label site k i answer = (case answer of Answered _ \<Rightarrow> Opened site k i | _ \<Rightarrow> Other_call)"

inductive site_run ::
  "(string \<Rightarrow> digest) \<Rightarrow> (digest \<Rightarrow> string) \<Rightarrow> (audit_row list \<Rightarrow> audit_row list) \<Rightarrow> db \<Rightarrow> site_call list \<Rightarrow> db list \<Rightarrow> bool"
  for sha256 base64url scan d0 where
  run_start: "site_run sha256 base64url scan d0 [] [d0]"
| run_approve: "site_run sha256 base64url scan d0 cs (d # ds) \<Longrightarrow>
     approve env mn p correlation site body now d = (x1, e) \<Longrightarrow>
     site_run sha256 base64url scan d0 (Other_call # cs) (e # d # ds)"
| run_withdraw: "site_run sha256 base64url scan d0 cs (d # ds) \<Longrightarrow>
     withdraw env mn p correlation site now d = (x2, e) \<Longrightarrow>
     site_run sha256 base64url scan d0 ((if e = d then Other_call else Withdrew site) # cs) (e # d # ds)"
| run_open: "site_run sha256 base64url scan d0 cs (d # ds) \<Longrightarrow> i \<le> length ds \<Longrightarrow>
     open_session senv smn site q now (found, (d # ds) ! i) d = (answer, e) \<Longrightarrow>
     site_run sha256 base64url scan d0 (opened_label site (sm_row smn) i answer # cs) (e # d # ds)"
| run_edge: "site_run sha256 base64url scan d0 cs (d # ds) \<Longrightarrow> edge_session n \<Longrightarrow>
     create_session d k n = Inr (x3, e) \<Longrightarrow>
     site_run sha256 base64url scan d0 (Other_call # cs) (e # d # ds)"
| run_other: "site_run sha256 base64url scan d0 cs (d # ds) \<Longrightarrow> identity_step sha256 base64url scan d e \<Longrightarrow>
     (\<nexists>k n x. create_session d k n = Inr (x, e)) \<Longrightarrow>
     site_run sha256 base64url scan d0 (Other_call # cs) (e # d # ds)"

text \<open>
  The session \<open>k\<close> of the site was opened on an approval that was withdrawn after it was read, and no later withdrawal
  of the site changed anything.
\<close>

fun overtaken :: "string \<Rightarrow> uuid \<Rightarrow> site_call list \<Rightarrow> bool" where
  "overtaken site k [] = False"
| "overtaken site k (Withdrew s # cs) = (s \<noteq> site \<and> overtaken site k cs)"
| "overtaken site k (Opened s j i # cs) = (s = site \<and> j = k \<and> Withdrew site \<in> set (take i cs) \<or> overtaken site k cs)"
| "overtaken site k (Other_call # cs) = overtaken site k cs"

definition owners_approved :: "site_call list \<Rightarrow> db \<Rightarrow> bool" where
  "owners_approved cs d \<longleftrightarrow> (\<forall>r \<in> set (t_sessions d). live_owner r \<longrightarrow>
     (\<exists>site. ss_audience r = site_audience site \<and> (site \<in> approved_sites d \<or> overtaken site (ss_id r) cs)))"

subsection \<open>Every other call leaves the approvals and makes no owner's session\<close>

definition no_new_owner :: "db \<Rightarrow> db \<Rightarrow> bool" where
  "no_new_owner d e \<longleftrightarrow> t_approvals e = t_approvals d
     \<and> (\<forall>r \<in> set (t_sessions e). live_owner r \<longrightarrow>
          (\<exists>x \<in> set (t_sessions d). live_owner x \<and> ss_id x = ss_id r \<and> ss_audience x = ss_audience r))"

lemma no_new_owner_same [intro]: "t_approvals e = t_approvals d \<Longrightarrow> t_sessions e = t_sessions d \<Longrightarrow> no_new_owner d e"
  by (auto simp: no_new_owner_def)

lemma no_new_owner_trans: "no_new_owner c d \<Longrightarrow> no_new_owner d e \<Longrightarrow> no_new_owner c e"
  unfolding no_new_owner_def by (metis (no_types, lifting))

lemma no_new_owner_update:
  assumes "t_approvals e = t_approvals d" and "t_sessions e = update_where p f (t_sessions d)"
    and "\<And>r. ss_id (f r) = ss_id r" and "\<And>r. ss_audience (f r) = ss_audience r" and "\<And>r. live_owner (f r) \<Longrightarrow> live_owner r"
  shows "no_new_owner d e"
  using assms by (fastforce simp: no_new_owner_def set_update_where)

lemma user_owners:
  "create_user d k now = Inr (x, e) \<Longrightarrow> no_new_owner d e"
  "set_user_status d i st now = Inr (y, e) \<Longrightarrow> no_new_owner d e"
  "link_external_identity d k u provider external now = Inr (z, e) \<Longrightarrow> no_new_owner d e"
  "grant d k u capability now expires = Inr (v, e) \<Longrightarrow> no_new_owner d e"
  "revoke_grant d u capability now = Inr (w, e) \<Longrightarrow> no_new_owner d e"
  "record_revocation d k subj i reason by_whom now = Inr (v, e) \<Longrightarrow> no_new_owner d e"
  "issue_refresh_token d k i token now until = Inr (tk, e) \<Longrightarrow> no_new_owner d e"
  "spend_link d k r replacement now until = Inr (tk, e) \<Longrightarrow> no_new_owner d e"
  by (auto simp: create_user_def set_user_status_def link_external_identity_def grant_def revoke_grant_def
      record_revocation_def issue_refresh_token_def spend_link_def Let_def split: if_splits option.splits)

lemma create_session_owners: "create_session d k n = Inr (s, e) \<Longrightarrow> ns_kind n \<noteq> SiteOwner \<Longrightarrow> no_new_owner d e"
  by (cases "ns_kind n") (auto simp: no_new_owner_def live_owner_def session_row_of_def dest!: create_session_Inr(2))

lemma revoke_where_owners: "revoke_where d p now = Inr (ids, e) \<Longrightarrow> no_new_owner d e"
  by (rule no_new_owner_update [where f = "revoked_session now"])
    (auto simp: revoke_where_def Let_def sql_update_Inr live_owner_def revoked_session_def)

lemma touch_owners: "touch_last_seen d i dev now interval = (u, e) \<Longrightarrow> no_new_owner d e"
proof -
  let ?p = "\<lambda>r. ss_id r = i \<and> ss_revoked_at r = None \<and> stale_touch (ss_last_seen_at r) (now - interval)"
  let ?f = "\<lambda>r. r\<lparr>ss_last_seen_at := Some now\<rparr>"
  assume "touch_last_seen d i dev now interval = (u, e)"
  then have "t_approvals e = t_approvals d \<and> (t_sessions e = t_sessions d \<or> t_sessions e = update_where ?p ?f (t_sessions d))"
    by (auto simp: touch_last_seen_def Let_def sql_update_Inr split: sum.splits option.splits)
  moreover have "no_new_owner d e" if "t_approvals e = t_approvals d" "t_sessions e = update_where ?p ?f (t_sessions d)"
    by (rule no_new_owner_update [OF that]) (simp_all add: live_owner_def)
  ultimately show ?thesis by blast
qed

lemma burn_owners: "burn_family d k i now = Inr e \<Longrightarrow> no_new_owner d e"
  by (auto simp: burn_family_def split: prod.splits dest!: revoke_where_owners user_owners(6) intro: no_new_owner_trans)

lemma rotate_token_owners: "rotate_refresh_token d k presented rr now until = Inr (x, e) \<Longrightarrow> no_new_owner d e"
  by (auto simp: rotate_refresh_token_def split: if_splits option.splits dest!: user_owners(8))

lemma rotate_owners:
  assumes "rotate_session d k presented rr ra now ae re = Inr (x, e)"
  shows "no_new_owner d e"
proof -
  have swapped: "no_new_owner d1 (d1\<lparr>t_sessions := t\<rparr>)"
    if "sql_update (\<lambda>_. session_ok) session_clash p (\<lambda>x. x\<lparr>ss_token_hash := Some ra, ss_expires_at := ae,
          ss_last_seen_at := Some now\<rparr>) (t_sessions d1) = Inr t" for p d1 t
    by (rule no_new_owner_update [where p = p and f = "\<lambda>x. x\<lparr>ss_token_hash := Some ra, ss_expires_at := ae, ss_last_seen_at := Some now\<rparr>"])
      (use that in \<open>simp_all add: sql_update_Inr live_owner_def\<close>)
  show ?thesis
    using assms
    by (auto simp: rotate_session_def Let_def split: if_splits option.splits
        dest!: burn_owners user_owners(8) swapped intro: no_new_owner_trans)
qed

lemma device_owners:
  "register_site_device d k nd secret now = Inr (x, e) \<Longrightarrow> no_new_owner d e"
  "create_code d k np = Inr (g, e) \<Longrightarrow> no_new_owner d e"
  "kind_refused d r kind = Inr (y, e) \<Longrightarrow> no_new_owner d e"
  by (auto simp: register_site_device_def kind_refused_def split: if_splits option.splits dest!: create_code_Inr(1))

lemma revoke_device_owners:
  assumes "revoke_device d i now = Inr (ids, e)"
  shows "no_new_owner d e"
proof -
  obtain t where "revoke_where (d\<lparr>t_devices := t\<rparr>) (\<lambda>r. ss_device r = Some i) now = Inr (ids, e)"
    using assms by (auto simp: revoke_device_def)
  from revoke_where_owners [OF this] show ?thesis by (simp add: no_new_owner_def)
qed

lemma paired_owners: "no_new_owner d c \<Longrightarrow> no_new_owner d (c\<lparr>t_pairing := t\<rparr>)"
  by (simp add: no_new_owner_def)

lemma pairing_owners:
  assumes "redeem_pairing d ids q = Inr (x, e)"
  shows "no_new_owner d e"
proof -
  obtain kd ks kr where ids: "ids = (kd, ks, kr)" by (cases ids)
  show ?thesis
  proof (cases x)
    case (Inr g)
    show ?thesis
    proof (rule redeem_pairing_success [OF assms [unfolded ids Inr]])
      fix r d2 t d4
      assume device: "register_site_device d kd \<lparr>nd_user = pc_user r, nd_kind = pr_declared_kind q,
           nd_display_name = pr_display_name q, nd_site = pc_site r\<rparr> (pr_device_secret q) (pr_now q) = Inr (rp_device g, d2)"
        and made: "create_session (d2\<lparr>t_pairing := t\<rparr>) ks (device_session (pc_user r) (d_id (rp_device g)) q) = Inr (rp_session g, d4)"
        and link: "issue_refresh_token d4 kr (s_id (rp_session g)) (pr_refresh_token q) (pr_now q) (pr_refresh_expires_at q)
           = Inr (rp_refresh g, e)"
      have "no_new_owner (d2\<lparr>t_pairing := t\<rparr>) d4"
        using create_session_owners [OF made] by (simp add: device_session_def)
      with paired_owners [OF device_owners(1) [OF device]] have "no_new_owner d d4" by (rule no_new_owner_trans)
      then show ?thesis using user_owners(7) [OF link] by (rule no_new_owner_trans)
    qed
  next
    case (Inl y)
    then consider "e = d" | r where "kind_refused d r (pr_declared_kind q) = Inr (True, e)"
      | r d1 n z d2 t where "kind_refused d r (pr_declared_kind q) = Inr (False, d1)"
          "register_site_device d1 kd n (pr_device_secret q) (pr_now q) = Inr (z, d2)" "e = d2\<lparr>t_pairing := t\<rparr>"
      using assms by (auto simp: redeem_pairing_def ids Let_def split: if_splits option.splits)
    then show ?thesis
    proof cases
      case 3
      show ?thesis
        unfolding 3(3) by (rule paired_owners [OF no_new_owner_trans [OF device_owners(3) [OF 3(1)] device_owners(1) [OF 3(2)]]])
    qed (auto dest: device_owners(3))
  qed
qed

lemma code_frames:
  "issue_sign_in d k c ns = Inr (x, e) \<Longrightarrow> t_approvals e = t_approvals d \<and> t_sessions e = t_sessions d"
  "redeem_sign_in sha256 base64url d sq = Inr (y, e) \<Longrightarrow> t_approvals e = t_approvals d \<and> t_sessions e = t_sessions d"
  "receive_relay d k provider cap state outcome now ttl = Inr (i, e) \<Longrightarrow> t_approvals e = t_approvals d \<and> t_sessions e = t_sessions d"
  "claim_relay d i held now = Inr (z, e) \<Longrightarrow> t_approvals e = t_approvals d \<and> t_sessions e = t_sessions d"
  "collect_expired_relays d now = (n, e) \<Longrightarrow> t_approvals e = t_approvals d \<and> t_sessions e = t_sessions d"
  "redeem_assertion d k claims u now = Inr (w, e) \<Longrightarrow> t_approvals e = t_approvals d \<and> t_sessions e = t_sessions d"
  "collect_audit_before scan d before limit = (n, e) \<Longrightarrow> t_approvals e = t_approvals d \<and> t_sessions e = t_sessions d"
  by (cases c)
    (auto simp: issue_sign_in_def redeem_sign_in_def receive_relay_def claim_relay_def collect_expired_relays_def
      redeem_assertion_def collect_audit_before_def Let_def split: if_splits option.splits prod.splits)

lemma audit_owners: "audit_record d a now = Inr e \<Longrightarrow> no_new_owner d e"
  by (drule audit_record_Inr(1)) auto

lemma code_owners:
  "issue_sign_in d k c ns = Inr (x, e) \<Longrightarrow> no_new_owner d e"
  "redeem_sign_in sha256 base64url d sq = Inr (y, e) \<Longrightarrow> no_new_owner d e"
  "receive_relay d k provider cap state outcome now ttl = Inr (i, e) \<Longrightarrow> no_new_owner d e"
  "claim_relay d i held now = Inr (z, e) \<Longrightarrow> no_new_owner d e"
  "collect_expired_relays d now = (n, e) \<Longrightarrow> no_new_owner d e"
  "redeem_assertion d k claims u now = Inr (w, e) \<Longrightarrow> no_new_owner d e"
  "collect_audit_before scan d before limit = (n, e) \<Longrightarrow> no_new_owner d e"
  by (drule code_frames, blast intro: no_new_owner_same)+

text \<open>So the only call of the identity schema that can make an owner's session is one that calls \<open>create_session\<close> itself.\<close>

lemma identity_step_owners:
  assumes "identity_step sha256 base64url scan d e" and "\<nexists>k n x. create_session d k n = Inr (x, e)"
  shows "no_new_owner d e"
  using assms
  by (induction rule: identity_step.induct)
    (auto simp: revoke_session_def revoke_all_sessions_of_user_def revoke_site_sessions_def
      dest: user_owners revoke_where_owners touch_owners rotate_token_owners rotate_owners device_owners
      revoke_device_owners pairing_owners code_owners audit_owners)

lemma edge_session_owners:
  assumes "edge_session n" and "create_session d k n = Inr (x, e)"
  shows "no_new_owner d e"
proof (rule create_session_owners [OF assms(2)])
  show "ns_kind n \<noteq> SiteOwner"
    using assms(1) by (cases rule: edge_session.cases) (simp_all add: login_session_def telegram_session_def)
qed

subsection \<open>Approvals last until they are withdrawn\<close>

lemma site_audience_inj [simp]: "site_audience a = site_audience b \<longleftrightarrow> a = b"
  by (simp add: site_audience_def)

lemma approve_effect:
  assumes "approve env mn p correlation site body now d = (answer, e)" and "db_ok d"
  shows "db_ok e" and "t_sessions e = t_sessions d" and "approved_sites d \<subseteq> approved_sites e"
proof -
  have "e = d \<or> (\<exists>c d1. upsert_approval d (approved_row_of c (pl_user p) now) = Inr d1
      \<and> announce_approval env mn p correlation c now d1 = Inr e)"
    using assms(1) by (auto simp: approve_def split: sum.splits dest!: store_approval_cases)
  then have "db_ok e \<and> t_sessions e = t_sessions d \<and> approved_sites d \<subseteq> approved_sites e"
  proof (elim disjE exE conjE)
    fix c d1
    assume up: "upsert_approval d (approved_row_of c (pl_user p) now) = Inr d1"
      and said: "announce_approval env mn p correlation c now d1 = Inr e"
    note w = upsert_approval_Inr [OF up assms(2)]
    note frame = announce_frame [OF said]
    have "approved_sites d \<subseteq> approved_sites e"
    proof
      fix t
      assume "t \<in> approved_sites d"
      then obtain x where x: "x \<in> set (t_approvals d)" "sap_state x = ''approved''" "t = sap_site x"
        by (auto simp: approved_sites_def)
      let ?r = "approved_row_of c (pl_user p) now"
      have "sap_state ?r = ''approved''" by (simp add: approved_row_of_def)
      then have "\<exists>y \<in> set (t_approvals e). sap_state y = ''approved'' \<and> sap_site y = t"
        using w(2) x frame(1) by (cases "t = sap_site ?r") auto
      then show "t \<in> approved_sites e" by (auto simp: approved_sites_def)
    qed
    moreover have "t_sessions e = t_sessions d" using w(3) frame(2) by auto
    ultimately show ?thesis using frame(3) w(1) by blast
  qed (use assms in simp)
  then show "db_ok e" "t_sessions e = t_sessions d" "approved_sites d \<subseteq> approved_sites e" by blast+
qed

text \<open>A withdrawal that changes anything leaves no live owner of the site, and every other owner and approval.\<close>

lemma withdraw_effect:
  assumes "withdraw env mn p correlation site now d = (answer, e)" and "db_ok d" and "e \<noteq> d"
  shows "db_ok e"
    and "r \<in> set (t_sessions e) \<Longrightarrow> live_owner r \<Longrightarrow> r \<in> set (t_sessions d) \<and> ss_audience r \<noteq> site_audience site"
    and "t \<in> approved_sites d \<Longrightarrow> t \<noteq> site \<Longrightarrow> t \<in> approved_sites e"
proof -
  obtain change d1 revoked d2 d3 where marked: "mark_withdrawn d site (pl_user p) now = Inr d1"
    and ended: "revoke_site_sessions d1 None site now = Inr (revoked, d2)"
    and recorded: "record_revocations (apm_revocations mn) revoked (pl_user p) now d2 = Inr d3"
    and said: "announce_approval env mn p correlation change now d3 = Inr e"
    using withdraw_cases [OF assms(1)] assms(3) by blast
  note m = mark_withdrawn_Inr [OF marked]
  note ends = revoke_where_Inr [OF ended [unfolded revoke_site_sessions_def]]
  obtain rv u where d3: "d3 = d2\<lparr>t_revocations := rv\<rparr>" and d2: "d2 = d1\<lparr>t_sessions := u\<rparr>"
    using record_revocations_frame [OF recorded] ends(4) by blast
  note frame = announce_frame [OF said]
  have ok1: "db_ok d1" using m(2) assms(2) by blast
  have ok2: "db_ok d2" using ends(1) ok1 by blast
  show "db_ok e" using frame(3) record_revocations_ok [OF recorded ok2] by blast
  show "t \<in> approved_sites e" if "t \<in> approved_sites d" "t \<noteq> site"
    using that by (force simp: approved_sites_def frame(1) d3 d2 m(1) set_update_where)
  assume r: "r \<in> set (t_sessions e)" "live_owner r"
  then have "session_at d2 (ss_id r) = Some r" by (simp add: session_at_iff [OF ok2] frame(2) d3)
  then obtain y where y: "session_at d1 (ss_id r) = Some y"
    "r = (if (ss_kind y = ''site_owner'' \<and> ss_audience y = site_audience site) \<and> ss_revoked_at y = None
          then revoked_session now y else y)"
    using ends(2) [of "ss_id r"] by auto
  let ?ends = "(ss_kind y = ''site_owner'' \<and> ss_audience y = site_audience site) \<and> ss_revoked_at y = None"
  have "\<not> ?ends"
  proof
    assume ?ends
    then have "r = revoked_session now y" using y(2) by simp
    then show False using r(2) by (simp add: live_owner_def)
  qed
  then have "r = y" "ss_audience r \<noteq> site_audience site" using y(2) r(2) by (auto simp only: if_False live_owner_def)
  moreover have "y \<in> set (t_sessions d1)" using y(1) by (simp add: session_at_iff [OF ok1])
  ultimately show "r \<in> set (t_sessions d) \<and> ss_audience r \<noteq> site_audience site" by (simp add: m(1))
qed

text \<open>A sign-in adds the one session it answers with, on the approval it has read.\<close>

lemma open_effect:
  assumes "open_session env mn site q now (found, reread) d = (answer, e)" and "db_ok d"
  shows "db_ok e" and "t_approvals e = t_approvals d"
    and "t_sessions e = t_sessions d
      \<or> (\<exists>r a. t_sessions e = t_sessions d @ [r] \<and> ss_id r = sm_row mn \<and> ss_audience r = site_audience site
           \<and> answer = Answered a \<and> site \<in> approved_sites reread)"
proof -
  have redeemed: "db_ok d1 \<and> t_approvals d1 = t_approvals d \<and> t_sessions d1 = t_sessions d"
    if "redeem_sign_in (si_sha256 env) (si_base64url env) d sq = Inr (x, d1)" for sq x d1
    using redeem_sign_in_advances [OF that] code_frames(2) [OF that] assms(2) by (simp add: advances_def)
  have "db_ok e \<and> t_approvals e = t_approvals d \<and> (t_sessions e = t_sessions d
      \<or> (\<exists>r a. t_sessions e = t_sessions d @ [r] \<and> ss_id r = sm_row mn \<and> ss_audience r = site_audience site
           \<and> answer = Answered a \<and> site \<in> approved_sites reread))"
  proof (cases "\<exists>a. answer = Answered a")
    case True
    then obtain a where a: "answer = Answered a" ..
    show ?thesis
    proof (rule open_session_Answered [OF assms(1) [unfolded a]])
      fix code verifier token g d1 s
      assume spent: "consume_code (si_sha256 env) (si_base64url env) found
           \<lparr>sr_site = site, sr_code = code, sr_verifier = verifier, sr_now = now\<rparr> d = Inr d1"
        and approved: "approved_now reread site (rs_hostname g)"
        and created: "create_session d1 (sm_row mn) (site_owner (rs_user g) (site_audience site) token now) = Inr (s, e)"
      have d1: "db_ok d1 \<and> t_approvals d1 = t_approvals d \<and> t_sessions d1 = t_sessions d"
        using consume_code_cases [OF spent] redeemed assms(2) by blast
      have e: "e = d1\<lparr>t_sessions := t_sessions d1
          @ [session_row_of (sm_row mn) (site_owner (rs_user g) (site_audience site) token now)]\<rparr>"
        by (rule create_session_Inr(2) [OF created])
      have "site \<in> approved_sites reread"
        using approved by (auto simp: approved_now_def row_exists_def list_ex_iff approved_row_def approved_sites_def)
      then show ?thesis
        using create_session_Inr(1) [OF created] d1 a by (auto simp: e session_row_of_def site_owner_def)
    qed
  next
    case False
    then show ?thesis using open_session_declined [OF assms(1)] redeemed assms(2) by blast
  qed
  then show "db_ok e" "t_approvals e = t_approvals d" "t_sessions e = t_sessions d
      \<or> (\<exists>r a. t_sessions e = t_sessions d @ [r] \<and> ss_id r = sm_row mn \<and> ss_audience r = site_audience site
           \<and> answer = Answered a \<and> site \<in> approved_sites reread)" by blast+
qed

lemma create_session_ok: "create_session d k n = Inr (x, e) \<Longrightarrow> db_ok d \<Longrightarrow> db_ok e"
  by (rule create_session_Inr(1))

lemma identity_step_ok: "identity_step sha256 base64url scan d e \<Longrightarrow> db_ok d \<Longrightarrow> db_ok e"
  using step_advances [of sha256 base64url scan d e] by (simp add: advances_def)

lemma no_new_owner_approved: "no_new_owner d e \<Longrightarrow> approved_sites e = approved_sites d"
  by (simp add: no_new_owner_def approved_sites_def)

lemma site_run_ok: "site_run sha256 base64url scan d0 cs ds \<Longrightarrow> db_ok d0 \<Longrightarrow> db_ok (hd ds) \<and> length ds = Suc (length cs)"
  by (induction rule: site_run.induct)
    (auto dest: approve_effect(1) withdraw_effect(1) open_effect(1) create_session_ok identity_step_ok)

text \<open>An approval of an earlier database of the run still stands, unless the site was withdrawn since.\<close>

lemma approval_lasts:
  assumes "site_run sha256 base64url scan d0 cs ds" and "db_ok d0"
    and "i \<le> length cs" and "site \<in> approved_sites (ds ! i)" and "Withdrew site \<notin> set (take i cs)"
  shows "site \<in> approved_sites (hd ds)"
  using assms(1,3-)
proof (induction arbitrary: i rule: site_run.induct)
  case run_start
  then show ?case by simp
next
  case (run_approve cs d ds env mn p correlation site' body now x1 e)
  have "db_ok d" using site_run_ok [OF run_approve.hyps(1) assms(2)] by simp
  then show ?case
    using run_approve.IH run_approve.prems approve_effect(3) [OF run_approve.hyps(2)] by (cases i) auto
next
  case (run_withdraw cs d ds env mn p correlation site' now x2 e)
  have "db_ok d" using site_run_ok [OF run_withdraw.hyps(1) assms(2)] by simp
  then show ?case
    using run_withdraw.IH run_withdraw.prems withdraw_effect(3) [OF run_withdraw.hyps(2)]
    by (cases i) (auto split: if_splits)
next
  case (run_open cs d ds j senv smn site' q now found answer e)
  have ok: "db_ok d" using site_run_ok [OF run_open.hyps(1) assms(2)] by simp
  have "approved_sites e = approved_sites d"
    using open_effect(2) [OF run_open.hyps(3) ok] by (simp add: approved_sites_def)
  then show ?case using run_open.IH run_open.prems by (cases i) auto
next
  case (run_edge cs d ds n k x3 e)
  show ?case
    using run_edge.IH run_edge.prems no_new_owner_approved [OF edge_session_owners [OF run_edge.hyps(2,3)]] by (cases i) auto
next
  case (run_other cs d ds e)
  show ?case
    using run_other.IH run_other.prems no_new_owner_approved [OF identity_step_owners [OF run_other.hyps(2,3)]]
    by (cases i) auto
qed

subsection \<open>The invariant along a run\<close>

lemma owners_approved_other:
  assumes "no_new_owner d e" and "owners_approved cs d"
  shows "owners_approved (Other_call # cs) e"
  using assms no_new_owner_approved [OF assms(1)] unfolding owners_approved_def no_new_owner_def
  by (metis overtaken.simps(4))

lemma run_owners_approved:
  assumes "site_run sha256 base64url scan d0 cs ds" and "db_ok d0" and "owners_approved [] d0"
  shows "owners_approved cs (hd ds)"
  using assms(1)
proof (induction rule: site_run.induct)
  case run_start
  show ?case using assms(3) by simp
next
  case (run_approve cs d ds env mn p correlation site body now x1 e)
  have "db_ok d" using site_run_ok [OF run_approve.hyps(1) assms(2)] by simp
  then show ?case
    using run_approve.IH approve_effect(2,3) [OF run_approve.hyps(2)] by (fastforce simp: owners_approved_def)
next
  case (run_withdraw cs d ds env mn p correlation site now x2 e)
  have ok: "db_ok d" using site_run_ok [OF run_withdraw.hyps(1) assms(2)] by simp
  show ?case
  proof (cases "e = d")
    case True
    then show ?thesis using run_withdraw.IH by (simp add: owners_approved_def)
  next
    case False
    note w = withdraw_effect(2,3) [OF run_withdraw.hyps(2) ok False]
    have "\<exists>t. ss_audience r = site_audience t \<and> (t \<in> approved_sites e \<or> overtaken t (ss_id r) (Withdrew site # cs))"
      if r: "r \<in> set (t_sessions e)" "live_owner r" for r
    proof -
      have "r \<in> set (t_sessions d)" and other: "ss_audience r \<noteq> site_audience site" using w(1) [OF r] by blast+
      then obtain t where t: "ss_audience r = site_audience t" "t \<in> approved_sites d \<or> overtaken t (ss_id r) cs"
        using run_withdraw.IH r(2) by (auto simp: owners_approved_def)
      with other have "t \<noteq> site" by auto
      with t w(2) show ?thesis by (intro exI [of _ t]) auto
    qed
    with False show ?thesis by (simp add: owners_approved_def)
  qed
next
  case (run_open cs d ds j senv smn site q now found answer e)
  have ok: "db_ok d" and len: "length ds = length cs" using site_run_ok [OF run_open.hyps(1) assms(2)] by simp_all
  note o = open_effect [OF run_open.hyps(3) ok]
  have kept: "overtaken t k cs \<Longrightarrow> overtaken t k (opened_label site (sm_row smn) j answer # cs)" for t k
    by (simp add: opened_label_def split: reply.split)
  have old: "\<exists>t. ss_audience r = site_audience t
      \<and> (t \<in> approved_sites e \<or> overtaken t (ss_id r) (opened_label site (sm_row smn) j answer # cs))"
    if "r \<in> set (t_sessions d)" "live_owner r" for r
    using run_open.IH that o(2) kept by (fastforce simp: owners_approved_def approved_sites_def)
  show ?case
    using o(3)
  proof (elim disjE exE conjE)
    assume "t_sessions e = t_sessions d"
    then show ?thesis using old by (simp add: owners_approved_def)
  next
    fix r a
    assume e: "t_sessions e = t_sessions d @ [r]" and r: "ss_id r = sm_row smn" "ss_audience r = site_audience site"
      and a: "answer = Answered a" and approved: "site \<in> approved_sites ((d # ds) ! j)"
    have "site \<in> approved_sites e \<or> Withdrew site \<in> set (take j cs)"
    proof (rule disjCI)
      assume "Withdrew site \<notin> set (take j cs)"
      then have "site \<in> approved_sites (hd (d # ds))"
        using approval_lasts [OF run_open.hyps(1) assms(2) _ approved] run_open.hyps(2) len by simp
      then show "site \<in> approved_sites e" using o(2) by (simp add: approved_sites_def)
    qed
    then have "\<exists>t. ss_audience r = site_audience t
        \<and> (t \<in> approved_sites e \<or> overtaken t (ss_id r) (opened_label site (sm_row smn) j answer # cs))"
      using r by (intro exI [of _ site]) (auto simp: opened_label_def a)
    then show ?thesis using old by (auto simp: owners_approved_def e)
  qed
next
  case (run_edge cs d ds n k x3 e)
  show ?case using owners_approved_other [OF edge_session_owners [OF run_edge.hyps(2,3)]] run_edge.IH by simp
next
  case (run_other cs d ds e)
  show ?case using owners_approved_other [OF identity_step_owners [OF run_other.hyps(2,3)]] run_other.IH by simp
qed

text \<open>
  C4: whatever approvals, withdrawals, sign-ins and other calls on the identity schema take effect in whatever order, a
  credential that authenticates a site owner's session is of a site that is approved at that moment, with one
  exception: a session whose sign-in read the approval before a withdrawal of the site and made the session after it,
  and that no later withdrawal has ended.
\<close>

theorem owner_session_needs_an_approved_site:
  assumes "site_run sha256 base64url scan d0 cs (d # ds)" and "db_ok d0" and "owners_approved [] d0"
    and "authenticate d token audience now = Some s" and "s_kind s = SiteOwner"
  shows "\<exists>site. audience = site_audience site \<and> (approved_hostname d site \<noteq> None \<or> overtaken site (s_id s) cs)"
proof -
  have ok: "db_ok d" and owners: "owners_approved cs d"
    using site_run_ok [OF assms(1,2)] run_owners_approved [OF assms(1-3)] by simp_all
  obtain r where r: "r \<in> set (t_sessions d)" "authenticates token audience now r" "s = session_from_row r"
    using assms(4) ok by (auto simp: authenticate_Some)
  have "ss_kind r = ''site_owner''"
    using assms(5) r(3) by (auto simp: session_from_row_def session_kind_from_str_def split: if_splits option.splits)
  then have "live_owner r" "audience = ss_audience r" using r(2) by (simp_all add: live_owner_def authenticates_def)
  then obtain site where "audience = site_audience site" "site \<in> approved_sites d \<or> overtaken site (ss_id r) cs"
    using owners r(1) by (auto simp: owners_approved_def)
  then show ?thesis
    using r(3)
    by (auto simp: approved_sites_def approved_hostname_def approved_row_def fetch_optional_None session_from_row_def)
qed

subsection \<open>Approving, signing in and withdrawing a site\<close>

definition example_manifest :: active_manifest where
  "example_manifest = \<lparr>am_site = ''wiki'', am_manifest = replicate 64 (CHR ''b''), am_hostname = ''wiki.example'',
     am_capabilities = [''pages.read''], am_repository = Some (JObject [(''repository'', JString ''o/r''), (''repository_id'', JString ''7'')])\<rparr>"

definition example_approval_env :: approval_env where
  "example_approval_env = \<lparr>ap_gateway_env = example_gateway_env, ap_gateway = cf_gateway full_config,
     ap_sites = (\<lambda>_ _. (Reached \<lparr>up_status = 200, up_headers = [], up_body = Some ''{}''\<rparr>, False)),
     ap_read = (\<lambda>_. Some (replicate 64 (CHR ''b''))), ap_read_manifest = (\<lambda>_. Some example_manifest), ap_digest = (\<lambda>_. True),
     ap_site_id = (\<lambda>_. True), ap_hostname = (\<lambda>_. True), ap_capability = (\<lambda>_. True), ap_binding = (\<lambda>_. True),
     ap_event_type = ''platform.site_approval.changed.v1'', ap_envelope = (\<lambda>_ _ _ _ _. Some (JObject [])), ap_octets = (\<lambda>_. 2)\<rparr>"

definition example_approval_mint :: approval_mint where
  "example_approval_mint = \<lparr>apm_event = 200, apm_outbox = 201, apm_audit = 202, apm_revocations = (\<lambda>n. 210 + of_nat n),
     apm_begins = True, apm_commits = True\<rparr>"

definition example_approved :: "(failure_kind + site_approval) \<times> db" where
  "example_approved = store_approval example_approval_env example_approval_mint example_reader ''correlation:1''
     \<lparr>ac_site = ''wiki'', ac_manifest = replicate 64 (CHR ''b''), ac_capabilities = [''pages.read''], ac_hostname = ''wiki.example'',
      ac_state = Approved, ac_repository = am_repository example_manifest\<rparr> 100 site_example"

lemma example_manifest_read:
  "active_manifest_of example_approval_env example_reader ''correlation:1'' ''wiki'' = Inr example_manifest"
  by (simp add: active_manifest_of_def example_approval_env_def full_config_def gateway_services_def full_route_def Let_def
      fetch_json_def successful_def read_bounded_def default_budgets_def default_control_budget_def max_manifest_bytes_def
      example_gateway_env_def)

lemma example_approval_read: "read_approval example_approval_env (Some ''{}'') = Inr (replicate 64 (CHR ''b''))"
  by (simp add: read_approval_def read_bounded_def max_approval_body_def example_approval_env_def)

lemma example_approve:
  "approve example_approval_env example_approval_mint example_reader ''correlation:1'' ''wiki'' (Some ''{}'') 100 site_example
    = example_approved"
  by (simp add: approve_def example_manifest_read example_approval_read example_approved_def example_manifest_def)

theorem approval_is_of_the_active_manifest_witness:
  "\<exists>a d'. example_approved = (Inr a, d') \<and> approved_hostname d' ''wiki'' \<noteq> None"
proof -
  have made: "case example_approved of (Inr _, _) \<Rightarrow> True | _ \<Rightarrow> False" by code_simp
  obtain answer d' where run: "example_approved = (answer, d')" by fastforce
  obtain a where a: "answer = Inr a" using made unfolding run prod.case by (cases answer) simp_all
  have "\<forall>r \<in> set (t_outbox site_example). ob_message r \<noteq> apm_event example_approval_mint"
    by (simp add: site_example_def identity_example_def empty_db_def)
  from approval_is_of_the_active_manifest [OF site_example_ok example_approve [unfolded run a] this]
  obtain x where "x \<in> set (t_approvals d')" "approved_row ''wiki'' x" by blast
  then have "approved_hostname d' ''wiki'' \<noteq> None" by (auto simp: approved_hostname_def fetch_optional_None)
  with run a show ?thesis by blast
qed

definition example_withdrawn :: "(failure_kind + site_approval) \<times> db" where
  "example_withdrawn = withdraw example_approval_env example_approval_mint example_reader ''correlation:2'' ''blog'' 100 site_example"

theorem withdrawal_ends_the_sites_sessions_witness:
  "\<exists>a d'. example_withdrawn = (Inr a, d') \<and> approved_hostname d' ''blog'' = None
     \<and> (\<forall>token later. authenticate d' token ''site:blog'' later = None)"
proof -
  have made: "case example_withdrawn of (Inr _, _) \<Rightarrow> True | _ \<Rightarrow> False" by code_simp
  obtain answer d' where run: "example_withdrawn = (answer, d')" by fastforce
  obtain a where a: "answer = Inr a" using made unfolding run prod.case by (cases answer) simp_all
  have r: "approval_at site_example ''blog'' = Some example_approval" "sap_state example_approval = ''approved''"
    by (simp_all add: approval_at_def site_example_def example_approval_def)
  have new: "\<forall>x \<in> set (t_outbox site_example). ob_message x \<noteq> apm_event example_approval_mint"
    by (simp add: site_example_def identity_example_def empty_db_def)
  have "approved_hostname d' ''blog'' = None \<and> (\<forall>token later. authenticate d' token (site_audience ''blog'') later = None)"
    using withdrawal_ends_the_sites_sessions [OF site_example_ok run [unfolded a example_withdrawn_def] r new] by blast
  then show ?thesis using run a by (auto simp: site_audience_def)
qed

theorem owner_session_needs_an_approved_site_witness:
  "approved_hostname site_example ''blog'' \<noteq> None"
proof -
  have live: "owners_approved [] site_example"
    by (auto simp: owners_approved_def live_owner_def approved_sites_def site_example_def identity_example_def
        example_approval_def example_site_session_def example_device_session_def example_browser_session_def
        example_old_session_def site_audience_def)
  have "authenticate site_example (replicate 32 0) ''site:blog'' 100 = Some (session_from_row example_site_session)" by code_simp
  moreover have "s_kind (session_from_row example_site_session) = SiteOwner" by code_simp
  ultimately obtain site where "''site:blog'' = site_audience site"
    "approved_hostname site_example site \<noteq> None \<or> overtaken site (s_id (session_from_row example_site_session)) []"
    using owner_session_needs_an_approved_site [OF run_start site_example_ok live] by blast
  then show ?thesis by (simp add: site_audience_def)
qed

subsection \<open>A sign-in that a withdrawal overtakes\<close>

text \<open>
  The exception happens: the sign-in reads the approval of the site, the withdrawal ends the site's sessions, and the
  sign-in makes its session. The site is withdrawn, the credential authenticates, and withdrawing again changes
  nothing.
\<close>

definition example_raced :: "opened_session reply \<times> db" where
  "example_raced = open_session example_sign_in_env
     \<lparr>sm_row = 90, sm_credential = Some (''c'', example_digest 8), sm_begins = True, sm_commits = True\<rparr>
     ''blog'' (example_site_request ''POST'') 100 (site_example, site_example) (snd example_withdrawn)"

lemma withdrawn_again_changes_nothing:
  assumes "approval_at d site = Some r" and "sap_state r = ''withdrawn''"
  shows "snd (withdraw env mn p correlation site now d) = d"
  using withdraw_cases [of env mn p correlation site now d] assms
  by (cases "withdraw env mn p correlation site now d") auto

lemma overtaken_sign_in_outlives_the_withdrawal:
  "\<exists>d ds. site_run sha256 base64url scan site_example [Opened ''blog'' 90 1, Withdrew ''blog''] (d # ds)
     \<and> approved_hostname d ''blog'' = None
     \<and> map_option s_id (authenticate d (example_digest 8) ''site:blog'' 101) = Some 90
     \<and> (\<forall>env mn p correlation now. snd (withdraw env mn p correlation ''blog'' now d) = d)"
proof -
  obtain x d1 where w: "example_withdrawn = (x, d1)" by fastforce
  obtain y d2 where o: "example_raced = (y, d2)" by fastforce
  have "map_option sap_state (approval_at (snd example_withdrawn) ''blog'') = Some ''withdrawn''" by code_simp
  then obtain r where r: "approval_at d1 ''blog'' = Some r" "sap_state r = ''withdrawn''" by (auto simp: w)
  have "approval_at site_example ''blog'' = Some example_approval" "sap_state example_approval = ''approved''"
    by (simp_all add: approval_at_def site_example_def example_approval_def)
  with r have changed: "d1 \<noteq> site_example" by auto
  have first: "site_run sha256 base64url scan site_example [Withdrew ''blog''] [d1, site_example]"
    using run_withdraw [OF run_start w [unfolded example_withdrawn_def]] changed by simp
  have opened: "case example_raced of (Answered _, d) \<Rightarrow>
      map_option s_id (authenticate d (example_digest 8) ''site:blog'' 101) = Some 90 | _ \<Rightarrow> False" by code_simp
  then obtain a where a: "y = Answered a" unfolding o by (cases y) simp_all
  have o': "open_session example_sign_in_env
     \<lparr>sm_row = 90, sm_credential = Some (''c'', example_digest 8), sm_begins = True, sm_commits = True\<rparr>
     ''blog'' (example_site_request ''POST'') 100 (site_example, [d1, site_example] ! 1) d1 = (y, d2)"
    using o by (simp add: example_raced_def w)
  have run: "site_run sha256 base64url scan site_example [Opened ''blog'' 90 1, Withdrew ''blog''] [d2, d1, site_example]"
    using run_open [OF first _ o'] by (simp add: opened_label_def a)
  have ok: "db_ok d1" using site_run_ok [OF first site_example_ok] by simp
  have "approval_at d2 ''blog'' = Some r" using open_effect(2) [OF o' ok] r(1) by (simp add: approval_at_def)
  moreover have "db_ok d2" by (rule open_effect(1) [OF o' ok])
  ultimately have "approved_hostname d2 ''blog'' = None"
    using r(2) approvals_table.same_key by (fastforce simp: approved_hostname_def approved_row_def fetch_optional_None approval_at_Some dest: db_okD(25))
  then show ?thesis
    using run opened withdrawn_again_changes_nothing [OF \<open>approval_at d2 ''blog'' = Some r\<close> r(2)]
    by (intro exI [of _ d2] exI [of _ "[d1, site_example]"]) (simp add: o a)
qed

end
