(* ===== verification/Spec2Isabelle.thy ===== *)
theory Spec2Isabelle
  imports Projection Reconcile Registration Identity_History Readiness Webhook Site_Handlers Site_Dispatch Startup_Report Credential_Routes Gateway_Capabilities Site_History
begin

text \<open>
  Ratatoskr Platform: a verification library.

  \<^bold>\<open>The program.\<close> The platform is a Rust workspace of three services over one PostgreSQL database and one NATS
  JetStream broker. \<^verbatim>\<open>ratatoskr-edge\<close> is the only process that clients reach: it authenticates them, accepts
  their commands as operations, proxies the rest to the domain services, serves static sites and streams
  events. \<^verbatim>\<open>ratatoskr-ingest\<close> accepts signals of registered webhook sources. \<^verbatim>\<open>ratatoskr-scheduler\<close> turns due
  schedules into commands. The services never call each other: a command is a row of
  \<^verbatim>\<open>operations.operations\<close> and a row of \<^verbatim>\<open>eventing.outbox\<close> written in one transaction; the pump publishes
  outbox rows; reports of the domain services come back through the inbox and move the operation.

  \<^bold>\<open>How the model reads the code.\<close> A table is the list of its rows in insertion order, the database is the
  record \<open>db\<close> of all tables, and \<open>db_ok\<close> is every check constraint and unique index of \<^verbatim>\<open>schema.sql\<close> for them.
  A SQL statement is a function of \<^verbatim>\<open>Relational\<close> that refuses a row which breaks a constraint. A function that
  takes a transaction returns \<open>Inl\<close> its error, and then no database, or \<open>Inr\<close> with the database it leaves; a
  handler that owns its transactions returns its answer beside the database, whichever way it ends. A read
  of the database does not fail in the model, and a connection is always given: the branches that only a broken
  connection reaches are not values of the model, except where the code decides something about them. A
  commit that the server refuses is the argument \<open>commits\<close> or \<open>begins\<close> where the code reacts to it. An
  identifier of \<open>Uuid::now_v7()\<close>, a minted secret with its digest and every reading of the clock are arguments,
  in the order the code takes them; an instant is a whole number of microseconds. A UUID is a 128-bit word;
  machine integers are words of their width where the code computes with them, and \<open>nat\<close> for row counts and the event
  sequence, which do not reach their bound. A character is one byte; an \<^verbatim>\<open>f64\<close> is an exact rational. A row lock makes
  a read and the write after it one step; the sign-in of a site reads the approval without a lock, and the reaper its
  candidates, so what they read is an argument apart from the database they write. What belongs to another crate (SHA-256, Ed25519, base64, the JSON, URL, header
  and UUID readers, cron, the types and validators of \<^verbatim>\<open>ratatoskr-contracts\<close>, the sites service) is a field of
  a record of parameters (\<open>contracts\<close> and the records whose names end in \<open>_env\<close>); a theorem that
  relies on one of them names what it relies on as a hypothesis.

  \<^bold>\<open>The theories\<close>, bottom up. Paths are below \<^verbatim>\<open>crates/\<close>.

  \<^item> \<^verbatim>\<open>Prelude\<close>: type names, failures as sums with their bind, the text functions of the Rust library.
    \<^verbatim>\<open>Relational\<close>: tables and statements, the locale \<open>constrained_table\<close>. \<^verbatim>\<open>Grammar\<close>: the patterns of the check
    constraints. \<^verbatim>\<open>Schema_Operations\<close>, \<^verbatim>\<open>Schema_Identity\<close>, \<^verbatim>\<open>Schema\<close>: the tables of \<^verbatim>\<open>schema.sql\<close>, one
    interpretation of \<open>constrained_table\<close> for each, and the database. \<^verbatim>\<open>Contracts\<close>: what the code takes from
    the contracts repository.

  \<^item> Operations (\<^verbatim>\<open>operations/src\<close>). \<^verbatim>\<open>Transition\<close> (\<^verbatim>\<open>transition.rs\<close>): the status rule, shown to be the same
    relation as the trigger of the schema. \<^verbatim>\<open>Authority\<close> (\<^verbatim>\<open>authority.rs\<close>): who may report what. \<^verbatim>\<open>Operations\<close>
    (\<^verbatim>\<open>lib.rs\<close>): accept, find, record a status, a result, an error, a warning; \<open>record_status\<close> refines the
    abstract \<open>absorb\<close> on the lifecycle of an operation. \<^verbatim>\<open>Archive\<close> (\<^verbatim>\<open>archive.rs\<close>, \<^verbatim>\<open>notes.rs\<close>), \<^verbatim>\<open>Projection\<close>
    (\<^verbatim>\<open>projection.rs\<close>, \<^verbatim>\<open>notes_conflicts.rs\<close>): the handlers that apply a report, its authorization, and the
    refinement of a whole consumer run to \<open>absorb_all\<close>. \<^verbatim>\<open>Cancel\<close> (\<^verbatim>\<open>cancel.rs\<close>), \<^verbatim>\<open>Reconcile\<close>
    (\<^verbatim>\<open>reconcile.rs\<close>, with other transactions between its two reads), \<^verbatim>\<open>Listing\<close> (\<^verbatim>\<open>list.rs\<close>, \<^verbatim>\<open>admin.rs\<close>): the locale
    \<open>keyset\<close> holds what a walk by an exclusive anchor guarantees.

  \<^item> Eventing (\<^verbatim>\<open>eventing/src\<close>). \<^verbatim>\<open>Subjects\<close> (\<^verbatim>\<open>lib.rs\<close>): the subject grammar. \<^verbatim>\<open>Delivery\<close> (\<^verbatim>\<open>inbox.rs\<close>, \<^verbatim>\<open>consumer.rs\<close>): one
    message and the loop of a durable; the locale \<open>event_handler\<close> is the contract of the trait \<open>Handler\<close>,
    interpreted by every handler. \<^verbatim>\<open>Outbox\<close> (\<^verbatim>\<open>outbox.rs\<close>, \<^verbatim>\<open>pump.rs\<close>): leases, backoff, dead letters and the pass over an
    abstract bus.

  \<^item> Scheduling (\<^verbatim>\<open>scheduling/src\<close>). \<^verbatim>\<open>Scheduling\<close>: a due schedule becomes an occurrence, an operation and an
    outbox row; no due point is published twice while it is on record, over any history (\<open>schedule_run\<close>) of
    scheduler transactions, retention sweeps and other writes. \<^verbatim>\<open>Registration\<close>: the handler of a
    registration command.

  \<^item> Identity (\<^verbatim>\<open>identity/src\<close>). \<^verbatim>\<open>Identity\<close>, \<^verbatim>\<open>Sessions\<close>, \<^verbatim>\<open>Devices\<close>, \<^verbatim>\<open>Refresh\<close>, \<^verbatim>\<open>Pairing\<close>,
    \<^verbatim>\<open>Site_Sign_In\<close>, \<^verbatim>\<open>Relay\<close>, \<^verbatim>\<open>Audit_Trail\<close>: one theory per file, every function. \<^verbatim>\<open>Identity_History\<close>: the
    step relation \<open>identity_step\<close> over all of them and the locale \<open>evolving_table\<close>: what ended stays ended.

  \<^item> HTTP (\<^verbatim>\<open>http/src\<close>, \<^verbatim>\<open>core/src\<close>). \<^verbatim>\<open>Faults\<close> (\<^verbatim>\<open>error.rs\<close>, \<^verbatim>\<open>fault.rs\<close>, \<^verbatim>\<open>observe.rs\<close>), \<^verbatim>\<open>Readiness\<close>
    (\<^verbatim>\<open>lifecycle.rs\<close>, \<^verbatim>\<open>role.rs\<close>), \<^verbatim>\<open>Throttle\<close> (\<^verbatim>\<open>limit.rs\<close>).

  \<^item> Configuration (\<^verbatim>\<open>core/src/config\<close>). \<^verbatim>\<open>Settings\<close>: the typed model with its defaults. \<^verbatim>\<open>Startup_Rules\<close>: every
    rule of \<^verbatim>\<open>validate.rs\<close> in order, as a list of conditions with the violation of each, and \<open>load_from\<close>; what an
    accepted configuration guarantees. \<^verbatim>\<open>Startup_Report\<close>: the two failure reports; that of a broken rule does not
    depend on a supplied value (non-interference over \<open>shape_of\<close>).

  \<^item> Intake. \<^verbatim>\<open>Principal\<close> (\<^verbatim>\<open>public-api/src/auth.rs\<close>): the authentication of a request. \<^verbatim>\<open>Idempotency\<close>
    (\<^verbatim>\<open>idempotency/src\<close>): the ledger. \<^verbatim>\<open>Submission\<close>: the locale \<open>submission_door\<close>, the contract of a door that
    opens operations under an idempotency key; \<^verbatim>\<open>Intake\<close> (\<^verbatim>\<open>public-api/src/intake.rs\<close>) and \<^verbatim>\<open>Webhook\<close>
    (\<^verbatim>\<open>ingest/src\<close>) interpret it. \<^verbatim>\<open>Capture_Command\<close> (\<^verbatim>\<open>content_capture.rs\<close>, \<^verbatim>\<open>address.rs\<close>), \<^verbatim>\<open>Captures\<close>
    (\<^verbatim>\<open>captures.rs\<close>).

  \<^item> Accounts (\<^verbatim>\<open>public-api/src\<close>). \<^verbatim>\<open>Account_Routes\<close>: the shape of the handlers' transactions, where
    \<open>Abandon\<close> is a transaction that is dropped, and the locale \<open>cursor_listing\<close> of the opaque cursors.
    \<^verbatim>\<open>Session_Routes\<close> (\<^verbatim>\<open>sessions.rs\<close>), \<^verbatim>\<open>Device_Routes\<close> (\<^verbatim>\<open>devices.rs\<close>), \<^verbatim>\<open>Credential_Routes\<close>
    (\<^verbatim>\<open>credentials.rs\<close>), with the history \<open>credential_step\<close> of logins, refreshes and whatever else is committed.

  \<^item> Sites (\<^verbatim>\<open>public-api/src\<close>). \<^verbatim>\<open>Site_Routes\<close> and \<^verbatim>\<open>Site_Dispatch\<close> (\<^verbatim>\<open>sites.rs\<close>, \<^verbatim>\<open>site_capabilities.rs\<close>): the route
    table and the dispatcher up to the handler. \<^verbatim>\<open>Site_Sessions\<close> (\<^verbatim>\<open>site_sessions.rs\<close>). \<^verbatim>\<open>Site_Hub\<close> and
    \<^verbatim>\<open>Site_Handlers\<close> (\<^verbatim>\<open>site_events.rs\<close>): the hub of event buffers, the reader behind a connection, and the
    handlers whose events appear only after the commit (locale \<open>staging_handler\<close>). \<^verbatim>\<open>Site_Approvals\<close>
    (\<^verbatim>\<open>site_approvals.rs\<close>). \<^verbatim>\<open>Site_History\<close>: the runs \<open>site_run\<close> of approvals, withdrawals, sign-ins
    and all of \<open>identity_step\<close>, in which a sign-in may have read the approval of an earlier database, and the sign-in
    that a withdrawal overtakes.

  \<^item> Proxy (\<^verbatim>\<open>public-api/src\<close>). \<^verbatim>\<open>Gateway\<close> (\<^verbatim>\<open>gateway.rs\<close>, \<^verbatim>\<open>gateway/headers.rs\<close>, \<^verbatim>\<open>gateway/public.rs\<close>,
    \<^verbatim>\<open>refuses\<close> of \<^verbatim>\<open>notes.rs\<close>): the request that goes to a service, and the answer that goes to the client, as a
    function of what the exchange came to. \<^verbatim>\<open>Gateway_Capabilities\<close>: the board the background probes keep.

  \<^bold>\<open>What the theorems show.\<close> The properties of a component are the theorems of its theory; those that span
  components stand in the highest theory they need: a report is applied only by the authority of its operation
  (\<^verbatim>\<open>Projection\<close>); what a consumer run leaves is the abstract absorption of what was delivered (\<^verbatim>\<open>Projection\<close>); a
  proxied request stays within the limits of an accepted configuration (\<^verbatim>\<open>Gateway\<close> over
  \<^verbatim>\<open>Startup_Rules\<close>); whatever is committed in whatever order, the identity schema forgets no ending
  (\<^verbatim>\<open>Identity_History\<close>) and an owner's session on a site implies a current approval, unless a withdrawal overtook its sign-in
  (\<^verbatim>\<open>Site_History\<close>); a
  dispatched site route serves only whom its class admits (\<^verbatim>\<open>Site_Dispatch\<close>). Some theorems are about what
  the code does and its documentation does not say: a producer name the inbox cannot hold is redelivered for ever
  (\<^verbatim>\<open>Delivery\<close>), a schedule that is rewound past the retention window is stuck (\<^verbatim>\<open>Scheduling\<close>), a key that outlived its
  ledger row times out (\<^verbatim>\<open>Intake\<close>, \<^verbatim>\<open>Webhook\<close>), a refresh link ends with its session
  (\<^verbatim>\<open>Credential_Routes\<close>), a sign-in outlives a withdrawal that overtakes it (\<^verbatim>\<open>Site_History\<close>), and presentations of a pairing code with a wrong kind are not counted (\<^verbatim>\<open>Device_Routes\<close>).

  \<^bold>\<open>Bounds and fuel.\<close> Two functions take fuel: the walk of a client along a listing, whose theorems give it one page more
  than there are rows, which is enough because every page but the last has a row; and nothing else loops on
  fuel. Passes (pump, scheduler, reaper, consumer) recurse on the list of what they selected or were handed.
  A history is a reflexive transitive closure of steps, or a list of them, of any length.

  \<^bold>\<open>Not modelled\<close>, and why. Sockets, the layers of the listeners, signals and shutdown timing, the connection pool;
  tracing, metrics and trace context; provisioning, observation and erasure of JetStream streams and the rendering of
  the broker's configuration (\<^verbatim>\<open>eventing/src/stream.rs\<close>, \<^verbatim>\<open>nats-profile\<close>); the OpenAPI documents
  (\<^verbatim>\<open>api-doc\<close>, the \<^verbatim>\<open>ROUTE\<close> constants and doc structures of each route); the wiring of the processes
  (\<^verbatim>\<open>services/\<close>): these are input and output, or constants. The bytes of a proxied exchange: only what it came
  to is. The rendering of an answer as JSON: an answer is the record it is rendered from. Of the handlers of
  \<^verbatim>\<open>public-api\<close>, those that stage and forward archives, the library and notes routes beyond \<open>refuses\<close>,
  channel digests, OAuth, the operation and status routes and the body of a site edit's upload: they
  read a request, call operations that are modelled here or services that are not, and
  render the answer.
\<close>

end
